(* ===== verification/Prelude.thy ===== *)
theory Prelude
  imports "HOL-Library.Word" "HOL-Library.Monad_Syntax"
begin

text \<open>
  Shared vocabulary of the development: machine integers as words, byte buffers with checked
  access, and the generic list facts the component theories use.

  A pointer into a C++ buffer is an offset into a \<open>byte list\<close>. A load or store outside the
  buffer is undefined behaviour in the source; here it is the value \<open>None\<close> of the option
  monad, so that ``the code never touches memory outside the buffer'' is the statement that a
  definition never returns \<open>None\<close>.
\<close>

unbundle bit_operations_syntax

type_synonym byte = "8 word"
type_synonym u16 = "16 word"
type_synonym u32 = "32 word"
type_synonym u64 = "64 word"
type_synonym u128 = "128 word"

named_theorems mem_simps \<open>checked loads and stores\<close>
named_theorems wire_simps \<open>widths and byte views of wire formats\<close>

section \<open>Checked loads and stores\<close>

definition rd :: "byte list \<Rightarrow> nat \<Rightarrow> byte option" where
  "rd p i = (if i < length p then Some (p ! i) else None)"

definition wr :: "byte list \<Rightarrow> nat \<Rightarrow> byte \<Rightarrow> byte list option" where
  "wr p i v = (if i < length p then Some (p[i := v]) else None)"

definition memrd :: "byte list \<Rightarrow> nat \<Rightarrow> nat \<Rightarrow> byte list option" where
  "memrd p i n = (if i + n \<le> length p then Some (take n (drop i p)) else None)"

definition memwr :: "byte list \<Rightarrow> nat \<Rightarrow> byte list \<Rightarrow> byte list option" where
  "memwr p i v =
     (if i + length v \<le> length p then Some (take i p @ v @ drop (i + length v) p) else None)"

lemma rd_in [mem_simps]: "i < length p \<Longrightarrow> rd p i = Some (p ! i)"
  by (simp add: rd_def)

lemma rd_None_iff: "rd p i = None \<longleftrightarrow> length p \<le> i"
  by (simp add: rd_def)

lemma wr_in [mem_simps]: "i < length p \<Longrightarrow> wr p i v = Some (p[i := v])"
  by (simp add: wr_def)

lemma memrd_in [mem_simps]: "i + n \<le> length p \<Longrightarrow> memrd p i n = Some (take n (drop i p))"
  by (simp add: memrd_def)

lemma memwr_in [mem_simps]:
  "i + length v \<le> length p \<Longrightarrow> memwr p i v = Some (take i p @ v @ drop (i + length v) p)"
  by (simp add: memwr_def)

lemma length_memwr: "memwr p i v = Some q \<Longrightarrow> length q = length p"
  by (auto simp: memwr_def split: if_splits)

lemma nth_memwr:
  assumes "memwr p i v = Some q" and "j < length p"
  shows "q ! j = (if i \<le> j \<and> j < i + length v then v ! (j - i) else p ! j)"
  using assms by (auto simp: memwr_def nth_append split: if_splits)

text \<open>What a buffer holds when its tail is known to start with \<open>x\<close>.\<close>

lemma drop_prefix:
  assumes "drop i p = x @ y" "x \<noteq> []"
  shows "i + length x \<le> length p" "drop (i + length x) p = y" "take (length x) (drop i p) = x"
    "j < length x \<Longrightarrow> p ! (i + j) = x ! j"
proof -
  have l: "length x + length y = length p - i" using assms(1) by (metis length_append length_drop)
  then show il: "i + length x \<le> length p" using assms(2) by (cases x) auto
  show "drop (i + length x) p = y"
    using assms(1) by (metis add.commute append_eq_conv_conj drop_drop)
  show "take (length x) (drop i p) = x" using assms(1) by simp
  show "p ! (i + j) = x ! j" if "j < length x"
  proof -
    have "drop i p ! j = x ! j" using that assms(1) by (simp add: nth_append)
    then show ?thesis using il by simp
  qed
qed

section \<open>Words and bytes\<close>

lemma unat_byte_less [simp]: "unat (b :: byte) < 256"
  using unsigned_less [of b] by simp

lemma unat_byte_le [simp]: "unat (b :: byte) \<le> 255"
  using unat_byte_less [of b] by linarith

lemma unat_u16_less [simp]: "unat (w :: u16) < 65536"
  using unsigned_less [of w] by simp

lemma unat_u32_less [simp]: "unat (w :: u32) < 4294967296"
  using unsigned_less [of w] by simp

lemma unat_ucast_eq_mod: "unat (ucast (w :: 'a::len word) :: 'b::len word) = unat w mod 2 ^ LENGTH('b)"
  by (simp add: unsigned_ucast_eq take_bit_eq_mod)

lemma unat_ucast_byte_u32 [simp]: "unat (ucast (b :: byte) :: u32) = unat b"
  by (simp add: unat_ucast_eq_mod order.strict_trans [OF unat_byte_less])

lemma unat_ucast_byte_u16 [simp]: "unat (ucast (b :: byte) :: u16) = unat b"
  by (simp add: unat_ucast_eq_mod order.strict_trans [OF unat_byte_less])

lemma unat_ucast_u16_u32 [simp]: "unat (ucast (w :: u16) :: u32) = unat w"
  by (simp add: unat_ucast_eq_mod order.strict_trans [OF unat_u16_less])

lemma nat_push_or: "push_bit n x OR y = x * 2 ^ n + y" if "y < 2 ^ n" for x y :: nat
proof -
  have y: "y = take_bit n y" using that by (simp add: take_bit_nat_eq_self)
  have "push_bit n x AND take_bit n y = 0"
    by (rule bit_eqI) (auto simp: bit_simps)
  then have "push_bit n x OR take_bit n y = push_bit n x + take_bit n y"
    by (simp add: disjunctive_add_eq_or)
  then show ?thesis using y by (simp add: push_bit_eq_mult)
qed

lemma nat_256_or: "y < 256 \<Longrightarrow> x * 256 OR y = x * 256 + y" for x y :: nat
  using nat_push_or [of y 8 x] by (simp add: push_bit_eq_mult)

lemma unat_shift8: "unat a * 256 < 2 ^ LENGTH('a) \<Longrightarrow> unat (push_bit 8 a) = unat a * 256"
  for a :: "'a::len word"
  by (subst unsigned_push_bit_eq, subst push_bit_eq_mult, subst take_bit_eq_mod) simp

lemma unat_hi_lo_u16:
  "unat (push_bit 8 (ucast (a :: byte)) OR ucast (b :: byte) :: u16) = unat a * 256 + unat b"
proof -
  have "unat a * 256 < 65536" using unat_byte_less [of a] by linarith
  then have "unat (push_bit 8 (ucast a) :: u16) = unat a * 256"
    by (subst unat_shift8) simp_all
  then show ?thesis
    by (simp only: unsigned_or_eq unat_ucast_byte_u16 nat_256_or unat_byte_less)
qed

lemma unat_hi_lo_u32:
  "unat (push_bit 8 (ucast (a :: byte)) OR ucast (b :: byte) :: u32) = unat a * 256 + unat b"
proof -
  have "unat a * 256 < 4294967296" using unat_byte_less [of a] by linarith
  then have "unat (push_bit 8 (ucast a) :: u32) = unat a * 256"
    by (subst unat_shift8) simp_all
  then show ?thesis
    by (simp only: unsigned_or_eq unat_ucast_byte_u32 nat_256_or unat_byte_less)
qed

lemma unat_hi_u32: "unat (push_bit 8 (ucast (a :: byte)) :: u32) = unat a * 256"
proof -
  have "unat a * 256 < 4294967296" using unat_byte_less [of a] by linarith
  then show ?thesis by (subst unat_shift8) simp_all
qed

lemma unat_drop_bit: "unat (drop_bit n (w :: 'a::len word)) = unat w div 2 ^ n"
  by (subst drop_bit_eq_div) (simp add: unat_div unat_drop_bit_eq flip: drop_bit_eq_div)

lemma unat_take_bit:
  assumes "n \<le> LENGTH('a)"
  shows "unat (take_bit n (w :: 'a::len word)) = unat w mod 2 ^ n"
  using assms by (subst unsigned_take_bit_eq) (simp_all add: take_bit_eq_mod)

lemma and_FF_u16: "(w AND 0xFF :: u16) = take_bit 8 w"
  by (simp only: take_bit_eq_mask) (simp add: mask_eq_exp_minus_1)

lemma unat_hi_byte: "unat (ucast (drop_bit 8 (w :: u16)) :: byte) = unat w div 256"
proof -
  have "unat w div 256 < 256" using unat_u16_less [of w] by linarith
  then show ?thesis by (simp only: unat_ucast_eq_mod unat_drop_bit) simp
qed

lemma unat_lo_byte: "unat (ucast (w AND 0xFF :: u16) :: byte) = unat w mod 256"
  by (simp only: and_FF_u16 unat_ucast_eq_mod) (subst unat_take_bit, simp_all)

lemma unat_lo_nibble: "unat (b AND 0x0F :: byte) = unat b mod 16"
proof -
  have "(b AND 0x0F :: byte) = take_bit 4 b"
    by (simp only: take_bit_eq_mask) (simp add: mask_eq_exp_minus_1)
  then show ?thesis by (simp only:) (subst unat_take_bit, simp_all)
qed

lemma unat_hi_nibble: "unat (drop_bit 4 (b :: byte)) = unat b div 16"
  by (simp only: unat_drop_bit) simp

section \<open>C integers\<close>

text \<open>A conversion of an unsigned size to the 32-bit \<open>int\<close> of the source.\<close>

definition c_int :: "nat \<Rightarrow> int" where
  "c_int n = signed_take_bit 31 (int n)"

lemma c_int_small [simp]: "n < 2147483648 \<Longrightarrow> c_int n = int n"
  by (simp add: c_int_def signed_take_bit_int_eq_self)

end
