(* ===== verification/Checksum.thy ===== *)
theory Checksum
  imports Prelude
begin

text \<open>
  The checksum and address primitives of \<open>src/common/network/ip_utils.h\<close>: big-endian access, the
  RFC 1071 sum with its 32-bit accumulator, the IPv4 and IPv6 address accessors and the routines
  that rewrite header and transport checksums in place. A packet is a \<open>byte list\<close>; the pointer
  arguments \<open>p\<close>, \<open>tcp\<close>, \<open>udp\<close>, \<open>icmp\<close> are the list and an offset. \<open>None\<close> is an access
  outside the buffer.
\<close>

section \<open>Definitions\<close>

definition ReadU16Be :: "byte list \<Rightarrow> nat \<Rightarrow> u16 option" where
  "ReadU16Be p i = do {
     a \<leftarrow> rd p i;
     b \<leftarrow> rd p (i + 1);
     Some (push_bit 8 (ucast a) OR ucast b)
   }"

definition WriteU16Be :: "byte list \<Rightarrow> nat \<Rightarrow> u16 \<Rightarrow> byte list option" where
  "WriteU16Be p i v = do {
     p \<leftarrow> wr p i (ucast (drop_bit 8 v));
     wr p (i + 1) (ucast (v AND 0xFF))
   }"

text \<open>The two loops of \<open>Rfc1071\<close>. \<open>len\<close> is the signed \<open>int\<close> of the source: a negative length
  would skip the loop and still read one byte.\<close>

fun rfc_sum :: "byte list \<Rightarrow> nat \<Rightarrow> int \<Rightarrow> u32 \<Rightarrow> u32 option" where
  "rfc_sum p i len s =
     (if len > 1 then do {
        a \<leftarrow> rd p i;
        b \<leftarrow> rd p (i + 1);
        rfc_sum p (i + 2) (len - 2) (s + (push_bit 8 (ucast a) OR ucast b))
      }
      else if len \<noteq> 0 then do {
        a \<leftarrow> rd p i;
        Some (s + push_bit 8 (ucast a))
      }
      else Some s)"

declare rfc_sum.simps [simp del]

lemma unat_fold_step:
  fixes s :: u32
  shows "unat ((s AND 0xFFFF) + drop_bit 16 s) = unat s mod 65536 + unat s div 65536"
proof -
  have "(s AND 0xFFFF) = take_bit 16 s"
    by (simp only: take_bit_eq_mask) (simp add: mask_eq_exp_minus_1)
  moreover have "unat (take_bit 16 s) = unat s mod 65536"
    by (subst unat_take_bit) simp_all
  moreover have "unat (drop_bit 16 s) = unat s div 65536"
    by (subst unat_drop_bit) simp
  moreover have "unat s mod 65536 + unat s div 65536 < 4294967296"
    using unat_u32_less [of s] by linarith
  ultimately show ?thesis by (simp only: unat_word_ariths) simp
qed

lemma drop16_zero_iff: "drop_bit 16 (s :: u32) = 0 \<longleftrightarrow> unat s < 65536"
proof -
  have "drop_bit 16 s = 0 \<longleftrightarrow> unat (drop_bit 16 s) = 0"
    by (metis unat_0 unat_eq_zero)
  also have "\<dots> \<longleftrightarrow> unat s < 65536"
    by (subst unat_drop_bit) (simp add: div_eq_0_iff)
  finally show ?thesis .
qed

function rfc_fold :: "u32 \<Rightarrow> u32" where
  "rfc_fold s =
     (if drop_bit 16 s \<noteq> 0 then rfc_fold ((s AND 0xFFFF) + drop_bit 16 s) else s)"
  by auto
termination
proof (relation "measure unat")
  fix s :: u32
  assume "drop_bit 16 s \<noteq> 0"
  then have "\<not> unat s < 65536" by (simp only: drop16_zero_iff not_False_eq_True)
  then have "0 < unat s div 65536" by (simp add: div_greater_zero_iff)
  then have "unat s mod 65536 + unat s div 65536 < unat s"
    using mod_div_mult_eq [of "unat s" 65536] by linarith
  then show "((s AND 0xFFFF) + drop_bit 16 s, s) \<in> measure unat"
    by (simp only: in_measure unat_fold_step)
qed simp

declare rfc_fold.simps [simp del]

definition Rfc1071 :: "byte list \<Rightarrow> nat \<Rightarrow> int \<Rightarrow> u32 \<Rightarrow> u16 option" where
  "Rfc1071 p i len s = do {
     s \<leftarrow> rfc_sum p i len s;
     Some (ucast (NOT (rfc_fold s)))
   }"

definition Ipv4GetSrc :: "byte list \<Rightarrow> byte list option" where
  "Ipv4GetSrc p = memrd p 12 4"

definition Ipv4GetDst :: "byte list \<Rightarrow> byte list option" where
  "Ipv4GetDst p = memrd p 16 4"

definition Ipv4SetSrc :: "byte list \<Rightarrow> byte list \<Rightarrow> byte list option" where
  "Ipv4SetSrc p a = memwr p 12 a"

definition Ipv4SetDst :: "byte list \<Rightarrow> byte list \<Rightarrow> byte list option" where
  "Ipv4SetDst p a = memwr p 16 a"

definition Ipv6GetSrc :: "byte list \<Rightarrow> byte list option" where
  "Ipv6GetSrc p = memrd p 8 16"

definition Ipv6GetDst :: "byte list \<Rightarrow> byte list option" where
  "Ipv6GetDst p = memrd p 24 16"

definition Ipv6SetSrc :: "byte list \<Rightarrow> byte list \<Rightarrow> byte list option" where
  "Ipv6SetSrc p a = memwr p 8 a"

definition Ipv6SetDst :: "byte list \<Rightarrow> byte list \<Rightarrow> byte list option" where
  "Ipv6SetDst p a = memwr p 24 a"

text \<open>\<open>(p[0] & 0x0F) * 4\<close>, the header length every IPv4 routine computes first.\<close>

definition ihl_of :: "byte list \<Rightarrow> nat option" where
  "ihl_of p = do { b \<leftarrow> rd p 0; Some (unat (b AND 0x0F) * 4) }"

definition ChecksumIpv4Header :: "byte list \<Rightarrow> byte list option" where
  "ChecksumIpv4Header p = do {
     ihl \<leftarrow> ihl_of p;
     p \<leftarrow> WriteU16Be p 10 0;
     ck \<leftarrow> Rfc1071 p 0 (int ihl) 0;
     WriteU16Be p 10 ck
   }"

text \<open>The \<open>for (i = 0; i < n; i += 2)\<close> loop over the pseudo-header.\<close>

function pseudo_sum :: "byte list \<Rightarrow> nat \<Rightarrow> nat \<Rightarrow> u32 \<Rightarrow> u32 option" where
  "pseudo_sum ph i n s =
     (if i < n then do {
        a \<leftarrow> rd ph i;
        b \<leftarrow> rd ph (i + 1);
        pseudo_sum ph (i + 2) n (s + (push_bit 8 (ucast a) OR ucast b))
      }
      else Some s)"
  by auto
termination by (relation "measure (\<lambda>(ph, i, n, s). n - i)") auto

declare pseudo_sum.simps [simp del]

text \<open>The twelve bytes \<open>ph[12]\<close> built from an IPv4 packet.\<close>

definition pseudo_ipv4 :: "byte list \<Rightarrow> byte \<Rightarrow> int \<Rightarrow> byte list option" where
  "pseudo_ipv4 p proto seg_len = do {
     src \<leftarrow> memrd p 12 4;
     ph \<leftarrow> memwr (replicate 12 0) 0 src;
     dst \<leftarrow> memrd p 16 4;
     ph \<leftarrow> memwr ph 4 dst;
     ph \<leftarrow> wr ph 8 0;
     ph \<leftarrow> wr ph 9 proto;
     WriteU16Be ph 10 (word_of_int seg_len)
   }"

text \<open>The forty bytes \<open>ph[40]\<close> built from an IPv6 packet.\<close>

definition pseudo_ipv6 :: "byte list \<Rightarrow> byte \<Rightarrow> int \<Rightarrow> byte list option" where
  "pseudo_ipv6 p proto seg_len = do {
     src \<leftarrow> memrd p 8 16;
     ph \<leftarrow> memwr (replicate 40 0) 0 src;
     dst \<leftarrow> memrd p 24 16;
     ph \<leftarrow> memwr ph 16 dst;
     ph \<leftarrow> WriteU16Be ph 34 (word_of_int seg_len);
     wr ph 39 proto
   }"

definition ChecksumTcpIpv4 :: "byte list \<Rightarrow> nat \<Rightarrow> byte list option" where
  "ChecksumTcpIpv4 p buf_size = do {
     ihl \<leftarrow> ihl_of p;
     if buf_size < ihl + 18 then Some p
     else do {
       total \<leftarrow> ReadU16Be p 2;
       let tcp_len = min (int (unat total) - int ihl) (c_int buf_size - int ihl);
       if tcp_len \<le> 0 then Some p
       else do {
         ph \<leftarrow> pseudo_ipv4 p 6 tcp_len;
         seed \<leftarrow> pseudo_sum ph 0 12 0;
         p \<leftarrow> WriteU16Be p (ihl + 16) 0;
         ck \<leftarrow> Rfc1071 p ihl tcp_len seed;
         WriteU16Be p (ihl + 16) ck
       }
     }
   }"

definition ChecksumUdpIpv4 :: "byte list \<Rightarrow> nat \<Rightarrow> byte list option" where
  "ChecksumUdpIpv4 p buf_size = do {
     ihl \<leftarrow> ihl_of p;
     if buf_size < ihl + 8 then Some p
     else do {
       total \<leftarrow> ReadU16Be p 2;
       let udp_len = min (int (unat total) - int ihl) (c_int buf_size - int ihl);
       if udp_len \<le> 0 then Some p
       else do {
         ph \<leftarrow> pseudo_ipv4 p 17 udp_len;
         seed \<leftarrow> pseudo_sum ph 0 12 0;
         p \<leftarrow> WriteU16Be p (ihl + 6) 0;
         ck \<leftarrow> Rfc1071 p ihl udp_len seed;
         WriteU16Be p (ihl + 6) (if ck = 0 then 0xFFFF else ck)
       }
     }
   }"

definition ChecksumIcmpIpv4 :: "byte list \<Rightarrow> nat \<Rightarrow> byte list option" where
  "ChecksumIcmpIpv4 p buf_size = do {
     ihl \<leftarrow> ihl_of p;
     if buf_size < ihl + 4 then Some p
     else do {
       total \<leftarrow> ReadU16Be p 2;
       let icmp_len = min (int (unat total) - int ihl) (c_int buf_size - int ihl);
       if icmp_len \<le> 0 then Some p
       else do {
         p \<leftarrow> WriteU16Be p (ihl + 2) 0;
         ck \<leftarrow> Rfc1071 p ihl icmp_len 0;
         WriteU16Be p (ihl + 2) ck
       }
     }
   }"

definition ChecksumTcpIpv6 :: "byte list \<Rightarrow> nat \<Rightarrow> byte list option" where
  "ChecksumTcpIpv6 p buf_size =
     (if buf_size < 40 + 18 then Some p
      else do {
        payload \<leftarrow> ReadU16Be p 4;
        let tcp_len = min (int (unat payload)) (c_int buf_size - 40);
        if tcp_len \<le> 0 then Some p
        else do {
          ph \<leftarrow> pseudo_ipv6 p 6 tcp_len;
          seed \<leftarrow> pseudo_sum ph 0 40 0;
          p \<leftarrow> WriteU16Be p (40 + 16) 0;
          ck \<leftarrow> Rfc1071 p 40 tcp_len seed;
          WriteU16Be p (40 + 16) ck
        }
      })"

definition ChecksumUdpIpv6 :: "byte list \<Rightarrow> nat \<Rightarrow> byte list option" where
  "ChecksumUdpIpv6 p buf_size =
     (if buf_size < 40 + 8 then Some p
      else do {
        payload \<leftarrow> ReadU16Be p 4;
        let udp_len = min (int (unat payload)) (c_int buf_size - 40);
        if udp_len \<le> 0 then Some p
        else do {
          ph \<leftarrow> pseudo_ipv6 p 17 udp_len;
          seed \<leftarrow> pseudo_sum ph 0 40 0;
          p \<leftarrow> WriteU16Be p (40 + 6) 0;
          ck \<leftarrow> Rfc1071 p 40 udp_len seed;
          WriteU16Be p (40 + 6) (if ck = 0 then 0xFFFF else ck)
        }
      })"

definition ChecksumIcmpv6Ipv6 :: "byte list \<Rightarrow> nat \<Rightarrow> byte list option" where
  "ChecksumIcmpv6Ipv6 p buf_size =
     (if buf_size < 40 + 4 then Some p
      else do {
        payload \<leftarrow> ReadU16Be p 4;
        let icmp_len = min (int (unat payload)) (c_int buf_size - 40);
        if icmp_len \<le> 0 then Some p
        else do {
          ph \<leftarrow> pseudo_ipv6 p 58 icmp_len;
          seed \<leftarrow> pseudo_sum ph 0 40 0;
          p \<leftarrow> WriteU16Be p (40 + 2) 0;
          ck \<leftarrow> Rfc1071 p 40 icmp_len seed;
          WriteU16Be p (40 + 2) ck
        }
      })"

definition RecalculateChecksums :: "byte list \<Rightarrow> nat \<Rightarrow> byte list option" where
  "RecalculateChecksums p buf_size =
     (if buf_size < 1 then Some p
      else do {
        b0 \<leftarrow> rd p 0;
        let version = drop_bit 4 b0;
        if version = 4 then
          if buf_size < 20 then Some p
          else do {
            proto \<leftarrow> rd p 9;
            p \<leftarrow> (if proto = 6 then ChecksumTcpIpv4 p buf_size
                 else if proto = 17 then ChecksumUdpIpv4 p buf_size
                 else if proto = 1 then ChecksumIcmpIpv4 p buf_size
                 else Some p);
            ChecksumIpv4Header p
          }
        else if version = 6 then
          if buf_size < 40 then Some p
          else do {
            next_header \<leftarrow> rd p 6;
            if next_header = 6 then ChecksumTcpIpv6 p buf_size
            else if next_header = 17 then ChecksumUdpIpv6 p buf_size
            else if next_header = 58 then ChecksumIcmpv6Ipv6 p buf_size
            else Some p
          }
        else Some p
      })"

section \<open>Reference definitions\<close>

text \<open>The sum of the big-endian 16-bit units of a byte string, an odd last byte padded with
  zero, over the natural numbers; a string carries a correct checksum when its one's complement
  sum is all ones, i.e. a positive multiple of 65535.\<close>

fun be_sum :: "byte list \<Rightarrow> nat" where
  "be_sum (a # b # r) = unat a * 256 + unat b + be_sum r"
| "be_sum [a] = unat a * 256"
| "be_sum [] = 0"

definition ones_ok :: "nat \<Rightarrow> bool" where
  "ones_ok n \<longleftrightarrow> 0 < n \<and> n mod 65535 = 0"

definition fold16 :: "nat \<Rightarrow> nat" where
  "fold16 n = (if n = 0 then 0 else (n - 1) mod 65535 + 1)"

definition ihl4 :: "byte list \<Rightarrow> nat" where
  "ihl4 p = unat (p ! 0) mod 16 * 4"

definition total4 :: "byte list \<Rightarrow> nat" where
  "total4 p = unat (p ! 2) * 256 + unat (p ! 3)"

definition segment4 :: "byte list \<Rightarrow> byte list" where
  "segment4 p = take (min (total4 p) (length p) - ihl4 p) (drop (ihl4 p) p)"

definition be16 :: "nat \<Rightarrow> byte list" where
  "be16 n = [word_of_nat (n div 256), word_of_nat (n mod 256)]"

definition pseudo4 :: "byte list \<Rightarrow> byte \<Rightarrow> byte list" where
  "pseudo4 p proto =
     take 4 (drop 12 p) @ take 4 (drop 16 p) @ [0, proto] @ be16 (length (segment4 p))"

definition header_ok4 :: "byte list \<Rightarrow> bool" where
  "header_ok4 p \<longleftrightarrow> ones_ok (be_sum (take (ihl4 p) p))"

definition transport_ok4 :: "byte list \<Rightarrow> bool" where
  "transport_ok4 p \<longleftrightarrow>
     (if p ! 9 = 1 then ones_ok (be_sum (segment4 p))
      else ones_ok (be_sum (pseudo4 p (p ! 9)) + be_sum (segment4 p)))"

definition segment6 :: "byte list \<Rightarrow> byte list" where
  "segment6 p = take (min (unat (p ! 4) * 256 + unat (p ! 5)) (length p - 40)) (drop 40 p)"

definition pseudo6 :: "byte list \<Rightarrow> byte \<Rightarrow> byte list" where
  "pseudo6 p proto =
     take 16 (drop 8 p) @ take 16 (drop 24 p) @ [0, 0] @ be16 (length (segment6 p)) @ [0, 0, 0, proto]"

definition transport_ok6 :: "byte list \<Rightarrow> bool" where
  "transport_ok6 p \<longleftrightarrow> ones_ok (be_sum (pseudo6 p (p ! 6)) + be_sum (segment6 p))"

section \<open>Sums\<close>

lemma be_sum_append: "even (length xs) \<Longrightarrow> be_sum (xs @ ys) = be_sum xs + be_sum ys"
  by (induction xs rule: be_sum.induct) auto

lemma be_sum_le: "be_sum xs \<le> 65280 * length xs"
proof (induction xs rule: be_sum.induct)
  case (1 a b r)
  have "unat a * 256 + unat b \<le> 130560"
    using unat_byte_le [of a] unat_byte_le [of b] by linarith
  with 1 show ?case by simp
next
  case (2 a)
  then show ?case using unat_byte_le [of a] by simp
qed simp

lemma be_sum_drop2:
  "i + 1 < length p \<Longrightarrow> 1 < n \<Longrightarrow>
   be_sum (take n (drop i p)) =
     unat (p ! i) * 256 + unat (p ! (i + 1)) + be_sum (take (n - 2) (drop (i + 2) p))"
  by (cases n; cases "n - 1")
    (simp_all add: take_Cons' Cons_nth_drop_Suc [symmetric] drop_Suc_Cons)

lemma rfc_sum_spec:
  assumes "i + n \<le> length p"
  shows "\<exists>t. rfc_sum p i (int n) s = Some t \<and>
             unat t = (unat s + be_sum (take n (drop i p))) mod 4294967296"
  using assms
proof (induction n arbitrary: i s rule: less_induct)
  case (less n)
  consider "n = 0" | "n = 1" | "1 < n" by linarith
  then show ?case
  proof cases
    case 1
    then show ?thesis by (simp add: rfc_sum.simps)
  next
    case 2
    then have "take n (drop i p) = [p ! i]"
      using less.prems by (simp add: take_Suc_conv_app_nth)
    then show ?thesis using 2 less.prems
      by (simp add: rfc_sum.simps mem_simps unat_word_ariths unat_hi_u32 del: push_bit_numeral)
  next
    case 3
    let ?s = "s + (push_bit 8 (ucast (p ! i)) OR ucast (p ! (i + 1)))"
    have "\<exists>t. rfc_sum p (i + 2) (int (n - 2)) ?s = Some t \<and>
        unat t = (unat ?s + be_sum (take (n - 2) (drop (i + 2) p))) mod 4294967296"
      using 3 less.prems by (intro less.IH) auto
    moreover have "rfc_sum p i (int n) s = rfc_sum p (i + 2) (int (n - 2)) ?s"
      using 3 less.prems by (subst rfc_sum.simps) (simp add: mem_simps of_nat_diff)
    moreover have "unat ?s = (unat s + unat (p ! i) * 256 + unat (p ! (i + 1))) mod 4294967296"
      by (simp only: unat_word_ariths unat_hi_lo_u32) (simp add: add.assoc)
    ultimately show ?thesis
      using 3 less.prems by (simp add: be_sum_drop2 mod_simps add.assoc)
  qed
qed

lemma pseudo_sum_eq_rfc_sum:
  "even (n - i) \<Longrightarrow> i \<le> n \<Longrightarrow> pseudo_sum p i n s = rfc_sum p i (int n - int i) s"
proof (induction p i n s rule: pseudo_sum.induct)
  case (1 p i n s)
  show ?case
  proof (cases "i < n")
    case True
    then have "i + 2 \<le> n" using "1.prems" by presburger
    then show ?thesis using "1.prems" "1.IH" [OF True] True
      by (subst pseudo_sum.simps, subst rfc_sum.simps)
        (auto intro!: Option.bind_cong [OF refl] simp: algebra_simps even_diff_nat)
  next
    case False
    then show ?thesis using "1.prems"
      by (subst pseudo_sum.simps, subst rfc_sum.simps) simp
  qed
qed

lemma fold16_step: "65536 \<le> m \<Longrightarrow> fold16 (m mod 65536 + m div 65536) = fold16 m"
proof -
  assume m: "65536 \<le> m"
  then have "0 < m div 65536" by (simp add: div_greater_zero_iff)
  then obtain d where d: "m div 65536 = Suc d" using gr0_implies_Suc by blast
  have "m = m div 65536 * 65536 + m mod 65536" by simp
  then have "m - 1 = (m mod 65536 + d) + 65535 * Suc d" unfolding d by simp
  then have "(m - 1) mod 65535 = (m mod 65536 + d) mod 65535"
    by (metis mod_mult_self2)
  then show ?thesis using m d by (simp add: fold16_def)
qed

lemma unat_rfc_fold: "unat (rfc_fold s) = fold16 (unat s)"
proof (induction s rule: rfc_fold.induct)
  case (1 s)
  show ?case
  proof (cases "unat s < 65536")
    case True
    then have "rfc_fold s = s"
      by (subst rfc_fold.simps) (simp only: drop16_zero_iff not_True_eq_False if_False)
    moreover have "fold16 (unat s) = unat s"
      using True by (cases "unat s = 65535") (auto simp: fold16_def)
    ultimately show ?thesis by simp
  next
    case False
    then have "drop_bit 16 s \<noteq> 0" by (simp only: drop16_zero_iff not_False_eq_True)
    then have "rfc_fold s = rfc_fold ((s AND 0xFFFF) + drop_bit 16 s)"
      by (subst rfc_fold.simps) (simp only: not_False_eq_True if_True)
    moreover have "unat (rfc_fold ((s AND 0xFFFF) + drop_bit 16 s)) =
        fold16 (unat ((s AND 0xFFFF) + drop_bit 16 s))"
      using 1 False by (simp only: drop16_zero_iff not_False_eq_True)
    ultimately show ?thesis using False
      by (simp only: unat_fold_step fold16_step not_less)
  qed
qed

lemma fold16_le: "fold16 n \<le> 65535"
  by (auto simp: fold16_def Suc_le_eq)

lemma fold16_cong: "fold16 n mod 65535 = n mod 65535"
proof (cases n)
  case (Suc m)
  then show ?thesis by (simp add: fold16_def mod_Suc_eq)
qed (simp add: fold16_def)

lemma unat_not_u32: "unat (NOT (x :: u32)) = 4294967295 - unat x"
proof -
  have u: "uint x < 4294967296" using unsigned_less [of x, where ?'a = int] by simp
  have "uint (NOT x) = (- uint x - 1) mod 4294967296"
    by (simp add: unsigned_not_eq not_int_def take_bit_eq_mod)
  also have "\<dots> = (4294967295 - uint x) mod 4294967296"
  proof -
    have "4294967295 - uint x = (- uint x - 1) + 1 * 4294967296" by simp
    then show ?thesis by (simp only: mod_mult_self1)
  qed
  also have "\<dots> = 4294967295 - uint x"
    using u unsigned_greater_eq [of x, where ?'a = int] by (intro mod_pos_pos_trivial) linarith+
  finally have e: "uint (NOT x) = 4294967295 - uint x" .
  show ?thesis
    unfolding unat_eq_nat_uint e using u unsigned_greater_eq [of x, where ?'a = int] by linarith
qed

lemma Rfc1071_spec:
  assumes "i + n \<le> length p" and "unat s + be_sum (take n (drop i p)) < 4294967296"
  shows "\<exists>ck. Rfc1071 p i (int n) s = Some ck \<and>
              unat ck = 65535 - fold16 (unat s + be_sum (take n (drop i p)))"
proof -
  obtain t where t: "rfc_sum p i (int n) s = Some t"
    and ut: "unat t = unat s + be_sum (take n (drop i p))"
    using rfc_sum_spec [OF assms(1), of s] assms(2) by auto
  have "unat (ucast (NOT (rfc_fold t)) :: u16) = (4294967295 - fold16 (unat t)) mod 65536"
    by (simp only: unat_ucast_eq_mod unat_not_u32 unat_rfc_fold) simp
  also have "\<dots> = 65535 - fold16 (unat t)"
  proof -
    have "4294967295 - fold16 (unat t) = 65535 - fold16 (unat t) + 65535 * 65536"
      using fold16_le [of "unat t"] by linarith
    then have "(4294967295 - fold16 (unat t)) mod 65536 = (65535 - fold16 (unat t)) mod 65536"
      by (simp only: mod_mult_self1)
    then show ?thesis by simp
  qed
  finally show ?thesis using t ut by (simp add: Rfc1071_def)
qed

lemma ones_ok_fill:
  "ones_ok (m + (65535 - fold16 m))" "fold16 m = 65535 \<Longrightarrow> ones_ok (m + 65535)"
proof -
  have "(m + (65535 - fold16 m)) mod 65535 = (fold16 m + (65535 - fold16 m)) mod 65535"
    using fold16_cong [of m] by (metis mod_add_left_eq)
  then have *: "(m + (65535 - fold16 m)) mod 65535 = 0"
    using fold16_le [of m] by simp
  have "0 < m + (65535 - fold16 m)"
    by (cases m) (simp_all add: fold16_def)
  with * show "ones_ok (m + (65535 - fold16 m))" by (simp add: ones_ok_def)
  show "ones_ok (m + 65535)" if "fold16 m = 65535"
    using * that by (simp add: ones_ok_def)
qed

lemma ReadU16Be_in [mem_simps]:
  "i + 1 < length p \<Longrightarrow>
   ReadU16Be p i = Some (push_bit 8 (ucast (p ! i)) OR ucast (p ! (i + 1)))"
  by (simp add: ReadU16Be_def mem_simps)

lemma ReadU16Be_defined: "i + 2 \<le> length p \<Longrightarrow> \<exists>w. ReadU16Be p i = Some w"
  by (simp add: ReadU16Be_in)

lemma WriteU16Be_in [mem_simps]:
  "i + 1 < length p \<Longrightarrow>
   WriteU16Be p i v = Some (p[i := ucast (drop_bit 8 v), i + 1 := ucast (v AND 0xFF)])"
  by (simp add: WriteU16Be_def mem_simps)

section \<open>Storing a checksum\<close>

text \<open>The three statements every routine ends with: clear the field, sum the region, store.\<close>

definition put_checksum ::
    "byte list \<Rightarrow> nat \<Rightarrow> int \<Rightarrow> nat \<Rightarrow> u32 \<Rightarrow> (u16 \<Rightarrow> u16) \<Rightarrow> byte list option" where
  "put_checksum p i len at s f = do {
     p \<leftarrow> WriteU16Be p at 0;
     ck \<leftarrow> Rfc1071 p i len s;
     WriteU16Be p at (f ck)
   }"

definition udp_fix :: "u16 \<Rightarrow> u16" where
  "udp_fix ck = (if ck = 0 then 0xFFFF else ck)"

lemma be_sum_set16:
  assumes "even k" "k + 1 < length xs"
  shows "be_sum (xs[k := a, k + 1 := b]) =
         be_sum (xs[k := 0, k + 1 := 0]) + unat a * 256 + unat b"
proof -
  have *: "xs[k := x, k + 1 := y] = take k xs @ [x, y] @ drop (k + 2) xs" for x y
    using assms(2)
    by (simp add: list_eq_iff_nth_eq nth_append nth_list_update) (auto simp: nth_Cons' Suc_diff_Suc numeral_2_eq_2)
  show ?thesis
    using assms by (simp only: *) (simp add: be_sum_append min_def)
qed

lemma take_drop_set16:
  assumes "i \<le> at" "at + 1 < i + n" "i + n \<le> length p"
  shows "take n (drop i (p[at := a, at + 1 := b])) =
         (take n (drop i p))[at - i := a, at - i + 1 := b]"
  using assms by (simp add: list_eq_iff_nth_eq nth_list_update) auto

lemma unat_set16: "unat (ucast (drop_bit 8 v) :: byte) * 256 + unat (ucast (v AND 0xFF) :: byte) = unat (v :: u16)"
  by (simp only: unat_hi_byte unat_lo_byte) simp

definition same_outside :: "nat set \<Rightarrow> byte list \<Rightarrow> byte list \<Rightarrow> bool" where
  "same_outside A p q \<longleftrightarrow> length q = length p \<and> (\<forall>j < length p. j \<notin> A \<longrightarrow> q ! j = p ! j)"

lemma same_outside_set16: "same_outside {k, k + 1} p (p[k := a, k + 1 := b])"
  by (auto simp: same_outside_def nth_list_update)

lemma put_checksum_spec:
  assumes reg: "i + n \<le> length p" and at: "at + 1 < length p"
    and small: "unat s + 65280 * n < 4294967296"
    and f: "f = (\<lambda>ck. ck) \<or> f = udp_fix"
  shows "\<exists>q. put_checksum p i (int n) at s f = Some q \<and> same_outside {at, at + 1} p q \<and>
             (i \<le> at \<and> at + 1 < i + n \<and> even (at - i) \<longrightarrow>
                ones_ok (unat s + be_sum (take n (drop i q))))"
proof -
  let ?p0 = "p[at := 0, at + 1 := 0]"
  let ?m = "unat s + be_sum (take n (drop i ?p0))"
  have "be_sum (take n (drop i ?p0)) \<le> 65280 * n"
    using be_sum_le [of "take n (drop i ?p0)"] reg by simp
  then have "?m < 4294967296" using small by linarith
  moreover have "i + n \<le> length ?p0" using reg by simp
  ultimately obtain ck where ck: "Rfc1071 ?p0 i (int n) s = Some ck" "unat ck = 65535 - fold16 ?m"
    using Rfc1071_spec [of i n ?p0 s] by blast
  let ?q = "p[at := ucast (drop_bit 8 (f ck)), at + 1 := ucast (f ck AND 0xFF)]"
  have 0: "ucast (drop_bit 8 (0 :: u16)) = (0 :: byte)" "ucast ((0 :: u16) AND 0xFF) = (0 :: byte)"
    by simp_all
  have "put_checksum p i (int n) at s f = Some ?q"
    unfolding put_checksum_def using at ck(1)
    by (simp only: mem_simps Option.bind.bind_lunit 0 length_list_update)
      (simp add: list_update_swap [of "Suc at" at])
  moreover have "ones_ok (unat s + be_sum (take n (drop i ?q)))"
    if "i \<le> at" "at + 1 < i + n" "even (at - i)"
  proof -
    have "be_sum (take n (drop i ?q)) = be_sum (take n (drop i ?p0)) + unat (f ck)"
      using that reg by (simp only: take_drop_set16)
        (subst be_sum_set16, simp_all only: unat_set16 add.assoc, simp_all)
    moreover have "ones_ok (?m + unat (f ck))"
    proof (cases "f ck = ck")
      case True
      then show ?thesis using ck(2) ones_ok_fill(1) by simp
    next
      case False
      then have "ck = 0" "unat (f ck) = 65535"
        using f by (auto simp: udp_fix_def split: if_splits)
      then show ?thesis using ck(2) fold16_le [of ?m] ones_ok_fill(2) [of ?m] by simp
    qed
    ultimately show ?thesis by (simp add: add.assoc)
  qed
  ultimately show ?thesis using same_outside_set16 by blast
qed

lemma same_outside_nth: "same_outside A p q \<Longrightarrow> j < length p \<Longrightarrow> j \<notin> A \<Longrightarrow> q ! j = p ! j"
  by (simp add: same_outside_def)

lemma same_outside_length: "same_outside A p q \<Longrightarrow> length q = length p"
  by (simp add: same_outside_def)

lemma same_outside_refl [simp]: "same_outside A p p"
  by (simp add: same_outside_def)

lemma same_outside_trans:
  "same_outside A p q \<Longrightarrow> same_outside B q r \<Longrightarrow> same_outside (A \<union> B) p r"
  by (simp add: same_outside_def)

lemma same_outside_slice:
  assumes "same_outside A p q" "\<And>j. i \<le> j \<Longrightarrow> j < i + n \<Longrightarrow> j \<notin> A"
  shows "take n (drop i q) = take n (drop i p)"
  using assms by (auto simp: list_eq_iff_nth_eq same_outside_def)

section \<open>The transport routines in one form\<close>

text \<open>Every transport routine is the same routine at an offset: nothing when the checksum field
  does not fit the buffer or the segment is empty, \<open>put_checksum\<close> otherwise.\<close>

definition transport_put ::
    "byte list \<Rightarrow> nat \<Rightarrow> nat \<Rightarrow> nat \<Rightarrow> u32 \<Rightarrow> (u16 \<Rightarrow> u16) \<Rightarrow> byte list option" where
  "transport_put p off k at s f =
     (if length p < off + at + 2 \<or> k = 0 then Some p
      else put_checksum p off (int k) (off + at) s f)"

lemma transport_put_spec:
  assumes "off + k \<le> length p" "k \<le> 65535" "unat s \<le> 16711680" "even at"
    and "f = (\<lambda>ck. ck) \<or> f = udp_fix"
  shows "\<exists>q. transport_put p off k at s f = Some q \<and>
             same_outside {off + at, off + at + 1} p q \<and>
             (at + 1 < k \<longrightarrow> ones_ok (unat s + be_sum (take k (drop off q))))"
proof (cases "length p < off + at + 2 \<or> k = 0")
  case True
  then show ?thesis using assms(1) by (auto simp: transport_put_def)
next
  case False
  then have "unat s + 65280 * k < 4294967296" "off + at + 1 < length p"
    using assms by auto
  from put_checksum_spec [OF assms(1) this(2,1) assms(5)] show ?thesis
    using False assms(4) by (auto simp: transport_put_def)
qed

lemma ihl_of_in [mem_simps]: "p \<noteq> [] \<Longrightarrow> ihl_of p = Some (ihl4 p)"
  by (simp add: ihl_of_def mem_simps ihl4_def unat_lo_nibble)

lemma total4_read: "4 \<le> length p \<Longrightarrow>
    \<exists>w. ReadU16Be p 2 = Some w \<and> unat w = total4 p"
  by (simp add: mem_simps total4_def unat_hi_lo_u16 del: push_bit_numeral)

lemma ihl4_le: "ihl4 p \<le> 60"
proof -
  have "unat (p ! 0) mod 16 \<le> 15" by (simp add: less_Suc_eq_le [symmetric])
  then show ?thesis unfolding ihl4_def by linarith
qed

lemma total4_less: "total4 p < 65536"
  using unat_byte_le [of "p ! 2"] unat_byte_le [of "p ! 3"] unfolding total4_def by linarith

lemma length_segment4: "length (segment4 p) = min (total4 p) (length p) - ihl4 p"
  by (simp add: segment4_def)

lemma segment4_conv: "segment4 p = take (length (segment4 p)) (drop (ihl4 p) p)"
  by (simp add: segment4_def)

lemma seg_len4:
  assumes "length p < 2147483648"
  shows "min (int (total4 p) - int (ihl4 p)) (c_int (length p) - int (ihl4 p)) =
           (if ihl4 p \<le> min (total4 p) (length p) then int (length (segment4 p))
            else int (min (total4 p) (length p)) - int (ihl4 p))"
  using assms by (auto simp: length_segment4 of_nat_diff min_def)

lemma be16_word:
  assumes "n < 65536"
  shows "ucast (drop_bit 8 (word_of_nat n :: u16)) = (word_of_nat (n div 256) :: byte)"
    and "ucast ((word_of_nat n :: u16) AND 0xFF) = (word_of_nat (n mod 256) :: byte)"
proof -
  have n: "unat (word_of_nat n :: u16) = n" using assms by (simp add: unat_of_nat)
  have "n div 256 < 256" using assms by linarith
  then show "ucast (drop_bit 8 (word_of_nat n :: u16)) = (word_of_nat (n div 256) :: byte)"
    by (simp only: word_unat_eq_iff unat_hi_byte n) (simp add: unat_of_nat)
  show "ucast ((word_of_nat n :: u16) AND 0xFF) = (word_of_nat (n mod 256) :: byte)"
    by (simp only: word_unat_eq_iff unat_lo_byte n) (simp add: unat_of_nat)
qed

lemma memwr_replicate:
  assumes "length x + length v \<le> n"
  shows "memwr (x @ replicate (n - length x) 0) (length x) v =
         Some ((x @ v) @ replicate (n - length (x @ v)) 0)"
  using assms by (simp add: memwr_def)

lemma list_update_Cons_numeral [simp]:
  "(x # xs)[numeral k := v] = x # xs[pred_numeral k := v]"
  by (simp add: numeral_eq_Suc)

lemma pseudo_ipv4_parts:
  assumes "length s = 4" "length d = 4" "k < 65536"
  shows "memwr (replicate 12 0) 0 s = Some (s @ replicate 8 0)"
    and "memwr (s @ replicate 8 0) 4 d = Some (s @ d @ [0, 0, 0, 0])"
    and "WriteU16Be (s @ d @ [0, proto, 0, 0]) 10 (word_of_int (int k)) =
         Some (s @ d @ [0, proto] @ be16 k)"
proof -
  have r: "replicate 4 (0 :: byte) = [0, 0, 0, 0]" by (simp add: numeral_eq_Suc)
  show "memwr (replicate 12 0) 0 s = Some (s @ replicate 8 0)"
    and "memwr (s @ replicate 8 0) 4 d = Some (s @ d @ [0, 0, 0, 0])"
    using assms(1,2) memwr_replicate [of "[]" s 12] memwr_replicate [of s d 12]
    by (simp_all add: r)
  show "WriteU16Be (s @ d @ [0, proto, 0, 0]) 10 (word_of_int (int k)) =
        Some (s @ d @ [0, proto] @ be16 k)"
    using assms be16_word [OF assms(3)]
    by (simp add: WriteU16Be_in list_update_append be16_def)
qed

lemma pseudo_ipv4_eq:
  assumes "20 \<le> length p" "k = length (segment4 p)"
  shows "pseudo_ipv4 p proto (int k) = Some (pseudo4 p proto)"
proof -
  have k: "k < 65536" using total4_less [of p] assms(2) by (simp add: length_segment4)
  have l: "length (take 4 (drop 12 p)) = 4" "length (take 4 (drop 16 p)) = 4"
    using assms(1) by simp_all
  show ?thesis
    unfolding pseudo_ipv4_def pseudo4_def assms(2) [symmetric]
    using assms(1) pseudo_ipv4_parts [OF l k] l
    by (simp add: memrd_in wr_in list_update_append)
qed

lemma pseudo_ipv6_parts:
  assumes "length s = 16" "length d = 16" "k < 65536"
  shows "memwr (replicate 40 0) 0 s = Some (s @ replicate 24 0)"
    and "memwr (s @ replicate 24 0) 16 d = Some (s @ d @ [0, 0, 0, 0, 0, 0, 0, 0])"
    and "WriteU16Be (s @ d @ [0, 0, 0, 0, 0, 0, 0, 0]) 34 (word_of_int (int k)) =
         Some (s @ d @ [0, 0] @ be16 k @ [0, 0, 0, 0])"
proof -
  have r: "replicate 8 (0 :: byte) = [0, 0, 0, 0, 0, 0, 0, 0]" by (simp add: numeral_eq_Suc)
  show "memwr (replicate 40 0) 0 s = Some (s @ replicate 24 0)"
    and "memwr (s @ replicate 24 0) 16 d = Some (s @ d @ [0, 0, 0, 0, 0, 0, 0, 0])"
    using assms(1,2) memwr_replicate [of "[]" s 40] memwr_replicate [of s d 40]
    by (simp_all add: r)
  show "WriteU16Be (s @ d @ [0, 0, 0, 0, 0, 0, 0, 0]) 34 (word_of_int (int k)) =
        Some (s @ d @ [0, 0] @ be16 k @ [0, 0, 0, 0])"
    using assms be16_word [OF assms(3)]
    by (simp add: WriteU16Be_in list_update_append be16_def)
qed

lemma length_segment6:
  "length (segment6 p) = min (unat (p ! 4) * 256 + unat (p ! 5)) (length p - 40)"
  by (simp add: segment6_def)

lemma segment6_less: "length (segment6 p) < 65536"
  using unat_byte_le [of "p ! 4"] unat_byte_le [of "p ! 5"] unfolding length_segment6 by linarith

lemma pseudo_ipv6_eq:
  assumes "40 \<le> length p" "k = length (segment6 p)"
  shows "pseudo_ipv6 p proto (int k) = Some (pseudo6 p proto)"
proof -
  have k: "k < 65536" using segment6_less [of p] assms(2) by simp
  have l: "length (take 16 (drop 8 p)) = 16" "length (take 16 (drop 24 p)) = 16"
    using assms(1) by simp_all
  have [simp]: "length (be16 k) = 2" by (simp add: be16_def)
  show ?thesis
    unfolding pseudo_ipv6_def pseudo6_def assms(2) [symmetric]
    using assms(1) pseudo_ipv6_parts [OF l k] l
    by (simp add: memrd_in wr_in list_update_append)
qed

text \<open>The seed every routine passes to \<open>Rfc1071\<close>.\<close>

definition seed :: "byte list \<Rightarrow> u32" where
  "seed ph = word_of_nat (be_sum ph)"

lemma pseudo_sum_seed:
  assumes "even (length ph)" "length ph \<le> 40"
  shows "pseudo_sum ph 0 (length ph) 0 = Some (seed ph)"
    and "unat (seed ph) = be_sum ph" and "unat (seed ph) \<le> 16711680"
proof -
  have b: "be_sum ph \<le> 65280 * 40" using be_sum_le [of ph] assms(2) by linarith
  then show u: "unat (seed ph) = be_sum ph" by (simp add: seed_def unat_of_nat)
  show "unat (seed ph) \<le> 16711680" using b u by linarith
  obtain t where "rfc_sum ph 0 (int (length ph)) 0 = Some t" "unat t = be_sum ph"
    using rfc_sum_spec [of 0 "length ph" ph 0] b by auto
  then show "pseudo_sum ph 0 (length ph) 0 = Some (seed ph)"
    using assms(1) u by (simp add: pseudo_sum_eq_rfc_sum word_unat_eq_iff)
qed

lemma length_pseudo4: "20 \<le> length p \<Longrightarrow> length (pseudo4 p proto) = 12"
  by (simp add: pseudo4_def be16_def)

lemma length_pseudo6: "40 \<le> length p \<Longrightarrow> length (pseudo6 p proto) = 40"
  by (simp add: pseudo6_def be16_def)

lemma seg_len4_cases:
  assumes "length p < 2147483648" "ihl4 p \<le> length p"
  shows "min (int (total4 p) - int (ihl4 p)) (c_int (length p) - int (ihl4 p)) \<le> 0 \<longleftrightarrow>
           length (segment4 p) = 0"
    and "length (segment4 p) \<noteq> 0 \<Longrightarrow>
         min (int (total4 p) - int (ihl4 p)) (c_int (length p) - int (ihl4 p)) =
           int (length (segment4 p))"
  using assms by (auto simp: length_segment4 min_def)

lemma routine_ipv4:
  assumes p: "20 \<le> length p" "length p < 2147483648"
  shows "ChecksumTcpIpv4 p (length p) =
           transport_put p (ihl4 p) (length (segment4 p)) 16 (seed (pseudo4 p 6)) (\<lambda>ck. ck)"
    and "ChecksumUdpIpv4 p (length p) =
           transport_put p (ihl4 p) (length (segment4 p)) 6 (seed (pseudo4 p 17)) udp_fix"
    and "ChecksumIcmpIpv4 p (length p) =
           transport_put p (ihl4 p) (length (segment4 p)) 2 0 (\<lambda>ck. ck)"
proof -
  obtain w where w: "ReadU16Be p 2 = Some w" "unat w = total4 p"
    using total4_read [of p] p by auto
  have i: "ihl_of p = Some (ihl4 p)" by (rule ihl_of_in) (use p in auto)
  note ph = pseudo_ipv4_eq [OF p(1) refl]
    pseudo_sum_seed(1) [of "pseudo4 p proto" for proto, unfolded length_pseudo4 [OF p(1)], simplified]
  note d = transport_put_def put_checksum_def udp_fix_def i w Let_def Option.bind.bind_lunit
  note c = seg_len4_cases [OF p(2)]
  show "ChecksumTcpIpv4 p (length p) =
           transport_put p (ihl4 p) (length (segment4 p)) 16 (seed (pseudo4 p 6)) (\<lambda>ck. ck)"
    unfolding ChecksumTcpIpv4_def d
    by (cases "length p < ihl4 p + 18"; cases "length (segment4 p) = 0") (simp_all add: c ph)
  show "ChecksumUdpIpv4 p (length p) =
           transport_put p (ihl4 p) (length (segment4 p)) 6 (seed (pseudo4 p 17)) udp_fix"
    unfolding ChecksumUdpIpv4_def d
    by (cases "length p < ihl4 p + 8"; cases "length (segment4 p) = 0") (simp_all add: c ph)
  show "ChecksumIcmpIpv4 p (length p) =
           transport_put p (ihl4 p) (length (segment4 p)) 2 0 (\<lambda>ck. ck)"
    unfolding ChecksumIcmpIpv4_def d
    by (cases "length p < ihl4 p + 4"; cases "length (segment4 p) = 0") (simp_all add: c)
qed

lemma min_int_payload:
  "40 \<le> n \<Longrightarrow> n < 2147483648 \<Longrightarrow> min (int t) (c_int n - 40) = int (min t (n - 40))"
  by (simp add: min_def) linarith

lemma routine_ipv6:
  assumes p: "40 \<le> length p" "length p < 2147483648"
  shows "ChecksumTcpIpv6 p (length p) =
           transport_put p 40 (length (segment6 p)) 16 (seed (pseudo6 p 6)) (\<lambda>ck. ck)"
    and "ChecksumUdpIpv6 p (length p) =
           transport_put p 40 (length (segment6 p)) 6 (seed (pseudo6 p 17)) udp_fix"
    and "ChecksumIcmpv6Ipv6 p (length p) =
           transport_put p 40 (length (segment6 p)) 2 (seed (pseudo6 p 58)) (\<lambda>ck. ck)"
proof -
  obtain w where w: "ReadU16Be p 4 = Some w" "unat w = unat (p ! 4) * 256 + unat (p ! 5)"
    using p by (simp add: mem_simps unat_hi_lo_u16 del: push_bit_numeral)
  have c: "min (int (unat w)) (c_int (length p) - 40) = int (length (segment6 p))"
    unfolding length_segment6 w(2) by (rule min_int_payload [OF p])
  note ph = pseudo_ipv6_eq [OF p(1) refl]
    pseudo_sum_seed(1) [of "pseudo6 p proto" for proto, unfolded length_pseudo6 [OF p(1)], simplified]
  note d = transport_put_def put_checksum_def udp_fix_def w(1) c Let_def Option.bind.bind_lunit
  show "ChecksumTcpIpv6 p (length p) =
           transport_put p 40 (length (segment6 p)) 16 (seed (pseudo6 p 6)) (\<lambda>ck. ck)"
    unfolding ChecksumTcpIpv6_def d
    by (cases "length p < 58"; cases "length (segment6 p) = 0") (simp_all add: ph)
  show "ChecksumUdpIpv6 p (length p) =
           transport_put p 40 (length (segment6 p)) 6 (seed (pseudo6 p 17)) udp_fix"
    unfolding ChecksumUdpIpv6_def d
    by (cases "length p < 48"; cases "length (segment6 p) = 0") (simp_all add: ph)
  show "ChecksumIcmpv6Ipv6 p (length p) =
           transport_put p 40 (length (segment6 p)) 2 (seed (pseudo6 p 58)) (\<lambda>ck. ck)"
    unfolding ChecksumIcmpv6Ipv6_def d
    by (cases "length p < 44"; cases "length (segment6 p) = 0") (simp_all add: ph)
qed

lemma ChecksumIpv4Header_put:
  "12 \<le> length p \<Longrightarrow> ChecksumIpv4Header p = put_checksum p 0 (int (ihl4 p)) 10 0 (\<lambda>ck. ck)"
  unfolding ChecksumIpv4Header_def put_checksum_def by (subst ihl_of_in) auto

section \<open>Correctness of the recalculation\<close>

lemma version_word:
  "drop_bit 4 (b :: byte) = 4 \<longleftrightarrow> unat b div 16 = 4"
  "drop_bit 4 (b :: byte) = 6 \<longleftrightarrow> unat b div 16 = 6"
  by (simp_all only: word_unat_eq_iff unat_hi_nibble) simp_all

definition transport_field :: "byte \<Rightarrow> nat" where
  "transport_field proto = (if proto = 6 then 16 else if proto = 17 then 6 else 2)"

lemma transport_ipv4_spec:
  assumes p: "20 \<le> length p" "length p < 2147483648" and proto: "p ! 9 = 6 \<or> p ! 9 = 17 \<or> p ! 9 = 1"
    and ihl: "ihl4 p \<le> length p"
  defines "at \<equiv> ihl4 p + transport_field (p ! 9)"
  shows "\<exists>q. (if p ! 9 = 6 then ChecksumTcpIpv4 p (length p)
              else if p ! 9 = 17 then ChecksumUdpIpv4 p (length p)
              else ChecksumIcmpIpv4 p (length p)) = Some q \<and>
           same_outside {at, at + 1} p q \<and>
           (transport_field (p ! 9) + 1 < length (segment4 p) \<longrightarrow>
              ones_ok ((if p ! 9 = 1 then 0 else be_sum (pseudo4 p (p ! 9))) +
                       be_sum (take (length (segment4 p)) (drop (ihl4 p) q))))"
proof -
  have k: "ihl4 p + length (segment4 p) \<le> length p" "length (segment4 p) \<le> 65535"
    using ihl total4_less [of p] by (auto simp: length_segment4)
  have s: "unat (seed (pseudo4 p x)) \<le> 16711680" "unat (seed (pseudo4 p x)) = be_sum (pseudo4 p x)" for x
    using pseudo_sum_seed(2,3) [of "pseudo4 p x"] p by (simp_all add: length_pseudo4)
  note sp = transport_put_spec [OF k]
  consider "p ! 9 = 6" | "p ! 9 = 17" | "p ! 9 = 1" using proto by blast
  then show ?thesis
  proof cases
    case 1
    then show ?thesis
      using sp [of "seed (pseudo4 p 6)" 16 "\<lambda>ck. ck"] s [of 6]
      by (simp add: routine_ipv4 [OF p] transport_field_def at_def)
  next
    case 2
    then show ?thesis
      using sp [of "seed (pseudo4 p 17)" 6 udp_fix] s [of 17]
      by (simp add: routine_ipv4 [OF p] transport_field_def at_def)
  next
    case 3
    then show ?thesis
      using sp [of 0 2 "\<lambda>ck. ck"]
      by (simp add: routine_ipv4 [OF p] transport_field_def at_def)
  qed
qed

lemma header_ipv4_spec:
  assumes "20 \<le> length p" "ihl4 p \<le> length p"
  shows "\<exists>q. ChecksumIpv4Header p = Some q \<and> same_outside {10, 11} p q \<and>
             (20 \<le> ihl4 p \<longrightarrow> header_ok4 q)"
proof -
  obtain q where q: "ChecksumIpv4Header p = Some q" "same_outside {10, 11} p q"
    "12 \<le> ihl4 p \<longrightarrow> ones_ok (be_sum (take (ihl4 p) q))"
    using put_checksum_spec [of 0 "ihl4 p" p 10 0 "\<lambda>ck. ck"] assms ihl4_le [of p]
    by (auto simp: ChecksumIpv4Header_put)
  have "0 < length p" using assms(1) by linarith
  then have "ihl4 q = ihl4 p" using same_outside_nth [OF q(2), of 0] by (simp add: ihl4_def)
  with q show ?thesis by (auto simp: header_ok4_def)
qed

text \<open>What a write outside the header fields a checksum depends on leaves alone.\<close>

lemma same_outside_header4:
  assumes "same_outside A p q" "20 \<le> length p" "A \<inter> ({0..9} \<union> {12..19}) = {}"
  shows "ihl4 q = ihl4 p" "total4 q = total4 p" "q ! 9 = p ! 9" "q ! 0 = p ! 0"
    "length (segment4 q) = length (segment4 p)" "pseudo4 q x = pseudo4 p x"
proof -
  have n: "q ! j = p ! j" if "j \<le> 9" for j
    using that assms same_outside_nth [OF assms(1), of j] by force
  show i: "ihl4 q = ihl4 p" and t: "total4 q = total4 p" and "q ! 9 = p ! 9" and "q ! 0 = p ! 0"
    by (simp_all add: ihl4_def total4_def n)
  show l: "length (segment4 q) = length (segment4 p)"
    using i t same_outside_length [OF assms(1)] by (simp add: length_segment4)
  have "take 4 (drop 12 q) = take 4 (drop 12 p)" "take 4 (drop 16 q) = take 4 (drop 16 p)"
    by (rule same_outside_slice [OF assms(1)]; use assms(3) in force)+
  then show "pseudo4 q x = pseudo4 p x" by (simp add: pseudo4_def l)
qed

lemma Recalculate_ipv4_unfold:
  assumes "20 \<le> length p" "unat (p ! 0) div 16 = 4"
  shows "RecalculateChecksums p (length p) = do {
     q \<leftarrow> (if p ! 9 = 6 then ChecksumTcpIpv4 p (length p)
          else if p ! 9 = 17 then ChecksumUdpIpv4 p (length p)
          else if p ! 9 = 1 then ChecksumIcmpIpv4 p (length p)
          else Some p);
     ChecksumIpv4Header q }"
proof -
  have "rd p 0 = Some (p ! 0)" "rd p 9 = Some (p ! 9)"
    using assms(1) by (auto simp: rd_def)
  moreover have "\<not> length p < 1" "\<not> length p < 20" using assms(1) by auto
  moreover have "drop_bit 4 (p ! 0) = 4" using assms(2) by (simp only: version_word)
  ultimately show ?thesis
    unfolding RecalculateChecksums_def Let_def
    by (simp only: simp_thms if_False if_True Option.bind.bind_lunit)
qed

lemma recalculate_ipv4_aux:
  assumes p: "20 \<le> length p" "length p < 2147483648" "unat (p ! 0) div 16 = 4"
    and ihl: "20 \<le> ihl4 p" "ihl4 p \<le> length p"
  defines "at \<equiv> ihl4 p + transport_field (p ! 9)"
  shows "\<exists>q. RecalculateChecksums p (length p) = Some q \<and> header_ok4 q \<and>
             same_outside ({10, 11} \<union> {at, at + 1}) p q \<and>
             (p ! 9 \<in> {1, 6, 17} \<and> transport_field (p ! 9) + 2 \<le> length (segment4 p) \<longrightarrow>
                transport_ok4 q)"
proof -
  obtain r where r: "(if p ! 9 = 6 then ChecksumTcpIpv4 p (length p)
          else if p ! 9 = 17 then ChecksumUdpIpv4 p (length p)
          else if p ! 9 = 1 then ChecksumIcmpIpv4 p (length p)
          else Some p) = Some r" "same_outside {at, at + 1} p r"
    and ok: "p ! 9 \<in> {1, 6, 17} \<and> transport_field (p ! 9) + 1 < length (segment4 p) \<longrightarrow>
       ones_ok ((if p ! 9 = 1 then 0 else be_sum (pseudo4 p (p ! 9))) +
                be_sum (take (length (segment4 p)) (drop (ihl4 p) r)))"
  proof (cases "p ! 9 = 6 \<or> p ! 9 = 17 \<or> p ! 9 = 1")
    case True
    then show ?thesis
      using transport_ipv4_spec [OF p(1,2) True ihl(2)] that unfolding at_def
      by (fastforce split: if_splits)
  qed (auto intro: that)
  have "{at, at + 1} \<inter> ({0..9} \<union> {12..19}) = {}" using ihl(1) by (auto simp: at_def)
  note hr = same_outside_header4 [OF r(2) p(1) this]
  have lr: "length r = length p" by (rule same_outside_length [OF r(2)])
  then obtain q where q: "ChecksumIpv4Header r = Some q" "same_outside {10, 11} r q" "header_ok4 q"
    using header_ipv4_spec [of r] p ihl hr by auto
  have "20 \<le> length r" "{10, 11} \<inter> ({0..9} \<union> {12..19}) = ({} :: nat set)" using lr p by auto
  note hq = same_outside_header4 [OF q(2) this]
  have seg: "segment4 q = take (length (segment4 p)) (drop (ihl4 p) r)"
    using same_outside_slice [OF q(2), of "ihl4 p" "length (segment4 p)"] segment4_conv [of q] ihl
    by (simp add: hq hr)
  have "transport_ok4 q"
    if "p ! 9 \<in> {1, 6, 17} \<and> transport_field (p ! 9) + 2 \<le> length (segment4 p)"
    using ok that by (auto simp: transport_ok4_def seg hq hr)
  moreover have "same_outside ({10, 11} \<union> {at, at + 1}) p q"
    using same_outside_trans [OF r(2) q(2)] by (simp add: Un_commute)
  ultimately show ?thesis
    using r(1) q by (simp add: Recalculate_ipv4_unfold [OF p(1,3)])
qed

lemma Recalculate_ipv6_unfold:
  assumes "40 \<le> length p" "unat (p ! 0) div 16 = 6"
  shows "RecalculateChecksums p (length p) =
     (if p ! 6 = 6 then ChecksumTcpIpv6 p (length p)
      else if p ! 6 = 17 then ChecksumUdpIpv6 p (length p)
      else if p ! 6 = 58 then ChecksumIcmpv6Ipv6 p (length p)
      else Some p)"
proof -
  have "rd p 0 = Some (p ! 0)" "rd p 6 = Some (p ! 6)"
    using assms(1) by (auto simp: rd_def)
  moreover have "\<not> length p < 1" "\<not> length p < 40" using assms(1) by auto
  moreover have "drop_bit 4 (p ! 0) = 6" using assms(2) by (simp only: version_word)
  moreover have "(6 :: byte) \<noteq> 4" by simp
  ultimately show ?thesis
    unfolding RecalculateChecksums_def Let_def
    by (simp only: simp_thms if_False if_True Option.bind.bind_lunit)
qed

lemma segment6_conv: "segment6 p = take (length (segment6 p)) (drop 40 p)"
  by (simp add: segment6_def)

lemma same_outside_header6:
  assumes "same_outside A p q" "40 \<le> length p" "A \<inter> {0..39} = {}"
  shows "q ! 6 = p ! 6" "length (segment6 q) = length (segment6 p)" "pseudo6 q x = pseudo6 p x"
proof -
  have n: "q ! j = p ! j" if "j \<le> 39" for j
    using that assms same_outside_nth [OF assms(1), of j] by force
  show "q ! 6 = p ! 6" by (simp add: n)
  show l: "length (segment6 q) = length (segment6 p)"
    using same_outside_length [OF assms(1)] by (simp add: length_segment6 n)
  have "take 16 (drop 8 q) = take 16 (drop 8 p)" "take 16 (drop 24 q) = take 16 (drop 24 p)"
    by (rule same_outside_slice [OF assms(1)]; use assms(3) in force)+
  then show "pseudo6 q x = pseudo6 p x" by (simp add: pseudo6_def l)
qed

lemma recalculate_ipv6_aux:
  assumes p: "40 \<le> length p" "length p < 2147483648" "unat (p ! 0) div 16 = 6"
  defines "at \<equiv> 40 + transport_field (p ! 6)"
  shows "\<exists>q. RecalculateChecksums p (length p) = Some q \<and> same_outside {at, at + 1} p q \<and>
             (p ! 6 \<in> {6, 17, 58} \<and> transport_field (p ! 6) + 2 \<le> length (segment6 p) \<longrightarrow>
                transport_ok6 q)"
proof (cases "p ! 6 \<in> {6, 17, 58}")
  case True
  have k: "40 + length (segment6 p) \<le> length p" "length (segment6 p) \<le> 65535"
    using p(1) segment6_less [of p] by (auto simp: length_segment6)
  have s: "unat (seed (pseudo6 p x)) \<le> 16711680" "unat (seed (pseudo6 p x)) = be_sum (pseudo6 p x)" for x
    using pseudo_sum_seed(2,3) [of "pseudo6 p x"] p by (simp_all add: length_pseudo6)
  note sp = transport_put_spec [OF k s(1)]
  have "\<exists>q. RecalculateChecksums p (length p) = Some q \<and> same_outside {at, at + 1} p q \<and>
      (transport_field (p ! 6) + 1 < length (segment6 p) \<longrightarrow>
         ones_ok (be_sum (pseudo6 p (p ! 6)) + be_sum (take (length (segment6 p)) (drop 40 q))))"
    using True sp [of 16 "\<lambda>ck. ck" 6] sp [of 6 udp_fix 17] sp [of 2 "\<lambda>ck. ck" 58] s(2)
    by (auto simp: Recalculate_ipv6_unfold [OF p(1,3)] routine_ipv6 [OF p(1,2)]
        transport_field_def at_def)
  then obtain q where q: "RecalculateChecksums p (length p) = Some q" "same_outside {at, at + 1} p q"
    "transport_field (p ! 6) + 1 < length (segment6 p) \<longrightarrow>
         ones_ok (be_sum (pseudo6 p (p ! 6)) + be_sum (take (length (segment6 p)) (drop 40 q)))"
    by blast
  have "{at, at + 1} \<inter> {0..39} = {}" by (auto simp: at_def)
  note h = same_outside_header6 [OF q(2) p(1) this]
  have "segment6 q = take (length (segment6 p)) (drop 40 q)"
    using segment6_conv [of q] by (simp only: h)
  with q show ?thesis by (auto simp: transport_ok6_def h)
qed (simp add: Recalculate_ipv6_unfold [OF p(1,3)])

lemma rfc_sum_None:
  "length p < i + n \<Longrightarrow> i \<le> length p \<Longrightarrow> rfc_sum p i (int n) s = None"
proof (induction n arbitrary: i s rule: less_induct)
  case (less n)
  consider "n = 1" | "1 < n" using less.prems by linarith
  then show ?case
  proof cases
    case 1
    then show ?thesis using less.prems by (simp add: rfc_sum.simps rd_def)
  next
    case 2
    show ?thesis
    proof (cases "i + 1 < length p")
      case True
      then show ?thesis
        using 2 less.prems less.IH [of "n - 2" "i + 2"]
        by (subst rfc_sum.simps) (simp add: mem_simps of_nat_diff)
    next
      case False
      then have "rd p (i + 1) = None" by (simp add: rd_def)
      then show ?thesis using 2
        by (subst rfc_sum.simps) (cases "rd p i", simp_all)
    qed
  qed
qed

lemma header_ipv4_overread:
  assumes "20 \<le> length p" "length p < ihl4 p"
  shows "ChecksumIpv4Header p = None"
  using assms rfc_sum_None [of "p[10 := 0, 11 := 0]" 0 "ihl4 p" 0]
  by (simp add: ChecksumIpv4Header_put put_checksum_def WriteU16Be_in Rfc1071_def)

lemma transport_ipv4_short:
  assumes "20 \<le> length p" "length p < 2147483648" "length p < ihl4 p"
  shows "ChecksumTcpIpv4 p (length p) = Some p" "ChecksumUdpIpv4 p (length p) = Some p"
    "ChecksumIcmpIpv4 p (length p) = Some p"
  using assms by (simp_all add: routine_ipv4 transport_put_def)

lemma Recalculate_skip:
  assumes "p \<noteq> []"
    and "unat (p ! 0) div 16 = 4 \<and> length p < 20 \<or> unat (p ! 0) div 16 = 6 \<and> length p < 40 \<or>
         unat (p ! 0) div 16 \<noteq> 4 \<and> unat (p ! 0) div 16 \<noteq> 6"
  shows "RecalculateChecksums p (length p) = Some p"
proof -
  have "rd p 0 = Some (p ! 0)" "\<not> length p < 1"
    using assms(1) by (auto simp: rd_def Suc_le_eq)
  then show ?thesis
    using assms(2) unfolding RecalculateChecksums_def Let_def version_word
    by (elim disjE) (simp_all only: simp_thms if_False if_True Option.bind.bind_lunit
        num.simps numeral_eq_iff)
qed

lemma recalculate_None_iff_aux:
  assumes n: "length p < 2147483648"
  shows "RecalculateChecksums p (length p) = None \<longleftrightarrow>
         20 \<le> length p \<and> unat (p ! 0) div 16 = 4 \<and> length p < ihl4 p"
proof -
  consider "p = []" | "p \<noteq> []" "unat (p ! 0) div 16 = 4" "length p < 20"
    | "20 \<le> length p" "unat (p ! 0) div 16 = 4" "length p < ihl4 p"
    | "20 \<le> length p" "unat (p ! 0) div 16 = 4" "ihl4 p \<le> length p"
    | "p \<noteq> []" "unat (p ! 0) div 16 = 6" "length p < 40"
    | "40 \<le> length p" "unat (p ! 0) div 16 = 6"
    | "p \<noteq> []" "unat (p ! 0) div 16 \<noteq> 4" "unat (p ! 0) div 16 \<noteq> 6"
    by linarith
  then show ?thesis
  proof cases
    case 3
    then show ?thesis
      by (simp add: Recalculate_ipv4_unfold transport_ipv4_short n header_ipv4_overread)
  next
    case 4
    obtain r where r: "(if p ! 9 = 6 then ChecksumTcpIpv4 p (length p)
          else if p ! 9 = 17 then ChecksumUdpIpv4 p (length p)
          else if p ! 9 = 1 then ChecksumIcmpIpv4 p (length p)
          else Some p) = Some r" "same_outside {ihl4 p + transport_field (p ! 9), ihl4 p + transport_field (p ! 9) + 1} p r"
      using transport_ipv4_spec [OF 4(1) n _ 4(3)]
      by (cases "p ! 9 = 6 \<or> p ! 9 = 17 \<or> p ! 9 = 1") (fastforce split: if_splits)+
    have "0 < length p" using 4(1) by linarith
    then have "ihl4 r = ihl4 p" "length r = length p"
      using same_outside_nth [OF r(2), of 0] same_outside_length [OF r(2)]
      by (auto simp: ihl4_def transport_field_def)
    then have "\<exists>q. ChecksumIpv4Header r = Some q" using header_ipv4_spec [of r] 4 by auto
    then show ?thesis using r(1) 4 by (auto simp: Recalculate_ipv4_unfold)
  next
    case 6
    then show ?thesis using recalculate_ipv6_aux [OF 6(1) n 6(2)] by auto
  qed (auto simp: Recalculate_skip RecalculateChecksums_def [of "[]"])
qed

section \<open>Properties\<close>

definition udp_packet :: "byte list" where
  "udp_packet = [0x45, 0, 0, 31, 0, 0, 0, 0, 64, 17, 9, 9, 10, 0, 0, 1, 10, 0, 0, 2,
                 0, 53, 0, 54, 0, 11, 7, 7, 1, 2, 3]"

definition icmp6_packet :: "byte list" where
  "icmp6_packet = [0x60, 0, 0, 0, 0, 5, 58, 64] @ replicate 31 1 @ [2, 128, 0, 3, 3, 9]"

definition short_header_packet :: "byte list" where
  "short_header_packet = [0x4F, 0, 0, 20, 0, 0, 0, 0, 64, 6, 9, 9, 10, 0, 0, 1, 10, 0, 0, 2]"

lemma udp_packet_facts:
  "length udp_packet = 31" "udp_packet ! 0 = 0x45" "udp_packet ! 9 = 17" "ihl4 udp_packet = 20"
  "length (segment4 udp_packet) = 11" "transport_field 17 = 6"
  by (simp_all add: udp_packet_def ihl4_def segment4_def total4_def transport_field_def)

lemma icmp6_packet_facts:
  "length icmp6_packet = 45" "icmp6_packet ! 0 = 0x60" "icmp6_packet ! 6 = 58"
  "length (segment6 icmp6_packet) = 5" "transport_field 58 = 2"
  by (simp_all add: icmp6_packet_def segment6_def transport_field_def)

lemma short_header_packet_facts:
  "length short_header_packet = 20" "short_header_packet ! 0 = 0x4F" "ihl4 short_header_packet = 60"
  by (simp_all add: short_header_packet_def ihl4_def)

text \<open>C35: For an IPv4 packet with a complete header, \<open>RecalculateChecksums\<close> leaves a packet whose
  header checksum verifies and, when the transport header reaches its checksum field, whose TCP,
  UDP or ICMP checksum verifies too: the header sum computed last does not disturb the transport
  sum. No byte outside the two checksum fields changes.\<close>

theorem RecalculateChecksums_ipv4:
  assumes "20 \<le> length p" and "length p < 2147483648" and "unat (p ! 0) div 16 = 4"
    and "20 \<le> ihl4 p" and "ihl4 p \<le> length p"
  shows "\<exists>q. RecalculateChecksums p (length p) = Some q \<and> header_ok4 q \<and>
             same_outside {10, 11, ihl4 p + transport_field (p ! 9),
                           ihl4 p + transport_field (p ! 9) + 1} p q \<and>
             (p ! 9 \<in> {1, 6, 17} \<and> transport_field (p ! 9) + 2 \<le> length (segment4 p) \<longrightarrow>
                transport_ok4 q)"
  using recalculate_ipv4_aux [OF assms] by (simp only: insert_is_Un [symmetric] Un_insert_left Un_empty_left)

theorem RecalculateChecksums_ipv4_witness:
  "\<exists>q. RecalculateChecksums udp_packet 31 = Some q \<and> header_ok4 q \<and> transport_ok4 q"
  using RecalculateChecksums_ipv4 [of udp_packet] by (auto simp: udp_packet_facts)

text \<open>For an IPv6 packet without extension headers \<open>RecalculateChecksums\<close> always returns, the
  TCP, UDP or ICMPv6 checksum verifies over the pseudo-header whenever the segment reaches its
  checksum field, and only that field changes.\<close>

theorem RecalculateChecksums_ipv6:
  assumes "40 \<le> length p" and "length p < 2147483648" and "unat (p ! 0) div 16 = 6"
  shows "\<exists>q. RecalculateChecksums p (length p) = Some q \<and>
             same_outside {40 + transport_field (p ! 6), 40 + transport_field (p ! 6) + 1} p q \<and>
             (p ! 6 \<in> {6, 17, 58} \<and> transport_field (p ! 6) + 2 \<le> length (segment6 p) \<longrightarrow>
                transport_ok6 q)"
  using recalculate_ipv6_aux [OF assms] by simp

theorem RecalculateChecksums_ipv6_witness:
  "\<exists>q. RecalculateChecksums icmp6_packet 45 = Some q \<and> transport_ok6 q"
  using RecalculateChecksums_ipv6 [of icmp6_packet] by (auto simp: icmp6_packet_facts)

text \<open>Memory safety of \<open>RecalculateChecksums\<close>, exactly: on a buffer of any content the routine
  stays inside the buffer unless the packet is IPv4 and its header length field claims more bytes
  than the buffer holds; then \<open>ChecksumIpv4Header\<close>, which takes no buffer size, reads past the
  end.\<close>

theorem RecalculateChecksums_memory_safe_iff:
  assumes "length p < 2147483648"
  shows "RecalculateChecksums p (length p) = None \<longleftrightarrow>
         20 \<le> length p \<and> unat (p ! 0) div 16 = 4 \<and> length p < ihl4 p"
  using assms by (rule recalculate_None_iff_aux)

theorem RecalculateChecksums_memory_safe_iff_witness:
  "RecalculateChecksums short_header_packet 20 = None \<and>
   RecalculateChecksums udp_packet 31 \<noteq> None"
  using RecalculateChecksums_memory_safe_iff [of short_header_packet]
    RecalculateChecksums_memory_safe_iff [of udp_packet]
  by (simp add: short_header_packet_facts udp_packet_facts)

end
