(* ===== verification/IpAddress.thy ===== *)
theory IpAddress
  imports Prelude
begin

text \<open>
  The address classes of \<open>src/common/network/ip_address.h\<close>: \<open>IPAddress<T>\<close> with
  \<open>T = boost::asio::ip::address\<close> and its subclasses \<open>IPv4Address\<close> and \<open>IPv6Address\<close>. An object
  holds the text it was built from and the parsed address. Boost's and libc's text conversions are
  not under src/; they are the fields of the record \<open>netlib\<close>, an argument of every definition
  that uses them, and \<open>netlib_ok\<close> states what the code relies on: printing an address gives a
  text that parses back to it.
\<close>

section \<open>Addresses and the network library\<close>

text \<open>\<open>boost::asio::ip::address\<close>: a default-constructed one is the IPv4 address 0.0.0.0.\<close>

datatype addr = V4 u32 | V6 u128

record netlib =
  make_address :: "string \<Rightarrow> addr option"
  to_string :: "addr \<Rightarrow> string"
  inet_ntop4 :: "byte list \<Rightarrow> string"
  inet_ntop6 :: "byte list \<Rightarrow> string"
  inet_pton6 :: "string \<Rightarrow> byte list option"

record ip_address =
  ip_str :: string
  ip_impl :: addr

definition default_addr :: addr where
  "default_addr = V4 0"

fun is_v4 :: "addr \<Rightarrow> bool" where
  "is_v4 (V4 _) = True"
| "is_v4 (V6 _) = False"

definition is_v6 :: "addr \<Rightarrow> bool" where
  "is_v6 a \<longleftrightarrow> \<not> is_v4 a"

fun to_uint :: "addr \<Rightarrow> u32" where
  "to_uint (V4 w) = w"
| "to_uint (V6 _) = 0"

section \<open>Byte images\<close>

definition be32_bytes :: "u32 \<Rightarrow> byte list" where
  "be32_bytes w = [ucast (drop_bit 24 w), ucast (drop_bit 16 w), ucast (drop_bit 8 w), ucast w]"

definition be32_of :: "byte list \<Rightarrow> u32" where
  "be32_of bs = foldl (\<lambda>acc b. push_bit 8 acc OR ucast b) 0 bs"

definition be128_of :: "byte list \<Rightarrow> u128" where
  "be128_of bs = foldl (\<lambda>acc b. push_bit 8 acc OR ucast b) 0 bs"

section \<open>Construction and comparison\<close>

definition IPAddress_empty :: ip_address where
  "IPAddress_empty = \<lparr>ip_str = [], ip_impl = default_addr\<rparr>"

definition IPAddress_new :: "netlib \<Rightarrow> string \<Rightarrow> ip_address" where
  "IPAddress_new lib ip =
     \<lparr>ip_str = ip,
      ip_impl =
        (if ip \<noteq> [] then
           (case make_address lib ip of Some a \<Rightarrow> a | None \<Rightarrow> default_addr)
         else default_addr)\<rparr>"

definition IPv4Address_new :: "netlib \<Rightarrow> string \<Rightarrow> ip_address" where
  "IPv4Address_new lib ip =
     (let a = IPAddress_new lib ip in
      if ip_str a \<noteq> [] \<and> \<not> is_v4 (ip_impl a) then a\<lparr>ip_impl := default_addr\<rparr> else a)"

definition IPv4Address_of_addr :: "netlib \<Rightarrow> addr \<Rightarrow> ip_address" where
  "IPv4Address_of_addr lib x =
     (let a = IPAddress_new lib (to_string lib x) in
      if \<not> is_v4 x then a\<lparr>ip_impl := default_addr\<rparr> else a)"

definition IPv6Address_new :: "netlib \<Rightarrow> string \<Rightarrow> ip_address" where
  "IPv6Address_new lib ip =
     (let a = IPAddress_new lib ip in
      if ip_str a \<noteq> [] \<and> \<not> is_v6 (ip_impl a) then a\<lparr>ip_impl := default_addr\<rparr> else a)"

definition IPv6Address_of_addr :: "netlib \<Rightarrow> addr \<Rightarrow> ip_address" where
  "IPv6Address_of_addr lib x =
     (let a = IPAddress_new lib (to_string lib x) in
      if \<not> is_v6 x then a\<lparr>ip_impl := default_addr\<rparr> else a)"

definition IPAddress_IsEmpty :: "ip_address \<Rightarrow> bool" where
  "IPAddress_IsEmpty a \<longleftrightarrow> ip_str a = [] \<or> ip_impl a = default_addr"

definition IPAddress_IsValid :: "ip_address \<Rightarrow> bool" where
  "IPAddress_IsValid a \<longleftrightarrow> ip_str a \<noteq> [] \<and> ip_impl a \<noteq> default_addr"

definition IPv4Address_IsValid :: "ip_address \<Rightarrow> bool" where
  "IPv4Address_IsValid a \<longleftrightarrow> IPAddress_IsValid a \<and> is_v4 (ip_impl a)"

definition IPv6Address_IsValid :: "ip_address \<Rightarrow> bool" where
  "IPv6Address_IsValid a \<longleftrightarrow> IPAddress_IsValid a \<and> is_v6 (ip_impl a)"

definition IPAddress_ToInt :: "ip_address \<Rightarrow> u32" where
  "IPAddress_ToInt a = (if is_v4 (ip_impl a) then to_uint (ip_impl a) else 0)"

definition IPAddress_eq :: "ip_address \<Rightarrow> ip_address \<Rightarrow> bool" where
  "IPAddress_eq a b \<longleftrightarrow> ip_str a = ip_str b \<and> ip_impl a = ip_impl b"

definition IPAddress_neq :: "ip_address \<Rightarrow> ip_address \<Rightarrow> bool" where
  "IPAddress_neq a b \<longleftrightarrow> ip_str a \<noteq> ip_str b \<or> ip_impl a \<noteq> ip_impl b"

section \<open>What the code relies on\<close>

definition netlib_ok :: "netlib \<Rightarrow> bool" where
  "netlib_ok lib \<longleftrightarrow>
     (\<forall>a. make_address lib (to_string lib a) = Some a) \<and>
     (\<forall>bs. length bs = 4 \<longrightarrow> make_address lib (inet_ntop4 lib bs) = Some (V4 (be32_of bs))) \<and>
     (\<forall>bs. length bs = 16 \<longrightarrow> make_address lib (inet_ntop6 lib bs) = Some (V6 (be128_of bs))) \<and>
     (\<forall>s bs. inet_pton6 lib s = Some bs \<longrightarrow> length bs = 16 \<and> make_address lib s = Some (V6 (be128_of bs))) \<and>
     make_address lib [] = None"

lemma netlib_okD:
  assumes "netlib_ok lib"
  shows "make_address lib (to_string lib a) = Some a"
    and "length bs = 4 \<Longrightarrow> make_address lib (inet_ntop4 lib bs) = Some (V4 (be32_of bs))"
    and "length bs = 16 \<Longrightarrow> make_address lib (inet_ntop6 lib bs) = Some (V6 (be128_of bs))"
    and "inet_pton6 lib s = Some bs \<Longrightarrow> length bs = 16"
    and "inet_pton6 lib s = Some bs \<Longrightarrow> make_address lib s = Some (V6 (be128_of bs))"
    and "make_address lib [] = None"
  using assms by (auto simp: netlib_ok_def)

lemma parsed_nonempty: "netlib_ok lib \<Longrightarrow> make_address lib s = Some a \<Longrightarrow> s \<noteq> []"
  by (auto dest: netlib_okD(6))

lemma IPv4Address_new_parsed:
  "netlib_ok lib \<Longrightarrow> make_address lib s = Some (V4 w) \<Longrightarrow>
   IPv4Address_new lib s = \<lparr>ip_str = s, ip_impl = V4 w\<rparr>"
  by (auto simp: IPv4Address_new_def IPAddress_new_def dest: parsed_nonempty)

lemma IPv6Address_new_parsed:
  "netlib_ok lib \<Longrightarrow> make_address lib s = Some (V6 w) \<Longrightarrow>
   IPv6Address_new lib s = \<lparr>ip_str = s, ip_impl = V6 w\<rparr>"
  by (auto simp: IPv6Address_new_def IPAddress_new_def is_v6_def dest: parsed_nonempty)

lemma IPv4Address_new_is_v4: "is_v4 (ip_impl (IPv4Address_new lib s))"
  by (auto simp: IPv4Address_new_def IPAddress_new_def Let_def default_addr_def split: option.splits)

lemma IPAddress_neq_iff: "IPAddress_neq a b \<longleftrightarrow> \<not> IPAddress_eq a b"
  by (simp add: IPAddress_neq_def IPAddress_eq_def)

lemma IPAddress_eq_iff: "IPAddress_eq a b \<longleftrightarrow> a = b"
  by (cases a; cases b) (simp add: IPAddress_eq_def)

lemma IPAddress_valid_iff_not_empty: "IPAddress_IsValid a \<longleftrightarrow> \<not> IPAddress_IsEmpty a"
  by (simp add: IPAddress_IsValid_def IPAddress_IsEmpty_def)

lemma IPv4Address_valid_iff:
  assumes "netlib_ok lib"
  shows "IPv4Address_IsValid (IPv4Address_new lib s) \<longleftrightarrow>
         (\<exists>w. w \<noteq> 0 \<and> make_address lib s = Some (V4 w))"
proof (cases "make_address lib s")
  case None
  then show ?thesis
    by (auto simp: IPv4Address_IsValid_def IPAddress_IsValid_def IPv4Address_new_def
        IPAddress_new_def default_addr_def)
next
  case (Some a)
  then show ?thesis
    using parsed_nonempty [OF assms Some]
    by (cases a) (auto simp: IPv4Address_IsValid_def IPAddress_IsValid_def IPv4Address_new_def
        IPAddress_new_def default_addr_def)
qed

section \<open>Big-endian images\<close>

lemma be32_of_bytes [simp]: "be32_of (be32_bytes w) = w"
proof -
  have "bit (be32_of (be32_bytes w)) n = bit w n" if "n < 32" for n
  proof -
    have "n < 8 \<or> 8 \<le> n \<and> n < 16 \<or> 16 \<le> n \<and> n < 24 \<or> 24 \<le> n \<and> n < 32"
      using that by linarith
    then show ?thesis
      by (elim disjE) (auto simp: be32_of_def be32_bytes_def bit_simps)
  qed
  then show ?thesis by (auto intro: bit_word_eqI)
qed

lemma length_be32_bytes [simp]: "length (be32_bytes w) = 4"
  by (simp add: be32_bytes_def)

definition be128_bytes :: "u128 \<Rightarrow> byte list" where
  "be128_bytes w = map (\<lambda>i. ucast (drop_bit (8 * i) w)) (rev [0..<16])"

lemma length_be128_bytes [simp]: "length (be128_bytes w) = 16"
  by (simp add: be128_bytes_def)

lemma be128_of_bytes [simp]: "be128_of (be128_bytes w) = w"
proof -
  have fold: "foldl (\<lambda>acc b. push_bit 8 acc OR ucast b) 0
      (map (\<lambda>i. ucast (drop_bit (8 * i) w) :: byte) (rev [0..<n])) = take_bit (8 * n) w" for n
  proof -
    have "foldl (\<lambda>acc b. push_bit 8 acc OR ucast b) x
        (map (\<lambda>i. ucast (drop_bit (8 * i) w) :: byte) (rev [0..<n])) =
        push_bit (8 * n) x OR take_bit (8 * n) w" for x
    proof (induction n arbitrary: x)
      case (Suc n)
      have "push_bit (8 * n) (push_bit 8 x OR ucast (ucast (drop_bit (8 * n) w) :: byte)) OR
          take_bit (8 * n) w = push_bit (8 * Suc n) x OR take_bit (8 * Suc n) w"
        by (rule bit_word_eqI) (auto simp: bit_simps algebra_simps)
      then show ?case by (simp add: Suc del: push_bit_or)
    qed simp
    then show ?thesis by simp
  qed
  have "be128_of (be128_bytes w) = take_bit (8 * 16) w"
    unfolding be128_of_def be128_bytes_def by (rule fold)
  also have "\<dots> = w" by (rule bit_word_eqI) (auto simp: bit_simps)
  finally show ?thesis .
qed

section \<open>An instance of the library\<close>

text \<open>A concrete library satisfying \<open>netlib_ok\<close>: an address prints as its family followed by
  its bytes. It is used only to exhibit inputs on which the hypotheses hold.\<close>

definition byte_chars :: "byte list \<Rightarrow> string" where
  "byte_chars bs = map (\<lambda>b. char_of (unat b)) bs"

definition char_bytes :: "string \<Rightarrow> byte list" where
  "char_bytes cs = map (\<lambda>c. word_of_nat (of_char c)) cs"

lemma char_bytes_byte_chars [simp]: "char_bytes (byte_chars bs) = bs"
  by (simp add: char_bytes_def byte_chars_def comp_def map_idI take_bit_eq_mod)

lemma length_byte_chars [simp]: "length (byte_chars bs) = length bs"
  by (simp add: byte_chars_def)

lemma length_char_bytes [simp]: "length (char_bytes bs) = length bs"
  by (simp add: char_bytes_def)

fun demo_parse :: "string \<Rightarrow> addr option" where
  "demo_parse (c # cs) =
     (if c = CHR ''4'' \<and> length cs = 4 then Some (V4 (be32_of (char_bytes cs)))
      else if c = CHR ''6'' \<and> length cs = 16 then Some (V6 (be128_of (char_bytes cs)))
      else None)"
| "demo_parse [] = None"

fun demo_print :: "addr \<Rightarrow> string" where
  "demo_print (V4 w) = CHR ''4'' # byte_chars (be32_bytes w)"
| "demo_print (V6 w) = CHR ''6'' # byte_chars (be128_bytes w)"

fun demo_pton6 :: "string \<Rightarrow> byte list option" where
  "demo_pton6 (c # cs) =
     (if c = CHR ''6'' \<and> length cs = 16 then Some (char_bytes cs) else None)"
| "demo_pton6 [] = None"

definition demo_lib :: netlib where
  "demo_lib = \<lparr>make_address = demo_parse, to_string = demo_print,
     inet_ntop4 = (\<lambda>bs. CHR ''4'' # byte_chars bs), inet_ntop6 = (\<lambda>bs. CHR ''6'' # byte_chars bs),
     inet_pton6 = demo_pton6\<rparr>"

lemma demo_parse_print [simp]: "demo_parse (demo_print a) = Some a"
  by (cases a) simp_all

lemma demo_pton6_Some:
  "demo_pton6 s = Some bs \<Longrightarrow> length bs = 16 \<and> demo_parse s = Some (V6 (be128_of bs))"
  by (cases s) (auto split: if_splits)

lemma demo_lib_ok: "netlib_ok demo_lib"
  using demo_pton6_Some by (auto simp: netlib_ok_def demo_lib_def)

end
