(* ===== verification/Packet.thy ===== *)
theory Packet
  imports Checksum IpAddress
begin

text \<open>
  The class \<open>IPPacket\<close> of \<open>src/common/network/ip_packet.h\<close>: parsing, classification, ports,
  payload views and the address setters that rewrite a packet and its checksums. A packet is the
  record of its data members. The payload accessors return a pointer and a size: here an optional
  offset and size (\<open>None\<close> for \<open>nullptr\<close>), inside the option of the checked loads.
\<close>

section \<open>Definitions\<close>

type_synonym client_id = u64

record ip_packet =
  pkt_data :: "byte list"
  pkt_client :: client_id

definition FPTN_PACKET_UNDEFINED_CLIENT_ID :: client_id where
  "FPTN_PACKET_UNDEFINED_CLIENT_ID = - 1"

definition kMinIPv4 :: nat where "kMinIPv4 = 20"
definition kMinIPv6 :: nat where "kMinIPv6 = 40"
definition kUdpHdr :: nat where "kUdpHdr = 8"
definition kDnsHdr :: nat where "kDnsHdr = 12"

definition Ipv4Ihl :: "byte list \<Rightarrow> nat option" where
  "Ipv4Ihl p = do { b \<leftarrow> rd p 0; Some (unat (b AND 0x0F) * 4) }"

definition Ipv4Proto :: "byte list \<Rightarrow> byte option" where
  "Ipv4Proto p = rd p 9"

definition Ipv4Ttl :: "byte list \<Rightarrow> byte option" where
  "Ipv4Ttl p = rd p 8"

definition Ipv6Next :: "byte list \<Rightarrow> byte option" where
  "Ipv6Next p = rd p 6"

text \<open>\<open>IPPacket::Parse(IPPacketData, ClientID)\<close>: \<open>None\<close> is the null pointer.\<close>

definition IPPacket_Parse :: "byte list \<Rightarrow> client_id \<Rightarrow> ip_packet option" where
  "IPPacket_Parse buffer client_id =
     (let sz = length buffer in
      if sz < kMinIPv4 then None
      else
        let ver = drop_bit 4 (buffer ! 0) in
        if ver = 4 \<or> (ver = 6 \<and> kMinIPv6 \<le> sz)
        then Some \<lparr>pkt_data = buffer, pkt_client = client_id\<rparr>
        else None)"

text \<open>\<open>IPPacket::Parse(const uint8_t*, size_t)\<close>: a null pointer is \<open>None\<close>.\<close>

definition IPPacket_Parse_raw :: "byte list option \<Rightarrow> ip_packet option" where
  "IPPacket_Parse_raw buf =
     (case buf of
        None \<Rightarrow> None
      | Some b \<Rightarrow> if b = [] then None else IPPacket_Parse b FPTN_PACKET_UNDEFINED_CLIENT_ID)"

definition ComputeCalculateFields :: "ip_packet \<Rightarrow> ip_packet option" where
  "ComputeCalculateFields pkt =
     (if length (pkt_data pkt) < kMinIPv4 then Some pkt
      else do {
        d \<leftarrow> RecalculateChecksums (pkt_data pkt) (length (pkt_data pkt));
        Some (pkt\<lparr>pkt_data := d\<rparr>)
      })"

definition ClientId :: "ip_packet \<Rightarrow> client_id" where
  "ClientId pkt = pkt_client pkt"

definition SetClientId :: "client_id \<Rightarrow> ip_packet \<Rightarrow> ip_packet" where
  "SetClientId cid pkt = pkt\<lparr>pkt_client := cid\<rparr>"

definition IsIPv4 :: "ip_packet \<Rightarrow> bool" where
  "IsIPv4 pkt \<longleftrightarrow> pkt_data pkt \<noteq> [] \<and> drop_bit 4 (pkt_data pkt ! 0) = 4"

definition IsIPv6 :: "ip_packet \<Rightarrow> bool" where
  "IsIPv6 pkt \<longleftrightarrow> pkt_data pkt \<noteq> [] \<and> drop_bit 4 (pkt_data pkt ! 0) = 6"

definition Size :: "ip_packet \<Rightarrow> nat" where
  "Size pkt = length (pkt_data pkt)"

definition GetSrcIPv4Address :: "netlib \<Rightarrow> ip_packet \<Rightarrow> ip_address option" where
  "GetSrcIPv4Address lib pkt =
     (if \<not> IsIPv4 pkt \<or> length (pkt_data pkt) < kMinIPv4 then Some IPAddress_empty
      else do {
        net \<leftarrow> Ipv4GetSrc (pkt_data pkt);
        Some (IPv4Address_new lib (inet_ntop4 lib net))
      })"

definition GetDstIPv4Address :: "netlib \<Rightarrow> ip_packet \<Rightarrow> ip_address option" where
  "GetDstIPv4Address lib pkt =
     (if \<not> IsIPv4 pkt \<or> length (pkt_data pkt) < kMinIPv4 then Some IPAddress_empty
      else do {
        net \<leftarrow> Ipv4GetDst (pkt_data pkt);
        Some (IPv4Address_new lib (inet_ntop4 lib net))
      })"

definition GetSrcIPv6Address :: "netlib \<Rightarrow> ip_packet \<Rightarrow> ip_address option" where
  "GetSrcIPv6Address lib pkt =
     (if \<not> IsIPv6 pkt \<or> length (pkt_data pkt) < kMinIPv6 then Some IPAddress_empty
      else do {
        a \<leftarrow> Ipv6GetSrc (pkt_data pkt);
        Some (IPv6Address_new lib (inet_ntop6 lib a))
      })"

definition GetDstIPv6Address :: "netlib \<Rightarrow> ip_packet \<Rightarrow> ip_address option" where
  "GetDstIPv6Address lib pkt =
     (if \<not> IsIPv6 pkt \<or> length (pkt_data pkt) < kMinIPv6 then Some IPAddress_empty
      else do {
        a \<leftarrow> Ipv6GetDst (pkt_data pkt);
        Some (IPv6Address_new lib (inet_ntop6 lib a))
      })"

text \<open>The stored bytes of \<open>htonl(dst.ToInt())\<close> are the big-endian bytes of the integer.\<close>

definition SetDstIPv4Address :: "ip_address \<Rightarrow> ip_packet \<Rightarrow> ip_packet option" where
  "SetDstIPv4Address dst pkt =
     (if \<not> IsIPv4 pkt \<or> length (pkt_data pkt) < kMinIPv4 then Some pkt
      else do {
        ttl \<leftarrow> Ipv4Ttl (pkt_data pkt);
        if ttl = 0 then Some pkt
        else do {
          d \<leftarrow> Ipv4SetDst (pkt_data pkt) (be32_bytes (IPAddress_ToInt dst));
          d \<leftarrow> RecalculateChecksums d (length d);
          Some (pkt\<lparr>pkt_data := d\<rparr>)
        }
      })"

definition SetSrcIPv4Address :: "ip_address \<Rightarrow> ip_packet \<Rightarrow> ip_packet option" where
  "SetSrcIPv4Address src pkt =
     (if \<not> IsIPv4 pkt \<or> length (pkt_data pkt) < kMinIPv4 then Some pkt
      else do {
        ttl \<leftarrow> Ipv4Ttl (pkt_data pkt);
        if ttl = 0 then Some pkt
        else do {
          d \<leftarrow> Ipv4SetSrc (pkt_data pkt) (be32_bytes (IPAddress_ToInt src));
          d \<leftarrow> RecalculateChecksums d (length d);
          Some (pkt\<lparr>pkt_data := d\<rparr>)
        }
      })"

definition SetDstIPv6Address :: "netlib \<Rightarrow> ip_address \<Rightarrow> ip_packet \<Rightarrow> ip_packet option" where
  "SetDstIPv6Address lib dst pkt =
     (if \<not> IsIPv6 pkt \<or> length (pkt_data pkt) < kMinIPv6 then Some pkt
      else case inet_pton6 lib (ip_str dst) of
        None \<Rightarrow> Some pkt
      | Some a \<Rightarrow> do {
          d \<leftarrow> Ipv6SetDst (pkt_data pkt) a;
          d \<leftarrow> RecalculateChecksums d (length d);
          Some (pkt\<lparr>pkt_data := d\<rparr>)
        })"

definition SetSrcIPv6Address :: "netlib \<Rightarrow> ip_address \<Rightarrow> ip_packet \<Rightarrow> ip_packet option" where
  "SetSrcIPv6Address lib src pkt =
     (if \<not> IsIPv6 pkt \<or> length (pkt_data pkt) < kMinIPv6 then Some pkt
      else case inet_pton6 lib (ip_str src) of
        None \<Rightarrow> Some pkt
      | Some a \<Rightarrow> do {
          d \<leftarrow> Ipv6SetSrc (pkt_data pkt) a;
          d \<leftarrow> RecalculateChecksums d (length d);
          Some (pkt\<lparr>pkt_data := d\<rparr>)
        })"

definition IsICMPv4 :: "ip_packet \<Rightarrow> bool" where
  "IsICMPv4 pkt \<longleftrightarrow>
     IsIPv4 pkt \<and> kMinIPv4 \<le> length (pkt_data pkt) \<and> Ipv4Proto (pkt_data pkt) = Some 1"

definition IsICMPv6 :: "ip_packet \<Rightarrow> bool" where
  "IsICMPv6 pkt \<longleftrightarrow>
     IsIPv6 pkt \<and> kMinIPv6 \<le> length (pkt_data pkt) \<and> Ipv6Next (pkt_data pkt) = Some 58"

definition IsTCP :: "ip_packet \<Rightarrow> bool" where
  "IsTCP pkt =
     (if IsIPv4 pkt then kMinIPv4 \<le> length (pkt_data pkt) \<and> Ipv4Proto (pkt_data pkt) = Some 6
      else if IsIPv6 pkt then kMinIPv6 \<le> length (pkt_data pkt) \<and> Ipv6Next (pkt_data pkt) = Some 6
      else False)"

definition IsUDP :: "ip_packet \<Rightarrow> bool" where
  "IsUDP pkt =
     (if IsIPv4 pkt then kMinIPv4 \<le> length (pkt_data pkt) \<and> Ipv4Proto (pkt_data pkt) = Some 17
      else if IsIPv6 pkt then kMinIPv6 \<le> length (pkt_data pkt) \<and> Ipv6Next (pkt_data pkt) = Some 17
      else False)"

definition ip_hdr :: "ip_packet \<Rightarrow> nat option" where
  "ip_hdr pkt = (if IsIPv4 pkt then Ipv4Ihl (pkt_data pkt) else Some kMinIPv6)"

definition GetTcpSrcPort :: "ip_packet \<Rightarrow> u16 option" where
  "GetTcpSrcPort pkt = do {
     h \<leftarrow> ip_hdr pkt;
     if length (pkt_data pkt) < h + 2 then Some 0 else ReadU16Be (pkt_data pkt) h
   }"

definition GetTcpDstPort :: "ip_packet \<Rightarrow> u16 option" where
  "GetTcpDstPort pkt = do {
     h \<leftarrow> ip_hdr pkt;
     if length (pkt_data pkt) < h + 4 then Some 0 else ReadU16Be (pkt_data pkt) (h + 2)
   }"

definition GetUdpSrcPort :: "ip_packet \<Rightarrow> u16 option" where
  "GetUdpSrcPort pkt = do {
     h \<leftarrow> ip_hdr pkt;
     if length (pkt_data pkt) < h + 2 then Some 0 else ReadU16Be (pkt_data pkt) h
   }"

definition GetUdpDstPort :: "ip_packet \<Rightarrow> u16 option" where
  "GetUdpDstPort pkt = do {
     h \<leftarrow> ip_hdr pkt;
     if length (pkt_data pkt) < h + 4 then Some 0 else ReadU16Be (pkt_data pkt) (h + 2)
   }"

definition GetTcpPayload :: "ip_packet \<Rightarrow> (nat \<times> nat) option option" where
  "GetTcpPayload pkt = (let p = pkt_data pkt in do {
     proto \<leftarrow> (if IsIPv4 pkt then Ipv4Proto p else Ipv6Next p);
     if proto \<noteq> 6 then Some None
     else do {
       h \<leftarrow> ip_hdr pkt;
       if length p < h + 20 then Some None
       else do {
         b \<leftarrow> rd p (h + 12);
         let tcp_hdr = unat (drop_bit 4 b) * 4;
         if length p < h + tcp_hdr then Some None
         else Some (Some (h + tcp_hdr, length p - h - tcp_hdr))
       }
     }
   })"

definition GetUdpPayload :: "ip_packet \<Rightarrow> (nat \<times> nat) option option" where
  "GetUdpPayload pkt = (let p = pkt_data pkt in do {
     proto \<leftarrow> (if IsIPv4 pkt then Ipv4Proto p else Ipv6Next p);
     if proto \<noteq> 17 then Some None
     else do {
       h \<leftarrow> ip_hdr pkt;
       if length p < h + kUdpHdr then Some None
       else Some (Some (h + kUdpHdr, length p - h - kUdpHdr))
     }
   })"

section \<open>Parsed packets\<close>

text \<open>What \<open>Parse\<close> guarantees and every operation below relies on.\<close>

definition parsed :: "ip_packet \<Rightarrow> bool" where
  "parsed pkt \<longleftrightarrow>
     IsIPv4 pkt \<and> kMinIPv4 \<le> length (pkt_data pkt) \<or>
     IsIPv6 pkt \<and> kMinIPv6 \<le> length (pkt_data pkt)"

lemma IsIPv4_iff: "IsIPv4 pkt \<longleftrightarrow> pkt_data pkt \<noteq> [] \<and> unat (pkt_data pkt ! 0) div 16 = 4"
  unfolding IsIPv4_def version_word ..

lemma IsIPv6_iff: "IsIPv6 pkt \<longleftrightarrow> pkt_data pkt \<noteq> [] \<and> unat (pkt_data pkt ! 0) div 16 = 6"
  unfolding IsIPv6_def version_word ..

lemma IPPacket_Parse_iff:
  "IPPacket_Parse buffer cid = Some pkt \<longleftrightarrow>
     pkt = \<lparr>pkt_data = buffer, pkt_client = cid\<rparr> \<and> parsed pkt"
  unfolding IPPacket_Parse_def parsed_def Let_def version_word
  by (auto simp: IsIPv4_iff IsIPv6_iff kMinIPv4_def kMinIPv6_def)

lemma parsed_length: "parsed pkt \<Longrightarrow> 20 \<le> length (pkt_data pkt)"
  by (auto simp: parsed_def kMinIPv4_def kMinIPv6_def)

lemma Ipv4Ihl_eq: "p \<noteq> [] \<Longrightarrow> Ipv4Ihl p = Some (ihl4 p)"
  using ihl_of_in [of p] by (simp add: Ipv4Ihl_def ihl_of_def)

lemma ip_hdr_in: "parsed pkt \<Longrightarrow> ip_hdr pkt = Some (if IsIPv4 pkt then ihl4 (pkt_data pkt) else 40)"
  using parsed_length [of pkt] Ipv4Ihl_eq [of "pkt_data pkt"]
  by (cases "pkt_data pkt = []") (auto simp: ip_hdr_def kMinIPv6_def)

lemma rd_defined: "i < length p \<Longrightarrow> \<exists>b. rd p i = Some b"
  by (simp add: rd_def)

lemma ports_defined:
  assumes "parsed pkt"
  shows "GetTcpSrcPort pkt \<noteq> None" "GetTcpDstPort pkt \<noteq> None"
    "GetUdpSrcPort pkt \<noteq> None" "GetUdpDstPort pkt \<noteq> None"
  by (auto simp: GetTcpSrcPort_def GetTcpDstPort_def GetUdpSrcPort_def GetUdpDstPort_def
      ip_hdr_in [OF assms] ReadU16Be_in simp del: push_bit_numeral_minus_1)

lemma payload_defined:
  assumes "parsed pkt"
  shows "\<exists>r. GetTcpPayload pkt = Some r \<and>
           (case r of None \<Rightarrow> True | Some (off, n) \<Rightarrow> IsTCP pkt \<and> off + n = Size pkt)"
    and "\<exists>r. GetUdpPayload pkt = Some r \<and>
           (case r of None \<Rightarrow> True | Some (off, n) \<Rightarrow> IsUDP pkt \<and> off + n = Size pkt)"
proof -
  have l: "20 \<le> length (pkt_data pkt)" by (rule parsed_length [OF assms])
  have v6: "\<not> IsIPv4 pkt \<Longrightarrow> IsIPv6 pkt \<and> kMinIPv6 \<le> length (pkt_data pkt)"
    using assms by (auto simp: parsed_def)
  have p: "Ipv4Proto (pkt_data pkt) = Some (pkt_data pkt ! 9)"
    "Ipv6Next (pkt_data pkt) = Some (pkt_data pkt ! 6)"
    using l by (auto simp: Ipv4Proto_def Ipv6Next_def rd_def)
  show "\<exists>r. GetTcpPayload pkt = Some r \<and>
           (case r of None \<Rightarrow> True | Some (off, n) \<Rightarrow> IsTCP pkt \<and> off + n = Size pkt)"
    using l v6 by (auto simp: GetTcpPayload_def ip_hdr_in [OF assms] p Let_def rd_def IsTCP_def
        Size_def kMinIPv4_def)
  show "\<exists>r. GetUdpPayload pkt = Some r \<and>
           (case r of None \<Rightarrow> True | Some (off, n) \<Rightarrow> IsUDP pkt \<and> off + n = Size pkt)"
    using l v6 by (auto simp: GetUdpPayload_def ip_hdr_in [OF assms] p Let_def rd_def IsUDP_def
        Size_def kMinIPv4_def)
qed

lemma addresses_defined:
  "GetSrcIPv4Address lib pkt \<noteq> None" "GetDstIPv4Address lib pkt \<noteq> None"
  "GetSrcIPv6Address lib pkt \<noteq> None" "GetDstIPv6Address lib pkt \<noteq> None"
  by (auto simp: GetSrcIPv4Address_def GetDstIPv4Address_def GetSrcIPv6Address_def
      GetDstIPv6Address_def Ipv4GetSrc_def Ipv4GetDst_def Ipv6GetSrc_def Ipv6GetDst_def memrd_def
      kMinIPv4_def kMinIPv6_def)

section \<open>Rewriting an address\<close>

text \<open>An IPv4 packet whose header length field is sound.\<close>

definition sound_ipv4 :: "ip_packet \<Rightarrow> bool" where
  "sound_ipv4 pkt \<longleftrightarrow> IsIPv4 pkt \<and> 20 \<le> ihl4 (pkt_data pkt) \<and>
     ihl4 (pkt_data pkt) \<le> length (pkt_data pkt) \<and> length (pkt_data pkt) < 2147483648"

definition sums_ok4 :: "ip_packet \<Rightarrow> bool" where
  "sums_ok4 pkt \<longleftrightarrow> (let p = pkt_data pkt in
     header_ok4 p \<and>
     (p ! 9 \<in> {1, 6, 17} \<and> transport_field (p ! 9) + 2 \<le> length (segment4 p) \<longrightarrow>
        transport_ok4 p))"

lemma memwr_same_outside:
  "memwr p i v = Some q \<Longrightarrow> same_outside {i..<i + length v} p q"
  using nth_memwr [of p i v q] length_memwr [of p i v q] by (auto simp: same_outside_def)

lemma memwr_slice:
  "memwr p i v = Some q \<Longrightarrow> take (length v) (drop i q) = v"
  by (auto simp: memwr_def split: if_splits)

lemma same_outside_mono: "same_outside A p q \<Longrightarrow> A \<subseteq> B \<Longrightarrow> same_outside B p q"
  by (auto simp: same_outside_def)

lemma header_field_recalculated:
  assumes "sound_ipv4 pkt" and "length v = 4" and "i = 12 \<or> i = 16"
  shows "\<exists>d q. memwr (pkt_data pkt) i v = Some d \<and> RecalculateChecksums d (length d) = Some q \<and>
           length q = length (pkt_data pkt) \<and> take 4 (drop i q) = v \<and>
           take 4 (drop (28 - i) q) = take 4 (drop (28 - i) (pkt_data pkt)) \<and>
           sound_ipv4 (pkt\<lparr>pkt_data := q\<rparr>) \<and> sums_ok4 (pkt\<lparr>pkt_data := q\<rparr>)"
proof -
  let ?p = "pkt_data pkt"
  have s: "20 \<le> ihl4 ?p" "ihl4 ?p \<le> length ?p" "length ?p < 2147483648"
    "unat (?p ! 0) div 16 = 4" "20 \<le> length ?p"
    using assms(1) by (auto simp: sound_ipv4_def IsIPv4_iff)
  obtain d where d: "memwr ?p i v = Some d" using assms s by (auto simp: memwr_def)
  have sd: "same_outside {12..19} ?p d"
    by (rule same_outside_mono [OF memwr_same_outside [OF d]]) (use assms in auto)
  have ld: "length d = length ?p" by (rule length_memwr [OF d])
  have n: "d ! j = ?p ! j" if "j < 12" for j
    using same_outside_nth [OF sd, of j] that s by auto
  have id: "ihl4 d = ihl4 ?p" and d9: "d ! 9 = ?p ! 9" by (simp_all add: ihl4_def n)
  let ?at = "ihl4 d + transport_field (d ! 9)"
  have "20 \<le> length d" "length d < 2147483648" "unat (d ! 0) div 16 = 4" "20 \<le> ihl4 d"
    "ihl4 d \<le> length d" using s ld id n [of 0] by simp_all
  from recalculate_ipv4_aux [OF this]
  obtain q where q: "RecalculateChecksums d (length d) = Some q" "header_ok4 q"
    "same_outside ({10, 11} \<union> {?at, ?at + 1}) d q"
    and ok: "d ! 9 \<in> {1, 6, 17} \<and> transport_field (d ! 9) + 2 \<le> length (segment4 d) \<longrightarrow> transport_ok4 q"
    by blast
  have at: "20 \<le> ?at" using s id by simp
  have lq: "length q = length ?p" using same_outside_length [OF q(3)] ld by simp
  have dis: "({10, 11} \<union> {?at, ?at + 1}) \<inter> ({0..9} \<union> {12..19}) = {}" using at by auto
  note h = same_outside_header4 [OF q(3) \<open>20 \<le> length d\<close> dis]
  have slice: "take 4 (drop j q) = take 4 (drop j d)" if "j = 12 \<or> j = 16" for j
    by (rule same_outside_slice [OF q(3)]) (use at that in auto)
  have "take 4 (drop i q) = v"
    using slice [OF assms(3)] memwr_slice [OF d] assms(2) by simp
  moreover have "take 4 (drop (28 - i) q) = take 4 (drop (28 - i) ?p)"
  proof -
    have "take 4 (drop (28 - i) d) = take 4 (drop (28 - i) ?p)"
      by (rule same_outside_slice [OF memwr_same_outside [OF d]]) (use assms in auto)
    moreover have "28 - i = 12 \<or> 28 - i = 16" using assms(3) by auto
    ultimately show ?thesis using slice by simp
  qed
  moreover have "sound_ipv4 (pkt\<lparr>pkt_data := q\<rparr>)"
  proof -
    have "ihl4 q = ihl4 ?p" using h(1) id by (rule trans)
    moreover have "q ! 0 = ?p ! 0" using h(4) n [of 0] by simp
    moreover have "q \<noteq> []" using lq s(5) by auto
    ultimately show ?thesis
      unfolding sound_ipv4_def IsIPv4_iff using s(1-4) lq by simp
  qed
  moreover have "sums_ok4 (pkt\<lparr>pkt_data := q\<rparr>)"
    using q(2) ok by (simp add: sums_ok4_def h Let_def)
  ultimately show ?thesis using d q(1) lq by blast
qed

lemma get_ipv4:
  assumes "netlib_ok lib" "sound_ipv4 pkt"
  shows "GetDstIPv4Address lib pkt = Some \<lparr>ip_str = inet_ntop4 lib (take 4 (drop 16 (pkt_data pkt))),
           ip_impl = V4 (be32_of (take 4 (drop 16 (pkt_data pkt))))\<rparr>"
    and "GetSrcIPv4Address lib pkt = Some \<lparr>ip_str = inet_ntop4 lib (take 4 (drop 12 (pkt_data pkt))),
           ip_impl = V4 (be32_of (take 4 (drop 12 (pkt_data pkt))))\<rparr>"
proof -
  have "20 \<le> length (pkt_data pkt)" "IsIPv4 pkt" using assms(2) by (auto simp: sound_ipv4_def)
  then show "GetDstIPv4Address lib pkt = Some \<lparr>ip_str = inet_ntop4 lib (take 4 (drop 16 (pkt_data pkt))),
           ip_impl = V4 (be32_of (take 4 (drop 16 (pkt_data pkt))))\<rparr>"
    and "GetSrcIPv4Address lib pkt = Some \<lparr>ip_str = inet_ntop4 lib (take 4 (drop 12 (pkt_data pkt))),
           ip_impl = V4 (be32_of (take 4 (drop 12 (pkt_data pkt))))\<rparr>"
    using IPv4Address_new_parsed [OF assms(1) netlib_okD(2) [OF assms(1)]]
    by (simp_all add: GetDstIPv4Address_def GetSrcIPv4Address_def Ipv4GetDst_def Ipv4GetSrc_def
        memrd_def kMinIPv4_def)
qed

lemma set_dst_ipv4_aux:
  assumes "netlib_ok lib" "sound_ipv4 pkt" "pkt_data pkt ! 8 \<noteq> 0"
  shows "\<exists>pkt'. SetDstIPv4Address dst pkt = Some pkt' \<and> sound_ipv4 pkt' \<and> sums_ok4 pkt' \<and>
           map_option IPAddress_ToInt (GetDstIPv4Address lib pkt') = Some (IPAddress_ToInt dst) \<and>
           GetSrcIPv4Address lib pkt' = GetSrcIPv4Address lib pkt \<and>
           ClientId pkt' = ClientId pkt \<and> Size pkt' = Size pkt"
proof -
  obtain d q where q: "memwr (pkt_data pkt) 16 (be32_bytes (IPAddress_ToInt dst)) = Some d"
    "RecalculateChecksums d (length d) = Some q" "length q = length (pkt_data pkt)"
    "take 4 (drop 16 q) = be32_bytes (IPAddress_ToInt dst)"
    "take 4 (drop 12 q) = take 4 (drop 12 (pkt_data pkt))"
    "sound_ipv4 (pkt\<lparr>pkt_data := q\<rparr>)" "sums_ok4 (pkt\<lparr>pkt_data := q\<rparr>)"
    using header_field_recalculated [OF assms(2) length_be32_bytes [of "IPAddress_ToInt dst"], of 16] by auto
  have "IsIPv4 pkt" "20 \<le> length (pkt_data pkt)" "rd (pkt_data pkt) 8 = Some (pkt_data pkt ! 8)"
    using assms(2) by (auto simp: sound_ipv4_def rd_def)
  then have "SetDstIPv4Address dst pkt = Some (pkt\<lparr>pkt_data := q\<rparr>)"
    using assms(3) q(1,2) by (simp add: SetDstIPv4Address_def Ipv4Ttl_def Ipv4SetDst_def kMinIPv4_def)
  then show ?thesis using q
    by (simp add: get_ipv4 [OF assms(1)] assms(2) ClientId_def Size_def IPAddress_ToInt_def)
qed

lemma set_src_ipv4_aux:
  assumes "netlib_ok lib" "sound_ipv4 pkt" "pkt_data pkt ! 8 \<noteq> 0"
  shows "\<exists>pkt'. SetSrcIPv4Address src pkt = Some pkt' \<and> sound_ipv4 pkt' \<and> sums_ok4 pkt' \<and>
           map_option IPAddress_ToInt (GetSrcIPv4Address lib pkt') = Some (IPAddress_ToInt src) \<and>
           GetDstIPv4Address lib pkt' = GetDstIPv4Address lib pkt \<and>
           ClientId pkt' = ClientId pkt \<and> Size pkt' = Size pkt"
proof -
  obtain d q where q: "memwr (pkt_data pkt) 12 (be32_bytes (IPAddress_ToInt src)) = Some d"
    "RecalculateChecksums d (length d) = Some q" "length q = length (pkt_data pkt)"
    "take 4 (drop 12 q) = be32_bytes (IPAddress_ToInt src)"
    "take 4 (drop 16 q) = take 4 (drop 16 (pkt_data pkt))"
    "sound_ipv4 (pkt\<lparr>pkt_data := q\<rparr>)" "sums_ok4 (pkt\<lparr>pkt_data := q\<rparr>)"
    using header_field_recalculated [OF assms(2) length_be32_bytes [of "IPAddress_ToInt src"], of 12] by auto
  have "IsIPv4 pkt" "20 \<le> length (pkt_data pkt)" "rd (pkt_data pkt) 8 = Some (pkt_data pkt ! 8)"
    using assms(2) by (auto simp: sound_ipv4_def rd_def)
  then have "SetSrcIPv4Address src pkt = Some (pkt\<lparr>pkt_data := q\<rparr>)"
    using assms(3) q(1,2) by (simp add: SetSrcIPv4Address_def Ipv4Ttl_def Ipv4SetSrc_def kMinIPv4_def)
  then show ?thesis using q
    by (simp add: get_ipv4 [OF assms(1)] assms(2) ClientId_def Size_def IPAddress_ToInt_def)
qed

definition sums_ok6 :: "ip_packet \<Rightarrow> bool" where
  "sums_ok6 pkt \<longleftrightarrow> (let p = pkt_data pkt in
     p ! 6 \<in> {6, 17, 58} \<and> transport_field (p ! 6) + 2 \<le> length (segment6 p) \<longrightarrow>
       transport_ok6 p)"

lemma header_field_recalculated6:
  assumes "IsIPv6 pkt" "40 \<le> length (pkt_data pkt)" "length (pkt_data pkt) < 2147483648"
    and "length v = 16" and "i = 8 \<or> i = 24"
  shows "\<exists>d q. memwr (pkt_data pkt) i v = Some d \<and> RecalculateChecksums d (length d) = Some q \<and>
           length q = length (pkt_data pkt) \<and> take 16 (drop i q) = v \<and>
           take 16 (drop (32 - i) q) = take 16 (drop (32 - i) (pkt_data pkt)) \<and>
           IsIPv6 (pkt\<lparr>pkt_data := q\<rparr>) \<and> sums_ok6 (pkt\<lparr>pkt_data := q\<rparr>)"
proof -
  let ?p = "pkt_data pkt"
  obtain d where d: "memwr ?p i v = Some d" using assms by (auto simp: memwr_def)
  have sd: "same_outside {8..39} ?p d"
    by (rule same_outside_mono [OF memwr_same_outside [OF d]]) (use assms in auto)
  have ld: "length d = length ?p" by (rule length_memwr [OF d])
  have d0: "d ! 0 = ?p ! 0" by (rule same_outside_nth [OF sd]) (use assms(2) in auto)
  let ?at = "40 + transport_field (d ! 6)"
  have v6: "unat (d ! 0) div 16 = 6" using assms(1) d0 by (simp add: IsIPv6_iff)
  have "40 \<le> length d" "length d < 2147483648" using assms ld by simp_all
  from recalculate_ipv6_aux [OF this v6]
  obtain q where q: "RecalculateChecksums d (length d) = Some q" "same_outside {?at, ?at + 1} d q"
    and ok: "d ! 6 \<in> {6, 17, 58} \<and> transport_field (d ! 6) + 2 \<le> length (segment6 d) \<longrightarrow> transport_ok6 q"
    by blast
  have lq: "length q = length ?p" using same_outside_length [OF q(2)] ld by simp
  have dis: "{?at, ?at + 1} \<inter> {0..39} = {}" by auto
  note h = same_outside_header6 [OF q(2) \<open>40 \<le> length d\<close> dis]
  have slice: "take 16 (drop j q) = take 16 (drop j d)" if "j = 8 \<or> j = 24" for j
    by (rule same_outside_slice [OF q(2)]) (use that in auto)
  have "take 16 (drop i q) = v"
    using slice [OF assms(5)] memwr_slice [OF d] assms(4) by simp
  moreover have "take 16 (drop (32 - i) q) = take 16 (drop (32 - i) ?p)"
  proof -
    have "take 16 (drop (32 - i) d) = take 16 (drop (32 - i) ?p)"
      by (rule same_outside_slice [OF memwr_same_outside [OF d]]) (use assms in auto)
    moreover have "32 - i = 8 \<or> 32 - i = 24" using assms(5) by auto
    ultimately show ?thesis using slice by simp
  qed
  moreover have "IsIPv6 (pkt\<lparr>pkt_data := q\<rparr>)"
  proof -
    have "q ! 0 = d ! 0" by (rule same_outside_nth [OF q(2)]) (use \<open>40 \<le> length d\<close> in auto)
    moreover have "q \<noteq> []" using lq assms(2) by auto
    ultimately show ?thesis using v6 by (simp add: IsIPv6_iff)
  qed
  moreover have "sums_ok6 (pkt\<lparr>pkt_data := q\<rparr>)"
    using ok by (simp add: sums_ok6_def h Let_def)
  ultimately show ?thesis using d q(1) lq by blast
qed

lemma get_ipv6:
  assumes "netlib_ok lib" "IsIPv6 pkt" "40 \<le> length (pkt_data pkt)"
  shows "GetDstIPv6Address lib pkt = Some \<lparr>ip_str = inet_ntop6 lib (take 16 (drop 24 (pkt_data pkt))),
           ip_impl = V6 (be128_of (take 16 (drop 24 (pkt_data pkt))))\<rparr>"
    and "GetSrcIPv6Address lib pkt = Some \<lparr>ip_str = inet_ntop6 lib (take 16 (drop 8 (pkt_data pkt))),
           ip_impl = V6 (be128_of (take 16 (drop 8 (pkt_data pkt))))\<rparr>"
  using assms(2,3) IPv6Address_new_parsed [OF assms(1) netlib_okD(3) [OF assms(1)]]
  by (simp_all add: GetDstIPv6Address_def GetSrcIPv6Address_def Ipv6GetDst_def Ipv6GetSrc_def
      memrd_def kMinIPv6_def)

section \<open>Properties\<close>

definition demo_udp :: ip_packet where
  "demo_udp = \<lparr>pkt_data = udp_packet, pkt_client = 7\<rparr>"

lemma demo_udp_facts: "sound_ipv4 demo_udp" "pkt_data demo_udp ! 8 = 64" "parsed demo_udp"
proof -
  show s: "sound_ipv4 demo_udp"
    by (simp add: sound_ipv4_def demo_udp_def IsIPv4_iff udp_packet_facts) (simp add: udp_packet_def)
  show "pkt_data demo_udp ! 8 = 64" by (simp add: demo_udp_def udp_packet_def)
  show "parsed demo_udp"
    using s by (simp add: parsed_def sound_ipv4_def kMinIPv4_def)
qed

definition demo_icmp6 :: ip_packet where
  "demo_icmp6 = \<lparr>pkt_data = icmp6_packet, pkt_client = 7\<rparr>"

lemma demo_icmp6_facts: "IsIPv6 demo_icmp6" "length (pkt_data demo_icmp6) = 45"
  by (simp_all add: demo_icmp6_def IsIPv6_iff icmp6_packet_facts) (simp add: icmp6_packet_def)

text \<open>Rewriting an address of an IPv4 packet (the translation the server applies to every
  packet in either direction): on a packet with a sound header and a non-zero TTL, the setters
  return a packet whose new address reads back as the integer that was set, whose other address,
  client and size are unchanged, and whose header and transport checksums verify.\<close>

theorem SetIPv4Address_correct:
  assumes "netlib_ok lib" and "sound_ipv4 pkt" and "pkt_data pkt ! 8 \<noteq> 0"
  shows "(\<exists>pkt'. SetDstIPv4Address a pkt = Some pkt' \<and> sound_ipv4 pkt' \<and> sums_ok4 pkt' \<and>
            map_option IPAddress_ToInt (GetDstIPv4Address lib pkt') = Some (IPAddress_ToInt a) \<and>
            GetSrcIPv4Address lib pkt' = GetSrcIPv4Address lib pkt \<and>
            ClientId pkt' = ClientId pkt \<and> Size pkt' = Size pkt) \<and>
         (\<exists>pkt'. SetSrcIPv4Address a pkt = Some pkt' \<and> sound_ipv4 pkt' \<and> sums_ok4 pkt' \<and>
            map_option IPAddress_ToInt (GetSrcIPv4Address lib pkt') = Some (IPAddress_ToInt a) \<and>
            GetDstIPv4Address lib pkt' = GetDstIPv4Address lib pkt \<and>
            ClientId pkt' = ClientId pkt \<and> Size pkt' = Size pkt)"
  using set_dst_ipv4_aux [OF assms] set_src_ipv4_aux [OF assms] by blast

theorem SetIPv4Address_correct_witness:
  "\<exists>pkt'. SetDstIPv4Address \<lparr>ip_str = ''10.0.0.9'', ip_impl = V4 0x0A000009\<rparr> demo_udp = Some pkt' \<and>
     sums_ok4 pkt' \<and> map_option IPAddress_ToInt (GetDstIPv4Address demo_lib pkt') = Some 0x0A000009"
proof -
  have "IPAddress_ToInt \<lparr>ip_str = ''10.0.0.9'', ip_impl = V4 0x0A000009\<rparr> = 0x0A000009"
    by (simp add: IPAddress_ToInt_def)
  moreover have "pkt_data demo_udp ! 8 \<noteq> 0" by (simp add: demo_udp_facts)
  ultimately show ?thesis
    using SetIPv4Address_correct [OF demo_lib_ok demo_udp_facts(1),
        of "\<lparr>ip_str = ''10.0.0.9'', ip_impl = V4 0x0A000009\<rparr>"] by metis
qed

text \<open>Rewriting an address of an IPv6 packet: when the text of the new address parses, the packet
  returned has that address, the other address unchanged and verifying checksums; when it does
  not parse, the packet is returned unchanged.\<close>

theorem SetIPv6Address_correct:
  assumes "netlib_ok lib" and "IsIPv6 pkt" and "40 \<le> length (pkt_data pkt)"
    and "length (pkt_data pkt) < 2147483648"
  shows "case inet_pton6 lib (ip_str a) of
           None \<Rightarrow> SetDstIPv6Address lib a pkt = Some pkt \<and> SetSrcIPv6Address lib a pkt = Some pkt
         | Some bs \<Rightarrow>
             (\<exists>pkt'. SetDstIPv6Address lib a pkt = Some pkt' \<and> IsIPv6 pkt' \<and> sums_ok6 pkt' \<and>
                map_option ip_impl (GetDstIPv6Address lib pkt') = Some (V6 (be128_of bs)) \<and>
                GetSrcIPv6Address lib pkt' = GetSrcIPv6Address lib pkt \<and> Size pkt' = Size pkt) \<and>
             (\<exists>pkt'. SetSrcIPv6Address lib a pkt = Some pkt' \<and> IsIPv6 pkt' \<and> sums_ok6 pkt' \<and>
                map_option ip_impl (GetSrcIPv6Address lib pkt') = Some (V6 (be128_of bs)) \<and>
                GetDstIPv6Address lib pkt' = GetDstIPv6Address lib pkt \<and> Size pkt' = Size pkt)"
proof (cases "inet_pton6 lib (ip_str a)")
  case None
  then show ?thesis by (simp add: SetDstIPv6Address_def SetSrcIPv6Address_def)
next
  case (Some bs)
  have l: "length bs = 16" by (rule netlib_okD(4) [OF assms(1) Some])
  note h = header_field_recalculated6 [OF assms(2-4) l]
  show ?thesis
    using h [of 24] h [of 8] Some assms(2,3)
    by (auto simp: SetDstIPv6Address_def SetSrcIPv6Address_def Ipv6SetDst_def Ipv6SetSrc_def
        kMinIPv6_def Size_def get_ipv6 [OF assms(1)])
qed

theorem SetIPv6Address_correct_witness:
  "\<exists>pkt'. SetDstIPv6Address demo_lib \<lparr>ip_str = CHR ''6'' # replicate 16 CHR ''A'', ip_impl = V6 0\<rparr>
       demo_icmp6 = Some pkt' \<and> sums_ok6 pkt'"
  using SetIPv6Address_correct [OF demo_lib_ok demo_icmp6_facts(1),
      of "\<lparr>ip_str = CHR ''6'' # replicate 16 CHR ''A'', ip_impl = V6 0\<rparr>"]
  by (auto simp: demo_icmp6_facts) (auto simp: demo_lib_def)

text \<open>Memory safety of the packet accessors: on every packet \<open>Parse\<close> accepts, whatever its header
  fields say, the port and address accessors return, and the payload accessors return either no
  payload or a view that ends exactly at the end of the packet, the transport protocol being the
  one asked for.\<close>

theorem IPPacket_accessors_safe:
  assumes "IPPacket_Parse buffer cid = Some pkt"
  shows "GetTcpSrcPort pkt \<noteq> None \<and> GetTcpDstPort pkt \<noteq> None \<and>
         GetUdpSrcPort pkt \<noteq> None \<and> GetUdpDstPort pkt \<noteq> None \<and>
         GetSrcIPv4Address lib pkt \<noteq> None \<and> GetDstIPv4Address lib pkt \<noteq> None \<and>
         GetSrcIPv6Address lib pkt \<noteq> None \<and> GetDstIPv6Address lib pkt \<noteq> None \<and>
         (\<exists>r. GetTcpPayload pkt = Some r \<and>
            (case r of None \<Rightarrow> True | Some (off, n) \<Rightarrow> IsTCP pkt \<and> off + n = Size pkt)) \<and>
         (\<exists>r. GetUdpPayload pkt = Some r \<and>
            (case r of None \<Rightarrow> True | Some (off, n) \<Rightarrow> IsUDP pkt \<and> off + n = Size pkt))"
proof -
  have "parsed pkt" using assms unfolding IPPacket_Parse_iff by (rule conjunct2)
  then show ?thesis
    using ports_defined payload_defined addresses_defined by blast
qed

theorem IPPacket_accessors_safe_witness:
  "IPPacket_Parse udp_packet 7 = Some demo_udp \<and>
   (\<exists>r. GetUdpPayload demo_udp = Some r)"
proof -
  have *: "IPPacket_Parse udp_packet 7 = Some demo_udp"
    using demo_udp_facts(3) by (simp add: IPPacket_Parse_iff demo_udp_def)
  then show ?thesis using IPPacket_accessors_safe [OF *] by blast
qed

end
