(* ===== verification/Dns.thy ===== *)
theory Dns
  imports Packet
begin

text \<open>
  DNS messages inside packets: the members and helpers of \<open>src/common/network/ip_packet.h\<close> that
  read questions and answers, and the question parser of \<open>src/common/network/ip_utils.h\<close>.
  Pointers are offsets into the packet; \<open>end\<close> is its length. The build without
  \<open>FPTN_WITH_LIBIDN2\<close> is modelled: names are returned as they are in the packet.
\<close>

section \<open>Definitions\<close>

definition DnsPayloadPtr :: "byte list \<Rightarrow> nat \<Rightarrow> nat \<Rightarrow> nat option option" where
  "DnsPayloadPtr p udp e =
     (if e < udp + kUdpHdr then Some None
      else do {
        sport \<leftarrow> ReadU16Be p udp;
        dport \<leftarrow> (if sport \<noteq> 53 then ReadU16Be p (udp + 2) else Some 53);
        if sport \<noteq> 53 \<and> dport \<noteq> 53 then Some None
        else
          let dns = udp + kUdpHdr in
          Some (if dns + kDnsHdr \<le> e then Some dns else None)
      })"

text \<open>The loop of \<open>ParseDnsName\<close>; the number of remaining iterations is the fourth argument.\<close>

fun dns_name_loop ::
    "byte list \<Rightarrow> nat \<Rightarrow> nat \<Rightarrow> nat \<Rightarrow> bool \<Rightarrow> nat \<Rightarrow> nat \<Rightarrow> string \<Rightarrow> (string \<times> nat) option" where
  "dns_name_loop p base e 0 jumped ptr cur name = Some (name, cur)"
| "dns_name_loop p base e (Suc i) jumped ptr cur name =
     (if ptr < e then do {
        len \<leftarrow> rd p ptr;
        if len = 0 then Some (name, if jumped then cur else ptr + 1)
        else if len AND 0xC0 = 0xC0 then
          if e < ptr + 2 then Some (name, cur)
          else do {
            lo \<leftarrow> rd p (ptr + 1);
            dns_name_loop p base e i True
              (base + (unat (len AND 0x3F) * 256 + unat lo)) (if jumped then cur else ptr + 2) name
          }
        else
          if e < ptr + 1 + unat len then Some (name, cur)
          else do {
            label \<leftarrow> memrd p (ptr + 1) (unat len);
            dns_name_loop p base e i jumped (ptr + 1 + unat len) cur
              ((if name \<noteq> [] then name @ ''.'' else name) @ byte_chars label)
          }
      }
      else Some (name, cur))"

definition ParseDnsName :: "byte list \<Rightarrow> nat \<Rightarrow> nat \<Rightarrow> nat \<Rightarrow> (string \<times> nat) option" where
  "ParseDnsName p base e cur = dns_name_loop p base e 128 False cur cur []"

text \<open>The loop that skips an encoded name, at most 256 labels.\<close>

fun dns_skip_name :: "byte list \<Rightarrow> nat \<Rightarrow> nat \<Rightarrow> nat \<Rightarrow> nat option" where
  "dns_skip_name p e 0 cur = Some cur"
| "dns_skip_name p e (Suc s) cur =
     (if cur < e then do {
        l \<leftarrow> rd p cur;
        if l = 0 then Some (cur + 1)
        else if l AND 0xC0 = 0xC0 then Some (cur + 2)
        else dns_skip_name p e s (cur + (1 + unat l))
      }
      else Some cur)"

fun dns_skip_questions :: "byte list \<Rightarrow> nat \<Rightarrow> nat \<Rightarrow> nat \<Rightarrow> nat option" where
  "dns_skip_questions p e 0 cur = Some cur"
| "dns_skip_questions p e (Suc q) cur =
     (if cur < e then do {
        cur \<leftarrow> dns_skip_name p e 256 cur;
        dns_skip_questions p e q (cur + 4)
      }
      else Some cur)"

text \<open>Returns the position of the first answer and the answer count.\<close>

definition DnsAnswerStart :: "byte list \<Rightarrow> nat \<Rightarrow> nat \<Rightarrow> (nat \<times> nat) option option" where
  "DnsAnswerStart p dns e =
     (if e < dns + kDnsHdr then Some None
      else do {
        flags \<leftarrow> rd p (dns + 2);
        if flags AND 0x80 = 0 then Some None
        else do {
          qdcount \<leftarrow> ReadU16Be p (dns + 4);
          ancount \<leftarrow> ReadU16Be p (dns + 6);
          if ancount = 0 then Some None
          else do {
            cur \<leftarrow> dns_skip_questions p e (unat qdcount) (dns + kDnsHdr);
            Some (if cur < e then Some (cur, unat ancount) else None)
          }
        }
      })"

definition DnsPtr :: "ip_packet \<Rightarrow> nat option option" where
  "DnsPtr pkt = (let p = pkt_data pkt; e = length p in
     if IsIPv4 pkt \<and> kMinIPv4 \<le> length p \<and> Ipv4Proto p = Some 17 then do {
       ihl \<leftarrow> Ipv4Ihl p;
       DnsPayloadPtr p ihl e
     }
     else if IsIPv6 pkt \<and> kMinIPv6 \<le> length p \<and> Ipv6Next p = Some 17 then
       DnsPayloadPtr p kMinIPv6 e
     else Some None)"

definition IsDns :: "ip_packet \<Rightarrow> bool option" where
  "IsDns pkt = do { d \<leftarrow> DnsPtr pkt; Some (d \<noteq> None) }"

definition GetDnsDomain :: "ip_packet \<Rightarrow> string option option" where
  "GetDnsDomain pkt = (let p = pkt_data pkt in do {
     ptr \<leftarrow> DnsPtr pkt;
     case ptr of
       None \<Rightarrow> Some None
     | Some dns \<Rightarrow> do {
         qdcount \<leftarrow> ReadU16Be p (dns + 4);
         if qdcount = 0 then Some None
         else do {
           (name, cur) \<leftarrow> ParseDnsName p dns (length p) (dns + kDnsHdr);
           Some (if name = [] then None else Some name)
         }
       }
   })"

text \<open>The loop over the answer records, which keeps the data of those of type \<open>want\<close> with
  \<open>wlen\<close> bytes. The four bytes of an A record are assembled in host order and swapped by
  \<open>htonl\<close>: the bytes handed to \<open>inet_ntop\<close> are the record's.\<close>

fun dns_answers ::
    "byte list \<Rightarrow> nat \<Rightarrow> u16 \<Rightarrow> u16 \<Rightarrow> nat \<Rightarrow> nat \<Rightarrow> byte list list \<Rightarrow> byte list list option" where
  "dns_answers p e want wlen 0 cur out = Some out"
| "dns_answers p e want wlen (Suc a) cur out =
     (if cur < e then do {
        cur \<leftarrow> dns_skip_name p e 256 cur;
        if e < cur + 10 then Some out
        else do {
          rtype \<leftarrow> ReadU16Be p cur;
          rdlen \<leftarrow> ReadU16Be p (cur + 8);
          if e < cur + 10 + unat rdlen then Some out
          else do {
            out \<leftarrow> (if rtype = want \<and> rdlen = wlen then do {
                      r \<leftarrow> memrd p (cur + 10) (unat wlen);
                      Some (out @ [r])
                    }
                    else Some out);
            dns_answers p e want wlen a (cur + 10 + unat rdlen) out
          }
        }
      }
      else Some out)"

definition GetDnsIPv4Addresses :: "netlib \<Rightarrow> ip_packet \<Rightarrow> ip_address list option" where
  "GetDnsIPv4Addresses lib pkt = (let p = pkt_data pkt in do {
     ptr \<leftarrow> DnsPtr pkt;
     case ptr of
       None \<Rightarrow> Some []
     | Some dns \<Rightarrow> do {
         start \<leftarrow> DnsAnswerStart p dns (length p);
         case start of
           None \<Rightarrow> Some []
         | Some (cur, ancount) \<Rightarrow> do {
             recs \<leftarrow> dns_answers p (length p) 1 4 ancount cur [];
             Some (map (\<lambda>b. IPv4Address_new lib (inet_ntop4 lib b)) recs)
           }
       }
   })"

definition GetDnsIPv6Addresses :: "netlib \<Rightarrow> ip_packet \<Rightarrow> ip_address list option" where
  "GetDnsIPv6Addresses lib pkt = (let p = pkt_data pkt in do {
     ptr \<leftarrow> DnsPtr pkt;
     case ptr of
       None \<Rightarrow> Some []
     | Some dns \<Rightarrow> do {
         start \<leftarrow> DnsAnswerStart p dns (length p);
         case start of
           None \<Rightarrow> Some []
         | Some (cur, ancount) \<Rightarrow> do {
             recs \<leftarrow> dns_answers p (length p) 28 16 ancount cur [];
             Some (map (\<lambda>b. IPv6Address_new lib (inet_ntop6 lib b)) recs)
           }
       }
   })"

section \<open>The question parser of ip\_utils.h\<close>

definition IsDnsResponseIPv4 :: "byte list \<Rightarrow> nat \<Rightarrow> bool option" where
  "IsDnsResponseIPv4 p buf_size = do {
     ihl \<leftarrow> ihl_of p;
     let dns = ihl + 8;
     if buf_size < dns + 3 then Some False
     else do {
       b \<leftarrow> rd p (dns + 2);
       Some (b AND 0x80 \<noteq> 0)
     }
   }"

text \<open>One name of the question section. The inner \<open>None\<close> is the early return on a malformed
  label.\<close>

function question_name :: "byte list \<Rightarrow> nat \<Rightarrow> nat \<Rightarrow> string \<Rightarrow> (string \<times> nat) option option" where
  "question_name p e cur name =
     (if cur < e then do {
        label_len \<leftarrow> rd p cur;
        if label_len = 0 then Some (Some (name, cur + 1))
        else if label_len AND 0xC0 = 0xC0 then Some (Some (name, cur + 2))
        else if e < cur + 1 + unat label_len then Some None
        else do {
          label \<leftarrow> memrd p (cur + 1) (unat label_len);
          question_name p e (cur + 1 + unat label_len)
            ((if name \<noteq> [] then name @ ''.'' else name) @ byte_chars label)
        }
      }
      else Some (Some (name, cur)))"
  by auto
termination by (relation "measure (\<lambda>(p, e, cur, name). e - cur)") auto

declare question_name.simps [simp del]

fun questions :: "byte list \<Rightarrow> nat \<Rightarrow> nat \<Rightarrow> nat \<Rightarrow> string list \<Rightarrow> string list option" where
  "questions p e 0 cur domains = Some domains"
| "questions p e (Suc q) cur domains =
     (if cur < e then do {
        r \<leftarrow> question_name p e cur [];
        case r of
          None \<Rightarrow> Some domains
        | Some (name, cur) \<Rightarrow>
            if e < cur + 4 then Some domains
            else questions p e q (cur + 4) (if name \<noteq> [] then domains @ [name] else domains)
      }
      else Some domains)"

definition DnsGetQueriedDomainsIPv4 :: "byte list \<Rightarrow> int \<Rightarrow> string list option" where
  "DnsGetQueriedDomainsIPv4 p total_len = do {
     ihl \<leftarrow> ihl_of p;
     if total_len < int ihl + 8 then Some []
     else do {
       udp_len \<leftarrow> ReadU16Be p (ihl + 4);
       let safe_udp_len = min (int (unat udp_len)) (total_len - int ihl);
       let dns = ihl + 8;
       let dns_len = safe_udp_len - 8;
       if dns_len < 12 then Some []
       else do {
         qdcount \<leftarrow> ReadU16Be p (dns + 4);
         if qdcount = 0 then Some []
         else questions p (dns + nat dns_len) (unat qdcount) (dns + 12) []
       }
     }
   }"

section \<open>Memory safety\<close>

lemma dns_name_loop_defined:
  "e \<le> length p \<Longrightarrow> \<exists>r. dns_name_loop p base e i jumped ptr cur name = Some r"
  by (induction i arbitrary: jumped ptr cur name) (auto simp: rd_in memrd_in Let_def)

lemma dns_skip_name_defined: "e \<le> length p \<Longrightarrow> \<exists>c. dns_skip_name p e s cur = Some c"
  by (induction s arbitrary: cur) (auto simp: rd_in)

lemma dns_skip_questions_defined: "e \<le> length p \<Longrightarrow> \<exists>c. dns_skip_questions p e q cur = Some c"
proof (induction q arbitrary: cur)
  case (Suc q)
  then show ?case using dns_skip_name_defined [of e p 256 cur]
    by (auto simp del: dns_skip_name.simps)
qed simp

lemma dns_answers_defined:
  "e \<le> length p \<Longrightarrow>
   \<exists>out'. dns_answers p e want wlen a cur out = Some (out @ out') \<and> length out' \<le> a \<and>
          (\<forall>r \<in> set out'. length r = unat wlen)"
proof (induction a arbitrary: cur out)
  case (Suc a)
  show ?case
  proof (cases "cur < e")
    case True
    obtain c where c: "dns_skip_name p e 256 cur = Some c"
      using dns_skip_name_defined [OF Suc.prems] by blast
    show ?thesis
    proof (cases "e < c + 10")
      case False
      then obtain t l where t: "ReadU16Be p c = Some t" "ReadU16Be p (c + 8) = Some l"
        using Suc.prems ReadU16Be_defined [of c p] ReadU16Be_defined [of "c + 8" p] by auto
      show ?thesis
      proof (cases "e < c + 10 + unat l")
        case True
        then show ?thesis using c t False \<open>cur < e\<close> by auto
      next
        case inside: False
        let ?r = "take (unat wlen) (drop (c + 10) p)"
        show ?thesis
        proof (cases "t = want \<and> l = wlen")
          case True
          obtain out' where "dns_answers p e want wlen a (c + 10 + unat l) (out @ [?r]) =
              Some ((out @ [?r]) @ out')" "length out' \<le> a" "\<forall>r \<in> set out'. length r = unat wlen"
            using Suc.IH [OF Suc.prems] by blast
          then show ?thesis
            using c t False inside \<open>cur < e\<close> True Suc.prems
            by (intro exI [of _ "?r # out'"]) (auto simp: memrd_in)
        next
          case other: False
          obtain out' where "dns_answers p e want wlen a (c + 10 + unat l) out =
              Some (out @ out')" "length out' \<le> a" "\<forall>r \<in> set out'. length r = unat wlen"
            using Suc.IH [OF Suc.prems] by blast
          then show ?thesis
            using c t False inside \<open>cur < e\<close> other by (intro exI [of _ out']) auto
        qed
      qed
    qed (use c True in auto)
  qed simp
qed simp

lemma DnsPayloadPtr_defined:
  assumes "e = length p"
  shows "\<exists>r. DnsPayloadPtr p udp e = Some r \<and>
             (\<forall>d. r = Some d \<longrightarrow> d = udp + 8 \<and> d + 12 \<le> e)"
proof (cases "e < udp + 8")
  case False
  then obtain a b where "ReadU16Be p udp = Some a" "ReadU16Be p (udp + 2) = Some b"
    using assms ReadU16Be_defined [of udp p] ReadU16Be_defined [of "udp + 2" p] by auto
  then show ?thesis using False
    by (auto simp: DnsPayloadPtr_def kUdpHdr_def kDnsHdr_def Let_def)
qed (simp add: DnsPayloadPtr_def kUdpHdr_def)

lemma DnsPtr_defined:
  "\<exists>r. DnsPtr pkt = Some r \<and> (\<forall>d. r = Some d \<longrightarrow> d + 12 \<le> length (pkt_data pkt))"
proof -
  let ?p = "pkt_data pkt"
  obtain r where r: "DnsPayloadPtr ?p (ihl4 ?p) (length ?p) = Some r"
    "\<forall>d. r = Some d \<longrightarrow> d + 12 \<le> length ?p"
    using DnsPayloadPtr_defined [of "length ?p" ?p "ihl4 ?p"] by auto
  obtain s where s: "DnsPayloadPtr ?p kMinIPv6 (length ?p) = Some s"
    "\<forall>d. s = Some d \<longrightarrow> d + 12 \<le> length ?p"
    using DnsPayloadPtr_defined [of "length ?p" ?p kMinIPv6] by auto
  show ?thesis
    using r s by (auto simp: DnsPtr_def Let_def Ipv4Ihl_eq IsIPv4_iff)
qed

lemma DnsAnswerStart_defined:
  assumes "e = length p"
  shows "\<exists>r. DnsAnswerStart p dns e = Some r \<and> (\<forall>c n. r = Some (c, n) \<longrightarrow> c < e \<and> n \<le> 65535)"
proof (cases "e < dns + 12")
  case False
  then obtain a b where ab: "ReadU16Be p (dns + 4) = Some a" "ReadU16Be p (dns + 6) = Some b"
    using assms ReadU16Be_defined [of "dns + 4" p] ReadU16Be_defined [of "dns + 6" p] by auto
  obtain c where c: "dns_skip_questions p e (unat a) (dns + 12) = Some c"
    using dns_skip_questions_defined [of e p] assms by blast
  have "unat b \<le> 65535" using unat_u16_less [of b] by linarith
  then show ?thesis using False ab c assms
    by (auto simp: DnsAnswerStart_def kDnsHdr_def rd_in Let_def)
qed (simp add: DnsAnswerStart_def kDnsHdr_def)

lemma GetDnsDomain_defined: "\<exists>r. GetDnsDomain pkt = Some r"
proof -
  let ?p = "pkt_data pkt"
  obtain r where r: "DnsPtr pkt = Some r" "\<forall>d. r = Some d \<longrightarrow> d + 12 \<le> length ?p"
    using DnsPtr_defined by blast
  show ?thesis
  proof (cases r)
    case (Some d)
    then obtain q where q: "ReadU16Be ?p (d + 4) = Some q"
      using r ReadU16Be_defined [of "d + 4" ?p] by auto
    obtain x where "ParseDnsName ?p d (length ?p) (d + kDnsHdr) = Some x"
      using dns_name_loop_defined [OF order_refl] unfolding ParseDnsName_def by blast
    then show ?thesis using r Some q by (cases x) (auto simp: GetDnsDomain_def Let_def)
  qed (use r in \<open>simp add: GetDnsDomain_def\<close>)
qed

lemma GetDnsAddresses_defined:
  "\<exists>r. GetDnsIPv4Addresses lib pkt = Some r \<and> length r \<le> 65535"
  "\<exists>r. GetDnsIPv6Addresses lib pkt = Some r \<and> length r \<le> 65535"
proof -
  let ?p = "pkt_data pkt"
  obtain r where r: "DnsPtr pkt = Some r" using DnsPtr_defined by blast
  have "(\<exists>r. GetDnsIPv4Addresses lib pkt = Some r \<and> length r \<le> 65535) \<and>
        (\<exists>r. GetDnsIPv6Addresses lib pkt = Some r \<and> length r \<le> 65535)"
  proof (cases r)
    case (Some d)
    obtain s where s: "DnsAnswerStart ?p d (length ?p) = Some s"
      "\<forall>c n. s = Some (c, n) \<longrightarrow> c < length ?p \<and> n \<le> 65535"
      using DnsAnswerStart_defined by blast
    show ?thesis
    proof (cases s)
      case (Some cn)
      obtain c n where cn: "cn = (c, n)" by (cases cn)
      have n: "n \<le> 65535" using s Some cn by auto
      obtain o4 o6 where "dns_answers ?p (length ?p) 1 4 n c [] = Some o4" "length o4 \<le> n"
          "dns_answers ?p (length ?p) 28 16 n c [] = Some o6" "length o6 \<le> n"
        using dns_answers_defined [of "length ?p" ?p 1 4 n c "[]"]
          dns_answers_defined [of "length ?p" ?p 28 16 n c "[]"] by auto
      then show ?thesis using r \<open>r = Some d\<close> s(1) Some cn n
        by (simp add: GetDnsIPv4Addresses_def GetDnsIPv6Addresses_def Let_def)
    qed (use r Some s in \<open>simp add: GetDnsIPv4Addresses_def GetDnsIPv6Addresses_def Let_def\<close>)
  qed (use r in \<open>simp add: GetDnsIPv4Addresses_def GetDnsIPv6Addresses_def Let_def\<close>)
  then show "\<exists>r. GetDnsIPv4Addresses lib pkt = Some r \<and> length r \<le> 65535"
    "\<exists>r. GetDnsIPv6Addresses lib pkt = Some r \<and> length r \<le> 65535" by blast+
qed

lemma question_name_defined:
  "e \<le> length p \<Longrightarrow> \<exists>r. question_name p e cur name = Some r"
proof (induction p e cur name rule: question_name.induct)
  case (1 p e cur name)
  then show ?case
    by (subst question_name.simps) (auto simp: rd_in memrd_in)
qed

lemma questions_defined:
  "e \<le> length p \<Longrightarrow> \<exists>r. questions p e q cur domains = Some (domains @ r) \<and> length r \<le> q \<and> [] \<notin> set r"
proof (induction q arbitrary: cur domains)
  case (Suc q)
  show ?case
  proof (cases "cur < e")
    case True
    obtain r where r: "question_name p e cur [] = Some r"
      using question_name_defined [OF Suc.prems] by blast
    show ?thesis
    proof (cases r)
      case (Some nc)
      obtain name c where nc: "nc = (name, c)" by (cases nc)
      show ?thesis
      proof (cases "e < c + 4 \<or> name = []")
        case True
        then show ?thesis
          using r Some nc \<open>cur < e\<close> Suc.IH [OF Suc.prems, of "c + 4" domains]
          by (auto simp: le_SucI)
      next
        case False
        obtain r' where r': "questions p e q (c + 4) (domains @ [name]) = Some ((domains @ [name]) @ r')"
          "length r' \<le> q" "[] \<notin> set r'"
          using Suc.IH [OF Suc.prems] by blast
        then show ?thesis using r Some nc \<open>cur < e\<close> False
          by (intro exI [of _ "name # r'"]) auto
      qed
    qed (use r True in auto)
  qed simp
qed simp

lemma DnsGetQueriedDomains_defined:
  assumes "p \<noteq> []" "total_len \<le> int (length p)"
  shows "\<exists>ds. DnsGetQueriedDomainsIPv4 p total_len = Some ds \<and> length ds \<le> 65535 \<and> [] \<notin> set ds"
proof -
  have i: "ihl_of p = Some (ihl4 p)" by (rule ihl_of_in [OF assms(1)])
  show ?thesis
  proof (cases "total_len < int (ihl4 p) + 8")
    case False
    then obtain u where u: "ReadU16Be p (ihl4 p + 4) = Some u"
      using assms ReadU16Be_defined [of "ihl4 p + 4" p] by auto
    define n where "n = min (int (unat u)) (total_len - int (ihl4 p)) - 8"
    show ?thesis
    proof (cases "n < 12")
      case True
      then show ?thesis using i u False by (simp add: DnsGetQueriedDomainsIPv4_def n_def Let_def)
    next
      case ge: False
      have e: "ihl4 p + 8 + nat n \<le> length p" "ihl4 p + 20 \<le> length p"
        using ge False assms(2) unfolding n_def by linarith+
      obtain q where q: "ReadU16Be p (ihl4 p + 8 + 4) = Some q"
        using e(2) ReadU16Be_defined [of "ihl4 p + 8 + 4" p] by auto
      obtain r where "questions p (ihl4 p + 8 + nat n) (unat q) (ihl4 p + 8 + 12) [] = Some r"
        "length r \<le> unat q" "[] \<notin> set r"
        using questions_defined [OF e(1), of "unat q" "ihl4 p + 8 + 12" "[]"] by auto
      moreover have "unat q \<le> 65535" using unat_u16_less [of q] by linarith
      moreover have "DnsGetQueriedDomainsIPv4 p total_len = (if q = 0 then Some []
          else questions p (ihl4 p + 8 + nat n) (unat q) (ihl4 p + 8 + 12) [])"
        unfolding DnsGetQueriedDomainsIPv4_def Let_def
        by (simp only: i u False ge q Option.bind.bind_lunit n_def [symmetric] if_False)
      ultimately show ?thesis by auto
    qed
  qed (use i in \<open>simp add: DnsGetQueriedDomainsIPv4_def\<close>)
qed

section \<open>Reading back an encoded name\<close>

definition label_ok :: "byte list \<Rightarrow> bool" where
  "label_ok l \<longleftrightarrow> 0 < length l \<and> length l < 64"

definition encode_label :: "byte list \<Rightarrow> byte list" where
  "encode_label l = word_of_nat (length l) # l"

definition encode_name :: "byte list list \<Rightarrow> byte list" where
  "encode_name ls = concat (map encode_label ls) @ [0]"

lemma length_encode_label [simp]: "length (encode_label l) = Suc (length l)"
  by (simp add: encode_label_def)

text \<open>A name whose tail is a compression pointer to offset \<open>off\<close> of the message.\<close>

definition encode_pointer :: "byte list list \<Rightarrow> nat \<Rightarrow> byte list" where
  "encode_pointer ls off =
     concat (map encode_label ls) @ [word_of_nat (192 + off div 256), word_of_nat (off mod 256)]"

fun dotted :: "byte list list \<Rightarrow> string" where
  "dotted [] = []"
| "dotted [l] = byte_chars l"
| "dotted (l # ls) = byte_chars l @ ''.'' @ dotted ls"

definition add_label :: "string \<Rightarrow> byte list \<Rightarrow> string" where
  "add_label name l = (if name \<noteq> [] then name @ ''.'' else name) @ byte_chars l"

lemma byte_chars_Nil [simp]: "byte_chars l = [] \<longleftrightarrow> l = []"
  by (simp add: byte_chars_def)

lemma foldl_add_label:
  assumes "\<forall>l \<in> set ls. label_ok l"
  shows "foldl add_label name ls =
         (if ls = [] then name else if name = [] then dotted ls else name @ ''.'' @ dotted ls)"
  using assms
proof (induction ls arbitrary: name)
  case (Cons l ls)
  then have "l \<noteq> []" "\<forall>l \<in> set ls. label_ok l" by (auto simp: label_ok_def)
  then show ?case
    using Cons.IH [of "add_label name l"] by (cases ls) (auto simp: add_label_def)
qed simp

lemma dotted_nonempty: "ls \<noteq> [] \<Longrightarrow> \<forall>l \<in> set ls. label_ok l \<Longrightarrow> dotted ls \<noteq> []"
  by (cases ls rule: dotted.cases) (auto simp: label_ok_def)

lemma len_byte:
  assumes "label_ok l"
  shows "unat (word_of_nat (length l) :: byte) = length l" "(word_of_nat (length l) :: byte) \<noteq> 0"
    "(word_of_nat (length l) :: byte) AND 0xC0 \<noteq> 0xC0"
proof -
  have n: "length l < 64" "0 < length l" using assms by (auto simp: label_ok_def)
  show u: "unat (word_of_nat (length l) :: byte) = length l"
    using n by (simp add: unat_of_nat)
  then show "(word_of_nat (length l) :: byte) \<noteq> 0" using n by auto
  have "(word_of_nat (length l) :: byte) AND 0xC0 = 0"
  proof (rule bit_word_eqI)
    fix k
    have "\<not> bit (length l) k" if "6 \<le> k"
    proof -
      have "length l < 2 ^ k"
        using n(1) power_increasing [OF that, of "2 :: nat"] by simp
      then show ?thesis by (simp add: bit_iff_odd)
    qed
    moreover have "\<not> bit (0xC0 :: byte) k" if "k < 6"
    proof -
      have "k = 0 \<or> k = 1 \<or> k = 2 \<or> k = 3 \<or> k = 4 \<or> k = 5" using that by linarith
      then show ?thesis by (elim disjE) simp_all
    qed
    ultimately show "bit ((word_of_nat (length l) :: byte) AND 0xC0) k = bit (0 :: byte) k"
      by (cases "k < 6") (auto simp: bit_and_iff bit_of_nat_iff)
  qed
  then show "(word_of_nat (length l) :: byte) AND 0xC0 \<noteq> 0xC0" by simp
qed

lemma at_label:
  assumes "drop i p = encode_label l @ y" "label_ok l"
  shows "rd p i = Some (word_of_nat (length l))" "memrd p (i + 1) (length l) = Some l"
    "drop (i + 1 + length l) p = y" "i + 1 + length l \<le> length p"
proof -
  have a: "drop i p = [word_of_nat (length l)] @ l @ y" using assms(1) by (simp add: encode_label_def)
  note h = drop_prefix [OF a]
  show "rd p i = Some (word_of_nat (length l))" using h(1) h(4) [of 0] by (simp add: rd_def)
  have "l \<noteq> []" using assms(2) by (auto simp: label_ok_def)
  note g = drop_prefix [OF h(2) this]
  show "memrd p (i + 1) (length l) = Some l" using g(1,3) by (simp add: memrd_def)
  show "drop (i + 1 + length l) p = y" "i + 1 + length l \<le> length p" using g by simp_all
qed

lemma dns_name_loop_labels:
  assumes "\<forall>l \<in> set ls. label_ok l" "drop ptr p = concat (map encode_label ls) @ y"
    and "ptr + length (concat (map encode_label ls)) < e" "e \<le> length p"
  shows "dns_name_loop p base e (length ls + i) jumped ptr cur name =
         dns_name_loop p base e i jumped (ptr + length (concat (map encode_label ls))) cur
           (foldl add_label name ls)"
  using assms
proof (induction ls arbitrary: ptr name)
  case (Cons l ls)
  have ok: "label_ok l" using Cons.prems by simp
  have d: "drop ptr p = encode_label l @ concat (map encode_label ls) @ y"
    using Cons.prems(2) by simp
  note h = at_label [OF d ok] and b = len_byte [OF ok]
  have "dns_name_loop p base e (length (l # ls) + i) jumped ptr cur name =
        dns_name_loop p base e (length ls + i) jumped (ptr + 1 + length l) cur (add_label name l)"
    using Cons.prems(3) h b by (simp add: add_label_def)
  also have "\<dots> = dns_name_loop p base e i jumped
      (ptr + 1 + length l + length (concat (map encode_label ls))) cur
      (foldl add_label (add_label name l) ls)"
    using Cons.prems h(3) by (intro Cons.IH) auto
  finally show ?case by (simp add: add.assoc)
qed simp

lemma dns_name_loop_name:
  assumes "\<forall>l \<in> set ls. label_ok l" "drop ptr p = encode_name ls @ y" "e = length p"
    and "length ls < i"
  shows "dns_name_loop p base e i jumped ptr cur name =
         Some (foldl add_label name ls, if jumped then cur else ptr + length (encode_name ls))"
proof -
  let ?n = "length (concat (map encode_label ls))"
  obtain k where i: "i = length ls + Suc k" using assms(4) less_imp_Suc_add by fastforce
  have d: "drop ptr p = concat (map encode_label ls) @ 0 # y"
    using assms(2) by (simp add: encode_name_def)
  have "encode_name ls \<noteq> []" by (simp add: encode_name_def)
  from drop_prefix(1) [OF assms(2) this] have l: "ptr + ?n < e"
    using assms(3) by (simp add: encode_name_def)
  have z: "rd p (ptr + ?n) = Some 0"
  proof (cases "ls = []")
    case True
    then show ?thesis using d l assms(3) drop_prefix(4) [of ptr p "[0]" y 0] by (simp add: rd_def)
  next
    case False
    then have "concat (map encode_label ls) \<noteq> []" by (auto simp: encode_label_def)
    from drop_prefix(2) [OF d this] have "drop (ptr + ?n) p = [0] @ y" by simp
    then show ?thesis using drop_prefix(4) [of "ptr + ?n" p "[0]" y 0] l assms(3) by (simp add: rd_def)
  qed
  show ?thesis
    using dns_name_loop_labels [OF assms(1) d l, of base "Suc k" jumped cur name] z l assms(3)
    unfolding i by (simp add: encode_name_def)
qed

text \<open>A compressed name: labels, then a pointer to a plain name earlier or later in the message.\<close>

lemma pointer_bytes:
  assumes "off < 16384"
  shows "(word_of_nat (192 + off div 256) :: byte) \<noteq> 0"
    and "(word_of_nat (192 + off div 256) :: byte) AND 0xC0 = 0xC0"
    and "unat ((word_of_nat (192 + off div 256) :: byte) AND 0x3F) * 256 +
         unat (word_of_nat (off mod 256) :: byte) = off"
proof -
  define h where "h = off div 256"
  have h: "h < 64" using assms by (simp add: h_def less_mult_imp_div_less)
  have all: "\<forall>k \<in> set [0..<64]. (word_of_nat (192 + k) :: byte) AND 0xC0 = 0xC0 \<and>
      unat ((word_of_nat (192 + k) :: byte) AND 0x3F) = k \<and> (word_of_nat (192 + k) :: byte) \<noteq> 0"
    by code_simp
  then have k: "(word_of_nat (192 + h) :: byte) AND 0xC0 = 0xC0"
      "unat ((word_of_nat (192 + h) :: byte) AND 0x3F) = h" "(word_of_nat (192 + h) :: byte) \<noteq> 0"
    using h by auto
  show "(word_of_nat (192 + off div 256) :: byte) \<noteq> 0"
    and "(word_of_nat (192 + off div 256) :: byte) AND 0xC0 = 0xC0"
    using k unfolding h_def by blast+
  have "unat (word_of_nat (off mod 256) :: byte) = off mod 256" by (simp add: unat_of_nat)
  then show "unat ((word_of_nat (192 + off div 256) :: byte) AND 0x3F) * 256 +
         unat (word_of_nat (off mod 256) :: byte) = off"
    using k(2) unfolding h_def by (simp del: unat_of_nat)
qed

lemma ParseDnsName_compressed:
  assumes ls: "\<forall>l \<in> set ls. label_ok l" "\<forall>l \<in> set ms. label_ok l"
    and d1: "drop cur p = encode_pointer ls off @ y" and d2: "drop (base + off) p = encode_name ms @ z"
    and "length ls + length ms < 126" "off < 16384"
  shows "ParseDnsName p base (length p) cur =
         Some (foldl add_label [] (ls @ ms), cur + length (encode_pointer ls off))"
proof -
  let ?n = "length (concat (map encode_label ls))" and ?e = "length p"
  let ?a = "word_of_nat (192 + off div 256) :: byte" and ?b = "word_of_nat (off mod 256) :: byte"
  obtain k where i: "128 = length ls + Suc (length ms + Suc k)"
    using that [of "126 - length ls - length ms"] assms(5) by simp
  have d: "drop cur p = concat (map encode_label ls) @ [?a, ?b] @ y"
    using d1 by (simp add: encode_pointer_def)
  have "encode_pointer ls off \<noteq> []" by (simp add: encode_pointer_def)
  from drop_prefix(1) [OF d1 this] have l: "cur + ?n + 2 \<le> ?e"
    by (simp add: encode_pointer_def)
  have dp: "drop (cur + ?n) p = [?a, ?b] @ y"
  proof (cases "ls = []")
    case False
    then have "concat (map encode_label ls) \<noteq> []" by (auto simp: encode_label_def)
    from drop_prefix(2) [OF d this] show ?thesis .
  qed (use d in simp)
  have r: "rd p (cur + ?n) = Some ?a" "rd p (cur + ?n + 1) = Some ?b"
    using drop_prefix(4) [OF dp, of 0] drop_prefix(4) [OF dp, of 1] l by (auto simp: rd_def)
  have "cur + ?n < ?e" using l by simp
  note L = dns_name_loop_labels [OF ls(1) d this order_refl,
      of base "Suc (length ms + Suc k)" False cur "[]"]
  have "dns_name_loop p base ?e (length ls + Suc (length ms + Suc k)) False cur cur [] =
        dns_name_loop p base ?e (length ms + Suc k) True (base + off) (cur + ?n + 2)
          (foldl add_label [] ls)"
    unfolding L using l r pointer_bytes [OF assms(6)]
    by (subst dns_name_loop.simps(2)) (simp del: dns_name_loop.simps)
  also have "\<dots> = Some (foldl add_label (foldl add_label [] ls) ms, cur + ?n + 2)"
    by (subst dns_name_loop_name [OF ls(2) d2 refl]) simp_all
  finally show ?thesis
    unfolding ParseDnsName_def i by (simp add: encode_pointer_def)
qed

lemma question_name_labels:
  assumes "\<forall>l \<in> set ls. label_ok l" "drop cur p = encode_name ls @ y"
    and "cur + length (encode_name ls) \<le> e" "e \<le> length p"
  shows "question_name p e cur name =
         Some (Some (foldl add_label name ls, cur + length (encode_name ls)))"
  using assms
proof (induction ls arbitrary: cur name)
  case Nil
  then have "drop cur p = [0] @ y" by (simp add: encode_name_def)
  then have "rd p cur = Some 0"
    using Nil.prems(3,4) drop_prefix(4) [of cur p "[0]" y 0] by (simp add: rd_def encode_name_def)
  then show ?case using Nil.prems(3) by (subst question_name.simps) (simp add: encode_name_def)
next
  case (Cons l ls)
  have ok: "label_ok l" using Cons.prems by simp
  have d: "drop cur p = encode_label l @ encode_name ls @ y"
    using Cons.prems(2) by (simp add: encode_name_def)
  note h = at_label [OF d ok] and b = len_byte [OF ok]
  have len: "length (encode_name (l # ls)) = 1 + length l + length (encode_name ls)"
    by (simp add: encode_name_def)
  have "question_name p e cur name = question_name p e (cur + 1 + length l) (add_label name l)"
    using Cons.prems(3) h b len by (subst question_name.simps) (simp add: add_label_def)
  also have "\<dots> = Some (Some (foldl add_label (add_label name l) ls,
      cur + 1 + length l + length (encode_name ls)))"
    using Cons.prems h(3) len by (intro Cons.IH) auto
  finally show ?case using len by (simp add: add.assoc)
qed

text \<open>A question section: every entry is a non-empty name followed by QTYPE and QCLASS.\<close>

definition encode_question :: "byte list list \<times> byte list \<Rightarrow> byte list" where
  "encode_question q = encode_name (fst q) @ snd q"

definition question_ok :: "byte list list \<times> byte list \<Rightarrow> bool" where
  "question_ok q \<longleftrightarrow> fst q \<noteq> [] \<and> (\<forall>l \<in> set (fst q). label_ok l) \<and> length (snd q) = 4"

lemma questions_encoded:
  assumes "\<forall>q \<in> set qs. question_ok q" "drop cur p = concat (map encode_question qs) @ y"
    and "cur + length (concat (map encode_question qs)) \<le> e" "e \<le> length p"
  shows "questions p e (length qs) cur domains = Some (domains @ map (\<lambda>q. dotted (fst q)) qs)"
  using assms
proof (induction qs arbitrary: cur domains)
  case (Cons q qs)
  have ok: "fst q \<noteq> []" "\<forall>l \<in> set (fst q). label_ok l" "length (snd q) = 4"
    using Cons.prems(1) by (auto simp: question_ok_def)
  let ?n = "length (encode_name (fst q))"
  have d: "drop cur p = encode_name (fst q) @ snd q @ concat (map encode_question qs) @ y"
    using Cons.prems(2) encode_question_def [of q] by simp
  have ne: "encode_name (fst q) \<noteq> []" "snd q \<noteq> []" using ok(3) by (auto simp: encode_name_def)
  have len: "cur + ?n + 4 + length (concat (map encode_question qs)) \<le> e"
    using Cons.prems(3) ok(3) encode_question_def [of q] by simp
  have r: "question_name p e cur [] = Some (Some (dotted (fst q), cur + ?n))"
    using question_name_labels [OF ok(2) d, of e "[]"] len Cons.prems(4) foldl_add_label [OF ok(2), of "[]"]
      ok(1) by simp
  have "drop (cur + ?n + 4) p = concat (map encode_question qs) @ y"
    using drop_prefix(2) [OF drop_prefix(2) [OF d ne(1)] ne(2)] ok(3) by simp
  note IH = Cons.IH [OF _ this, of "domains @ [dotted (fst q)]"]
  have "questions p e (length (q # qs)) cur domains =
        questions p e (length qs) (cur + ?n + 4) (domains @ [dotted (fst q)])"
    using r len dotted_nonempty [OF ok(1,2)] by simp
  also have "\<dots> = Some (domains @ map (\<lambda>q. dotted (fst q)) (q # qs))"
    using IH Cons.prems(1,4) len by simp
  finally show ?case .
qed simp

section \<open>Properties\<close>

definition dns_labels :: "byte list list" where
  "dns_labels = [[0x77, 0x77], [0x61]]"

definition dns_packet :: "byte list" where
  "dns_packet = [0x45, 0, 0, 50, 0, 0, 0, 0, 64, 17, 9, 9, 10, 0, 0, 1, 10, 0, 0, 2,
                 0xC0, 0, 0, 53, 0, 30, 0, 0,
                 0, 1, 1, 0, 0, 1, 0, 0, 0, 0, 0, 0] @ encode_name dns_labels @ [0, 1, 0, 1]"

definition dns_pkt :: ip_packet where
  "dns_pkt = \<lparr>pkt_data = dns_packet, pkt_client = 7\<rparr>"

lemma dns_packet_facts:
  "DnsPtr dns_pkt = Some (Some 28)" "ReadU16Be (pkt_data dns_pkt) 32 = Some 1"
  "drop 40 (pkt_data dns_pkt) = encode_name dns_labels @ [0, 1, 0, 1]"
  "\<forall>l \<in> set dns_labels. label_ok l" "dns_labels \<noteq> []" "length dns_labels \<le> 127"
  "dotted dns_labels = ''ww.a''"
  by code_simp+


text \<open>Reading back a query: when the question of a DNS packet encodes the labels \<open>ls\<close> (at most
  127 labels of 1 to 63 bytes), \<open>GetDnsDomain\<close> returns exactly those labels joined by dots.\<close>

theorem GetDnsDomain_roundtrip:
  assumes "DnsPtr pkt = Some (Some d)" and "ReadU16Be (pkt_data pkt) (d + 4) = Some n" and "n \<noteq> 0"
    and "drop (d + 12) (pkt_data pkt) = encode_name ls @ y"
    and "\<forall>l \<in> set ls. label_ok l" and "ls \<noteq> []" and "length ls \<le> 127"
  shows "GetDnsDomain pkt = Some (Some (dotted ls))"
proof -
  have "ParseDnsName (pkt_data pkt) d (length (pkt_data pkt)) (d + kDnsHdr) =
        Some (dotted ls, d + 12 + length (encode_name ls))"
    unfolding ParseDnsName_def kDnsHdr_def
    using dns_name_loop_name [OF assms(5,4) refl, of 128] assms(6,7) foldl_add_label [OF assms(5), of "[]"]
    by (simp del: dns_name_loop.simps)
  then show ?thesis
    using assms(1-3) dotted_nonempty [OF assms(6,5)] by (simp add: GetDnsDomain_def)
qed

theorem GetDnsDomain_roundtrip_witness:
  "GetDnsDomain dns_pkt = Some (Some ''ww.a'')"
  using GetDnsDomain_roundtrip [of dns_pkt 28 1 dns_labels "[0, 1, 0, 1]"]
  by (simp add: dns_packet_facts)

text \<open>Following a compression pointer: a name whose tail is a pointer to another name of the
  message parses to the two label sequences joined by dots, and the cursor ends just after the
  two pointer bytes, not after the target.\<close>

theorem ParseDnsName_pointer:
  assumes "\<forall>l \<in> set ls. label_ok l" and "\<forall>l \<in> set ms. label_ok l"
    and "drop cur p = encode_pointer ls off @ y" and "drop (base + off) p = encode_name ms @ z"
    and "length ls + length ms < 126" and "off < 16384"
  shows "ParseDnsName p base (length p) cur =
         Some (dotted (ls @ ms), cur + length (concat (map encode_label ls)) + 2)"
proof -
  have "\<forall>l \<in> set (ls @ ms). label_ok l" using assms(1,2) by auto
  then have "foldl add_label [] (ls @ ms) = dotted (ls @ ms)"
    using foldl_add_label [of "ls @ ms" "[]"] by auto
  then show ?thesis
    using ParseDnsName_compressed [OF assms] by (simp add: encode_pointer_def)
qed

definition pointer_message :: "byte list" where
  "pointer_message = [1, 0x61, 0] @ encode_pointer [[0x77, 0x77]] 0"

theorem ParseDnsName_pointer_witness:
  "ParseDnsName pointer_message 0 8 3 = Some (''ww.a'', 8)"
proof -
  have "dotted ([[0x77, 0x77]] @ [[0x61]]) = ''ww.a''" "label_ok [0x77, 0x77]" "label_ok [0x61]"
    "length pointer_message = 8" "drop 3 pointer_message = encode_pointer [[0x77, 0x77]] 0"
    "drop 0 pointer_message = encode_name [[0x61]] @ encode_pointer [[0x77, 0x77]] 0"
    "length (concat (map encode_label [[0x77, 0x77]])) = 3"
    by code_simp+
  then show ?thesis
    using ParseDnsName_pointer [of "[[0x77, 0x77]]" "[[0x61]]" 3 pointer_message 0 "[]" 0
        "encode_pointer [[0x77, 0x77]] 0"]
    by simp
qed

text \<open>Reading back a question section: \<open>DnsGetQueriedDomainsIPv4\<close> returns the names of all
  the questions, in order, when the section encodes them and the counts and lengths of the
  packet are consistent.\<close>

theorem DnsGetQueriedDomains_roundtrip:
  assumes "p \<noteq> []" and "\<forall>q \<in> set qs. question_ok q" and "0 < length qs"
    and "drop (ihl4 p + 20) p = concat (map encode_question qs)"
    and "ReadU16Be p (ihl4 p + 4) = Some udp_len" and "unat udp_len = length p - ihl4 p"
    and "ReadU16Be p (ihl4 p + 12) = Some n" and "unat n = length qs"
  shows "DnsGetQueriedDomainsIPv4 p (int (length p)) = Some (map (\<lambda>q. dotted (fst q)) qs)"
proof -
  have i: "ihl_of p = Some (ihl4 p)" by (rule ihl_of_in [OF assms(1)])
  have ne: "concat (map encode_question qs) \<noteq> []"
    using assms(2,3) by (cases qs) (auto simp: question_ok_def encode_question_def)
  then have l: "ihl4 p + 20 < length p" using assms(4) by (metis drop_all linorder_not_le)
  have e: "length p = ihl4 p + 20 + length (concat (map encode_question qs))"
    using assms(4) l by (metis add_diff_inverse_nat length_drop less_imp_not_less)
  have m: "min (int (unat udp_len)) (int (length p) - int (ihl4 p)) = int (length p) - int (ihl4 p)"
    using assms(6) l by simp
  have nat: "ihl4 p + 8 + nat (int (length p) - int (ihl4 p) - 8) = length p"
    using l by (simp add: nat_diff_distrib)
  have "n \<noteq> 0" using assms(3,8) by auto
  have o12: "ihl4 p + 8 + 4 = ihl4 p + 12" "ihl4 p + 8 + 12 = ihl4 p + 20" by simp_all
  have "questions p (length p) (length qs) (ihl4 p + 20) [] =
        Some ([] @ map (\<lambda>q. dotted (fst q)) qs)"
    using assms(2,4) e by (intro questions_encoded [where y = "[]"]) simp_all
  then show ?thesis
    using l \<open>n \<noteq> 0\<close>
    unfolding DnsGetQueriedDomainsIPv4_def Let_def i assms(5) Option.bind.bind_lunit m nat o12
      assms(7,8) by simp
qed

theorem DnsGetQueriedDomains_roundtrip_witness:
  "DnsGetQueriedDomainsIPv4 dns_packet 50 = Some [''ww.a'']"
proof -
  have "dns_packet \<noteq> []" "ihl4 dns_packet = 20" "length dns_packet = 50" "question_ok (dns_labels, [0, 1, 0, 1])"
    "drop 40 dns_packet = encode_question (dns_labels, [0, 1, 0, 1])"
    "ReadU16Be dns_packet 24 = Some 30" "ReadU16Be dns_packet 32 = Some 1"
    "dotted dns_labels = ''ww.a''"
    by code_simp+
  then show ?thesis
    using DnsGetQueriedDomains_roundtrip [of dns_packet "[(dns_labels, [0, 1, 0, 1])]" 30 1]
    by simp
qed

end
