(* ===== verification/TlsParse.thy ===== *)
theory TlsParse
  imports Checksum IpAddress
begin

text \<open>
  TLS record inspection: \<open>IsTlsClientHello\<close>, \<open>GetTlsSNI\<close> and \<open>GetTlsSessionId\<close> of
  \<open>src/common/network/ip_utils.h\<close>, the completeness tests of \<open>src/common/network/utils.h\<close> and its
  four read loops, which wait for a handshake message on a socket. A socket is the list of
  observations the loop makes of it.
\<close>

section \<open>Definitions: records and extensions\<close>

definition IsTlsClientHello :: "byte list \<Rightarrow> nat \<Rightarrow> bool option" where
  "IsTlsClientHello data len =
     (if len < 6 then Some False
      else do {
        t \<leftarrow> rd data 0;
        if t \<noteq> 0x16 then Some False
        else do {
          ver \<leftarrow> ReadU16Be data 1;
          if ver < 0x0301 \<or> 0x0304 < ver then Some False
          else do {
            m \<leftarrow> rd data 5;
            Some (m = 0x01)
          }
        }
      })"

text \<open>The extension loop of \<open>GetTlsSNI\<close>.\<close>

function sni_extensions :: "byte list \<Rightarrow> nat \<Rightarrow> nat \<Rightarrow> string option option" where
  "sni_extensions data p ext_end =
     (if p + 4 \<le> ext_end then do {
        type \<leftarrow> ReadU16Be data p;
        elen \<leftarrow> ReadU16Be data (p + 2);
        if ext_end < p + 4 + unat elen then Some None
        else if type = 0x0000 \<and> 5 \<le> unat elen then do {
          name_len \<leftarrow> ReadU16Be data (p + 4 + 3);
          if ext_end < p + 4 + 5 + unat name_len then Some None
          else do {
            name \<leftarrow> memrd data (p + 4 + 5) (unat name_len);
            Some (Some (byte_chars name))
          }
        }
        else sni_extensions data (p + 4 + unat elen) ext_end
      }
      else Some None)"
  by auto
termination by (relation "measure (\<lambda>(data, p, ext_end). ext_end - p)") auto

declare sni_extensions.simps [simp del]

definition GetTlsSNI :: "byte list \<Rightarrow> nat \<Rightarrow> string option option" where
  "GetTlsSNI data len = (let p = 43; e = len in
     if e < p + 1 then Some None
     else do {
       sid_len \<leftarrow> rd data p;
       let p = p + (1 + unat sid_len);
       if e < p + 2 then Some None
       else do {
         suites \<leftarrow> ReadU16Be data p;
         let p = p + (2 + unat suites);
         if e < p + 1 then Some None
         else do {
           cmp \<leftarrow> rd data p;
           let p = p + (1 + unat cmp);
           if e < p + 2 then Some None
           else do {
             ext_len \<leftarrow> ReadU16Be data p;
             let ext_end = p + 2 + unat ext_len;
             if e < ext_end then Some None
             else sni_extensions data (p + 2) ext_end
           }
         }
       }
     })"

definition GetTlsSessionId :: "byte list \<Rightarrow> nat \<Rightarrow> byte list option" where
  "GetTlsSessionId data len = (let p = 43; e = len in
     if e < p + 1 then Some []
     else do {
       sid_len \<leftarrow> rd data p;
       if e < p + 1 + unat sid_len then Some []
       else memrd data (p + 1) (unat sid_len)
     })"

function tls13_extensions :: "byte list \<Rightarrow> nat \<Rightarrow> nat \<Rightarrow> bool option" where
  "tls13_extensions data p ext_end =
     (if p + 4 \<le> ext_end then do {
        ext_type \<leftarrow> ReadU16Be data p;
        ext_len \<leftarrow> ReadU16Be data (p + 2);
        if ext_end < p + 4 + unat ext_len then Some False
        else do {
          found \<leftarrow> (if ext_type = 0x002b \<and> 2 \<le> unat ext_len then do {
                      ver \<leftarrow> ReadU16Be data (p + 4);
                      Some (ver = 0x0304)
                    }
                    else Some False);
          if found then Some True else tls13_extensions data (p + 4 + unat ext_len) ext_end
        }
      }
      else Some False)"
  by auto
termination by (relation "measure (\<lambda>(data, p, ext_end). ext_end - p)") auto

declare tls13_extensions.simps [simp del]

definition IsTls13ServerHello :: "byte list \<Rightarrow> nat \<Rightarrow> nat \<Rightarrow> bool option" where
  "IsTls13ServerHello data body_start body_len = (let body_end = body_start + body_len in
     if length data < body_end \<or> body_len < 36 then Some False
     else let p = body_start + 2 + 32 in
       if body_end \<le> p then Some False
       else do {
         sid_len \<leftarrow> rd data p;
         let p = p + 1;
         if body_end < p + unat sid_len + 5 then Some False
         else do {
           let p = p + unat sid_len + 2 + 1;
           ext_total \<leftarrow> ReadU16Be data p;
           let p = p + 2;
           let ext_end = min (p + unat ext_total) body_end;
           tls13_extensions data p ext_end
         }
       })"

text \<open>The 24-bit length of a handshake message.\<close>

definition read_u24 :: "byte list \<Rightarrow> nat \<Rightarrow> nat option" where
  "read_u24 data p = do {
     a \<leftarrow> rd data p;
     b \<leftarrow> rd data (p + 1);
     c \<leftarrow> rd data (p + 2);
     Some (unat a * 65536 + unat b * 256 + unat c)
   }"

text \<open>The loop over the messages of a handshake record: \<open>Some b\<close> is an early return of \<open>b\<close>,
  \<open>None\<close> the end of the record.\<close>

function client_hello_msgs :: "byte list \<Rightarrow> nat \<Rightarrow> nat \<Rightarrow> bool option option" where
  "client_hello_msgs data hpos hend =
     (if hpos + 4 \<le> hend then do {
        msg_type \<leftarrow> rd data hpos;
        msg_length \<leftarrow> read_u24 data (hpos + 1);
        if hend < hpos + 4 + msg_length then Some (Some False)
        else if msg_type = 1 then Some (Some True)
        else client_hello_msgs data (hpos + 4 + msg_length) hend
      }
      else Some None)"
  by auto
termination by (relation "measure (\<lambda>(data, hpos, hend). hend - hpos)") auto

declare client_hello_msgs.simps [simp del]

function client_hello_records :: "byte list \<Rightarrow> nat \<Rightarrow> bool option" where
  "client_hello_records data pos =
     (if pos + 5 \<le> length data then do {
        content_type \<leftarrow> rd data pos;
        record_length \<leftarrow> ReadU16Be data (pos + 3);
        if length data < pos + 5 + unat record_length then Some False
        else do {
          r \<leftarrow> (if content_type = 22
                then client_hello_msgs data (pos + 5) (pos + 5 + unat record_length)
                else Some None);
          case r of
            Some b \<Rightarrow> Some b
          | None \<Rightarrow> client_hello_records data (pos + (5 + unat record_length))
        }
      }
      else Some False)"
  by auto
termination by (relation "measure (\<lambda>(data, pos). length data - pos)") auto

declare client_hello_records.simps [simp del]

definition IsClientHelloComplete :: "byte list \<Rightarrow> bool option" where
  "IsClientHelloComplete data =
     (if length data < 5 then Some False else client_hello_records data 0)"

record hello_scan =
  found_server_hello :: bool
  is_tls13 :: bool
  handshake_done :: bool

function server_hello_msgs ::
    "byte list \<Rightarrow> nat \<Rightarrow> nat \<Rightarrow> hello_scan \<Rightarrow> hello_scan option option" where
  "server_hello_msgs data hpos hend st =
     (if hpos + 4 \<le> hend then do {
        msg_type \<leftarrow> rd data hpos;
        msg_len \<leftarrow> read_u24 data (hpos + 1);
        if hend < hpos + 4 + msg_len then Some None
        else do {
          st \<leftarrow> (if msg_type = 2 then do {
                   v \<leftarrow> IsTls13ServerHello data (hpos + 4) msg_len;
                   Some (st\<lparr>found_server_hello := True, is_tls13 := v\<rparr>)
                 }
                 else Some st);
          let st = (if found_server_hello st \<and> \<not> is_tls13 st \<and> msg_type = 14
                    then st\<lparr>handshake_done := True\<rparr> else st);
          server_hello_msgs data (hpos + (4 + msg_len)) hend st
        }
      }
      else Some (Some st))"
  by auto
termination by (relation "measure (\<lambda>(data, hpos, hend, st). hend - hpos)") auto

declare server_hello_msgs.simps [simp del]

function server_hello_records :: "byte list \<Rightarrow> nat \<Rightarrow> hello_scan \<Rightarrow> bool option" where
  "server_hello_records data pos st =
     (if pos + 5 \<le> length data then do {
        content_type \<leftarrow> rd data pos;
        record_len \<leftarrow> ReadU16Be data (pos + 3);
        if length data < pos + 5 + unat record_len then Some False
        else do {
          r \<leftarrow> (if content_type = 22
                then server_hello_msgs data (pos + 5) (pos + 5 + unat record_len) st
                else Some (Some st));
          case r of
            None \<Rightarrow> Some False
          | Some st \<Rightarrow>
              let st = (if found_server_hello st \<and> is_tls13 st \<and> content_type = 23 \<and>
                           length data \<le> pos + 5 + unat record_len
                        then st\<lparr>handshake_done := True\<rparr> else st) in
              server_hello_records data (pos + (5 + unat record_len)) st
        }
      }
      else Some (found_server_hello st \<and> handshake_done st))"
  by auto
termination by (relation "measure (\<lambda>(data, pos, st). length data - pos)") auto

declare server_hello_records.simps [simp del]

definition IsServerHelloComplete :: "byte list \<Rightarrow> bool option" where
  "IsServerHelloComplete data =
     (if length data < 5 then Some False
      else server_hello_records data 0
             \<lparr>found_server_hello = False, is_tls13 = False, handshake_done = False\<rparr>)"

section \<open>Definitions: the read loops\<close>

text \<open>One turn of a read loop: the clock at the loop test and after the socket call (in
  milliseconds) and what the socket gave: nothing available, some bytes and an error code, or an
  exception.\<close>

datatype io_error = NoError | Eof | OtherError
datatype io_event = Idle | Received "byte list" io_error | Raised

record turn =
  turn_now :: int
  turn_after :: int
  turn_io :: io_event

text \<open>The state of a loop is what it has read, whether the hello was seen complete and the time of
  the last data. The result is \<open>Pending\<close> when the observations end inside the loop.\<close>

datatype wait_result = Pending | Returned "byte list option"

definition hello_complete :: "(byte list \<Rightarrow> bool option) \<Rightarrow> byte list \<Rightarrow> bool" where
  "hello_complete f data \<longleftrightarrow> f data = Some True"

fun WaitForServerTlsHello ::
    "int \<Rightarrow> byte list \<Rightarrow> bool \<Rightarrow> int \<Rightarrow> turn list \<Rightarrow> wait_result" where
  "WaitForServerTlsHello deadline data complete last_t [] = Pending"
| "WaitForServerTlsHello deadline data complete last_t (t # ts) =
     (if \<not> turn_now t < deadline then Returned None
      else case turn_io t of
        Raised \<Rightarrow> Returned None
      | Idle \<Rightarrow>
          if complete \<and> turn_after t - last_t \<ge> 150 then Returned (Some data)
          else WaitForServerTlsHello deadline data complete last_t ts
      | Received bytes ec \<Rightarrow>
          let data' = data @ bytes;
              last_t' = (if bytes \<noteq> [] then turn_after t else last_t);
              complete' = (complete \<or> bytes \<noteq> [] \<and> hello_complete IsServerHelloComplete data') in
          (case ec of
             NoError \<Rightarrow> WaitForServerTlsHello deadline data' complete' last_t' ts
           | _ \<Rightarrow> Returned None))"

fun WaitForServerTlsHelloAsync ::
    "int \<Rightarrow> byte list \<Rightarrow> bool \<Rightarrow> int \<Rightarrow> turn list \<Rightarrow> wait_result" where
  "WaitForServerTlsHelloAsync deadline data complete last_t [] = Pending"
| "WaitForServerTlsHelloAsync deadline data complete last_t (t # ts) =
     (if \<not> turn_now t < deadline then Returned None
      else case turn_io t of
        Raised \<Rightarrow> Returned None
      | Idle \<Rightarrow>
          if complete \<and> turn_after t - last_t \<ge> 150 then Returned (Some data)
          else WaitForServerTlsHelloAsync deadline data complete last_t ts
      | Received bytes ec \<Rightarrow>
          let data' = data @ bytes;
              last_t' = (if bytes \<noteq> [] then turn_after t else last_t);
              complete' = (complete \<or> bytes \<noteq> [] \<and> hello_complete IsServerHelloComplete data') in
          (case ec of
             NoError \<Rightarrow> WaitForServerTlsHelloAsync deadline data' complete' last_t' ts
           | Eof \<Rightarrow> Returned (if data' \<noteq> [] then Some data' else None)
           | OtherError \<Rightarrow> Returned None))"

fun WaitForClientTlsHelloAsync :: "int \<Rightarrow> byte list \<Rightarrow> turn list \<Rightarrow> wait_result" where
  "WaitForClientTlsHelloAsync deadline data [] = Pending"
| "WaitForClientTlsHelloAsync deadline data (t # ts) =
     (if \<not> turn_now t < deadline then Returned None
      else case turn_io t of
        Raised \<Rightarrow> Returned None
      | Idle \<Rightarrow> WaitForClientTlsHelloAsync deadline data ts
      | Received bytes ec \<Rightarrow>
          let data' = data @ bytes in
          if bytes \<noteq> [] \<and> hello_complete IsClientHelloComplete data' then Returned (Some data')
          else (case ec of
             NoError \<Rightarrow> WaitForClientTlsHelloAsync deadline data' ts
           | _ \<Rightarrow> Returned None))"

definition MakeClientChangeCipherSpec :: "byte list" where
  "MakeClientChangeCipherSpec = [0x14, 0x03, 0x03, 0x00, 0x01, 0x01]"

text \<open>\<open>async_read_some\<close> is given the rest of the six-byte buffer and never returns more bytes than
  fit; \<open>got\<close> is the part of the buffer filled so far.\<close>

fun WaitForClientChangeCipherSpec :: "int \<Rightarrow> byte list \<Rightarrow> turn list \<Rightarrow> bool option" where
  "WaitForClientChangeCipherSpec deadline got [] = None"
| "WaitForClientChangeCipherSpec deadline got (t # ts) =
     (if \<not> turn_now t < deadline then Some False
      else case turn_io t of
        Raised \<Rightarrow> Some False
      | Idle \<Rightarrow> WaitForClientChangeCipherSpec deadline got ts
      | Received bytes ec \<Rightarrow>
          let got' = got @ take (length MakeClientChangeCipherSpec - length got) bytes in
          if length got' = length MakeClientChangeCipherSpec
          then Some (got' = MakeClientChangeCipherSpec)
          else (case ec of
             NoError \<Rightarrow> WaitForClientChangeCipherSpec deadline got' ts
           | _ \<Rightarrow> Some False))"

section \<open>Memory safety\<close>

lemma ex_false [simp]: "Ex Not"
  by (rule exI [of _ False]) simp

lemma read_u24_defined: "p + 3 \<le> length data \<Longrightarrow> \<exists>n. read_u24 data p = Some n"
  by (simp add: read_u24_def rd_in)

lemma IsTlsClientHello_defined: "len \<le> length data \<Longrightarrow> \<exists>b. IsTlsClientHello data len = Some b"
proof (cases "len < 6")
  case False
  moreover assume "len \<le> length data"
  ultimately have "5 < length data" by simp
  then have "rd data 0 = Some (data ! 0)" "rd data 5 = Some (data ! 5)"
    "\<exists>w. ReadU16Be data 1 = Some w"
    using ReadU16Be_defined [of 1 data] by (auto simp: rd_def)
  then show ?thesis by (auto simp: IsTlsClientHello_def)
qed (simp add: IsTlsClientHello_def)

lemma sni_extensions_defined:
  "ext_end \<le> length data \<Longrightarrow> \<exists>r. sni_extensions data p ext_end = Some r"
proof (induction data p ext_end rule: sni_extensions.induct)
  case (1 data p ext_end)
  show ?case
  proof (cases "p + 4 \<le> ext_end")
    case True
    then obtain t l where tl: "ReadU16Be data p = Some t" "ReadU16Be data (p + 2) = Some l"
      using 1(2) ReadU16Be_defined [of p data] ReadU16Be_defined [of "p + 2" data] by auto
    have "\<exists>n. ReadU16Be data (p + 4 + 3) = Some n" if "p + 4 + unat l \<le> ext_end" "5 \<le> unat l"
      using that 1(2) ReadU16Be_defined [of "p + 4 + 3" data] by auto
    moreover have "\<exists>r. sni_extensions data (p + 4 + unat l) ext_end = Some r"
      if "\<not> ext_end < p + 4 + unat l" "\<not> (t = 0 \<and> 5 \<le> unat l)"
      using 1(1) [OF True tl that 1(2)] .
    ultimately show ?thesis
      using True tl 1(2) by (subst sni_extensions.simps) (auto simp: memrd_in not_less)
  qed (simp add: sni_extensions.simps)
qed

lemma GetTlsSNI_defined: "len \<le> length data \<Longrightarrow> \<exists>r. GetTlsSNI data len = Some r"
proof -
  assume l: "len \<le> length data"
  have r1: "\<exists>b. rd data p = Some b" if "p + 1 \<le> len" for p using that l by (simp add: rd_in)
  have r2: "\<exists>w. ReadU16Be data p = Some w" if "p + 2 \<le> len" for p
    using that l ReadU16Be_defined [of p data] by simp
  show ?thesis
  proof (cases "len < 43 + 1")
    case False
    then obtain a where a: "rd data 43 = Some a" using r1 [of 43] by auto
    let ?p1 = "43 + (1 + unat a)"
    show ?thesis
    proof (cases "len < ?p1 + 2")
      case False
      then obtain b where b: "ReadU16Be data ?p1 = Some b" using r2 [of ?p1] by auto
      let ?p2 = "?p1 + (2 + unat b)"
      show ?thesis
      proof (cases "len < ?p2 + 1")
        case False
        then obtain c where c: "rd data ?p2 = Some c" using r1 [of ?p2] by auto
        let ?p3 = "?p2 + (1 + unat c)"
        show ?thesis
        proof (cases "len < ?p3 + 2")
          case False
          then obtain d where d: "ReadU16Be data ?p3 = Some d" using r2 [of ?p3] by auto
          then show ?thesis
            using a b c \<open>\<not> len < 43 + 1\<close> \<open>\<not> len < ?p1 + 2\<close> \<open>\<not> len < ?p2 + 1\<close> False l
              sni_extensions_defined [of "?p3 + 2 + unat d" data "?p3 + 2"]
            unfolding GetTlsSNI_def Let_def by (auto simp: not_less simp del: add_numeral_left)
        qed (use a b c \<open>\<not> len < 43 + 1\<close> \<open>\<not> len < ?p1 + 2\<close> \<open>\<not> len < ?p2 + 1\<close> in \<open>simp add: GetTlsSNI_def\<close>)
      qed (use a b \<open>\<not> len < 43 + 1\<close> \<open>\<not> len < ?p1 + 2\<close> in \<open>simp add: GetTlsSNI_def\<close>)
    qed (use a \<open>\<not> len < 43 + 1\<close> in \<open>simp add: GetTlsSNI_def\<close>)
  qed (simp add: GetTlsSNI_def)
qed

lemma GetTlsSessionId_defined: "len \<le> length data \<Longrightarrow> \<exists>r. GetTlsSessionId data len = Some r"
  by (auto simp: GetTlsSessionId_def rd_def memrd_def Let_def)

lemma tls13_extensions_defined:
  "ext_end \<le> length data \<Longrightarrow> \<exists>r. tls13_extensions data p ext_end = Some r"
proof (induction data p ext_end rule: tls13_extensions.induct)
  case (1 data p ext_end)
  show ?case
  proof (cases "p + 4 \<le> ext_end")
    case True
    then obtain t l where tl: "ReadU16Be data p = Some t" "ReadU16Be data (p + 2) = Some l"
      using 1(2) ReadU16Be_defined [of p data] ReadU16Be_defined [of "p + 2" data] by auto
    show ?thesis
    proof (cases "ext_end < p + 4 + unat l")
      case False
      let ?f = "if t = 0x002b \<and> 2 \<le> unat l then do { ver \<leftarrow> ReadU16Be data (p + 4); Some (ver = 0x0304) }
                else Some False"
      obtain b where b: "?f = Some b"
        using False 1(2) ReadU16Be_defined [of "p + 4" data] that
        by (cases "t = 0x002b \<and> 2 \<le> unat l") auto
      have "\<not> b \<Longrightarrow> \<exists>r. tls13_extensions data (p + 4 + unat l) ext_end = Some r"
        using 1(1) [OF True tl False b _ 1(2)] by blast
      then show ?thesis
        using tl b False True by (subst tls13_extensions.simps) auto
    qed (use True tl in \<open>subst tls13_extensions.simps, simp\<close>)
  qed (simp add: tls13_extensions.simps)
qed

lemma IsTls13ServerHello_defined: "\<exists>r. IsTls13ServerHello data body_start body_len = Some r"
proof (cases "length data < body_start + body_len \<or> body_len < 36 \<or>
    body_start + body_len \<le> body_start + 2 + 32")
  case True
  then show ?thesis by (auto simp: IsTls13ServerHello_def Let_def)
next
  case False
  let ?p = "body_start + 2 + 32" and ?e = "body_start + body_len"
  obtain s where s: "rd data ?p = Some s" using False by (auto simp: rd_def)
  show ?thesis
  proof (cases "?e < ?p + 1 + unat s + 5")
    case True
    then have "IsTls13ServerHello data body_start body_len = Some False"
      using False s by (simp add: IsTls13ServerHello_def Let_def)
    then show ?thesis by blast
  next
    case fits: False
    let ?q = "?p + 1 + unat s + 2 + 1"
    obtain w where w: "ReadU16Be data ?q = Some w"
      using fits False ReadU16Be_defined [of ?q data] by auto
    have "min (?q + 2 + unat w) ?e \<le> length data" using False by (intro min.coboundedI2) simp
    from tls13_extensions_defined [OF this, of "?q + 2"] show ?thesis
      using False fits s w unfolding IsTls13ServerHello_def Let_def by auto
  qed
qed

lemma client_hello_msgs_defined:
  "hend \<le> length data \<Longrightarrow> \<exists>r. client_hello_msgs data hpos hend = Some r"
proof (induction data hpos hend rule: client_hello_msgs.induct)
  case (1 data hpos hend)
  show ?case
  proof (cases "hpos + 4 \<le> hend")
    case True
    then obtain t n where "rd data hpos = Some t" "read_u24 data (hpos + 1) = Some n"
      using 1(2) read_u24_defined [of "hpos + 1" data] by (auto simp: rd_def)
    then show ?thesis using 1 True
      by (subst client_hello_msgs.simps) auto
  qed (simp add: client_hello_msgs.simps)
qed

lemma client_hello_records_defined: "\<exists>r. client_hello_records data pos = Some r"
proof (induction data pos rule: client_hello_records.induct)
  case (1 data pos)
  show ?case
  proof (cases "pos + 5 \<le> length data")
    case True
    then obtain t n where tn: "rd data pos = Some t" "ReadU16Be data (pos + 3) = Some n"
      using ReadU16Be_defined [of "pos + 3" data] by (auto simp: rd_def)
    show ?thesis
    proof (cases "length data < pos + 5 + unat n")
      case False
      then obtain r where r: "(if t = 22 then client_hello_msgs data (pos + 5) (pos + 5 + unat n)
          else Some None) = Some r"
        using client_hello_msgs_defined [of "pos + 5 + unat n" data "pos + 5"]
        by (cases "t = 22") auto
      show ?thesis using 1 True tn False r
        by (subst client_hello_records.simps) (auto split: option.split)
    qed (use True tn in \<open>subst client_hello_records.simps, simp\<close>)
  qed (simp add: client_hello_records.simps)
qed

lemma server_hello_msgs_defined:
  "hend \<le> length data \<Longrightarrow> \<exists>r. server_hello_msgs data hpos hend st = Some r"
proof (induction data hpos hend st rule: server_hello_msgs.induct)
  case (1 data hpos hend st)
  show ?case
  proof (cases "hpos + 4 \<le> hend")
    case True
    then obtain t n where tn: "rd data hpos = Some t" "read_u24 data (hpos + 1) = Some n"
      using 1(2) read_u24_defined [of "hpos + 1" data] by (auto simp: rd_def)
    obtain v where "IsTls13ServerHello data (hpos + 4) n = Some v"
      using IsTls13ServerHello_defined by blast
    then show ?thesis using 1 True tn
      by (subst server_hello_msgs.simps) (auto simp: Let_def)
  qed (simp add: server_hello_msgs.simps)
qed

lemma server_hello_records_defined: "\<exists>r. server_hello_records data pos st = Some r"
proof (induction data pos st rule: server_hello_records.induct)
  case (1 data pos st)
  show ?case
  proof (cases "pos + 5 \<le> length data")
    case True
    then obtain t n where tn: "rd data pos = Some t" "ReadU16Be data (pos + 3) = Some n"
      using ReadU16Be_defined [of "pos + 3" data] by (auto simp: rd_def)
    show ?thesis
    proof (cases "length data < pos + 5 + unat n")
      case False
      then obtain r where r: "(if t = 22 then server_hello_msgs data (pos + 5) (pos + 5 + unat n) st
          else Some (Some st)) = Some r"
        using server_hello_msgs_defined [of "pos + 5 + unat n" data "pos + 5"]
        by (cases "t = 22") auto
      show ?thesis using 1 True tn False r
        by (subst server_hello_records.simps) (auto simp: Let_def split: option.split)
    qed (use True tn in \<open>subst server_hello_records.simps, simp\<close>)
  qed (simp add: server_hello_records.simps)
qed

lemma hello_tests_defined:
  "\<exists>b. IsClientHelloComplete data = Some b" "\<exists>b. IsServerHelloComplete data = Some b"
  using client_hello_records_defined server_hello_records_defined
  by (auto simp: IsClientHelloComplete_def IsServerHelloComplete_def)

section \<open>Reading back an encoded ClientHello\<close>

definition encode_ext :: "u16 \<times> byte list \<Rightarrow> byte list" where
  "encode_ext x = be16 (unat (fst x)) @ be16 (length (snd x)) @ snd x"

definition sni_body :: "nat \<Rightarrow> byte list \<Rightarrow> byte list" where
  "sni_body list_len name = be16 list_len @ [0] @ be16 (length name) @ name"

definition encode_client_hello ::
    "byte list \<Rightarrow> byte list \<Rightarrow> byte list \<Rightarrow> byte list \<Rightarrow> (u16 \<times> byte list) list \<Rightarrow> byte list" where
  "encode_client_hello pre sid suites cmp exts =
     pre @ [word_of_nat (length sid)] @ sid @ be16 (length suites) @ suites @
     [word_of_nat (length cmp)] @ cmp @ be16 (length (concat (map encode_ext exts))) @
     concat (map encode_ext exts)"

lemma length_be16 [simp]: "length (be16 n) = 2"
  by (simp add: be16_def)

lemma be16_nonempty [simp]: "be16 n \<noteq> []"
  by (simp add: be16_def)

lemma at_be16:
  assumes "drop i p = be16 n @ y" "n < 65536"
  shows "ReadU16Be p i = Some (word_of_nat n)" "drop (i + 2) p = y" "i + 2 \<le> length p"
proof -
  note h = drop_prefix [OF assms(1) be16_nonempty]
  show "drop (i + 2) p = y" "i + 2 \<le> length p" using h(1,2) by simp_all
  have b: "p ! i = word_of_nat (n div 256)" "p ! (i + 1) = word_of_nat (n mod 256)"
    using h(4) [of 0] h(4) [of 1] by (simp_all add: be16_def)
  have "n div 256 < 256" using assms(2) by linarith
  then have "unat (push_bit 8 (ucast (p ! i)) OR ucast (p ! (i + 1)) :: u16) = n"
    unfolding unat_hi_lo_u16 b by (simp add: unat_of_nat)
  moreover have "unat (word_of_nat n :: u16) = n" using assms(2) by (simp add: unat_of_nat)
  ultimately show "ReadU16Be p i = Some (word_of_nat n)"
    using h(1) by (simp only: ReadU16Be_in length_be16 option.inject word_unat_eq_iff)
qed

lemma at_byte:
  assumes "drop i p = [b] @ y"
  shows "rd p i = Some b" "drop (i + 1) p = y" "i + 1 \<le> length p"
proof -
  have ne: "[b] \<noteq> []" by simp
  show "rd p i = Some b" "drop (i + 1) p = y" "i + 1 \<le> length p"
    using drop_prefix(1,2) [OF assms ne] drop_prefix(4) [OF assms ne, of 0] by (auto simp: rd_def)
qed

lemma at_bytes:
  assumes "drop i p = x @ y"
  shows "drop (i + length x) p = y" and "i \<le> length p \<Longrightarrow> memrd p i (length x) = Some x"
  using drop_prefix [OF assms] assms
  by (cases "x = []"; auto simp: memrd_def)+

lemma unat_len16 [simp]: "n < 65536 \<Longrightarrow> unat (word_of_nat n :: u16) = n"
  by (simp add: unat_of_nat)

lemma at_ext:
  assumes "drop p d = encode_ext x @ y" "length (snd x) < 65536"
  shows "ReadU16Be d p = Some (fst x)" "ReadU16Be d (p + 2) = Some (word_of_nat (length (snd x)))"
    "drop (p + 4) d = snd x @ y" "drop (p + 4 + length (snd x)) d = y"
proof -
  have a: "drop p d = be16 (unat (fst x)) @ be16 (length (snd x)) @ snd x @ y"
    using assms(1) by (simp add: encode_ext_def)
  note h = at_be16 [OF a unat_u16_less]
  note g = at_be16 [OF h(2) assms(2)]
  show "ReadU16Be d p = Some (fst x)" using h(1) by simp
  show "ReadU16Be d (p + 2) = Some (word_of_nat (length (snd x)))" using g(1) .
  show i: "drop (p + 4) d = snd x @ y" proof -
    have "p + 2 + 2 = p + 4" by simp
    with g(2) show ?thesis by (simp only:)
  qed
  show "drop (p + 4 + length (snd x)) d = y" using at_bytes(1) [OF i] .
qed

lemma sni_extensions_skip:
  assumes "\<forall>x \<in> set exts. (fst x \<noteq> 0 \<or> length (snd x) < 5) \<and> length (snd x) < 65536"
    and "drop p d = concat (map encode_ext exts) @ y"
    and "p + length (concat (map encode_ext exts)) \<le> e"
  shows "sni_extensions d p e = sni_extensions d (p + length (concat (map encode_ext exts))) e"
  using assms
proof (induction exts arbitrary: p)
  case (Cons x exts)
  have x: "fst x \<noteq> 0 \<or> length (snd x) < 5" "length (snd x) < 65536" using Cons.prems(1) by auto
  have "drop p d = encode_ext x @ concat (map encode_ext exts) @ y" using Cons.prems(2) by simp
  note h = at_ext [OF this x(2)]
  have l: "length (encode_ext x) = 4 + length (snd x)" by (simp add: encode_ext_def)
  have "sni_extensions d p e = sni_extensions d (p + 4 + length (snd x)) e"
    using Cons.prems(3) x h l by (subst sni_extensions.simps) auto
  also have "\<dots> = sni_extensions d (p + 4 + length (snd x) + length (concat (map encode_ext exts))) e"
    using Cons.prems h(4) l by (intro Cons.IH) auto
  finally show ?case using l by (simp add: add.assoc)
qed simp

lemma sni_extensions_found:
  assumes "drop p d = encode_ext (0, sni_body ll name) @ y" "length name < 65000" "ll < 65536"
    and "p + length (encode_ext (0, sni_body ll name)) \<le> e" "e \<le> length d"
  shows "sni_extensions d p e = Some (Some (byte_chars name))"
proof -
  have b: "length (sni_body ll name) = 5 + length name" by (simp add: sni_body_def)
  then have bl: "length (snd (0 :: u16, sni_body ll name)) < 65536" using assms(2) by simp
  have l: "length (encode_ext (0, sni_body ll name)) = 9 + length name"
    by (simp add: encode_ext_def b)
  note h = at_ext [OF assms(1) bl]
  have "drop (p + 4) d = (be16 ll @ [0]) @ be16 (length name) @ name @ y"
    using h(3) by (simp add: sni_body_def)
  from at_bytes(1) [OF this] have "drop (p + 4 + 3) d = be16 (length name) @ name @ y" by simp
  note n = at_be16 [OF this]
  have "p + 4 + 3 + 2 = p + 4 + 5" by simp
  then have "drop (p + 4 + 5) d = name @ y" using n(2) assms(2) by (simp only:)
  then have "memrd d (p + 4 + 5) (length name) = Some name"
    using assms(4,5) l by (intro at_bytes(2)) auto
  moreover obtain w where "ReadU16Be d (p + 2) = Some w" "unat w = 5 + length name"
    using h(2) unat_len16 [OF bl] b by auto
  moreover obtain v where "ReadU16Be d (p + 4 + 3) = Some v" "unat v = length name"
    using n(1) assms(2) by auto
  ultimately show ?thesis
    using h(1) assms(4) l by (subst sni_extensions.simps) (simp add: add.assoc)
qed

lemma encoded_hello_parsed:
  assumes "length pre = 43" "length sid < 256" "length suites < 65536" "length cmp < 256"
    and "length (concat (map encode_ext exts)) < 65536"
  defines "d \<equiv> encode_client_hello pre sid suites cmp exts"
    and "E \<equiv> concat (map encode_ext exts)"
  shows "GetTlsSessionId d (length d) = Some sid"
    and "GetTlsSNI d (length d) = sni_extensions d (length d - length E) (length d)"
    and "drop (length d - length E) d = E" "length E \<le> length d"
proof -
  have u: "unat (word_of_nat n :: byte) = n" if "n < 256" for n using that by (simp add: unat_of_nat)
  have "drop 43 d = [word_of_nat (length sid)] @ sid @ be16 (length suites) @ suites @
      [word_of_nat (length cmp)] @ cmp @ be16 (length E) @ E"
    unfolding d_def encode_client_hello_def E_def [symmetric] using assms(1) by simp
  note a = at_byte [OF this] and a' = at_bytes [OF at_byte(2) [OF this]]
  note b = at_be16 [OF a'(1) assms(3)]
  note c = at_bytes(1) [OF b(2)]
  note e = at_byte [OF c] 
  note f = at_bytes(1) [OF e(2)]
  note g = at_be16 [OF f, folded E_def, OF assms(5) [folded E_def]]
  let ?p = "43 + 1 + length sid + 2 + length suites + 1 + length cmp + 2"
  have l: "length d = ?p + length E"
    unfolding d_def encode_client_hello_def E_def [symmetric] using assms(1) by simp
  have "memrd d 44 (length sid) = Some sid"
    using a'(2) l by simp
  then show "GetTlsSessionId d (length d) = Some sid"
    using a(1) l u [OF assms(2)] by (simp add: GetTlsSessionId_def Let_def)
  show "drop (length d - length E) d = E" "length E \<le> length d"
    using g(2) l by (simp_all add: add.assoc)
  have "43 + (1 + length sid) = 43 + 1 + length sid"
    "43 + 1 + length sid + (2 + length suites) = 43 + 1 + length sid + 2 + length suites"
    "43 + 1 + length sid + 2 + length suites + (1 + length cmp) =
       43 + 1 + length sid + 2 + length suites + 1 + length cmp" by simp_all
  note eqs = this
  have "GetTlsSNI d (length d) = sni_extensions d ?p (?p + length E)"
    unfolding GetTlsSNI_def Let_def a(1) Option.bind.bind_lunit u [OF assms(2)] eqs
      b(1) unat_len16 [OF assms(3)] e(1) u [OF assms(4)] g(1)
      unat_len16 [OF assms(5) [folded E_def]]
    using l by simp
  then show "GetTlsSNI d (length d) = sni_extensions d (length d - length E) (length d)"
    using l by simp
qed

lemma GetTlsSNI_encoded:
  assumes "length pre = 43" "length sid < 256" "length suites < 65536" "length cmp < 256"
    and "length (concat (map encode_ext (before @ (0, sni_body ll name) # after))) < 65536"
    and "\<forall>x \<in> set before. fst x \<noteq> 0 \<or> length (snd x) < 5" "ll < 65536" "length name < 65000"
  defines "d \<equiv> encode_client_hello pre sid suites cmp (before @ (0, sni_body ll name) # after)"
  shows "GetTlsSNI d (length d) = Some (Some (byte_chars name))"
proof -
  let ?x = "(0 :: u16, sni_body ll name)"
  let ?E = "concat (map encode_ext (before @ ?x # after))"
  let ?B = "concat (map encode_ext before)" and ?A = "concat (map encode_ext after)"
  note p = encoded_hello_parsed [OF assms(1-5), folded d_def]
  let ?p = "length d - length ?E"
  have dE: "drop ?p d = ?B @ encode_ext ?x @ ?A" using p(3) by simp
  have lE: "length ?E = length ?B + length (encode_ext ?x) + length ?A" by simp
  have big: "length (snd x) < 65536" if "x \<in> set before" for x
  proof -
    have "length (encode_ext x) \<le> length ?B"
      using that by (auto simp: length_concat intro!: member_le_sum_list)
    then show ?thesis using assms(5) by (simp add: encode_ext_def)
  qed
  have e: "?p + length ?E = length d" using p(4) by simp
  have "GetTlsSNI d (length d) = sni_extensions d ?p (length d)" by (rule p(2))
  also have "\<dots> = sni_extensions d (?p + length ?B) (length d)"
    using dE big assms(6) e lE by (intro sni_extensions_skip) auto
  also have "\<dots> = Some (Some (byte_chars name))"
    by (rule sni_extensions_found [OF at_bytes(1) [OF dE] assms(8,7)]) (use e lE in auto)
  finally show ?thesis .
qed

section \<open>More data never hides a complete ClientHello\<close>

lemma rd_append [simp]: "i < length p \<Longrightarrow> rd (p @ q) i = rd p i"
  by (simp add: rd_def nth_append)

lemma ReadU16Be_append [simp]: "i + 2 \<le> length p \<Longrightarrow> ReadU16Be (p @ q) i = ReadU16Be p i"
  by (simp add: ReadU16Be_def)

lemma read_u24_append [simp]: "i + 3 \<le> length p \<Longrightarrow> read_u24 (p @ q) i = read_u24 p i"
  by (simp add: read_u24_def)

lemma client_hello_msgs_append:
  "hend \<le> length data \<Longrightarrow> client_hello_msgs (data @ q) hpos hend = client_hello_msgs data hpos hend"
proof (induction data hpos hend rule: client_hello_msgs.induct)
  case (1 data hpos hend)
  then show ?case
    by (subst (1 2) client_hello_msgs.simps) (auto intro!: Option.bind_cong)
qed

lemma client_hello_records_append:
  "client_hello_records data pos = Some True \<Longrightarrow> client_hello_records (data @ q) pos = Some True"
proof (induction data pos rule: client_hello_records.induct)
  case (1 data pos)
  have in5: "pos + 5 \<le> length data"
    using "1.prems" by (subst (asm) client_hello_records.simps) (auto split: if_splits)
  then obtain t n where tn: "rd data pos = Some t" "ReadU16Be data (pos + 3) = Some n"
    using ReadU16Be_defined [of "pos + 3" data] by (auto simp: rd_def)
  have fits: "\<not> length data < pos + 5 + unat n"
    using "1.prems" in5 tn by (subst (asm) client_hello_records.simps) (auto split: if_splits)
  let ?r = "\<lambda>d. if t = 22 then client_hello_msgs d (pos + 5) (pos + 5 + unat n) else Some None"
  obtain r where r: "?r data = Some r"
    using client_hello_msgs_defined [of "pos + 5 + unat n" data "pos + 5"] fits by (cases "t = 22") auto
  have r': "?r (data @ q) = Some r"
    using r fits by (auto simp: client_hello_msgs_append)
  have step: "client_hello_records d pos = (case r of Some b \<Rightarrow> Some b
      | None \<Rightarrow> client_hello_records d (pos + (5 + unat n)))"
    if "rd d pos = Some t" "ReadU16Be d (pos + 3) = Some n" "?r d = Some r"
      "pos + 5 + unat n \<le> length d" for d
    using that by (subst client_hello_records.simps) simp
  have a: "client_hello_records data pos = (case r of Some b \<Rightarrow> Some b
      | None \<Rightarrow> client_hello_records data (pos + (5 + unat n)))"
    using step [OF tn r] fits by simp
  have b: "client_hello_records (data @ q) pos = (case r of Some b \<Rightarrow> Some b
      | None \<Rightarrow> client_hello_records (data @ q) (pos + (5 + unat n)))"
    using step [OF _ _ r'] fits in5 tn by simp
  show ?case
    using a b "1.prems" "1.IH" [OF in5 tn fits r] by (cases r) auto
qed

section \<open>The read loops\<close>

text \<open>Everything the socket gave in a list of turns.\<close>

fun received :: "turn list \<Rightarrow> byte list" where
  "received [] = []"
| "received (t # ts) = (case turn_io t of Received bytes ec \<Rightarrow> bytes @ received ts | _ \<Rightarrow> received ts)"

text \<open>What makes each loop return data: for \<open>WaitForServerTlsHello\<close> a complete hello; the
  asynchronous version also returns what it has at end of file.\<close>

lemma WaitForServerTlsHello_data:
  assumes "WaitForServerTlsHello deadline data complete last_t ts = Returned (Some d)"
  shows "(\<exists>k \<le> length ts. d = data @ received (take k ts)) \<and>
         (complete \<or> (\<exists>e. hello_complete IsServerHelloComplete (data @ e) \<and> (\<exists>f. d = data @ e @ f)))"
  using assms
proof (induction ts arbitrary: data complete last_t)
  case (Cons t ts)
  show ?case
  proof (cases "turn_io t")
    case Idle
    show ?thesis
    proof (cases "complete \<and> turn_after t - last_t \<ge> 150")
      case True
      then show ?thesis using Cons.prems Idle
        by (auto split: if_splits intro: exI [of _ 0])
    next
      case False
      then have *: "WaitForServerTlsHello deadline data complete last_t ts = Returned (Some d)"
        using Cons.prems Idle by (auto split: if_splits)
      from Cons.IH [OF *] obtain k where "k \<le> length ts" "d = data @ received (take k ts)"
        and r: "complete \<or> (\<exists>e. hello_complete IsServerHelloComplete (data @ e) \<and> (\<exists>f. d = data @ e @ f))"
        by blast
      then have "Suc k \<le> length (t # ts)" "d = data @ received (take (Suc k) (t # ts))"
        using Idle by simp_all
      with r show ?thesis by blast
    qed
  next
    case (Received bytes ec)
    have ec: "ec = NoError" using Cons.prems Received by (cases ec) (auto simp: Let_def split: if_splits)
    define c where "c \<longleftrightarrow> complete \<or> bytes \<noteq> [] \<and> hello_complete IsServerHelloComplete (data @ bytes)"
    have *: "WaitForServerTlsHello deadline (data @ bytes) c
        (if bytes \<noteq> [] then turn_after t else last_t) ts = Returned (Some d)"
      using Cons.prems Received ec by (auto simp: Let_def c_def split: if_splits)
    from Cons.IH [OF *] obtain k where k: "k \<le> length ts" "d = data @ bytes @ received (take k ts)"
      and r: "c \<or> (\<exists>e. hello_complete IsServerHelloComplete ((data @ bytes) @ e) \<and>
                       (\<exists>f. d = (data @ bytes) @ e @ f))"
      by auto
    then have "Suc k \<le> length (t # ts)" "d = data @ received (take (Suc k) (t # ts))"
      using Received by simp_all
    moreover have "complete \<or> (\<exists>e. hello_complete IsServerHelloComplete (data @ e) \<and> (\<exists>f. d = data @ e @ f))"
      using r k(2) unfolding c_def by (metis append.assoc)
    ultimately show ?thesis by blast
  qed (use Cons.prems in \<open>auto split: if_splits\<close>)
qed simp

lemma WaitForClientTlsHelloAsync_data:
  assumes "WaitForClientTlsHelloAsync deadline data ts = Returned (Some d)"
  shows "(\<exists>k \<le> length ts. d = data @ received (take k ts)) \<and>
         hello_complete IsClientHelloComplete d"
  using assms
proof (induction ts arbitrary: data)
  case (Cons t ts)
  show ?case
  proof (cases "turn_io t")
    case Idle
    then have *: "WaitForClientTlsHelloAsync deadline data ts = Returned (Some d)"
      using Cons.prems by (auto split: if_splits)
    from Cons.IH [OF *] obtain k where "k \<le> length ts" "d = data @ received (take k ts)"
      and r: "hello_complete IsClientHelloComplete d" by blast
    then have "Suc k \<le> length (t # ts)" "d = data @ received (take (Suc k) (t # ts))"
      using Idle by simp_all
    with r show ?thesis by blast
  next
    case (Received bytes ec)
    show ?thesis
    proof (cases "bytes \<noteq> [] \<and> hello_complete IsClientHelloComplete (data @ bytes)")
      case True
      then have "d = data @ bytes" using Cons.prems Received by (auto simp: Let_def split: if_splits)
      then have "1 \<le> length (t # ts)" "d = data @ received (take 1 (t # ts))"
        using Received by simp_all
      then show ?thesis using True \<open>d = data @ bytes\<close> by blast
    next
      case False
      then have *: "WaitForClientTlsHelloAsync deadline (data @ bytes) ts = Returned (Some d)"
        using Cons.prems Received by (cases ec) (auto simp: Let_def split: if_splits)
      from Cons.IH [OF *] obtain k where "k \<le> length ts" "d = data @ bytes @ received (take k ts)"
        and r: "hello_complete IsClientHelloComplete d" by auto
      then have "Suc k \<le> length (t # ts)" "d = data @ received (take (Suc k) (t # ts))"
        using Received by simp_all
      with r show ?thesis by blast
    qed
  qed (use Cons.prems in \<open>auto split: if_splits\<close>)
qed simp

lemma WaitForServer_agree:
  assumes "\<forall>t \<in> set ts. \<forall>bytes. turn_io t \<noteq> Received bytes Eof"
  shows "WaitForServerTlsHelloAsync deadline data complete last_t ts =
         WaitForServerTlsHello deadline data complete last_t ts"
  using assms
  by (induction ts arbitrary: data complete last_t)
    (auto simp: Let_def split: io_event.splits io_error.splits)

lemma WaitForServer_times_out:
  "\<exists>t \<in> set ts. deadline \<le> turn_now t \<Longrightarrow>
   WaitForServerTlsHelloAsync deadline data complete last_t ts \<noteq> Pending \<and>
   WaitForServerTlsHello deadline data complete last_t ts \<noteq> Pending"
  by (induction ts arbitrary: data complete last_t)
    (auto simp: Let_def split: io_event.splits io_error.splits)

lemma WaitForClientChangeCipherSpec_exact:
  "WaitForClientChangeCipherSpec deadline got ts = Some True \<Longrightarrow> length got \<le> 6 \<Longrightarrow>
   \<exists>rest. got @ received ts = MakeClientChangeCipherSpec @ rest"
proof (induction ts arbitrary: got)
  case (Cons t ts)
  show ?case
  proof (cases "turn_io t")
    case Idle
    then show ?thesis using Cons by (auto split: if_splits)
  next
    case (Received bytes ec)
    let ?got = "got @ take (6 - length got) bytes"
    have six: "length MakeClientChangeCipherSpec = 6" by (simp add: MakeClientChangeCipherSpec_def)
    show ?thesis
    proof (cases "length ?got = 6")
      case True
      then have "?got = MakeClientChangeCipherSpec"
        using Cons.prems Received six by (auto simp: Let_def split: if_splits)
      moreover have "got @ received (t # ts) =
          ?got @ drop (6 - length got) bytes @ received ts"
        using Received by simp
      ultimately show ?thesis by metis
    next
      case False
      then have less: "length bytes < 6 - length got" using Cons.prems(2) by auto
      then have "WaitForClientChangeCipherSpec deadline (got @ bytes) ts = Some True"
        using Cons.prems Received False six
        by (cases ec) (auto simp: Let_def split: if_splits)
      moreover have "length (got @ bytes) \<le> 6" using less by simp
      ultimately show ?thesis using Cons.IH [of "got @ bytes"] Received by simp
    qed
  qed (use Cons.prems in \<open>auto split: if_splits\<close>)
qed simp

section \<open>Properties\<close>

definition sample_hello :: "byte list" where
  "sample_hello = encode_client_hello
     ([0x16, 3, 1, 0, 75, 1, 0, 0, 71, 3, 3] @ replicate 32 7) [9, 9] [0x13, 0x01] [0]
     ([(43, [2, 3, 4])] @ (0, sni_body 7 [0x79, 0x61, 0x2E, 0x72]) # [])"

text \<open>The TLS inspectors are memory safe on every input: on a buffer of any content and any
  length not above the buffer's, \<open>IsTlsClientHello\<close>, \<open>GetTlsSNI\<close>, \<open>GetTlsSessionId\<close>,
  \<open>IsTls13ServerHello\<close>, \<open>IsClientHelloComplete\<close> and \<open>IsServerHelloComplete\<close> return without
  reading outside it.\<close>

theorem tls_memory_safe:
  assumes "len \<le> length data"
  shows "(\<exists>b. IsTlsClientHello data len = Some b) \<and> (\<exists>r. GetTlsSNI data len = Some r) \<and>
         (\<exists>r. GetTlsSessionId data len = Some r) \<and>
         (\<exists>b. IsTls13ServerHello data body_start body_len = Some b) \<and>
         (\<exists>b. IsClientHelloComplete data = Some b) \<and> (\<exists>b. IsServerHelloComplete data = Some b)"
  using IsTlsClientHello_defined [OF assms] GetTlsSNI_defined [OF assms]
    GetTlsSessionId_defined [OF assms] IsTls13ServerHello_defined hello_tests_defined
  by blast

theorem tls_memory_safe_witness:
  "\<exists>b. IsServerHelloComplete [0x16, 3, 3, 0, 9, 2, 0] = Some b"
  using tls_memory_safe [of 7 "[0x16, 3, 3, 0, 9, 2, 0]"] by simp

text \<open>Reading back a ClientHello: from a message with any session id, cipher suites, compression
  methods and extensions that contains a server-name extension, \<open>GetTlsSNI\<close> returns the name of
  the first one and \<open>GetTlsSessionId\<close> the session id.\<close>

theorem client_hello_roundtrip:
  assumes "length pre = 43" and "length sid < 256" and "length suites < 65536"
    and "length cmp < 256"
    and "length (concat (map encode_ext (before @ (0, sni_body ll name) # after))) < 65536"
    and "\<forall>x \<in> set before. fst x \<noteq> 0 \<or> length (snd x) < 5" and "ll < 65536"
    and "length name < 65000"
    and "d = encode_client_hello pre sid suites cmp (before @ (0, sni_body ll name) # after)"
  shows "GetTlsSNI d (length d) = Some (Some (byte_chars name)) \<and>
         GetTlsSessionId d (length d) = Some sid"
  using GetTlsSNI_encoded [OF assms(1-8)] encoded_hello_parsed(1) [OF assms(1-5)] assms(9) by blast

theorem client_hello_roundtrip_witness:
  "GetTlsSNI sample_hello (length sample_hello) = Some (Some ''ya.r'') \<and>
   GetTlsSessionId sample_hello (length sample_hello) = Some [9, 9]"
proof -
  have n: "byte_chars [0x79, 0x61, 0x2E, 0x72] = ''ya.r''" by code_simp
  have l: "length (concat (map encode_ext ([(43, [2, 3, 4])] @ (0, sni_body 7 [0x79, 0x61, 0x2E, 0x72]) # []))) < 65536"
    by (simp add: encode_ext_def sni_body_def)
  show ?thesis
    using client_hello_roundtrip [OF _ _ _ _ l, of "[0x16, 3, 1, 0, 75, 1, 0, 0, 71, 3, 3] @ replicate 32 7"
        "[9, 9]" "[0x13, 0x01]" "[0]" sample_hello]
    by (simp add: n sample_hello_def)
qed

lemma client_example: "IsClientHelloComplete [0x16, 3, 1, 0, 4, 1, 0, 0, 0] = Some True"
  by (simp add: IsClientHelloComplete_def client_hello_records.simps [of _ 0]
      client_hello_msgs.simps [of _ 5] rd_def ReadU16Be_def read_u24_def)

text \<open>More data never hides a complete ClientHello: once \<open>IsClientHelloComplete\<close> holds of what
  was read, it holds after any further bytes arrive.\<close>

theorem IsClientHelloComplete_stable:
  assumes "IsClientHelloComplete data = Some True"
  shows "IsClientHelloComplete (data @ later) = Some True"
  using assms client_hello_records_append [of data 0 later]
  by (auto simp: IsClientHelloComplete_def split: if_splits)

theorem IsClientHelloComplete_stable_witness:
  "IsClientHelloComplete ([0x16, 3, 1, 0, 4, 1, 0, 0, 0] @ [0x17]) = Some True"
proof -
  have "IsClientHelloComplete [0x16, 3, 1, 0, 4, 1, 0, 0, 0] = Some True" by (rule client_example)
  then show ?thesis by (rule IsClientHelloComplete_stable)
qed

text \<open>The read loops hand over exactly what the socket gave: data returned by
  \<open>WaitForServerTlsHello\<close> or \<open>WaitForClientTlsHelloAsync\<close> is the concatenation, in order, of what
  a prefix of the turns received, and it contains a complete hello; both server loops return once
  the deadline has passed.\<close>

theorem wait_loops_return_what_was_read:
  assumes "WaitForServerTlsHello deadline [] False t0 ts = Returned (Some d)"
    and "WaitForClientTlsHelloAsync deadline' [] ts' = Returned (Some d')"
    and "\<exists>t \<in> set us. deadline \<le> turn_now t"
  shows "(\<exists>k \<le> length ts. d = received (take k ts)) \<and>
         (\<exists>e f. d = e @ f \<and> IsServerHelloComplete e = Some True) \<and>
         (\<exists>k \<le> length ts'. d' = received (take k ts')) \<and> IsClientHelloComplete d' = Some True \<and>
         WaitForServerTlsHello deadline [] False t0 us \<noteq> Pending \<and>
         WaitForServerTlsHelloAsync deadline [] False t0 us \<noteq> Pending"
  using WaitForServerTlsHello_data [OF assms(1)] WaitForClientTlsHelloAsync_data [OF assms(2)]
    WaitForServer_times_out [OF assms(3), of "[]" False t0]
  by (auto simp: hello_complete_def)

definition server_turns :: "turn list" where
  "server_turns =
     [\<lparr>turn_now = 0, turn_after = 1, turn_io = Received ([0x16, 3, 3, 0, 8, 2, 0, 0, 0, 14]) NoError\<rparr>,
      \<lparr>turn_now = 2, turn_after = 3, turn_io = Received ([0, 0, 0]) NoError\<rparr>,
      \<lparr>turn_now = 160, turn_after = 161, turn_io = Idle\<rparr>]"

definition client_turns :: "turn list" where
  "client_turns =
     [\<lparr>turn_now = 0, turn_after = 1, turn_io = Received ([0x16, 3, 1, 0, 4, 1, 0, 0, 0]) NoError\<rparr>]"

lemma server_example:
  "IsServerHelloComplete [0x16, 3, 3, 0, 8, 2, 0, 0, 0, 14, 0, 0, 0] = Some True"
  "IsServerHelloComplete [0x16, 3, 3, 0, 8, 2, 0, 0, 0, 14] = Some False"
  by (simp_all add: IsServerHelloComplete_def server_hello_records.simps [of _ 0]
      server_hello_records.simps [of _ 13] server_hello_msgs.simps [of _ 5]
      server_hello_msgs.simps [of _ 9] server_hello_msgs.simps [of _ 13] rd_def ReadU16Be_def
      read_u24_def IsTls13ServerHello_def)

theorem wait_loops_return_what_was_read_witness:
  "(\<exists>k \<le> 3. [0x16, 3, 3, 0, 8, 2, 0, 0, 0, 14, 0, 0, 0] = received (take k server_turns)) \<and>
   WaitForServerTlsHello 5000 [] False 0 [\<lparr>turn_now = 5000, turn_after = 5000, turn_io = Idle\<rparr>] \<noteq> Pending"
proof -
  have a: "WaitForServerTlsHello 5000 [] False 0 server_turns =
      Returned (Some [0x16, 3, 3, 0, 8, 2, 0, 0, 0, 14, 0, 0, 0])"
    by (simp add: server_turns_def hello_complete_def server_example)
  have b: "WaitForClientTlsHelloAsync 5000 [] client_turns =
      Returned (Some [0x16, 3, 1, 0, 4, 1, 0, 0, 0])"
    by (simp add: client_turns_def hello_complete_def client_example)
  have "length server_turns = 3" by (simp add: server_turns_def)
  then show ?thesis
    using wait_loops_return_what_was_read [OF a b,
        of "[\<lparr>turn_now = 5000, turn_after = 5000, turn_io = Idle\<rparr>]"] by auto
qed

end
