(* ===== verification/LeakyBucket.thy ===== *)
theory LeakyBucket
  imports Prelude
begin

text \<open>
  The traffic shaper of \<open>src/fptn-server/traffic_shaper/leaky_bucket.cpp\<close>. Counters are 64-bit
  unsigned; times are steady-clock nanoseconds read at each call. The mutex makes each call one
  step.
\<close>

record leaky_bucket =
  current_amount :: u64
  max_bytes_per_second :: u64
  last_leak_time :: int
  full_data_amount :: u64

definition LeakyBucket_new :: "u64 \<Rightarrow> int \<Rightarrow> leaky_bucket" where
  "LeakyBucket_new max_bites_per_second now =
     \<lparr>current_amount = 0, max_bytes_per_second = max_bites_per_second div 8,
      last_leak_time = now, full_data_amount = 0\<rparr>"

definition FullDataAmount :: "leaky_bucket \<Rightarrow> u64" where
  "FullDataAmount b = full_data_amount b"

text \<open>\<open>duration_cast<milliseconds>\<close> truncates towards zero; the clock is steady, so the elapsed
  time is not negative and the cast is \<open>div\<close>.\<close>

definition CheckSpeedLimit :: "u64 \<Rightarrow> int \<Rightarrow> leaky_bucket \<Rightarrow> bool \<times> leaky_bucket" where
  "CheckSpeedLimit packet_size now b =
     (let elapsed = (now - last_leak_time b) div 1000000 in
      if elapsed < 1000 then
        if current_amount b + packet_size < max_bytes_per_second b then
          (True, b\<lparr>current_amount := current_amount b + packet_size,
                   full_data_amount := full_data_amount b + packet_size\<rparr>)
        else (False, b)
      else (True, b\<lparr>last_leak_time := now, current_amount := packet_size\<rparr>))"

section \<open>Runs\<close>

text \<open>A run over a list of packets (size and arrival time). The second component collects, per
  packet, whether it was let through and whether it opened a new one-second window.\<close>

fun run_bucket :: "(u64 \<times> int) list \<Rightarrow> leaky_bucket \<Rightarrow> leaky_bucket \<times> (nat \<times> bool \<times> bool) list" where
  "run_bucket [] b = (b, [])"
| "run_bucket ((sz, now) # ps) b =
     (let opens = \<not> (now - last_leak_time b) div 1000000 < 1000;
          (ok, b') = CheckSpeedLimit sz now b;
          (b'', tr) = run_bucket ps b' in
      (b'', (unat sz, ok, opens) # tr))"

fun passed :: "(nat \<times> bool \<times> bool) list \<Rightarrow> nat" where
  "passed [] = 0"
| "passed ((sz, ok, opens) # tr) = (if ok then sz else 0) + passed tr"

fun opened :: "(nat \<times> bool \<times> bool) list \<Rightarrow> nat" where
  "opened [] = 0"
| "opened ((sz, ok, opens) # tr) = (if ok \<and> opens then sz else 0) + opened tr"

lemma opened_le_passed: "opened tr \<le> passed tr"
  by (induction tr rule: passed.induct) auto

lemma unat_add_small: "unat a + unat b < 18446744073709551616 \<Longrightarrow> unat (a + b) = unat a + unat b"
  for a b :: u64
  by (simp add: unat_word_ariths)

text \<open>Within one window.\<close>

lemma CheckSpeedLimit_window:
  assumes "(now - last_leak_time b) div 1000000 < 1000"
  shows "fst (CheckSpeedLimit sz now b) \<longleftrightarrow> current_amount b + sz < max_bytes_per_second b"
    and "last_leak_time (snd (CheckSpeedLimit sz now b)) = last_leak_time b"
  using assms by (auto simp: CheckSpeedLimit_def Let_def)

lemma run_window:
  assumes "\<forall>(sz, now) \<in> set ps. (now - last_leak_time b) div 1000000 < 1000"
    and "unat (current_amount b) + sum_list (map (\<lambda>p. unat (fst p)) ps) < 18446744073709551616"
  shows "unat (current_amount (fst (run_bucket ps b))) =
           unat (current_amount b) + passed (snd (run_bucket ps b)) \<and>
         max_bytes_per_second (fst (run_bucket ps b)) = max_bytes_per_second b \<and>
         (passed (snd (run_bucket ps b)) = 0 \<or>
          unat (current_amount b) + passed (snd (run_bucket ps b)) < unat (max_bytes_per_second b))"
  using assms
proof (induction ps arbitrary: b)
  case (Cons p ps)
  obtain sz now where p: "p = (sz, now)" by (cases p)
  have w: "(now - last_leak_time b) div 1000000 < 1000" using Cons.prems(1) p by auto
  show ?case
  proof (cases "current_amount b + sz < max_bytes_per_second b")
    case True
    let ?b = "b\<lparr>current_amount := current_amount b + sz, full_data_amount := full_data_amount b + sz\<rparr>"
    have u: "unat (current_amount b + sz) = unat (current_amount b) + unat sz"
      using Cons.prems(2) p by (intro unat_add_small) simp
    then have lt: "unat (current_amount b) + unat sz < unat (max_bytes_per_second b)"
      using True by (simp add: word_less_nat_alt)
    have "unat (current_amount (fst (run_bucket ps ?b))) =
           unat (current_amount ?b) + passed (snd (run_bucket ps ?b)) \<and>
         max_bytes_per_second (fst (run_bucket ps ?b)) = max_bytes_per_second ?b \<and>
         (passed (snd (run_bucket ps ?b)) = 0 \<or>
          unat (current_amount ?b) + passed (snd (run_bucket ps ?b)) < unat (max_bytes_per_second ?b))"
      using Cons.prems p u by (intro Cons.IH) auto
    then show ?thesis
      using w True p u lt
      by (auto simp: CheckSpeedLimit_def Let_def split: prod.splits)
  next
    case False
    have "unat (current_amount (fst (run_bucket ps b))) =
           unat (current_amount b) + passed (snd (run_bucket ps b)) \<and>
         max_bytes_per_second (fst (run_bucket ps b)) = max_bytes_per_second b \<and>
         (passed (snd (run_bucket ps b)) = 0 \<or>
          unat (current_amount b) + passed (snd (run_bucket ps b)) < unat (max_bytes_per_second b))"
      using Cons.prems p by (intro Cons.IH) auto
    then show ?thesis
      using w False p by (auto simp: CheckSpeedLimit_def Let_def split: prod.splits)
  qed
qed simp

lemma run_accounting:
  assumes "unat (full_data_amount b) + sum_list (map (\<lambda>p. unat (fst p)) ps) < 18446744073709551616"
  shows "unat (full_data_amount (fst (run_bucket ps b))) + opened (snd (run_bucket ps b)) =
         unat (full_data_amount b) + passed (snd (run_bucket ps b))"
  using assms
proof (induction ps arbitrary: b)
  case (Cons p ps)
  obtain sz now where p: "p = (sz, now)" by (cases p)
  let ?b = "snd (CheckSpeedLimit sz now b)"
  have u: "unat (full_data_amount b + sz) = unat (full_data_amount b) + unat sz"
    using Cons.prems p by (intro unat_add_small) simp
  have "unat (full_data_amount ?b) \<le> unat (full_data_amount b) + unat sz"
    using u by (auto simp: CheckSpeedLimit_def Let_def)
  then have IH: "unat (full_data_amount (fst (run_bucket ps ?b))) + opened (snd (run_bucket ps ?b)) =
         unat (full_data_amount ?b) + passed (snd (run_bucket ps ?b))"
    using Cons.prems p by (intro Cons.IH) simp
  show ?case
    using IH u p
    by (auto simp: CheckSpeedLimit_def Let_def split: prod.splits if_splits)
qed simp

section \<open>Properties\<close>

text \<open>C38: The rate limit within a window: packets arriving within one second of the last leak pass
  only while the total of the window stays below the limit, so what a window lets through after
  its opening packet is less than \<open>max_bytes_per_second\<close>.\<close>

theorem LeakyBucket_window_bound:
  assumes "\<forall>(sz, now) \<in> set ps. (now - last_leak_time b) div 1000000 < 1000"
    and "unat (current_amount b) + sum_list (map (\<lambda>p. unat (fst p)) ps) < 18446744073709551616"
  shows "passed (snd (run_bucket ps b)) = 0 \<or>
         unat (current_amount b) + passed (snd (run_bucket ps b)) < unat (max_bytes_per_second b)"
  using run_window [OF assms] by blast

definition demo_bucket :: leaky_bucket where
  "demo_bucket = LeakyBucket_new 80 0"

theorem LeakyBucket_window_bound_witness:
  "passed (snd (run_bucket [(4, 5), (5, 6), (3, 7)] demo_bucket)) = 9 \<and>
   passed (snd (run_bucket [(4, 5), (5, 6), (3, 7)] demo_bucket)) < 10"
proof -
  have "passed (snd (run_bucket [(4, 5), (5, 6), (3, 7)] demo_bucket)) = 9" by code_simp
  then show ?thesis
    using LeakyBucket_window_bound [of "[(4, 5), (5, 6), (3, 7)]" demo_bucket]
    by (simp add: demo_bucket_def LeakyBucket_new_def)
qed

text \<open>What the traffic statistic counts: \<open>FullDataAmount\<close> is the total of the packets let
  through less the packets that opened a window, which pass whatever their size and are never
  added.\<close>

theorem LeakyBucket_accounting:
  assumes "sum_list (map (\<lambda>p. unat (fst p)) ps) < 18446744073709551616"
  shows "unat (FullDataAmount (fst (run_bucket ps (LeakyBucket_new limit now)))) +
           opened (snd (run_bucket ps (LeakyBucket_new limit now))) =
         passed (snd (run_bucket ps (LeakyBucket_new limit now)))"
  using run_accounting [of "LeakyBucket_new limit now" ps] assms
  by (simp add: FullDataAmount_def LeakyBucket_new_def)

theorem LeakyBucket_accounting_witness:
  "unat (FullDataAmount (fst (run_bucket [(1500, 2000000000), (4, 2000000001)] (LeakyBucket_new 80000 0)))) = 4 \<and>
   passed (snd (run_bucket [(1500, 2000000000), (4, 2000000001)] (LeakyBucket_new 80000 0))) = 1504"
proof -
  have o: "opened (snd (run_bucket [(1500, 2000000000), (4, 2000000001)] (LeakyBucket_new 80000 0))) = 1500"
    "passed (snd (run_bucket [(1500, 2000000000), (4, 2000000001)] (LeakyBucket_new 80000 0))) = 1504"
    by code_simp+
  show ?thesis
    using LeakyBucket_accounting [of "[(1500, 2000000000), (4, 2000000001)]" 80000 0] o by simp
qed

end
