(* ===== verification/Multiplexer.thy ===== *)
theory Multiplexer
  imports Packet LeakyBucket
begin

text \<open>
  Client connections and the connection multiplexer of \<open>src/fptn-server/nat\<close>:
  \<open>connect_params.h\<close>, \<open>client_connection.cpp\<close> and \<open>connection_multiplexer.cpp\<close>. Clock readings
  are arguments, in nanoseconds; the code reads the clock once per role test, so a placement
  takes two readings and a status update reads a clock that advances from test to test. Shared
  pointers to connections are the immutable connections themselves.
\<close>

section \<open>Definitions\<close>

record connect_params =
  cp_client_id :: client_id
  cp_url :: string
  cp_jwt_auth_token :: string
  cp_session_id :: string
  cp_connection_weight :: u64
  cp_send_duration_ms :: nat
  cp_ttl_ms :: nat
  cp_client_ipv4 :: ip_address
  cp_client_tun_vpn_ipv4 :: ip_address
  cp_client_tun_vpn_ipv6 :: ip_address
  cp_username :: string
  cp_bandwidth_bites_seconds :: u64

definition ConnectParams_Validate :: "connect_params \<Rightarrow> bool" where
  "ConnectParams_Validate p \<longleftrightarrow>
     cp_client_id p \<noteq> - 1 \<and> \<not> IPAddress_IsEmpty (cp_client_ipv4 p) \<and>
     \<not> IPAddress_IsEmpty (cp_client_tun_vpn_ipv4 p) \<and>
     \<not> IPAddress_IsEmpty (cp_client_tun_vpn_ipv6 p) \<and>
     cp_jwt_auth_token p \<noteq> [] \<and> cp_session_id p \<noteq> []"

record client_connection =
  cc_params :: connect_params
  cc_accepted_at :: int

definition ms :: "nat \<Rightarrow> int" where
  "ms n = int n * 1000000"

definition ClientConnection_Create :: "connect_params \<Rightarrow> int \<Rightarrow> client_connection" where
  "ClientConnection_Create params now = \<lparr>cc_params = params, cc_accepted_at = now\<rparr>"

definition cc_id :: "client_connection \<Rightarrow> client_id" where
  "cc_id c = cp_client_id (cc_params c)"

definition IsBidirectional :: "client_connection \<Rightarrow> bool" where
  "IsBidirectional c \<longleftrightarrow> cp_send_duration_ms (cc_params c) = 0 \<and> cp_ttl_ms (cc_params c) = 0"

definition IsSending :: "int \<Rightarrow> client_connection \<Rightarrow> bool" where
  "IsSending now c \<longleftrightarrow>
     (if IsBidirectional c then True
      else now < cc_accepted_at c + ms (cp_send_duration_ms (cc_params c)))"

definition IsReceiving :: "int \<Rightarrow> client_connection \<Rightarrow> bool" where
  "IsReceiving now c \<longleftrightarrow>
     (if IsBidirectional c then True
      else now \<ge> cc_accepted_at c + ms (cp_send_duration_ms (cc_params c)))"

definition IsExpired :: "int \<Rightarrow> client_connection \<Rightarrow> bool" where
  "IsExpired now c \<longleftrightarrow>
     cp_ttl_ms (cc_params c) \<noteq> 0 \<and> now \<ge> cc_accepted_at c + ms (cp_ttl_ms (cc_params c))"

definition Contains :: "client_connection list \<Rightarrow> client_id \<Rightarrow> bool" where
  "Contains cs cid \<longleftrightarrow> (\<exists>c \<in> set cs. cc_id c = cid)"

fun Remove :: "client_connection list \<Rightarrow> client_id \<Rightarrow> client_connection list \<times> bool" where
  "Remove [] cid = ([], False)"
| "Remove (c # cs) cid =
     (if cc_id c = cid then (cs, True)
      else (let (cs', r) = Remove cs cid in (c # cs', r)))"

definition FindByClientId :: "client_connection list \<Rightarrow> client_id \<Rightarrow> client_connection option" where
  "FindByClientId cs cid = find (\<lambda>c. cc_id c = cid) cs"

text \<open>\<open>IsSending\<close> is tested at time \<open>t1\<close> and \<open>IsReceiving\<close> at time \<open>t2\<close>.\<close>

definition PlaceByRole ::
    "int \<Rightarrow> int \<Rightarrow> client_connection \<Rightarrow> client_connection list \<times> client_connection list \<Rightarrow>
     client_connection list \<times> client_connection list" where
  "PlaceByRole t1 t2 c b =
     (let (sending, receiving) = b in
      (if IsSending t1 c then sending @ [c] else sending,
       if IsReceiving t2 c then receiving @ [c] else receiving))"

record multiplexer =
  mx_username :: string
  mx_session_id :: string
  mx_fake_ipv4 :: ip_address
  mx_fake_ipv6 :: ip_address
  mx_to_client :: leaky_bucket
  mx_from_client :: leaky_bucket
  mx_disable_checksum :: bool
  mx_sending :: "client_connection list"
  mx_receiving :: "client_connection list"
  mx_cursor :: u64

text \<open>Readings: \<open>t0\<close> when the connection is accepted, \<open>t1\<close> and \<open>t2\<close> for its role.\<close>

definition Multiplexer_Create ::
    "connect_params \<Rightarrow> ip_address \<Rightarrow> ip_address \<Rightarrow> leaky_bucket \<Rightarrow> leaky_bucket \<Rightarrow>
     int \<times> int \<times> int \<Rightarrow> multiplexer" where
  "Multiplexer_Create params fake4 fake6 to_client from_client ts =
     (let (t0, t1, t2) = ts;
          (s, r) = PlaceByRole t1 t2 (ClientConnection_Create params t0) ([], []) in
      \<lparr>mx_username = cp_username params, mx_session_id = cp_session_id params,
       mx_fake_ipv4 = fake4, mx_fake_ipv6 = fake6, mx_to_client = to_client,
       mx_from_client = from_client, mx_disable_checksum = False,
       mx_sending = s, mx_receiving = r, mx_cursor = 0\<rparr>)"

definition AddClientConnection ::
    "connect_params \<Rightarrow> int \<times> int \<times> int \<Rightarrow> multiplexer \<Rightarrow> bool \<times> multiplexer" where
  "AddClientConnection params ts m =
     (if Contains (mx_sending m) (cp_client_id params) \<or>
         Contains (mx_receiving m) (cp_client_id params)
      then (False, m)
      else
        let (t0, t1, t2) = ts;
            (s, r) = PlaceByRole t1 t2 (ClientConnection_Create params t0)
                       (mx_sending m, mx_receiving m) in
        (True, m\<lparr>mx_sending := s, mx_receiving := r\<rparr>))"

definition mx_HasClientId :: "client_id \<Rightarrow> multiplexer \<Rightarrow> bool" where
  "mx_HasClientId cid m \<longleftrightarrow> Contains (mx_sending m) cid \<or> Contains (mx_receiving m) cid"

definition mx_DelConnectionByClientId :: "client_id \<Rightarrow> multiplexer \<Rightarrow> bool \<times> multiplexer" where
  "mx_DelConnectionByClientId cid m =
     (let (s, from_sending) = Remove (mx_sending m) cid;
          (r, from_receiving) = Remove (mx_receiving m) cid in
      (from_sending \<or> from_receiving, m\<lparr>mx_sending := s, mx_receiving := r\<rparr>))"

definition mx_Empty :: "multiplexer \<Rightarrow> bool" where
  "mx_Empty m \<longleftrightarrow> mx_sending m = [] \<and> mx_receiving m = []"

text \<open>The connections of both buckets, each once, in the order the update visits them.\<close>

fun merge_connections ::
    "client_connection list \<Rightarrow> client_connection list \<Rightarrow> client_connection list" where
  "merge_connections cs [] = cs"
| "merge_connections cs (c # r) =
     merge_connections (if Contains cs (cc_id c) then cs else cs @ [c]) r"

text \<open>The loop over the merged connections. \<open>clock k\<close> is the \<open>k\<close>-th reading.\<close>

fun resort ::
    "(nat \<Rightarrow> int) \<Rightarrow> nat \<Rightarrow> client_connection list \<Rightarrow>
     client_connection list \<times> client_connection list \<Rightarrow> client_id list \<Rightarrow>
     (client_connection list \<times> client_connection list) \<times> client_id list" where
  "resort clock k [] b expired = (b, expired)"
| "resort clock k (c # cs) b expired =
     (if IsExpired (clock k) c then resort clock (k + 1) cs b (expired @ [cc_id c])
      else resort clock (k + 3) cs (PlaceByRole (clock (k + 1)) (clock (k + 2)) c b) expired)"

definition mx_UpdateConnectionsStatus ::
    "(nat \<Rightarrow> int) \<Rightarrow> multiplexer \<Rightarrow> client_id list \<times> multiplexer" where
  "mx_UpdateConnectionsStatus clock m =
     (let connections = merge_connections (mx_sending m) (mx_receiving m);
          ((s, r), expired) = resort clock 0 connections ([], []) [] in
      (expired, m\<lparr>mx_sending := s, mx_receiving := r\<rparr>))"

text \<open>The packet, if any, is handed back unchanged; the result is the receiver chosen. The outer
  option is a load outside the packet.\<close>

definition NextReceiverClientId ::
    "ip_packet option \<Rightarrow> multiplexer \<Rightarrow> (client_id option \<times> multiplexer) option" where
  "NextReceiverClientId packet m =
     (case packet of
        None \<Rightarrow> Some (None, m)
      | Some pkt \<Rightarrow>
          if mx_receiving m = [] then Some (None, m)
          else do {
            (start, m) \<leftarrow>
              (if IsTCP pkt then do { p \<leftarrow> GetTcpDstPort pkt; Some (unat p, m) }
               else if IsUDP pkt then do { p \<leftarrow> GetUdpDstPort pkt; Some (unat p, m) }
               else Some (unat (mx_cursor m), m\<lparr>mx_cursor := mx_cursor m + 1\<rparr>));
            let index = start mod length (mx_receiving m);
            Some (Some (cc_id (mx_receiving m ! index)), m)
          })"

text \<open>Results: the outer option is a load or store outside the packet, the inner one the null
  pointer.\<close>

definition ChangeIPAddressToClientIP ::
    "netlib \<Rightarrow> multiplexer \<Rightarrow> ip_packet \<Rightarrow> client_id \<Rightarrow> ip_packet option option" where
  "ChangeIPAddressToClientIP lib m packet cid = (let packet = SetClientId cid packet in
     if mx_disable_checksum m then Some (Some packet)
     else case FindByClientId (mx_receiving m) cid of
       None \<Rightarrow> Some None
     | Some c \<Rightarrow> do {
         packet \<leftarrow>
           (if IsIPv4 packet then SetDstIPv4Address (cp_client_tun_vpn_ipv4 (cc_params c)) packet
            else if IsIPv6 packet then
              SetDstIPv6Address lib (cp_client_tun_vpn_ipv6 (cc_params c)) packet
            else Some packet);
         packet \<leftarrow> ComputeCalculateFields packet;
         Some (Some packet)
       })"

definition ChangeIPAddressToFakeIP ::
    "netlib \<Rightarrow> multiplexer \<Rightarrow> ip_packet \<Rightarrow> ip_packet option" where
  "ChangeIPAddressToFakeIP lib m packet =
     (if mx_disable_checksum m then Some packet
      else do {
        packet \<leftarrow>
          (if IsIPv4 packet then SetSrcIPv4Address (mx_fake_ipv4 m) packet
           else if IsIPv6 packet then SetSrcIPv6Address lib (mx_fake_ipv6 m) packet
           else Some packet);
        ComputeCalculateFields packet
      })"

definition DisableChecksumCalculation :: "bool \<Rightarrow> multiplexer \<Rightarrow> multiplexer" where
  "DisableChecksumCalculation v m = m\<lparr>mx_disable_checksum := v\<rparr>"

section \<open>Buckets\<close>

definition ids :: "client_connection list \<Rightarrow> client_id set" where
  "ids cs = cc_id ` set cs"

definition mx_ids :: "multiplexer \<Rightarrow> client_id set" where
  "mx_ids m = ids (mx_sending m) \<union> ids (mx_receiving m)"

text \<open>Each bucket holds a client at most once.\<close>

definition mx_ok :: "multiplexer \<Rightarrow> bool" where
  "mx_ok m \<longleftrightarrow> distinct (map cc_id (mx_sending m)) \<and> distinct (map cc_id (mx_receiving m))"

lemma ids_simps [simp]:
  "ids [] = {}" "ids (c # cs) = insert (cc_id c) (ids cs)" "ids (xs @ ys) = ids xs \<union> ids ys"
  by (auto simp: ids_def)

lemma Contains_iff [simp]: "Contains cs cid \<longleftrightarrow> cid \<in> ids cs"
  by (auto simp: Contains_def ids_def)

lemma mx_HasClientId_iff: "mx_HasClientId cid m \<longleftrightarrow> cid \<in> mx_ids m"
  by (simp add: mx_HasClientId_def mx_ids_def)

lemma mx_Empty_iff: "mx_Empty m \<longleftrightarrow> mx_ids m = {}"
  by (auto simp: mx_Empty_def mx_ids_def ids_def)

lemma distinct_ids: "distinct (map cc_id (cs @ [c])) \<longleftrightarrow> distinct (map cc_id cs) \<and> cc_id c \<notin> ids cs"
  by (auto simp: ids_def)

lemma role_covers: "t1 \<le> t2 \<Longrightarrow> IsSending t1 c \<or> IsReceiving t2 c"
  by (auto simp: IsSending_def IsReceiving_def)

lemma PlaceByRole_ids:
  assumes "t1 \<le> t2" "PlaceByRole t1 t2 c (s, r) = (s', r')"
  shows "ids s' \<union> ids r' = insert (cc_id c) (ids s \<union> ids r)"
    and "ids s' \<subseteq> insert (cc_id c) (ids s)" "ids r' \<subseteq> insert (cc_id c) (ids r)"
    and "distinct (map cc_id s) \<Longrightarrow> cc_id c \<notin> ids s \<Longrightarrow> distinct (map cc_id s')"
    and "distinct (map cc_id r) \<Longrightarrow> cc_id c \<notin> ids r \<Longrightarrow> distinct (map cc_id r')"
  using assms role_covers [OF assms(1), of c]
  by (auto simp: PlaceByRole_def ids_def split: if_splits)

lemma distinct_Cons_ids:
  "distinct (map cc_id (c # cs)) \<longleftrightarrow> cc_id c \<notin> ids cs \<and> distinct (map cc_id cs)"
  by (simp add: ids_def)

lemma Remove_found: "snd (Remove cs cid) \<longleftrightarrow> cid \<in> ids cs"
  by (induction cs) (auto simp: Let_def split: prod.splits)

lemma Remove_ids:
  "distinct (map cc_id cs) \<Longrightarrow>
   ids (fst (Remove cs cid)) = ids cs - {cid} \<and> distinct (map cc_id (fst (Remove cs cid)))"
proof (induction cs)
  case (Cons c cs)
  have d: "cc_id c \<notin> ids cs" "distinct (map cc_id cs)"
    using Cons.prems unfolding distinct_Cons_ids by blast+
  note IH = Cons.IH [OF d(2)]
  show ?case
  proof (cases "cc_id c = cid")
    case True
    then show ?thesis using d by auto
  next
    case False
    obtain cs' r where r: "Remove cs cid = (cs', r)" by fastforce
    have "fst (Remove (c # cs) cid) = c # cs'" using False r by simp
    then show ?thesis
      using IH r False d(1) distinct_Cons_ids [of c cs'] by auto
  qed
qed simp

lemma Multiplexer_Create_ids:
  assumes "t1 \<le> t2"
  shows "mx_ids (Multiplexer_Create p a b x y (t0, t1, t2)) = {cp_client_id p}"
    and "mx_ok (Multiplexer_Create p a b x y (t0, t1, t2))"
proof -
  obtain s r where sr: "PlaceByRole t1 t2 (ClientConnection_Create p t0) ([], []) = (s, r)"
    by fastforce
  note h = PlaceByRole_ids [OF assms sr]
  show "mx_ids (Multiplexer_Create p a b x y (t0, t1, t2)) = {cp_client_id p}"
    using h(1) sr by (simp add: Multiplexer_Create_def mx_ids_def cc_id_def ClientConnection_Create_def)
  show "mx_ok (Multiplexer_Create p a b x y (t0, t1, t2))"
    using h(4,5) sr by (simp add: Multiplexer_Create_def mx_ok_def)
qed

lemma AddClientConnection_spec:
  assumes "t1 \<le> t2" "AddClientConnection p (t0, t1, t2) m = (added, m')"
  shows "added \<longleftrightarrow> cp_client_id p \<notin> mx_ids m"
    and "added \<Longrightarrow> mx_ids m' = insert (cp_client_id p) (mx_ids m)"
    and "\<not> added \<Longrightarrow> m' = m"
    and "mx_ok m \<Longrightarrow> mx_ok m'"
    and "mx_session_id m' = mx_session_id m" "mx_username m' = mx_username m"
    "mx_fake_ipv4 m' = mx_fake_ipv4 m" "mx_fake_ipv6 m' = mx_fake_ipv6 m"
proof -
  let ?c = "ClientConnection_Create p t0"
  obtain s r where sr: "PlaceByRole t1 t2 ?c (mx_sending m, mx_receiving m) = (s, r)"
    by fastforce
  have id: "cc_id ?c = cp_client_id p" by (simp add: cc_id_def ClientConnection_Create_def)
  note h = PlaceByRole_ids [OF assms(1) sr, unfolded id]
  have eq: "(added, m') = (if cp_client_id p \<in> mx_ids m then (False, m)
      else (True, m\<lparr>mx_sending := s, mx_receiving := r\<rparr>))"
    using assms(2) sr by (simp add: AddClientConnection_def mx_ids_def Let_def split: if_splits)
  then show "added \<longleftrightarrow> cp_client_id p \<notin> mx_ids m" "\<not> added \<Longrightarrow> m' = m"
    "mx_session_id m' = mx_session_id m" "mx_username m' = mx_username m"
    "mx_fake_ipv4 m' = mx_fake_ipv4 m" "mx_fake_ipv6 m' = mx_fake_ipv6 m"
    by (auto split: if_splits)
  show "added \<Longrightarrow> mx_ids m' = insert (cp_client_id p) (mx_ids m)"
    using eq h(1) by (auto simp: mx_ids_def split: if_splits)
  show "mx_ok m \<Longrightarrow> mx_ok m'"
    using eq h(4,5) by (auto simp: mx_ok_def mx_ids_def split: if_splits)
qed

lemma mx_Del_spec:
  assumes "mx_ok m" "mx_DelConnectionByClientId cid m = (r, m')"
  shows "r \<longleftrightarrow> cid \<in> mx_ids m" "mx_ids m' = mx_ids m - {cid}" "mx_ok m'"
    "mx_session_id m' = mx_session_id m" "mx_username m' = mx_username m"
    "mx_fake_ipv4 m' = mx_fake_ipv4 m" "mx_fake_ipv6 m' = mx_fake_ipv6 m"
proof -
  obtain s a where s: "Remove (mx_sending m) cid = (s, a)" by fastforce
  obtain t b where t: "Remove (mx_receiving m) cid = (t, b)" by fastforce
  have eq: "r = (a \<or> b)" "m' = m\<lparr>mx_sending := s, mx_receiving := t\<rparr>"
    using assms(2) s t by (simp_all add: mx_DelConnectionByClientId_def)
  have i: "ids s = ids (mx_sending m) - {cid}" "distinct (map cc_id s)" "a \<longleftrightarrow> cid \<in> ids (mx_sending m)"
    "ids t = ids (mx_receiving m) - {cid}" "distinct (map cc_id t)" "b \<longleftrightarrow> cid \<in> ids (mx_receiving m)"
    using assms(1) Remove_ids [of "mx_sending m" cid] Remove_ids [of "mx_receiving m" cid]
      Remove_found [of "mx_sending m" cid] Remove_found [of "mx_receiving m" cid]
    unfolding mx_ok_def s t by simp_all
  show "r \<longleftrightarrow> cid \<in> mx_ids m" "mx_ids m' = mx_ids m - {cid}" "mx_ok m'"
    "mx_session_id m' = mx_session_id m" "mx_username m' = mx_username m"
    "mx_fake_ipv4 m' = mx_fake_ipv4 m" "mx_fake_ipv6 m' = mx_fake_ipv6 m"
    unfolding eq using i by (auto simp: mx_ids_def mx_ok_def)
qed

lemma merge_connections_spec:
  assumes "distinct (map cc_id cs)"
  shows "ids (merge_connections cs r) = ids cs \<union> ids r \<and> distinct (map cc_id (merge_connections cs r))"
  using assms
proof (induction cs r rule: merge_connections.induct)
  case (2 cs c r)
  show ?case
  proof (cases "cc_id c \<in> ids cs")
    case True
    then show ?thesis using 2 by auto
  next
    case False
    then have "distinct (map cc_id (cs @ [c]))" using "2.prems" distinct_ids by blast
    then show ?thesis using 2 False by auto
  qed
qed simp

lemma resort_spec:
  assumes "mono clock" "resort clock k cs (s, r) ex = ((s', r'), ex')"
    and "distinct (map cc_id cs)" "distinct (map cc_id s)" "distinct (map cc_id r)" "distinct ex"
    and "ids cs \<inter> ids s = {}" "ids cs \<inter> ids r = {}" "ids cs \<inter> set ex = {}"
    and "set ex \<inter> (ids s \<union> ids r) = {}"
  shows "set ex' \<union> ids s' \<union> ids r' = set ex \<union> ids s \<union> ids r \<union> ids cs \<and>
         set ex' \<inter> (ids s' \<union> ids r') = {} \<and> distinct ex' \<and>
         distinct (map cc_id s') \<and> distinct (map cc_id r')"
  using assms(2-)
proof (induction cs arbitrary: k s r ex)
  case (Cons c cs)
  have c: "cc_id c \<notin> ids cs" "distinct (map cc_id cs)"
    using Cons.prems(2) by (auto simp: ids_def)
  show ?case
  proof (cases "IsExpired (clock k) c")
    case True
    then have *: "resort clock (k + 1) cs (s, r) (ex @ [cc_id c]) = ((s', r'), ex')"
      using Cons.prems(1) by simp
    show ?thesis
      using Cons.IH [OF * c(2)] Cons.prems c by auto
  next
    case False
    obtain s1 r1 where p: "PlaceByRole (clock (k + 1)) (clock (k + 2)) c (s, r) = (s1, r1)"
      by fastforce
    have le: "clock (k + 1) \<le> clock (k + 2)" using assms(1) by (simp add: monoD)
    note h = PlaceByRole_ids [OF le p]
    have *: "resort clock (k + 3) cs (s1, r1) ex = ((s', r'), ex')"
      using Cons.prems(1) False p by simp
    have "set ex' \<union> ids s' \<union> ids r' = set ex \<union> ids s1 \<union> ids r1 \<union> ids cs \<and>
         set ex' \<inter> (ids s' \<union> ids r') = {} \<and> distinct ex' \<and>
         distinct (map cc_id s') \<and> distinct (map cc_id r')"
      using Cons.prems c h by (intro Cons.IH [OF *]) auto
    then show ?thesis using h(1) by auto
  qed
qed simp

lemma mx_Update_spec:
  assumes "mx_ok m" "mono clock" "mx_UpdateConnectionsStatus clock m = (ex, m')"
  shows "set ex \<union> mx_ids m' = mx_ids m" "set ex \<inter> mx_ids m' = {}" "distinct ex" "mx_ok m'"
    "mx_session_id m' = mx_session_id m" "mx_username m' = mx_username m"
    "mx_fake_ipv4 m' = mx_fake_ipv4 m" "mx_fake_ipv6 m' = mx_fake_ipv6 m"
proof -
  let ?cs = "merge_connections (mx_sending m) (mx_receiving m)"
  obtain s r e where sr: "resort clock 0 ?cs ([], []) [] = ((s, r), e)"
    by (metis surj_pair)
  have d: "ids ?cs = mx_ids m" "distinct (map cc_id ?cs)"
    using merge_connections_spec [of "mx_sending m" "mx_receiving m"] assms(1)
    by (auto simp: mx_ok_def mx_ids_def)
  have eq: "ex = e" "m' = m\<lparr>mx_sending := s, mx_receiving := r\<rparr>"
    using assms(3) sr by (auto simp: mx_UpdateConnectionsStatus_def Let_def)
  have "set e \<union> ids s \<union> ids r = mx_ids m \<and> set e \<inter> (ids s \<union> ids r) = {} \<and> distinct e \<and>
      distinct (map cc_id s) \<and> distinct (map cc_id r)"
    using resort_spec [OF assms(2) sr d(2)] d(1) by simp
  then show "set ex \<union> mx_ids m' = mx_ids m" "set ex \<inter> mx_ids m' = {}" "distinct ex" "mx_ok m'"
    "mx_session_id m' = mx_session_id m" "mx_username m' = mx_username m"
    "mx_fake_ipv4 m' = mx_fake_ipv4 m" "mx_fake_ipv6 m' = mx_fake_ipv6 m"
    unfolding eq by (auto simp: mx_ids_def mx_ok_def)
qed

section \<open>Choosing a receiver and translating a packet\<close>

lemma NextReceiver_spec:
  assumes "parsed pkt" "mx_receiving m \<noteq> []"
  shows "\<exists>cid m'. NextReceiverClientId (Some pkt) m = Some (Some cid, m') \<and>
           cid \<in> ids (mx_receiving m) \<and> mx_receiving m' = mx_receiving m \<and>
           mx_sending m' = mx_sending m \<and> (IsTCP pkt \<or> IsUDP pkt \<longrightarrow> m' = m)"
proof -
  have n: "mx_receiving m ! (k mod length (mx_receiving m)) \<in> set (mx_receiving m)" for k
    using assms(2) by simp
  obtain p q where "GetTcpDstPort pkt = Some p" "GetUdpDstPort pkt = Some q"
    using ports_defined [OF assms(1)] by auto
  then show ?thesis
    using assms(2) n by (auto simp: NextReceiverClientId_def ids_def Let_def)
qed

lemma ComputeCalculateFields_sound:
  assumes "sound_ipv4 pkt"
  shows "\<exists>pkt'. ComputeCalculateFields pkt = Some pkt' \<and> sound_ipv4 pkt' \<and> sums_ok4 pkt' \<and>
           GetDstIPv4Address lib pkt' = GetDstIPv4Address lib pkt \<and>
           GetSrcIPv4Address lib pkt' = GetSrcIPv4Address lib pkt \<and>
           ClientId pkt' = ClientId pkt \<and> Size pkt' = Size pkt"
proof -
  let ?p = "pkt_data pkt"
  have s: "20 \<le> length ?p" "length ?p < 2147483648" "unat (?p ! 0) div 16 = 4" "20 \<le> ihl4 ?p"
    "ihl4 ?p \<le> length ?p"
    using assms by (auto simp: sound_ipv4_def IsIPv4_iff)
  let ?at = "ihl4 ?p + transport_field (?p ! 9)"
  obtain q where q: "RecalculateChecksums ?p (length ?p) = Some q" "header_ok4 q"
    "same_outside ({10, 11} \<union> {?at, ?at + 1}) ?p q"
    and ok: "?p ! 9 \<in> {1, 6, 17} \<and> transport_field (?p ! 9) + 2 \<le> length (segment4 ?p) \<longrightarrow>
             transport_ok4 q"
    using recalculate_ipv4_aux [OF s] by blast
  have dis: "({10, 11} \<union> {?at, ?at + 1}) \<inter> ({0..9} \<union> {12..19}) = {}" using s(4) by auto
  note h = same_outside_header4 [OF q(3) s(1) dis]
  have lq: "length q = length ?p" by (rule same_outside_length [OF q(3)])
  have slice: "take 4 (drop j q) = take 4 (drop j ?p)" if "j = 12 \<or> j = 16" for j
    by (rule same_outside_slice [OF q(3)]) (use s(4) that in auto)
  have ne: "q \<noteq> []" using lq s(1) by auto
  have v4: "IsIPv4 (pkt\<lparr>pkt_data := q\<rparr>)" "IsIPv4 pkt"
    using s(3) ne h(4) assms by (simp_all add: IsIPv4_iff sound_ipv4_def)
  have sound: "sound_ipv4 (pkt\<lparr>pkt_data := q\<rparr>)"
    using v4(1) s h(1) lq by (simp add: sound_ipv4_def)
  have sums: "sums_ok4 (pkt\<lparr>pkt_data := q\<rparr>)"
    using q(2) ok by (simp add: sums_ok4_def h Let_def)
  have "ComputeCalculateFields pkt = Some (pkt\<lparr>pkt_data := q\<rparr>)"
    using q(1) s(1) by (simp add: ComputeCalculateFields_def kMinIPv4_def)
  then show ?thesis
    using sound sums v4 lq s(1) slice [of 12] slice [of 16]
    by (simp add: GetDstIPv4Address_def GetSrcIPv4Address_def Ipv4GetDst_def Ipv4GetSrc_def
        memrd_def ClientId_def Size_def kMinIPv4_def)
qed

lemma SetClientId_simps [simp]:
  "pkt_data (SetClientId cid pkt) = pkt_data pkt" "ClientId (SetClientId cid pkt) = cid"
  "IsIPv4 (SetClientId cid pkt) \<longleftrightarrow> IsIPv4 pkt" "sound_ipv4 (SetClientId cid pkt) \<longleftrightarrow> sound_ipv4 pkt"
  "GetSrcIPv4Address lib (SetClientId cid pkt) = GetSrcIPv4Address lib pkt"
  "GetDstIPv4Address lib (SetClientId cid pkt) = GetDstIPv4Address lib pkt"
  by (simp_all add: SetClientId_def ClientId_def IsIPv4_def sound_ipv4_def GetSrcIPv4Address_def
      GetDstIPv4Address_def)

lemma ToClientIP_spec:
  assumes "netlib_ok lib" "sound_ipv4 pkt" "pkt_data pkt ! 8 \<noteq> 0" "\<not> mx_disable_checksum m"
    and "FindByClientId (mx_receiving m) cid = Some c"
  shows "\<exists>pkt'. ChangeIPAddressToClientIP lib m pkt cid = Some (Some pkt') \<and> ClientId pkt' = cid \<and>
           sound_ipv4 pkt' \<and> sums_ok4 pkt' \<and>
           map_option IPAddress_ToInt (GetDstIPv4Address lib pkt') =
             Some (IPAddress_ToInt (cp_client_tun_vpn_ipv4 (cc_params c))) \<and>
           GetSrcIPv4Address lib pkt' = GetSrcIPv4Address lib pkt"
proof -
  let ?pk = "SetClientId cid pkt"
  obtain p1 where p1: "SetDstIPv4Address (cp_client_tun_vpn_ipv4 (cc_params c)) ?pk = Some p1"
    "sound_ipv4 p1" "map_option IPAddress_ToInt (GetDstIPv4Address lib p1) =
       Some (IPAddress_ToInt (cp_client_tun_vpn_ipv4 (cc_params c)))"
    "GetSrcIPv4Address lib p1 = GetSrcIPv4Address lib pkt" "ClientId p1 = cid"
    using set_dst_ipv4_aux [OF assms(1), of ?pk "cp_client_tun_vpn_ipv4 (cc_params c)"] assms(2,3)
    by auto
  obtain p2 where "ComputeCalculateFields p1 = Some p2" "sound_ipv4 p2" "sums_ok4 p2"
    "GetDstIPv4Address lib p2 = GetDstIPv4Address lib p1"
    "GetSrcIPv4Address lib p2 = GetSrcIPv4Address lib p1" "ClientId p2 = ClientId p1"
    using ComputeCalculateFields_sound [OF p1(2), of lib] by auto
  moreover have "IsIPv4 pkt" using assms(2) by (simp add: sound_ipv4_def)
  ultimately show ?thesis
    using p1 assms(4,5) by (simp add: ChangeIPAddressToClientIP_def Let_def)
qed

lemma ToFakeIP_spec:
  assumes "netlib_ok lib" "sound_ipv4 pkt" "pkt_data pkt ! 8 \<noteq> 0" "\<not> mx_disable_checksum m"
  shows "\<exists>pkt'. ChangeIPAddressToFakeIP lib m pkt = Some pkt' \<and> ClientId pkt' = ClientId pkt \<and>
           sound_ipv4 pkt' \<and> sums_ok4 pkt' \<and>
           map_option IPAddress_ToInt (GetSrcIPv4Address lib pkt') =
             Some (IPAddress_ToInt (mx_fake_ipv4 m)) \<and>
           GetDstIPv4Address lib pkt' = GetDstIPv4Address lib pkt"
proof -
  obtain p1 where p1: "SetSrcIPv4Address (mx_fake_ipv4 m) pkt = Some p1"
    "sound_ipv4 p1" "map_option IPAddress_ToInt (GetSrcIPv4Address lib p1) =
       Some (IPAddress_ToInt (mx_fake_ipv4 m))"
    "GetDstIPv4Address lib p1 = GetDstIPv4Address lib pkt" "ClientId p1 = ClientId pkt"
    using set_src_ipv4_aux [OF assms(1-3), of "mx_fake_ipv4 m"] by blast
  obtain p2 where "ComputeCalculateFields p1 = Some p2" "sound_ipv4 p2" "sums_ok4 p2"
    "GetDstIPv4Address lib p2 = GetDstIPv4Address lib p1"
    "GetSrcIPv4Address lib p2 = GetSrcIPv4Address lib p1" "ClientId p2 = ClientId p1"
    using ComputeCalculateFields_sound [OF p1(2), of lib] by auto
  moreover have "IsIPv4 pkt" using assms(2) by (simp add: sound_ipv4_def)
  ultimately show ?thesis
    using p1 assms(4) by (simp add: ChangeIPAddressToFakeIP_def)
qed

section \<open>Properties\<close>

definition demo_conn :: "client_id \<Rightarrow> nat \<Rightarrow> nat \<Rightarrow> connect_params" where
  "demo_conn cid send ttl = \<lparr>cp_client_id = cid, cp_url = ''/fptn'', cp_jwt_auth_token = ''t'',
     cp_session_id = ''s'', cp_connection_weight = 1, cp_send_duration_ms = send, cp_ttl_ms = ttl,
     cp_client_ipv4 = IPAddress_empty, cp_client_tun_vpn_ipv4 = \<lparr>ip_str = ''10.0.0.9'', ip_impl = V4 0x0A000009\<rparr>,
     cp_client_tun_vpn_ipv6 = IPAddress_empty, cp_username = ''user'', cp_bandwidth_bites_seconds = 0\<rparr>"

definition demo_mx :: multiplexer where
  "demo_mx = snd (AddClientConnection (demo_conn 2 5 9) (0, 1, 2)
     (Multiplexer_Create (demo_conn 1 0 0) \<lparr>ip_str = ''10.1.0.9'', ip_impl = V4 0x0A010009\<rparr> IPAddress_empty
        (LeakyBucket_new 0 0) (LeakyBucket_new 0 0) (0, 0, 0)))"

lemma demo_mx_facts:
  "mx_ok demo_mx" "mx_ids demo_mx = {1, 2}" "mx_receiving demo_mx \<noteq> []" "\<not> mx_disable_checksum demo_mx"
  "FindByClientId (mx_receiving demo_mx) 1 = Some \<lparr>cc_params = demo_conn 1 0 0, cc_accepted_at = 0\<rparr>"
  "mx_fake_ipv4 demo_mx = \<lparr>ip_str = ''10.1.0.9'', ip_impl = V4 0x0A010009\<rparr>"
  by (auto simp: demo_mx_def demo_conn_def AddClientConnection_def Multiplexer_Create_def
      PlaceByRole_def ClientConnection_Create_def IsSending_def IsReceiving_def IsBidirectional_def
      cc_id_def ms_def mx_ok_def mx_ids_def FindByClientId_def)

text \<open>A status update loses no connection: with a clock that does not run backwards, every
  connection of the multiplexer is afterwards either in a bucket for its role or among the
  expired ids returned, never both and never in neither, and no bucket holds a client twice.\<close>

theorem mx_update_partitions:
  assumes "mx_ok m" and "mono clock" and "mx_UpdateConnectionsStatus clock m = (expired, m')"
  shows "set expired \<union> mx_ids m' = mx_ids m \<and> set expired \<inter> mx_ids m' = {} \<and>
         distinct expired \<and> mx_ok m'"
  using mx_Update_spec [OF assms] by blast

theorem mx_update_partitions_witness:
  "set (fst (mx_UpdateConnectionsStatus (\<lambda>k. 9000000 + int k) demo_mx)) \<union>
   mx_ids (snd (mx_UpdateConnectionsStatus (\<lambda>k. 9000000 + int k) demo_mx)) = {1, 2}"
proof -
  have "mono (\<lambda>k. 9000000 + int k)" by (simp add: mono_def)
  from mx_update_partitions [OF demo_mx_facts(1) this surjective_pairing] show ?thesis
    unfolding demo_mx_facts(2) by blast
qed

text \<open>Choosing the connection that carries a packet to the client: for every packet \<open>Parse\<close>
  accepts and a multiplexer with a receiving connection, \<open>NextReceiverClientId\<close> names one of the
  receiving connections; the choice for TCP and UDP changes no state, so all packets to one
  destination port use the same connection while the buckets stay the same.\<close>

theorem NextReceiver_valid:
  assumes "IPPacket_Parse buffer cid = Some pkt" and "mx_receiving m \<noteq> []"
  shows "\<exists>c m'. NextReceiverClientId (Some pkt) m = Some (Some c, m') \<and>
           c \<in> ids (mx_receiving m) \<and> mx_receiving m' = mx_receiving m \<and>
           mx_sending m' = mx_sending m \<and> (IsTCP pkt \<or> IsUDP pkt \<longrightarrow> m' = m)"
proof -
  have "parsed pkt" using assms(1) unfolding IPPacket_Parse_iff by (rule conjunct2)
  then show ?thesis using assms(2) by (rule NextReceiver_spec)
qed

theorem NextReceiver_valid_witness:
  "\<exists>c m'. NextReceiverClientId (Some demo_udp) demo_mx = Some (Some c, m')"
proof -
  have "IPPacket_Parse udp_packet 7 = Some demo_udp"
    using demo_udp_facts(3) by (simp add: IPPacket_Parse_iff demo_udp_def)
  from NextReceiver_valid [OF this demo_mx_facts(3)] show ?thesis by blast
qed

text \<open>Address translation in both directions: a packet to the client leaves with the client's own
  tunnel address as destination and the client's id, a packet from the client leaves with the
  session's fake address as source; the other address is untouched and all checksums verify.\<close>

theorem address_translation:
  assumes "netlib_ok lib" and "sound_ipv4 pkt" and "pkt_data pkt ! 8 \<noteq> 0"
    and "\<not> mx_disable_checksum m" and "FindByClientId (mx_receiving m) cid = Some c"
  shows "(\<exists>pkt'. ChangeIPAddressToClientIP lib m pkt cid = Some (Some pkt') \<and> ClientId pkt' = cid \<and>
            sound_ipv4 pkt' \<and> sums_ok4 pkt' \<and>
            map_option IPAddress_ToInt (GetDstIPv4Address lib pkt') =
              Some (IPAddress_ToInt (cp_client_tun_vpn_ipv4 (cc_params c))) \<and>
            GetSrcIPv4Address lib pkt' = GetSrcIPv4Address lib pkt) \<and>
         (\<exists>pkt'. ChangeIPAddressToFakeIP lib m pkt = Some pkt' \<and> ClientId pkt' = ClientId pkt \<and>
            sound_ipv4 pkt' \<and> sums_ok4 pkt' \<and>
            map_option IPAddress_ToInt (GetSrcIPv4Address lib pkt') =
              Some (IPAddress_ToInt (mx_fake_ipv4 m)) \<and>
            GetDstIPv4Address lib pkt' = GetDstIPv4Address lib pkt)"
  using ToClientIP_spec [OF assms] ToFakeIP_spec [OF assms(1-4)] by blast

theorem address_translation_witness:
  "\<exists>pkt'. ChangeIPAddressToClientIP demo_lib demo_mx demo_udp 1 = Some (Some pkt') \<and>
     map_option IPAddress_ToInt (GetDstIPv4Address demo_lib pkt') = Some 0x0A000009"
proof -
  have "pkt_data demo_udp ! 8 \<noteq> 0" by (simp add: demo_udp_facts)
  moreover have "IPAddress_ToInt (cp_client_tun_vpn_ipv4 (demo_conn 1 0 0)) = 0x0A000009"
    by (simp add: demo_conn_def IPAddress_ToInt_def)
  ultimately show ?thesis
    using address_translation [OF demo_lib_ok demo_udp_facts(1) _ demo_mx_facts(4,5)] by auto
qed

end
