(* ===== verification/Generators.thy ===== *)
theory Generators
  imports IpAddress
begin

text \<open>
  The address generators of \<open>src/common/network/ipv4_generator.h\<close> and \<open>ipv6_generator.h\<close> with the
  128-bit helpers of \<open>ipv6_utils.h\<close>. A constructor fails (\<open>Inl\<close>) when boost throws on the text of
  the network or when it shifts a 32-bit integer by 32 or more, which is undefined.
\<close>

section \<open>IPv4\<close>

datatype gen_error = BadAddress | UndefinedShift

record ipv4_generator =
  g4_ip :: u32
  g4_net_addr :: u32
  g4_netmask :: u32
  g4_broadcast :: u32
  g4_num_available :: u32

definition shl32 :: "u32 \<Rightarrow> u32 \<Rightarrow> u32 option" where
  "shl32 w n = (if unat n < 32 then Some (push_bit (unat n) w) else None)"

definition make_address_v4 :: "netlib \<Rightarrow> string \<Rightarrow> u32 option" where
  "make_address_v4 lib s = (case make_address lib s of Some (V4 w) \<Rightarrow> Some w | _ \<Rightarrow> None)"

definition make_address_v6 :: "netlib \<Rightarrow> string \<Rightarrow> u128 option" where
  "make_address_v6 lib s = (case make_address lib s of Some (V6 w) \<Rightarrow> Some w | _ \<Rightarrow> None)"

definition IPv4AddressGenerator :: "netlib \<Rightarrow> ip_address \<Rightarrow> u32 \<Rightarrow> gen_error + ipv4_generator" where
  "IPv4AddressGenerator lib net_address subnet_mask =
     (case make_address_v4 lib (ip_str net_address) of
        None \<Rightarrow> Inl BadAddress
      | Some w \<Rightarrow>
          (case (if subnet_mask = 0 then Some 0 else shl32 (NOT 0) (32 - subnet_mask)) of
             None \<Rightarrow> Inl UndefinedShift
           | Some netmask \<Rightarrow>
               let network_address = w AND netmask;
                   broadcast = network_address OR NOT netmask in
               (case shl32 1 (32 - subnet_mask) of
                  None \<Rightarrow> Inl UndefinedShift
                | Some sz \<Rightarrow>
                    Inr \<lparr>g4_ip = w, g4_net_addr = w, g4_netmask = netmask,
                         g4_broadcast = broadcast, g4_num_available = sz - 2\<rparr>)))"

definition g4_step :: "ipv4_generator \<Rightarrow> ipv4_generator" where
  "g4_step g =
     (let new_ip = g4_ip g + 1 in
      if new_ip < g4_broadcast g then g\<lparr>g4_ip := new_ip\<rparr>
      else g\<lparr>g4_ip := g4_net_addr g + 1\<rparr>)"

definition IPv4_GetNextAddress :: "netlib \<Rightarrow> ipv4_generator \<Rightarrow> ip_address \<times> ipv4_generator" where
  "IPv4_GetNextAddress lib g =
     (let g' = g4_step g in (IPv4Address_new lib (to_string lib (V4 (g4_ip g'))), g'))"

definition IPv4_NumAvailableAddresses :: "ipv4_generator \<Rightarrow> u32" where
  "IPv4_NumAvailableAddresses g = g4_num_available g"

section \<open>IPv6\<close>

definition toUInt128_v6 :: "u128 \<Rightarrow> u128" where
  "toUInt128_v6 a = foldl (\<lambda>result b. push_bit 8 result OR ucast b) 0 (be128_bytes a)"

definition toUInt128 :: "netlib \<Rightarrow> ip_address \<Rightarrow> u128 option" where
  "toUInt128 lib a = map_option toUInt128_v6 (make_address_v6 lib (ip_str a))"

definition halves_bytes :: "u128 \<Rightarrow> byte list" where
  "halves_bytes val =
     (let high = (ucast (drop_bit 64 val) :: u64);
          low = (ucast (val AND 0xFFFFFFFFFFFFFFFF) :: u64) in
      [ucast (drop_bit 56 high), ucast (drop_bit 48 high), ucast (drop_bit 40 high),
       ucast (drop_bit 32 high), ucast (drop_bit 24 high), ucast (drop_bit 16 high),
       ucast (drop_bit 8 high), ucast high,
       ucast (drop_bit 56 low), ucast (drop_bit 48 low), ucast (drop_bit 40 low),
       ucast (drop_bit 32 low), ucast (drop_bit 24 low), ucast (drop_bit 16 low),
       ucast (drop_bit 8 low), ucast low])"

definition ipv6_toString :: "netlib \<Rightarrow> u128 \<Rightarrow> string" where
  "ipv6_toString lib val = to_string lib (V6 (be128_of (halves_bytes val)))"

record ipv6_generator =
  g6_net_addr :: u128
  g6_max_addr :: u128
  g6_current_addr :: u128

definition IPv6AddressGenerator :: "netlib \<Rightarrow> ip_address \<Rightarrow> u32 \<Rightarrow> gen_error + ipv6_generator" where
  "IPv6AddressGenerator lib net_address subnet_mask =
     (case make_address_v6 lib (ip_str net_address) of
        None \<Rightarrow> Inl BadAddress
      | Some a \<Rightarrow>
          let net = toUInt128_v6 a in
          Inr \<lparr>g6_net_addr = net,
               g6_max_addr = net OR (push_bit (unat (128 - subnet_mask)) 1 - 1),
               g6_current_addr = net\<rparr>)"

definition g6_step :: "ipv6_generator \<Rightarrow> ipv6_generator" where
  "g6_step g =
     (let new_ip = g6_current_addr g + 1 in
      if new_ip < g6_max_addr g then g\<lparr>g6_current_addr := new_ip\<rparr>
      else g\<lparr>g6_current_addr := g6_net_addr g + 1\<rparr>)"

definition IPv6_GetNextAddress :: "netlib \<Rightarrow> ipv6_generator \<Rightarrow> ip_address \<times> ipv6_generator" where
  "IPv6_GetNextAddress lib g =
     (let g' = g6_step g in (IPv6Address_new lib (ipv6_toString lib (g6_current_addr g')), g'))"

definition IPv6_NumAvailableAddresses :: "ipv6_generator \<Rightarrow> u128" where
  "IPv6_NumAvailableAddresses g = g6_max_addr g - g6_net_addr g - 1"

section \<open>Drawing addresses\<close>

fun take4 :: "netlib \<Rightarrow> nat \<Rightarrow> ipv4_generator \<Rightarrow> ip_address list \<times> ipv4_generator" where
  "take4 lib 0 g = ([], g)"
| "take4 lib (Suc n) g =
     (let (a, g') = IPv4_GetNextAddress lib g; (as, g'') = take4 lib n g' in (a # as, g''))"

fun take6 :: "netlib \<Rightarrow> nat \<Rightarrow> ipv6_generator \<Rightarrow> ip_address list \<times> ipv6_generator" where
  "take6 lib 0 g = ([], g)"
| "take6 lib (Suc n) g =
     (let (a, g') = IPv6_GetNextAddress lib g; (as, g'') = take6 lib n g' in (a # as, g''))"

definition v4_at :: "netlib \<Rightarrow> u32 \<Rightarrow> ip_address" where
  "v4_at lib w = \<lparr>ip_str = to_string lib (V4 w), ip_impl = V4 w\<rparr>"

definition v6_at :: "netlib \<Rightarrow> u128 \<Rightarrow> ip_address" where
  "v6_at lib w = \<lparr>ip_str = to_string lib (V6 w), ip_impl = V6 w\<rparr>"

lemma IPv4Address_new_print: "netlib_ok lib \<Longrightarrow> IPv4Address_new lib (to_string lib (V4 w)) = v4_at lib w"
  unfolding v4_at_def by (rule IPv4Address_new_parsed) (auto intro: netlib_okD)

lemma halves_bytes_eq: "halves_bytes val = be128_bytes val"
proof -
  have "rev [0..<16] = [15, 14, 13, 12, 11, 10, 9, 8, 7, 6, 5, 4, 3, 2, 1, 0 :: nat]"
    by (simp add: upt_conv_Cons)
  moreover have high: "(ucast (drop_bit k (ucast (drop_bit 64 val) :: u64)) :: byte) =
      ucast (drop_bit (k + 64) val)" if "k + 8 \<le> 64" for k
    by (rule bit_word_eqI) (use that in \<open>auto simp: bit_simps algebra_simps\<close>)
  moreover have low: "(ucast (drop_bit k (ucast (val AND 0xFFFFFFFFFFFFFFFF) :: u64)) :: byte) =
      ucast (drop_bit k val)" if "k + 8 \<le> 64" for k
  proof -
    have "val AND 0xFFFFFFFFFFFFFFFF = take_bit 64 val"
      by (simp only: take_bit_eq_mask) (simp add: mask_eq_exp_minus_1)
    then show ?thesis
      by (intro bit_word_eqI) (use that in \<open>auto simp: bit_simps algebra_simps\<close>)
  qed
  ultimately show ?thesis
    using high [of 0] low [of 0] unfolding halves_bytes_def be128_bytes_def Let_def
    by (simp add: high low del: ucast_drop_bit_eq)
qed

lemma toUInt128_v6_id [simp]: "toUInt128_v6 a = a"
  using be128_of_bytes [of a] by (simp add: toUInt128_v6_def be128_of_def)

lemma ipv6_toString_eq: "ipv6_toString lib w = to_string lib (V6 w)"
  by (simp add: ipv6_toString_def halves_bytes_eq)

lemma IPv6Address_new_print: "netlib_ok lib \<Longrightarrow> IPv6Address_new lib (ipv6_toString lib w) = v6_at lib w"
  unfolding v6_at_def ipv6_toString_eq by (rule IPv6Address_new_parsed) (auto intro: netlib_okD)

lemma unat_Suc_less: "unat a + 1 < unat b \<Longrightarrow> unat (a + 1) = unat a + 1" for a b :: "'a::len word"
proof -
  assume a: "unat a + 1 < unat b"
  have "unat a + 1 < 2 ^ LENGTH('a)" by (rule order.strict_trans [OF a unsigned_less])
  then show ?thesis by (simp add: unat_word_ariths)
qed

lemma g4_step_next:
  assumes "unat (g4_ip g) + 1 < unat (g4_broadcast g)"
  shows "g4_step g = g\<lparr>g4_ip := g4_ip g + 1\<rparr>"
  using assms unat_Suc_less [OF assms] by (simp add: g4_step_def Let_def word_less_nat_alt)

lemma g6_step_next:
  assumes "unat (g6_current_addr g) + 1 < unat (g6_max_addr g)"
  shows "g6_step g = g\<lparr>g6_current_addr := g6_current_addr g + 1\<rparr>"
  using assms unat_Suc_less [OF assms] by (simp add: g6_step_def Let_def word_less_nat_alt)

lemma take4_eq:
  assumes "netlib_ok lib" "unat (g4_ip g) + n < unat (g4_broadcast g)"
  shows "take4 lib n g = (map (\<lambda>i. v4_at lib (g4_ip g + 1 + word_of_nat i)) [0..<n],
                          g\<lparr>g4_ip := g4_ip g + word_of_nat n\<rparr>)"
  using assms(2)
proof (induction n arbitrary: g)
  case (Suc n)
  have s: "g4_step g = g\<lparr>g4_ip := g4_ip g + 1\<rparr>" using Suc.prems by (intro g4_step_next) simp
  have u: "unat (g4_ip g + 1) = unat (g4_ip g) + 1"
    using Suc.prems by (intro unat_Suc_less [of _ "g4_broadcast g"]) simp
  have "take4 lib n (g\<lparr>g4_ip := g4_ip g + 1\<rparr>) =
      (map (\<lambda>i. v4_at lib (g4_ip g + 1 + 1 + word_of_nat i)) [0..<n],
       g\<lparr>g4_ip := g4_ip g + 1 + word_of_nat n\<rparr>)"
    using Suc.IH [of "g\<lparr>g4_ip := g4_ip g + 1\<rparr>"] Suc.prems u by simp
  moreover have "[0..<Suc n] = 0 # map Suc [0..<n]" by (simp add: map_Suc_upt upt_conv_Cons)
  ultimately show ?case
    using IPv4Address_new_print [OF assms(1)]
    by (simp add: IPv4_GetNextAddress_def Let_def s comp_def algebra_simps)
qed simp

lemma take6_eq:
  assumes "netlib_ok lib" "unat (g6_current_addr g) + n < unat (g6_max_addr g)"
  shows "take6 lib n g = (map (\<lambda>i. v6_at lib (g6_current_addr g + 1 + word_of_nat i)) [0..<n],
                          g\<lparr>g6_current_addr := g6_current_addr g + word_of_nat n\<rparr>)"
  using assms(2)
proof (induction n arbitrary: g)
  case (Suc n)
  have s: "g6_step g = g\<lparr>g6_current_addr := g6_current_addr g + 1\<rparr>"
    using Suc.prems by (intro g6_step_next) simp
  have u: "unat (g6_current_addr g + 1) = unat (g6_current_addr g) + 1"
    using Suc.prems by (intro unat_Suc_less [of _ "g6_max_addr g"]) simp
  have "take6 lib n (g\<lparr>g6_current_addr := g6_current_addr g + 1\<rparr>) =
      (map (\<lambda>i. v6_at lib (g6_current_addr g + 1 + 1 + word_of_nat i)) [0..<n],
       g\<lparr>g6_current_addr := g6_current_addr g + 1 + word_of_nat n\<rparr>)"
    using Suc.IH [of "g\<lparr>g6_current_addr := g6_current_addr g + 1\<rparr>"] Suc.prems u by simp
  moreover have "[0..<Suc n] = 0 # map Suc [0..<n]" by (simp add: map_Suc_upt upt_conv_Cons)
  ultimately show ?case
    using IPv6Address_new_print [OF assms(1)]
    by (simp add: IPv6_GetNextAddress_def Let_def s comp_def algebra_simps)
qed simp

section \<open>Aligned networks\<close>

lemma unat_two_power:
  assumes "k < LENGTH('a)"
  shows "unat (2 ^ k :: 'a::len word) = 2 ^ k"
proof -
  have "(2 ^ k :: 'a word) = word_of_nat (2 ^ k)" by simp
  moreover have "(2 :: nat) ^ k < 2 ^ LENGTH('a)" using assms by simp
  ultimately show ?thesis by (simp only: unat_of_nat mod_less)
qed

lemma unat_mask_word:
  assumes "k < LENGTH('a)"
  shows "unat (mask k :: 'a::len word) = 2 ^ k - 1"
proof -
  have "(1 :: 'a word) \<le> 2 ^ k" using unat_two_power [OF assms] by (simp add: word_le_nat_alt)
  then show ?thesis
    using unat_two_power [OF assms] by (simp add: mask_eq_exp_minus_1 unat_sub)
qed

lemma or_mask_aligned:
  fixes w :: "'a::len word"
  assumes "take_bit k w = 0" "k < LENGTH('a)"
  shows "unat (w OR mask k) = unat w + (2 ^ k - 1)"
proof -
  have "w AND mask k = 0" using assms(1) by (simp add: take_bit_eq_mask)
  then have "w OR mask k = w + mask k" by (simp add: disjunctive_add_eq_or)
  moreover have m: "unat (mask k :: 'a word) = 2 ^ k - 1"
    using assms(2) by (rule unat_mask_word)
  moreover have "unat w + (2 ^ k - 1) < 2 ^ LENGTH('a)"
  proof -
    have "unat (take_bit k w) = unat w mod 2 ^ k" using assms(2) by (intro unat_take_bit) simp
    then have z: "unat w mod 2 ^ k = 0" unfolding assms(1) by simp
    have "unat w div 2 ^ k < 2 ^ (LENGTH('a) - k)"
      using unsigned_less [of w, where ?'a = nat] assms(2)
      by (simp add: less_mult_imp_div_less power_add [symmetric])
    then have "unat w div 2 ^ k + 1 \<le> 2 ^ (LENGTH('a) - k)" by simp
    then have "(unat w div 2 ^ k + 1) * 2 ^ k \<le> 2 ^ (LENGTH('a) - k) * 2 ^ k"
      by (rule mult_le_mono1)
    moreover have "2 ^ (LENGTH('a) - k) * 2 ^ k = (2 :: nat) ^ LENGTH('a)"
      using assms(2) by (simp add: power_add [symmetric])
    moreover have "unat w div 2 ^ k * 2 ^ k = unat w"
      using z by (metis add.right_neutral div_mult_mod_eq)
    ultimately have "unat w + 2 ^ k \<le> 2 ^ LENGTH('a)" by (simp add: distrib_right)
    moreover have "(1 :: nat) \<le> 2 ^ k" by simp
    ultimately show ?thesis by linarith
  qed
  ultimately show ?thesis by (simp add: unat_word_ariths)
qed

text \<open>The network address has no host bits.\<close>

definition aligned4 :: "u32 \<Rightarrow> nat \<Rightarrow> bool" where
  "aligned4 w bits \<longleftrightarrow> take_bit (32 - bits) w = 0"

definition aligned6 :: "u128 \<Rightarrow> nat \<Rightarrow> bool" where
  "aligned6 w bits \<longleftrightarrow> take_bit (128 - bits) w = 0"

lemma IPv4AddressGenerator_aligned:
  assumes "make_address_v4 lib (ip_str a) = Some w" "1 \<le> bits" "bits \<le> 30" "aligned4 w bits"
  shows "\<exists>g. IPv4AddressGenerator lib a (word_of_nat bits) = Inr g \<and> g4_ip g = w \<and>
             g4_net_addr g = w \<and> unat (g4_num_available g) = 2 ^ (32 - bits) - 2 \<and>
             unat (g4_broadcast g) = unat w + 2 ^ (32 - bits) - 1"
proof -
  let ?k = "32 - bits"
  have k: "2 \<le> ?k" "?k < 32" using assms(2,3) by auto
  have ub: "unat (word_of_nat bits :: u32) = bits" using assms(3) by (simp add: unat_of_nat)
  have u: "unat (32 - word_of_nat bits :: u32) = ?k"
  proof -
    have "word_of_nat bits \<le> (32 :: u32)" using assms(3) ub by (simp add: word_le_nat_alt)
    then show ?thesis using ub by (simp add: unat_sub)
  qed
  have nz: "(word_of_nat bits :: u32) \<noteq> 0" using assms(2) ub by (metis not_one_le_zero unat_0)
  have nm: "push_bit ?k (NOT (0 :: u32)) = NOT (mask ?k)"
    by (rule bit_word_eqI) (auto simp: bit_simps)
  have an: "w AND NOT (mask ?k) = w"
  proof (rule bit_word_eqI)
    fix n assume "n < LENGTH(32)"
    have "bit (take_bit ?k w) n = False" using assms(4) by (simp add: aligned4_def)
    then show "bit (w AND NOT (mask ?k)) n = bit w n"
      by (auto simp: bit_simps dest: bit_imp_le_length)
  qed
  have "unat (push_bit ?k (1 :: u32) - 2) = 2 ^ ?k - 2"
  proof -
    have p: "unat (push_bit ?k (1 :: u32)) = 2 ^ ?k"
      using k unat_two_power [of ?k, where ?'a = 32] by (simp add: push_bit_eq_mult)
    moreover have "(2 :: nat) ^ 2 \<le> 2 ^ ?k" using k(1) by (intro power_increasing) simp_all
    ultimately have "(2 :: u32) \<le> push_bit ?k 1" by (simp add: word_le_nat_alt)
    then show ?thesis using p by (simp add: unat_sub)
  qed
  moreover have "unat (w OR mask ?k) = unat w + 2 ^ ?k - 1"
    using or_mask_aligned [of ?k w] assms(4) k by (simp add: aligned4_def)
  ultimately show ?thesis
    using assms(1) nz u k nm an
    by (simp add: IPv4AddressGenerator_def shl32_def Let_def del: push_bit_minus_one)
qed

lemma IPv6AddressGenerator_aligned:
  assumes "make_address_v6 lib (ip_str a) = Some w" "1 \<le> bits" "bits \<le> 126" "aligned6 w bits"
  shows "\<exists>g. IPv6AddressGenerator lib a (word_of_nat bits) = Inr g \<and> g6_current_addr g = w \<and>
             g6_net_addr g = w \<and> unat (g6_max_addr g) = unat w + 2 ^ (128 - bits) - 1 \<and>
             unat (IPv6_NumAvailableAddresses g) = 2 ^ (128 - bits) - 2"
proof -
  let ?k = "128 - bits" and ?max = "w OR (push_bit (128 - bits) 1 - 1)"
  have k: "2 \<le> ?k" "?k < 128" using assms(2,3) by auto
  have ub: "unat (word_of_nat bits :: u32) = bits" using assms(3) by (simp add: unat_of_nat)
  have u: "unat (128 - word_of_nat bits :: u32) = ?k"
  proof -
    have "word_of_nat bits \<le> (128 :: u32)" using assms(3) ub by (simp add: word_le_nat_alt)
    then show ?thesis using ub by (simp add: unat_sub)
  qed
  have "push_bit ?k 1 - 1 = (mask ?k :: u128)" by (simp add: mask_eq_exp_minus_1 push_bit_eq_mult)
  then have m: "unat ?max = unat w + (2 ^ ?k - 1)"
    using or_mask_aligned [of ?k w] assms(4) k by (simp add: aligned6_def)
  have p: "(4 :: nat) \<le> 2 ^ ?k"
    using k(1) power_increasing [of 2 ?k "2 :: nat"] by simp
  have le: "w \<le> ?max" unfolding word_le_nat_alt m using p by linarith
  have d: "unat (?max - w) = 2 ^ ?k - 1" using le m by (simp add: unat_sub)
  have one: "(1 :: u128) \<le> ?max - w" unfolding word_le_nat_alt d using p by simp
  have "unat (?max - w - 1) = 2 ^ ?k - 2" unfolding unat_sub [OF one] d using p by simp
  moreover have "unat w + (2 ^ ?k - 1) = unat w + 2 ^ ?k - 1" using p by simp
  ultimately show ?thesis
    using assms(1) u m
    by (simp add: IPv6AddressGenerator_def IPv6_NumAvailableAddresses_def Let_def)
qed

lemma v4_at_inj: "netlib_ok lib \<Longrightarrow> inj (v4_at lib)"
  by (auto simp: inj_def v4_at_def)

lemma v6_at_inj: "netlib_ok lib \<Longrightarrow> inj (v6_at lib)"
  by (auto simp: inj_def v6_at_def)

lemma word_offset_inj:
  "n \<le> 2 ^ LENGTH('a) \<Longrightarrow> inj_on (\<lambda>i. (w :: 'a::len word) + 1 + word_of_nat i) {0..<n}"
  by (rule inj_onI) (auto simp: word_of_nat_eq_iff take_bit_nat_eq_self)

section \<open>Properties\<close>

text \<open>On an aligned IPv4 network of prefix length 1 to 30 the generator hands out all of
  \<open>NumAvailableAddresses\<close> host addresses, in order and without repetition, every one strictly
  between the network and the broadcast address; the next draw starts over.\<close>

theorem IPv4AddressGenerator_enumerates:
  assumes "netlib_ok lib" and "make_address_v4 lib (ip_str a) = Some w"
    and "1 \<le> bits" and "bits \<le> 30" and "aligned4 w bits"
  shows "\<exists>g g'. IPv4AddressGenerator lib a (word_of_nat bits) = Inr g \<and>
           (let n = unat (IPv4_NumAvailableAddresses g);
                l = map (\<lambda>i. v4_at lib (w + 1 + word_of_nat i)) [0..<n] in
            n = 2 ^ (32 - bits) - 2 \<and> take4 lib n g = (l, g') \<and> distinct l \<and>
            (\<forall>x \<in> set l. unat w < unat (IPAddress_ToInt x) \<and>
                          unat (IPAddress_ToInt x) < unat (g4_broadcast g)) \<and>
            fst (IPv4_GetNextAddress lib g') = v4_at lib (w + 1))"
proof -
  obtain g where g: "IPv4AddressGenerator lib a (word_of_nat bits) = Inr g" "g4_ip g = w"
    "g4_net_addr g = w" "unat (g4_num_available g) = 2 ^ (32 - bits) - 2"
    "unat (g4_broadcast g) = unat w + 2 ^ (32 - bits) - 1"
    using IPv4AddressGenerator_aligned [OF assms(2-5)] by blast
  define n :: nat where "n = 2 ^ (32 - bits) - 2"
  let ?l = "map (\<lambda>i. v4_at lib (w + 1 + word_of_nat i)) [0..<n]"
  have p: "(4 :: nat) \<le> 2 ^ (32 - bits)"
    using assms(4) power_increasing [of 2 "32 - bits" "2 :: nat"] by simp
  have b: "unat w + n + 1 = unat (g4_broadcast g)" using g(5) p unfolding n_def by simp
  have lim: "unat (g4_broadcast g) < 4294967296" by (rule unat_u32_less)
  have t: "take4 lib n g = (?l, g\<lparr>g4_ip := w + word_of_nat n\<rparr>)"
    using take4_eq [OF assms(1), of g n] b g(2) by simp
  have u: "unat (w + 1 + word_of_nat i) = unat w + 1 + i" if "i < n" for i
  proof -
    have "unat w + 1 + i < 4294967296" using that b lim by linarith
    then show ?thesis by (simp add: unat_word_ariths unat_of_nat mod_simps)
  qed
  have "inj_on (\<lambda>i. w + 1 + word_of_nat i) {0..<n}"
  proof (rule word_offset_inj)
    have "n \<le> 4294967296" using b lim by linarith
    then show "n \<le> 2 ^ LENGTH(32)" by simp
  qed
  then have "inj_on (\<lambda>i. v4_at lib (w + 1 + word_of_nat i)) {0..<n}"
    using comp_inj_on [OF _ inj_on_subset [OF v4_at_inj [OF assms(1)] subset_UNIV]]
    by (simp add: comp_def)
  then have "distinct ?l" by (simp add: distinct_map)
  moreover have "\<forall>x \<in> set ?l. unat w < unat (IPAddress_ToInt x) \<and>
      unat (IPAddress_ToInt x) < unat (g4_broadcast g)"
    using u b by (auto simp: v4_at_def IPAddress_ToInt_def)
  moreover have "fst (IPv4_GetNextAddress lib (g\<lparr>g4_ip := w + word_of_nat n\<rparr>)) = v4_at lib (w + 1)"
  proof -
    have "unat (w + word_of_nat n + 1) = unat (g4_broadcast g)"
    proof -
      have "unat w + n + 1 < 4294967296" using b lim by linarith
      then show ?thesis using b by (simp add: unat_word_ariths unat_of_nat mod_simps)
    qed
    then have "g4_step (g\<lparr>g4_ip := w + word_of_nat n\<rparr>) = g\<lparr>g4_ip := w + 1\<rparr>"
      using g(3) by (simp add: g4_step_def word_less_nat_alt Let_def)
    then show ?thesis
      using IPv4Address_new_print [OF assms(1)] by (simp add: IPv4_GetNextAddress_def Let_def)
  qed
  ultimately show ?thesis
    using g t by (intro exI [of _ g] exI [of _ "g\<lparr>g4_ip := w + word_of_nat n\<rparr>"])
      (simp add: IPv4_NumAvailableAddresses_def n_def Let_def)
qed

definition demo_net4 :: ip_address where
  "demo_net4 = v4_at demo_lib 0x0A0A0000"

definition demo_net6 :: ip_address where
  "demo_net6 = v6_at demo_lib 0xFD000000000000000000000000000000"

lemma demo_net_facts:
  "make_address_v4 demo_lib (ip_str demo_net4) = Some 0x0A0A0000" "aligned4 0x0A0A0000 29"
  "make_address_v6 demo_lib (ip_str demo_net6) = Some 0xFD000000000000000000000000000000"
  "aligned6 0xFD000000000000000000000000000000 125"
  using netlib_okD(1) [OF demo_lib_ok]
  by (simp_all add: demo_net4_def demo_net6_def v4_at_def v6_at_def make_address_v4_def
      make_address_v6_def aligned4_def aligned6_def)

theorem IPv4AddressGenerator_enumerates_witness:
  "\<exists>g g'. IPv4AddressGenerator demo_lib demo_net4 29 = Inr g \<and>
     take4 demo_lib 6 g = (map (\<lambda>i. v4_at demo_lib (0x0A0A0001 + word_of_nat i)) [0..<6], g')"
proof -
  have "(1 :: nat) \<le> 29" "(29 :: nat) \<le> 30" by simp_all
  from IPv4AddressGenerator_enumerates [OF demo_lib_ok demo_net_facts(1) this demo_net_facts(2)]
  obtain g g' where h: "IPv4AddressGenerator demo_lib demo_net4 (word_of_nat 29) = Inr g"
    "let n = unat (IPv4_NumAvailableAddresses g);
         l = map (\<lambda>i. v4_at demo_lib (0x0A0A0000 + 1 + word_of_nat i)) [0..<n] in
     n = 2 ^ (32 - 29) - 2 \<and> take4 demo_lib n g = (l, g') \<and> distinct l \<and>
     (\<forall>x \<in> set l. unat (0x0A0A0000 :: u32) < unat (IPAddress_ToInt x) \<and>
                  unat (IPAddress_ToInt x) < unat (g4_broadcast g)) \<and>
     fst (IPv4_GetNextAddress demo_lib g') = v4_at demo_lib (0x0A0A0000 + 1)" by blast
  have n: "unat (IPv4_NumAvailableAddresses g) = 6" using h(2) by (simp add: Let_def)
  have "take4 demo_lib 6 g = (map (\<lambda>i. v4_at demo_lib (0x0A0A0000 + 1 + word_of_nat i)) [0..<6], g')"
    using h(2) unfolding n Let_def by (elim conjE)
  then show ?thesis using h(1) by auto
qed

end
