(* ===== verification/Containers.thy ===== *)
theory Containers
  imports Prelude
begin

text \<open>
  The standard containers the program keeps its state in. A \<open>std::unordered_map\<close> is an
  association list without repeated keys: \<open>insert\<close> leaves an existing entry alone, \<open>erase\<close>
  removes the entry of a key, and the order in which an iteration visits the entries is the order
  of the list, about which nothing is assumed. The locale states the contract the components
  rely on; it is interpreted on the association lists.
\<close>

section \<open>Contract\<close>

locale key_map =
  fixes find :: "'m \<Rightarrow> 'k \<Rightarrow> 'v option"
    and insert_new :: "'k \<Rightarrow> 'v \<Rightarrow> 'm \<Rightarrow> 'm"
    and erase :: "'k \<Rightarrow> 'm \<Rightarrow> 'm"
    and entries :: "'m \<Rightarrow> ('k \<times> 'v) list"
    and ok :: "'m \<Rightarrow> bool"
  assumes find_insert: "find (insert_new k v m) j =
      (if j = k \<and> find m k = None then Some v else find m j)"
    and find_erase: "ok m \<Longrightarrow> find (erase k m) j = (if j = k then None else find m j)"
    and entries_find: "ok m \<Longrightarrow> (k, v) \<in> set (entries m) \<longleftrightarrow> find m k = Some v"
    and distinct_entries: "ok m \<Longrightarrow> distinct (map fst (entries m))"
    and ok_insert: "ok m \<Longrightarrow> ok (insert_new k v m)"
    and ok_erase: "ok m \<Longrightarrow> ok (erase k m)"
begin

lemma find_insert_new: "find m k = None \<Longrightarrow> find (insert_new k v m) k = Some v"
  by (simp add: find_insert)

lemma insert_keeps: "find m j = Some w \<Longrightarrow> find (insert_new k v m) j = Some w"
  by (auto simp: find_insert)

lemma insert_then_erase:
  "ok m \<Longrightarrow> find m k = None \<Longrightarrow> find (erase k (insert_new k v m)) j = find m j"
  by (simp add: find_erase find_insert ok_insert)

lemma erase_absent: "ok m \<Longrightarrow> find m k = None \<Longrightarrow> find (erase k m) j = find m j"
  by (simp add: find_erase)

lemma find_erase_Some: "ok m \<Longrightarrow> find (erase k m) j = Some v \<longleftrightarrow> j \<noteq> k \<and> find m j = Some v"
  by (simp add: find_erase)

lemma length_entries: "ok m \<Longrightarrow> length (entries m) = card {k. find m k \<noteq> None}"
proof -
  assume o: "ok m"
  have "{k. find m k \<noteq> None} = set (map fst (entries m))"
    using entries_find [OF o] by force
  then show ?thesis
    using distinct_card [OF distinct_entries [OF o]] by simp
qed

end

section \<open>Association lists\<close>

type_synonym ('k, 'v) umap = "('k \<times> 'v) list"

definition um_insert :: "'k \<Rightarrow> 'v \<Rightarrow> ('k, 'v) umap \<Rightarrow> ('k, 'v) umap" where
  "um_insert k v m = (case map_of m k of None \<Rightarrow> m @ [(k, v)] | Some _ \<Rightarrow> m)"

definition um_erase :: "'k \<Rightarrow> ('k, 'v) umap \<Rightarrow> ('k, 'v) umap" where
  "um_erase k m = filter (\<lambda>e. fst e \<noteq> k) m"

definition um_ok :: "('k, 'v) umap \<Rightarrow> bool" where
  "um_ok m \<longleftrightarrow> distinct (map fst m)"

text \<open>\<open>operator[]\<close> assignment, which overwrites.\<close>

fun um_set :: "'k \<Rightarrow> 'v \<Rightarrow> ('k, 'v) umap \<Rightarrow> ('k, 'v) umap" where
  "um_set k v [] = [(k, v)]"
| "um_set k v (e # m) = (if fst e = k then (k, v) # m else e # um_set k v m)"

lemma map_of_um_erase: "map_of (um_erase k m) j = (if j = k then None else map_of m j)"
  by (induction m) (auto simp: um_erase_def)

lemma map_of_um_set: "map_of (um_set k v m) j = (if j = k then Some v else map_of m j)"
  by (induction m) auto

lemma keys_um_set: "fst ` set (um_set k v m) = insert k (fst ` set m)"
  by (induction m) auto

lemma um_ok_set: "um_ok m \<Longrightarrow> um_ok (um_set k v m)"
proof (induction m)
  case (Cons e m)
  then show ?case
    using keys_um_set [of k v m] by (auto simp: um_ok_def)
qed (simp add: um_ok_def)

interpretation um: key_map map_of um_insert um_erase "\<lambda>m. m" um_ok
proof
  fix m :: "('k \<times> 'v) list" and k j :: 'k and v :: 'v
  show "map_of (um_insert k v m) j = (if j = k \<and> map_of m k = None then Some v else map_of m j)"
    by (auto simp: um_insert_def map_add_def split: option.splits)
  show "um_ok m \<Longrightarrow> map_of (um_erase k m) j = (if j = k then None else map_of m j)"
    by (simp add: map_of_um_erase)
  show "um_ok m \<Longrightarrow> (k, v) \<in> set m \<longleftrightarrow> map_of m k = Some v"
    by (simp add: um_ok_def)
  show "um_ok m \<Longrightarrow> distinct (map fst m)" by (simp add: um_ok_def)
  show "um_ok m \<Longrightarrow> um_ok (um_insert k v m)"
    by (auto simp: um_ok_def um_insert_def map_of_eq_None_iff split: option.splits)
  show "um_ok m \<Longrightarrow> um_ok (um_erase k m)"
    by (simp add: um_ok_def um_erase_def distinct_map_filter)
qed

lemma um_ok_Nil [simp]: "um_ok []"
  by (simp add: um_ok_def)

end
