(* ===== verification/NatTable.thy ===== *)
theory NatTable
  imports Multiplexer Generators Containers "HOL-Library.Multiset"
begin

text \<open>
  The NAT table of \<open>src/fptn-server/nat/table.cpp\<close>. Multiplexers are shared by the maps of the
  table, so they live in a store and the maps hold their identities; comparing two pointers is
  comparing identities. Every method is one step under the table mutex, except
  \<open>UpdateConnectionsStatus\<close>, which scans the sessions under the shared lock, gives it up, and
  releases what it found under the exclusive lock: it is two steps, and any other step may come
  between them.
\<close>

section \<open>Definitions\<close>

record table_config =
  tun_ipv4 :: ip_address
  tun_ipv4_network :: ip_address
  tun_network_ipv4_mask :: u32
  tun_ipv6 :: ip_address
  tun_ipv6_network :: ip_address
  tun_network_ipv6_mask :: u32

record table =
  tb_free_ipv4 :: "ip_address list"
  tb_free_ipv6 :: "ip_address list"
  tb_session :: "(string, nat) umap"
  tb_ipv4 :: "(u32, nat) umap"
  tb_ipv6 :: "(string, nat) umap"
  tb_client :: "(client_id, nat) umap"
  tb_store :: "nat \<Rightarrow> multiplexer option"
  tb_next :: nat

definition table_capacity :: "ipv4_generator \<Rightarrow> ipv6_generator \<Rightarrow> nat" where
  "table_capacity g4 g6 =
     (let ipv4_available = IPv4_NumAvailableAddresses g4;
          ipv6_available = IPv6_NumAvailableAddresses g6 in
      if ucast ipv4_available < ipv6_available then unat ipv4_available
      else unat (ucast ipv6_available :: u32))"

definition Table_new :: "netlib \<Rightarrow> table_config \<Rightarrow> gen_error + table" where
  "Table_new lib cfg =
     (case IPv4AddressGenerator lib (tun_ipv4_network cfg) (tun_network_ipv4_mask cfg) of
        Inl e \<Rightarrow> Inl e
      | Inr g4 \<Rightarrow>
          (case IPv6AddressGenerator lib (tun_ipv6_network cfg) (tun_network_ipv6_mask cfg) of
             Inl e \<Rightarrow> Inl e
           | Inr g6 \<Rightarrow>
               let n = table_capacity g4 g6 in
               Inr \<lparr>tb_free_ipv4 = filter (\<lambda>ip. IPAddress_neq ip (tun_ipv4 cfg)) (fst (take4 lib n g4)),
                    tb_free_ipv6 = filter (\<lambda>ip. IPAddress_neq ip (tun_ipv6 cfg)) (fst (take6 lib n g6)),
                    tb_session = [], tb_ipv4 = [], tb_ipv6 = [], tb_client = [],
                    tb_store = (\<lambda>_. None), tb_next = 0\<rparr>))"

abbreviation mplx :: "table \<Rightarrow> nat \<Rightarrow> multiplexer" where
  "mplx t m \<equiv> the (tb_store t m)"

definition AddConnection ::
    "connect_params \<Rightarrow> leaky_bucket \<Rightarrow> leaky_bucket \<Rightarrow> int \<times> int \<times> int \<Rightarrow> table \<Rightarrow>
     nat option \<times> table" where
  "AddConnection params to_client from_client ts t =
     (case map_of (tb_session t) (cp_session_id params) of
        Some m \<Rightarrow>
          if mx_username (mplx t m) \<noteq> cp_username params then (None, t)
          else (let (added, mx) = AddClientConnection params ts (mplx t m) in
            if \<not> added then (None, t)
            else (Some m, t\<lparr>tb_store := (tb_store t)(m \<mapsto> mx),
                            tb_client := um_insert (cp_client_id params) m (tb_client t)\<rparr>))
      | None \<Rightarrow>
          if tb_free_ipv4 t = [] \<or> tb_free_ipv6 t = [] then (None, t)
          else
            let fake_ipv4 = last (tb_free_ipv4 t);
                fake_ipv6 = last (tb_free_ipv6 t);
                mx = Multiplexer_Create params fake_ipv4 fake_ipv6 to_client from_client ts;
                m = tb_next t in
            (Some m,
             t\<lparr>tb_free_ipv4 := butlast (tb_free_ipv4 t),
               tb_free_ipv6 := butlast (tb_free_ipv6 t),
               tb_session := um_insert (cp_session_id params) m (tb_session t),
               tb_ipv4 := um_insert (IPAddress_ToInt fake_ipv4) m (tb_ipv4 t),
               tb_ipv6 := um_insert (ip_str fake_ipv6) m (tb_ipv6 t),
               tb_client := um_insert (cp_client_id params) m (tb_client t),
               tb_store := (tb_store t)(m \<mapsto> mx),
               tb_next := m + 1\<rparr>))"

definition ReleaseSessionIfEmpty :: "nat \<Rightarrow> table \<Rightarrow> table" where
  "ReleaseSessionIfEmpty m t = (let mx = mplx t m in
     if \<not> mx_Empty mx then t
     else if map_of (tb_session t) (mx_session_id mx) \<noteq> Some m then t
     else t\<lparr>tb_free_ipv4 := tb_free_ipv4 t @ [mx_fake_ipv4 mx],
            tb_free_ipv6 := tb_free_ipv6 t @ [mx_fake_ipv6 mx],
            tb_ipv4 := um_erase (IPAddress_ToInt (mx_fake_ipv4 mx)) (tb_ipv4 t),
            tb_ipv6 := um_erase (ip_str (mx_fake_ipv6 mx)) (tb_ipv6 t),
            tb_session := um_erase (mx_session_id mx) (tb_session t)\<rparr>)"

definition DelConnectionByClientId :: "client_id \<Rightarrow> table \<Rightarrow> bool \<times> table" where
  "DelConnectionByClientId cid t =
     (case map_of (tb_client t) cid of
        None \<Rightarrow> (False, t)
      | Some m \<Rightarrow>
          let t1 = t\<lparr>tb_client := um_erase cid (tb_client t)\<rparr>;
              t2 = t1\<lparr>tb_store := (tb_store t1)(m \<mapsto> snd (mx_DelConnectionByClientId cid (mplx t1 m)))\<rparr> in
          (True, ReleaseSessionIfEmpty m t2))"

definition GetMultiplexerByFakeIPv4 :: "ip_address \<Rightarrow> table \<Rightarrow> nat option" where
  "GetMultiplexerByFakeIPv4 ip t = map_of (tb_ipv4 t) (IPAddress_ToInt ip)"

definition GetMultiplexerByFakeIPv6 :: "ip_address \<Rightarrow> table \<Rightarrow> nat option" where
  "GetMultiplexerByFakeIPv6 ip t = map_of (tb_ipv6 t) (ip_str ip)"

definition GetMultiplexerByClientId :: "client_id \<Rightarrow> table \<Rightarrow> nat option" where
  "GetMultiplexerByClientId cid t = map_of (tb_client t) cid"

definition GetNumberActiveSessionByUsername :: "string \<Rightarrow> table \<Rightarrow> nat" where
  "GetNumberActiveSessionByUsername username t =
     length (filter (\<lambda>(sid, m). mx_username (mplx t m) = username) (tb_session t))"

text \<open>The scan under the shared lock: \<open>clocks m\<close> are the readings taken while multiplexer \<open>m\<close> is
  updated.\<close>

fun scan_sessions ::
    "(nat \<Rightarrow> nat \<Rightarrow> int) \<Rightarrow> nat list \<Rightarrow> (nat \<Rightarrow> multiplexer option) \<Rightarrow>
     client_id list \<times> nat list \<times> (nat \<Rightarrow> multiplexer option)" where
  "scan_sessions clocks [] st = ([], [], st)"
| "scan_sessions clocks (m # rest) st =
     (let (e, mx) = mx_UpdateConnectionsStatus (clocks m) (the (st m));
          (expired, emptied, st') = scan_sessions clocks rest (st(m \<mapsto> mx)) in
      (e @ expired, (if mx_Empty mx then [m] else []) @ emptied, st'))"

definition UpdateScan ::
    "(nat \<Rightarrow> nat \<Rightarrow> int) \<Rightarrow> table \<Rightarrow> (client_id list \<times> nat list) \<times> table" where
  "UpdateScan clocks t =
     (let (expired, emptied, st) = scan_sessions clocks (map snd (tb_session t)) (tb_store t) in
      ((expired, emptied), t\<lparr>tb_store := st\<rparr>))"

text \<open>The release under the exclusive lock, with the early return when there is nothing to do.\<close>

definition UpdateFinish :: "client_id list \<times> nat list \<Rightarrow> table \<Rightarrow> table" where
  "UpdateFinish work t = (let (expired, emptied) = work in
     if expired = [] \<and> emptied = [] then t
     else fold ReleaseSessionIfEmpty emptied
            (t\<lparr>tb_client := fold um_erase expired (tb_client t)\<rparr>))"

text \<open>What \<open>UpdateStatistic\<close> reports to the metrics: the number of sessions and, per session, the
  user and the two traffic totals.\<close>

definition UpdateStatistic :: "table \<Rightarrow> nat \<times> (string \<times> u64 \<times> u64) list" where
  "UpdateStatistic t =
     (length (tb_session t),
      map (\<lambda>(sid, m). (mx_username (mplx t m), FullDataAmount (mx_to_client (mplx t m)),
                        FullDataAmount (mx_from_client (mplx t m)))) (tb_session t))"

section \<open>Steps\<close>

text \<open>A state is the table, the scans whose release is outstanding, and the client ids given out so
  far. Sessions take their id from a counter that only grows, so an id is added once.\<close>

type_synonym nat_state = "table \<times> (client_id list \<times> nat list) list \<times> client_id set"

inductive table_step :: "nat_state \<Rightarrow> nat_state \<Rightarrow> bool" where
  add: "cp_client_id params \<notin> used \<Longrightarrow> t1 \<le> t2 \<Longrightarrow>
        AddConnection params b1 b2 (t0, t1, t2) t = (r, t') \<Longrightarrow>
        table_step (t, pend, used) (t', pend, insert (cp_client_id params) used)"
| del: "DelConnectionByClientId cid t = (r, t') \<Longrightarrow> table_step (t, pend, used) (t', pend, used)"
| scan: "\<forall>m. mono (clocks m) \<Longrightarrow> UpdateScan clocks t = (work, t') \<Longrightarrow>
         table_step (t, pend, used) (t', work # pend, used)"
| finish: "UpdateFinish work t = t' \<Longrightarrow>
           table_step (t, xs @ work # ys, used) (t', xs @ ys, used)"
| traffic: "tb_store t m = Some mx \<Longrightarrow>
            table_step (t, pend, used)
              (t\<lparr>tb_store := (tb_store t)(m \<mapsto> mx\<lparr>mx_to_client := b1, mx_from_client := b2,
                 mx_disable_checksum := d, mx_cursor := k\<rparr>)\<rparr>, pend, used)"

inductive_cases table_stepE: "table_step s s'"

inductive reachable :: "table \<Rightarrow> nat_state \<Rightarrow> bool" for init :: table where
  start: "reachable init (init, [], {})"
| step: "reachable init s \<Longrightarrow> table_step s s' \<Longrightarrow> reachable init s'"

section \<open>Invariant\<close>

definition live :: "table \<Rightarrow> nat \<Rightarrow> bool" where
  "live t m \<longleftrightarrow> map_of (tb_session t) (mx_session_id (mplx t m)) = Some m"

definition pending_expired :: "(client_id list \<times> nat list) list \<Rightarrow> client_id set" where
  "pending_expired pend = (\<Union>w \<in> set pend. set (fst w))"

definition pending_emptied :: "(client_id list \<times> nat list) list \<Rightarrow> nat set" where
  "pending_emptied pend = (\<Union>w \<in> set pend. set (snd w))"

text \<open>The maps agree with the multiplexers of the live sessions.\<close>

definition inv_maps :: "table \<Rightarrow> bool" where
  "inv_maps t \<longleftrightarrow>
     um_ok (tb_session t) \<and> um_ok (tb_ipv4 t) \<and> um_ok (tb_ipv6 t) \<and> um_ok (tb_client t) \<and>
     (\<forall>sid m. map_of (tb_session t) sid = Some m \<longrightarrow>
        m < tb_next t \<and> sid = mx_session_id (mplx t m) \<and> mx_ok (mplx t m) \<and>
        map_of (tb_ipv4 t) (IPAddress_ToInt (mx_fake_ipv4 (mplx t m))) = Some m \<and>
        map_of (tb_ipv6 t) (ip_str (mx_fake_ipv6 (mplx t m))) = Some m) \<and>
     (\<forall>k m. map_of (tb_ipv4 t) k = Some m \<longrightarrow>
        live t m \<and> k = IPAddress_ToInt (mx_fake_ipv4 (mplx t m))) \<and>
     (\<forall>k m. map_of (tb_ipv6 t) k = Some m \<longrightarrow>
        live t m \<and> k = ip_str (mx_fake_ipv6 (mplx t m)))"

text \<open>The addresses of the pool are either free or lent to a live session, each once.\<close>

definition inv_pool :: "ip_address list \<Rightarrow> ip_address list \<Rightarrow> table \<Rightarrow> bool" where
  "inv_pool pool4 pool6 t \<longleftrightarrow>
     mset (tb_free_ipv4 t) + image_mset (\<lambda>e. mx_fake_ipv4 (mplx t (snd e))) (mset (tb_session t)) =
       mset pool4 \<and>
     mset (tb_free_ipv6 t) + image_mset (\<lambda>e. mx_fake_ipv6 (mplx t (snd e))) (mset (tb_session t)) =
       mset pool6"

text \<open>The client map agrees with the connections. \<open>expired\<close> are the ids whose erasure is
  outstanding and \<open>emptied\<close> the multiplexers whose release is.\<close>

definition inv_clients :: "table \<Rightarrow> client_id set \<Rightarrow> nat set \<Rightarrow> client_id set \<Rightarrow> bool" where
  "inv_clients t expired emptied used \<longleftrightarrow>
     (\<forall>cid m. map_of (tb_client t) cid = Some m \<longrightarrow>
        m < tb_next t \<and> mx_ok (mplx t m) \<and> cid \<in> used \<and>
        (cid \<in> expired \<or> live t m \<and> cid \<in> mx_ids (mplx t m))) \<and>
     (\<forall>m cid. live t m \<longrightarrow> cid \<in> mx_ids (mplx t m) \<longrightarrow>
        map_of (tb_client t) cid = Some m \<and> cid \<notin> expired) \<and>
     (\<forall>m. live t m \<longrightarrow> mx_Empty (mplx t m) \<longrightarrow> m \<in> emptied) \<and>
     expired \<subseteq> used"

definition pool_ok :: "ip_address list \<Rightarrow> ip_address list \<Rightarrow> bool" where
  "pool_ok pool4 pool6 \<longleftrightarrow> distinct (map IPAddress_ToInt pool4) \<and> distinct (map ip_str pool6)"

definition inv ::
    "ip_address list \<Rightarrow> ip_address list \<Rightarrow> table \<Rightarrow> client_id set \<Rightarrow> nat set \<Rightarrow> client_id set \<Rightarrow> bool" where
  "inv pool4 pool6 t expired emptied used \<longleftrightarrow>
     inv_maps t \<and> inv_pool pool4 pool6 t \<and> inv_clients t expired emptied used"

section \<open>Updating one multiplexer\<close>

definition same_static :: "multiplexer \<Rightarrow> multiplexer \<Rightarrow> bool" where
  "same_static a b \<longleftrightarrow> mx_session_id b = mx_session_id a \<and>
     mx_fake_ipv4 b = mx_fake_ipv4 a \<and> mx_fake_ipv6 b = mx_fake_ipv6 a"

definition set_mplx :: "nat \<Rightarrow> multiplexer \<Rightarrow> table \<Rightarrow> table" where
  "set_mplx m mx t = t\<lparr>tb_store := (tb_store t)(m \<mapsto> mx)\<rparr>"

lemma set_mplx_simps [simp]:
  "mplx (set_mplx m mx t) x = (if x = m then mx else mplx t x)"
  "tb_session (set_mplx m mx t) = tb_session t" "tb_client (set_mplx m mx t) = tb_client t"
  "tb_ipv4 (set_mplx m mx t) = tb_ipv4 t" "tb_ipv6 (set_mplx m mx t) = tb_ipv6 t"
  "tb_next (set_mplx m mx t) = tb_next t"
  "tb_free_ipv4 (set_mplx m mx t) = tb_free_ipv4 t" "tb_free_ipv6 (set_mplx m mx t) = tb_free_ipv6 t"
  by (simp_all add: set_mplx_def)

lemma live_set_mplx:
  assumes "same_static (mplx t m) mx"
  shows "live (set_mplx m mx t) x \<longleftrightarrow> live t x"
  using assms by (auto simp: live_def same_static_def)

lemma inv_maps_set_mplx:
  assumes "inv_maps t" "same_static (mplx t m) mx" "mx_ok mx"
  shows "inv_maps (set_mplx m mx t)"
  using assms live_set_mplx [OF assms(2)] unfolding inv_maps_def same_static_def
  by (auto simp del: fun_upd_apply)

lemma inv_pool_set_mplx:
  assumes "inv_pool p4 p6 t" "same_static (mplx t m) mx"
  shows "inv_pool p4 p6 (set_mplx m mx t)"
proof -
  have "image_mset (\<lambda>e. mx_fake_ipv4 (mplx (set_mplx m mx t) (snd e))) (mset (tb_session t)) =
        image_mset (\<lambda>e. mx_fake_ipv4 (mplx t (snd e))) (mset (tb_session t))"
    and "image_mset (\<lambda>e. mx_fake_ipv6 (mplx (set_mplx m mx t) (snd e))) (mset (tb_session t)) =
        image_mset (\<lambda>e. mx_fake_ipv6 (mplx t (snd e))) (mset (tb_session t))"
    using assms(2) by (auto intro!: image_mset_cong simp: same_static_def)
  then show ?thesis using assms(1) by (simp add: inv_pool_def)
qed

lemma inv_maps_client:
  "inv_maps t \<Longrightarrow> um_ok c \<Longrightarrow> inv_maps (t\<lparr>tb_client := c\<rparr>)"
  by (simp add: inv_maps_def live_def)

lemma inv_pool_client: "inv_pool p4 p6 (t\<lparr>tb_client := c\<rparr>) = inv_pool p4 p6 t"
  by (simp add: inv_pool_def)

lemma live_client [simp]: "live (t\<lparr>tb_client := c\<rparr>) m = live t m"
  by (simp add: live_def)

section \<open>Release\<close>

lemma mset_erase:
  "um_ok s \<Longrightarrow> map_of s k = Some v \<Longrightarrow> mset s = add_mset (k, v) (mset (um_erase k s))"
proof (induction s)
  case (Cons e s)
  have ok: "um_ok s" "fst e \<notin> fst ` set s" using Cons.prems(1) by (auto simp: um_ok_def)
  show ?case
  proof (cases "fst e = k")
    case True
    then have "um_erase k s = s"
      unfolding um_erase_def using ok(2) by (intro filter_True ballI) (metis imageI)
    moreover have "e = (k, v)" using True Cons.prems(2) by (cases e) simp
    ultimately show ?thesis by (simp add: um_erase_def)
  next
    case False
    then have "map_of s k = Some v" using Cons.prems(2) by (cases e) auto
    from Cons.IH [OF ok(1) this] show ?thesis using False by (simp add: um_erase_def)
  qed
qed simp

lemma live_unique: "live t m \<Longrightarrow> live t n \<Longrightarrow> mx_session_id (mplx t m) = mx_session_id (mplx t n) \<Longrightarrow> m = n"
  by (simp add: live_def)

lemma inv_mapsD:
  assumes "inv_maps t"
  shows "um_ok (tb_session t)" "um_ok (tb_ipv4 t)" "um_ok (tb_ipv6 t)" "um_ok (tb_client t)"
    and "live t m \<Longrightarrow> m < tb_next t" "live t m \<Longrightarrow> mx_ok (mplx t m)"
    and "live t m \<Longrightarrow> map_of (tb_ipv4 t) (IPAddress_ToInt (mx_fake_ipv4 (mplx t m))) = Some m"
    and "live t m \<Longrightarrow> map_of (tb_ipv6 t) (ip_str (mx_fake_ipv6 (mplx t m))) = Some m"
    and "map_of (tb_session t) sid = Some m \<Longrightarrow> live t m"
    and "map_of (tb_session t) sid = Some m \<Longrightarrow> sid = mx_session_id (mplx t m)"
    and "map_of (tb_ipv4 t) k = Some m \<Longrightarrow> live t m \<and> k = IPAddress_ToInt (mx_fake_ipv4 (mplx t m))"
    and "map_of (tb_ipv6 t) j = Some m \<Longrightarrow> live t m \<and> j = ip_str (mx_fake_ipv6 (mplx t m))"
  using assms unfolding inv_maps_def live_def by blast+

lemma inv_release:
  assumes "inv p4 p6 t expired (insert m emptied) used"
  shows "inv p4 p6 (ReleaseSessionIfEmpty m t) expired emptied used"
proof -
  let ?mx = "mplx t m"
  have maps: "inv_maps t" and pool: "inv_pool p4 p6 t"
    and cl: "inv_clients t expired (insert m emptied) used"
    using assms by (auto simp: inv_def)
  show ?thesis
  proof (cases "mx_Empty ?mx \<and> live t m")
    case False
    then have "inv_clients t expired emptied used"
      using cl unfolding inv_clients_def by blast
    moreover have "ReleaseSessionIfEmpty m t = t"
      using False by (auto simp: ReleaseSessionIfEmpty_def live_def Let_def)
    ultimately show ?thesis using maps pool by (simp add: inv_def)
  next
    case True
    let ?t = "t\<lparr>tb_free_ipv4 := tb_free_ipv4 t @ [mx_fake_ipv4 ?mx],
            tb_free_ipv6 := tb_free_ipv6 t @ [mx_fake_ipv6 ?mx],
            tb_ipv4 := um_erase (IPAddress_ToInt (mx_fake_ipv4 ?mx)) (tb_ipv4 t),
            tb_ipv6 := um_erase (ip_str (mx_fake_ipv6 ?mx)) (tb_ipv6 t),
            tb_session := um_erase (mx_session_id ?mx) (tb_session t)\<rparr>"
    have eq: "ReleaseSessionIfEmpty m t = ?t"
      using True by (simp add: ReleaseSessionIfEmpty_def live_def Let_def)
    note D = inv_mapsD [OF maps]
    have lm: "live t m" and e: "mx_ids ?mx = {}" using True by (simp_all add: mx_Empty_iff)
    have live: "live ?t x \<longleftrightarrow> live t x \<and> x \<noteq> m" for x
      using lm live_unique [OF lm, of x] by (auto simp: live_def map_of_um_erase)
    have k4: "map_of (tb_ipv4 ?t) k = (if k = IPAddress_ToInt (mx_fake_ipv4 ?mx) then None else map_of (tb_ipv4 t) k)"
      and k6: "map_of (tb_ipv6 ?t) j = (if j = ip_str (mx_fake_ipv6 ?mx) then None else map_of (tb_ipv6 t) j)"
      and ks: "map_of (tb_session ?t) sid = (if sid = mx_session_id ?mx then None else map_of (tb_session t) sid)"
      for k j sid by (simp_all add: map_of_um_erase)
    have "inv_maps ?t"
      unfolding inv_maps_def k4 k6 ks live
    proof (intro conjI allI impI)
      show "um_ok (tb_session ?t)" "um_ok (tb_ipv4 ?t)" "um_ok (tb_ipv6 ?t)" "um_ok (tb_client ?t)"
        using D(1-4) um.ok_erase by simp_all
    next
      fix sid x assume a: "(if sid = mx_session_id ?mx then None else map_of (tb_session t) sid) = Some x"
      then have s: "map_of (tb_session t) sid = Some x" "sid \<noteq> mx_session_id ?mx"
        by (auto split: if_splits)
      have lx: "live t x" "sid = mx_session_id (mplx t x)" using D(9,10) [OF s(1)] by auto
      then have "x \<noteq> m" using s(2) by auto
      then show "x < tb_next ?t" "sid = mx_session_id (mplx ?t x)" "mx_ok (mplx ?t x)"
        "(if IPAddress_ToInt (mx_fake_ipv4 (mplx ?t x)) = IPAddress_ToInt (mx_fake_ipv4 ?mx) then None
          else map_of (tb_ipv4 t) (IPAddress_ToInt (mx_fake_ipv4 (mplx ?t x)))) = Some x"
        "(if ip_str (mx_fake_ipv6 (mplx ?t x)) = ip_str (mx_fake_ipv6 ?mx) then None
          else map_of (tb_ipv6 t) (ip_str (mx_fake_ipv6 (mplx ?t x)))) = Some x"
        using lx D(5-8) [OF lx(1)] D(7,8) [OF lm] by auto
    next
      fix k x assume "(if k = IPAddress_ToInt (mx_fake_ipv4 ?mx) then None else map_of (tb_ipv4 t) k) = Some x"
      then have k: "k \<noteq> IPAddress_ToInt (mx_fake_ipv4 ?mx)" "map_of (tb_ipv4 t) k = Some x"
        by (auto split: if_splits)
      then show "live t x" "x \<noteq> m" "k = IPAddress_ToInt (mx_fake_ipv4 (mplx ?t x))"
        using D(11) [OF k(2)] by auto
    next
      fix k x assume "(if k = ip_str (mx_fake_ipv6 ?mx) then None else map_of (tb_ipv6 t) k) = Some x"
      then have k: "k \<noteq> ip_str (mx_fake_ipv6 ?mx)" "map_of (tb_ipv6 t) k = Some x"
        by (auto split: if_splits)
      then show "live t x" "x \<noteq> m" "k = ip_str (mx_fake_ipv6 (mplx ?t x))"
        using D(12) [OF k(2)] by auto
    qed
    moreover have "inv_pool p4 p6 ?t"
      using pool mset_erase [OF D(1) lm [unfolded live_def]] by (simp add: inv_pool_def)
    moreover have "inv_clients ?t expired emptied used"
    proof -
      have "\<And>cid x. map_of (tb_client t) cid = Some x \<Longrightarrow> x < tb_next t \<and> mx_ok (mplx t x) \<and> cid \<in> used \<and>
          (cid \<in> expired \<or> (live t x \<and> x \<noteq> m) \<and> cid \<in> mx_ids (mplx t x))"
        using cl e unfolding inv_clients_def by blast
      then show ?thesis using cl unfolding inv_clients_def live by auto
    qed
    ultimately show ?thesis by (simp add: inv_def eq)
  qed
qed

lemma inv_clientsI:
  assumes "\<And>cid m. map_of (tb_client t) cid = Some m \<Longrightarrow>
      m < tb_next t \<and> mx_ok (mplx t m) \<and> cid \<in> used \<and>
      (cid \<in> expired \<or> live t m \<and> cid \<in> mx_ids (mplx t m))"
    and "\<And>m cid. live t m \<Longrightarrow> cid \<in> mx_ids (mplx t m) \<Longrightarrow>
      map_of (tb_client t) cid = Some m \<and> cid \<notin> expired"
    and "\<And>m. live t m \<Longrightarrow> mx_Empty (mplx t m) \<Longrightarrow> m \<in> emptied"
    and "expired \<subseteq> used"
  shows "inv_clients t expired emptied used"
  using assms unfolding inv_clients_def by blast

lemma inv_clientsD:
  assumes "inv_clients t expired emptied used"
  shows "map_of (tb_client t) cid = Some m \<Longrightarrow>
      m < tb_next t \<and> mx_ok (mplx t m) \<and> cid \<in> used \<and>
      (cid \<in> expired \<or> live t m \<and> cid \<in> mx_ids (mplx t m))"
    and "live t m \<Longrightarrow> cid \<in> mx_ids (mplx t m) \<Longrightarrow>
      map_of (tb_client t) cid = Some m \<and> cid \<notin> expired"
    and "live t m \<Longrightarrow> mx_Empty (mplx t m) \<Longrightarrow> m \<in> emptied"
    and "expired \<subseteq> used"
  using assms unfolding inv_clients_def by blast+

section \<open>The steps preserve the invariant\<close>

lemma inv_del:
  assumes "inv p4 p6 t expired emptied used"
  shows "inv p4 p6 (snd (DelConnectionByClientId cid t)) expired emptied used"
proof (cases "map_of (tb_client t) cid")
  case None
  then show ?thesis using assms by (simp add: DelConnectionByClientId_def)
next
  case (Some m)
  have maps: "inv_maps t" and pool: "inv_pool p4 p6 t" and cl: "inv_clients t expired emptied used"
    using assms by (auto simp: inv_def)
  note D = inv_mapsD [OF maps]
  let ?t1 = "t\<lparr>tb_client := um_erase cid (tb_client t)\<rparr>"
  obtain r mx where mx: "mx_DelConnectionByClientId cid (mplx t m) = (r, mx)" by fastforce
  have ok: "mx_ok (mplx t m)" using cl Some by (auto simp: inv_clients_def)
  note h = mx_Del_spec [OF ok mx]
  have st: "same_static (mplx ?t1 m) mx" using h by (simp add: same_static_def)
  let ?t2 = "set_mplx m mx ?t1"
  have "inv_maps ?t2"
    by (rule inv_maps_set_mplx [OF inv_maps_client [OF maps um.ok_erase [OF D(4)]] st h(3)])
  moreover have "inv_pool p4 p6 ?t2"
    using pool st by (intro inv_pool_set_mplx) (simp_all add: inv_pool_client)
  moreover have "inv_clients ?t2 expired (insert m emptied) used"
    using cl Some h(2,3) unfolding inv_clients_def live_set_mplx [OF st] live_client
    by (auto simp: map_of_um_erase)
  ultimately have "inv p4 p6 (ReleaseSessionIfEmpty m ?t2) expired emptied used"
    by (intro inv_release) (simp add: inv_def)
  then show ?thesis
    using Some mx by (simp add: DelConnectionByClientId_def set_mplx_def Let_def)
qed

lemma inv_traffic:
  assumes "inv p4 p6 t expired emptied used" "tb_store t m = Some mx"
  shows "inv p4 p6 (t\<lparr>tb_store := (tb_store t)(m \<mapsto> mx\<lparr>mx_to_client := b1, mx_from_client := b2,
           mx_disable_checksum := d, mx_cursor := k\<rparr>)\<rparr>) expired emptied used" (is "inv _ _ ?t _ _ _")
proof -
  have v: "mx_session_id (mplx ?t x) = mx_session_id (mplx t x)" "mx_fake_ipv4 (mplx ?t x) = mx_fake_ipv4 (mplx t x)"
    "mx_fake_ipv6 (mplx ?t x) = mx_fake_ipv6 (mplx t x)" "mx_ok (mplx ?t x) = mx_ok (mplx t x)"
    "mx_ids (mplx ?t x) = mx_ids (mplx t x)" "mx_Empty (mplx ?t x) = mx_Empty (mplx t x)" for x
    using assms(2) by (simp_all add: mx_ok_def mx_ids_def mx_Empty_def)
  have w: "tb_session ?t = tb_session t" "tb_ipv4 ?t = tb_ipv4 t" "tb_ipv6 ?t = tb_ipv6 t"
    "tb_client ?t = tb_client t" "tb_next ?t = tb_next t" "tb_free_ipv4 ?t = tb_free_ipv4 t"
    "tb_free_ipv6 ?t = tb_free_ipv6 t" by simp_all
  show ?thesis
    using assms(1) unfolding inv_def inv_maps_def inv_pool_def inv_clients_def live_def v w .
qed

lemma inv_scan:
  assumes "inv p4 p6 (t\<lparr>tb_store := st\<rparr>) expired emptied used"
    and "\<forall>m. mono (clocks m)" "\<forall>m \<in> set rest. live (t\<lparr>tb_store := st\<rparr>) m"
    and "scan_sessions clocks rest st = (ex, em, st')"
  shows "inv p4 p6 (t\<lparr>tb_store := st'\<rparr>) (expired \<union> set ex) (emptied \<union> set em) used"
  using assms
proof (induction rest arbitrary: st expired emptied ex em)
  case (Cons m rest)
  let ?t = "t\<lparr>tb_store := st\<rparr>"
  obtain e mx where mx: "mx_UpdateConnectionsStatus (clocks m) (mplx ?t m) = (e, mx)" by fastforce
  obtain ex1 em1 st1 where r: "scan_sessions clocks rest (st(m \<mapsto> mx)) = (ex1, em1, st1)"
    by (metis surj_pair)
  have eq: "ex = e @ ex1" "em = (if mx_Empty mx then [m] else []) @ em1" "st' = st1"
    using Cons.prems(4) mx r by (auto simp: Let_def split: if_splits)
  have maps: "inv_maps ?t" and pool: "inv_pool p4 p6 ?t" and cl: "inv_clients ?t expired emptied used"
    using Cons.prems(1) by (auto simp: inv_def)
  note D = inv_mapsD [OF maps]
  have lm: "live ?t m" using Cons.prems(3) by simp
  note h = mx_Update_spec [OF D(6) [OF lm] _ mx]
  have mono: "mono (clocks m)" using Cons.prems(2) by simp
  have stat: "same_static (mplx ?t m) mx" using h [OF mono] by (simp add: same_static_def)
  let ?e = "if mx_Empty mx then {m} else {}"
  have "inv_clients (set_mplx m mx ?t) (expired \<union> set e) (emptied \<union> ?e) used"
  proof -
    have own: "cid \<in> mx_ids (mplx ?t m) \<Longrightarrow> map_of (tb_client ?t) cid = Some m \<and> cid \<in> used" for cid
      using cl lm by (auto simp: inv_clients_def)
    have "\<And>x. x \<noteq> m \<Longrightarrow> live ?t x \<Longrightarrow> mx_ids (mplx ?t x) \<inter> set e = {}"
      using own h(1) [OF mono] cl unfolding inv_clients_def by force
    moreover have "cid \<in> mx_ids (mplx ?t m) \<longleftrightarrow> cid \<in> set e \<or> cid \<in> mx_ids mx" for cid
      using h(1) [OF mono] by blast
    ultimately show ?thesis
      unfolding inv_clients_def live_set_mplx [OF stat] set_mplx_simps
      using inv_clientsD [OF cl] lm own h(2,4) [OF mono]
      by (intro conjI allI impI) (auto split: if_splits | blast)+
  qed
  moreover have "set_mplx m mx ?t = t\<lparr>tb_store := st(m \<mapsto> mx)\<rparr>" by (simp add: set_mplx_def)
  ultimately have "inv p4 p6 (t\<lparr>tb_store := st(m \<mapsto> mx)\<rparr>) (expired \<union> set e) (emptied \<union> ?e) used"
    using inv_maps_set_mplx [OF maps stat h(4) [OF mono]] inv_pool_set_mplx [OF pool stat]
    by (simp add: inv_def)
  moreover have "\<forall>x \<in> set rest. live (t\<lparr>tb_store := st(m \<mapsto> mx)\<rparr>) x"
    using Cons.prems(3) live_set_mplx [OF stat] by (simp add: set_mplx_def)
  ultimately have "inv p4 p6 (t\<lparr>tb_store := st'\<rparr>) (expired \<union> set e \<union> set ex1) (emptied \<union> ?e \<union> set em1) used"
    using Cons.IH [OF _ Cons.prems(2) _ r [folded eq(3)]] by blast
  then show ?case unfolding eq by (simp add: Un_assoc split: if_splits)
qed simp

lemma inv_UpdateScan:
  assumes "inv p4 p6 t expired emptied used" "\<forall>m. mono (clocks m)"
    and "UpdateScan clocks t = ((ex, em), t')"
  shows "inv p4 p6 t' (expired \<union> set ex) (emptied \<union> set em) used"
proof -
  have maps: "inv_maps t" using assms(1) by (simp add: inv_def)
  note D = inv_mapsD [OF maps]
  have "\<forall>m \<in> set (map snd (tb_session t)). live t m"
  proof
    fix m assume "m \<in> set (map snd (tb_session t))"
    then obtain sid where "(sid, m) \<in> set (tb_session t)" by auto
    then have "map_of (tb_session t) sid = Some m" using D(1) um.entries_find by fastforce
    then show "live t m" by (rule D(9))
  qed
  then have l: "\<forall>m \<in> set (map snd (tb_session t)). live (t\<lparr>tb_store := tb_store t\<rparr>) m" by simp
  have i: "inv p4 p6 (t\<lparr>tb_store := tb_store t\<rparr>) expired emptied used" using assms(1) by simp
  obtain st where sc: "scan_sessions clocks (map snd (tb_session t)) (tb_store t) = (ex, em, st)"
      and t': "t' = t\<lparr>tb_store := st\<rparr>"
    using assms(3) by (auto simp: UpdateScan_def split: prod.splits)
  from inv_scan [OF i assms(2) l sc] show ?thesis unfolding t' .
qed

lemma map_of_fold_erase:
  "map_of (fold um_erase cids m) k = (if k \<in> set cids then None else map_of m k)"
  by (induction cids arbitrary: m) (auto simp: map_of_um_erase)

lemma um_ok_fold_erase: "um_ok m \<Longrightarrow> um_ok (fold um_erase cids m)"
  by (induction cids arbitrary: m) (auto intro: um.ok_erase)

lemma inv_fold_release:
  "inv p4 p6 t expired (set mls \<union> emptied) used \<Longrightarrow>
   inv p4 p6 (fold ReleaseSessionIfEmpty mls t) expired emptied used"
  by (induction mls arbitrary: t) (auto intro: inv_release)

lemma inv_UpdateFinish:
  assumes "inv p4 p6 t (set ex \<union> expired) (set em \<union> emptied) used"
  shows "inv p4 p6 (UpdateFinish (ex, em) t) expired emptied used"
proof (cases "ex = [] \<and> em = []")
  case True
  then show ?thesis using assms by (simp add: UpdateFinish_def)
next
  case False
  let ?t = "t\<lparr>tb_client := fold um_erase ex (tb_client t)\<rparr>"
  have maps: "inv_maps t" and pool: "inv_pool p4 p6 t"
    and cl: "inv_clients t (set ex \<union> expired) (set em \<union> emptied) used"
    using assms by (auto simp: inv_def)
  have "inv_clients ?t expired (set em \<union> emptied) used"
    unfolding inv_clients_def live_client
    using inv_clientsD [OF cl]
    by (intro conjI allI impI) (auto simp: map_of_fold_erase split: if_splits | blast)+
  moreover have "inv_maps ?t"
    using maps inv_mapsD(4) [OF maps] by (intro inv_maps_client um_ok_fold_erase)
  ultimately have "inv p4 p6 ?t expired (set em \<union> emptied) used"
    using pool by (simp add: inv_def inv_pool_client)
  from inv_fold_release [OF this] show ?thesis
    unfolding UpdateFinish_def Let_def prod.case if_not_P [OF False] .
qed

text \<open>Adding a connection: to a session that exists, and to a new one.\<close>

lemma inv_clients_used_mono:
  "inv_clients t expired emptied used \<Longrightarrow> inv_clients t expired emptied (insert cid used)"
  by (auto simp: inv_clients_def)

lemma inv_join:
  assumes "inv p4 p6 t expired emptied used" "cid \<notin> used" "live t m"
    and "same_static (mplx t m) mx" "mx_ok mx" "mx_ids mx = insert cid (mx_ids (mplx t m))"
  shows "inv p4 p6 (set_mplx m mx (t\<lparr>tb_client := um_insert cid m (tb_client t)\<rparr>)) expired emptied
           (insert cid used)"
proof -
  have maps: "inv_maps t" and pool: "inv_pool p4 p6 t" and cl: "inv_clients t expired emptied used"
    using assms(1) by (auto simp: inv_def)
  note D = inv_mapsD [OF maps] and C = inv_clientsD [OF cl]
  let ?t = "t\<lparr>tb_client := um_insert cid m (tb_client t)\<rparr>"
  have st: "same_static (mplx ?t m) mx" using assms(4) by simp
  have none: "map_of (tb_client t) cid = None" using C(1) [of cid] assms(2) by fastforce
  have f: "map_of (um_insert cid m (tb_client t)) j = (if j = cid then Some m else map_of (tb_client t) j)"
    for j using none by (simp add: um.find_insert)
  have "inv_maps (set_mplx m mx ?t)"
    by (rule inv_maps_set_mplx [OF inv_maps_client [OF maps um.ok_insert [OF D(4)]] st assms(5)])
  moreover have "inv_pool p4 p6 (set_mplx m mx ?t)"
    using pool st by (intro inv_pool_set_mplx) (simp_all add: inv_pool_client)
  moreover have "inv_clients (set_mplx m mx ?t) expired emptied (insert cid used)"
  proof -
    have m: "m < tb_next t" using D(5) assms(3) by blast
    have e: "cid \<notin> expired" using C(4) assms(2) by blast
    have ne: "\<not> mx_Empty mx" using assms(6) by (simp add: mx_Empty_iff)
    have own: "live t x \<Longrightarrow> cid \<in> mx_ids (mplx t x) \<Longrightarrow> x = m" for x
      using C(2) none by fastforce
    show ?thesis
    proof (rule inv_clientsI, unfold live_set_mplx [OF st] live_client set_mplx_simps)
      fix j x assume "map_of (tb_client ?t) j = Some x"
      then have a: "(if j = cid then Some m else map_of (tb_client t) j) = Some x" using f by simp
      show "x < tb_next ?t \<and> mx_ok (if x = m then mx else mplx ?t x) \<and> j \<in> insert cid used \<and>
          (j \<in> expired \<or> live t x \<and> j \<in> mx_ids (if x = m then mx else mplx ?t x))"
      proof (cases "j = cid")
        case True
        then show ?thesis using a m assms(3,5,6) by simp
      next
        case False
        then show ?thesis using a C(1) [of j x] assms(5,6) by auto
      qed
    next
      fix x j assume l: "live t x" and j: "j \<in> mx_ids (if x = m then mx else mplx ?t x)"
      show "map_of (tb_client ?t) j = Some x \<and> j \<notin> expired"
      proof (cases "j = cid")
        case True
        then have "x = m" using own [OF l] j by (auto split: if_splits)
        then show ?thesis using True f e by simp
      next
        case False
        then have "j \<in> mx_ids (mplx t x)" using j assms(6) by (auto split: if_splits)
        then show ?thesis using C(2) [OF l] f False by simp
      qed
    next
      fix x assume "live t x" "mx_Empty (if x = m then mx else mplx ?t x)"
      then show "x \<in> emptied" using C(3) ne by (auto split: if_splits)
    next
      show "expired \<subseteq> insert cid used" using C(4) by blast
    qed
  qed
  ultimately show ?thesis by (simp add: inv_def)
qed

lemma mset_butlast_last: "xs \<noteq> [] \<Longrightarrow> mset xs = add_mset (last xs) (mset (butlast xs))"
  by (cases xs rule: rev_cases) auto

text \<open>A free address is not lent.\<close>

lemma pool_disjoint:
  assumes "mset free + image_mset f (mset s) = mset pool" "distinct (map g pool)"
    and "a \<in> set free" "e \<in> set s"
  shows "g a \<noteq> g (f e)"
proof
  assume eq: "g a = g (f e)"
  obtain A where A: "mset free = add_mset a A" using assms(3) by (metis mset_add set_mset_mset)
  obtain B where B: "mset s = add_mset e B" using assms(4) by (metis mset_add set_mset_mset)
  have "mset (map g pool) = image_mset g (mset free + image_mset f (mset s))"
    using assms(1) by simp
  then have "mset (map g pool) = add_mset (g a) (add_mset (g (f e)) (image_mset g (A + image_mset f B)))"
    using A B by simp
  then have "2 \<le> count (mset (map g pool)) (g a)" using eq by simp
  moreover have "count (mset (map g pool)) (g a) \<le> 1"
    using assms(2) by (metis distinct_count_atmost_1 le_refl zero_le_one)
  ultimately show False by linarith
qed

lemma inv_new:
  assumes I: "inv p4 p6 t expired emptied used" and P: "pool_ok p4 p6" and "cid \<notin> used"
    and sid: "map_of (tb_session t) sid = None"
    and free: "tb_free_ipv4 t \<noteq> []" "tb_free_ipv6 t \<noteq> []"
    and mx: "mx_session_id mx = sid" "mx_fake_ipv4 mx = last (tb_free_ipv4 t)"
      "mx_fake_ipv6 mx = last (tb_free_ipv6 t)" "mx_ok mx" "mx_ids mx = {cid}"
  defines "m \<equiv> tb_next t"
  shows "inv p4 p6
     (t\<lparr>tb_free_ipv4 := butlast (tb_free_ipv4 t), tb_free_ipv6 := butlast (tb_free_ipv6 t),
        tb_session := um_insert sid m (tb_session t),
        tb_ipv4 := um_insert (IPAddress_ToInt (last (tb_free_ipv4 t))) m (tb_ipv4 t),
        tb_ipv6 := um_insert (ip_str (last (tb_free_ipv6 t))) m (tb_ipv6 t),
        tb_client := um_insert cid m (tb_client t),
        tb_store := (tb_store t)(m \<mapsto> mx), tb_next := m + 1\<rparr>) expired emptied (insert cid used)"
    (is "inv _ _ ?t _ _ _")
proof -
  have maps: "inv_maps t" and pool: "inv_pool p4 p6 t" and cl: "inv_clients t expired emptied used"
    using I by (auto simp: inv_def)
  note D = inv_mapsD [OF maps] and C = inv_clientsD [OF cl]
  have sess: "live t (snd e) \<and> snd e \<noteq> m" if "e \<in> set (tb_session t)" for e
  proof -
    have "map_of (tb_session t) (fst e) = Some (snd e)"
      using um.entries_find [OF D(1)] that by (metis prod.collapse)
    from D(9) [OF this] have "live t (snd e)" .
    moreover from D(5) [OF this] have "snd e \<noteq> m" unfolding m_def by simp
    ultimately show ?thesis by blast
  qed
  have fresh4: "map_of (tb_ipv4 t) (IPAddress_ToInt (last (tb_free_ipv4 t))) = None"
  proof (rule ccontr)
    assume "\<not> ?thesis"
    then obtain x where x: "map_of (tb_ipv4 t) (IPAddress_ToInt (last (tb_free_ipv4 t))) = Some x" by blast
    then have "live t x" "IPAddress_ToInt (last (tb_free_ipv4 t)) = IPAddress_ToInt (mx_fake_ipv4 (mplx t x))"
      using D(11) by blast+
    moreover then have "(mx_session_id (mplx t x), x) \<in> set (tb_session t)"
      using um.entries_find [OF D(1)] by (simp add: live_def)
    ultimately show False
      using pool_disjoint [OF conjunct1 [OF pool [unfolded inv_pool_def]]
          conjunct1 [OF P [unfolded pool_ok_def]] last_in_set [OF free(1)]] by fastforce
  qed
  have fresh6: "map_of (tb_ipv6 t) (ip_str (last (tb_free_ipv6 t))) = None"
  proof (rule ccontr)
    assume "\<not> ?thesis"
    then obtain x where x: "map_of (tb_ipv6 t) (ip_str (last (tb_free_ipv6 t))) = Some x" by blast
    then have "live t x" "ip_str (last (tb_free_ipv6 t)) = ip_str (mx_fake_ipv6 (mplx t x))"
      using D(12) by blast+
    moreover then have "(mx_session_id (mplx t x), x) \<in> set (tb_session t)"
      using um.entries_find [OF D(1)] by (simp add: live_def)
    ultimately show False
      using pool_disjoint [OF conjunct2 [OF pool [unfolded inv_pool_def]]
          conjunct2 [OF P [unfolded pool_ok_def]] last_in_set [OF free(2)]] by fastforce
  qed
  have none: "map_of (tb_client t) cid = None" using C(1) [of cid] assms(3) by fastforce
  have fc: "map_of (tb_client ?t) j = (if j = cid then Some m else map_of (tb_client t) j)"
    and f4: "map_of (tb_ipv4 ?t) k = (if k = IPAddress_ToInt (last (tb_free_ipv4 t)) then Some m
               else map_of (tb_ipv4 t) k)"
    and f6: "map_of (tb_ipv6 ?t) l = (if l = ip_str (last (tb_free_ipv6 t)) then Some m
               else map_of (tb_ipv6 t) l)"
    and fs: "map_of (tb_session ?t) s = (if s = sid then Some m else map_of (tb_session t) s)"
    for j k l s using none fresh4 fresh6 sid by (simp_all add: um.find_insert)
  have mp: "mplx ?t x = (if x = m then mx else mplx t x)" for x by simp
  have live: "live ?t x \<longleftrightarrow> x = m \<or> live t x" for x
  proof -
    have "\<not> live t m" using D(5) unfolding m_def by blast
    then show ?thesis unfolding live_def fs mp using mx(1) sid by auto
  qed
  have old: "live t x \<Longrightarrow> x \<noteq> m" for x using D(5) unfolding m_def by blast
  have "inv_maps ?t"
    unfolding inv_maps_def f4 f6 fs live mp
  proof (intro conjI allI impI)
    show "um_ok (tb_session ?t)" "um_ok (tb_ipv4 ?t)" "um_ok (tb_ipv6 ?t)" "um_ok (tb_client ?t)"
      using D(1-4) um.ok_insert by simp_all
  next
    fix s x assume a: "(if s = sid then Some m else map_of (tb_session t) s) = Some x"
    then show "x < tb_next ?t" "s = mx_session_id (if x = m then mx else mplx t x)"
      "mx_ok (if x = m then mx else mplx t x)"
      using D(5,6,9,10) mx(1,4) old by (fastforce simp: m_def split: if_splits)+
    show "(if IPAddress_ToInt (mx_fake_ipv4 (if x = m then mx else mplx t x)) =
            IPAddress_ToInt (last (tb_free_ipv4 t)) then Some m
         else map_of (tb_ipv4 t) (IPAddress_ToInt (mx_fake_ipv4 (if x = m then mx else mplx t x)))) = Some x"
      "(if ip_str (mx_fake_ipv6 (if x = m then mx else mplx t x)) = ip_str (last (tb_free_ipv6 t)) then Some m
         else map_of (tb_ipv6 t) (ip_str (mx_fake_ipv6 (if x = m then mx else mplx t x)))) = Some x"
      using a D(7,8,9) old mx(2,3) fresh4 fresh6 by (auto split: if_splits) fastforce+
  next
    fix k x assume "(if k = IPAddress_ToInt (last (tb_free_ipv4 t)) then Some m else map_of (tb_ipv4 t) k) = Some x"
    then show "x = m \<or> live t x" "k = IPAddress_ToInt (mx_fake_ipv4 (if x = m then mx else mplx t x))"
      using D(11) [of k x] old mx(2) by (auto split: if_splits)
  next
    fix k x assume "(if k = ip_str (last (tb_free_ipv6 t)) then Some m else map_of (tb_ipv6 t) k) = Some x"
    then show "x = m \<or> live t x" "k = ip_str (mx_fake_ipv6 (if x = m then mx else mplx t x))"
      using D(12) [of k x] old mx(3) by (auto split: if_splits)
  qed
  moreover have "inv_pool p4 p6 ?t"
  proof -
    have s: "tb_session ?t = tb_session t @ [(sid, m)]" using sid by (simp add: um_insert_def)
    have "image_mset (\<lambda>e. mx_fake_ipv4 (mplx ?t (snd e))) (mset (tb_session t)) =
          image_mset (\<lambda>e. mx_fake_ipv4 (mplx t (snd e))) (mset (tb_session t))"
      and "image_mset (\<lambda>e. mx_fake_ipv6 (mplx ?t (snd e))) (mset (tb_session t)) =
          image_mset (\<lambda>e. mx_fake_ipv6 (mplx t (snd e))) (mset (tb_session t))"
      using sess by (auto intro!: image_mset_cong)
    then show ?thesis
      using pool mset_butlast_last [OF free(1)] mset_butlast_last [OF free(2)] mx(2,3)
      unfolding inv_pool_def s by simp
  qed
  moreover have "inv_clients ?t expired emptied (insert cid used)"
  proof -
    have e: "cid \<notin> expired" using C(4) assms(3) by blast
    have ne: "\<not> mx_Empty mx" using mx(5) by (simp add: mx_Empty_iff)
    have own: "live t x \<Longrightarrow> cid \<notin> mx_ids (mplx t x)" for x using C(2) none by fastforce
    have lt: "map_of (tb_client t) j = Some x \<Longrightarrow> x \<noteq> m" for j x
      using C(1) unfolding m_def by blast
    have nx: "tb_next ?t = Suc m" by simp
    show ?thesis
    proof (rule inv_clientsI, unfold live mp fc nx)
      fix j x assume a: "(if j = cid then Some m else map_of (tb_client t) j) = Some x"
      show "x < Suc m \<and> mx_ok (if x = m then mx else mplx t x) \<and> j \<in> insert cid used \<and>
          (j \<in> expired \<or> (x = m \<or> live t x) \<and> j \<in> mx_ids (if x = m then mx else mplx t x))"
      proof (cases "j = cid")
        case True
        then show ?thesis using a mx(4,5) by simp
      next
        case False
        then show ?thesis using a C(1) [of j x] lt [of j x] by (auto simp: m_def)
      qed
    next
      fix x j assume l: "x = m \<or> live t x" and j: "j \<in> mx_ids (if x = m then mx else mplx t x)"
      show "(if j = cid then Some m else map_of (tb_client t) j) = Some x \<and> j \<notin> expired"
      proof (cases "x = m")
        case True
        then show ?thesis using j mx(5) e by simp
      next
        case False
        then have "live t x" "j \<in> mx_ids (mplx t x)" using l j by auto
        then show ?thesis using C(2) own by auto
      qed
    next
      fix x assume "x = m \<or> live t x" "mx_Empty (if x = m then mx else mplx t x)"
      then show "x \<in> emptied" using C(3) ne by (auto split: if_splits)
    next
      show "expired \<subseteq> insert cid used" using C(4) by blast
    qed
  qed
  ultimately show ?thesis by (simp add: inv_def)
qed

lemma inv_AddConnection:
  assumes "inv p4 p6 t expired emptied used" "pool_ok p4 p6" "cp_client_id params \<notin> used" "t1 \<le> t2"
    and "AddConnection params b1 b2 (t0, t1, t2) t = (r, t')"
  shows "inv p4 p6 t' expired emptied (insert (cp_client_id params) used)"
proof -
  let ?cid = "cp_client_id params"
  have same: "inv p4 p6 t expired emptied (insert ?cid used)"
    using assms(1) inv_clients_used_mono by (simp add: inv_def)
  have maps: "inv_maps t" using assms(1) by (simp add: inv_def)
  note D = inv_mapsD [OF maps]
  show ?thesis
  proof (cases "map_of (tb_session t) (cp_session_id params)")
    case (Some m)
    have lm: "live t m" by (rule D(9) [OF Some])
    obtain added mx where add: "AddClientConnection params (t0, t1, t2) (mplx t m) = (added, mx)"
      by fastforce
    note h = AddClientConnection_spec [OF assms(4) add]
    show ?thesis
    proof (cases "mx_username (mplx t m) \<noteq> cp_username params \<or> \<not> added")
      case True
      then have "t' = t" using assms(5) Some add by (auto simp: AddConnection_def split: if_splits)
      then show ?thesis using same by simp
    next
      case False
      then have "t' = set_mplx m mx (t\<lparr>tb_client := um_insert ?cid m (tb_client t)\<rparr>)"
        using assms(5) Some add by (auto simp: AddConnection_def set_mplx_def)
      moreover have "same_static (mplx t m) mx" using h by (simp add: same_static_def)
      ultimately show ?thesis
        using inv_join [OF assms(1,3) lm _ h(4) [OF D(6) [OF lm]]] h(2) False by simp
    qed
  next
    case None
    show ?thesis
    proof (cases "tb_free_ipv4 t = [] \<or> tb_free_ipv6 t = []")
      case True
      then have "t' = t" using assms(5) None by (auto simp: AddConnection_def)
      then show ?thesis using same by simp
    next
      case False
      let ?mx = "Multiplexer_Create params (last (tb_free_ipv4 t)) (last (tb_free_ipv6 t)) b1 b2 (t0, t1, t2)"
      have st: "mx_session_id ?mx = cp_session_id params" "mx_fake_ipv4 ?mx = last (tb_free_ipv4 t)"
        "mx_fake_ipv6 ?mx = last (tb_free_ipv6 t)"
        by (simp_all add: Multiplexer_Create_def split: prod.splits)
      show ?thesis
        using inv_new [OF assms(1-3) None _ _ st Multiplexer_Create_ids(2,1) [OF assms(4)]] False
          assms(5) None by (auto simp: AddConnection_def Let_def)
    qed
  qed
qed

fun state_inv :: "ip_address list \<Rightarrow> ip_address list \<Rightarrow> nat_state \<Rightarrow> bool" where
  "state_inv p4 p6 (t, pend, used) \<longleftrightarrow>
     inv p4 p6 t (pending_expired pend) (pending_emptied pend) used"

lemma pending_simps:
  "pending_expired (xs @ w # ys) = set (fst w) \<union> pending_expired (xs @ ys)"
  "pending_emptied (xs @ w # ys) = set (snd w) \<union> pending_emptied (xs @ ys)"
  "pending_expired (w # ys) = set (fst w) \<union> pending_expired ys"
  "pending_emptied (w # ys) = set (snd w) \<union> pending_emptied ys"
  by (auto simp: pending_expired_def pending_emptied_def)

lemma state_inv_step:
  assumes "table_step s s'" "state_inv p4 p6 s" "pool_ok p4 p6"
  shows "state_inv p4 p6 s'"
  using assms(1,2)
proof cases
  case (add params used t1 t2 b1 b2 t0 t r t' pend)
  then show ?thesis using inv_AddConnection [OF _ assms(3)] assms(2) by auto
next
  case (del cid t r t' pend used)
  then show ?thesis using inv_del assms(2) by (metis snd_conv state_inv.simps)
next
  case (scan clocks t work t' pend used)
  then show ?thesis
    using inv_UpdateScan [OF _ scan(3), of p4 p6 t "pending_expired pend" "pending_emptied pend" used
        "fst work" "snd work" t'] assms(2)
    by (simp add: pending_simps Un_commute)
next
  case (finish work t t' xs used ys)
  then show ?thesis
    using inv_UpdateFinish [of p4 p6 t "fst work" _ "snd work"] assms(2)
    by (simp add: pending_simps)
next
  case (traffic t m mx pend used b1 b2 d k)
  then show ?thesis using inv_traffic [OF _ traffic(3)] assms(2) by auto
qed

text \<open>A table without registered clients and without outstanding releases is empty.\<close>

lemma inv_no_leak:
  assumes "inv p4 p6 t {} {} used" and "tb_client t = []"
  shows "tb_session t = [] \<and> mset (tb_free_ipv4 t) = mset p4 \<and> mset (tb_free_ipv6 t) = mset p6"
proof -
  have I: "inv_maps t" "inv_pool p4 p6 t" "inv_clients t {} {} used"
    using assms(1) by (simp_all add: inv_def)
  note D = inv_mapsD [OF I(1)] and C = inv_clientsD [OF I(3)]
  have "tb_session t = []"
  proof (rule ccontr)
    assume "tb_session t \<noteq> []"
    then obtain e where "e \<in> set (tb_session t)" by (cases "tb_session t") auto
    then have "map_of (tb_session t) (fst e) = Some (snd e)"
      using um.entries_find [OF D(1)] by (metis prod.collapse)
    from D(9) [OF this] have l: "live t (snd e)" .
    then have "\<not> mx_Empty (mplx t (snd e))" using C(3) by blast
    then obtain cid where "cid \<in> mx_ids (mplx t (snd e))" by (auto simp: mx_Empty_iff)
    then show False using C(2) [OF l] assms(2) by simp
  qed
  then show ?thesis using I(2) by (simp add: inv_pool_def)
qed

definition empty_table :: "table \<Rightarrow> bool" where
  "empty_table t \<longleftrightarrow> tb_session t = [] \<and> tb_ipv4 t = [] \<and> tb_ipv6 t = [] \<and> tb_client t = []"

lemma state_inv_init:
  assumes "empty_table t"
  shows "state_inv (tb_free_ipv4 t) (tb_free_ipv6 t) (t, [], {})"
  using assms
  by (simp add: empty_table_def inv_def inv_maps_def inv_pool_def inv_clients_def live_def
      pending_expired_def pending_emptied_def)

lemma reachable_inv:
  assumes "reachable init s" "empty_table init" "pool_ok (tb_free_ipv4 init) (tb_free_ipv6 init)"
  shows "state_inv (tb_free_ipv4 init) (tb_free_ipv6 init) s"
  using assms(1)
proof induction
  case start
  show ?case by (rule state_inv_init [OF assms(2)])
next
  case (step s s')
  then show ?case using state_inv_step [OF _ _ assms(3)] by blast
qed

section \<open>The initial table\<close>

lemma filter_neq_distinct: "distinct (map f xs) \<Longrightarrow> distinct (map f (filter P xs))"
  by (rule distinct_map_filter)

lemma v4_list_ok:
  assumes "n \<le> 4294967296"
  shows "distinct (map IPAddress_ToInt (map (\<lambda>i. v4_at lib (w + 1 + word_of_nat i)) [0..<n]))"
proof -
  have "inj_on (\<lambda>i. (w :: u32) + 1 + word_of_nat i) {0..<n}"
    using assms by (intro word_offset_inj) simp
  then show ?thesis by (simp add: comp_def v4_at_def IPAddress_ToInt_def distinct_map)
qed

lemma v6_list_ok:
  assumes "netlib_ok lib" "n \<le> 4294967296"
  shows "distinct (map ip_str (map (\<lambda>i. v6_at lib (w + 1 + word_of_nat i)) [0..<n]))"
proof -
  have "(4294967296 :: nat) \<le> 2 ^ LENGTH(128)" by simp
  then have "inj_on (\<lambda>i. (w :: u128) + 1 + word_of_nat i) {0..<n}"
    using assms(2) by (intro word_offset_inj) linarith
  moreover have "inj (\<lambda>w. to_string lib (V6 w))"
  proof (rule injI)
    fix x y assume "to_string lib (V6 x) = to_string lib (V6 y)"
    then show "x = y" by (metis addr.inject(2) netlib_okD(1) [OF assms(1)] option.inject)
  qed
  ultimately have "inj_on ((\<lambda>w. to_string lib (V6 w)) \<circ> (\<lambda>i. w + 1 + word_of_nat i)) {0..<n}"
    by (intro comp_inj_on) (auto intro: inj_on_subset)
  then show ?thesis by (simp add: comp_def v6_at_def distinct_map)
qed

lemma Table_new_aligned:
  assumes "netlib_ok lib"
    and "make_address_v4 lib (ip_str (tun_ipv4_network cfg)) = Some w4" "1 \<le> b4" "b4 \<le> 30"
      "aligned4 w4 b4" "tun_network_ipv4_mask cfg = word_of_nat b4"
    and "make_address_v6 lib (ip_str (tun_ipv6_network cfg)) = Some w6" "1 \<le> b6" "b6 \<le> 126"
      "aligned6 w6 b6" "tun_network_ipv6_mask cfg = word_of_nat b6"
  shows "\<exists>t n. Table_new lib cfg = Inr t \<and> empty_table t \<and>
           n = min (2 ^ (32 - b4) - 2) (2 ^ (128 - b6) - 2) \<and>
           tb_free_ipv4 t = filter (\<lambda>ip. IPAddress_neq ip (tun_ipv4 cfg))
             (map (\<lambda>i. v4_at lib (w4 + 1 + word_of_nat i)) [0..<n]) \<and>
           tb_free_ipv6 t = filter (\<lambda>ip. IPAddress_neq ip (tun_ipv6 cfg))
             (map (\<lambda>i. v6_at lib (w6 + 1 + word_of_nat i)) [0..<n]) \<and>
           pool_ok (tb_free_ipv4 t) (tb_free_ipv6 t)"
proof -
  obtain g4 where g4: "IPv4AddressGenerator lib (tun_ipv4_network cfg) (tun_network_ipv4_mask cfg) = Inr g4"
    "g4_ip g4 = w4" "unat (g4_num_available g4) = 2 ^ (32 - b4) - 2"
    "unat (g4_broadcast g4) = unat w4 + 2 ^ (32 - b4) - 1"
    using IPv4AddressGenerator_aligned [OF assms(2-5)] assms(6) by auto
  obtain g6 where g6: "IPv6AddressGenerator lib (tun_ipv6_network cfg) (tun_network_ipv6_mask cfg) = Inr g6"
    "g6_current_addr g6 = w6" "unat (g6_max_addr g6) = unat w6 + 2 ^ (128 - b6) - 1"
    "unat (IPv6_NumAvailableAddresses g6) = 2 ^ (128 - b6) - 2"
    using IPv6AddressGenerator_aligned [OF assms(7-10)] assms(11) by auto
  define N4 :: nat where "N4 = 2 ^ (32 - b4) - 2"
  define N6 :: nat where "N6 = 2 ^ (128 - b6) - 2"
  have p4: "(4 :: nat) \<le> 2 ^ (32 - b4)" using assms(4) power_increasing [of 2 "32 - b4" "2 :: nat"] by simp
  have p6: "(4 :: nat) \<le> 2 ^ (128 - b6)" using assms(9) power_increasing [of 2 "128 - b6" "2 :: nat"] by simp
  have u4: "unat (g4_num_available g4) = N4" and u6: "unat (IPv6_NumAvailableAddresses g6) = N6"
    using g4(3) g6(4) by (simp_all add: N4_def N6_def)
  have b4: "unat w4 + N4 < unat (g4_broadcast g4)" using g4(4) p4 by (simp add: N4_def)
  have b6: "unat w6 + N6 < unat (g6_max_addr g6)" using g6(3) p6 by (simp add: N6_def)
  have l4: "N4 < 4294967296" using u4 unat_u32_less [of "g4_num_available g4"] by simp
  have "unat (ucast (g4_num_available g4) :: u128) = N4"
    using u4 l4 by (simp add: unat_ucast_eq_mod)
  then have cmp: "ucast (g4_num_available g4) < IPv6_NumAvailableAddresses g6 \<longleftrightarrow> N4 < N6"
    using u6 by (simp add: word_less_nat_alt)
  have cap: "table_capacity g4 g6 = min N4 N6"
  proof (cases "N4 < N6")
    case True
    then show ?thesis using cmp u4 by (simp add: table_capacity_def IPv4_NumAvailableAddresses_def Let_def)
  next
    case False
    then have "unat (ucast (IPv6_NumAvailableAddresses g6) :: u32) = N6"
      using u6 l4 by (simp add: unat_ucast_eq_mod)
    then show ?thesis
      using False cmp by (simp add: table_capacity_def IPv4_NumAvailableAddresses_def Let_def)
  qed
  let ?n = "min N4 N6"
  have t4: "fst (take4 lib ?n g4) = map (\<lambda>i. v4_at lib (w4 + 1 + word_of_nat i)) [0..<?n]"
    using take4_eq [OF assms(1), of g4 ?n] b4 g4(2) by simp
  have t6: "fst (take6 lib ?n g6) = map (\<lambda>i. v6_at lib (w6 + 1 + word_of_nat i)) [0..<?n]"
    using take6_eq [OF assms(1), of g6 ?n] b6 g6(2) by simp
  have n: "?n \<le> 4294967296" using l4 by simp
  show ?thesis
    using g4(1) g6(1) t4 t6 v4_list_ok [OF n, of lib w4] v6_list_ok [OF assms(1) n, of w6]
    by (simp add: Table_new_def cap Let_def empty_table_def pool_ok_def N4_def [symmetric]
        N6_def [symmetric] distinct_map_filter del: map_map)
qed

section \<open>Properties\<close>

text \<open>A configuration with a /29 IPv4 and a /125 IPv6 network, used by the witnesses.\<close>

definition demo_config :: table_config where
  "demo_config = \<lparr>tun_ipv4 = v4_at demo_lib 0x0A0A0001, tun_ipv4_network = demo_net4,
     tun_network_ipv4_mask = 29, tun_ipv6 = v6_at demo_lib 0xFD000000000000000000000000000001,
     tun_ipv6_network = demo_net6, tun_network_ipv6_mask = 125\<rparr>"

definition demo_table :: table where
  "demo_table = (case Table_new demo_lib demo_config of Inr t \<Rightarrow> t)"

lemma demo_table_ok:
  "empty_table demo_table" "pool_ok (tb_free_ipv4 demo_table) (tb_free_ipv6 demo_table)"
proof -
  have "tun_network_ipv4_mask demo_config = word_of_nat 29" "tun_network_ipv6_mask demo_config = word_of_nat 125"
    "tun_ipv4_network demo_config = demo_net4" "tun_ipv6_network demo_config = demo_net6"
    by (simp_all add: demo_config_def)
  then obtain t where "Table_new demo_lib demo_config = Inr t" "empty_table t"
    "pool_ok (tb_free_ipv4 t) (tb_free_ipv6 t)"
    using Table_new_aligned [OF demo_lib_ok, of demo_config "0x0A0A0000" 29
        "0xFD000000000000000000000000000000" 125] demo_net_facts by auto
  then show "empty_table demo_table" "pool_ok (tb_free_ipv4 demo_table) (tb_free_ipv6 demo_table)"
    by (simp_all add: demo_table_def)
qed

definition demo_params :: "client_id \<Rightarrow> string \<Rightarrow> connect_params" where
  "demo_params cid sid = \<lparr>cp_client_id = cid, cp_url = ''/fptn'', cp_jwt_auth_token = ''t'',
     cp_session_id = sid, cp_connection_weight = 1, cp_send_duration_ms = 0, cp_ttl_ms = 0,
     cp_client_ipv4 = v4_at demo_lib 1, cp_client_tun_vpn_ipv4 = v4_at demo_lib 2,
     cp_client_tun_vpn_ipv6 = v6_at demo_lib 3, cp_username = ''user'', cp_bandwidth_bites_seconds = 0\<rparr>"

definition demo_added :: table where
  "demo_added = snd (AddConnection (demo_params 1 ''s'') (LeakyBucket_new 0 0) (LeakyBucket_new 0 0)
                       (0, 0, 0) demo_table)"

lemma filter_upt_nonempty: "P (f i) \<Longrightarrow> i < n \<Longrightarrow> filter P (map f [0..<n]) \<noteq> []"
  by (auto simp: filter_empty_conv)

lemma demo_pool_nonempty: "tb_free_ipv4 demo_table \<noteq> []" "tb_free_ipv6 demo_table \<noteq> []"
proof -
  have "tun_network_ipv4_mask demo_config = word_of_nat 29" "tun_network_ipv6_mask demo_config = word_of_nat 125"
    "tun_ipv4_network demo_config = demo_net4" "tun_ipv6_network demo_config = demo_net6"
    by (simp_all add: demo_config_def)
  then obtain t n where t: "Table_new demo_lib demo_config = Inr t" and n: "n = (6::nat)"
    and f: "tb_free_ipv4 t = filter (\<lambda>ip. IPAddress_neq ip (tun_ipv4 demo_config))
              (map (\<lambda>i. v4_at demo_lib (0x0A0A0000 + 1 + word_of_nat i)) [0..<n])"
      "tb_free_ipv6 t = filter (\<lambda>ip. IPAddress_neq ip (tun_ipv6 demo_config))
              (map (\<lambda>i. v6_at demo_lib (0xFD000000000000000000000000000000 + 1 + word_of_nat i)) [0..<n])"
    using Table_new_aligned [OF demo_lib_ok, of demo_config "0x0A0A0000" 29
        "0xFD000000000000000000000000000000" 125] demo_net_facts by auto
  have p: "IPAddress_neq (v4_at demo_lib (0x0A0A0000 + 1 + word_of_nat 1)) (tun_ipv4 demo_config)"
    "IPAddress_neq (v6_at demo_lib (0xFD000000000000000000000000000000 + 1 + word_of_nat 1)) (tun_ipv6 demo_config)"
    using v4_at_inj [OF demo_lib_ok] v6_at_inj [OF demo_lib_ok]
    by (auto simp: demo_config_def IPAddress_neq_iff IPAddress_eq_iff dest: injD)
  have "tb_free_ipv4 t \<noteq> []" unfolding f(1) by (rule filter_upt_nonempty [where i = 1]) (use p(1) in simp, simp add: n)
  moreover have "tb_free_ipv6 t \<noteq> []" unfolding f(2) by (rule filter_upt_nonempty [where i = 1]) (use p(2) in simp, simp add: n)
  ultimately show "tb_free_ipv4 demo_table \<noteq> []" "tb_free_ipv6 demo_table \<noteq> []"
    by (simp_all add: demo_table_def t)
qed

lemma demo_added_session: "map_of (tb_session demo_added) ''s'' = Some (tb_next demo_table)"
  using demo_pool_nonempty demo_table_ok(1)
  by (simp add: demo_added_def AddConnection_def empty_table_def um_insert_def demo_params_def Let_def)

lemma demo_reachable: "reachable demo_table (demo_added, [], {1})"
proof -
  have "table_step (demo_table, [], {}) (demo_added, [], insert (cp_client_id (demo_params 1 ''s'')) {})"
  proof (rule table_step.add)
    show "AddConnection (demo_params 1 ''s'') (LeakyBucket_new 0 0) (LeakyBucket_new 0 0) (0, 0, 0)
        demo_table = (fst (AddConnection (demo_params 1 ''s'') (LeakyBucket_new 0 0)
        (LeakyBucket_new 0 0) (0, 0, 0) demo_table), demo_added)" by (simp add: demo_added_def)
  qed simp_all
  then show ?thesis
    using reachable.step [OF reachable.start] by (simp add: demo_params_def)
qed

text \<open>C4: The address pool is conserved through every interleaving of additions, deletions and
  two-phase status updates: the free addresses together with the addresses of the active sessions
  are exactly the initial pool, each address once, for IPv4 and IPv6. No address leaks and none
  is lent twice.\<close>

theorem nat_pool_conserved:
  assumes "reachable init (t, pend, used)" and "empty_table init"
    and "pool_ok (tb_free_ipv4 init) (tb_free_ipv6 init)"
  shows "mset (tb_free_ipv4 t) + image_mset (\<lambda>e. mx_fake_ipv4 (mplx t (snd e))) (mset (tb_session t)) =
           mset (tb_free_ipv4 init) \<and>
         mset (tb_free_ipv6 t) + image_mset (\<lambda>e. mx_fake_ipv6 (mplx t (snd e))) (mset (tb_session t)) =
           mset (tb_free_ipv6 init) \<and>
         length (tb_free_ipv4 t) + length (tb_session t) = length (tb_free_ipv4 init)"
proof -
  have "inv_pool (tb_free_ipv4 init) (tb_free_ipv6 init) t"
    using reachable_inv [OF assms] by (simp add: inv_def)
  then have "mset (tb_free_ipv4 t) + image_mset (\<lambda>e. mx_fake_ipv4 (mplx t (snd e))) (mset (tb_session t)) =
           mset (tb_free_ipv4 init)"
    "mset (tb_free_ipv6 t) + image_mset (\<lambda>e. mx_fake_ipv6 (mplx t (snd e))) (mset (tb_session t)) =
           mset (tb_free_ipv6 init)"
    by (simp_all add: inv_pool_def)
  moreover from this(1) have "length (tb_free_ipv4 t) + length (tb_session t) = length (tb_free_ipv4 init)"
    by (metis size_image_mset size_mset size_union)
  ultimately show ?thesis by blast
qed

theorem nat_pool_conserved_witness:
  "length (tb_free_ipv4 demo_added) + length (tb_session demo_added) = length (tb_free_ipv4 demo_table)"
  using nat_pool_conserved [OF demo_reachable demo_table_ok] by blast

text \<open>The lookup maps agree with the sessions in every reachable state: an active session is
  found under its fake IPv4 and its fake IPv6 address and under every one of its connections,
  and whatever a lookup by fake address returns is an active session with that address.\<close>

theorem nat_lookups_agree:
  assumes "reachable init (t, pend, used)" and "empty_table init"
    and "pool_ok (tb_free_ipv4 init) (tb_free_ipv6 init)"
  shows "(\<forall>sid m. map_of (tb_session t) sid = Some m \<longrightarrow>
            GetMultiplexerByFakeIPv4 (mx_fake_ipv4 (mplx t m)) t = Some m \<and>
            GetMultiplexerByFakeIPv6 (mx_fake_ipv6 (mplx t m)) t = Some m \<and>
            (\<forall>cid \<in> mx_ids (mplx t m). GetMultiplexerByClientId cid t = Some m)) \<and>
         (\<forall>ip m. GetMultiplexerByFakeIPv4 ip t = Some m \<longrightarrow>
            live t m \<and> IPAddress_ToInt ip = IPAddress_ToInt (mx_fake_ipv4 (mplx t m))) \<and>
         (\<forall>ip m. GetMultiplexerByFakeIPv6 ip t = Some m \<longrightarrow>
            live t m \<and> ip_str ip = ip_str (mx_fake_ipv6 (mplx t m)))"
proof -
  have "inv_maps t" "inv_clients t (pending_expired pend) (pending_emptied pend) used"
    using reachable_inv [OF assms] by (simp_all add: inv_def)
  note D = inv_mapsD [OF this(1)] and C = inv_clientsD [OF this(2)]
  show ?thesis
    using D(7,8,9,11,12) C(2)
    by (auto simp: GetMultiplexerByFakeIPv4_def GetMultiplexerByFakeIPv6_def
        GetMultiplexerByClientId_def)
qed

theorem nat_lookups_agree_witness:
  "GetMultiplexerByFakeIPv4 (mx_fake_ipv4 (mplx demo_added (tb_next demo_table))) demo_added =
     Some (tb_next demo_table) \<and>
   GetMultiplexerByFakeIPv6 (mx_fake_ipv6 (mplx demo_added (tb_next demo_table))) demo_added =
     Some (tb_next demo_table)"
  using nat_lookups_agree [OF demo_reachable demo_table_ok] demo_added_session by blast

text \<open>No session outlives its connections: when no status update is half done, a reachable table
  with no registered client has no sessions and its whole pool is free again.\<close>

theorem nat_no_leak:
  assumes "reachable init (t, [], used)" and "empty_table init"
    and "pool_ok (tb_free_ipv4 init) (tb_free_ipv6 init)" and "tb_client t = []"
  shows "tb_session t = [] \<and> mset (tb_free_ipv4 t) = mset (tb_free_ipv4 init) \<and>
         mset (tb_free_ipv6 t) = mset (tb_free_ipv6 init)"
proof -
  have "inv (tb_free_ipv4 init) (tb_free_ipv6 init) t {} {} used"
    using reachable_inv [OF assms(1-3)] by (simp add: pending_expired_def pending_emptied_def)
  then show ?thesis using inv_no_leak assms(4) by blast
qed

definition demo_deleted :: table where
  "demo_deleted = snd (DelConnectionByClientId 1 demo_added)"

lemma demo_deleted_reachable: "reachable demo_table (demo_deleted, [], {1})"
  using reachable.step [OF demo_reachable table_step.del [of 1 demo_added _ demo_deleted]]
  by (simp add: demo_deleted_def prod_eq_iff)

lemma Release_client [simp]: "tb_client (ReleaseSessionIfEmpty m t) = tb_client t"
  by (simp add: ReleaseSessionIfEmpty_def Let_def)

lemma demo_deleted_client: "tb_client demo_deleted = []"
proof (cases "map_of (tb_client demo_added) 1")
  case None
  have "tb_client demo_added = [] \<or> (\<exists>m. tb_client demo_added = [(1, m)])"
    using demo_table_ok(1)
    by (auto simp: demo_added_def AddConnection_def empty_table_def um_insert_def demo_params_def Let_def)
  then show ?thesis using None by (auto simp: demo_deleted_def DelConnectionByClientId_def)
next
  case (Some m)
  have "tb_client demo_added = [] \<or> (\<exists>m. tb_client demo_added = [(1, m)])"
    using demo_table_ok(1)
    by (auto simp: demo_added_def AddConnection_def empty_table_def um_insert_def demo_params_def Let_def)
  then show ?thesis using Some
    by (auto simp: demo_deleted_def DelConnectionByClientId_def um_erase_def Let_def)
qed

theorem nat_no_leak_witness:
  "tb_session demo_deleted = [] \<and> mset (tb_free_ipv4 demo_deleted) = mset (tb_free_ipv4 demo_table)"
  using nat_no_leak [OF demo_deleted_reachable demo_table_ok demo_deleted_client] by blast

text \<open>The pool a new table starts with: on aligned networks it holds the first
  min(IPv4 hosts, IPv6 hosts) host addresses of each network except those equal, in text and in
  value, to the server's own tunnel addresses, and no address occurs twice.\<close>

theorem Table_new_pool:
  assumes "netlib_ok lib"
    and "make_address_v4 lib (ip_str (tun_ipv4_network cfg)) = Some w4" and "1 \<le> b4" and "b4 \<le> 30"
    and "aligned4 w4 b4" and "tun_network_ipv4_mask cfg = word_of_nat b4"
    and "make_address_v6 lib (ip_str (tun_ipv6_network cfg)) = Some w6" and "1 \<le> b6" and "b6 \<le> 126"
    and "aligned6 w6 b6" and "tun_network_ipv6_mask cfg = word_of_nat b6"
  shows "\<exists>t n. Table_new lib cfg = Inr t \<and> empty_table t \<and>
           n = min (2 ^ (32 - b4) - 2) (2 ^ (128 - b6) - 2) \<and>
           tb_free_ipv4 t = filter (\<lambda>ip. IPAddress_neq ip (tun_ipv4 cfg))
             (map (\<lambda>i. v4_at lib (w4 + 1 + word_of_nat i)) [0..<n]) \<and>
           tb_free_ipv6 t = filter (\<lambda>ip. IPAddress_neq ip (tun_ipv6 cfg))
             (map (\<lambda>i. v6_at lib (w6 + 1 + word_of_nat i)) [0..<n]) \<and>
           pool_ok (tb_free_ipv4 t) (tb_free_ipv6 t)"
  by (rule Table_new_aligned) (fact assms)+

theorem Table_new_pool_witness:
  "\<exists>t. Table_new demo_lib demo_config = Inr t \<and> pool_ok (tb_free_ipv4 t) (tb_free_ipv6 t)"
  using Table_new_pool [OF demo_lib_ok, of demo_config "0x0A0A0000" 29
      "0xFD000000000000000000000000000000" 125] demo_net_facts
  by (auto simp: demo_config_def)

end
