(* ===== verification/Obfuscator.thy ===== *)
theory Obfuscator
  imports IpAddress
begin

text \<open>
  The record obfuscators of \<open>src/fptn-protocol-lib/https/obfuscator/methods/\<close>: the deprecated
  \<open>TlsObfuscator\<close> (a 20-byte header with a magic number) and \<open>TlsObfuscator2\<close> (a 22-byte header
  recognised by a timestamp). An obfuscator's state is its \<open>input_buffer_\<close>; the random numbers
  and the clock are arguments. The locale \<open>obfuscator_contract\<close> is what the stream layer needs
  of an \<open>IObfuscator\<close>, and is interpreted on both.
\<close>

section \<open>Shared helpers\<close>

definition be16_bytes :: "u16 \<Rightarrow> byte list" where
  "be16_bytes w = [ucast (drop_bit 8 w), ucast (w AND 0xFF)]"

definition be16_of :: "byte \<Rightarrow> byte \<Rightarrow> u16" where
  "be16_of hi lo = push_bit 8 (ucast hi) OR ucast lo"

definition ApplyXorTransform :: "byte list \<Rightarrow> byte \<Rightarrow> byte list" where
  "ApplyXorTransform data key = map (\<lambda>b. b XOR key) data"

text \<open>\<open>AddData\<close> of both methods; they differ in the limit of the buffer.\<close>

definition AddData_limited :: "nat \<Rightarrow> byte list \<Rightarrow> byte list \<Rightarrow> bool \<times> byte list" where
  "AddData_limited kMmaxBufferSize data buf =
     (if length data > 0 then
        if length buf + length data > kMmaxBufferSize then
          let available_space = kMmaxBufferSize - length buf in
          if available_space > 0 then (True, buf @ take available_space data) else (False, buf)
        else (True, buf @ data)
      else (False, buf))"

text \<open>How a search through the buffer ends: the data is not of this protocol and is handed over as
  it is, no complete record starts before the offset reached, or a record was found.\<close>

datatype scan_result = AsIs | Exhausted nat | Found nat "byte list" nat

definition finish_scan :: "byte list \<Rightarrow> scan_result \<Rightarrow> byte list option \<times> byte list" where
  "finish_scan buf r =
     (case r of
        AsIs \<Rightarrow> (Some buf, [])
      | Exhausted search_offset \<Rightarrow> (None, drop search_offset buf)
      | Found search_offset output full_record_size \<Rightarrow>
          (if output \<noteq> [] then Some output else None,
           take search_offset buf @ drop (search_offset + full_record_size) buf))"

section \<open>TlsObfuscator\<close>

record tls_header =
  th_type :: byte
  th_major :: byte
  th_minor :: byte
  th_content :: u16
  th_random :: "byte list"
  th_magic :: u16
  th_version :: byte
  th_key :: byte
  th_payload :: u16
  th_padding :: byte

text \<open>The packed struct as it lies in memory, and back; \<open>tls_header_read\<close> is applied to the 20
  bytes of a \<open>memcpy\<close>.\<close>

definition tls_header_bytes :: "tls_header \<Rightarrow> byte list" where
  "tls_header_bytes h =
     [th_type h, th_major h, th_minor h] @ be16_bytes (th_content h) @ th_random h @
     be16_bytes (th_magic h) @ [th_version h, th_key h] @ be16_bytes (th_payload h) @ [th_padding h]"

definition tls_header_read :: "byte list \<Rightarrow> tls_header" where
  "tls_header_read p =
     \<lparr>th_type = p ! 0, th_major = p ! 1, th_minor = p ! 2, th_content = be16_of (p ! 3) (p ! 4),
      th_random = take 8 (drop 5 p), th_magic = be16_of (p ! 13) (p ! 14), th_version = p ! 15,
      th_key = p ! 16, th_payload = be16_of (p ! 17) (p ! 18), th_padding = p ! 19\<rparr>"

definition tls_is_fptn :: "tls_header \<Rightarrow> bool" where
  "tls_is_fptn h \<longleftrightarrow> th_magic h = 0x9763 \<and> th_version h = 1 \<and> th_major h = 3 \<and> th_minor h = 3"

definition tls_record_size :: "tls_header \<Rightarrow> nat" where
  "tls_record_size h = 20 + unat (th_payload h) + unat (th_padding h)"

definition tls_AddData :: "byte list \<Rightarrow> byte list \<Rightarrow> bool \<times> byte list" where
  "tls_AddData = AddData_limited 65536"

function tls_scan :: "byte list \<Rightarrow> nat \<Rightarrow> scan_result" where
  "tls_scan buf off =
     (if length buf - off \<ge> 20 then
        let h = tls_header_read (take 20 (drop off buf)) in
        if \<not> tls_is_fptn h then AsIs
        else if \<not> unat (th_content h) \<ge> 11 + 1 + 2 + 1 then tls_scan buf (off + 1)
        else if length buf - off < tls_record_size h then Exhausted off
        else Found off
               (ApplyXorTransform (take (unat (th_payload h)) (drop (off + 20) buf)) (th_key h))
               (tls_record_size h)
      else Exhausted off)"
  by auto
termination by (relation "measure (\<lambda>(buf, off). length buf - off)") auto

declare tls_scan.simps [simp del]

definition tls_Deobfuscate :: "byte list \<Rightarrow> byte list option \<times> byte list" where
  "tls_Deobfuscate buf =
     (if length buf < 20 then (None, buf) else finish_scan buf (tls_scan buf 0))"

text \<open>The random choices of one \<open>Obfuscate\<close> call.\<close>

record tls_random =
  tr_padding :: "byte list"
  tr_key :: byte
  tr_data :: "byte list"

definition tls_new_header :: "tls_random \<Rightarrow> nat \<Rightarrow> tls_header" where
  "tls_new_header r n =
     \<lparr>th_type = 0x17, th_major = 3, th_minor = 3,
      th_content = of_nat (8 + 2 + 1 + 1 + 2 + 1 + unat (of_nat n :: u16) + length (tr_padding r)),
      th_random = tr_data r, th_magic = 0x9763, th_version = 1, th_key = tr_key r,
      th_payload = of_nat n, th_padding = of_nat (length (tr_padding r))\<rparr>"

definition tls_Obfuscate :: "tls_random \<Rightarrow> byte list \<Rightarrow> byte list option" where
  "tls_Obfuscate r data =
     (let result = tls_header_bytes (tls_new_header r (length data)) @
                   ApplyXorTransform data (tr_key r) @ tr_padding r in
      if result \<noteq> [] then Some result else None)"

definition tls_CheckProtocol :: "byte list \<Rightarrow> bool" where
  "tls_CheckProtocol data =
     (if length data < 20 then False
      else let h = tls_header_read (take 20 data) in
        th_type h = 0x17 \<and> tls_is_fptn h \<and>
        unat (th_content h) \<ge> 11 + 1 + 2 + 1 \<and> unat (th_content h) \<le> 16384 \<and>
        int (unat (th_payload h)) \<le> int (unat (th_content h)) - 11 - 1 - 2 - 1)"

section \<open>TlsObfuscator2\<close>

record tls2_header =
  t2_type :: byte
  t2_major :: byte
  t2_minor :: byte
  t2_content :: u16
  t2_random :: "byte list"
  t2_timestamp :: u32
  t2_key :: byte
  t2_payload :: u16
  t2_padding :: u16

definition tls2_header_bytes :: "tls2_header \<Rightarrow> byte list" where
  "tls2_header_bytes h =
     [t2_type h, t2_major h, t2_minor h] @ be16_bytes (t2_content h) @ t2_random h @
     be32_bytes (t2_timestamp h) @ [t2_key h] @ be16_bytes (t2_payload h) @
     be16_bytes (t2_padding h)"

definition tls2_header_read :: "byte list \<Rightarrow> tls2_header" where
  "tls2_header_read p =
     \<lparr>t2_type = p ! 0, t2_major = p ! 1, t2_minor = p ! 2, t2_content = be16_of (p ! 3) (p ! 4),
      t2_random = take 8 (drop 5 p), t2_timestamp = be32_of (take 4 (drop 13 p)), t2_key = p ! 17,
      t2_payload = be16_of (p ! 18) (p ! 19), t2_padding = be16_of (p ! 20) (p ! 21)\<rparr>"

definition IsValidTimestamp :: "u32 \<Rightarrow> u32 \<Rightarrow> bool" where
  "IsValidTimestamp now timestamp \<longleftrightarrow> timestamp \<le> now + 10 \<and> now \<le> timestamp + 10"

definition tls2_is_fptn :: "u32 \<Rightarrow> tls2_header \<Rightarrow> bool" where
  "tls2_is_fptn now h \<longleftrightarrow> IsValidTimestamp now (t2_timestamp h) \<and> t2_major h = 3 \<and> t2_minor h = 3"

definition tls2_lengths_fit :: "tls2_header \<Rightarrow> bool" where
  "tls2_lengths_fit h \<longleftrightarrow>
     unat (t2_content h) \<ge> 8 + 4 + 1 + 2 + 2 + unat (t2_payload h) + unat (t2_padding h)"

definition tls2_record_size :: "tls2_header \<Rightarrow> nat" where
  "tls2_record_size h = 22 + unat (t2_payload h) + unat (t2_padding h)"

definition tls2_AddData :: "byte list \<Rightarrow> byte list \<Rightarrow> bool \<times> byte list" where
  "tls2_AddData = AddData_limited (1024 * 256)"

function tls2_scan :: "u32 \<Rightarrow> byte list \<Rightarrow> nat \<Rightarrow> scan_result" where
  "tls2_scan now buf off =
     (if length buf - off \<ge> 22 then
        let h = tls2_header_read (take 22 (drop off buf)) in
        if \<not> tls2_is_fptn now h then tls2_scan now buf (off + 1)
        else if \<not> tls2_lengths_fit h then tls2_scan now buf (off + 1)
        else if length buf - off < tls2_record_size h then Exhausted off
        else Found off
               (ApplyXorTransform (take (unat (t2_payload h)) (drop (off + 22) buf)) (t2_key h))
               (tls2_record_size h)
      else Exhausted off)"
  by auto
termination by (relation "measure (\<lambda>(now, buf, off). length buf - off)") auto

declare tls2_scan.simps [simp del]

definition tls2_Deobfuscate :: "u32 \<Rightarrow> byte list \<Rightarrow> byte list option \<times> byte list" where
  "tls2_Deobfuscate now buf =
     (if length buf < 22 then (None, buf) else finish_scan buf (tls2_scan now buf 0))"

definition tls2_new_header :: "tls_random \<Rightarrow> u32 \<Rightarrow> nat \<Rightarrow> tls2_header" where
  "tls2_new_header r now n =
     \<lparr>t2_type = 0x17, t2_major = 3, t2_minor = 3,
      t2_content = of_nat (8 + 4 + 1 + 2 + 2 + unat (of_nat n :: u16) + length (tr_padding r)),
      t2_random = tr_data r, t2_timestamp = now, t2_key = tr_key r,
      t2_payload = of_nat n, t2_padding = of_nat (length (tr_padding r))\<rparr>"

definition tls2_Obfuscate :: "tls_random \<Rightarrow> u32 \<Rightarrow> byte list \<Rightarrow> byte list option" where
  "tls2_Obfuscate r now data =
     (let result = tls2_header_bytes (tls2_new_header r now (length data)) @
                   ApplyXorTransform data (tr_key r) @ tr_padding r in
      if result \<noteq> [] then Some result else None)"

definition tls2_CheckProtocol :: "u32 \<Rightarrow> byte list \<Rightarrow> bool" where
  "tls2_CheckProtocol now data =
     (if length data < 22 then False
      else let h = tls2_header_read (take 22 data) in
        t2_type h = 0x17 \<and> tls2_is_fptn now h \<and> tls2_lengths_fit h \<and>
        unat (t2_content h) \<le> 16384)"

text \<open>The members the two classes share: resetting and asking for pending data.\<close>

definition ob_Reset :: "byte list \<Rightarrow> byte list" where
  "ob_Reset buf = []"

definition ob_HasPendingData :: "byte list \<Rightarrow> bool" where
  "ob_HasPendingData buf \<longleftrightarrow> buf \<noteq> []"

section \<open>Choosing an obfuscator\<close>

datatype obf_method = Tls | Tls2

definition DetectObfuscator :: "u32 \<Rightarrow> byte list \<Rightarrow> obf_method option" where
  "DetectObfuscator now data =
     (if tls2_CheckProtocol now data then Some Tls2
      else if tls_CheckProtocol data then Some Tls
      else None)"

definition GetObfuscatorNames :: "string list" where
  "GetObfuscatorNames = [''tls'', ''none'']"

text \<open>The outer option is the \<open>std::optional\<close>, the inner one the possibly null pointer.\<close>

definition GetObfuscatorByName :: "string \<Rightarrow> obf_method option option" where
  "GetObfuscatorByName name =
     (if name = ''tls'' then Some (Some Tls)
      else if name = ''none'' then Some None
      else None)"

section \<open>Headers\<close>

lemma length_be16_bytes [simp]: "length (be16_bytes w) = 2"
  by (simp add: be16_bytes_def)

lemma be16_of_bytes: "be16_of (ucast (drop_bit 8 w)) (ucast (w AND 0xFF)) = w"
proof (rule word_unat_eq_iff [THEN iffD2])
  show "unat (be16_of (ucast (drop_bit 8 w)) (ucast (w AND 0xFF))) = unat w"
    unfolding be16_of_def unat_hi_lo_u16 unat_hi_byte unat_lo_byte by (rule div_mult_mod_eq)
qed

lemma length_tls_header [simp]: "length (tls_header_bytes h) = 12 + length (th_random h)"
  by (simp add: tls_header_bytes_def)

lemma length_tls2_header [simp]: "length (tls2_header_bytes h) = 14 + length (t2_random h)"
  by (simp add: tls2_header_bytes_def)

lemma list8: "length r = 8 \<Longrightarrow> \<exists>a b c d e f g h. r = [a, b, c, d, e, f, g, h]"
  by (auto simp: eval_nat_numeral length_Suc_conv)

lemma list4: "length r = 4 \<Longrightarrow> \<exists>a b c d. r = [a, b, c, d]"
  by (auto simp: eval_nat_numeral length_Suc_conv)

lemma tls_header_roundtrip:
  assumes "length (th_random h) = 8"
  shows "tls_header_read (take 20 (tls_header_bytes h @ rest)) = h"
proof -
  obtain a b c d e f g i where r: "th_random h = [a, b, c, d, e, f, g, i]" using list8 [OF assms] by blast
  show ?thesis
    by (cases h) (use r in \<open>simp add: tls_header_read_def tls_header_bytes_def be16_bytes_def be16_of_bytes\<close>)
qed

lemma tls2_header_roundtrip:
  assumes "length (t2_random h) = 8"
  shows "tls2_header_read (take 22 (tls2_header_bytes h @ rest)) = h"
proof -
  obtain a b c d e f g i where r: "t2_random h = [a, b, c, d, e, f, g, i]" using list8 [OF assms] by blast
  obtain w x y z where t: "be32_bytes (t2_timestamp h) = [w, x, y, z]" using list4 [OF length_be32_bytes] by blast
  have "be32_of [w, x, y, z] = t2_timestamp h" by (simp flip: t)
  then show ?thesis
    by (cases h) (use r t in \<open>simp add: tls2_header_read_def tls2_header_bytes_def be16_bytes_def be16_of_bytes\<close>)
qed

lemma length_xor [simp]: "length (ApplyXorTransform d k) = length d"
  by (simp add: ApplyXorTransform_def)

lemma xor_xor [simp]: "ApplyXorTransform (ApplyXorTransform d k) k = d"
  by (induction d) (simp_all add: ApplyXorTransform_def xor.assoc)

lemma xor_Nil_iff [simp]: "ApplyXorTransform d k = [] \<longleftrightarrow> d = []"
  by (simp add: ApplyXorTransform_def)

text \<open>Sixteen-bit lengths.\<close>

lemma unat_of_nat_u16: "unat (of_nat n :: u16) = n mod 65536"
  by (simp add: unat_of_nat)

lemma unat_of_nat_byte: "unat (of_nat n :: byte) = n mod 256"
  by (simp add: unat_of_nat)

lemma IsValidTimestamp_iff:
  assumes "unat now + 20 < 4294967296"
  shows "IsValidTimestamp now ts \<longleftrightarrow> unat now \<le> unat ts + 10 \<and> unat ts \<le> unat now + 10"
proof -
  have n: "unat (now + 10) = unat now + 10"
    using assms by (subst unat_plus_if') auto
  show ?thesis
  proof (cases "unat ts + 10 < 4294967296")
    case True
    then have "unat (ts + 10) = unat ts + 10" by (subst unat_plus_if') auto
    then show ?thesis using n by (auto simp: IsValidTimestamp_def word_le_nat_alt)
  next
    case False
    then have "\<not> unat ts \<le> unat now + 10" using assms by linarith
    then show ?thesis using n by (simp add: IsValidTimestamp_def word_le_nat_alt)
  qed
qed

section \<open>Records on the wire\<close>

text \<open>\<open>w\<close> is a record of the method that carries the payload \<open>x\<close> and is accepted at the time
  \<open>now\<close>.\<close>

definition tls_wire :: "u32 \<Rightarrow> byte list \<Rightarrow> byte list \<Rightarrow> bool" where
  "tls_wire now x w \<longleftrightarrow> (\<exists>h pad. w = tls_header_bytes h @ ApplyXorTransform x (th_key h) @ pad \<and>
     length (th_random h) = 8 \<and> tls_is_fptn h \<and> 15 \<le> unat (th_content h) \<and>
     unat (th_payload h) = length x \<and> unat (th_padding h) = length pad)"

definition tls2_wire :: "u32 \<Rightarrow> byte list \<Rightarrow> byte list \<Rightarrow> bool" where
  "tls2_wire now x w \<longleftrightarrow> (\<exists>h pad. w = tls2_header_bytes h @ ApplyXorTransform x (t2_key h) @ pad \<and>
     length (t2_random h) = 8 \<and> tls2_is_fptn now h \<and> tls2_lengths_fit h \<and>
     unat (t2_payload h) = length x \<and> unat (t2_padding h) = length pad)"

lemma split_prefix:
  assumes "a @ b = p @ q" "length a \<le> length p"
  shows "\<exists>c. p = a @ c \<and> b = c @ q"
  using assms by (auto simp: append_eq_append_conv2)

lemma tls_Deobfuscate_record:
  assumes "tls_wire now x w" "x \<noteq> []"
  shows "tls_Deobfuscate (w @ rest) = (Some x, rest)"
proof -
  obtain h pad where w: "w = tls_header_bytes h @ ApplyXorTransform x (th_key h) @ pad"
    and h: "length (th_random h) = 8" "tls_is_fptn h" "15 \<le> unat (th_content h)"
      "unat (th_payload h) = length x" "unat (th_padding h) = length pad"
    using assms(1) by (auto simp: tls_wire_def)
  have t: "tls_header_read (tls_header_bytes h) = h" using tls_header_roundtrip [OF h(1), of "[]"] h(1) by simp
  have "tls_scan (w @ rest) 0 = Found 0 x (length w)"
    using h w by (subst tls_scan.simps) (simp add: t Let_def tls_record_size_def)
  then show ?thesis using assms(2) h(1) w by (simp add: tls_Deobfuscate_def finish_scan_def)
qed

lemma tls_Deobfuscate_partial:
  assumes "tls_wire now x (b @ rest)" "rest \<noteq> []"
  shows "tls_Deobfuscate b = (None, b)"
proof (cases "length b < 20")
  case True
  then show ?thesis by (simp add: tls_Deobfuscate_def)
next
  case False
  obtain h pad where w: "b @ rest = tls_header_bytes h @ ApplyXorTransform x (th_key h) @ pad"
    and h: "length (th_random h) = 8" "tls_is_fptn h" "15 \<le> unat (th_content h)"
      "unat (th_payload h) = length x" "unat (th_padding h) = length pad"
    using assms(1) by (auto simp: tls_wire_def)
  obtain c where b: "b = tls_header_bytes h @ c" using split_prefix [OF w [symmetric]] False h(1) by auto
  have t: "tls_header_read (take 20 b) = h" unfolding b by (rule tls_header_roundtrip [OF h(1)])
  have l: "length b < 20 + length x + length pad"
    using arg_cong [OF w, of length] assms(2) h(1) by (cases rest) auto
  have "tls_scan b 0 = Exhausted 0"
    using h l False by (subst tls_scan.simps) (simp add: t Let_def tls_record_size_def)
  then show ?thesis using False by (simp add: tls_Deobfuscate_def finish_scan_def)
qed

lemma tls2_Deobfuscate_record:
  assumes "tls2_wire now x w" "x \<noteq> []"
  shows "tls2_Deobfuscate now (w @ rest) = (Some x, rest)"
proof -
  obtain h pad where w: "w = tls2_header_bytes h @ ApplyXorTransform x (t2_key h) @ pad"
    and h: "length (t2_random h) = 8" "tls2_is_fptn now h" "tls2_lengths_fit h"
      "unat (t2_payload h) = length x" "unat (t2_padding h) = length pad"
    using assms(1) by (auto simp: tls2_wire_def)
  have t: "tls2_header_read (tls2_header_bytes h) = h" using tls2_header_roundtrip [OF h(1), of "[]"] h(1) by simp
  have "tls2_scan now (w @ rest) 0 = Found 0 x (length w)"
    using h w by (subst tls2_scan.simps) (simp add: t Let_def tls2_record_size_def)
  then show ?thesis using assms(2) h(1) w by (simp add: tls2_Deobfuscate_def finish_scan_def)
qed

lemma tls2_Deobfuscate_partial:
  assumes "tls2_wire now x (b @ rest)" "rest \<noteq> []"
  shows "tls2_Deobfuscate now b = (None, b)"
proof (cases "length b < 22")
  case True
  then show ?thesis by (simp add: tls2_Deobfuscate_def)
next
  case False
  obtain h pad where w: "b @ rest = tls2_header_bytes h @ ApplyXorTransform x (t2_key h) @ pad"
    and h: "length (t2_random h) = 8" "tls2_is_fptn now h" "tls2_lengths_fit h"
      "unat (t2_payload h) = length x" "unat (t2_padding h) = length pad"
    using assms(1) by (auto simp: tls2_wire_def)
  obtain c where b: "b = tls2_header_bytes h @ c" using split_prefix [OF w [symmetric]] False h(1) by auto
  have t: "tls2_header_read (take 22 b) = h" unfolding b by (rule tls2_header_roundtrip [OF h(1)])
  have l: "length b < 22 + length x + length pad"
    using arg_cong [OF w, of length] assms(2) h(1) by (cases rest) auto
  have "tls2_scan now b 0 = Exhausted 0"
    using h l False by (subst tls2_scan.simps) (simp add: t Let_def tls2_record_size_def)
  then show ?thesis using False by (simp add: tls2_Deobfuscate_def finish_scan_def)
qed

lemma wire_nonempty: "tls_wire now x w \<Longrightarrow> w \<noteq> []" "tls2_wire now x w \<Longrightarrow> w \<noteq> []"
  by (auto simp: tls_wire_def tls2_wire_def tls_header_bytes_def tls2_header_bytes_def)

text \<open>What \<open>Obfuscate\<close> sends is a record of its payload, as long as the sixteen-bit lengths do
  not wrap.\<close>

lemma tls_Obfuscate_wire:
  assumes "length (tr_data r) = 8" "length (tr_padding r) < 256"
    and "15 + length x + length (tr_padding r) < 65536"
  shows "\<exists>w. tls_Obfuscate r x = Some w \<and> tls_wire now x w \<and>
             length w = 20 + length x + length (tr_padding r)"
proof -
  let ?h = "tls_new_header r (length x)"
  let ?w = "tls_header_bytes ?h @ ApplyXorTransform x (tr_key r) @ tr_padding r"
  have c: "unat (th_content ?h) = 15 + length x + length (tr_padding r)" "unat (th_payload ?h) = length x"
    "unat (th_padding ?h) = length (tr_padding r)"
    using assms unfolding tls_new_header_def tls_header.simps unat_of_nat_u16 unat_of_nat_byte by auto
  have f: "tls_is_fptn ?h" "th_key ?h = tr_key r" "th_random ?h = tr_data r"
    by (simp_all add: tls_new_header_def tls_is_fptn_def)
  have "tls_wire now x ?w"
    unfolding tls_wire_def using assms(1) c f by (intro exI [of _ ?h] exI [of _ "tr_padding r"]) simp
  moreover have "length ?w = 20 + length x + length (tr_padding r)" using assms(1) f by simp
  moreover from this have "?w \<noteq> []" by (metis add_is_0 length_0_conv zero_neq_numeral)
  ultimately show ?thesis unfolding tls_Obfuscate_def Let_def by auto
qed

lemma tls2_Obfuscate_wire:
  assumes "length (tr_data r) = 8" "IsValidTimestamp now sent"
    and "17 + length x + length (tr_padding r) < 65536"
  shows "\<exists>w. tls2_Obfuscate r sent x = Some w \<and> tls2_wire now x w \<and>
             length w = 22 + length x + length (tr_padding r)"
proof -
  let ?h = "tls2_new_header r sent (length x)"
  let ?w = "tls2_header_bytes ?h @ ApplyXorTransform x (tr_key r) @ tr_padding r"
  have c: "unat (t2_content ?h) = 17 + length x + length (tr_padding r)" "unat (t2_payload ?h) = length x"
    "unat (t2_padding ?h) = length (tr_padding r)"
    using assms unfolding tls2_new_header_def tls2_header.simps unat_of_nat_u16 by auto
  have f: "tls2_is_fptn now ?h" "tls2_lengths_fit ?h" "t2_key ?h = tr_key r" "t2_random ?h = tr_data r"
    using assms(2) c by (simp_all add: tls2_lengths_fit_def) (simp_all add: tls2_new_header_def tls2_is_fptn_def)
  have "tls2_wire now x ?w"
    unfolding tls2_wire_def using assms(1) c f by (intro exI [of _ ?h] exI [of _ "tr_padding r"]) simp
  moreover have "length ?w = 22 + length x + length (tr_padding r)" using assms(1) f by simp
  moreover from this have "?w \<noteq> []" by (metis add_is_0 length_0_conv zero_neq_numeral)
  ultimately show ?thesis unfolding tls2_Obfuscate_def Let_def by auto
qed

lemma le_mod_iff_less: "n \<le> n mod m \<longleftrightarrow> n < m" if "0 < m" for n m :: nat
  using that mod_less_divisor [of m n] by (cases "n < m") (simp, linarith)

lemma tls2_CheckProtocol_prefix:
  assumes "length (tr_data r) = 8" "IsValidTimestamp now sent"
    and "length x < 65536" "length (tr_padding r) < 65536"
    and "tls2_Obfuscate r sent x = Some (b @ rest)" "22 \<le> length b"
  shows "tls2_CheckProtocol now b \<longleftrightarrow> 17 + length x + length (tr_padding r) \<le> 16384"
proof -
  let ?h = "tls2_new_header r sent (length x)"
  have w: "b @ rest = tls2_header_bytes ?h @ ApplyXorTransform x (tr_key r) @ tr_padding r"
    using assms(5) by (simp add: tls2_Obfuscate_def Let_def split: if_splits)
  have l: "length (t2_random ?h) = 8" using assms(1) by (simp add: tls2_new_header_def)
  obtain c where b: "b = tls2_header_bytes ?h @ c"
    using split_prefix [OF w [symmetric]] assms(6) l by auto
  have t: "tls2_header_read (take 22 b) = ?h" unfolding b by (rule tls2_header_roundtrip [OF l])
  have c: "unat (t2_content ?h) = (17 + length x + length (tr_padding r)) mod 65536"
    "unat (t2_payload ?h) = length x" "unat (t2_padding ?h) = length (tr_padding r)"
    using assms(3,4) unfolding tls2_new_header_def tls2_header.simps unat_of_nat_u16 by simp_all
  have f: "tls2_is_fptn now ?h" "t2_type ?h = 0x17"
    using assms(2) by (simp_all add: tls2_new_header_def tls2_is_fptn_def)
  have "tls2_lengths_fit ?h \<longleftrightarrow> 17 + length x + length (tr_padding r) < 65536"
    using le_mod_iff_less [of 65536 "17 + length x + length (tr_padding r)"] c
    by (simp add: tls2_lengths_fit_def)
  then show ?thesis using assms(6) f c by (auto simp: tls2_CheckProtocol_def Let_def t)
qed

section \<open>The interface\<close>

text \<open>The virtual functions of \<open>IObfuscator\<close> that a stream calls. \<open>Deobfuscate\<close> and \<open>Obfuscate\<close>
  read the clock; \<open>'r\<close> are the random choices.\<close>

record ('o, 'r) iobfuscator =
  ob_AddData :: "byte list \<Rightarrow> 'o \<Rightarrow> bool \<times> 'o"
  ob_Deobfuscate :: "u32 \<Rightarrow> 'o \<Rightarrow> byte list option \<times> 'o"
  ob_Obfuscate :: "'r \<Rightarrow> u32 \<Rightarrow> byte list \<Rightarrow> byte list option"
  ob_HasPending :: "'o \<Rightarrow> bool"
  ob_Clone :: "'o \<Rightarrow> 'o"

definition TlsObfuscator :: "(byte list, tls_random) iobfuscator" where
  "TlsObfuscator = \<lparr>ob_AddData = tls_AddData, ob_Deobfuscate = (\<lambda>now. tls_Deobfuscate),
     ob_Obfuscate = (\<lambda>r now. tls_Obfuscate r), ob_HasPending = ob_HasPendingData, ob_Clone = (\<lambda>_. [])\<rparr>"

definition TlsObfuscator2 :: "(byte list, tls_random) iobfuscator" where
  "TlsObfuscator2 = \<lparr>ob_AddData = tls2_AddData, ob_Deobfuscate = tls2_Deobfuscate,
     ob_Obfuscate = tls2_Obfuscate, ob_HasPending = ob_HasPendingData, ob_Clone = (\<lambda>_. [])\<rparr>"

locale obfuscator_contract =
  fixes ob :: "('o, 'r) iobfuscator"
    and buf :: "'o \<Rightarrow> byte list"
    and capacity :: nat
    and wire :: "u32 \<Rightarrow> byte list \<Rightarrow> byte list \<Rightarrow> bool"
  assumes AddData: "d \<noteq> [] \<Longrightarrow> length (buf s) + length d \<le> capacity \<Longrightarrow>
      buf (snd (ob_AddData ob d s)) = buf s @ d"
    and Deobfuscate_record: "wire now x w \<Longrightarrow> x \<noteq> [] \<Longrightarrow> buf s = w @ rest \<Longrightarrow>
      fst (ob_Deobfuscate ob now s) = Some x \<and> buf (snd (ob_Deobfuscate ob now s)) = rest"
    and Deobfuscate_partial: "wire now x (buf s @ rest) \<Longrightarrow> rest \<noteq> [] \<Longrightarrow>
      fst (ob_Deobfuscate ob now s) = None \<and> buf (snd (ob_Deobfuscate ob now s)) = buf s"
    and Deobfuscate_empty: "buf s = [] \<Longrightarrow>
      fst (ob_Deobfuscate ob now s) = None \<and> buf (snd (ob_Deobfuscate ob now s)) = []"
    and wire_nonempty: "wire now x w \<Longrightarrow> w \<noteq> []"
    and HasPending: "ob_HasPending ob s \<longleftrightarrow> buf s \<noteq> []"

lemma AddData_limited_fits:
  "d \<noteq> [] \<Longrightarrow> length s + length d \<le> cap \<Longrightarrow> snd (AddData_limited cap d s) = s @ d"
  by (simp add: AddData_limited_def)

lemma AddData_limited_bound:
  "length s \<le> cap \<Longrightarrow> length (snd (AddData_limited cap d s)) \<le> cap"
  by (simp add: AddData_limited_def Let_def)

interpretation tls: obfuscator_contract TlsObfuscator "\<lambda>s. s" 65536 tls_wire
  by unfold_locales
    (simp_all add: TlsObfuscator_def tls_AddData_def AddData_limited_fits tls_Deobfuscate_record
      ob_HasPendingData_def tls_Deobfuscate_partial wire_nonempty tls_Deobfuscate_def [of "[]"])

interpretation tls2: obfuscator_contract TlsObfuscator2 "\<lambda>s. s" 262144 tls2_wire
  by unfold_locales
    (simp_all add: TlsObfuscator2_def tls2_AddData_def AddData_limited_fits tls2_Deobfuscate_record
      ob_HasPendingData_def tls2_Deobfuscate_partial wire_nonempty tls2_Deobfuscate_def [of _ "[]"])

end
