(* ===== verification/TcpStream.thy ===== *)
theory TcpStream
  imports Obfuscator
begin

text \<open>
  The obfuscating stream layer of \<open>src/fptn-protocol-lib/https/obfuscator/tcp_stream/tcp_stream.h\<close>.
  The socket is a script of events: bytes that arrive (with the clock reading at that moment) and
  errors. A read takes at most as many bytes as its buffer holds and leaves the rest for the next
  read, as TCP does. A caller's buffer sequence is its total size; a handler call is the result.
  The synchronous and the asynchronous read differ only in the buffer the raw bytes go to: 16 KiB
  of its own, or the caller's.
\<close>

section \<open>Definitions\<close>

datatype sock_event = Arrived u32 "byte list" | SockError nat

text \<open>\<open>Copied\<close>: success, with the bytes placed in the caller's buffer. \<open>Failed\<close>: the error code is
  set. \<open>Blocked\<close>: the script has ended and the read is still waiting.\<close>

datatype read_result = Copied "byte list" | Failed nat | Blocked

fun event_size :: "sock_event \<Rightarrow> nat" where
  "event_size (Arrived now d) = Suc (length d)"
| "event_size (SockError n) = 1"

definition sock_read :: "nat \<Rightarrow> u32 \<Rightarrow> byte list \<Rightarrow> sock_event list \<Rightarrow> byte list \<times> sock_event list" where
  "sock_read limit now d es =
     (take limit d, if length d \<le> limit then es else Arrived now (drop limit d) # es)"

lemma sock_read_smaller:
  assumes "sock_read limit now d es = (chunk, rest)" "chunk \<noteq> []"
  shows "sum_list (map event_size rest) < sum_list (map event_size (Arrived now d # es))"
  using assms by (auto simp: sock_read_def split: if_splits)

text \<open>The loop of \<open>read_some\<close>, and the recursion of \<open>async_read_some\<close>, with an obfuscator set.\<close>

function read_loop ::
    "('o, 'r) iobfuscator \<Rightarrow> nat \<Rightarrow> nat \<Rightarrow> u32 \<Rightarrow> sock_event list \<Rightarrow> 'o \<Rightarrow>
     read_result \<times> 'o \<times> sock_event list" where
  "read_loop ob limit n now es s0 =
     (let (pending, s) = (if ob_HasPending ob s0 then ob_Deobfuscate ob now s0 else (None, s0)) in
      case pending of
        Some d \<Rightarrow> (Copied (take n d), s, es)
      | None \<Rightarrow>
          (case es of
             [] \<Rightarrow> (Blocked, s, [])
           | SockError k # rest \<Rightarrow> (Failed k, s, rest)
           | Arrived t d # later \<Rightarrow>
               (case sock_read limit t d later of (chunk, rest) \<Rightarrow>
                  if chunk = [] then (Copied [], s, rest)
                  else
                    (case ob_Deobfuscate ob t (snd (ob_AddData ob chunk s)) of
                       (Some x, s') \<Rightarrow> (Copied (take n x), s', rest)
                     | (None, s') \<Rightarrow> read_loop ob limit n t rest s'))))"
  by auto
termination
  by (relation "measure (\<lambda>(ob, limit, n, now, es, s). sum_list (map event_size es))")
     (simp, simp only: in_measure prod.case, rule sock_read_smaller, simp_all)

declare read_loop.simps [simp del]

text \<open>Without an obfuscator the bytes go straight to the caller.\<close>

definition raw_read :: "nat \<Rightarrow> sock_event list \<Rightarrow> read_result \<times> sock_event list" where
  "raw_read n es =
     (case es of
        [] \<Rightarrow> (Blocked, [])
      | SockError k # rest \<Rightarrow> (Failed k, rest)
      | Arrived t d # later \<Rightarrow> (let (chunk, rest) = sock_read n t d later in (Copied chunk, rest)))"

text \<open>The stream: the obfuscator, when one is set, with its state.\<close>

type_synonym ('o, 'r) tcp_stream = "(('o, 'r) iobfuscator \<times> 'o) option"

definition set_obfuscator :: "(('o, 'r) iobfuscator \<times> 'o) option \<Rightarrow> ('o, 'r) tcp_stream \<Rightarrow> ('o, 'r) tcp_stream" where
  "set_obfuscator obfuscator st = obfuscator"

definition with_limit ::
    "nat \<Rightarrow> nat \<Rightarrow> u32 \<Rightarrow> sock_event list \<Rightarrow> ('o, 'r) tcp_stream \<Rightarrow>
     read_result \<times> ('o, 'r) tcp_stream \<times> sock_event list" where
  "with_limit limit n now es st =
     (case st of
        None \<Rightarrow> (let (r, rest) = raw_read n es in (r, None, rest))
      | Some (ob, s) \<Rightarrow> (let (r, s', rest) = read_loop ob limit n now es s in (r, Some (ob, s'), rest)))"

definition read_some ::
    "nat \<Rightarrow> u32 \<Rightarrow> sock_event list \<Rightarrow> ('o, 'r) tcp_stream \<Rightarrow>
     read_result \<times> ('o, 'r) tcp_stream \<times> sock_event list" where
  "read_some n = with_limit (16 * 1024) n"

definition async_read_some ::
    "nat \<Rightarrow> u32 \<Rightarrow> sock_event list \<Rightarrow> ('o, 'r) tcp_stream \<Rightarrow>
     read_result \<times> ('o, 'r) tcp_stream \<times> sock_event list" where
  "async_read_some n = with_limit n n"

text \<open>A write. \<open>accepted\<close> is what the socket takes: nothing on an error, and otherwise the whole
  record, since a record is sent by a composed write; without an obfuscator it is one write of
  the socket, which may be partial. The result is what the caller is told and what was sent.\<close>

datatype write_result = Written nat | WriteError

definition write_some ::
    "'r \<Rightarrow> u32 \<Rightarrow> nat option \<Rightarrow> byte list \<Rightarrow> ('o, 'r) tcp_stream \<Rightarrow> write_result \<times> byte list" where
  "write_some r now accepted data st =
     (case st of
        None \<Rightarrow>
          (case accepted of
             None \<Rightarrow> (WriteError, [])
           | Some k \<Rightarrow> (Written (min k (length data)), take k data))
      | Some (ob, s) \<Rightarrow>
          (case ob_Obfuscate ob r now data of
             None \<Rightarrow> (WriteError, [])
           | Some record \<Rightarrow>
               (case accepted of
                  None \<Rightarrow> (WriteError, [])
                | Some k \<Rightarrow> (Written (length data), record))))"

text \<open>A caller that reads again and again, at the times \<open>nows\<close>.\<close>

fun reads ::
    "(nat \<Rightarrow> u32 \<Rightarrow> sock_event list \<Rightarrow> ('o, 'r) tcp_stream \<Rightarrow> read_result \<times> ('o, 'r) tcp_stream \<times> sock_event list) \<Rightarrow>
     nat \<Rightarrow> u32 list \<Rightarrow> sock_event list \<Rightarrow> ('o, 'r) tcp_stream \<Rightarrow> read_result list" where
  "reads read_fn n [] es st = []"
| "reads read_fn n (now # nows) es st =
     (let (r, st', rest) = read_fn n now es st in r # reads read_fn n nows rest st')"

text \<open>A caller that writes one message after the other.\<close>

fun writes :: "('r \<times> u32 \<times> byte list) list \<Rightarrow> ('o, 'r) tcp_stream \<Rightarrow> byte list" where
  "writes [] st = []"
| "writes ((r, now, d) # ws) st = snd (write_some r now (Some (length d)) d st) @ writes ws st"

text \<open>The bytes of a script and its clock readings.\<close>

fun arrivals :: "sock_event list \<Rightarrow> byte list" where
  "arrivals [] = []"
| "arrivals (Arrived now d # es) = d @ arrivals es"
| "arrivals (SockError n # es) = arrivals es"

fun calm :: "u32 set \<Rightarrow> sock_event list \<Rightarrow> bool" where
  "calm T [] \<longleftrightarrow> True"
| "calm T (Arrived now d # es) \<longleftrightarrow> now \<in> T \<and> d \<noteq> [] \<and> calm T es"
| "calm T (SockError n # es) \<longleftrightarrow> False"

section \<open>Reading records off a stream\<close>

lemma calm_sock_read:
  assumes "calm T (Arrived t d # later)" "0 < limit" "sock_read limit t d later = (chunk, rest)"
  shows "chunk \<noteq> []" "length chunk \<le> limit" "calm T rest" "chunk @ arrivals rest = d @ arrivals later"
  using assms by (auto simp: sock_read_def split: if_splits)

lemma calm_arrivals_Nil: "calm T es \<Longrightarrow> arrivals es = [] \<longleftrightarrow> es = []"
  by (induction T es rule: calm.induct) auto

context obfuscator_contract
begin

lemma Deobfuscate_cases:
  assumes "wire now x w" "x \<noteq> []" "buf s @ coming = w @ rest"
  obtains s' where "ob_Deobfuscate ob now s = (Some x, s')" "buf s' @ coming = rest" "w \<noteq> []" "buf s \<noteq> []"
    | s' where "ob_Deobfuscate ob now s = (None, s')" "buf s' = buf s" "length (buf s) < length w"
proof (cases "length w \<le> length (buf s)")
  case True
  then obtain c where b: "buf s = w @ c" "rest = c @ coming"
    using split_prefix [OF assms(3) [symmetric]] by blast
  have "w \<noteq> []" using wire_nonempty [OF assms(1)] .
  with b have "buf s \<noteq> []" by simp
  then show ?thesis
    using that(1) b \<open>w \<noteq> []\<close> Deobfuscate_record [OF assms(1,2) b(1)] by (metis prod.collapse)
next
  case False
  then obtain c where c: "w = buf s @ c" using split_prefix [OF assms(3)] by (metis nat_le_linear)
  with False have "c \<noteq> []" by auto
  with c show ?thesis
    using that(2) False Deobfuscate_partial [of now x s c] assms(1) by (metis prod.collapse not_le)
qed

lemma read_loop_record:
  assumes "calm T es" "now \<in> T" "\<forall>t \<in> T. wire t x w" "x \<noteq> []" "0 < limit" "length w + limit \<le> capacity"
    and "buf s @ arrivals es = w @ rest"
  shows "\<exists>s' es'. read_loop ob limit n now es s = (Copied (take n x), s', es') \<and> calm T es' \<and>
           buf s' @ arrivals es' = rest"
  using assms
proof (induction "sum_list (map event_size es)" arbitrary: now es s rule: less_induct)
  case (less es now s)
  note 1 = less.hyps less.prems
  have wn: "wire now x w" using 1(3,4) by blast
  consider (hit) s' where "ob_Deobfuscate ob now s = (Some x, s')" "buf s' @ arrivals es = rest" "buf s \<noteq> []"
    | (miss) s' where "(if ob_HasPending ob s then ob_Deobfuscate ob now s else (None, s)) = (None, s')"
        "buf s' = buf s" "length (buf s) < length w"
  proof (cases "ob_HasPending ob s")
    case True
    show ?thesis
      by (rule Deobfuscate_cases [OF wn \<open>x \<noteq> []\<close> 1(8)]) (use hit miss True in auto)
  next
    case False
    then show ?thesis using miss [of s] HasPending [of s] wire_nonempty [OF wn] by simp
  qed
  then show ?case
  proof cases
    case hit
    then show ?thesis using 1(2) HasPending [of s] by (subst read_loop.simps) (auto simp: Let_def)
  next
    case miss
    have "length (buf s) + length (arrivals es) = length w + length rest"
      using arg_cong [OF 1(8), of length] by simp
    then have "arrivals es \<noteq> []" using miss(3) by auto
    then obtain t d later where es: "es = Arrived t d # later"
      using 1(2) by (cases es; cases "hd es") auto
    obtain chunk tl where c: "sock_read limit t d later = (chunk, tl)" by fastforce
    note cs = calm_sock_read [OF 1(2) [unfolded es] 1(6) c]
    have t: "t \<in> T" using 1(2) es by simp
    let ?s1 = "snd (ob_AddData ob chunk s')"
    have b: "buf ?s1 = buf s @ chunk" using AddData [of chunk s'] cs miss 1(7) by simp
    then have st: "buf ?s1 @ arrivals tl = w @ rest" using 1(8) cs(4) es by simp
    have step: "read_loop ob limit n now es s =
        (case ob_Deobfuscate ob t ?s1 of (Some y, s2) \<Rightarrow> (Copied (take n y), s2, tl)
         | (None, s2) \<Rightarrow> read_loop ob limit n t tl s2)"
      using miss(1) cs(1) c es by (subst read_loop.simps) (auto simp: Let_def split: option.splits)
    have wt: "wire t x w" using t 1(4) by blast
    show ?thesis
    proof (rule Deobfuscate_cases [OF wt \<open>x \<noteq> []\<close> st])
      fix s2 assume "ob_Deobfuscate ob t ?s1 = (Some x, s2)" "buf s2 @ arrivals tl = rest"
      then show ?thesis using step cs(3) by simp
    next
      fix s2 assume d: "ob_Deobfuscate ob t ?s1 = (None, s2)" "buf s2 = buf ?s1"
      have "sum_list (map event_size tl) < sum_list (map event_size es)"
        unfolding es by (rule sock_read_smaller [OF c cs(1)])
      from 1(1) [OF this cs(3) t 1(4,5,6,7), of s2] d(2) st
      show ?thesis by (simp add: step d(1))
    qed
  qed
qed

lemma read_loop_blocked:
  assumes "buf s = []"
  shows "fst (read_loop ob limit n now [] s) = Blocked"
  using assms HasPending [of s] by (subst read_loop.simps) simp

lemma reads_records:
  assumes "calm T es" "set nows \<subseteq> T" "length nows = Suc (length ws)" "0 < limit"
    and "\<forall>(x, w) \<in> set ws. (\<forall>t \<in> T. wire t x w) \<and> x \<noteq> [] \<and> length w + limit \<le> capacity"
    and "buf s @ arrivals es = concat (map snd ws)"
  shows "reads (with_limit limit) n nows es (Some (ob, s)) = map (\<lambda>(x, w). Copied (take n x)) ws @ [Blocked]"
  using assms
proof (induction ws arbitrary: nows es s)
  case Nil
  then obtain now where n: "nows = [now]" by (cases nows) auto
  have "es = []" "buf s = []" using Nil calm_arrivals_Nil by auto
  then show ?case
    using read_loop_blocked [of s limit n now] n by (simp add: with_limit_def split_def Let_def)
next
  case (Cons p ws)
  obtain x w where p: "p = (x, w)" by fastforce
  obtain now later where n: "nows = now # later" using Cons.prems(3) by (cases nows) auto
  have "now \<in> T" "\<forall>t \<in> T. wire t x w" "x \<noteq> []" "length w + limit \<le> capacity"
    and b: "buf s @ arrivals es = w @ concat (map snd ws)"
    using Cons.prems n p by auto
  from read_loop_record [OF Cons.prems(1) this(1,2,3) Cons.prems(4) this(4) b, of n]
  obtain s' es' where r: "read_loop ob limit n now es s = (Copied (take n x), s', es')"
    and c: "calm T es'" "buf s' @ arrivals es' = concat (map snd ws)" by blast
  have "reads (with_limit limit) n later es' (Some (ob, s')) =
      map (\<lambda>(x, w). Copied (take n x)) ws @ [Blocked]"
    by (rule Cons.IH [OF c(1)]) (use Cons.prems n c(2) in auto)
  moreover have "with_limit limit n now es (Some (ob, s)) = (Copied (take n x), Some (ob, s'), es')"
    using r by (simp add: with_limit_def)
  ultimately show ?case using n p by simp
qed

end

section \<open>Writing and reading back\<close>

text \<open>The random choices a sender makes: eight bytes of random data and at most \<open>k\<close> bytes of
  padding.\<close>

definition random_ok :: "nat \<Rightarrow> tls_random \<Rightarrow> bool" where
  "random_ok k r \<longleftrightarrow> length (tr_data r) = 8 \<and> length (tr_padding r) \<le> k"

lemma writes_tls2_records:
  assumes "\<forall>(r, sent, x) \<in> set ms. random_ok 8192 r \<and> x \<noteq> [] \<and> length x \<le> 57326 \<and>
             (\<forall>t \<in> T. IsValidTimestamp t sent)"
    and "T \<noteq> {}"
  shows "\<exists>ws. map fst ws = map (\<lambda>(r, sent, x). x) ms \<and>
           writes ms (Some (TlsObfuscator2, s)) = concat (map snd ws) \<and>
           (\<forall>(x, w) \<in> set ws. (\<forall>t \<in> T. tls2_wire t x w) \<and> x \<noteq> [] \<and> length w \<le> 65540)"
  using assms(1)
proof (induction ms)
  case Nil
  show ?case by (intro exI [of _ "[]"]) simp
next
  case (Cons m ms)
  obtain r sent x where m: "m = (r, sent, x)" by (cases m)
  have r: "length (tr_data r) = 8" "17 + length x + length (tr_padding r) < 65536" "x \<noteq> []"
    and v: "\<forall>t \<in> T. IsValidTimestamp t sent"
    using Cons.prems m by (auto simp: random_ok_def)
  obtain w where w: "tls2_Obfuscate r sent x = Some w" "length w = 22 + length x + length (tr_padding r)"
    "\<forall>t \<in> T. tls2_wire t x w"
    using tls2_Obfuscate_wire [OF r(1) _ r(2)] v assms(2) by (metis ex_in_conv option.inject)
  obtain ws where "map fst ws = map (\<lambda>(r, sent, x). x) ms"
    "writes ms (Some (TlsObfuscator2, s)) = concat (map snd ws)"
    "\<forall>(x, w) \<in> set ws. (\<forall>t \<in> T. tls2_wire t x w) \<and> x \<noteq> [] \<and> length w \<le> 65540"
    using Cons by fastforce
  then show ?case
    using w r m by (intro exI [of _ "(x, w) # ws"]) (simp add: write_some_def TlsObfuscator2_def)
qed

lemma writes_tls_records:
  assumes "\<forall>(r, sent, x) \<in> set ms. random_ok 255 r \<and> x \<noteq> [] \<and> length x \<le> 48877"
  shows "\<exists>ws. map fst ws = map (\<lambda>(r, sent, x). x) ms \<and>
           writes ms (Some (TlsObfuscator, s)) = concat (map snd ws) \<and>
           (\<forall>(x, w) \<in> set ws. (\<forall>t \<in> T. tls_wire t x w) \<and> x \<noteq> [] \<and> length w \<le> 49152)"
  using assms(1)
proof (induction ms)
  case Nil
  show ?case by (intro exI [of _ "[]"]) simp
next
  case (Cons m ms)
  obtain r sent x where m: "m = (r, sent, x)" by (cases m)
  have r: "length (tr_data r) = 8" "length (tr_padding r) < 256" "15 + length x + length (tr_padding r) < 65536" "x \<noteq> []"
    "20 + length x + length (tr_padding r) \<le> 49152"
    using Cons.prems m by (auto simp: random_ok_def)
  obtain w where w: "tls_Obfuscate r x = Some w" "length w = 20 + length x + length (tr_padding r)"
    "\<forall>t. tls_wire t x w"
    using tls_Obfuscate_wire [OF r(1-3)] by (metis option.inject)
  obtain ws where "map fst ws = map (\<lambda>(r, sent, x). x) ms"
    "writes ms (Some (TlsObfuscator, s)) = concat (map snd ws)"
    "\<forall>(x, w) \<in> set ws. (\<forall>t \<in> T. tls_wire t x w) \<and> x \<noteq> [] \<and> length w \<le> 49152"
    using Cons by fastforce
  then show ?case
    using w r m by (intro exI [of _ "(x, w) # ws"]) (simp add: write_some_def TlsObfuscator_def)
qed

lemma reads_cong: "f n = g n \<Longrightarrow> reads f n nows es st = reads g n nows es st"
  by (induction nows arbitrary: es st) simp_all

lemma copied_fst:
  "map (\<lambda>(x, w). Copied (take n x)) ws = map (\<lambda>x. Copied (take n x)) (map fst ws)"
  by (simp add: split_def comp_def)

section \<open>An oversized record\<close>

text \<open>A header of the deprecated method whose record does not fit the input buffer: it is waited for
  forever.\<close>

definition starving :: "tls_header \<Rightarrow> byte list \<Rightarrow> bool" where
  "starving h b \<longleftrightarrow> length (th_random h) = 8 \<and> tls_is_fptn h \<and> 15 \<le> unat (th_content h) \<and>
     65536 < tls_record_size h \<and> length b \<le> 65536 \<and> (\<exists>c. b = tls_header_bytes h @ c)"

lemma starving_Deobfuscate: "starving h b \<Longrightarrow> tls_Deobfuscate b = (None, b)"
proof -
  assume a: "starving h b"
  then obtain c where b: "b = tls_header_bytes h @ c" and h: "length (th_random h) = 8"
    by (auto simp: starving_def)
  have t: "tls_header_read (take 20 b) = h" unfolding b by (rule tls_header_roundtrip [OF h])
  have l: "20 \<le> length b" using b h by simp
  have "tls_scan b 0 = Exhausted 0"
    using a l by (subst tls_scan.simps) (simp add: t Let_def starving_def)
  then show ?thesis using l by (simp add: tls_Deobfuscate_def finish_scan_def)
qed

lemma starving_AddData: "starving h b \<Longrightarrow> starving h (snd (tls_AddData d b))"
  using AddData_limited_bound [of b 65536 d]
  by (auto simp: starving_def tls_AddData_def AddData_limited_def Let_def)

lemma starving_blocks:
  assumes "starving h b" "calm UNIV es" "0 < limit"
  shows "fst (read_loop TlsObfuscator limit n now es b) = Blocked"
  using assms
proof (induction "sum_list (map event_size es)" arbitrary: now es b rule: less_induct)
  case (less es now b)
  note D = starving_Deobfuscate [OF less.prems(1)]
  show ?case
  proof (cases es)
    case Nil
    then show ?thesis by (subst read_loop.simps) (simp add: TlsObfuscator_def D)
  next
    case (Cons e later)
    then obtain t d where e: "e = Arrived t d" using less.prems(2) by (cases e) auto
    obtain chunk tl where c: "sock_read limit t d later = (chunk, tl)" by fastforce
    note cs = calm_sock_read [OF less.prems(2) [unfolded Cons e] less.prems(3) c]
    let ?b = "snd (tls_AddData chunk b)"
    note S = starving_AddData [OF less.prems(1), of chunk]
    have "read_loop TlsObfuscator limit n now es b = read_loop TlsObfuscator limit n t tl ?b"
      using D starving_Deobfuscate [OF S] cs(1) c Cons e
      by (subst read_loop.simps) (simp add: TlsObfuscator_def)
    moreover have "sum_list (map event_size tl) < sum_list (map event_size es)"
      unfolding Cons e by (rule sock_read_smaller [OF c cs(1)])
    ultimately show ?thesis using less.hyps [OF _ S cs(3) less.prems(3)] by simp
  qed
qed

section \<open>Properties\<close>

text \<open>C17: The stream layer delivers what was written: messages written through a \<open>TlsObfuscator2\<close>
  stream, whatever the random padding, the keys and the way the network cuts the byte stream, are
  read back by a peer whose clock is within ten seconds of the sender's, one message per read, in
  order and unchanged up to the size of the caller's buffer; then the read waits for more. This
  holds for the synchronous and the asynchronous read.\<close>

theorem tls2_stream_roundtrip:
  assumes "\<forall>(r, sent, x) \<in> set ms. random_ok 8192 r \<and> x \<noteq> [] \<and> length x \<le> 57326 \<and>
             (\<forall>t \<in> T. unat t + 20 < 4294967296 \<and> unat t \<le> unat sent + 10 \<and> unat sent \<le> unat t + 10)"
    and "calm T es" and "arrivals es = writes ms (Some (TlsObfuscator2, sender))"
    and "set nows \<subseteq> T" and "length nows = Suc (length ms)" and "0 < n" and "n \<le> 196604"
  shows "reads read_some n nows es (Some (TlsObfuscator2, [])) =
           map (\<lambda>(r, sent, x). Copied (take n x)) ms @ [Blocked] \<and>
         reads async_read_some n nows es (Some (TlsObfuscator2, [])) =
           map (\<lambda>(r, sent, x). Copied (take n x)) ms @ [Blocked]"
proof -
  have "T \<noteq> {}" using assms(4,5) by (cases nows) auto
  have "\<forall>(r, sent, x) \<in> set ms. random_ok 8192 r \<and> x \<noteq> [] \<and> length x \<le> 57326 \<and>
             (\<forall>t \<in> T. IsValidTimestamp t sent)"
    using assms(1) by (fastforce simp: IsValidTimestamp_iff)
  from writes_tls2_records [OF this \<open>T \<noteq> {}\<close>, of sender]
  obtain ws where f: "map fst ws = map (\<lambda>(r, sent, x). x) ms" and
    w: "writes ms (Some (TlsObfuscator2, sender)) = concat (map snd ws)" and
    k: "\<forall>(x, w) \<in> set ws. (\<forall>t \<in> T. tls2_wire t x w) \<and> x \<noteq> [] \<and> length w \<le> 65540" by blast
  have l: "length nows = Suc (length ws)" using assms(5) f by (metis length_map)
  have "reads (with_limit limit) n nows es (Some (TlsObfuscator2, [])) =
          map (\<lambda>(r, sent, x). Copied (take n x)) ms @ [Blocked]" if "0 < limit" "limit \<le> 196604" for limit
  proof -
    have "\<forall>(x, w) \<in> set ws. (\<forall>t \<in> T. tls2_wire t x w) \<and> x \<noteq> [] \<and> length w + limit \<le> 262144"
      using k that(2) by fastforce
    from tls2.reads_records [OF assms(2,4) l that(1) this, of "[]" n]
    have "reads (with_limit limit) n nows es (Some (TlsObfuscator2, [])) =
        map (\<lambda>(x, w). Copied (take n x)) ws @ [Blocked]" using assms(3) w by simp
    then show ?thesis unfolding copied_fst f by (simp add: split_def comp_def)
  qed
  from this [of "16 * 1024"] this [of n] show ?thesis
    using assms(6,7)
    by (simp add: reads_cong [of read_some n "with_limit (16 * 1024)"] read_some_def
        reads_cong [of async_read_some n "with_limit n"] async_read_some_def)
qed

text \<open>A sender of two messages and a network that cuts the stream in the middle of a record.\<close>

definition demo_random :: tls_random where
  "demo_random = \<lparr>tr_padding = [7, 7, 7], tr_key = 0x5A, tr_data = [1, 2, 3, 4, 5, 6, 7, 8]\<rparr>"

definition demo_messages :: "(tls_random \<times> u32 \<times> byte list) list" where
  "demo_messages = [(demo_random, 1000, [72, 105]), (demo_random, 1001, [33])]"

definition demo_script :: "'o \<Rightarrow> (('o, tls_random) iobfuscator) \<Rightarrow> sock_event list" where
  "demo_script s ob = (let w = writes demo_messages (Some (ob, s)) in
     [Arrived 1002 (take 30 w), Arrived 1003 (drop 30 w)])"

lemma demo_script_tls2:
  "calm {1002, 1003} (demo_script [] TlsObfuscator2)"
  "arrivals (demo_script [] TlsObfuscator2) = writes demo_messages (Some (TlsObfuscator2, []))"
  by (simp_all add: demo_script_def Let_def demo_messages_def demo_random_def write_some_def
      TlsObfuscator2_def tls2_Obfuscate_def tls2_new_header_def tls2_header_bytes_def be16_bytes_def
      be32_bytes_def ApplyXorTransform_def)

theorem tls2_stream_roundtrip_witness:
  "reads async_read_some 100 [1002, 1002, 1003] (demo_script [] TlsObfuscator2) (Some (TlsObfuscator2, [])) =
     [Copied [72, 105], Copied [33], Blocked]"
  using tls2_stream_roundtrip [OF _ demo_script_tls2, of "[1002, 1002, 1003]" 100]
  by (simp add: demo_messages_def random_ok_def demo_random_def)

text \<open>The same for the deprecated \<open>TlsObfuscator\<close>, whose records carry no timestamp: messages of
  up to 48877 bytes are read back in order and unchanged up to the size of the caller's buffer,
  when that is at most 16 KiB.\<close>

theorem tls_stream_roundtrip:
  assumes "\<forall>(r, sent, x) \<in> set ms. random_ok 255 r \<and> x \<noteq> [] \<and> length x \<le> 48877"
    and "calm UNIV es" and "arrivals es = writes ms (Some (TlsObfuscator, sender))"
    and "length nows = Suc (length ms)" and "0 < n" and "n \<le> 16384"
  shows "reads read_some n nows es (Some (TlsObfuscator, [])) =
           map (\<lambda>(r, sent, x). Copied (take n x)) ms @ [Blocked] \<and>
         reads async_read_some n nows es (Some (TlsObfuscator, [])) =
           map (\<lambda>(r, sent, x). Copied (take n x)) ms @ [Blocked]"
proof -
  from writes_tls_records [OF assms(1), of sender UNIV]
  obtain ws where f: "map fst ws = map (\<lambda>(r, sent, x). x) ms" and
    w: "writes ms (Some (TlsObfuscator, sender)) = concat (map snd ws)" and
    k: "\<forall>(x, w) \<in> set ws. (\<forall>t \<in> UNIV. tls_wire t x w) \<and> x \<noteq> [] \<and> length w \<le> 49152" by blast
  have l: "length nows = Suc (length ws)" using assms(4) f by (metis length_map)
  have "reads (with_limit limit) n nows es (Some (TlsObfuscator, [])) =
          map (\<lambda>(r, sent, x). Copied (take n x)) ms @ [Blocked]" if "0 < limit" "limit \<le> 16384" for limit
  proof -
    have "\<forall>(x, w) \<in> set ws. (\<forall>t \<in> UNIV. tls_wire t x w) \<and> x \<noteq> [] \<and> length w + limit \<le> 65536"
      using k that(2) by fastforce
    from tls.reads_records [OF assms(2) subset_UNIV l that(1) this, of "[]" n]
    have "reads (with_limit limit) n nows es (Some (TlsObfuscator, [])) =
        map (\<lambda>(x, w). Copied (take n x)) ws @ [Blocked]" using assms(3) w by simp
    then show ?thesis unfolding copied_fst f by (simp add: split_def comp_def)
  qed
  from this [of "16 * 1024"] this [of n] show ?thesis
    using assms(5,6)
    by (simp add: reads_cong [of read_some n "with_limit (16 * 1024)"] read_some_def
        reads_cong [of async_read_some n "with_limit n"] async_read_some_def)
qed

lemma demo_script_tls:
  "calm UNIV (demo_script [] TlsObfuscator)"
  "arrivals (demo_script [] TlsObfuscator) = writes demo_messages (Some (TlsObfuscator, []))"
  by (simp_all add: demo_script_def Let_def demo_messages_def demo_random_def write_some_def
      TlsObfuscator_def tls_Obfuscate_def tls_new_header_def tls_header_bytes_def be16_bytes_def
      ApplyXorTransform_def)

theorem tls_stream_roundtrip_witness:
  "reads read_some 100 [0, 0, 0] (demo_script [] TlsObfuscator) (Some (TlsObfuscator, [])) =
     [Copied [72, 105], Copied [33], Blocked]"
  using tls_stream_roundtrip [OF _ demo_script_tls, of "[0, 0, 0]" 100]
  by (simp add: demo_messages_def random_ok_def demo_random_def)

text \<open>When the server recognises a client: on the first 22 or more bytes of a record sent within
  ten seconds, protocol detection chooses \<open>TlsObfuscator2\<close> exactly when the payload and the padding
  keep the record's content within 16384 bytes, although \<open>Deobfuscate\<close> accepts larger records.\<close>

theorem DetectObfuscator_accepts:
  assumes "random_ok 8192 r" and "length x < 65536"
    and "unat now + 20 < 4294967296" and "unat now \<le> unat sent + 10" and "unat sent \<le> unat now + 10"
    and "tls2_Obfuscate r sent x = Some (b @ rest)" and "22 \<le> length b"
  shows "DetectObfuscator now b = Some Tls2 \<longleftrightarrow> 17 + length x + length (tr_padding r) \<le> 16384"
proof -
  have "tls2_CheckProtocol now b \<longleftrightarrow> 17 + length x + length (tr_padding r) \<le> 16384"
    by (rule tls2_CheckProtocol_prefix [OF _ _ assms(2) _ assms(6,7)])
      (use assms in \<open>auto simp: random_ok_def IsValidTimestamp_iff\<close>)
  then show ?thesis by (simp add: DetectObfuscator_def)
qed

definition demo_record :: "byte list" where
  "demo_record = the (tls2_Obfuscate demo_random 1000 [72, 105])"

lemma demo_record_sent: "tls2_Obfuscate demo_random 1000 [72, 105] = Some (demo_record @ [])"
  by (simp add: demo_record_def tls2_Obfuscate_def Let_def tls2_header_bytes_def)

lemma demo_record_length: "22 \<le> length demo_record"
  by (simp add: demo_record_def tls2_Obfuscate_def Let_def tls2_header_bytes_def tls2_new_header_def
      demo_random_def)

theorem DetectObfuscator_accepts_witness: "DetectObfuscator 1005 demo_record = Some Tls2"
  using DetectObfuscator_accepts [OF _ _ _ _ _ demo_record_sent demo_record_length, of 1005]
  by (simp add: random_ok_def demo_random_def)

text \<open>A 20-byte header can starve a stream that uses the deprecated method: after a header that
  announces a record larger than the input buffer, no read ever returns again, however much data
  arrives; the data is dropped when the buffer is full.\<close>

theorem tls_oversized_record_starves:
  assumes "length (th_random h) = 8" and "tls_is_fptn h" and "15 \<le> unat (th_content h)"
    and "65516 < unat (th_payload h) + unat (th_padding h)"
    and "calm UNIV es" and "0 < n"
  shows "fst (read_some n now es (Some (TlsObfuscator, tls_header_bytes h))) = Blocked \<and>
         fst (async_read_some n now es (Some (TlsObfuscator, tls_header_bytes h))) = Blocked"
proof -
  have "starving h (tls_header_bytes h)"
    using assms by (auto simp: starving_def tls_record_size_def)
  from starving_blocks [OF this assms(5)] show ?thesis
    using assms(6) by (simp add: read_some_def async_read_some_def with_limit_def split_def Let_def)
qed

definition huge_header :: tls_header where
  "huge_header = \<lparr>th_type = 0x17, th_major = 3, th_minor = 3, th_content = 16384,
     th_random = [0, 0, 0, 0, 0, 0, 0, 0], th_magic = 0x9763, th_version = 1, th_key = 0,
     th_payload = 65535, th_padding = 255\<rparr>"

theorem tls_oversized_record_starves_witness:
  "fst (read_some 10 0 [Arrived 0 [1, 2, 3]] (Some (TlsObfuscator, tls_header_bytes huge_header))) = Blocked"
  using tls_oversized_record_starves [of huge_header "[Arrived 0 [1, 2, 3]]" 10 0]
  by (simp add: huge_header_def tls_is_fptn_def)

end
