(* ===== verification/Filters.thy ===== *)
theory Filters
  imports Packet Generators
begin

text \<open>
  The packet filters of the server, \<open>src/fptn-server/filter/\<close>: \<open>AntiScan\<close> keeps clients out of the
  virtual network, \<open>BitTorrent\<close> drops packets that start like the protocol's messages, and the
  manager applies its filters in order. A filter returns the packet or the null pointer; the
  outer option is a load outside the packet or an exception that would leave the \<open>noexcept\<close>
  \<open>Manager::Apply\<close> and end the program.
\<close>

section \<open>AntiScan\<close>

record anti_scan =
  as_ipv4 :: u32
  as_ipv4_net :: u32
  as_ipv4_mask :: u32
  as_ipv6 :: u128
  as_ipv6_net :: u128
  as_ipv6_mask :: u128

text \<open>The constructor; \<open>None\<close> when an IPv6 address does not parse, the IPv4 shift is undefined, or the IPv6
  one is by a negative number, for which the library throws.\<close>

definition AntiScan_new ::
    "netlib \<Rightarrow> ip_address \<Rightarrow> ip_address \<Rightarrow> u32 \<Rightarrow> ip_address \<Rightarrow> ip_address \<Rightarrow> nat \<Rightarrow> anti_scan option" where
  "AntiScan_new lib ipv4 ipv4_net mask4 ipv6 ipv6_net mask6 = do {
     m4 \<leftarrow> shl32 0xFFFFFFFF (32 - mask4);
     a6 \<leftarrow> toUInt128 lib ipv6;
     n6 \<leftarrow> toUInt128 lib ipv6_net;
     m6 \<leftarrow> (if mask6 > 128 then None else Some (push_bit (128 - mask6) 1 - 1));
     Some \<lparr>as_ipv4 = IPAddress_ToInt ipv4, as_ipv4_net = IPAddress_ToInt ipv4_net, as_ipv4_mask = m4,
           as_ipv6 = a6, as_ipv6_net = n6, as_ipv6_mask = m6\<rparr>
   }"

definition kIpv4BroadcastInt :: "netlib \<Rightarrow> u32" where
  "kIpv4BroadcastInt lib = IPAddress_ToInt (IPv4Address_new lib ''255.255.255.255'')"

definition AntiScan_apply :: "netlib \<Rightarrow> anti_scan \<Rightarrow> ip_packet \<Rightarrow> ip_packet option option" where
  "AntiScan_apply lib f packet =
     (if IsIPv4 packet then do {
        addr \<leftarrow> GetDstIPv4Address lib packet;
        let dst = IPAddress_ToInt addr;
        let is_in_network = (dst AND as_ipv4_mask f) = (as_ipv4_net f AND as_ipv4_mask f);
        Some (if as_ipv4 f = dst \<or> (\<not> is_in_network \<and> kIpv4BroadcastInt lib \<noteq> dst) then Some packet
              else None)
      }
      else if IsIPv6 packet then do {
        addr \<leftarrow> GetDstIPv6Address lib packet;
        dst \<leftarrow> toUInt128 lib addr;
        let max_addr = as_ipv6_net f OR as_ipv6_mask f;
        let is_in_network = as_ipv6_net f \<le> dst \<and> dst \<le> max_addr;
        Some (if as_ipv6 f = dst \<or> \<not> is_in_network then Some packet else None)
      }
      else Some None)"

section \<open>BitTorrent\<close>

definition kClassic :: "byte list" where
  "kClassic = [0x13, 0x42, 0x69, 0x74, 0x54, 0x6F, 0x72, 0x72, 0x65, 0x6E, 0x74, 0x20, 0x70, 0x72,
               0x6F, 0x74, 0x6F, 0x63, 0x6F, 0x6C]"

definition kExtensionProtocol :: "byte list" where
  "kExtensionProtocol = [0x14, 0x65, 0x78, 0x74, 0x65, 0x6E, 0x73, 0x69, 0x6F, 0x6E]"

definition kDht :: "byte list" where
  "kDht = [0x64, 0x31, 0x3A, 0x61, 0x64, 0x32, 0x3A, 0x69, 0x64, 0x32]"

text \<open>\<open>payload_size >= size && memcmp(payload, signature, size) == 0\<close>.\<close>

definition matches :: "byte list \<Rightarrow> nat \<times> nat \<Rightarrow> byte list \<Rightarrow> bool option" where
  "matches p payload sig =
     (if snd payload \<ge> length sig then do {
        b \<leftarrow> memrd p (fst payload) (length sig);
        Some (b = sig)
      }
      else Some False)"

definition DetectBitTorrent :: "byte list \<Rightarrow> nat \<times> nat \<Rightarrow> bool option" where
  "DetectBitTorrent p payload =
     (if snd payload = 0 then Some False
      else do {
        first_byte \<leftarrow> rd p (fst payload);
        if first_byte = hd kClassic then matches p payload kClassic
        else if first_byte = hd kExtensionProtocol then matches p payload kExtensionProtocol
        else if first_byte = hd kDht then matches p payload kDht
        else Some False
      })"

definition BitTorrent_apply :: "ip_packet \<Rightarrow> ip_packet option option" where
  "BitTorrent_apply packet = do {
     udp \<leftarrow> GetUdpPayload packet;
     case udp of
       Some d \<Rightarrow> do {
         b \<leftarrow> DetectBitTorrent (pkt_data packet) d;
         Some (if b then None else Some packet)
       }
     | None \<Rightarrow> do {
         tcp \<leftarrow> GetTcpPayload packet;
         case tcp of
           Some d \<Rightarrow> do {
             b \<leftarrow> DetectBitTorrent (pkt_data packet) d;
             Some (if b then None else Some packet)
           }
         | None \<Rightarrow> Some (Some packet)
       }
   }"

section \<open>The manager\<close>

datatype packet_filter = AntiScan anti_scan | BitTorrent

fun apply_filter :: "netlib \<Rightarrow> packet_filter \<Rightarrow> ip_packet \<Rightarrow> ip_packet option option" where
  "apply_filter lib (AntiScan f) packet = AntiScan_apply lib f packet"
| "apply_filter lib BitTorrent packet = BitTorrent_apply packet"

definition Filter_Add :: "packet_filter \<Rightarrow> packet_filter list \<Rightarrow> packet_filter list" where
  "Filter_Add f fs = fs @ [f]"

fun Filter_Apply :: "netlib \<Rightarrow> packet_filter list \<Rightarrow> ip_packet \<Rightarrow> ip_packet option option" where
  "Filter_Apply lib [] packet = Some (Some packet)"
| "Filter_Apply lib (f # fs) packet =
     (case apply_filter lib f packet of
        None \<Rightarrow> None
      | Some None \<Rightarrow> Some None
      | Some (Some packet) \<Rightarrow> Filter_Apply lib fs packet)"

section \<open>What the filters block\<close>

text \<open>The payload of a UDP or TCP packet, if any, starts with a signature.\<close>

definition torrent_payload :: "ip_packet \<Rightarrow> bool" where
  "torrent_payload pkt \<longleftrightarrow> (\<exists>off n. (GetUdpPayload pkt = Some (Some (off, n)) \<or>
       GetUdpPayload pkt = Some None \<and> GetTcpPayload pkt = Some (Some (off, n))) \<and>
     (\<exists>sig \<in> {kClassic, kExtensionProtocol, kDht}. take (length sig) (drop off (pkt_data pkt)) = sig))"

fun blocks :: "netlib \<Rightarrow> packet_filter \<Rightarrow> ip_packet \<Rightarrow> bool" where
  "blocks lib (AntiScan f) pkt \<longleftrightarrow>
     (if IsIPv4 pkt then
        let dst = be32_of (take 4 (drop 16 (pkt_data pkt))) in
        dst \<noteq> as_ipv4 f \<and>
        (dst AND as_ipv4_mask f = as_ipv4_net f AND as_ipv4_mask f \<or> dst = kIpv4BroadcastInt lib)
      else
        let dst = be128_of (take 16 (drop 24 (pkt_data pkt))) in
        dst \<noteq> as_ipv6 f \<and> as_ipv6_net f \<le> dst \<and> dst \<le> (as_ipv6_net f OR as_ipv6_mask f))"
| "blocks lib BitTorrent pkt \<longleftrightarrow> torrent_payload pkt"

lemma parsed_dst4:
  assumes "netlib_ok lib" "parsed pkt" "IsIPv4 pkt"
  shows "GetDstIPv4Address lib pkt = Some \<lparr>ip_str = inet_ntop4 lib (take 4 (drop 16 (pkt_data pkt))),
           ip_impl = V4 (be32_of (take 4 (drop 16 (pkt_data pkt))))\<rparr>"
  using parsed_length [OF assms(2)] assms(3) IPv4Address_new_parsed [OF assms(1) netlib_okD(2) [OF assms(1)]]
  by (simp add: GetDstIPv4Address_def Ipv4GetDst_def memrd_def kMinIPv4_def)

lemma parsed_dst6:
  assumes "netlib_ok lib" "parsed pkt" "\<not> IsIPv4 pkt"
  shows "\<exists>a. GetDstIPv6Address lib pkt = Some a \<and>
             toUInt128 lib a = Some (be128_of (take 16 (drop 24 (pkt_data pkt))))"
proof -
  have l: "IsIPv6 pkt" "40 \<le> length (pkt_data pkt)"
    using assms(2,3) by (auto simp: parsed_def kMinIPv6_def)
  then show ?thesis
    using get_ipv6(1) [OF assms(1) l] netlib_okD(3) [OF assms(1)]
    by (simp add: toUInt128_def make_address_v6_def)
qed

lemma AntiScan_exact:
  assumes "netlib_ok lib" "parsed pkt"
  shows "AntiScan_apply lib f pkt = Some (if blocks lib (AntiScan f) pkt then None else Some pkt)"
proof (cases "IsIPv4 pkt")
  case True
  then show ?thesis using parsed_dst4 [OF assms True]
    by (auto simp: AntiScan_apply_def Let_def IPAddress_ToInt_def)
next
  case False
  moreover have "IsIPv6 pkt" using False assms(2) by (auto simp: parsed_def)
  ultimately show ?thesis using parsed_dst6 [OF assms False]
    by (auto simp: AntiScan_apply_def Let_def)
qed

lemma take_sig: "length sig \<le> n \<longleftrightarrow> length (take (length sig) (drop off p)) = length sig"
  if "off + n = length p"
  using that by (auto simp: min_def)

lemma matches_exact:
  assumes "off + n = length p"
  shows "matches p (off, n) sig = Some (take (length sig) (drop off p) = sig)"
proof (cases "length sig \<le> n")
  case True
  then show ?thesis using assms by (simp add: matches_def memrd_def)
next
  case False
  then have "take (length sig) (drop off p) \<noteq> sig" using take_sig [OF assms, of sig] by metis
  then show ?thesis using False by (simp add: matches_def)
qed

lemma signature_first:
  assumes "off < length p" "take (length sig) (drop off p) = sig" "sig \<noteq> []"
  shows "p ! off = hd sig"
  using assms by (metis Cons_nth_drop_Suc hd_take length_greater_0_conv list.sel(1))

lemma signature_heads:
  "hd kClassic = 0x13" "hd kExtensionProtocol = 0x14" "hd kDht = 0x64"
  "kClassic \<noteq> []" "kExtensionProtocol \<noteq> []" "kDht \<noteq> []"
  by (simp_all add: kClassic_def kExtensionProtocol_def kDht_def)

lemma DetectBitTorrent_exact:
  assumes "off + n = length p"
  shows "DetectBitTorrent p (off, n) =
           Some (\<exists>sig \<in> {kClassic, kExtensionProtocol, kDht}. take (length sig) (drop off p) = sig)"
proof (cases "n = 0")
  case True
  then have "drop off p = []" using assms by simp
  then show ?thesis using True signature_heads(4-6) by (auto simp: DetectBitTorrent_def)
next
  case False
  then have o: "off < length p" using assms by simp
  note h = signature_first [OF o]
  show ?thesis
    using False o signature_heads h [of kClassic] h [of kExtensionProtocol] h [of kDht]
    by (auto simp: DetectBitTorrent_def rd_def matches_exact [OF assms])
qed

lemma BitTorrent_exact:
  assumes "parsed pkt"
  shows "BitTorrent_apply pkt = Some (if torrent_payload pkt then None else Some pkt)"
proof -
  obtain u where u: "GetUdpPayload pkt = Some u" "case u of None \<Rightarrow> True | Some (off, n) \<Rightarrow> off + n = Size pkt"
    using payload_defined(2) [OF assms] by (auto split: option.splits)
  obtain t where t: "GetTcpPayload pkt = Some t" "case t of None \<Rightarrow> True | Some (off, n) \<Rightarrow> off + n = Size pkt"
    using payload_defined(1) [OF assms] by (auto split: option.splits)
  show ?thesis
    using u t DetectBitTorrent_exact
    by (cases u; cases t) (auto simp: BitTorrent_apply_def torrent_payload_def Size_def)
qed

lemma apply_filter_exact:
  assumes "netlib_ok lib" "parsed pkt"
  shows "apply_filter lib f pkt = Some (if blocks lib f pkt then None else Some pkt)"
  using AntiScan_exact [OF assms] BitTorrent_exact [OF assms(2)] by (cases f) simp_all

lemma Filter_Apply_exact:
  assumes "netlib_ok lib" "parsed pkt"
  shows "Filter_Apply lib fs pkt = Some (if \<exists>f \<in> set fs. blocks lib f pkt then None else Some pkt)"
  by (induction fs) (auto simp: apply_filter_exact [OF assms])

section \<open>The blocked range\<close>

text \<open>On aligned networks the ranges blocked are the prefixes: the addresses that agree with the
  network in their leading bits.\<close>

lemma mask_prefix4:
  assumes "1 \<le> bits" "bits \<le> 32"
  shows "shl32 0xFFFFFFFF (32 - word_of_nat bits) = Some (push_bit (32 - bits) (- 1))"
proof -
  have "unat (32 - word_of_nat bits :: u32) = 32 - bits"
    using assms by (simp add: unat_sub word_le_nat_alt unat_of_nat)
  moreover have "(0xFFFFFFFF :: u32) = - 1" by simp
  ultimately show ?thesis using assms unfolding shl32_def by (simp only:) simp
qed

lemma and_shifted_mask:
  "(d AND push_bit k (- 1) = w AND push_bit k (- 1)) \<longleftrightarrow> drop_bit k d = drop_bit k w"
  for d w :: "'a::len word"
proof
  assume *: "d AND push_bit k (- 1) = w AND push_bit k (- 1)"
  have "bit (drop_bit k d) n = bit (drop_bit k w) n" for n
    using arg_cong [OF *, of "\<lambda>x. bit x (k + n)"] by (auto simp: bit_simps dest: bit_imp_le_length)
  then show "drop_bit k d = drop_bit k w" by (intro bit_eqI) simp
next
  assume *: "drop_bit k d = drop_bit k w"
  have "bit d n = bit w n" if "k \<le> n" for n
    using arg_cong [OF *, of "\<lambda>x. bit x (n - k)"] that by (simp add: bit_simps)
  then show "d AND push_bit k (- 1) = w AND push_bit k (- 1)"
    by (intro bit_eqI) (auto simp: bit_simps)
qed

lemma range_div: "a * 2 ^ k \<le> d \<and> d \<le> a * 2 ^ k + (2 ^ k - 1) \<longleftrightarrow> d div 2 ^ k = a" for a d k :: nat
proof
  assume *: "a * 2 ^ k \<le> d \<and> d \<le> a * 2 ^ k + (2 ^ k - 1)"
  have "(1 :: nat) \<le> 2 ^ k" by simp
  then have "d < a * 2 ^ k + 2 ^ k" using * by linarith
  then show "d div 2 ^ k = a" using * by (intro div_nat_eqI) (simp_all add: mult.commute)
next
  assume "d div 2 ^ k = a"
  then have "d = a * 2 ^ k + d mod 2 ^ k" by (metis div_mult_mod_eq)
  moreover have "d mod 2 ^ k < 2 ^ k" by simp
  ultimately show "a * 2 ^ k \<le> d \<and> d \<le> a * 2 ^ k + (2 ^ k - 1)" by linarith
qed

lemma range_prefix:
  fixes w d :: "'a::len word"
  assumes "take_bit k w = 0" "k < LENGTH('a)"
  shows "w \<le> d \<and> d \<le> (w OR (push_bit k 1 - 1)) \<longleftrightarrow> drop_bit k d = drop_bit k w"
proof -
  have m: "push_bit k 1 - 1 = (mask k :: 'a word)" by (simp add: mask_eq_exp_minus_1 push_bit_eq_mult)
  have "unat (take_bit k w) = unat w mod 2 ^ k" using assms(2) by (intro unat_take_bit) simp
  then have z: "unat w = unat w div 2 ^ k * 2 ^ k" unfolding assms(1)
    by (metis add.right_neutral div_mult_mod_eq unat_0)
  have "w \<le> d \<and> d \<le> (w OR mask k) \<longleftrightarrow> unat d div 2 ^ k = unat w div 2 ^ k"
    using range_div [of "unat w div 2 ^ k" k "unat d"]
    unfolding word_le_nat_alt or_mask_aligned [OF assms] using z by simp
  then show ?thesis unfolding m by (simp add: word_unat_eq_iff unat_drop_bit)
qed

text \<open>The destination is in the virtual network without being the server, or is the broadcast
  address.\<close>

definition enters_network ::
    "netlib \<Rightarrow> ip_address \<Rightarrow> ip_address \<Rightarrow> nat \<Rightarrow> ip_address \<Rightarrow> ip_address \<Rightarrow> nat \<Rightarrow> ip_packet \<Rightarrow> bool" where
  "enters_network lib ip4 net4 b4 ip6 net6 b6 pkt \<longleftrightarrow>
     (if IsIPv4 pkt then
        let dst = be32_of (take 4 (drop 16 (pkt_data pkt))) in
        dst \<noteq> IPAddress_ToInt ip4 \<and>
        (drop_bit (32 - b4) dst = drop_bit (32 - b4) (IPAddress_ToInt net4) \<or>
         dst = kIpv4BroadcastInt lib)
      else
        let dst = be128_of (take 16 (drop 24 (pkt_data pkt))) in
        toUInt128 lib ip6 \<noteq> Some dst \<and>
        map_option (drop_bit (128 - b6)) (toUInt128 lib net6) = Some (drop_bit (128 - b6) dst))"

lemma blocks_AntiScan:
  assumes "AntiScan_new lib ip4 net4 (word_of_nat b4) ip6 net6 b6 = Some f"
    and "1 \<le> b4" and "b4 \<le> 32" and "1 \<le> b6" and "b6 \<le> 128" and "aligned6 (as_ipv6_net f) b6"
  shows "blocks lib (AntiScan f) pkt = enters_network lib ip4 net4 b4 ip6 net6 b6 pkt"
proof -
  have m: "as_ipv4_mask f = push_bit (32 - b4) (- 1)" "as_ipv4 f = IPAddress_ToInt ip4"
    "as_ipv4_net f = IPAddress_ToInt net4"
    and n: "toUInt128 lib ip6 = Some (as_ipv6 f)" "toUInt128 lib net6 = Some (as_ipv6_net f)"
      "as_ipv6_mask f = push_bit (128 - b6) 1 - 1"
    using assms(1) mask_prefix4 [OF assms(2,3)]
    by (auto simp: AntiScan_new_def split: bind_splits if_splits)
  have k: "128 - b6 < LENGTH(128)" "take_bit (128 - b6) (as_ipv6_net f) = 0"
    using assms(4-6) by (auto simp: aligned6_def)
  show ?thesis
  proof (cases "IsIPv4 pkt")
    case True
    then show ?thesis by (simp add: enters_network_def m and_shifted_mask [simplified] Let_def)
  next
    case False
    then show ?thesis
      using range_prefix [OF k(2,1), of "be128_of (take 16 (drop 24 (pkt_data pkt)))"]
      by (simp add: enters_network_def n Let_def) metis
  qed
qed

section \<open>Properties\<close>

text \<open>The server's packet filter: with the filters the server installs, on aligned networks, a
  packet \<open>Parse\<close> accepts is passed on unchanged unless its TCP or UDP payload starts with a
  BitTorrent signature (when that filter is enabled) or its destination lies in the virtual
  network, other than the server itself, or is the IPv4 broadcast address; and no filter reads
  outside the packet.\<close>

theorem server_filters_exact:
  assumes "netlib_ok lib" and "IPPacket_Parse buffer cid = Some pkt"
    and "AntiScan_new lib ip4 net4 (word_of_nat b4) ip6 net6 b6 = Some f"
    and "1 \<le> b4" and "b4 \<le> 32" and "1 \<le> b6" and "b6 \<le> 128" and "aligned6 (as_ipv6_net f) b6"
    and "fs = (if disable_bittorrent then Filter_Add BitTorrent [] else [])"
  shows "Filter_Apply lib (Filter_Add (AntiScan f) fs) pkt =
     Some (if (disable_bittorrent \<and> torrent_payload pkt) \<or>
              enters_network lib ip4 net4 b4 ip6 net6 b6 pkt then None else Some pkt)"
proof -
  have p: "parsed pkt" using assms(2) unfolding IPPacket_Parse_iff by (rule conjunct2)
  show ?thesis
    unfolding Filter_Apply_exact [OF assms(1) p] blocks_AntiScan [OF assms(3-8), symmetric]
    using assms(9) by (auto simp: Filter_Add_def)
qed

text \<open>A client that tries to reach the neighbour 10.0.0.2 in the virtual network 10.0.0.0/24.\<close>

definition demo_filter :: anti_scan where
  "demo_filter = \<lparr>as_ipv4 = 0x0A000001, as_ipv4_net = 0x0A000000, as_ipv4_mask = 0xFFFFFF00,
     as_ipv6 = 1, as_ipv6_net = 0, as_ipv6_mask = 0xFF\<rparr>"

lemma demo_filter_new:
  "AntiScan_new demo_lib (v4_at demo_lib 0x0A000001) (v4_at demo_lib 0x0A000000) (word_of_nat 24)
     (v6_at demo_lib 1) (v6_at demo_lib 0) 120 = Some demo_filter"
  using netlib_okD(1) [OF demo_lib_ok]
  by (simp add: AntiScan_new_def demo_filter_def v4_at_def v6_at_def shl32_def toUInt128_def
      make_address_v6_def IPAddress_ToInt_def push_bit_eq_mult)

lemma demo_udp_enters:
  "enters_network demo_lib (v4_at demo_lib 0x0A000001) (v4_at demo_lib 0x0A000000) 24 a b n demo_udp"
proof -
  have "take 4 (drop 16 (pkt_data demo_udp)) = [10, 0, 0, 2]"
    by (simp add: demo_udp_def udp_packet_def)
  moreover have "be32_of [10, 0, 0, 2] = 0x0A000002" by (simp add: be32_of_def)
  moreover have "IsIPv4 demo_udp" using demo_udp_facts(1) by (simp add: sound_ipv4_def)
  ultimately show ?thesis by (simp add: enters_network_def v4_at_def IPAddress_ToInt_def)
qed

theorem server_filters_exact_witness:
  "Filter_Apply demo_lib (Filter_Add (AntiScan demo_filter) []) demo_udp = Some None"
proof -
  have p: "IPPacket_Parse udp_packet 7 = Some demo_udp"
    using demo_udp_facts(3) by (simp add: IPPacket_Parse_iff demo_udp_def)
  have a: "aligned6 (as_ipv6_net demo_filter) 120" by (simp add: aligned6_def demo_filter_def)
  show ?thesis
    by (subst server_filters_exact [OF demo_lib_ok p demo_filter_new _ _ _ _ a, where disable_bittorrent = False])
      (simp_all add: demo_udp_enters)
qed

end
