(* ===== verification/Strings.thy ===== *)
theory Strings
  imports Prelude
begin

text \<open>
  Text handling shared by the server: the helpers of \<open>src/common/utils/utils.h\<close>, and the stream
  operations of the C++ library the user list is written and read with (\<open>std::getline\<close>,
  \<open>operator>>\<close> on words and integers, decimal output).
\<close>

section \<open>Characters\<close>

abbreviation code :: "char \<Rightarrow> nat" where
  "code c \<equiv> of_char c"

definition isspace :: "char \<Rightarrow> bool" where
  "isspace c \<longleftrightarrow> code c = 32 \<or> (9 \<le> code c \<and> code c \<le> 13)"

definition isdigit :: "char \<Rightarrow> bool" where
  "isdigit c \<longleftrightarrow> 48 \<le> code c \<and> code c \<le> 57"

definition isalnum :: "char \<Rightarrow> bool" where
  "isalnum c \<longleftrightarrow> isdigit c \<or> (65 \<le> code c \<and> code c \<le> 90) \<or> (97 \<le> code c \<and> code c \<le> 122)"

definition tolower :: "char \<Rightarrow> char" where
  "tolower c = (if 65 \<le> code c \<and> code c \<le> 90 then char_of (code c + 32) else c)"

section \<open>Utilities\<close>

text \<open>\<open>boost::algorithm::erase_all\<close>: one pass from the left, the erased text is not rescanned.\<close>

function erase_all :: "string \<Rightarrow> string \<Rightarrow> string" where
  "erase_all sub [] = []"
| "erase_all sub (c # s) =
     (if sub \<noteq> [] \<and> take (length sub) (c # s) = sub then erase_all sub (drop (length sub) (c # s))
      else c # erase_all sub s)"
  by pat_completeness auto
termination by (relation "measure (\<lambda>(sub, s). length s)") auto

definition RemoveSubstring :: "string \<Rightarrow> string list \<Rightarrow> string" where
  "RemoveSubstring input strs = foldl (\<lambda>s sub. erase_all sub s) input strs"

definition Trim :: "string \<Rightarrow> string" where
  "Trim str =
     (let start = length (takeWhile isspace str);
          stop = length str - length (takeWhile isspace (rev str)) in
      if start < stop then take (stop - start) (drop start str) else [])"

text \<open>The lines a \<open>while (std::getline(...))\<close> loop sees.\<close>

function getlines :: "char \<Rightarrow> string \<Rightarrow> string list" where
  "getlines delim [] = []"
| "getlines delim (c # s) =
     takeWhile (\<lambda>x. x \<noteq> delim) (c # s) #
     getlines delim (tl (dropWhile (\<lambda>x. x \<noteq> delim) (c # s)))"
  by pat_completeness auto
termination
  by (relation "measure (\<lambda>(delim, s). length s)")
    (auto simp: less_Suc_eq_le intro: order.trans [OF diff_le_self length_dropWhile_le])

definition SplitCommaSeparated :: "string \<Rightarrow> string list" where
  "SplitCommaSeparated input = filter (\<lambda>s. s \<noteq> []) (map Trim (getlines (CHR '','') input))"

section \<open>Formatted input and output\<close>

definition read_word :: "string \<Rightarrow> (string \<times> string) option" where
  "read_word s = (let s = dropWhile isspace s in
     if s = [] then None
     else Some (takeWhile (\<lambda>c. \<not> isspace c) s, dropWhile (\<lambda>c. \<not> isspace c) s))"

definition digits_value :: "string \<Rightarrow> nat" where
  "digits_value s = foldl (\<lambda>a c. a * 10 + (code c - 48)) 0 s"

text \<open>Reading an \<open>int\<close>: a value out of range fails like a missing digit.\<close>

definition read_int :: "string \<Rightarrow> (int \<times> string) option" where
  "read_int s =
     (let s = dropWhile isspace s;
          negative = (s \<noteq> [] \<and> hd s = CHR ''-'');
          s = (if s \<noteq> [] \<and> (hd s = CHR ''-'' \<or> hd s = CHR ''+'') then tl s else s);
          ds = takeWhile isdigit s;
          v = (if negative then - int (digits_value ds) else int (digits_value ds)) in
      if ds = [] \<or> v < - 2147483648 \<or> v > 2147483647 then None
      else Some (v, dropWhile isdigit s))"

fun dec_nat :: "nat \<Rightarrow> string" where
  "dec_nat n = (if n < 10 then [char_of (48 + n)] else dec_nat (n div 10) @ [char_of (48 + n mod 10)])"

declare dec_nat.simps [simp del]

definition dec_int :: "int \<Rightarrow> string" where
  "dec_int i = (if i < 0 then CHR ''-'' # dec_nat (nat (- i)) else dec_nat (nat i))"

section \<open>Lemmas\<close>

definition is_word :: "string \<Rightarrow> bool" where
  "is_word s \<longleftrightarrow> s \<noteq> [] \<and> (\<forall>c \<in> set s. \<not> isspace c)"

lemma code_char_of [simp]: "n < 256 \<Longrightarrow> code (char_of n) = n"
  by simp

lemma dropWhile_word: "is_word w \<Longrightarrow> dropWhile isspace (w @ r) = w @ r"
  by (cases w) (auto simp: is_word_def)

lemma takeWhile_word:
  "\<forall>c \<in> set w. P c \<Longrightarrow> r = [] \<or> \<not> P (hd r) \<Longrightarrow> takeWhile P (w @ r) = w \<and> dropWhile P (w @ r) = r"
  by (cases r) (auto simp: takeWhile_append dropWhile_append takeWhile_eq_all_conv [THEN iffD2]
      dropWhile_eq_Nil_conv [THEN iffD2])

lemma read_word_word:
  assumes "is_word w" "r = [] \<or> isspace (hd r)"
  shows "read_word (w @ r) = Some (w, r)"
proof -
  have n: "w @ r \<noteq> []" using assms(1) by (auto simp: is_word_def)
  have "takeWhile (\<lambda>c. \<not> isspace c) (w @ r) = w \<and> dropWhile (\<lambda>c. \<not> isspace c) (w @ r) = r"
    by (rule takeWhile_word) (use assms in \<open>auto simp: is_word_def\<close>)
  then show ?thesis using n by (simp add: read_word_def dropWhile_word [OF assms(1)] Let_def)
qed

lemma read_word_space: "isspace c \<Longrightarrow> read_word (c # s) = read_word s"
  by (simp add: read_word_def)

lemma read_int_space: "isspace c \<Longrightarrow> read_int (c # s) = read_int s"
  by (simp add: read_int_def)

lemma read_word_is_word: "read_word s = Some (w, r) \<Longrightarrow> is_word w"
proof -
  assume a: "read_word s = Some (w, r)"
  define t where "t = dropWhile isspace s"
  have t: "t \<noteq> []" "w = takeWhile (\<lambda>c. \<not> isspace c) t"
    using a by (auto simp: read_word_def Let_def t_def split: if_splits)
  have "\<not> isspace (hd t)" using t(1) hd_dropWhile [of isspace s] by (simp add: t_def)
  then have "w \<noteq> []" using t by (cases t) auto
  moreover have "\<forall>c \<in> set w. \<not> isspace c" unfolding t(2) by (auto dest: set_takeWhileD)
  ultimately show "is_word w" by (simp add: is_word_def)
qed

lemma read_int_range: "read_int s = Some (v, r) \<Longrightarrow> - 2147483648 \<le> v \<and> v \<le> 2147483647"
  by (auto simp: read_int_def Let_def split: if_splits)

lemma digits_value_snoc: "digits_value (s @ [c]) = digits_value s * 10 + (code c - 48)"
  by (simp add: digits_value_def)

lemma dec_nat_digits: "dec_nat n \<noteq> [] \<and> (\<forall>c \<in> set (dec_nat n). isdigit c) \<and> digits_value (dec_nat n) = n"
proof (induction n rule: dec_nat.induct)
  case (1 n)
  show ?case
  proof (cases "n < 10")
    case True
    then show ?thesis by (subst dec_nat.simps, subst (2) dec_nat.simps, subst (3) dec_nat.simps)
        (simp add: isdigit_def digits_value_def)
  next
    case False
    then have e: "dec_nat n = dec_nat (n div 10) @ [char_of (48 + n mod 10)]"
      by (subst dec_nat.simps) simp
    have m: "n mod 10 < 10" by simp
    show ?thesis unfolding e digits_value_snoc
      using 1 [OF False] m by (auto simp: isdigit_def)
  qed
qed

lemma isdigit_not_space: "isdigit c \<Longrightarrow> \<not> isspace c"
  by (auto simp: isdigit_def isspace_def)

lemma read_int_dec_nat:
  assumes "n \<le> 2147483647" "r = [] \<or> \<not> isdigit (hd r)"
  shows "read_int (dec_nat n @ r) = Some (int n, r)"
proof -
  note d = dec_nat_digits [of n]
  have w: "is_word (dec_nat n)" using d by (auto simp: is_word_def isdigit_not_space)
  obtain c t where c: "dec_nat n = c # t" using d by (cases "dec_nat n") auto
  have "isdigit c" using d c by auto
  then have h: "c \<noteq> CHR ''-''" "c \<noteq> CHR ''+''" "\<not> isspace c" by (auto simp: isdigit_def isspace_def)
  have "takeWhile isdigit (dec_nat n @ r) = dec_nat n \<and> dropWhile isdigit (dec_nat n @ r) = r"
    by (rule takeWhile_word) (use d assms in auto)
  then show ?thesis
    using d h assms(1) c unfolding read_int_def dropWhile_word [OF w] by (simp add: Let_def)
qed

lemma read_int_dec:
  assumes "- 2147483648 \<le> i" "i \<le> 2147483647" "r = [] \<or> \<not> isdigit (hd r)"
  shows "read_int (dec_int i @ r) = Some (i, r)"
proof (cases "i < 0")
  case False
  then show ?thesis using read_int_dec_nat [OF _ assms(3), of "nat i"] assms(2) by (simp add: dec_int_def)
next
  case True
  let ?n = "nat (- i)"
  note d = dec_nat_digits [of ?n]
  have "takeWhile isdigit (dec_nat ?n @ r) = dec_nat ?n \<and> dropWhile isdigit (dec_nat ?n @ r) = r"
    by (rule takeWhile_word) (use d assms in auto)
  moreover have "\<not> isspace (CHR ''-'')" by (simp add: isspace_def)
  ultimately show ?thesis using True assms(1) d by (simp add: read_int_def dec_int_def Let_def)
qed

lemma dec_int_no_space:
  assumes "c \<in> set (dec_int i)"
  shows "\<not> isspace c"
proof -
  have "c = CHR ''-'' \<or> isdigit c"
    using assms dec_nat_digits [of "nat (- i)"] dec_nat_digits [of "nat i"]
    by (auto simp: dec_int_def split: if_splits)
  then show ?thesis by (auto simp: isdigit_def isspace_def)
qed

lemma dec_int_word: "is_word (dec_int i)"
  using dec_int_no_space [of _ i] dec_nat_digits [of "nat i"] by (auto simp: is_word_def dec_int_def)

lemma getlines_line:
  assumes "delim \<notin> set l"
  shows "getlines delim (l @ delim # s) = l # getlines delim s"
proof -
  have "takeWhile (\<lambda>x. x \<noteq> delim) (l @ delim # s) = l \<and>
        dropWhile (\<lambda>x. x \<noteq> delim) (l @ delim # s) = delim # s"
    by (rule takeWhile_word) (use assms in auto)
  then show ?thesis by (cases "l @ delim # s") (simp_all add: getlines.simps)
qed

lemma getlines_lines:
  "\<forall>l \<in> set ls. delim \<notin> set l \<Longrightarrow> getlines delim (concat (map (\<lambda>l. l @ [delim]) ls)) = ls"
  by (induction ls) (simp_all add: getlines_line)

end
