(* ===== verification/Accounts.thy ===== *)
theory Accounts
  imports Strings Containers
begin

text \<open>
  Accounts and tokens of the server: the user list of \<open>src/common/user/common_user_manager.h\<close> with
  the file it is kept in, the login front end \<open>src/fptn-server/user/user_manager.cpp\<close>, and the
  tokens of \<open>src/common/jwt_token/token_manager.h\<close>. The digest of OpenSSL, the JSON and the JWT
  libraries are parameters; the file is a value with its contents and its modification time.
\<close>

section \<open>The user list\<close>

type_synonym sha256 = "string \<Rightarrow> byte list option"

record disk_file =
  df_content :: string
  df_mtime :: int

record user_db =
  db_users :: "(string, string \<times> int) umap"
  db_last_write :: int

definition hex_digit :: "nat \<Rightarrow> char" where
  "hex_digit n = (if n < 10 then char_of (48 + n) else char_of (87 + n))"

definition hex_byte :: "byte \<Rightarrow> string" where
  "hex_byte b = [hex_digit (unat b div 16), hex_digit (unat b mod 16)]"

text \<open>A failing digest gives the empty string.\<close>

definition HashPassword :: "sha256 \<Rightarrow> string \<Rightarrow> string" where
  "HashPassword sha password = (case sha password of None \<Rightarrow> [] | Some h \<Rightarrow> concat (map hex_byte h))"

definition ValidateUsername :: "string \<Rightarrow> bool" where
  "ValidateUsername username \<longleftrightarrow> username \<noteq> [] \<and> list_all isalnum username"

definition load_line :: "string \<Rightarrow> (string \<times> string \<times> int) option" where
  "load_line line = do {
     (username, r) \<leftarrow> read_word line;
     (hash, r) \<leftarrow> read_word r;
     (bandwidth, r) \<leftarrow> read_int r;
     Some (username, hash, bandwidth)
   }"

definition load_users :: "disk_file option \<Rightarrow> (string, string \<times> int) umap" where
  "load_users disk =
     (case disk of
        None \<Rightarrow> []
      | Some f \<Rightarrow>
          foldl (\<lambda>m line. case load_line line of
                   None \<Rightarrow> m
                 | Some (username, hash, bandwidth) \<Rightarrow> um_set username (hash, bandwidth) m)
            [] (getlines (CHR 0x0A) (df_content f)))"

definition LoadUsers :: "disk_file option \<Rightarrow> user_db \<Rightarrow> user_db" where
  "LoadUsers disk db = db\<lparr>db_users := load_users disk\<rparr>"

definition user_line :: "string \<times> string \<times> int \<Rightarrow> string" where
  "user_line e = (case e of (username, hash, max_speed) \<Rightarrow>
     username @ '' '' @ hash @ '' '' @ dec_int max_speed)"

text \<open>\<open>now\<close> is the modification time a write gives the file; a file that cannot be opened is left
  as it is.\<close>

definition SaveUsers :: "int \<Rightarrow> bool \<Rightarrow> user_db \<Rightarrow> disk_file option \<Rightarrow> disk_file option" where
  "SaveUsers now writable db disk =
     (if writable then
        Some \<lparr>df_content = concat (map (\<lambda>e. user_line e @ [CHR 0x0A]) (db_users db)), df_mtime = now\<rparr>
      else disk)"

definition ReloadIfChanged :: "disk_file option \<Rightarrow> user_db \<Rightarrow> user_db" where
  "ReloadIfChanged disk db =
     (case disk of
        None \<Rightarrow> db
      | Some f \<Rightarrow>
          if df_mtime f \<noteq> db_last_write db then LoadUsers disk (db\<lparr>db_last_write := df_mtime f\<rparr>)
          else db)"

text \<open>The constructor: the time stamp starts at the clock's zero.\<close>

definition CommonUserManager_new :: "disk_file option \<Rightarrow> user_db" where
  "CommonUserManager_new disk = LoadUsers disk \<lparr>db_users = [], db_last_write = 0\<rparr>"

definition AddUser ::
    "sha256 \<Rightarrow> string \<Rightarrow> string \<Rightarrow> int \<Rightarrow> int \<Rightarrow> bool \<Rightarrow> user_db \<times> disk_file option \<Rightarrow>
     bool \<times> user_db \<times> disk_file option" where
  "AddUser sha username password bandwidth now writable st = (let (db, disk) = st in
     if \<not> ValidateUsername username then (False, st)
     else if bandwidth < 0 then (False, st)
     else if map_of (db_users db) username \<noteq> None then (False, st)
     else
       let db = db\<lparr>db_users := um_set username (HashPassword sha password, bandwidth) (db_users db)\<rparr> in
       (True, db, SaveUsers now writable db disk))"

definition DeleteUser ::
    "string \<Rightarrow> int \<Rightarrow> bool \<Rightarrow> user_db \<times> disk_file option \<Rightarrow> bool \<times> user_db \<times> disk_file option" where
  "DeleteUser username now writable st = (let (db, disk) = st in
     if map_of (db_users db) username = None then (False, st)
     else
       let db = db\<lparr>db_users := um_erase username (db_users db)\<rparr> in
       (True, db, SaveUsers now writable db disk))"

definition Authenticate ::
    "sha256 \<Rightarrow> string \<Rightarrow> string \<Rightarrow> disk_file option \<Rightarrow> user_db \<Rightarrow> bool \<times> user_db" where
  "Authenticate sha username password disk db = (let db = ReloadIfChanged disk db in
     (case map_of (db_users db) username of
        Some (hash, bandwidth) \<Rightarrow> (hash = HashPassword sha password, db)
      | None \<Rightarrow> (False, db)))"

text \<open>The product is an \<open>int\<close>; \<open>None\<close> is its overflow, undefined behaviour in the source.\<close>

definition GetUserBandwidthBit :: "string \<Rightarrow> user_db \<Rightarrow> int option" where
  "GetUserBandwidthBit username db =
     (case map_of (db_users db) username of
        Some (hash, bandwidth) \<Rightarrow>
          (let r = bandwidth * 1024 * 1024 in
           if - 2147483648 \<le> r \<and> r \<le> 2147483647 then Some r else None)
      | None \<Rightarrow> Some 0)"

definition GetUserBandwidth :: "string \<Rightarrow> user_db \<Rightarrow> int" where
  "GetUserBandwidth username db =
     (case map_of (db_users db) username of Some (hash, bandwidth) \<Rightarrow> bandwidth | None \<Rightarrow> 0)"

section \<open>Logging in\<close>

text \<open>The answer of the remote login server. Its body is not JSON, or it may hold the two fields; a
  bandwidth of another type makes \<open>get<int>()\<close> throw.\<close>

datatype bandwidth_field = NoBandwidth | BandwidthInt int | BandwidthOther
datatype login_body = NotJson | LoginJson bool bandwidth_field

record http_response =
  rp_code :: int
  rp_body :: login_body

datatype login_crash = IntOverflow | JsonTypeError

definition to_c_int :: "int \<Rightarrow> int" where
  "to_c_int i = signed_take_bit 31 i"

definition remote_login :: "http_response \<Rightarrow> login_crash + bool \<times> int" where
  "remote_login resp =
     (if rp_code resp = 200 then
        (case rp_body resp of
           NotJson \<Rightarrow> Inr (False, 0)
         | LoginJson access_token bandwidth \<Rightarrow>
             (if access_token \<and> bandwidth \<noteq> NoBandwidth then
                (case bandwidth of
                   BandwidthInt b \<Rightarrow> Inr (True, to_c_int b)
                 | _ \<Rightarrow> Inl JsonTypeError)
              else Inr (False, 0)))
      else Inr (False, 0))"

datatype user_source = Remote "string \<Rightarrow> http_response" | Local

definition login_request :: "string \<Rightarrow> string \<Rightarrow> string" where
  "login_request username password =
     ''{ '' @ [CHR 0x22] @ ''username'' @ [CHR 0x22] @ '': '' @ [CHR 0x22] @ username @ [CHR 0x22] @ '', '' @
     [CHR 0x22] @ ''password'' @ [CHR 0x22] @ '': '' @ [CHR 0x22] @ password @ [CHR 0x22] @ '' }''"

text \<open>\<open>Login\<close> and \<open>LoginAsync\<close>: whether the login succeeded, with the bandwidth.\<close>

definition Login ::
    "sha256 \<Rightarrow> user_source \<Rightarrow> string \<Rightarrow> string \<Rightarrow> disk_file option \<Rightarrow> user_db \<Rightarrow>
     (login_crash + bool \<times> int) \<times> user_db" where
  "Login sha source username password disk db =
     (case source of
        Remote post \<Rightarrow> (remote_login (post (login_request username password)), db)
      | Local \<Rightarrow>
          (case Authenticate sha username password disk db of
             (True, db) \<Rightarrow>
               (case GetUserBandwidthBit username db of
                  None \<Rightarrow> (Inl IntOverflow, db)
                | Some bandwidth_bit \<Rightarrow> (Inr (True, bandwidth_bit), db))
           | (False, db) \<Rightarrow> (Inr (False, 0), db)))"

section \<open>Tokens\<close>

datatype claim = ClaimString string | ClaimInt int | ClaimOther

record jwt_claims =
  jc_issuer :: string
  jc_issued_at :: int
  jc_expires_at :: int
  jc_username :: "claim option"
  jc_bandwidth :: "claim option"

text \<open>The JWT library: decoding (without checking the signature), signing with a private key, and
  whether a private key can be loaded; each of them may throw.\<close>

record jwt_lib =
  jwt_decode :: "string \<Rightarrow> jwt_claims option"
  jwt_sign :: "string \<Rightarrow> jwt_claims \<Rightarrow> string option"
  jwt_key_loads :: "string \<Rightarrow> bool"

text \<open>\<open>None\<close>: signing throws inside a \<open>noexcept\<close> function, which ends the program.\<close>

definition Generate :: "jwt_lib \<Rightarrow> string \<Rightarrow> int \<Rightarrow> string \<Rightarrow> int \<Rightarrow> (string \<times> string) option" where
  "Generate lib server_key now username bandwidth_bit = do {
     access_token \<leftarrow> jwt_sign lib server_key
       \<lparr>jc_issuer = ''auth0'', jc_issued_at = now, jc_expires_at = now + 3600 * (24 * 30),
        jc_username = Some (ClaimString username), jc_bandwidth = Some (ClaimInt bandwidth_bit)\<rparr>;
     Some (access_token, [])
   }"

text \<open>The result, with the two variables the caller passes by reference (initially empty and
  zero). Building the verifier loads the key; the token is not handed to it.\<close>

definition Validate :: "jwt_lib \<Rightarrow> string \<Rightarrow> string \<Rightarrow> bool \<times> string \<times> u64" where
  "Validate lib server_key token =
     (case jwt_decode lib token of
        None \<Rightarrow> (False, [], 0)
      | Some decoded \<Rightarrow>
          (case jc_username decoded of
             Some (ClaimString username) \<Rightarrow>
               (case jc_bandwidth decoded of
                  Some (ClaimInt bandwidth) \<Rightarrow> (jwt_key_loads lib server_key, username, of_int bandwidth)
                | _ \<Rightarrow> (False, username, 0))
           | _ \<Rightarrow> (False, [], 0)))"

section \<open>The file and the list\<close>

definition db_ok :: "(string, string \<times> int) umap \<Rightarrow> bool" where
  "db_ok m \<longleftrightarrow> um_ok m \<and> (\<forall>(u, h, b) \<in> set m. is_word u \<and> is_word h \<and>
     - 2147483648 \<le> b \<and> b \<le> 2147483647)"

lemma load_line_user_line:
  assumes "is_word u" "is_word h" "- 2147483648 \<le> b" "b \<le> 2147483647"
  shows "load_line (user_line (u, h, b)) = Some (u, h, b)"
proof -
  have s: "isspace (CHR '' '')" by (simp add: isspace_def)
  have "read_word (u @ '' '' @ h @ '' '' @ dec_int b) = Some (u, '' '' @ h @ '' '' @ dec_int b)"
    "read_word (h @ '' '' @ dec_int b) = Some (h, '' '' @ dec_int b)"
    by (rule read_word_word; simp add: assms s)+
  moreover have "read_int (dec_int b) = Some (b, [])" using read_int_dec [OF assms(3,4), of "[]"] by simp
  ultimately show ?thesis
    by (simp add: load_line_def user_line_def read_word_space [OF s] read_int_space [OF s])
qed

lemma um_set_new: "map_of m k = None \<Longrightarrow> um_set k v m = m @ [(k, v)]"
  by (induction m) (auto split: if_splits)

lemma foldl_um_set:
  "um_ok (acc @ m) \<Longrightarrow> foldl (\<lambda>m (k, v). um_set k v m) acc m = acc @ m"
proof (induction m arbitrary: acc)
  case (Cons e m)
  have "map_of acc (fst e) = None" using Cons.prems by (auto simp: um_ok_def map_of_eq_None_iff)
  then have "um_set (fst e) (snd e) acc = acc @ [e]" by (simp add: um_set_new)
  then show ?case using Cons by (cases e) simp
qed simp

lemma user_line_no_newline:
  assumes "is_word u" "is_word h"
  shows "CHR 0x0A \<notin> set (user_line (u, h, b))"
proof -
  have "isspace (CHR 0x0A)" by (simp add: isspace_def)
  then show ?thesis using assms dec_int_no_space by (auto simp: user_line_def is_word_def)
qed

lemma load_users_saved:
  assumes "db_ok m"
  shows "load_users (SaveUsers now True (db\<lparr>db_users := m\<rparr>) disk) = m"
proof -
  have "getlines (CHR 0x0A) (concat (map (\<lambda>l. l @ [CHR 0x0A]) (map user_line m))) = map user_line m"
    by (rule getlines_lines) (use assms user_line_no_newline in \<open>force simp: db_ok_def\<close>)
  then have g: "getlines (CHR 0x0A) (concat (map (\<lambda>e. user_line e @ [CHR 0x0A]) m)) = map user_line m"
    by (simp add: comp_def)
  have "foldl (\<lambda>m line. case load_line line of None \<Rightarrow> m
          | Some (username, hash, bandwidth) \<Rightarrow> um_set username (hash, bandwidth) m) acc (map user_line xs) =
        foldl (\<lambda>m (k, v). um_set k v m) acc xs" if "set xs \<subseteq> set m" for acc xs
    using that assms load_line_user_line
    by (induction xs arbitrary: acc) (auto simp: db_ok_def)
  from this [of m "[]"] show ?thesis
    using foldl_um_set [of "[]" m] assms by (simp add: load_users_def SaveUsers_def g db_ok_def)
qed

lemma set_um_set: "set (um_set k v m) \<subseteq> insert (k, v) (set m)"
  by (induction m) auto

lemma db_ok_set:
  assumes "db_ok m" "is_word u" "is_word h" "- 2147483648 \<le> b" "b \<le> 2147483647"
  shows "db_ok (um_set u (h, b) m)"
  using assms set_um_set [of u "(h, b)" m] um_ok_set [of m] by (auto simp: db_ok_def)

lemma db_ok_erase: "db_ok m \<Longrightarrow> db_ok (um_erase u m)"
  using um.ok_erase [of m u] by (auto simp: db_ok_def um_erase_def)

lemma load_line_ok:
  "load_line line = Some (u, h, b) \<Longrightarrow>
   is_word u \<and> is_word h \<and> - 2147483648 \<le> b \<and> b \<le> 2147483647"
  by (auto simp: load_line_def bind_eq_Some_conv dest: read_word_is_word read_int_range)

lemma db_ok_load: "db_ok (load_users disk)"
proof -
  have "db_ok (foldl (\<lambda>m line. case load_line line of None \<Rightarrow> m
          | Some (username, hash, bandwidth) \<Rightarrow> um_set username (hash, bandwidth) m) acc ls)"
    if "db_ok acc" for acc ls
    using that
  proof (induction ls arbitrary: acc)
    case (Cons l ls)
    then show ?case
      by (auto intro!: Cons.IH split: option.splits dest!: load_line_ok intro: db_ok_set)
  qed simp
  moreover have "db_ok []" by (simp add: db_ok_def)
  ultimately show ?thesis unfolding load_users_def by (auto split: option.splits)
qed

lemma alnum_word: "ValidateUsername u \<Longrightarrow> is_word u"
  by (auto simp: ValidateUsername_def is_word_def list_all_iff isalnum_def isdigit_def isspace_def)

lemma hex_word: "h \<noteq> [] \<Longrightarrow> is_word (concat (map hex_byte h))"
proof -
  have d: "\<not> isspace (hex_digit n)" if "n < 16" for n
    using that by (auto simp: hex_digit_def isspace_def)
  have "\<not> isspace c" if "c \<in> set (hex_byte b)" for b c
  proof -
    have "unat b div 16 < 16" using unat_byte_less [of b] by linarith
    then show ?thesis using that d by (auto simp: hex_byte_def)
  qed
  then show "h \<noteq> [] \<Longrightarrow> is_word (concat (map hex_byte h))"
    by (cases h) (auto simp: is_word_def hex_byte_def)
qed

section \<open>Calls in sequence\<close>

datatype user_op = OpAdd string string int int | OpDelete string int | OpAuth string string

text \<open>Calls on a file that can be written; the last argument of the first two is the new
  modification time.\<close>

fun user_step :: "sha256 \<Rightarrow> user_op \<Rightarrow> user_db \<times> disk_file option \<Rightarrow> user_db \<times> disk_file option" where
  "user_step sha (OpAdd u p b now) st = snd (AddUser sha u p b now True st)"
| "user_step sha (OpDelete u now) st = snd (DeleteUser u now True st)"
| "user_step sha (OpAuth u p) st = (snd (Authenticate sha u p (snd st) (fst st)), snd st)"

definition in_int :: "user_op \<Rightarrow> bool" where
  "in_int op \<longleftrightarrow> (case op of OpAdd u p b now \<Rightarrow> b \<le> 2147483647 | _ \<Rightarrow> True)"

definition synced :: "user_db \<times> disk_file option \<Rightarrow> bool" where
  "synced st \<longleftrightarrow> db_ok (db_users (fst st)) \<and> load_users (snd st) = db_users (fst st)"

lemma Authenticate_db: "snd (Authenticate sha u p disk db) = ReloadIfChanged disk db"
  by (auto simp: Authenticate_def Let_def split: option.splits)

lemma synced_reload: "synced (db, disk) \<Longrightarrow> db_users (ReloadIfChanged disk db) = db_users db"
  by (auto simp: synced_def ReloadIfChanged_def LoadUsers_def split: option.splits)

lemma synced_saved:
  assumes "db_ok m"
  shows "synced (db\<lparr>db_users := m\<rparr>, SaveUsers now True (db\<lparr>db_users := m\<rparr>) disk)"
  using load_users_saved [OF assms] assms by (simp add: synced_def)

lemma synced_step:
  assumes "synced st" "in_int op" "\<And>p. \<exists>h. sha p = Some h \<and> h \<noteq> []"
  shows "synced (user_step sha op st)"
proof (cases op)
  case (OpAdd u p b now)
  obtain db disk where st: "st = (db, disk)" by fastforce
  obtain h where h: "sha p = Some h" "h \<noteq> []" using assms(3) by blast
  show ?thesis
  proof (cases "ValidateUsername u \<and> 0 \<le> b \<and> map_of (db_users db) u = None")
    case False
    then show ?thesis using assms(1) OpAdd st by (auto simp: AddUser_def)
  next
    case True
    then have "db_ok (um_set u (HashPassword sha p, b) (db_users db))"
      using assms(1,2) OpAdd st alnum_word hex_word [OF h(2)] h(1)
      by (auto intro!: db_ok_set simp: synced_def in_int_def HashPassword_def)
    from synced_saved [OF this] show ?thesis using True OpAdd st by (auto simp: AddUser_def Let_def)
  qed
next
  case (OpDelete u now)
  obtain db disk where st: "st = (db, disk)" by fastforce
  have "db_ok (um_erase u (db_users db))" using assms(1) st by (auto intro: db_ok_erase simp: synced_def)
  from synced_saved [OF this] show ?thesis
    using OpDelete st assms(1) by (auto simp: DeleteUser_def Let_def)
next
  case (OpAuth u p)
  obtain db disk where st: "st = (db, disk)" by fastforce
  then show ?thesis
    using OpAuth assms(1) synced_reload [of db disk] by (simp add: Authenticate_db synced_def)
qed

lemma synced_new: "synced (CommonUserManager_new disk, disk)"
  by (simp add: synced_def CommonUserManager_new_def LoadUsers_def db_ok_load)

lemma synced_run:
  assumes "synced st" "\<forall>op \<in> set ops. in_int op" "\<And>p. \<exists>h. sha p = Some h \<and> h \<noteq> []"
  shows "synced (fold (user_step sha) ops st)"
  using assms(1,2) by (induction ops arbitrary: st) (simp_all add: synced_step [OF _ _ assms(3)])

section \<open>Properties\<close>


definition demo_sha :: sha256 where
  "demo_sha p = Some (0xAB # map (\<lambda>c. of_nat (code c)) p)"

definition demo_user_ops :: "user_op list" where
  "demo_user_ops = [OpAdd ''alice'' ''pw'' 100 1, OpAdd ''bob'' ''x'' 20 2, OpAdd ''bad name'' ''x'' 1 3,
     OpDelete ''alice'' 4]"

lemma demo_user_run:
  "db_users (fst (fold (user_step demo_sha) demo_user_ops (CommonUserManager_new None, None))) =
     [(''bob'', ''ab78'', 20)]"
  by (simp add: demo_user_ops_def CommonUserManager_new_def LoadUsers_def load_users_def AddUser_def
      DeleteUser_def ValidateUsername_def isalnum_def isdigit_def um_erase_def HashPassword_def
      demo_sha_def hex_byte_def hex_digit_def Let_def char_of_def bit_Suc_0_iff)


text \<open>Logging in after a user was added: in every state the manager can reach, an accepted
  \<open>AddUser\<close> lets exactly the passwords with the same digest log in, with the bandwidth converted
  to bits, unless that is 2048 or more, when the conversion overflows.\<close>

theorem AddUser_then_Login:
  assumes "\<forall>op \<in> set ops. in_int op" and "\<forall>p. \<exists>h. sha p = Some h \<and> h \<noteq> []"
    and "fold (user_step sha) ops (CommonUserManager_new disk, disk) = st"
    and "AddUser sha u p b now True st = (True, db', disk')" and "b \<le> 2147483647"
  shows "fst (Login sha Local u p' disk' db') =
           (if HashPassword sha p' = HashPassword sha p then
              if b < 2048 then Inr (True, b * 1048576) else Inl IntOverflow
            else Inr (False, 0))"
proof -
  have s: "synced st" using synced_run [OF synced_new assms(1), of sha disk] assms(2,3) by simp
  obtain db d where st: "st = (db, d)" by fastforce
  have b: "0 \<le> b" and e: "map_of (db_users db') u = Some (HashPassword sha p, b)"
    using assms(4) by (auto simp: AddUser_def st Let_def map_of_um_set split: if_splits)
  have "synced (db', disk')"
    using synced_step [OF s, where op = "OpAdd u p b now" and sha = sha] assms(2,4,5)
    by (simp add: in_int_def)
  then have r: "db_users (ReloadIfChanged disk' db') = db_users db'" by (rule synced_reload)
  show ?thesis
    using b by (auto simp: Login_def Authenticate_def Let_def r e GetUserBandwidthBit_def)
qed

definition demo_carol :: "bool \<times> user_db \<times> disk_file option" where
  "demo_carol = AddUser demo_sha ''carol'' ''secret'' 10 7 True (CommonUserManager_new None, None)"

theorem AddUser_then_Login_witness:
  "fst (Login demo_sha Local ''carol'' ''secret'' (snd (snd demo_carol)) (fst (snd demo_carol))) =
     Inr (True, 10485760)"
proof -
  have d: "\<forall>p. \<exists>h. demo_sha p = Some h \<and> h \<noteq> []" by (simp add: demo_sha_def)
  have "fst demo_carol"
    by (simp add: demo_carol_def AddUser_def CommonUserManager_new_def LoadUsers_def load_users_def
      ValidateUsername_def isalnum_def isdigit_def Let_def)
  then have a: "AddUser demo_sha ''carol'' ''secret'' 10 7 True (CommonUserManager_new None, None) =
      (True, fst (snd demo_carol), snd (snd demo_carol))"
    unfolding demo_carol_def [symmetric] by (metis prod.collapse)
  have f: "fold (user_step demo_sha) [] (CommonUserManager_new None, None) = (CommonUserManager_new None, None)"
    by simp
  from AddUser_then_Login [OF _ d f a, of "''secret''"] show ?thesis by simp
qed

text \<open>A token is accepted whoever signed it: besides the tokens the server issues, \<open>Validate\<close>
  accepts every token that decodes to a user name and a bandwidth, signed with any key, by any
  issuer and expired or not, and hands out the name and bandwidth it claims.\<close>

theorem Validate_ignores_signature:
  assumes "\<forall>k c t. jwt_sign lib k c = Some t \<longrightarrow> jwt_decode lib t = Some c"
    and "jwt_key_loads lib server_key"
  shows "(\<forall>now t r. Generate lib server_key now u bw = Some (t, r) \<longrightarrow>
            Validate lib server_key t = (True, u, of_int bw)) \<and>
         (\<forall>other_key iss iat exp t. jwt_sign lib other_key
              \<lparr>jc_issuer = iss, jc_issued_at = iat, jc_expires_at = exp,
               jc_username = Some (ClaimString u), jc_bandwidth = Some (ClaimInt bw)\<rparr> = Some t \<longrightarrow>
            Validate lib server_key t = (True, u, of_int bw))"
  using assms by (auto simp: Generate_def Validate_def bind_eq_Some_conv)

definition forged :: jwt_claims where
  "forged = \<lparr>jc_issuer = ''nobody'', jc_issued_at = 0, jc_expires_at = 1,
     jc_username = Some (ClaimString ''admin''), jc_bandwidth = Some (ClaimInt 1000)\<rparr>"

definition demo_jwt :: jwt_lib where
  "demo_jwt = \<lparr>jwt_decode = (\<lambda>t. if t = ''token'' then Some forged else None),
     jwt_sign = (\<lambda>k c. if c = forged then Some ''token'' else None), jwt_key_loads = (\<lambda>k. True)\<rparr>"

theorem Validate_ignores_signature_witness:
  "Validate demo_jwt ''server key'' ''token'' = (True, ''admin'', 1000)"
proof -
  have "jwt_sign demo_jwt ''attacker key'' forged = Some ''token''" by (simp add: demo_jwt_def)
  then show ?thesis
    using Validate_ignores_signature [of demo_jwt "''server key''" "''admin''" 1000]
    unfolding forged_def by (simp add: demo_jwt_def forged_def)
qed

end
