(* ===== verification/Channel.thy ===== *)
theory Channel
  imports Prelude "HOL-Library.Multiset"
begin

text \<open>
  The bounded packet queue of \<open>src/common/data/channel.h\<close> between the network threads and the
  workers. Every method is one step under the channel's mutex. A wait that times out is a wait
  that finds the queue empty.
\<close>

section \<open>Definitions\<close>

record 'p channel =
  ch_queue :: "'p list"
  ch_max_capacity :: nat
  ch_is_full :: bool
  ch_dropped :: nat

definition Channel_new :: "nat \<Rightarrow> 'p channel" where
  "Channel_new max_capacity =
     \<lparr>ch_queue = [], ch_max_capacity = max_capacity, ch_is_full = False, ch_dropped = 0\<rparr>"

definition Push :: "'p \<Rightarrow> 'p channel \<Rightarrow> bool \<times> 'p channel" where
  "Push pkt c =
     (if length (ch_queue c) \<le> ch_max_capacity c then
        let c = (if ch_is_full c then c\<lparr>ch_is_full := False, ch_dropped := 0\<rparr> else c) in
        (True, c\<lparr>ch_queue := ch_queue c @ [pkt]\<rparr>)
      else
        let c = c\<lparr>ch_dropped := ch_dropped c + 1\<rparr> in
        (False, if \<not> ch_is_full c then c\<lparr>ch_is_full := True\<rparr> else c))"

definition PushBatch :: "'p list \<Rightarrow> 'p channel \<Rightarrow> bool \<times> 'p channel" where
  "PushBatch packets c =
     (if length (ch_queue c) \<ge> ch_max_capacity c then
        let c = c\<lparr>ch_dropped := ch_dropped c + length packets\<rparr> in
        (False, if \<not> ch_is_full c then c\<lparr>ch_is_full := True\<rparr> else c)
      else
        let c = (if ch_is_full c then c\<lparr>ch_is_full := False, ch_dropped := 0\<rparr> else c) in
        (True, c\<lparr>ch_queue := ch_queue c @ packets\<rparr>))"

definition WaitForPacket :: "'p channel \<Rightarrow> 'p option \<times> 'p channel" where
  "WaitForPacket c =
     (case ch_queue c of
        [] \<Rightarrow> (None, c)
      | p # q \<Rightarrow> (Some p, c\<lparr>ch_queue := q\<rparr>))"

text \<open>The loop of \<open>WaitForPackets\<close>.\<close>

fun drain :: "nat \<Rightarrow> 'p list \<Rightarrow> 'p list \<Rightarrow> 'p list \<times> 'p list" where
  "drain max_batch_size [] batch = (batch, [])"
| "drain max_batch_size (p # q) batch =
     (if length batch < max_batch_size then drain max_batch_size q (batch @ [p])
      else (batch, p # q))"

definition WaitForPackets :: "nat \<Rightarrow> 'p channel \<Rightarrow> 'p list \<times> 'p channel" where
  "WaitForPackets max_batch_size c =
     (let (batch, q) = drain max_batch_size (ch_queue c) [] in (batch, c\<lparr>ch_queue := q\<rparr>))"

section \<open>Runs\<close>

datatype 'p channel_op = DoPush 'p | DoPushBatch "'p list" | DoWait | DoWaitBatch nat

text \<open>What one call put into the channel, handed out and refused.\<close>

fun channel_step :: "'p channel_op \<Rightarrow> 'p channel \<Rightarrow> ('p list \<times> 'p list \<times> 'p list) \<times> 'p channel" where
  "channel_step (DoPush p) c = (let (ok, c) = Push p c in ((if ok then [p] else [], [], if ok then [] else [p]), c))"
| "channel_step (DoPushBatch ps) c = (let (ok, c) = PushBatch ps c in ((if ok then ps else [], [], if ok then [] else ps), c))"
| "channel_step DoWait c = (let (r, c) = WaitForPacket c in (([], case r of None \<Rightarrow> [] | Some p \<Rightarrow> [p], []), c))"
| "channel_step (DoWaitBatch n) c = (let (r, c) = WaitForPackets n c in (([], r, []), c))"

fun channel_run :: "'p channel_op list \<Rightarrow> 'p channel \<Rightarrow> ('p list \<times> 'p list \<times> 'p list) \<times> 'p channel" where
  "channel_run [] c = (([], [], []), c)"
| "channel_run (op # ops) c =
     (let ((a, d, r), c) = channel_step op c; ((a', d', r'), c) = channel_run ops c in
      ((a @ a', d @ d', r @ r'), c))"

fun batch_at_most :: "nat \<Rightarrow> 'p channel_op \<Rightarrow> bool" where
  "batch_at_most b (DoPushBatch ps) \<longleftrightarrow> length ps \<le> b"
| "batch_at_most b op \<longleftrightarrow> True"

fun offered :: "'p channel_op \<Rightarrow> 'p multiset" where
  "offered (DoPush p) = {#p#}"
| "offered (DoPushBatch ps) = mset ps"
| "offered op = {#}"

section \<open>Lemmas\<close>

lemma drain_eq: "length batch \<le> n \<Longrightarrow>
  drain n q batch = (batch @ take (n - length batch) q, drop (n - length batch) q)"
proof (induction n q batch rule: drain.induct)
  case (2 n p q batch)
  then show ?case by (auto simp: take_Cons' drop_Cons')
qed simp

lemma WaitForPackets_eq:
  "WaitForPackets n c = (take n (ch_queue c), c\<lparr>ch_queue := drop n (ch_queue c)\<rparr>)"
  by (simp add: WaitForPackets_def drain_eq)

lemma channel_step_fifo:
  assumes "channel_step op c = ((a, d, r), c')"
  shows "ch_queue c @ a = d @ ch_queue c' \<and> ch_max_capacity c' = ch_max_capacity c"
  using assms
  by (cases op) (auto simp: Push_def PushBatch_def WaitForPacket_def WaitForPackets_eq Let_def
      split: if_splits list.splits)

lemma channel_step_bound:
  assumes "channel_step op c = ((a, d, r), c')" "batch_at_most b op"
    and "length (ch_queue c) \<le> max (ch_max_capacity c + 1) (ch_max_capacity c + b - 1)"
  shows "length (ch_queue c') \<le> max (ch_max_capacity c + 1) (ch_max_capacity c + b - 1)"
  using assms
  by (cases op) (auto simp: Push_def PushBatch_def WaitForPacket_def WaitForPackets_eq Let_def
      split: if_splits list.splits)

lemma channel_step_offered:
  assumes "channel_step op c = ((a, d, r), c')"
  shows "offered op = mset a + mset r \<and> ch_dropped c' \<le> ch_dropped c + length r"
  using assms
  by (cases op) (auto simp: Push_def PushBatch_def WaitForPacket_def WaitForPackets_eq Let_def
      split: if_splits prod.splits list.splits)

lemma channel_run_spec:
  assumes "channel_run ops c = ((a, d, r), c')"
  shows "ch_queue c @ a = d @ ch_queue c' \<and> ch_max_capacity c' = ch_max_capacity c \<and>
         sum_mset (image_mset offered (mset ops)) = mset a + mset r \<and>
         ch_dropped c' \<le> ch_dropped c + length r"
  using assms
proof (induction ops arbitrary: c a d r)
  case (Cons op ops)
  obtain a1 d1 r1 c1 where 1: "channel_step op c = ((a1, d1, r1), c1)" by (metis prod.exhaust)
  obtain a2 d2 r2 c2 where 2: "channel_run ops c1 = ((a2, d2, r2), c2)" by (metis prod.exhaust)
  have e: "a = a1 @ a2" "d = d1 @ d2" "r = r1 @ r2" "c' = c2" using Cons.prems 1 2 by auto
  have "ch_queue c @ a = d1 @ (ch_queue c1 @ a2)" using channel_step_fifo [OF 1] e by simp
  then show ?case
    using channel_step_fifo [OF 1] channel_step_offered [OF 1] Cons.IH [OF 2 [folded e(4)]] e by simp
qed simp

lemma channel_run_bound:
  assumes "channel_run ops c = ((a, d, r), c')" "\<forall>op \<in> set ops. batch_at_most b op"
    and "length (ch_queue c) \<le> max (ch_max_capacity c + 1) (ch_max_capacity c + b - 1)"
  shows "length (ch_queue c') \<le> max (ch_max_capacity c + 1) (ch_max_capacity c + b - 1)"
  using assms
proof (induction ops arbitrary: c a d r)
  case (Cons op ops)
  obtain a1 d1 r1 c1 where 1: "channel_step op c = ((a1, d1, r1), c1)" by (metis prod.exhaust)
  obtain a2 d2 r2 c2 where 2: "channel_run ops c1 = ((a2, d2, r2), c2)" by (metis prod.exhaust)
  have "c' = c2" using Cons.prems(1) 1 2 by auto
  then show ?case
    using Cons.IH [OF 2 [folded \<open>c' = c2\<close>]] channel_step_bound [OF 1 _ Cons.prems(3)]
      channel_step_fifo [OF 1] Cons.prems(2) by simp
qed simp

section \<open>Properties\<close>

text \<open>C18: The channel is a bounded queue: whatever sequence of calls is made, the packets handed out
  followed by those still queued are exactly the accepted ones in the order they were accepted,
  so none is lost, repeated or reordered; every packet offered is either accepted or refused, and
  the drop counter never exceeds the refusals; and the queue never holds more than one packet
  above its capacity, or one batch above it when batches of up to \<open>b\<close> packets are pushed.\<close>

theorem channel_fifo_bounded:
  assumes "channel_run ops (Channel_new cap) = ((accepted, delivered, refused), c)"
    and "\<forall>op \<in> set ops. batch_at_most b op"
  shows "accepted = delivered @ ch_queue c \<and>
         sum_mset (image_mset offered (mset ops)) = mset accepted + mset refused \<and>
         ch_dropped c \<le> length refused \<and>
         length (ch_queue c) \<le> max (cap + 1) (cap + b - 1)"
  using channel_run_spec [OF assms(1)] channel_run_bound [OF assms(1,2)] by (simp add: Channel_new_def)

definition demo_ops :: "nat channel_op list" where
  "demo_ops = [DoPush 1, DoPushBatch [2, 3], DoPush 4, DoPush 5, DoWait, DoWaitBatch 5]"

lemma demo_ops_run:
  "channel_run demo_ops (Channel_new 1) =
     (([1, 4], [1, 4], [2, 3, 5]), \<lparr>ch_queue = [], ch_max_capacity = 1, ch_is_full = True, ch_dropped = 1\<rparr>)"
  by (simp add: demo_ops_def Channel_new_def Push_def PushBatch_def WaitForPacket_def WaitForPackets_def)

theorem channel_fifo_bounded_witness:
  "sum_mset (image_mset offered (mset demo_ops)) = {#1, 4#} + {#2, 3, 5#}"
  using channel_fifo_bounded [OF demo_ops_run, of 2] by (simp add: demo_ops_def)

end
