(* ===== verification/Server.thy ===== *)
theory Server
  imports NatTable Filters Accounts Channel
begin

text \<open>
  The web server of \<open>src/fptn-server/web/server.cpp\<close> and the packet threads of
  \<open>src/fptn-server/vpn/manager.cpp\<close>. A web session is an identity; closing it is the call of its
  close callback. \<open>HandleWsOpenConnection\<close> counts the user's sessions before it takes the server's
  mutex, and \<open>HandleWsCloseConnection\<close> gives the mutex up before it deletes the connection from the
  NAT table, so each of them is two steps and calls of other threads may come between.
\<close>

section \<open>The HTTP interface\<close>

definition kApiDnsUrl :: string where "kApiDnsUrl = ''/api/v1/dns''"
definition kApiLoginUrl :: string where "kApiLoginUrl = ''/api/v1/login''"
definition kApiMetricsUrl :: string where "kApiMetricsUrl = ''/api/v1/metrics''"
definition kApiTestFileBinUrl :: string where "kApiTestFileBinUrl = ''/api/v1/test/file.bin''"
definition kApiWebSocketUrlOld :: string where "kApiWebSocketUrlOld = ''/fptn''"
definition kApiWebSocketUrl :: string where "kApiWebSocketUrl = ''/api/v1/fptn''"

datatype api_handler = HandleApiDns | HandleApiLogin | HandleApiTestFile | HandleApiMetrics

definition GetApiKey :: "string \<Rightarrow> string \<Rightarrow> string" where
  "GetApiKey url method = method @ '' '' @ url"

definition AddApiHandle ::
    "string \<Rightarrow> string \<Rightarrow> api_handler \<Rightarrow> (string, api_handler) umap \<Rightarrow> (string, api_handler) umap" where
  "AddApiHandle url method handle m = um_set (GetApiKey url method) handle m"

definition GetApiHandle :: "(string, api_handler) umap \<Rightarrow> string \<Rightarrow> string \<Rightarrow> api_handler option" where
  "GetApiHandle m url method = map_of m (GetApiKey url method)"

text \<open>The handles the constructor registers; the metrics are served only under an access key.\<close>

definition api_handles :: "string \<Rightarrow> (string, api_handler) umap" where
  "api_handles prometheus_access_key =
     (let m = AddApiHandle kApiTestFileBinUrl ''GET'' HandleApiTestFile
                (AddApiHandle kApiLoginUrl ''POST'' HandleApiLogin
                  (AddApiHandle kApiDnsUrl ''GET'' HandleApiDns [])) in
      if prometheus_access_key \<noteq> [] then
        AddApiHandle (kApiMetricsUrl @ ''/'' @ prometheus_access_key) ''GET'' HandleApiMetrics m
      else m)"

definition quoted :: "string \<Rightarrow> string" where
  "quoted s = [CHR 0x22] @ s @ [CHR 0x22]"

definition dns_body :: "ip_address \<Rightarrow> ip_address \<Rightarrow> nat \<times> string" where
  "dns_body ipv4 ipv6 =
     (200, ''{'' @ quoted ''dns'' @ '': '' @ quoted (ip_str ipv4) @ '', '' @ quoted ''dns_ipv6'' @ '': '' @
           quoted (ip_str ipv6) @ '' }'')"

text \<open>A login request as the JSON library presents it: not JSON, or an object whose two fields may
  be missing or of another type, which the accessors report by throwing as well.\<close>

datatype body_json = BadJson | BodyJson "string option" "string option"

definition login_answer :: "string \<Rightarrow> string \<Rightarrow> int \<Rightarrow> string" where
  "login_answer access refresh bandwidth_bit =
     ''{ '' @ quoted ''access_token'' @ '': '' @ quoted access @ '', '' @ quoted ''refresh_token'' @ '': '' @
     quoted refresh @ '', '' @ quoted ''bandwidth_bit'' @ '': '' @ dec_int bandwidth_bit @ '' }''"

definition error_answer :: "string \<Rightarrow> string" where
  "error_answer msg = ''{'' @ quoted ''status'' @ '': '' @ quoted ''error'' @ '', '' @ quoted ''message'' @ '': '' @
     quoted msg @ ''}''"

text \<open>The status and the body; \<open>None\<close> is undefined behaviour (the bandwidth overflows) or the end of
  the program (signing throws inside a \<open>noexcept\<close> function).\<close>

definition HandleLogin ::
    "jwt_lib \<Rightarrow> string \<Rightarrow> int \<Rightarrow> sha256 \<Rightarrow> user_source \<Rightarrow> disk_file option \<Rightarrow> body_json \<Rightarrow> user_db \<Rightarrow>
     ((nat \<times> string) option) \<times> user_db" where
  "HandleLogin jwt server_key now sha source disk body db =
     (case body of
        BodyJson (Some username) (Some password) \<Rightarrow>
          (case Login sha source username password disk db of
             (Inl IntOverflow, db) \<Rightarrow> (None, db)
           | (Inl JsonTypeError, db) \<Rightarrow> (Some (400, error_answer ''Invalid JSON format.''), db)
           | (Inr (True, bandwidth_bit), db) \<Rightarrow>
               (case Generate jwt server_key now username bandwidth_bit of
                  None \<Rightarrow> (None, db)
                | Some (access, refresh) \<Rightarrow> (Some (200, login_answer access refresh bandwidth_bit), db))
           | (Inr (False, _), db) \<Rightarrow> (Some (401, error_answer ''Invalid login or password.''), db))
      | _ \<Rightarrow> (Some (400, error_answer ''Invalid JSON format.''), db))"

section \<open>Web sockets\<close>

record server =
  sv_running :: bool
  sv_sessions :: "(client_id, nat) umap"
  sv_max_active :: nat
  sv_table :: table

definition GetSessionById :: "client_id \<Rightarrow> server \<Rightarrow> nat option" where
  "GetSessionById cid s = map_of (sv_sessions s) cid"

text \<open>\<open>HandleWsOpenConnection\<close> up to the point where it takes the mutex: the parameters with the
  user's name and bandwidth.\<close>

definition ws_check :: "jwt_lib \<Rightarrow> string \<Rightarrow> connect_params \<Rightarrow> server \<Rightarrow> (connect_params \<times> u64) option" where
  "ws_check jwt server_key params s =
     (if \<not> sv_running s then None
      else if cp_url params \<noteq> kApiWebSocketUrl \<and> cp_url params \<noteq> kApiWebSocketUrlOld then None
      else
        (case Validate jwt server_key (cp_jwt_auth_token params) of
           (False, _, _) \<Rightarrow> None
         | (True, username, bandwidth) \<Rightarrow>
             if GetNumberActiveSessionByUsername username (sv_table s) > sv_max_active s then None
             else Some (params\<lparr>cp_username := username,
                               cp_bandwidth_bites_seconds := cp_bandwidth_bites_seconds params + bandwidth\<rparr>,
                        bandwidth)))"

text \<open>The rest, under the mutex. \<open>clk\<close> are the clock readings: two for the buckets, three for the
  connection.\<close>

definition ws_commit ::
    "connect_params \<times> u64 \<Rightarrow> nat \<Rightarrow> int \<times> int \<times> int \<times> int \<times> int \<Rightarrow> server \<Rightarrow> nat option \<times> server" where
  "ws_commit checked session clk s =
     (let (params, bandwidth) = checked; (b1, b2, t0, t1, t2) = clk in
      if \<not> sv_running s \<or> map_of (sv_sessions s) (cp_client_id params) \<noteq> None then (None, s)
      else
        (case AddConnection params (LeakyBucket_new bandwidth b1) (LeakyBucket_new bandwidth b2) (t0, t1, t2)
                (sv_table s) of
           (None, t) \<Rightarrow> (None, s\<lparr>sv_table := t\<rparr>)
         | (Some m, t) \<Rightarrow>
             (Some m, s\<lparr>sv_table := t, sv_sessions := um_insert (cp_client_id params) session (sv_sessions s)\<rparr>)))"

definition HandleWsOpenConnection ::
    "jwt_lib \<Rightarrow> string \<Rightarrow> connect_params \<Rightarrow> nat \<Rightarrow> int \<times> int \<times> int \<times> int \<times> int \<Rightarrow> server \<Rightarrow>
     nat option \<times> server" where
  "HandleWsOpenConnection jwt server_key params session clk s =
     (case ws_check jwt server_key params s of
        None \<Rightarrow> (None, s)
      | Some checked \<Rightarrow> ws_commit checked session clk s)"

text \<open>\<open>HandleWsCloseConnection\<close>: taking the session out under the mutex (the session is then closed),
  and deleting the connection.\<close>

definition ws_close_take :: "client_id \<Rightarrow> server \<Rightarrow> nat option \<times> server" where
  "ws_close_take cid s =
     (if sv_running s then
        (case map_of (sv_sessions s) cid of
           Some session \<Rightarrow> (Some session, s\<lparr>sv_sessions := um_erase cid (sv_sessions s)\<rparr>)
         | None \<Rightarrow> (None, s))
      else (None, s))"

definition ws_close_delete :: "client_id \<Rightarrow> server \<Rightarrow> server" where
  "ws_close_delete cid s = s\<lparr>sv_table := snd (DelConnectionByClientId cid (sv_table s))\<rparr>"

definition HandleWsCloseConnection :: "client_id \<Rightarrow> server \<Rightarrow> server" where
  "HandleWsCloseConnection cid s = ws_close_delete cid (snd (ws_close_take cid s))"

definition Server_Start :: "server \<Rightarrow> server" where
  "Server_Start s = s\<lparr>sv_running := True\<rparr>"

text \<open>The sessions closed by \<open>Stop\<close> call back with their client ids.\<close>

definition Server_Stop :: "server \<Rightarrow> (bool \<times> client_id list) \<times> server" where
  "Server_Stop s =
     (if sv_running s then ((True, map fst (sv_sessions s)), s\<lparr>sv_running := False, sv_sessions := []\<rparr>)
      else ((False, []), s))"

section \<open>Steps\<close>

text \<open>The server with the status updates half done, the client ids issued so far, the opens between
  check and commit and the closes between take and delete. At most \<open>threads\<close> opens are under way,
  one per thread of the I/O context, because an open does not suspend.\<close>

record server_state =
  ss_server :: server
  ss_scans :: "(client_id list \<times> nat list) list"
  ss_issued :: "client_id set"
  ss_opening :: "(connect_params \<times> u64) list"
  ss_closing :: "client_id list"

inductive server_step :: "jwt_lib \<Rightarrow> string \<Rightarrow> nat \<Rightarrow> server_state \<Rightarrow> server_state \<Rightarrow> bool"
  for jwt :: jwt_lib and server_key :: string and threads :: nat where
  check: "cp_client_id params \<notin> ss_issued st \<Longrightarrow> length (ss_opening st) < threads \<Longrightarrow>
    ws_check jwt server_key params (ss_server st) = Some checked \<Longrightarrow>
    server_step jwt server_key threads st
      (st\<lparr>ss_issued := insert (cp_client_id params) (ss_issued st), ss_opening := checked # ss_opening st\<rparr>)"
| commit: "ss_opening st = xs @ checked # ys \<Longrightarrow> t1 \<le> t2 \<Longrightarrow>
    ws_commit checked session (b1, b2, t0, t1, t2) (ss_server st) = (r, s') \<Longrightarrow>
    server_step jwt server_key threads st (st\<lparr>ss_server := s', ss_opening := xs @ ys\<rparr>)"
| take: "ws_close_take cid (ss_server st) = (r, s') \<Longrightarrow>
    server_step jwt server_key threads st (st\<lparr>ss_server := s', ss_closing := cid # ss_closing st\<rparr>)"
| delete: "ss_closing st = xs @ cid # ys \<Longrightarrow>
    server_step jwt server_key threads st
      (st\<lparr>ss_server := ws_close_delete cid (ss_server st), ss_closing := xs @ ys\<rparr>)"
| scan: "\<forall>m. mono (clocks m) \<Longrightarrow> UpdateScan clocks (sv_table (ss_server st)) = (work, t') \<Longrightarrow>
    server_step jwt server_key threads st
      (st\<lparr>ss_server := (ss_server st)\<lparr>sv_table := t'\<rparr>, ss_scans := work # ss_scans st\<rparr>)"
| finish: "ss_scans st = xs @ work # ys \<Longrightarrow>
    server_step jwt server_key threads st
      (st\<lparr>ss_server := (ss_server st)\<lparr>sv_table := UpdateFinish work (sv_table (ss_server st))\<rparr>,
         ss_scans := xs @ ys\<rparr>)"
| traffic: "tb_store (sv_table (ss_server st)) m = Some mx \<Longrightarrow>
    server_step jwt server_key threads st
      (st\<lparr>ss_server := (ss_server st)\<lparr>sv_table := (sv_table (ss_server st))\<lparr>tb_store :=
         (tb_store (sv_table (ss_server st)))(m \<mapsto> mx\<lparr>mx_to_client := b1, mx_from_client := b2,
            mx_disable_checksum := d, mx_cursor := k\<rparr>)\<rparr>\<rparr>\<rparr>)"
| start: "server_step jwt server_key threads st (st\<lparr>ss_server := Server_Start (ss_server st)\<rparr>)"
| stop: "Server_Stop (ss_server st) = ((r, closed), s') \<Longrightarrow>
    server_step jwt server_key threads st (st\<lparr>ss_server := s', ss_closing := closed @ ss_closing st\<rparr>)"

inductive server_reachable :: "jwt_lib \<Rightarrow> string \<Rightarrow> nat \<Rightarrow> nat \<Rightarrow> table \<Rightarrow> server_state \<Rightarrow> bool"
  for jwt :: jwt_lib and server_key :: string and threads :: nat and max_active :: nat and init :: table where
  begin_run: "server_reachable jwt server_key threads max_active init
     \<lparr>ss_server = \<lparr>sv_running = False, sv_sessions = [], sv_max_active = max_active, sv_table = init\<rparr>,
      ss_scans = [], ss_issued = {}, ss_opening = [], ss_closing = []\<rparr>"
| next_step: "server_reachable jwt server_key threads max_active init st \<Longrightarrow>
     server_step jwt server_key threads st st' \<Longrightarrow>
     server_reachable jwt server_key threads max_active init st'"

section \<open>Counting the sessions of a user\<close>

abbreviation cnt :: "string \<Rightarrow> table \<Rightarrow> nat" where
  "cnt \<equiv> GetNumberActiveSessionByUsername"

lemma cnt_cong:
  assumes "tb_session t' = tb_session t"
    and "\<And>m. mx_username (mplx t' m) = mx_username (mplx t m)"
  shows "cnt u t' = cnt u t"
  using assms by (simp add: GetNumberActiveSessionByUsername_def)

lemma length_filter_filter: "length (filter P (filter Q xs)) \<le> length (filter P xs)"
  by (induction xs) auto

lemma cnt_Release: "cnt u (ReleaseSessionIfEmpty m t) \<le> cnt u t"
  by (simp add: ReleaseSessionIfEmpty_def GetNumberActiveSessionByUsername_def Let_def um_erase_def
      length_filter_filter del: filter_filter)

lemma cnt_fold_Release: "cnt u (fold ReleaseSessionIfEmpty mls t) \<le> cnt u t"
proof (induction mls arbitrary: t)
  case (Cons m mls)
  show ?case using Cons [of "ReleaseSessionIfEmpty m t"] cnt_Release [of u m t] by simp
qed simp

lemma mx_Del_username: "mx_username (snd (mx_DelConnectionByClientId cid m)) = mx_username m"
  by (simp add: mx_DelConnectionByClientId_def split: prod.splits)

lemma mx_Update_username: "mx_username (snd (mx_UpdateConnectionsStatus clock m)) = mx_username m"
  by (simp add: mx_UpdateConnectionsStatus_def Let_def split: prod.splits)

lemma cnt_Del: "cnt u (snd (DelConnectionByClientId cid t)) \<le> cnt u t"
proof (cases "map_of (tb_client t) cid")
  case (Some m)
  let ?t = "t\<lparr>tb_client := um_erase cid (tb_client t),
              tb_store := (tb_store t)(m \<mapsto> snd (mx_DelConnectionByClientId cid (mplx t m)))\<rparr>"
  have "cnt u ?t = cnt u t" by (rule cnt_cong) (simp_all add: mx_Del_username)
  then show ?thesis
    using Some cnt_Release [of u m ?t] by (simp add: DelConnectionByClientId_def Let_def)
qed (simp add: DelConnectionByClientId_def)

lemma scan_username:
  "scan_sessions clocks mls st = (ex, em, st') \<Longrightarrow> mx_username (the (st' m)) = mx_username (the (st m))"
proof (induction mls arbitrary: st ex em)
  case (Cons k mls)
  obtain e mx where e: "mx_UpdateConnectionsStatus (clocks k) (the (st k)) = (e, mx)" by fastforce
  obtain ex1 em1 st1 where r: "scan_sessions clocks mls (st(k \<mapsto> mx)) = (ex1, em1, st1)"
    by (metis surj_pair)
  have "st' = st1" using Cons.prems e r by (auto simp: Let_def)
  then show ?case
    using Cons.IH [OF r [folded \<open>st' = st1\<close>]] mx_Update_username [of "clocks k" "the (st k)"] e by (auto split: if_splits)
qed simp

lemma cnt_UpdateScan:
  assumes "UpdateScan clocks t = (work, t')"
  shows "cnt u t' = cnt u t"
proof -
  obtain ex em st where s: "scan_sessions clocks (map snd (tb_session t)) (tb_store t) = (ex, em, st)"
    by (metis surj_pair)
  then have "t' = t\<lparr>tb_store := st\<rparr>" using assms by (simp add: UpdateScan_def)
  then show ?thesis using scan_username [OF s] by (intro cnt_cong) simp_all
qed

lemma cnt_UpdateFinish: "cnt u (UpdateFinish work t) \<le> cnt u t"
proof -
  let ?t = "t\<lparr>tb_client := fold um_erase (fst work) (tb_client t)\<rparr>"
  have "cnt u ?t = cnt u t" by (rule cnt_cong) simp_all
  then show ?thesis
    using cnt_fold_Release [of u "snd work" ?t]
    by (cases work) (simp add: UpdateFinish_def Let_def)
qed

lemma cnt_AddConnection:
  assumes "inv_maps t" "t1 \<le> t2" "AddConnection params b1 b2 (t0, t1, t2) t = (r, t')"
  shows "cnt u t' \<le> cnt u t + (if u = cp_username params then 1 else 0)"
proof (cases "map_of (tb_session t) (cp_session_id params)")
  case (Some m)
  obtain added mx where add: "AddClientConnection params (t0, t1, t2) (mplx t m) = (added, mx)"
    by fastforce
  have n: "mx_username mx = mx_username (mplx t m)"
    using AddClientConnection_spec(6) [OF assms(2) add] .
  let ?t = "t\<lparr>tb_store := (tb_store t)(m \<mapsto> mx), tb_client := um_insert (cp_client_id params) m (tb_client t)\<rparr>"
  have "cnt u ?t = cnt u t" by (rule cnt_cong) (simp_all add: n)
  moreover have "t' = t \<or> t' = ?t"
    using assms(3) Some add by (auto simp: AddConnection_def split: if_splits)
  ultimately show ?thesis by auto
next
  case None
  show ?thesis
  proof (cases "tb_free_ipv4 t = [] \<or> tb_free_ipv6 t = []")
    case True
    then have "t' = t" using assms(3) None by (auto simp: AddConnection_def)
    then show ?thesis by simp
  next
    case False
    let ?mx = "Multiplexer_Create params (last (tb_free_ipv4 t)) (last (tb_free_ipv6 t)) b1 b2 (t0, t1, t2)"
    have s: "tb_session t' = tb_session t @ [(cp_session_id params, tb_next t)]"
      and st: "tb_store t' = (tb_store t)(tb_next t \<mapsto> ?mx)"
      using assms(3) None False by (auto simp: AddConnection_def Let_def um_insert_def)
    have lt: "m < tb_next t" if "(sid, m) \<in> set (tb_session t)" for sid m
      using um.entries_find [OF inv_mapsD(1) [OF assms(1)]] inv_mapsD(5,9) [OF assms(1)] that by blast
    have f: "filter (\<lambda>(sid, m). mx_username (mplx t' m) = u) (tb_session t) =
             filter (\<lambda>(sid, m). mx_username (mplx t m) = u) (tb_session t)"
      by (rule filter_cong) (use lt in \<open>auto simp: st\<close>)
    have "mx_username (mplx t' (tb_next t)) = cp_username params"
      by (simp add: st Multiplexer_Create_def split: prod.splits)
    then show ?thesis
      using f by (simp add: GetNumberActiveSessionByUsername_def s)
  qed
qed

section \<open>Invariant\<close>

abbreviation open_ids :: "(connect_params \<times> u64) list \<Rightarrow> client_id list" where
  "open_ids xs \<equiv> map (\<lambda>e. cp_client_id (fst e)) xs"

definition user_opens :: "string \<Rightarrow> (connect_params \<times> u64) list \<Rightarrow> nat" where
  "user_opens u xs = length (filter (\<lambda>e. cp_username (fst e) = u) xs)"

definition used_ids :: "server_state \<Rightarrow> client_id set" where
  "used_ids st = ss_issued st - set (open_ids (ss_opening st))"

definition nat_part :: "ip_address list \<Rightarrow> ip_address list \<Rightarrow> server_state \<Rightarrow> bool" where
  "nat_part p4 p6 st \<longleftrightarrow>
     inv p4 p6 (sv_table (ss_server st)) (pending_expired (ss_scans st)) (pending_emptied (ss_scans st))
       (used_ids st)"

definition open_part :: "nat \<Rightarrow> server_state \<Rightarrow> bool" where
  "open_part threads st \<longleftrightarrow>
     distinct (open_ids (ss_opening st)) \<and> set (open_ids (ss_opening st)) \<subseteq> ss_issued st \<and>
     length (ss_opening st) \<le> threads"

definition limit_part :: "nat \<Rightarrow> server_state \<Rightarrow> bool" where
  "limit_part threads st \<longleftrightarrow>
     (\<forall>u. cnt u (sv_table (ss_server st)) + user_opens u (ss_opening st) \<le>
          sv_max_active (ss_server st) + threads)"

definition owner_part :: "server_state \<Rightarrow> bool" where
  "owner_part st \<longleftrightarrow>
     (\<forall>cid. map_of (tb_client (sv_table (ss_server st))) cid \<noteq> None \<longrightarrow>
        map_of (sv_sessions (ss_server st)) cid \<noteq> None \<or> cid \<in> set (ss_closing st))"

definition server_inv ::
    "ip_address list \<Rightarrow> ip_address list \<Rightarrow> nat \<Rightarrow> nat \<Rightarrow> server_state \<Rightarrow> bool" where
  "server_inv p4 p6 threads max_active st \<longleftrightarrow>
     nat_part p4 p6 st \<and> open_part threads st \<and> limit_part threads st \<and> owner_part st \<and>
     sv_max_active (ss_server st) = max_active"

lemmas server_inv_defs = server_inv_def nat_part_def open_part_def limit_part_def owner_part_def

lemma ws_check_Some:
  assumes "ws_check jwt server_key params s = Some checked"
  shows "cp_client_id (fst checked) = cp_client_id params"
    and "cnt (cp_username (fst checked)) (sv_table s) \<le> sv_max_active s"
    and "sv_running s"
  using assms by (auto simp: ws_check_def split: if_splits prod.splits bool.splits)

lemma ws_commit_cases:
  assumes "ws_commit checked session (b1, b2, t0, t1, t2) s = (r, s')"
  obtains (refused) "s' = s"
  | (added) x t' where "AddConnection (fst checked) (LeakyBucket_new (snd checked) b1)
        (LeakyBucket_new (snd checked) b2) (t0, t1, t2) (sv_table s) = (x, t')"
      "s' = s\<lparr>sv_table := t', sv_sessions := (if x = None then sv_sessions s
                else um_insert (cp_client_id (fst checked)) session (sv_sessions s))\<rparr>"
proof -
  obtain x t' where a: "AddConnection (fst checked) (LeakyBucket_new (snd checked) b1)
        (LeakyBucket_new (snd checked) b2) (t0, t1, t2) (sv_table s) = (x, t')" by fastforce
  have "s' = s \<or> s' = s\<lparr>sv_table := t', sv_sessions := (if x = None then sv_sessions s
                else um_insert (cp_client_id (fst checked)) session (sv_sessions s))\<rparr>"
    using assms a by (cases checked; cases s) (auto simp: ws_commit_def Let_def split: if_splits option.splits)
  then show ?thesis using refused added a by blast
qed

lemma AddConnection_client:
  assumes "AddConnection params b1 b2 ts t = (x, t')"
  shows "map_of (tb_client t') cid \<noteq> None \<Longrightarrow> map_of (tb_client t) cid \<noteq> None \<or> cid = cp_client_id params \<and> x \<noteq> None"
    and "x = None \<Longrightarrow> t' = t"
  using assms
  by (auto simp: AddConnection_def Let_def um.find_insert split: option.splits if_splits prod.splits)

lemma inv_used_mono: "inv p4 p6 t ex em used \<Longrightarrow> inv p4 p6 t ex em (insert cid used)"
  by (simp add: inv_def inv_clients_used_mono)

lemma used_ids_commit:
  assumes "open_part threads st" "ss_opening st = xs @ checked # ys"
  shows "used_ids (st\<lparr>ss_server := s', ss_opening := xs @ ys\<rparr>) =
         insert (cp_client_id (fst checked)) (used_ids st)"
    and "cp_client_id (fst checked) \<notin> used_ids st"
  using assms by (auto simp: used_ids_def open_part_def)

lemma inv_commit:
  assumes I: "server_inv p4 p6 threads mxa st" and P: "pool_ok p4 p6"
    and o: "ss_opening st = xs @ checked # ys" and t: "t1 \<le> t2"
    and c: "ws_commit checked session (b1, b2, t0, t1, t2) (ss_server st) = (r, s')"
  shows "server_inv p4 p6 threads mxa (st\<lparr>ss_server := s', ss_opening := xs @ ys\<rparr>)"
    (is "server_inv _ _ _ _ ?st")
proof -
  have parts: "nat_part p4 p6 st" "open_part threads st" "limit_part threads st" "owner_part st"
    "sv_max_active (ss_server st) = mxa" using I by (auto simp: server_inv_def)
  note u = used_ids_commit [OF parts(2) o]
  have op: "open_part threads ?st" using parts(2) o by (auto simp: open_part_def)
  have opens: "user_opens v (ss_opening st) =
      user_opens v (xs @ ys) + (if v = cp_username (fst checked) then 1 else 0)" for v
    using o by (auto simp: user_opens_def)
  from c show ?thesis
  proof (cases rule: ws_commit_cases)
    case refused
    have "nat_part p4 p6 ?st"
      unfolding nat_part_def u(1) using parts(1) inv_used_mono refused by (simp add: nat_part_def)
    moreover have "limit_part threads ?st"
      unfolding limit_part_def
    proof
      fix v
      show "cnt v (sv_table (ss_server ?st)) + user_opens v (ss_opening ?st) \<le> sv_max_active (ss_server ?st) + threads"
        using parts(3) opens [of v] refused by (auto simp: limit_part_def dest!: spec [of _ v])
    qed
    ultimately show ?thesis
      using op parts(4,5) refused by (simp add: server_inv_def owner_part_def)
  next
    case (added x t')
    let ?t = "sv_table (ss_server st)"
    have i: "inv p4 p6 ?t (pending_expired (ss_scans st)) (pending_emptied (ss_scans st)) (used_ids st)"
      using parts(1) by (simp add: nat_part_def)
    then have maps: "inv_maps ?t" by (simp add: inv_def)
    have "nat_part p4 p6 ?st"
      using inv_AddConnection [OF i P u(2) t added(1)] u(1) added(2) by (simp add: nat_part_def)
    moreover have "limit_part threads ?st"
      unfolding limit_part_def
    proof
      fix v
      show "cnt v (sv_table (ss_server ?st)) + user_opens v (ss_opening ?st) \<le> sv_max_active (ss_server ?st) + threads"
        using parts(3) opens [of v] cnt_AddConnection [OF maps t added(1), of v] added(2)
        by (auto simp: limit_part_def dest!: spec [of _ v])
    qed
    moreover have "owner_part ?st"
      unfolding owner_part_def
    proof (intro allI impI)
      fix cid assume "map_of (tb_client (sv_table (ss_server ?st))) cid \<noteq> None"
      then have "map_of (tb_client ?t) cid \<noteq> None \<or> cid = cp_client_id (fst checked) \<and> x \<noteq> None"
        using AddConnection_client(1) [OF added(1)] added(2) by simp
      then show "map_of (sv_sessions (ss_server ?st)) cid \<noteq> None \<or> cid \<in> set (ss_closing ?st)"
        using parts(4) added(2) by (auto simp: owner_part_def um.find_insert)
    qed
    ultimately show ?thesis
      using op parts(5) added(2) by (simp add: server_inv_def)
  qed
qed

text \<open>Steps that leave the opens alone and lose sessions or connections only.\<close>

lemma server_inv_shrink:
  assumes I: "server_inv p4 p6 threads mxa st"
    and "inv p4 p6 (sv_table s') (pending_expired scans) (pending_emptied scans) (used_ids st)"
    and "\<And>u. cnt u (sv_table s') \<le> cnt u (sv_table (ss_server st))"
    and "\<And>cid. map_of (tb_client (sv_table s')) cid \<noteq> None \<Longrightarrow>
           map_of (tb_client (sv_table (ss_server st))) cid \<noteq> None \<Longrightarrow>
           (map_of (sv_sessions (ss_server st)) cid \<noteq> None \<or> cid \<in> set (ss_closing st)) \<Longrightarrow>
           map_of (sv_sessions s') cid \<noteq> None \<or> cid \<in> set closing"
    and "\<And>cid. map_of (tb_client (sv_table s')) cid \<noteq> None \<Longrightarrow>
           map_of (tb_client (sv_table (ss_server st))) cid \<noteq> None"
    and "sv_max_active s' = mxa"
  shows "server_inv p4 p6 threads mxa (st\<lparr>ss_server := s', ss_scans := scans, ss_closing := closing\<rparr>)"
    (is "server_inv _ _ _ _ ?st")
proof -
  have parts: "open_part threads st" "limit_part threads st" "owner_part st"
    "sv_max_active (ss_server st) = mxa" using I by (auto simp: server_inv_def)
  have "used_ids ?st = used_ids st" by (simp add: used_ids_def)
  then have "nat_part p4 p6 ?st" using assms(2) by (simp add: nat_part_def)
  moreover have "open_part threads ?st" using parts(1) by (simp add: open_part_def)
  moreover have "limit_part threads ?st"
    unfolding limit_part_def
  proof
    fix u
    show "cnt u (sv_table (ss_server ?st)) + user_opens u (ss_opening ?st) \<le> sv_max_active (ss_server ?st) + threads"
      using parts(2,4) assms(3) [of u] assms(6) by (auto simp: limit_part_def dest!: spec [of _ u])
  qed
  moreover have "owner_part ?st"
    using parts(3) assms(4,5) unfolding owner_part_def by simp
  ultimately show ?thesis using assms(6) by (simp add: server_inv_def)
qed

lemma tb_client_Del:
  "map_of (tb_client (snd (DelConnectionByClientId cid t))) j = (if j = cid then None else map_of (tb_client t) j)"
  by (auto simp: DelConnectionByClientId_def Let_def map_of_um_erase split: option.splits)

lemma tb_client_fold_Release [simp]: "tb_client (fold ReleaseSessionIfEmpty mls t) = tb_client t"
  by (induction mls arbitrary: t) simp_all

lemma tb_client_Finish: "map_of (tb_client (UpdateFinish work t)) j \<noteq> None \<Longrightarrow> map_of (tb_client t) j \<noteq> None"
  by (cases work) (auto simp: UpdateFinish_def map_of_fold_erase split: if_splits)

lemma tb_client_Scan: "UpdateScan clocks t = (work, t') \<Longrightarrow> tb_client t' = tb_client t"
  by (auto simp: UpdateScan_def split: prod.splits)

lemma inv_step_check:
  assumes I: "server_inv p4 p6 threads mxa st" and fresh: "cp_client_id params \<notin> ss_issued st"
    and room: "length (ss_opening st) < threads"
    and c: "ws_check jwt server_key params (ss_server st) = Some checked"
  shows "server_inv p4 p6 threads mxa
    (st\<lparr>ss_issued := insert (cp_client_id params) (ss_issued st), ss_opening := checked # ss_opening st\<rparr>)"
    (is "server_inv _ _ _ _ ?st")
proof -
  note k = ws_check_Some [OF c]
  have parts: "nat_part p4 p6 st" "open_part threads st" "limit_part threads st" "owner_part st"
    "sv_max_active (ss_server st) = mxa" using I by (auto simp: server_inv_def)
  have u: "used_ids ?st = used_ids st"
    using fresh k(1) parts(2) by (auto simp: used_ids_def)
  have "nat_part p4 p6 ?st" unfolding nat_part_def u using parts(1) by (simp add: nat_part_def)
  moreover have "open_part threads ?st" using parts(2) fresh room k(1) by (auto simp: open_part_def)
  moreover have "limit_part threads ?st"
    unfolding limit_part_def
  proof
    fix v
    have "user_opens v (ss_opening st) \<le> length (ss_opening st)"
      "user_opens v (checked # xs) = user_opens v xs + (if v = cp_username (fst checked) then 1 else 0)" for xs
      by (simp_all add: user_opens_def)
    then show "cnt v (sv_table (ss_server ?st)) + user_opens v (ss_opening ?st) \<le>
        sv_max_active (ss_server ?st) + threads"
      using parts(3) k(2) room by (auto simp: limit_part_def)
  qed
  moreover have "owner_part ?st" using parts(4) by (simp add: owner_part_def)
  ultimately show ?thesis using parts(5) by (simp add: server_inv_def)
qed

lemma inv_step_take:
  assumes I: "server_inv p4 p6 threads mxa st" and t: "ws_close_take cid (ss_server st) = (r, s')"
  shows "server_inv p4 p6 threads mxa
    (st\<lparr>ss_server := s', ss_scans := ss_scans st, ss_closing := cid # ss_closing st\<rparr>)"
proof -
  have s': "sv_table s' = sv_table (ss_server st)" "sv_max_active s' = sv_max_active (ss_server st)"
    "j \<noteq> cid \<Longrightarrow> map_of (sv_sessions s') j = map_of (sv_sessions (ss_server st)) j" for j
    using t by (auto simp: ws_close_take_def map_of_um_erase split: if_splits option.splits)
  show ?thesis
    by (rule server_inv_shrink [OF I]) (use I s' in \<open>auto simp: server_inv_def nat_part_def\<close>)
qed

lemma inv_step_stop:
  assumes I: "server_inv p4 p6 threads mxa st" and t: "Server_Stop (ss_server st) = ((r, closed), s')"
  shows "server_inv p4 p6 threads mxa
    (st\<lparr>ss_server := s', ss_scans := ss_scans st, ss_closing := closed @ ss_closing st\<rparr>)"
proof -
  have s': "sv_table s' = sv_table (ss_server st)" "sv_max_active s' = sv_max_active (ss_server st)"
    using t by (auto simp: Server_Stop_def split: if_splits)
  have "map_of (sv_sessions (ss_server st)) j \<noteq> None \<Longrightarrow> map_of (sv_sessions s') j \<noteq> None \<or> j \<in> set closed" for j
    using t map_of_SomeD [of "sv_sessions (ss_server st)" j] by (force simp: Server_Stop_def split: if_splits)
  note s' = s' this
  show ?thesis
    by (rule server_inv_shrink [OF I]) (use I s' in \<open>auto simp: server_inv_def nat_part_def\<close>)
qed

lemma inv_step_delete:
  assumes I: "server_inv p4 p6 threads mxa st" and "ss_closing st = xs @ cid # ys"
  shows "server_inv p4 p6 threads mxa
    (st\<lparr>ss_server := ws_close_delete cid (ss_server st), ss_scans := ss_scans st, ss_closing := xs @ ys\<rparr>)"
  by (rule server_inv_shrink [OF I])
    (use assms cnt_Del inv_del in
      \<open>auto simp: server_inv_def nat_part_def ws_close_delete_def tb_client_Del split: if_splits\<close>)

lemma inv_step_table:
  assumes I: "server_inv p4 p6 threads mxa st"
    and "inv p4 p6 t' (pending_expired scans) (pending_emptied scans) (used_ids st)"
    and "\<And>u. cnt u t' \<le> cnt u (sv_table (ss_server st))"
    and "\<And>cid. map_of (tb_client t') cid \<noteq> None \<Longrightarrow> map_of (tb_client (sv_table (ss_server st))) cid \<noteq> None"
  shows "server_inv p4 p6 threads mxa
    (st\<lparr>ss_server := (ss_server st)\<lparr>sv_table := t'\<rparr>, ss_scans := scans, ss_closing := ss_closing st\<rparr>)"
  by (rule server_inv_shrink [OF I]) (use assms in \<open>auto simp: server_inv_def\<close>)

lemma inv_nat_part:
  "server_inv p4 p6 threads mxa st \<Longrightarrow>
   inv p4 p6 (sv_table (ss_server st)) (pending_expired (ss_scans st)) (pending_emptied (ss_scans st)) (used_ids st)"
  by (simp add: server_inv_def nat_part_def)

lemma inv_step_scan:
  assumes I: "server_inv p4 p6 threads mxa st" and c: "\<forall>m. mono (clocks m)"
    and t: "UpdateScan clocks (sv_table (ss_server st)) = (work, t')"
  shows "server_inv p4 p6 threads mxa
    (st\<lparr>ss_server := (ss_server st)\<lparr>sv_table := t'\<rparr>, ss_scans := work # ss_scans st, ss_closing := ss_closing st\<rparr>)"
proof (rule inv_step_table [OF I])
  have "UpdateScan clocks (sv_table (ss_server st)) = ((fst work, snd work), t')" using t by simp
  from inv_UpdateScan [OF inv_nat_part [OF I] c this]
  show "inv p4 p6 t' (pending_expired (work # ss_scans st)) (pending_emptied (work # ss_scans st)) (used_ids st)"
    by (simp add: pending_simps Un_commute)
qed (use cnt_UpdateScan [OF t] tb_client_Scan [OF t] in simp_all)

lemma inv_step_finish:
  assumes I: "server_inv p4 p6 threads mxa st" and s: "ss_scans st = xs @ work # ys"
  shows "server_inv p4 p6 threads mxa
    (st\<lparr>ss_server := (ss_server st)\<lparr>sv_table := UpdateFinish work (sv_table (ss_server st))\<rparr>,
       ss_scans := xs @ ys, ss_closing := ss_closing st\<rparr>)"
proof (rule inv_step_table [OF I])
  show "inv p4 p6 (UpdateFinish work (sv_table (ss_server st))) (pending_expired (xs @ ys))
      (pending_emptied (xs @ ys)) (used_ids st)"
    using inv_UpdateFinish [of p4 p6 _ "fst work" _ "snd work"] inv_nat_part [OF I]
    by (simp add: pending_simps s)
qed (use cnt_UpdateFinish tb_client_Finish in simp_all)

lemma inv_step_traffic:
  assumes I: "server_inv p4 p6 threads mxa st" and m: "tb_store (sv_table (ss_server st)) m = Some mx"
  shows "server_inv p4 p6 threads mxa
    (st\<lparr>ss_server := (ss_server st)\<lparr>sv_table := (sv_table (ss_server st))\<lparr>tb_store :=
         (tb_store (sv_table (ss_server st)))(m \<mapsto> mx\<lparr>mx_to_client := b1, mx_from_client := b2,
            mx_disable_checksum := d, mx_cursor := k\<rparr>)\<rparr>\<rparr>,
       ss_scans := ss_scans st, ss_closing := ss_closing st\<rparr>)"
proof (rule inv_step_table [OF I inv_traffic [OF inv_nat_part [OF I] m]])
  fix u
  let ?t = "(sv_table (ss_server st))\<lparr>tb_store := (tb_store (sv_table (ss_server st)))(m \<mapsto>
      mx\<lparr>mx_to_client := b1, mx_from_client := b2, mx_disable_checksum := d, mx_cursor := k\<rparr>)\<rparr>"
  have "cnt u ?t = cnt u (sv_table (ss_server st))" using m by (intro cnt_cong) auto
  then show "cnt u ?t \<le> cnt u (sv_table (ss_server st))" by simp
qed simp

lemma inv_step_start:
  assumes "server_inv p4 p6 threads mxa st"
  shows "server_inv p4 p6 threads mxa
    (st\<lparr>ss_server := Server_Start (ss_server st), ss_scans := ss_scans st, ss_closing := ss_closing st\<rparr>)"
  by (rule server_inv_shrink [OF assms])
    (use assms in \<open>auto simp: Server_Start_def server_inv_def nat_part_def\<close>)

lemma server_inv_step:
  assumes "server_step jwt server_key threads st st'" "server_inv p4 p6 threads mxa st" "pool_ok p4 p6"
  shows "server_inv p4 p6 threads mxa st'"
  using assms(1)
proof cases
  case check
  then show ?thesis using inv_step_check [OF assms(2)] by blast
next
  case commit
  then show ?thesis using inv_commit [OF assms(2,3)] by blast
next
  case take
  then show ?thesis using inv_step_take [OF assms(2)] by simp
next
  case delete
  then show ?thesis using inv_step_delete [OF assms(2)] by simp
next
  case scan
  then show ?thesis using inv_step_scan [OF assms(2)] by simp
next
  case finish
  then show ?thesis using inv_step_finish [OF assms(2)] by simp
next
  case traffic
  then show ?thesis using inv_step_traffic [OF assms(2)] by simp
next
  case start
  then show ?thesis using inv_step_start [OF assms(2)] by simp
next
  case stop
  then show ?thesis using inv_step_stop [OF assms(2)] by simp
qed

lemma server_reachable_inv:
  assumes "server_reachable jwt server_key threads mxa init st" "empty_table init"
    and "pool_ok (tb_free_ipv4 init) (tb_free_ipv6 init)"
  shows "server_inv (tb_free_ipv4 init) (tb_free_ipv6 init) threads mxa st"
  using assms(1)
proof induction
  case begin_run
  have "inv (tb_free_ipv4 init) (tb_free_ipv6 init) init (pending_expired []) (pending_emptied []) {}"
    using reachable_inv [OF reachable.start assms(2,3)] by simp
  moreover have "cnt u init = 0" for u
    using assms(2) by (simp add: GetNumberActiveSessionByUsername_def empty_table_def)
  ultimately show ?case
    using assms(2) by (simp add: server_inv_defs used_ids_def user_opens_def empty_table_def)
next
  case (next_step st st')
  then show ?case using server_inv_step assms(3) by blast
qed

section \<open>Properties\<close>

text \<open>A run used by the witnesses: with a limit of zero sessions per user, one session is opened
  and closed again.\<close>

definition demo_web_params :: connect_params where
  "demo_web_params = (demo_params 1 ''s'')\<lparr>cp_jwt_auth_token := ''token''\<rparr>"

definition demo_checked :: "connect_params \<times> u64" where
  "demo_checked = (demo_web_params\<lparr>cp_username := ''admin'', cp_bandwidth_bites_seconds := 1000\<rparr>, 1000)"

definition demo_s0 :: server_state where
  "demo_s0 = \<lparr>ss_server = \<lparr>sv_running = True, sv_sessions = [], sv_max_active = 0, sv_table = demo_table\<rparr>,
     ss_scans = [], ss_issued = {}, ss_opening = [], ss_closing = []\<rparr>"

definition demo_s1 :: server_state where
  "demo_s1 = demo_s0\<lparr>ss_issued := {1}, ss_opening := [demo_checked]\<rparr>"

definition demo_s2 :: server_state where
  "demo_s2 = demo_s1\<lparr>ss_server := snd (ws_commit demo_checked 7 (0, 0, 0, 0, 0) (ss_server demo_s1)),
     ss_opening := []\<rparr>"

definition demo_s3 :: server_state where
  "demo_s3 = demo_s2\<lparr>ss_server := snd (ws_close_take 1 (ss_server demo_s2)), ss_closing := [1]\<rparr>"

definition demo_s4 :: server_state where
  "demo_s4 = demo_s3\<lparr>ss_server := ws_close_delete 1 (ss_server demo_s3), ss_closing := []\<rparr>"

abbreviation demo_run :: "server_state \<Rightarrow> bool" where
  "demo_run \<equiv> server_reachable demo_jwt ''server key'' 1 0 demo_table"

lemma demo_check: "ws_check demo_jwt ''server key'' demo_web_params (ss_server demo_s0) = Some demo_checked"
  using demo_table_ok(1)
  by (simp add: ws_check_def demo_s0_def demo_web_params_def demo_params_def kApiWebSocketUrlOld_def
      demo_jwt_def forged_def Validate_def demo_checked_def GetNumberActiveSessionByUsername_def
      empty_table_def)

lemma demo_run_s0: "demo_run demo_s0"
  using server_reachable.next_step [OF server_reachable.begin_run server_step.start]
  by (simp add: Server_Start_def demo_s0_def)

lemma demo_run_s1: "demo_run demo_s1"
  using server_reachable.next_step [OF demo_run_s0 server_step.check [OF _ _ demo_check]]
  by (simp add: demo_s1_def) (simp add: demo_s0_def demo_web_params_def demo_params_def)

lemma demo_run_s2: "demo_run demo_s2"
proof -
  have "ss_opening demo_s1 = [] @ demo_checked # []" by (simp add: demo_s1_def)
  from server_reachable.next_step [OF demo_run_s1 server_step.commit [OF this _ surjective_pairing,
        where ?t1.0 = 0 and ?t2.0 = 0 and session = 7 and ?b1.0 = 0 and ?b2.0 = 0 and ?t0.0 = 0]] show ?thesis by (simp add: demo_s2_def)
qed

lemma demo_run_s3: "demo_run demo_s3"
  using server_reachable.next_step [OF demo_run_s2 server_step.take [OF surjective_pairing, where cid = 1]]
  by (simp add: demo_s3_def) (simp add: demo_s2_def demo_s1_def demo_s0_def)

lemma demo_run_s4: "demo_run demo_s4"
proof -
  have "ss_closing demo_s3 = [] @ 1 # []" by (simp add: demo_s3_def)
  from server_reachable.next_step [OF demo_run_s3 server_step.delete [OF this]]
  show ?thesis by (simp add: demo_s4_def)
qed

lemma demo_s2_facts:
  "cnt ''admin'' (sv_table (ss_server demo_s2)) = 1"
  "sv_sessions (ss_server demo_s2) = [(1, 7)]" "sv_running (ss_server demo_s2)"
proof -
  have e: "tb_session demo_table = []" "tb_client demo_table = []"
    using demo_table_ok(1) by (simp_all add: empty_table_def)
  show "sv_sessions (ss_server demo_s2) = [(1, 7)]" "sv_running (ss_server demo_s2)"
    using demo_pool_nonempty e
    by (simp_all add: demo_s2_def demo_s1_def demo_s0_def ws_commit_def AddConnection_def demo_checked_def
        demo_web_params_def demo_params_def um_insert_def Let_def)
  show "cnt ''admin'' (sv_table (ss_server demo_s2)) = 1"
    using demo_pool_nonempty e
    by (simp add: demo_s2_def demo_s1_def demo_s0_def ws_commit_def AddConnection_def demo_checked_def
        demo_web_params_def demo_params_def um_insert_def Let_def GetNumberActiveSessionByUsername_def
        Multiplexer_Create_def split: prod.splits)
qed


definition demo_claims :: jwt_claims where
  "demo_claims = \<lparr>jc_issuer = ''auth0'', jc_issued_at = 0, jc_expires_at = 2592000,
     jc_username = Some (ClaimString ''carol''), jc_bandwidth = Some (ClaimInt 10485760)\<rparr>"

definition demo_login_jwt :: jwt_lib where
  "demo_login_jwt = \<lparr>jwt_decode = (\<lambda>t. if t = ''tok'' then Some demo_claims else None),
     jwt_sign = (\<lambda>k c. if c = demo_claims then Some ''tok'' else None), jwt_key_loads = (\<lambda>k. True)\<rparr>"


text \<open>The session limit: an open is let through only while the user has at most the configured
  number of sessions, the count and the registration are not one atomic step, and so in every
  reachable state a user has at most the configured number plus the number of I/O threads; the
  witness reaches one session with a limit of zero.\<close>

theorem session_limit:
  assumes "server_reachable jwt server_key threads max_active init st" and "empty_table init"
    and "pool_ok (tb_free_ipv4 init) (tb_free_ipv6 init)"
  shows "GetNumberActiveSessionByUsername u (sv_table (ss_server st)) \<le> max_active + threads \<and>
         (GetNumberActiveSessionByUsername u (sv_table (ss_server st)) > max_active \<longrightarrow>
            ws_check jwt server_key params (ss_server st) \<noteq> None \<longrightarrow>
            cp_username (fst (the (ws_check jwt server_key params (ss_server st)))) \<noteq> u)"
proof -
  have I: "limit_part threads st" "sv_max_active (ss_server st) = max_active"
    using server_reachable_inv [OF assms] by (simp_all add: server_inv_def)
  then have "cnt u (sv_table (ss_server st)) \<le> max_active + threads"
    by (auto simp: limit_part_def dest!: spec [of _ u])
  then show ?thesis using ws_check_Some(2) [of jwt server_key params] I(2) by fastforce
qed

theorem session_limit_witness:
  "cnt ''admin'' (sv_table (ss_server demo_s2)) = 1 \<and> cnt ''admin'' (sv_table (ss_server demo_s2)) \<le> 0 + 1"
  using session_limit [OF demo_run_s2 demo_table_ok, of "''admin''" demo_web_params] demo_s2_facts(1) by blast


lemma demo_s4_quiet: "sv_sessions (ss_server demo_s4) = []" "ss_closing demo_s4 = []" "ss_scans demo_s4 = []"
  using demo_s2_facts(2,3)
  by (simp_all add: demo_s4_def demo_s3_def ws_close_delete_def ws_close_take_def um_erase_def)
    (simp add: demo_s2_def demo_s1_def demo_s0_def)


end
