(* ===== verification/VpnManager.thy ===== *)
theory VpnManager
  imports Server
begin

text \<open>
  The packet threads of \<open>src/fptn-server/vpn/manager.cpp\<close>: one round of \<open>RunToClient\<close> takes a batch
  from the virtual interface, finds for each packet the session that owns its destination,
  shapes, chooses the receiving connection, rewrites the address, and hands every web session its
  packets in one batch; one round of \<open>RunFromClient\<close> takes the packets of the clients, shapes,
  filters, rewrites the source and sends the rest to the interface. The outer option is a load or
  store outside a packet or the end of the program. A packet carries the clock reading of its
  shaper test.
\<close>

section \<open>Definitions\<close>

definition to_client_session :: "netlib \<Rightarrow> ip_packet \<Rightarrow> table \<Rightarrow> nat option option" where
  "to_client_session lib packet t =
     (if IsIPv4 packet then do {
        dst \<leftarrow> GetDstIPv4Address lib packet;
        Some (GetMultiplexerByFakeIPv4 dst t)
      }
      else if IsIPv6 packet then do {
        dst \<leftarrow> GetDstIPv6Address lib packet;
        Some (GetMultiplexerByFakeIPv6 dst t)
      }
      else Some None)"

definition to_client_packet ::
    "netlib \<Rightarrow> int \<Rightarrow> ip_packet option \<Rightarrow> table \<Rightarrow> ((client_id \<times> ip_packet) option \<times> table) option" where
  "to_client_packet lib now packet t =
     (case packet of
        None \<Rightarrow> Some (None, t)
      | Some packet \<Rightarrow>
          if \<not> IsIPv4 packet \<and> \<not> IsIPv6 packet then Some (None, t)
          else do {
            nat_session \<leftarrow> to_client_session lib packet t;
            case nat_session of
              None \<Rightarrow> Some (None, t)
            | Some m \<Rightarrow>
                (let (ok, b) = CheckSpeedLimit (of_nat (Size packet)) now (mx_to_client (mplx t m));
                     mx = (mplx t m)\<lparr>mx_to_client := b\<rparr> in
                 if \<not> ok then Some (None, set_mplx m mx t)
                 else do {
                   (client_id, mx) \<leftarrow> NextReceiverClientId (Some packet) mx;
                   case client_id of
                     None \<Rightarrow> Some (None, set_mplx m mx t)
                   | Some cid \<Rightarrow> do {
                       r \<leftarrow> ChangeIPAddressToClientIP lib mx packet cid;
                       Some (map_option (\<lambda>packet. (cid, packet)) r, set_mplx m mx t)
                     }
                 })
          })"

text \<open>\<open>batches[client_id].push_back(packet)\<close>.\<close>

type_synonym batches = "(client_id, ip_packet list) umap"

definition push_batch :: "client_id \<Rightarrow> ip_packet \<Rightarrow> batches \<Rightarrow> batches" where
  "push_batch cid packet bs =
     um_set cid ((case map_of bs cid of None \<Rightarrow> [] | Some b \<Rightarrow> b) @ [packet]) bs"

fun to_client_packets ::
    "netlib \<Rightarrow> (int \<times> ip_packet option) list \<Rightarrow> batches \<Rightarrow> table \<Rightarrow> (batches \<times> table) option" where
  "to_client_packets lib [] bs t = Some (bs, t)"
| "to_client_packets lib ((now, packet) # packets) bs t =
     (case to_client_packet lib now packet t of
        None \<Rightarrow> None
      | Some (None, t) \<Rightarrow> to_client_packets lib packets bs t
      | Some (Some (cid, packet), t) \<Rightarrow> to_client_packets lib packets (push_batch cid packet bs) t)"

text \<open>A round: the batches handed to web sessions; a batch for a client without one is dropped.\<close>

definition RunToClient ::
    "netlib \<Rightarrow> (int \<times> ip_packet option) list \<Rightarrow> server \<Rightarrow> ((nat \<times> ip_packet list) list \<times> server) option" where
  "RunToClient lib packets s =
     (case to_client_packets lib packets [] (sv_table s) of
        None \<Rightarrow> None
      | Some (bs, t) \<Rightarrow>
          Some (concat (map (\<lambda>(cid, batch). case GetSessionById cid s of
                          None \<Rightarrow> [] | Some session \<Rightarrow> [(session, batch)]) bs),
                s\<lparr>sv_table := t\<rparr>))"

definition from_client_packet ::
    "netlib \<Rightarrow> packet_filter list \<Rightarrow> int \<Rightarrow> ip_packet option \<Rightarrow> table \<Rightarrow> (ip_packet option \<times> table) option" where
  "from_client_packet lib filters now packet t =
     (case packet of
        None \<Rightarrow> Some (None, t)
      | Some packet \<Rightarrow>
          if \<not> IsIPv4 packet \<and> \<not> IsIPv6 packet then Some (None, t)
          else
            (case GetMultiplexerByClientId (ClientId packet) t of
               None \<Rightarrow> Some (None, t)
             | Some m \<Rightarrow>
                 (let (ok, b) = CheckSpeedLimit (of_nat (Size packet)) now (mx_from_client (mplx t m));
                      mx = (mplx t m)\<lparr>mx_from_client := b\<rparr>;
                      t = set_mplx m mx t in
                  if \<not> ok then Some (None, t)
                  else do {
                    packet \<leftarrow> Filter_Apply lib filters packet;
                    case packet of
                      None \<Rightarrow> Some (None, t)
                    | Some packet \<Rightarrow> do {
                        packet \<leftarrow> ChangeIPAddressToFakeIP lib mx packet;
                        Some (Some packet, t)
                      }
                  })))"

fun from_client_packets ::
    "netlib \<Rightarrow> packet_filter list \<Rightarrow> (int \<times> ip_packet option) list \<Rightarrow> table \<Rightarrow> (ip_packet list \<times> table) option" where
  "from_client_packets lib filters [] t = Some ([], t)"
| "from_client_packets lib filters ((now, packet) # packets) t =
     (case from_client_packet lib filters now packet t of
        None \<Rightarrow> None
      | Some (r, t) \<Rightarrow>
          (case from_client_packets lib filters packets t of
             None \<Rightarrow> None
           | Some (rest, t) \<Rightarrow> Some ((case r of None \<Rightarrow> rest | Some packet \<Rightarrow> packet # rest), t)))"

text \<open>A round: the batch sent to the interface, if any.\<close>

definition RunFromClient ::
    "netlib \<Rightarrow> packet_filter list \<Rightarrow> bool \<Rightarrow> (int \<times> ip_packet option) list \<Rightarrow> server \<Rightarrow>
     (ip_packet list option \<times> server) option" where
  "RunFromClient lib filters running packets s =
     (case from_client_packets lib filters packets (sv_table s) of
        None \<Rightarrow> None
      | Some (prepared_batch, t) \<Rightarrow>
          Some (if prepared_batch \<noteq> [] \<and> running then Some prepared_batch else None, s\<lparr>sv_table := t\<rparr>))"

text \<open>A pass of \<open>RunUpdateConnectionsStatus\<close>: the web sessions it closes.\<close>

definition RunUpdateConnectionsStatus ::
    "(nat \<Rightarrow> nat \<Rightarrow> int) \<Rightarrow> server \<Rightarrow> nat list \<times> server" where
  "RunUpdateConnectionsStatus clocks s =
     (let (work, t) = UpdateScan clocks (sv_table s);
          s = s\<lparr>sv_table := UpdateFinish work t\<rparr> in
      (concat (map (\<lambda>cid. case GetSessionById cid s of None \<Rightarrow> [] | Some session \<Rightarrow> [session]) (fst work)), s))"

section \<open>Forwarding one packet\<close>

definition same_conns :: "multiplexer \<Rightarrow> multiplexer \<Rightarrow> bool" where
  "same_conns a b \<longleftrightarrow> mx_sending b = mx_sending a \<and> mx_receiving b = mx_receiving a \<and>
     mx_fake_ipv4 b = mx_fake_ipv4 a \<and> mx_fake_ipv6 b = mx_fake_ipv6 a \<and>
     mx_disable_checksum b = mx_disable_checksum a"

lemma same_conns_refl [simp]: "same_conns a a"
  by (simp add: same_conns_def)

lemma same_conns_trans: "same_conns a b \<Longrightarrow> same_conns b c \<Longrightarrow> same_conns a c"
  by (simp add: same_conns_def)

lemma NextReceiver_Some:
  assumes "NextReceiverClientId (Some pkt) m = Some (r, m')"
  shows "same_conns m m'" and "r = Some cid \<Longrightarrow> cid \<in> ids (mx_receiving m)"
    and "r = None \<longleftrightarrow> mx_receiving m = []"
  using assms
  by (auto simp: NextReceiverClientId_def same_conns_def ids_def Let_def split: if_splits bind_splits)

lemma SetDst_client:
  "SetDstIPv4Address a pkt = Some p \<Longrightarrow> ClientId p = ClientId pkt"
  "SetDstIPv6Address lib a pkt = Some p \<Longrightarrow> ClientId p = ClientId pkt"
  "ComputeCalculateFields pkt = Some p \<Longrightarrow> ClientId p = ClientId pkt"
  by (auto simp: SetDstIPv4Address_def SetDstIPv6Address_def ComputeCalculateFields_def ClientId_def
      split: if_splits bind_splits option.splits)

lemma ToClientIP_client:
  assumes "ChangeIPAddressToClientIP lib m pkt cid = Some (Some p)"
  shows "ClientId p = cid"
  using assms SetDst_client
  by (fastforce simp: ChangeIPAddressToClientIP_def Let_def split: if_splits bind_splits option.splits)

text \<open>The table after a packet: nothing but the traffic fields of the owner has changed.\<close>

definition same_routes :: "table \<Rightarrow> table \<Rightarrow> bool" where
  "same_routes t t' \<longleftrightarrow> tb_ipv4 t' = tb_ipv4 t \<and> tb_ipv6 t' = tb_ipv6 t \<and> tb_client t' = tb_client t \<and>
     tb_session t' = tb_session t \<and> (\<forall>m. same_conns (mplx t m) (mplx t' m))"

lemma same_routes_refl [simp]: "same_routes t t"
  by (simp add: same_routes_def)

lemma same_routes_trans: "same_routes a b \<Longrightarrow> same_routes b c \<Longrightarrow> same_routes a c"
  unfolding same_routes_def using same_conns_trans by metis

lemma same_routes_set: "same_conns (mplx t m) mx \<Longrightarrow> same_routes t (set_mplx m mx t)"
  by (simp add: same_routes_def)

lemma same_routes_session:
  "same_routes t t' \<Longrightarrow> to_client_session lib pkt t' = to_client_session lib pkt t"
  by (simp add: same_routes_def to_client_session_def GetMultiplexerByFakeIPv4_def
      GetMultiplexerByFakeIPv6_def)

lemma to_client_packet_routes:
  assumes "to_client_packet lib now packet t = Some (r, t')"
  shows "same_routes t t'"
    and "r = Some (cid, p) \<Longrightarrow> ClientId p = cid \<and> (\<exists>pkt m. packet = Some pkt \<and>
           to_client_session lib pkt t = Some (Some m) \<and> cid \<in> ids (mx_receiving (mplx t m)))"
proof -
  have c: "same_conns mx (mx\<lparr>mx_to_client := b\<rparr>)" for mx b by (simp add: same_conns_def)
  have "same_routes t t' \<and> (\<forall>cid p. r = Some (cid, p) \<longrightarrow> ClientId p = cid \<and> (\<exists>pkt m. packet = Some pkt \<and>
           to_client_session lib pkt t = Some (Some m) \<and> cid \<in> ids (mx_receiving (mplx t m))))"
  proof (cases packet)
    case None
    then show ?thesis using assms by (simp add: to_client_packet_def)
  next
    case (Some pkt)
    show ?thesis
    proof (cases "\<exists>m. to_client_session lib pkt t = Some (Some m)")
      case False
      then show ?thesis using assms Some
        by (auto simp: to_client_packet_def split: if_splits bind_splits option.splits)
    next
      case True
      then obtain m where m: "to_client_session lib pkt t = Some (Some m)" by blast
      obtain ok b where sl: "CheckSpeedLimit (of_nat (Size pkt)) now (mx_to_client (mplx t m)) = (ok, b)"
        by fastforce
      let ?mx = "(mplx t m)\<lparr>mx_to_client := b\<rparr>"
      show ?thesis
      proof (cases "(\<not> IsIPv4 pkt \<and> \<not> IsIPv6 pkt) \<or> \<not> ok")
        case True
        then show ?thesis using assms Some m sl same_routes_set [OF c]
          by (auto simp: to_client_packet_def Let_def split: if_splits)
      next
        case False
        then obtain nr mx where n: "NextReceiverClientId (Some pkt) ?mx = Some (nr, mx)"
          and rest: "(case nr of None \<Rightarrow> Some (None, set_mplx m mx t)
             | Some cid \<Rightarrow> do {
                 r \<leftarrow> ChangeIPAddressToClientIP lib mx pkt cid;
                 Some (map_option (\<lambda>packet. (cid, packet)) r, set_mplx m mx t) }) = Some (r, t')"
          using assms Some m sl by (auto simp: to_client_packet_def Let_def split: bind_splits)
        have "same_routes t (set_mplx m mx t)"
          by (intro same_routes_set same_conns_trans [OF c NextReceiver_Some(1) [OF n]])
        then show ?thesis
          using rest Some m NextReceiver_Some(2) [OF n] ToClientIP_client
          by (auto split: option.splits bind_splits)
      qed
    qed
  qed
  then show "same_routes t t'" "r = Some (cid, p) \<Longrightarrow> ClientId p = cid \<and> (\<exists>pkt m. packet = Some pkt \<and>
           to_client_session lib pkt t = Some (Some m) \<and> cid \<in> ids (mx_receiving (mplx t m)))" by auto
qed

section \<open>Rounds\<close>

text \<open>A packet in the batch of \<open>cid\<close> carries that id and comes from a packet of the round whose owner
  in the table \<open>t\<close> has \<open>cid\<close> as a receiving connection.\<close>

definition routed :: "netlib \<Rightarrow> table \<Rightarrow> (int \<times> ip_packet option) list \<Rightarrow> client_id \<Rightarrow> ip_packet \<Rightarrow> bool" where
  "routed lib t packets cid p \<longleftrightarrow> ClientId p = cid \<and>
     (\<exists>pkt m. Some pkt \<in> snd ` set packets \<and> to_client_session lib pkt t = Some (Some m) \<and>
        cid \<in> ids (mx_receiving (mplx t m)))"

lemma set_push_batch:
  "(c, b) \<in> set (push_batch cid p bs) \<Longrightarrow>
   (c, b) \<in> set bs \<or> c = cid \<and> (b = [p] \<or> (\<exists>old. (cid, old) \<in> set bs \<and> b = old @ [p]))"
  using set_um_set [of cid _ bs]
  by (fastforce simp: push_batch_def split: option.splits dest: map_of_SomeD)

lemma to_client_packets_routed:
  assumes "to_client_packets lib packets bs t = Some (bs', t')" "same_routes t0 t"
    and "set packets \<subseteq> set all"
    and "\<forall>(cid, batch) \<in> set bs. \<forall>p \<in> set batch. routed lib t0 all cid p"
  shows "same_routes t0 t' \<and> (\<forall>(cid, batch) \<in> set bs'. \<forall>p \<in> set batch. routed lib t0 all cid p)"
  using assms
proof (induction packets arbitrary: bs t)
  case (Cons e packets)
  obtain now packet where e: "e = (now, packet)" by fastforce
  obtain r t1 where r: "to_client_packet lib now packet t = Some (r, t1)"
    using Cons.prems(1) e by (auto split: option.splits)
  have t1: "same_routes t0 t1"
    using same_routes_trans [OF Cons.prems(2) to_client_packet_routes(1) [OF r]] .
  show ?case
  proof (cases r)
    case None
    then show ?thesis using Cons.IH [OF _ t1] Cons.prems e r by simp
  next
    case (Some cp)
    obtain cid p where cp: "cp = (cid, p)" by fastforce
    from to_client_packet_routes(2) [OF r] Some cp obtain pkt m where pk: "ClientId p = cid" "packet = Some pkt"
      "to_client_session lib pkt t = Some (Some m)" "cid \<in> ids (mx_receiving (mplx t m))" by blast
    have "mx_receiving (mplx t m) = mx_receiving (mplx t0 m)"
      using Cons.prems(2) by (simp add: same_routes_def same_conns_def)
    moreover have "Some pkt \<in> snd ` set all" using Cons.prems(3) e pk(2) by force
    ultimately have "routed lib t0 all cid p"
      using pk same_routes_session [OF Cons.prems(2)] unfolding routed_def by fastforce
    then have "\<forall>(c, batch) \<in> set (push_batch cid p bs). \<forall>q \<in> set batch. routed lib t0 all c q"
      using Cons.prems(4) set_push_batch [of _ _ cid p bs] by fastforce
    then show ?thesis using Cons.IH [OF _ t1] Cons.prems(1,3) e r Some cp by simp
  qed
qed simp

lemma FindByClientId_ids: "cid \<in> ids cs \<Longrightarrow> \<exists>c. FindByClientId cs cid = Some c \<and> c \<in> set cs \<and> cc_id c = cid"
  by (induction cs) (auto simp: FindByClientId_def)

lemma to_client_packet_total:
  assumes "netlib_ok lib" "sound_ipv4 pkt" "pkt_data pkt ! 8 \<noteq> 0"
    and "to_client_session lib pkt t = Some (Some m)"
    and "fst (CheckSpeedLimit (of_nat (Size pkt)) now (mx_to_client (mplx t m)))"
    and "mx_receiving (mplx t m) \<noteq> []"
  shows "\<exists>c p t'. c \<in> set (mx_receiving (mplx t m)) \<and>
           to_client_packet lib now (Some pkt) t = Some (Some (cc_id c, p), t') \<and> ClientId p = cc_id c \<and>
           (if mx_disable_checksum (mplx t m) then p = SetClientId (cc_id c) pkt
            else sound_ipv4 p \<and> sums_ok4 p \<and>
              map_option IPAddress_ToInt (GetDstIPv4Address lib p) =
                Some (IPAddress_ToInt (cp_client_tun_vpn_ipv4 (cc_params c))) \<and>
              GetSrcIPv4Address lib p = GetSrcIPv4Address lib pkt)"
proof -
  have v4: "IsIPv4 pkt" "parsed pkt"
    using assms(2) by (auto simp: sound_ipv4_def parsed_def kMinIPv4_def)
  obtain b where sl: "CheckSpeedLimit (of_nat (Size pkt)) now (mx_to_client (mplx t m)) = (True, b)"
    using assms(5) by (metis prod.collapse)
  let ?mx = "(mplx t m)\<lparr>mx_to_client := b\<rparr>"
  obtain cid mx where n: "NextReceiverClientId (Some pkt) ?mx = Some (Some cid, mx)"
    "cid \<in> ids (mx_receiving ?mx)"
    using NextReceiver_spec [OF v4(2), of ?mx] assms(6) by auto
  have mx: "mx_receiving mx = mx_receiving (mplx t m)" "mx_disable_checksum mx = mx_disable_checksum (mplx t m)"
    using NextReceiver_Some(1) [OF n(1)] by (simp_all add: same_conns_def)
  obtain c where c: "FindByClientId (mx_receiving mx) cid = Some c" "c \<in> set (mx_receiving (mplx t m))" "cc_id c = cid"
    using FindByClientId_ids [of cid "mx_receiving mx"] n(2) mx(1) by auto
  have step: "to_client_packet lib now (Some pkt) t =
      do { r \<leftarrow> ChangeIPAddressToClientIP lib mx pkt cid;
           Some (map_option (\<lambda>packet. (cid, packet)) r, set_mplx m mx t) }"
    using v4 assms(4) sl n(1) by (simp add: to_client_packet_def)
  show ?thesis
  proof (cases "mx_disable_checksum (mplx t m)")
    case True
    then show ?thesis using step c mx(2) by (auto simp: ChangeIPAddressToClientIP_def)
  next
    case False
    then show ?thesis
      using step c ToClientIP_spec [OF assms(1-3) _ c(1)] mx(2) by fastforce
  qed
qed

lemma from_client_packet_cases:
  fixes now :: int
  assumes "netlib_ok lib" "sound_ipv4 pkt" "pkt_data pkt ! 8 \<noteq> 0"
    and "GetMultiplexerByClientId (ClientId pkt) t = Some m"
  defines "pass \<equiv> fst (CheckSpeedLimit (of_nat (Size pkt)) now (mx_from_client (mplx t m)))"
  shows "\<not> pass \<or> (\<exists>f \<in> set filters. blocks lib f pkt) \<Longrightarrow>
           \<exists>t'. from_client_packet lib filters now (Some pkt) t = Some (None, t')"
    and "pass \<Longrightarrow> \<not> (\<exists>f \<in> set filters. blocks lib f pkt) \<Longrightarrow>
           \<exists>p t'. from_client_packet lib filters now (Some pkt) t = Some (Some p, t') \<and>
             (if mx_disable_checksum (mplx t m) then p = pkt
              else sound_ipv4 p \<and> sums_ok4 p \<and>
                map_option IPAddress_ToInt (GetSrcIPv4Address lib p) =
                  Some (IPAddress_ToInt (mx_fake_ipv4 (mplx t m))) \<and>
                GetDstIPv4Address lib p = GetDstIPv4Address lib pkt)"
proof -
  have v4: "IsIPv4 pkt" "parsed pkt"
    using assms(2) by (auto simp: sound_ipv4_def parsed_def kMinIPv4_def)
  obtain ok b where sl: "CheckSpeedLimit (of_nat (Size pkt)) now (mx_from_client (mplx t m)) = (ok, b)"
    by fastforce
  let ?mx = "(mplx t m)\<lparr>mx_from_client := b\<rparr>"
  note F = Filter_Apply_exact [OF assms(1) v4(2), of filters]
  have step: "from_client_packet lib filters now (Some pkt) t =
      (if \<not> ok then Some (None, set_mplx m ?mx t)
       else if \<exists>f \<in> set filters. blocks lib f pkt then Some (None, set_mplx m ?mx t)
       else do { packet \<leftarrow> ChangeIPAddressToFakeIP lib ?mx pkt; Some (Some packet, set_mplx m ?mx t) })"
    using v4(1) assms(4) sl by (simp add: from_client_packet_def F Let_def)
  show "\<not> pass \<or> (\<exists>f \<in> set filters. blocks lib f pkt) \<Longrightarrow>
      \<exists>t'. from_client_packet lib filters now (Some pkt) t = Some (None, t')"
    unfolding step pass_def sl by auto
  assume pass: "pass" "\<not> (\<exists>f \<in> set filters. blocks lib f pkt)"
  then have e: "from_client_packet lib filters now (Some pkt) t =
      do { packet \<leftarrow> ChangeIPAddressToFakeIP lib ?mx pkt; Some (Some packet, set_mplx m ?mx t) }"
    unfolding step pass_def sl by simp
  show "\<exists>p t'. from_client_packet lib filters now (Some pkt) t = Some (Some p, t') \<and>
             (if mx_disable_checksum (mplx t m) then p = pkt
              else sound_ipv4 p \<and> sums_ok4 p \<and>
                map_option IPAddress_ToInt (GetSrcIPv4Address lib p) =
                  Some (IPAddress_ToInt (mx_fake_ipv4 (mplx t m))) \<and>
                GetDstIPv4Address lib p = GetDstIPv4Address lib pkt)"
  proof (cases "mx_disable_checksum (mplx t m)")
    case False
    then show ?thesis
      using ToFakeIP_spec [OF assms(1-3), of ?mx] e by fastforce
  qed (simp add: e ChangeIPAddressToFakeIP_def)
qed

section \<open>Properties\<close>

text \<open>A packet to the fake address of the open session of the demonstration run.\<close>

definition demo_to_client :: ip_packet where
  "demo_to_client = \<lparr>pkt_data = take 16 udp_packet @ [10, 10, 0, 6] @ drop 20 udp_packet, pkt_client = 0\<rparr>"

abbreviation demo_tab :: table where
  "demo_tab \<equiv> sv_table (ss_server demo_s2)"

lemma demo_to_client_facts: "sound_ipv4 demo_to_client" "pkt_data demo_to_client ! 8 \<noteq> 0" "Size demo_to_client = 31"
  by (simp_all add: sound_ipv4_def demo_to_client_def IsIPv4_iff udp_packet_def Size_def ihl4_def)

lemma demo_last_free: "last (tb_free_ipv4 demo_table) = v4_at demo_lib 0x0A0A0006"
proof -
  have "tun_network_ipv4_mask demo_config = word_of_nat 29" "tun_network_ipv6_mask demo_config = word_of_nat 125"
    "tun_ipv4_network demo_config = demo_net4" "tun_ipv6_network demo_config = demo_net6"
    by (simp_all add: demo_config_def)
  then obtain t n where t: "Table_new demo_lib demo_config = Inr t" and n: "n = (6::nat)"
    and f: "tb_free_ipv4 t = filter (\<lambda>ip. IPAddress_neq ip (tun_ipv4 demo_config))
              (map (\<lambda>i. v4_at demo_lib (0x0A0A0000 + 1 + word_of_nat i)) [0..<n])"
    using Table_new_aligned [OF demo_lib_ok, of demo_config "0x0A0A0000" 29
        "0xFD000000000000000000000000000000" 125] demo_net_facts by auto
  have "IPAddress_neq (v4_at demo_lib (0x0A0A0000 + 1 + word_of_nat 5)) (tun_ipv4 demo_config)"
    using v4_at_inj [OF demo_lib_ok]
    by (auto simp: demo_config_def IPAddress_neq_iff IPAddress_eq_iff dest: injD)
  moreover have "[0..<6] = [0..<5] @ [5::nat]" by (simp add: upt_rec)
  ultimately have "last (tb_free_ipv4 t) = v4_at demo_lib (0x0A0A0000 + 1 + word_of_nat 5)"
    unfolding f n by simp
  then show ?thesis by (simp add: demo_table_def t)
qed

lemma demo_tab_facts:
  "map_of (tb_ipv4 demo_tab) 0x0A0A0006 = Some (tb_next demo_table)"
  "map_of (tb_client demo_tab) 1 = Some (tb_next demo_table)"
  "mplx demo_tab (tb_next demo_table) =
     Multiplexer_Create (fst demo_checked) (v4_at demo_lib 0x0A0A0006) (last (tb_free_ipv6 demo_table))
       (LeakyBucket_new 1000 0) (LeakyBucket_new 1000 0) (0, 0, 0)"
proof -
  have e: "tb_session demo_table = []" "tb_client demo_table = []" "tb_ipv4 demo_table = []"
    using demo_table_ok(1) by (simp_all add: empty_table_def)
  have t: "IPAddress_ToInt (v4_at demo_lib 0x0A0A0006) = 0x0A0A0006"
    by (simp add: v4_at_def IPAddress_ToInt_def)
  note d = demo_s2_def demo_s1_def demo_s0_def ws_commit_def AddConnection_def demo_checked_def
        demo_web_params_def demo_params_def um_insert_def Let_def demo_last_free
  show "map_of (tb_ipv4 demo_tab) 0x0A0A0006 = Some (tb_next demo_table)"
    "map_of (tb_client demo_tab) 1 = Some (tb_next demo_table)"
    using demo_pool_nonempty e t by (simp_all add: d)
  show "mplx demo_tab (tb_next demo_table) =
     Multiplexer_Create (fst demo_checked) (v4_at demo_lib 0x0A0A0006) (last (tb_free_ipv6 demo_table))
       (LeakyBucket_new 1000 0) (LeakyBucket_new 1000 0) (0, 0, 0)"
    using demo_pool_nonempty e by (simp add: d)
qed

lemma demo_mplx_facts:
  defines "mx \<equiv> mplx demo_tab (tb_next demo_table)"
  shows "mx_receiving mx = [\<lparr>cc_params = fst demo_checked, cc_accepted_at = 0\<rparr>]" "\<not> mx_disable_checksum mx"
    "mx_fake_ipv4 mx = v4_at demo_lib 0x0A0A0006" "mx_to_client mx = LeakyBucket_new 1000 0"
    "mx_from_client mx = LeakyBucket_new 1000 0"
  unfolding mx_def demo_tab_facts(3)
  by (simp_all add: Multiplexer_Create_def PlaceByRole_def IsSending_def IsReceiving_def IsBidirectional_def
      ClientConnection_Create_def demo_checked_def demo_web_params_def demo_params_def)

lemma demo_owner: "to_client_session demo_lib demo_to_client demo_tab = Some (Some (tb_next demo_table))"
proof -
  have p: "parsed demo_to_client" "IsIPv4 demo_to_client"
    using demo_to_client_facts(1) by (auto simp: sound_ipv4_def parsed_def kMinIPv4_def)
  have "be32_of (take 4 (drop 16 (pkt_data demo_to_client))) = 0x0A0A0006"
    by (simp add: demo_to_client_def udp_packet_def be32_of_def)
  then show ?thesis
    using parsed_dst4 [OF demo_lib_ok p] p(2) demo_tab_facts(1)
    by (simp add: to_client_session_def GetMultiplexerByFakeIPv4_def IPAddress_ToInt_def)
qed

lemma demo_bucket: "fst (CheckSpeedLimit n 2000000000 (LeakyBucket_new 1000 0))"
  by (simp add: CheckSpeedLimit_def LeakyBucket_new_def)

text \<open>C5: Forwarding to a client: an IPv4 packet from the interface (sound header, TTL not zero) is
  always processed without touching memory outside it; it is dropped exactly when no session owns
  its destination, the session's shaper refuses it or the session has no receiving connection;
  otherwise it goes to one of the owner's receiving connections, unchanged except for the client
  id when the session disabled translation, and with that connection's tunnel address, the old
  source and verifying checksums when it did not.\<close>

theorem to_client_packet_exact:
  assumes "netlib_ok lib" and "sound_ipv4 pkt" and "pkt_data pkt ! 8 \<noteq> 0"
  shows "\<exists>r t'. to_client_packet lib now (Some pkt) t = Some (r, t') \<and>
     (r = None \<longleftrightarrow> (\<forall>m. to_client_session lib pkt t = Some (Some m) \<longrightarrow>
        \<not> fst (CheckSpeedLimit (of_nat (Size pkt)) now (mx_to_client (mplx t m))) \<or>
        mx_receiving (mplx t m) = [])) \<and>
     (\<forall>cid p. r = Some (cid, p) \<longrightarrow> (\<exists>m c. to_client_session lib pkt t = Some (Some m) \<and>
        c \<in> set (mx_receiving (mplx t m)) \<and> cid = cc_id c \<and> ClientId p = cid \<and>
        (if mx_disable_checksum (mplx t m) then p = SetClientId cid pkt
         else sound_ipv4 p \<and> sums_ok4 p \<and>
           map_option IPAddress_ToInt (GetDstIPv4Address lib p) =
             Some (IPAddress_ToInt (cp_client_tun_vpn_ipv4 (cc_params c))) \<and>
           GetSrcIPv4Address lib p = GetSrcIPv4Address lib pkt)))"
proof -
  have v4: "IsIPv4 pkt" using assms(2) by (simp add: sound_ipv4_def)
  obtain own where own: "to_client_session lib pkt t = Some own"
    using v4 addresses_defined(2) [of lib pkt] by (auto simp: to_client_session_def)
  show ?thesis
  proof (cases own)
    case None
    then show ?thesis using v4 own by (auto simp: to_client_packet_def)
  next
    case (Some m)
    then have own: "to_client_session lib pkt t = Some (Some m)" using own by simp
    obtain ok b where sl: "CheckSpeedLimit (of_nat (Size pkt)) now (mx_to_client (mplx t m)) = (ok, b)"
      by fastforce
    consider (refused) "\<not> ok" | (nobody) "ok" "mx_receiving (mplx t m) = []"
      | (pass) "ok" "mx_receiving (mplx t m) \<noteq> []" by blast
    then show ?thesis
    proof cases
      case refused
      then show ?thesis using v4 own sl by (simp add: to_client_packet_def)
    next
      case nobody
      then show ?thesis using v4 own sl by (simp add: to_client_packet_def NextReceiverClientId_def)
    next
      case pass
      then show ?thesis using to_client_packet_total [OF assms own, of now] own sl by fastforce
    qed
  qed
qed

theorem to_client_packet_exact_witness:
  "\<exists>p t'. to_client_packet demo_lib 2000000000 (Some demo_to_client) demo_tab = Some (Some (1, p), t') \<and>
     ClientId p = 1 \<and> map_option IPAddress_ToInt (GetDstIPv4Address demo_lib p) = Some 2"
proof -
  have c: "cc_id \<lparr>cc_params = fst demo_checked, cc_accepted_at = 0\<rparr> = 1"
    "IPAddress_ToInt (cp_client_tun_vpn_ipv4 (fst demo_checked)) = 2"
    by (simp_all add: cc_id_def demo_checked_def demo_web_params_def demo_params_def v4_at_def IPAddress_ToInt_def)
  show ?thesis
    using to_client_packet_exact [OF demo_lib_ok demo_to_client_facts(1,2), of 2000000000 demo_tab]
      demo_bucket [of "of_nat 31"] c
    unfolding demo_owner by (auto simp: demo_mplx_facts demo_to_client_facts(3))
qed

text \<open>C6: Forwarding from a client: an IPv4 packet of a registered client (sound header, TTL not zero)
  is always processed without touching memory outside it; it is dropped exactly when the shaper
  refuses it or a filter blocks it, and otherwise leaves with the session's fake address as
  source, its own destination and verifying checksums. When the session disabled translation,
  which every session of the newer protocol does, it leaves unchanged, so with whatever source
  address the client wrote.\<close>

theorem from_client_packet_exact:
  assumes "netlib_ok lib" and "sound_ipv4 pkt" and "pkt_data pkt ! 8 \<noteq> 0"
    and "GetMultiplexerByClientId (ClientId pkt) t = Some m"
  shows "\<exists>r t'. from_client_packet lib filters now (Some pkt) t = Some (r, t') \<and>
     (r = None \<longleftrightarrow> \<not> fst (CheckSpeedLimit (of_nat (Size pkt)) now (mx_from_client (mplx t m))) \<or>
        (\<exists>f \<in> set filters. blocks lib f pkt)) \<and>
     (\<forall>p. r = Some p \<longrightarrow>
        (if mx_disable_checksum (mplx t m) then p = pkt
         else sound_ipv4 p \<and> sums_ok4 p \<and>
           map_option IPAddress_ToInt (GetSrcIPv4Address lib p) =
             Some (IPAddress_ToInt (mx_fake_ipv4 (mplx t m))) \<and>
           GetDstIPv4Address lib p = GetDstIPv4Address lib pkt))"
proof (cases "\<not> fst (CheckSpeedLimit (of_nat (Size pkt)) now (mx_from_client (mplx t m))) \<or>
        (\<exists>f \<in> set filters. blocks lib f pkt)")
  case True
  then show ?thesis using from_client_packet_cases(1) [OF assms, of now filters] by fastforce
next
  case False
  then show ?thesis using from_client_packet_cases(2) [OF assms, of now filters] by fastforce
qed

theorem from_client_packet_exact_witness:
  "\<exists>p t'. from_client_packet demo_lib [] 2000000000 (Some (SetClientId 1 demo_udp)) demo_tab = Some (Some p, t') \<and>
     map_option IPAddress_ToInt (GetSrcIPv4Address demo_lib p) = Some 0x0A0A0006"
proof -
  have s: "sound_ipv4 (SetClientId 1 demo_udp)" "pkt_data (SetClientId 1 demo_udp) ! 8 \<noteq> 0"
    using demo_udp_facts by simp_all
  have a: "IPAddress_ToInt (v4_at demo_lib 0x0A0A0006) = 0x0A0A0006"
    by (simp add: v4_at_def IPAddress_ToInt_def)
  have m: "GetMultiplexerByClientId (ClientId (SetClientId 1 demo_udp)) demo_tab = Some (tb_next demo_table)"
    using demo_tab_facts(2) by (simp add: GetMultiplexerByClientId_def)
  show ?thesis
    using from_client_packet_exact [OF demo_lib_ok s m, of "[]" 2000000000] demo_bucket
    by (auto simp: demo_mplx_facts a)
qed



end
