(* ===== verification/SessionId.thy ===== *)
theory SessionId
  imports IpAddress
begin

text \<open>
  The clock and the secret session ids: \<open>src/fptn-protocol-lib/time/time_provider.cpp\<close> keeps an
  offset to the clock of a time server, and \<open>src/fptn-protocol-lib/https/utils/tls/tls.cpp\<close> hides
  the first four bytes of a SHA-1 digest of the time in the session id of a TLS ClientHello, at
  one of three positions, by which the server recognises its clients. The digest is a parameter
  on the bytes that are hashed; the empty result is its failure.
\<close>

section \<open>The clock\<close>

text \<open>The answers of the time servers, in order, each with the reading of the local clock when it
  arrives: milliseconds since the epoch, or \<open>None\<close> when the request throws; zero is no answer.\<close>

fun Refresh :: "(nat option \<times> int) list \<Rightarrow> int \<Rightarrow> bool \<times> int" where
  "Refresh [] offset_seconds = (False, offset_seconds)"
| "Refresh ((answer, client_timestamp) # servers) offset_seconds =
     (case answer of
        Some epoch_server_ms \<Rightarrow>
          if epoch_server_ms \<noteq> 0 then
            (True, signed_take_bit 31 (int (epoch_server_ms div 1000) - client_timestamp))
          else Refresh servers offset_seconds
      | None \<Rightarrow> Refresh servers offset_seconds)"

definition TimeProvider_new :: "(nat option \<times> int) list \<Rightarrow> int" where
  "TimeProvider_new servers = snd (Refresh servers 0)"

definition NowTimestamp :: "int \<Rightarrow> int \<Rightarrow> u32" where
  "NowTimestamp time offset_seconds = of_int (time + offset_seconds)"

section \<open>Session ids\<close>

definition kSessionLen :: nat where "kSessionLen = 32"
definition kFptnKeyLength :: nat where "kFptnKeyLength = 4"
definition kDecoyHandshakeSessionIDShift :: nat where "kDecoyHandshakeSessionIDShift = 10"
definition kDecoyHandshakeSessionIDShift2 :: nat where "kDecoyHandshakeSessionIDShift2 = 14"
definition kTimeShiftSeconds :: u32 where "kTimeShiftSeconds = 10"

type_synonym sha1 = "byte list \<Rightarrow> byte list"

text \<open>The number hashed is \<open>htonl(timestamp)\<close>, whose bytes in memory are the big-endian bytes of the
  timestamp. \<open>None\<close>: the digest failed and \<open>GenerateFptnKey\<close> throws.\<close>

definition GenerateFptnKey :: "sha1 \<Rightarrow> u32 \<Rightarrow> byte list option" where
  "GenerateFptnKey sha timestamp =
     (let result = sha (be32_bytes timestamp) in
      if length result > kFptnKeyLength then Some (take kFptnKeyLength result) else None)"

text \<open>The session ids a client makes, from the random bytes it drew (\<open>None\<close>: the generator failed).
  The outer option is the exception.\<close>

definition SetDecoyHandshakeSessionID :: "sha1 \<Rightarrow> u32 \<Rightarrow> byte list option \<Rightarrow> byte list option option" where
  "SetDecoyHandshakeSessionID sha now random =
     (case random of
        None \<Rightarrow> Some None
      | Some session_id \<Rightarrow> do {
          key \<leftarrow> GenerateFptnKey sha now;
          session_id \<leftarrow> memwr session_id kDecoyHandshakeSessionIDShift key;
          Some (Some session_id)
        })"

definition SetHandshakeSessionID :: "sha1 \<Rightarrow> u32 \<Rightarrow> byte list option \<Rightarrow> byte list option option" where
  "SetHandshakeSessionID sha now random =
     (case random of
        None \<Rightarrow> Some None
      | Some session_id \<Rightarrow> do {
          key \<leftarrow> GenerateFptnKey sha now;
          session_id \<leftarrow> memwr session_id (kSessionLen - length key) key;
          Some (Some session_id)
        })"

text \<open>The loop over the time window, \<open>n\<close> rounds left.\<close>

fun key_in_window :: "sha1 \<Rightarrow> byte list \<Rightarrow> u32 \<Rightarrow> u32 \<Rightarrow> nat \<Rightarrow> bool option" where
  "key_in_window sha recv_key timestamp shift 0 = Some False"
| "key_in_window sha recv_key timestamp shift (Suc n) =
     (if shift \<le> kTimeShiftSeconds then do {
        key \<leftarrow> GenerateFptnKey sha (timestamp - shift);
        if recv_key = key then Some True
        else key_in_window sha recv_key timestamp (shift + 1) n
      }
      else Some False)"

definition IsDecoyHandshakeSessionID :: "sha1 \<Rightarrow> u32 \<Rightarrow> byte list \<Rightarrow> bool option" where
  "IsDecoyHandshakeSessionID sha now session = do {
     recv_key \<leftarrow> memrd session kDecoyHandshakeSessionIDShift kFptnKeyLength;
     key_in_window sha recv_key (now + kTimeShiftSeconds div 2) 0 11
   }"

definition IsDecoyHandshakeSessionID2 :: "sha1 \<Rightarrow> u32 \<Rightarrow> byte list \<Rightarrow> bool option" where
  "IsDecoyHandshakeSessionID2 sha now session = do {
     recv_key \<leftarrow> memrd session kDecoyHandshakeSessionIDShift2 kFptnKeyLength;
     key_in_window sha recv_key (now + kTimeShiftSeconds div 2) 0 11
   }"

definition IsFptnClientSessionID :: "sha1 \<Rightarrow> u32 \<Rightarrow> byte list \<Rightarrow> bool option" where
  "IsFptnClientSessionID sha now session =
     (if length session < kFptnKeyLength then None
      else do {
        recv_key \<leftarrow> memrd session (length session - kFptnKeyLength) kFptnKeyLength;
        key_in_window sha recv_key (now + kTimeShiftSeconds div 2) 0 11
      })"

text \<open>The ids of the reality modes, for the hand-written ClientHello of the client library.\<close>

definition GenerateDecoyTlsSessionId :: "sha1 \<Rightarrow> u32 \<Rightarrow> byte list option \<Rightarrow> byte list option option" where
  "GenerateDecoyTlsSessionId sha now random =
     (case random of
        None \<Rightarrow> Some None
      | Some session_id \<Rightarrow> do {
          key \<leftarrow> GenerateFptnKey sha now;
          let copy_size = min (length key) (length session_id - kDecoyHandshakeSessionIDShift);
          session_id \<leftarrow> memwr session_id kDecoyHandshakeSessionIDShift (take copy_size key);
          Some (Some session_id)
        })"

definition GenerateDecoyTlsSessionId2 :: "sha1 \<Rightarrow> u32 \<Rightarrow> byte list option \<Rightarrow> byte list option option" where
  "GenerateDecoyTlsSessionId2 sha now random =
     (case random of
        None \<Rightarrow> Some None
      | Some session_id \<Rightarrow> do {
          key \<leftarrow> GenerateFptnKey sha now;
          let copy_size = min (length key) (length session_id - kDecoyHandshakeSessionIDShift2);
          session_id \<leftarrow> memwr session_id kDecoyHandshakeSessionIDShift2 (take copy_size key);
          Some (Some session_id)
        })"

section \<open>The time window\<close>

definition sha_ok :: "sha1 \<Rightarrow> bool" where
  "sha_ok sha \<longleftrightarrow> (\<forall>b. 4 < length (sha b))"

definition fptn_key :: "sha1 \<Rightarrow> u32 \<Rightarrow> byte list" where
  "fptn_key sha t = take 4 (sha (be32_bytes t))"

definition window :: "u32 \<Rightarrow> u32 set" where
  "window now = (\<lambda>s. now + 5 - of_nat s) ` {0..10}"

lemma GenerateFptnKey_ok: "sha_ok sha \<Longrightarrow> GenerateFptnKey sha t = Some (fptn_key sha t)"
  by (simp add: GenerateFptnKey_def sha_ok_def fptn_key_def kFptnKeyLength_def Let_def)

lemma length_fptn_key: "sha_ok sha \<Longrightarrow> length (fptn_key sha t) = 4"
proof -
  assume "sha_ok sha"
  then have "4 < length (sha (be32_bytes t))" by (simp add: sha_ok_def)
  then show ?thesis by (simp add: fptn_key_def)
qed

lemma ex_upto_Suc:
  fixes P :: "nat \<Rightarrow> bool"
  assumes "k \<le> m"
  shows "(\<exists>s. k \<le> s \<and> s \<le> m \<and> P s) \<longleftrightarrow> P k \<or> (\<exists>s. Suc k \<le> s \<and> s \<le> m \<and> P s)"
  using assms by (metis Suc_leD Suc_leI le_neq_implies_less order_refl)

lemma key_in_window_upto:
  assumes "sha_ok sha" "k + n = 11"
  shows "key_in_window sha recv ts (of_nat k) n = Some (\<exists>s. k \<le> s \<and> s \<le> 10 \<and> recv = fptn_key sha (ts - of_nat s))"
  using assms(2)
proof (induction n arbitrary: k)
  case (Suc n)
  have "(of_nat k :: u32) \<le> 10" using Suc.prems by (simp add: word_le_nat_alt unat_of_nat)
  moreover have "(\<exists>s. k \<le> s \<and> s \<le> 10 \<and> recv = fptn_key sha (ts - of_nat s)) \<longleftrightarrow>
      recv = fptn_key sha (ts - of_nat k) \<or> (\<exists>s. Suc k \<le> s \<and> s \<le> 10 \<and> recv = fptn_key sha (ts - of_nat s))"
    using Suc.prems by (intro ex_upto_Suc) simp
  ultimately show ?case
    using Suc.IH [of "Suc k"] Suc.prems
    by (simp add: kTimeShiftSeconds_def GenerateFptnKey_ok [OF assms(1)] add.commute)
qed simp

lemma key_in_window_exact:
  assumes "sha_ok sha"
  shows "key_in_window sha recv (now + kTimeShiftSeconds div 2) 0 11 = Some (\<exists>t \<in> window now. recv = fptn_key sha t)"
proof -
  have "(kTimeShiftSeconds div 2 :: u32) = 5" by (simp add: kTimeShiftSeconds_def)
  then show ?thesis
    using key_in_window_upto [OF assms, of 0 11 recv "now + 5"] by (auto simp: window_def)
qed

lemma in_window: "- 5 \<le> d \<Longrightarrow> d \<le> 5 \<Longrightarrow> ts \<in> window (ts + of_int d)"
proof -
  assume d: "- 5 \<le> d" "d \<le> 5"
  then have "(of_nat (nat (d + 5)) :: u32) = of_int d + 5" by simp
  then have "ts = ts + of_int d + 5 - of_nat (nat (d + 5))" by simp
  moreover have "nat (d + 5) \<in> {0..10}" using d by simp
  ultimately show ?thesis unfolding window_def by (rule image_eqI)
qed

lemma recognise_exact:
  assumes "sha_ok sha" "length session = 32"
  shows "IsDecoyHandshakeSessionID sha now session =
           Some (\<exists>t \<in> window now. take 4 (drop 10 session) = fptn_key sha t)"
    and "IsDecoyHandshakeSessionID2 sha now session =
           Some (\<exists>t \<in> window now. take 4 (drop 14 session) = fptn_key sha t)"
    and "IsFptnClientSessionID sha now session =
           Some (\<exists>t \<in> window now. take 4 (drop 28 session) = fptn_key sha t)"
  using assms(2)
  by (simp_all add: IsDecoyHandshakeSessionID_def IsDecoyHandshakeSessionID2_def IsFptnClientSessionID_def
      kDecoyHandshakeSessionIDShift_def kDecoyHandshakeSessionIDShift2_def kFptnKeyLength_def memrd_def
      key_in_window_exact [OF assms(1)])

text \<open>The session id with the key of the time \<open>ts\<close> written at an offset.\<close>

definition keyed :: "sha1 \<Rightarrow> nat \<Rightarrow> u32 \<Rightarrow> byte list \<Rightarrow> byte list" where
  "keyed sha off ts random = take off random @ fptn_key sha ts @ drop (off + 4) random"

lemma keyed_facts:
  assumes "sha_ok sha" "length random = 32" "off + 4 \<le> 32"
  shows "length (keyed sha off ts random) = 32" "take 4 (drop off (keyed sha off ts random)) = fptn_key sha ts"
  using assms length_fptn_key [OF assms(1)] by (simp_all add: keyed_def)

lemma issue_exact:
  assumes "sha_ok sha" "length random = 32"
  shows "SetDecoyHandshakeSessionID sha ts (Some random) = Some (Some (keyed sha 10 ts random))"
    and "GenerateDecoyTlsSessionId sha ts (Some random) = Some (Some (keyed sha 10 ts random))"
    and "GenerateDecoyTlsSessionId2 sha ts (Some random) = Some (Some (keyed sha 14 ts random))"
    and "SetHandshakeSessionID sha ts (Some random) = Some (Some (keyed sha 28 ts random))"
  using assms(2) length_fptn_key [OF assms(1), of ts]
  by (simp_all add: SetDecoyHandshakeSessionID_def GenerateDecoyTlsSessionId_def GenerateDecoyTlsSessionId2_def
      SetHandshakeSessionID_def GenerateFptnKey_ok [OF assms(1)] kDecoyHandshakeSessionIDShift_def
      kDecoyHandshakeSessionIDShift2_def kSessionLen_def memwr_def keyed_def)

section \<open>Properties\<close>

text \<open>C21: The secret in the session id: whatever the random bytes, an id that a client issues is
  recognised by the check of its kind when the two clocks differ by at most five seconds (modulo
  the width of the timestamp); and a check accepts an id of 32 bytes exactly when its four bytes
  are the key of one of the eleven seconds around the server's time, without reading outside it.\<close>

theorem session_id_window:
  assumes "sha_ok sha" and "length random = 32" and "- 5 \<le> d" and "d \<le> 5" and "length session = 32"
  shows "(\<exists>a. SetDecoyHandshakeSessionID sha ts (Some random) = Some (Some a) \<and>
            IsDecoyHandshakeSessionID sha (ts + of_int d) a = Some True) \<and>
         (\<exists>a. GenerateDecoyTlsSessionId sha ts (Some random) = Some (Some a) \<and>
            IsDecoyHandshakeSessionID sha (ts + of_int d) a = Some True) \<and>
         (\<exists>b. GenerateDecoyTlsSessionId2 sha ts (Some random) = Some (Some b) \<and>
            IsDecoyHandshakeSessionID2 sha (ts + of_int d) b = Some True) \<and>
         (\<exists>c. SetHandshakeSessionID sha ts (Some random) = Some (Some c) \<and>
            IsFptnClientSessionID sha (ts + of_int d) c = Some True) \<and>
         IsDecoyHandshakeSessionID sha now session =
           Some (\<exists>t \<in> window now. take 4 (drop 10 session) = fptn_key sha t) \<and>
         IsDecoyHandshakeSessionID2 sha now session =
           Some (\<exists>t \<in> window now. take 4 (drop 14 session) = fptn_key sha t) \<and>
         IsFptnClientSessionID sha now session =
           Some (\<exists>t \<in> window now. take 4 (drop 28 session) = fptn_key sha t)"
proof -
  have w: "ts \<in> window (ts + of_int d)" by (rule in_window [OF assms(3,4)])
  note k = keyed_facts [OF assms(1,2), of 10 ts] keyed_facts [OF assms(1,2), of 14 ts]
    keyed_facts [OF assms(1,2), of 28 ts]
  show ?thesis
    using w k recognise_exact [OF assms(1)] assms(5) unfolding issue_exact [OF assms(1,2)] by auto
qed

text \<open>A digest that puts the four bytes of the number first.\<close>

definition demo_sha1 :: sha1 where
  "demo_sha1 b = b @ replicate 16 0"

theorem session_id_window_witness:
  "\<exists>c. SetHandshakeSessionID demo_sha1 4294967295 (Some (replicate 32 7)) = Some (Some c) \<and>
     IsFptnClientSessionID demo_sha1 2 c = Some True"
proof -
  have "sha_ok demo_sha1" by (simp add: sha_ok_def demo_sha1_def)
  from session_id_window [OF this, of "replicate 32 7" 3 "replicate 32 7" 4294967295]
  obtain c where "SetHandshakeSessionID demo_sha1 4294967295 (Some (replicate 32 7)) = Some (Some c)"
    "IsFptnClientSessionID demo_sha1 (4294967295 + of_int 3) c = Some True" by auto
  moreover have "(4294967295 + of_int 3 :: u32) = 2" by simp
  ultimately show ?thesis by metis
qed

text \<open>The synchronised clock: after a successful synchronisation the timestamp follows the time
  server, whatever the local clock showed (the answer in seconds plus the local time passed since,
  modulo the width), the first server that answers wins, and without an answer the offset stays.\<close>

theorem Refresh_follows_server:
  assumes "Refresh servers offset = (found, offset')"
  shows "(found \<longrightarrow> (\<exists>pre epoch_ms local post. servers = pre @ (Some epoch_ms, local) # post \<and>
            epoch_ms \<noteq> 0 \<and> (\<forall>e \<in> set pre. fst e = None \<or> fst e = Some 0) \<and>
            NowTimestamp (local + passed) offset' = of_int (int (epoch_ms div 1000) + passed))) \<and>
         (\<not> found \<longrightarrow> offset' = offset \<and> (\<forall>e \<in> set servers. fst e = None \<or> fst e = Some 0))"
  using assms
proof (induction servers)
  case (Cons e servers)
  obtain answer local where e: "e = (answer, local)" by fastforce
  show ?case
  proof (cases "answer = None \<or> answer = Some 0")
    case True
    then have "Refresh servers offset = (found, offset')" using Cons.prems e by auto
    from Cons.IH [OF this] show ?thesis using True e
      by (metis append_Cons fst_conv list.set_intros(1) set_ConsD)
  next
    case False
    then obtain ms where m: "answer = Some ms" "ms \<noteq> 0" by auto
    then have f: "found" and o: "offset' = signed_take_bit 31 (int (ms div 1000) - local)"
      using Cons.prems e by auto
    have "(of_int offset' :: u32) = of_int (int (ms div 1000) - local)"
      unfolding o word_of_int_eq_iff by (rule take_bit_signed_take_bit) simp
    then have "NowTimestamp (local + passed) offset' = of_int (int (ms div 1000) + passed)"
      by (simp add: NowTimestamp_def)
    then show ?thesis using f m e by (metis append_Nil empty_iff empty_set)
  qed
qed simp

theorem Refresh_follows_server_witness:
  "NowTimestamp 5000000007 (snd (Refresh [(None, 5000000000), (Some 1700000000999, 5000000000)] 0)) = 1700000007"
proof -
  have r: "Refresh [(None, 5000000000), (Some 1700000000999, 5000000000)] 0 =
      (True, snd (Refresh [(None, 5000000000), (Some 1700000000999, 5000000000)] 0))" by simp
  obtain pre ms local post where "[(None, 5000000000 :: int), (Some (1700000000999 :: nat), 5000000000)] =
      pre @ (Some ms, local) # post" "\<forall>e \<in> set pre. fst e = None \<or> fst e = Some 0"
    "NowTimestamp (local + 7) (snd (Refresh [(None, 5000000000), (Some 1700000000999, 5000000000)] 0)) =
       of_int (int (ms div 1000) + 7)"
    using Refresh_follows_server [OF r, of 7] by blast
  then show ?thesis by (cases pre) (auto simp: Cons_eq_append_conv)
qed

end
