(* ===== verification/HandshakeCache.thy ===== *)
theory HandshakeCache
  imports TlsParse Containers
begin

text \<open>
  The cache of real TLS handshakes, \<open>src/fptn-server/web/handshake/handshake_cache_manager.cpp\<close>: the
  answer a genuine server gives to a ClientHello, kept for a while per server name, with a fall
  back to the default domain. The network is a parameter: what comes of contacting a domain with a
  ClientHello. The cache is touched in three atomic actions under its mutex, so several calls can
  be interleaved; the clock readings of these actions are arguments.
\<close>

section \<open>Fetching\<close>

datatype upstream = NoAddress | Broken | Upstream int int "turn list"

text \<open>\<open>Upstream deadline t turns\<close>: the connection stands, the hello was sent, and the read loop starts
  at time \<open>t\<close>. A loop that is still waiting is cut off by the timer.\<close>

definition FetchRealHandshake :: "upstream \<Rightarrow> byte list option" where
  "FetchRealHandshake up =
     (let full_response =
        (case up of
           NoAddress \<Rightarrow> []
         | Broken \<Rightarrow> []
         | Upstream deadline t turns \<Rightarrow>
             (case WaitForServerTlsHelloAsync deadline [] False t turns of
                Returned (Some server_response) \<Rightarrow> server_response
              | _ \<Rightarrow> [])) in
      if full_response = [] then None else Some full_response)"

section \<open>The cache\<close>

record cache_entry =
  ce_data :: "byte list"
  ce_timestamp :: int

record handshake_cache =
  hc_ttl :: int
  hc_default_domain :: string
  hc_cache :: "(string, cache_entry) umap"

definition HandshakeCacheManager_new :: "string \<Rightarrow> int \<Rightarrow> handshake_cache" where
  "HandshakeCacheManager_new default_domain cache_ttl =
     \<lparr>hc_ttl = cache_ttl, hc_default_domain = default_domain, hc_cache = []\<rparr>"

definition CheckCache :: "int \<Rightarrow> string \<Rightarrow> handshake_cache \<Rightarrow> byte list option \<times> handshake_cache" where
  "CheckCache now cache_key m =
     (case map_of (hc_cache m) cache_key of
        Some entry \<Rightarrow>
          if now - ce_timestamp entry < hc_ttl m then (Some (ce_data entry), m)
          else (None, m\<lparr>hc_cache := um_erase cache_key (hc_cache m)\<rparr>)
      | None \<Rightarrow> (None, m))"

definition store :: "int \<Rightarrow> string \<Rightarrow> byte list \<Rightarrow> handshake_cache \<Rightarrow> handshake_cache" where
  "store now cache_key response m =
     m\<lparr>hc_cache := um_set cache_key \<lparr>ce_data = response, ce_timestamp = now\<rparr> (hc_cache m)\<rparr>"

text \<open>\<open>net\<close> is the network for this call and \<open>decoy\<close> the generated ClientHello for a name; the readings
  are those of the two checks and the two stores. The outer option is a load outside the hello.\<close>

definition GetHandshake ::
    "(string \<Rightarrow> byte list) \<Rightarrow> (string \<Rightarrow> byte list \<Rightarrow> upstream) \<Rightarrow> int \<times> int \<times> int \<times> int \<Rightarrow>
     string \<Rightarrow> byte list \<Rightarrow> handshake_cache \<Rightarrow> (byte list option \<times> handshake_cache) option" where
  "GetHandshake decoy net ts sni buffer m =
     (let (check_sni, check_default, store_default, store_sni) = ts;
          finish = (\<lambda>response m.
            if response \<noteq> None \<and> response \<noteq> Some []
            then (response, store store_sni sni (the response) m)
            else (None, m)) in
      (case CheckCache check_sni sni m of
         (cached_response, m) \<Rightarrow>
           if cached_response \<noteq> None \<and> cached_response \<noteq> Some [] then Some (cached_response, m)
           else do {
             client_sni \<leftarrow> GetTlsSNI buffer (length buffer);
             let client_handshake_data = (if client_sni \<noteq> Some sni then decoy sni else buffer);
             (case FetchRealHandshake (net sni client_handshake_data) of
                Some response \<Rightarrow> Some (finish (Some response) m)
              | None \<Rightarrow>
                  (case CheckCache check_default (hc_default_domain m) m of
                     (default_cached_response, m) \<Rightarrow>
                       if default_cached_response \<noteq> None \<and> default_cached_response \<noteq> Some []
                       then Some (default_cached_response, m)
                       else
                         (case FetchRealHandshake (net (hc_default_domain m) (decoy (hc_default_domain m))) of
                            Some response \<Rightarrow>
                              Some (finish (Some response)
                                (if response \<noteq> [] then store store_default (hc_default_domain m) response m else m))
                          | None \<Rightarrow> Some (finish None m))))
           }))"

section \<open>Interleaved calls\<close>

text \<open>\<open>fetched\<close> says which domain has given which answer. The log collects the stores.\<close>

inductive cache_step ::
    "(string \<Rightarrow> byte list \<Rightarrow> bool) \<Rightarrow> handshake_cache \<times> (string \<times> byte list \<times> int) set \<Rightarrow>
     handshake_cache \<times> (string \<times> byte list \<times> int) set \<Rightarrow> bool"
  for fetched :: "string \<Rightarrow> byte list \<Rightarrow> bool" where
  check: "CheckCache now key m = (r, m') \<Longrightarrow> cache_step fetched (m, log) (m', log)"
| store_default: "fetched (hc_default_domain m) d \<Longrightarrow> d \<noteq> [] \<Longrightarrow>
    cache_step fetched (m, log) (store now (hc_default_domain m) d m, insert (hc_default_domain m, d, now) log)"
| store_sni: "fetched key d \<or> fetched (hc_default_domain m) d \<Longrightarrow> d \<noteq> [] \<Longrightarrow>
    cache_step fetched (m, log) (store now key d m, insert (key, d, now) log)"

inductive cache_reachable ::
    "(string \<Rightarrow> byte list \<Rightarrow> bool) \<Rightarrow> string \<Rightarrow> int \<Rightarrow>
     handshake_cache \<times> (string \<times> byte list \<times> int) set \<Rightarrow> bool"
  for fetched :: "string \<Rightarrow> byte list \<Rightarrow> bool" and default_domain :: string and ttl :: int where
  empty_cache: "cache_reachable fetched default_domain ttl (HandshakeCacheManager_new default_domain ttl, {})"
| cache_next: "cache_reachable fetched default_domain ttl s \<Longrightarrow> cache_step fetched s s' \<Longrightarrow>
    cache_reachable fetched default_domain ttl s'"

definition cache_inv ::
    "(string \<Rightarrow> byte list \<Rightarrow> bool) \<Rightarrow> string \<Rightarrow> int \<Rightarrow>
     handshake_cache \<times> (string \<times> byte list \<times> int) set \<Rightarrow> bool" where
  "cache_inv fetched default_domain ttl s \<longleftrightarrow> (let (m, log) = s in
     hc_ttl m = ttl \<and> hc_default_domain m = default_domain \<and>
     (\<forall>key e. map_of (hc_cache m) key = Some e \<longrightarrow> (key, ce_data e, ce_timestamp e) \<in> log) \<and>
     (\<forall>(key, d, t) \<in> log. d \<noteq> [] \<and> (fetched key d \<or> fetched default_domain d)))"

lemma CheckCache_keeps:
  assumes "CheckCache now key m = (r, m')"
  shows "hc_ttl m' = hc_ttl m" "hc_default_domain m' = hc_default_domain m"
    and "map_of (hc_cache m') k = Some e \<Longrightarrow> map_of (hc_cache m) k = Some e"
    and "r = Some d \<Longrightarrow> \<exists>e. map_of (hc_cache m) key = Some e \<and> ce_data e = d \<and>
           now - ce_timestamp e < hc_ttl m \<and> m' = m"
  using assms by (auto simp: CheckCache_def map_of_um_erase split: option.splits if_splits)

lemma cache_inv_step:
  assumes "cache_step fetched s s'" "cache_inv fetched default_domain ttl s"
  shows "cache_inv fetched default_domain ttl s'"
  using assms
proof cases
  case (check now key m r m' log)
  then show ?thesis
    using assms(2) CheckCache_keeps [OF check(3)] by (auto simp: cache_inv_def)
qed (use assms(2) in \<open>auto simp: cache_inv_def store_def map_of_um_set split: if_splits\<close>)

lemma cache_reachable_inv:
  "cache_reachable fetched default_domain ttl s \<Longrightarrow> cache_inv fetched default_domain ttl s"
proof (induction rule: cache_reachable.induct)
  case empty_cache
  show ?case by (simp add: cache_inv_def HandshakeCacheManager_new_def)
next
  case (cache_next s s')
  then show ?case using cache_inv_step by blast
qed

lemma FetchRealHandshake_nonempty: "FetchRealHandshake up = Some d \<Longrightarrow> d \<noteq> []"
  by (auto simp: FetchRealHandshake_def Let_def split: if_splits)

text \<open>The three ways a call ends: a hit for the name, a hit for the default domain, or a fetch, which
  is stored (an answer of the default domain under both names).\<close>

lemma GetHandshake_cases:
  assumes "\<And>key e. map_of (hc_cache m) key = Some e \<Longrightarrow> ce_data e \<noteq> []"
    and c1: "CheckCache c1 sni m = (r1, m1)" and c2: "CheckCache c2 (hc_default_domain m1) m1 = (r2, m2)"
  obtains (hit) d where "r1 = Some d" "GetHandshake decoy net (c1, c2, s1, s2) sni buffer m = Some (Some d, m1)"
  | (fetch) d hello where "FetchRealHandshake (net sni hello) = Some d"
      "GetHandshake decoy net (c1, c2, s1, s2) sni buffer m = Some (Some d, store s2 sni d m1)"
  | (fallback_hit) d where "r2 = Some d" "GetHandshake decoy net (c1, c2, s1, s2) sni buffer m = Some (Some d, m2)"
  | (fallback) d where "FetchRealHandshake (net (hc_default_domain m2) (decoy (hc_default_domain m2))) = Some d"
      "GetHandshake decoy net (c1, c2, s1, s2) sni buffer m =
         Some (Some d, store s2 sni d (store s1 (hc_default_domain m2) d m2))"
  | (none) "FetchRealHandshake (net (hc_default_domain m2) (decoy (hc_default_domain m2))) = None"
      "GetHandshake decoy net (c1, c2, s1, s2) sni buffer m = Some (None, m2)"
proof (cases r1)
  case (Some d)
  then have "d \<noteq> []" using CheckCache_keeps(4) [OF c1] assms(1) by blast
  then show ?thesis using hit Some c1 by (simp add: GetHandshake_def)
next
  case None
  obtain client_sni where cs: "GetTlsSNI buffer (length buffer) = Some client_sni"
    using GetTlsSNI_defined [of "length buffer" buffer] by auto
  let ?hello = "if client_sni \<noteq> Some sni then decoy sni else buffer"
  note ne = FetchRealHandshake_nonempty
  show ?thesis
  proof (cases "FetchRealHandshake (net sni ?hello)")
    case (Some d)
    have "GetHandshake decoy net (c1, c2, s1, s2) sni buffer m = Some (Some d, store s2 sni d m1)"
      using None c1 cs Some ne [OF Some] by (auto simp: GetHandshake_def Let_def)
    then show ?thesis using fetch Some by blast
  next
    case f1: None
    have d2: "r2 = Some d \<Longrightarrow> d \<noteq> []" for d
      using CheckCache_keeps(4) [OF c2] CheckCache_keeps(3) [OF c1] assms(1) by blast
    have step: "GetHandshake decoy net (c1, c2, s1, s2) sni buffer m =
        (if r2 \<noteq> None \<and> r2 \<noteq> Some [] then Some (r2, m2)
         else case FetchRealHandshake (net (hc_default_domain m2) (decoy (hc_default_domain m2))) of
           Some d \<Rightarrow> Some (Some d, store s2 sni d (store s1 (hc_default_domain m2) d m2))
         | None \<Rightarrow> Some (None, m2))"
      using None c1 c2 cs f1 ne by (auto simp: GetHandshake_def Let_def split: option.splits)
    show ?thesis
    proof (cases r2)
      case (Some d)
      then show ?thesis using step d2 [OF Some] fallback_hit by simp
    next
      case r2: None
      show ?thesis
      proof (cases "FetchRealHandshake (net (hc_default_domain m2) (decoy (hc_default_domain m2)))")
        case (Some d)
        then show ?thesis using fallback step r2 by simp
      next
        case f2: None
        then show ?thesis using none step r2 by simp
      qed
    qed
  qed
qed

section \<open>Properties\<close>

text \<open>The handshake cache serves genuine answers only: however calls are interleaved, a call always
  ends, and what it returns is a non-empty answer that the requested domain or the default domain
  has really given, fetched by this call or stored less than the time to live ago; the caches it
  leaves behind are reachable again, and it returns nothing only when the default domain did not
  answer either.\<close>

theorem GetHandshake_genuine:
  assumes "cache_reachable fetched default_domain ttl (m, log)"
    and "\<forall>domain hello d. FetchRealHandshake (net domain hello) = Some d \<longrightarrow> fetched domain d"
  shows "\<exists>r m' log'. GetHandshake decoy net (c1, c2, s1, s2) sni buffer m = Some (r, m') \<and>
     cache_reachable fetched default_domain ttl (m', log') \<and> log \<subseteq> log' \<and>
     (\<forall>d. r = Some d \<longrightarrow> d \<noteq> [] \<and> (fetched sni d \<or> fetched default_domain d) \<and>
        ((sni, d, s2) \<in> log' \<or> (\<exists>t. (sni, d, t) \<in> log \<and> c1 - t < ttl) \<or>
         (\<exists>t. (default_domain, d, t) \<in> log \<and> c2 - t < ttl))) \<and>
     (r = None \<longrightarrow> FetchRealHandshake (net default_domain (decoy default_domain)) = None)"
proof -
  have I: "cache_inv fetched default_domain ttl (m, log)" by (rule cache_reachable_inv [OF assms(1)])
  obtain r1 m1 where c1: "CheckCache c1 sni m = (r1, m1)" by fastforce
  obtain r2 m2 where c2: "CheckCache c2 (hc_default_domain m1) m1 = (r2, m2)" by fastforce
  note k1 = CheckCache_keeps [OF c1] and k2 = CheckCache_keeps [OF c2]
  have R1: "cache_reachable fetched default_domain ttl (m1, log)"
    by (rule cache_next [OF assms(1) cache_step.check [OF c1]])
  have R2: "cache_reachable fetched default_domain ttl (m2, log)"
    by (rule cache_next [OF R1 cache_step.check [OF c2]])
  have dd: "hc_default_domain m1 = default_domain" "hc_default_domain m2 = default_domain"
    "hc_ttl m = ttl" "hc_ttl m1 = ttl" using I k1 k2 by (auto simp: cache_inv_def)
  have entry: "(key, ce_data e, ce_timestamp e) \<in> log \<and> ce_data e \<noteq> [] \<and>
      (fetched key (ce_data e) \<or> fetched default_domain (ce_data e))"
    if "map_of (hc_cache m) key = Some e" for key e
    using I that unfolding cache_inv_def by fastforce
  have ne: "map_of (hc_cache m) key = Some e \<Longrightarrow> ce_data e \<noteq> []" for key e using entry by blast
  show ?thesis
  proof (rule GetHandshake_cases [OF ne c1 c2, where net = net and decoy = decoy and
        buffer = buffer and ?s1.0 = s1 and ?s2.0 = s2])
    fix d assume d: "r1 = Some d" "GetHandshake decoy net (c1, c2, s1, s2) sni buffer m = Some (Some d, m1)"
    then obtain e where "map_of (hc_cache m) sni = Some e" "ce_data e = d" "c1 - ce_timestamp e < ttl"
      using k1(4) dd(3) by blast
    then show ?thesis using d(2) R1 entry by blast
  next
    fix d hello assume d: "FetchRealHandshake (net sni hello) = Some d"
      "GetHandshake decoy net (c1, c2, s1, s2) sni buffer m = Some (Some d, store s2 sni d m1)"
    have f: "fetched sni d" "d \<noteq> []" using assms(2) d(1) FetchRealHandshake_nonempty by blast+
    have "cache_reachable fetched default_domain ttl (store s2 sni d m1, insert (sni, d, s2) log)"
      by (rule cache_next [OF R1 cache_step.store_sni]) (use f in auto)
    then show ?thesis using d(2) f by blast
  next
    fix d assume d: "r2 = Some d" "GetHandshake decoy net (c1, c2, s1, s2) sni buffer m = Some (Some d, m2)"
    then obtain e where "map_of (hc_cache m) default_domain = Some e" "ce_data e = d" "c2 - ce_timestamp e < ttl"
      using k2(4) k1(3) dd by metis
    then show ?thesis using d(2) R2 entry by blast
  next
    fix d assume d: "FetchRealHandshake (net (hc_default_domain m2) (decoy (hc_default_domain m2))) = Some d"
      "GetHandshake decoy net (c1, c2, s1, s2) sni buffer m =
         Some (Some d, store s2 sni d (store s1 (hc_default_domain m2) d m2))"
    let ?m = "store s1 (hc_default_domain m2) d m2" and ?log = "insert (hc_default_domain m2, d, s1) log"
    have f: "fetched default_domain d" "d \<noteq> []"
      using assms(2) d(1) FetchRealHandshake_nonempty dd(2) by (metis, blast)
    have "cache_reachable fetched default_domain ttl (?m, ?log)"
      by (rule cache_next [OF R2 cache_step.store_default]) (use f dd in auto)
    from cache_next [OF this cache_step.store_sni [of fetched sni d ?m, where now = s2]]
    have "cache_reachable fetched default_domain ttl (store s2 sni d ?m, insert (sni, d, s2) ?log)"
      using f dd by (simp add: store_def)
    then show ?thesis using d(2) f by blast
  next
    assume "FetchRealHandshake (net (hc_default_domain m2) (decoy (hc_default_domain m2))) = None"
      "GetHandshake decoy net (c1, c2, s1, s2) sni buffer m = Some (None, m2)"
    then show ?thesis using R2 dd(2) by blast
  qed
qed

text \<open>A server that cannot be reached: the answer of the default domain is given and kept.\<close>

definition demo_net :: "string \<Rightarrow> byte list \<Rightarrow> upstream" where
  "demo_net domain hello = (if domain = ''default.org'' then Upstream 5000 0 server_turns else NoAddress)"

theorem GetHandshake_genuine_witness:
  "\<exists>m'. GetHandshake (\<lambda>_. [1]) demo_net (0, 0, 9, 9) ''example.com'' [1, 2, 3]
          (HandshakeCacheManager_new ''default.org'' 3600) =
        Some (Some [0x16, 3, 3, 0, 8, 2, 0, 0, 0, 14, 0, 0, 0], m')"
proof -
  let ?a = "[0x16, 3, 3, 0, 8, 2, 0, 0, 0, 14, 0, 0, 0] :: byte list"
  have f: "FetchRealHandshake (Upstream 5000 0 server_turns) = Some ?a"
    by (simp add: FetchRealHandshake_def server_turns_def hello_complete_def server_example)
  define fetched where "fetched = (\<lambda>dom d. dom = ''default.org'' \<and> d = ?a)"
  have g: "\<forall>domain hello d. FetchRealHandshake (demo_net domain hello) = Some d \<longrightarrow> fetched domain d"
    using f by (auto simp: demo_net_def fetched_def) (simp add: FetchRealHandshake_def)
  obtain r m' where r: "GetHandshake (\<lambda>_. [1]) demo_net (0, 0, 9, 9) ''example.com'' [1, 2, 3]
          (HandshakeCacheManager_new ''default.org'' 3600) = Some (r, m')"
      "r = Some d \<Longrightarrow> fetched ''example.com'' d \<or> fetched ''default.org'' d"
      "r = None \<Longrightarrow> FetchRealHandshake (demo_net ''default.org'' [1]) = None" for d
    using GetHandshake_genuine [OF cache_reachable.empty_cache g] by metis
  then have "r = Some ?a" using f by (cases r) (auto simp: fetched_def demo_net_def)
  then show ?thesis using r(1) by blast
qed

end
