(* ===== verification/Session.thy ===== *)
theory Session
  imports SessionId HandshakeCache Obfuscator Server
begin

text \<open>
  A server session up to the point where it carries packets,
  \<open>src/fptn-server/web/session/session.cpp\<close>: what a new connection shows (an obfuscator, a TLS
  ClientHello), whether it is taken for a client or for a prober, where a prober is redirected to,
  and the request that turns a client's connection into a web socket. The sockets, the resolver
  and the TLS library are parameters: their outcomes are the fields of an environment record. A
  run of a session is the list of what it does to the outside.
\<close>

section \<open>Server names\<close>

definition NormalizeSni :: "string \<Rightarrow> string" where
  "NormalizeSni sni = map tolower sni"

definition ends_with :: "string \<Rightarrow> string \<Rightarrow> bool" where
  "ends_with s suffix \<longleftrightarrow> length suffix \<le> length s \<and> drop (length s - length suffix) s = suffix"

definition sni_matches :: "string \<Rightarrow> string \<Rightarrow> bool" where
  "sni_matches sni entry =
     (let allowed_sni = NormalizeSni entry in
      if sni = allowed_sni then True
      else if length sni > length allowed_sni + 1 then ends_with sni (''.'' @ allowed_sni)
      else False)"

definition ApplyAllowedSniList :: "string \<Rightarrow> string list \<Rightarrow> string \<Rightarrow> string" where
  "ApplyAllowedSniList sni allowed_sni_list default_domain =
     (if allowed_sni_list = [] \<or> sni = default_domain then sni
      else if list_ex (sni_matches sni) allowed_sni_list then sni
      else default_domain)"

section \<open>Proxying to oneself\<close>

text \<open>One hour, in nanoseconds.\<close>

definition kSelfProxyCacheTtl :: int where
  "kSelfProxyCacheTtl = 3600000000000"

type_synonym self_proxy_cache = "(string, bool \<times> int) umap"

definition GetCachedSelfProxyVerdict ::
    "int \<Rightarrow> string \<Rightarrow> self_proxy_cache \<Rightarrow> bool option \<times> self_proxy_cache" where
  "GetCachedSelfProxyVerdict now sni cache =
     (case map_of cache sni of
        None \<Rightarrow> (None, cache)
      | Some (verdict, at) \<Rightarrow>
          if now - at \<ge> kSelfProxyCacheTtl then (None, um_erase sni cache)
          else (Some verdict, cache))"

definition CacheSelfProxyVerdict ::
    "int \<Rightarrow> string \<Rightarrow> bool \<Rightarrow> self_proxy_cache \<Rightarrow> self_proxy_cache" where
  "CacheSelfProxyVerdict now sni is_self_proxy cache = um_set sni (is_self_proxy, now) cache"

definition IsIpAddress :: "netlib \<Rightarrow> string \<Rightarrow> bool" where
  "IsIpAddress lib host \<longleftrightarrow> make_address lib host \<noteq> None"

text \<open>The first call collects the addresses of the interfaces and the configured external ones.\<close>

definition GetServerIpAddresses :: "netlib \<Rightarrow> string list \<Rightarrow> string \<Rightarrow> string list \<Rightarrow> string list" where
  "GetServerIpAddresses lib interface_ips server_external_ips server_ips =
     (if server_ips = [] then
        interface_ips @
        (if server_external_ips \<noteq> [] then filter (IsIpAddress lib) (SplitCommaSeparated server_external_ips)
         else [])
      else server_ips)"

datatype resolution = ResolveTimeout | ResolveError | Resolved "string list" | ResolveThrows

definition IsSniSelfProxyAttempt ::
    "netlib \<Rightarrow> string list \<Rightarrow> resolution \<Rightarrow> int \<times> int \<Rightarrow> string \<Rightarrow> self_proxy_cache \<Rightarrow> bool \<times> self_proxy_cache" where
  "IsSniSelfProxyAttempt lib server_ips res ts sni cache =
     (if IsIpAddress lib sni then (True, cache)
      else
        (case GetCachedSelfProxyVerdict (fst ts) sni cache of
           (Some verdict, cache) \<Rightarrow> (verdict, cache)
         | (None, cache) \<Rightarrow>
             (case res of
                ResolveTimeout \<Rightarrow> (False, CacheSelfProxyVerdict (snd ts) sni False cache)
              | ResolveError \<Rightarrow> (False, CacheSelfProxyVerdict (snd ts) sni False cache)
              | ResolveThrows \<Rightarrow> (False, cache)
              | Resolved ips \<Rightarrow>
                  (let self = list_ex (\<lambda>ip. ip \<noteq> [] \<and> ip \<in> set server_ips) ips in
                   (self, CacheSelfProxyVerdict (snd ts) sni self cache)))))"

section \<open>Waiting for the ClientHello\<close>

text \<open>The loop that peeks at the socket: each round has the clock at its test and what the peek gave
  (\<open>None\<close>: an error, the time-out or the end of the stream). A peek sees all bytes that have
  arrived, up to the size of the buffer.\<close>

fun PeekClientHelloWithTimeout ::
    "int \<Rightarrow> nat \<Rightarrow> byte list \<Rightarrow> (int \<times> byte list option) list \<Rightarrow> wait_result" where
  "PeekClientHelloWithTimeout deadline cap bytes_read [] = Pending"
| "PeekClientHelloWithTimeout deadline cap bytes_read ((now, peek) # rounds) =
     (if now \<ge> deadline then Returned (Some bytes_read)
      else
        (case peek of
           None \<Rightarrow> if bytes_read \<noteq> [] then Returned (Some bytes_read) else Returned None
         | Some peeked \<Rightarrow>
             if peeked = [] then
               (if bytes_read \<noteq> [] then Returned (Some bytes_read) else Returned None)
             else if length peeked \<ge> 6 \<and> IsTlsClientHello peeked (length peeked) = Some False then
               Returned (Some peeked)
             else if hello_complete IsClientHelloComplete peeked then Returned (Some peeked)
             else if length peeked = cap then Returned (Some peeked)
             else PeekClientHelloWithTimeout deadline cap peeked rounds))"

section \<open>Client or prober\<close>

record probing_result =
  pr_is_probing :: bool
  pr_sni :: string
  pr_should_close :: bool

text \<open>The readings of the clock are those of the three session id checks. A check that throws is
  caught. The outer option is a load outside the ClientHello.\<close>

definition DetectProbing ::
    "(string \<Rightarrow> self_proxy_cache \<Rightarrow> bool \<times> self_proxy_cache) \<Rightarrow> sha1 \<Rightarrow> u32 \<times> u32 \<times> u32 \<Rightarrow> string \<Rightarrow>
     byte list \<Rightarrow> string \<Rightarrow> self_proxy_cache \<Rightarrow> (probing_result \<times> self_proxy_cache) option" where
  "DetectProbing is_self_proxy sha ts default_proxy_domain client_hello sni cache =
     (let (now1, now2, now3) = ts;
          (is_recursive_attempt, cache) =
            (if sni \<noteq> default_proxy_domain then is_self_proxy sni cache else (False, cache));
          sni = (if is_recursive_attempt then default_proxy_domain else sni) in do {
        session_id \<leftarrow> GetTlsSessionId client_hello (length client_hello);
        if length session_id \<noteq> kSessionLen
        then Some (\<lparr>pr_is_probing = True, pr_sni = sni, pr_should_close = False\<rparr>, cache)
        else
          (case do {
              is_fptn_session_id \<leftarrow> IsFptnClientSessionID sha now1 session_id;
              is_decoy_session_id \<leftarrow> IsDecoyHandshakeSessionID sha now2 session_id;
              is_decoy_session_id2 \<leftarrow> IsDecoyHandshakeSessionID2 sha now3 session_id;
              Some (is_fptn_session_id \<or> is_decoy_session_id \<or> is_decoy_session_id2)
            } of
             None \<Rightarrow>
               Some (\<lparr>pr_is_probing = True, pr_sni = default_proxy_domain, pr_should_close = True\<rparr>, cache)
           | Some known \<Rightarrow>
               Some (\<lparr>pr_is_probing = \<not> known, pr_sni = sni, pr_should_close = False\<rparr>, cache))
      })"

record reality_result =
  rr_is_reality_mode :: bool
  rr_is_reality_mode2 :: bool
  rr_sni :: string
  rr_should_close :: bool

definition IsRealityHandshake ::
    "sha1 \<Rightarrow> u32 \<times> u32 \<times> u32 \<Rightarrow> byte list \<Rightarrow> string \<Rightarrow> reality_result option" where
  "IsRealityHandshake sha ts client_hello sni =
     (let (now1, now2, now3) = ts;
          failed = \<lparr>rr_is_reality_mode = True, rr_is_reality_mode2 = False, rr_sni = [], rr_should_close = True\<rparr> in do {
        session_id \<leftarrow> GetTlsSessionId client_hello (length client_hello);
        if length session_id = kSessionLen then
          (case do {
              is_reality \<leftarrow> IsDecoyHandshakeSessionID sha now1 session_id;
              is_reality2 \<leftarrow> IsDecoyHandshakeSessionID2 sha now2 session_id;
              if is_reality \<or> is_reality2 then
                Some \<lparr>rr_is_reality_mode = is_reality, rr_is_reality_mode2 = is_reality2, rr_sni = sni,
                      rr_should_close = False\<rparr>
              else do {
                is_fptn \<leftarrow> IsFptnClientSessionID sha now3 session_id;
                Some (if is_fptn
                      then \<lparr>rr_is_reality_mode = False, rr_is_reality_mode2 = False, rr_sni = sni,
                            rr_should_close = False\<rparr>
                      else failed)
              }
            } of
             None \<Rightarrow> Some failed
           | Some r \<Rightarrow> Some r)
        else Some failed
      })"

section \<open>Redirecting\<close>

datatype proxy_outcome = NotResolved | NotConnected | Forwarded

text \<open>The result, and whether the client's socket is still open: it is closed on every path but the
  early return after a failed resolution.\<close>

definition HandleProxy :: "proxy_outcome \<Rightarrow> bool \<times> bool" where
  "HandleProxy outcome =
     (case outcome of
        NotResolved \<Rightarrow> (False, True)
      | NotConnected \<Rightarrow> (False, False)
      | Forwarded \<Rightarrow> (True, False))"

text \<open>The domains the client is connected to, in turn.\<close>

definition ProxyWithFallback :: "(string \<Rightarrow> proxy_outcome) \<Rightarrow> string \<Rightarrow> string \<Rightarrow> string list" where
  "ProxyWithFallback proxy default_proxy_domain sni =
     (let (status, is_open) = HandleProxy (proxy sni) in
      if status then [sni]
      else if sni \<noteq> default_proxy_domain \<and> is_open then [sni, default_proxy_domain]
      else [sni])"

section \<open>The fake handshakes\<close>

text \<open>\<open>got\<close>: the bytes of one receive (\<open>None\<close> when it throws); \<open>written\<close>: whether the answer
  could be written. The outer option is a load outside the received bytes.\<close>

definition PerformFakeHandshake ::
    "(string \<Rightarrow> byte list) \<Rightarrow> (string \<Rightarrow> byte list \<Rightarrow> upstream) \<Rightarrow> int \<times> int \<times> int \<times> int \<Rightarrow> byte list option \<Rightarrow>
     bool \<Rightarrow> string \<Rightarrow> handshake_cache option \<Rightarrow> (bool \<times> handshake_cache option) option" where
  "PerformFakeHandshake decoy net ts got written sni manager =
     (case (got, manager) of
        (Some buffer, Some m) \<Rightarrow>
          if buffer = [] then Some (False, manager)
          else do {
            (handshake_answer, m) \<leftarrow> GetHandshake decoy net ts sni buffer m;
            Some (handshake_answer \<noteq> None \<and> written, Some m)
          }
      | _ \<Rightarrow> Some (False, manager))"

text \<open>The second form reads a whole ClientHello, and waits for the client's ChangeCipherSpec after the
  answer. A wait that has not ended when the observations do counts as failed.\<close>

definition PerformFakeHandshake2 ::
    "(string \<Rightarrow> byte list) \<Rightarrow> (string \<Rightarrow> byte list \<Rightarrow> upstream) \<Rightarrow> int \<times> int \<times> int \<times> int \<Rightarrow> int \<times> turn list \<Rightarrow>
     bool \<Rightarrow> int \<times> turn list \<Rightarrow> string \<Rightarrow> handshake_cache \<Rightarrow> (bool \<times> handshake_cache) option" where
  "PerformFakeHandshake2 decoy net ts hello_turns written spec_turns sni m =
     (case WaitForClientTlsHelloAsync (fst hello_turns) [] (snd hello_turns) of
        Returned (Some client_hello) \<Rightarrow> do {
          (handshake_answer, m) \<leftarrow> GetHandshake decoy net ts sni client_hello m;
          Some (handshake_answer \<noteq> None \<and> written \<and>
                WaitForClientChangeCipherSpec (fst spec_turns) [] (snd spec_turns) = Some True, m)
        }
      | _ \<Rightarrow> Some (False, m))"

section \<open>The run of a session\<close>

record session_config =
  sc_init_completed :: bool
  sc_enable_detect_probing :: bool
  sc_default_proxy_domain :: string
  sc_allowed_sni_list :: "string list"

text \<open>What the outside does: the obfuscator detected (\<open>None\<close>: nothing to read), the ClientHello
  peeked at (\<open>None\<close>: an error), the clock in the session id checks, the verdict on a server name the
  first and the second time it is asked for, proxying, the fake handshakes, the TLS handshake, and
  whether the request makes the connection a web socket.\<close>

record session_env =
  se_obfuscator :: "obf_method option option"
  se_hello :: "byte list option"
  se_sha :: sha1
  se_probe_times :: "u32 \<times> u32 \<times> u32"
  se_reality_times :: "u32 \<times> u32 \<times> u32"
  se_self_proxy :: "string \<Rightarrow> self_proxy_cache \<Rightarrow> bool \<times> self_proxy_cache"
  se_self_proxy_again :: "string \<Rightarrow> self_proxy_cache \<Rightarrow> bool \<times> self_proxy_cache"
  se_proxy :: "string \<Rightarrow> proxy_outcome"
  se_fake_handshake :: "string \<Rightarrow> bool"
  se_fake_handshake2 :: "string \<Rightarrow> bool"
  se_tls_handshake :: bool
  se_request :: bool

datatype session_event =
    EvObfuscator "obf_method option"
  | EvProxy string
  | EvFake string
  | EvFake2 string
  | EvTlsHandshake
  | EvStart
  | EvClose

text \<open>From the TLS handshake on.\<close>

definition run_tls :: "session_env \<Rightarrow> session_event list" where
  "run_tls env =
     EvTlsHandshake #
     (if \<not> se_tls_handshake env then [EvClose]
      else [EvObfuscator None, if se_request env then EvStart else EvClose])"

text \<open>The reality mode test and the fake handshake.\<close>

definition run_reality ::
    "session_config \<Rightarrow> session_env \<Rightarrow> byte list \<Rightarrow> string \<Rightarrow> self_proxy_cache \<Rightarrow>
     (session_event list \<times> self_proxy_cache) option" where
  "run_reality cfg env client_hello client_sni cache = do {
     result \<leftarrow> IsRealityHandshake (se_sha env) (se_reality_times env) client_hello client_sni;
     if rr_should_close result then
       Some (map EvProxy (ProxyWithFallback (se_proxy env) (sc_default_proxy_domain cfg) client_sni) @ [EvClose], cache)
     else if rr_is_reality_mode result \<or> rr_is_reality_mode2 result then
       (let (self_proxy, cache) =
              (if rr_sni result \<noteq> sc_default_proxy_domain cfg
               then se_self_proxy_again env (rr_sni result) cache else (False, cache)) in
        if self_proxy then Some ([EvProxy (sc_default_proxy_domain cfg), EvClose], cache)
        else
          (let (fake, reality_success, obf) =
                 (if rr_is_reality_mode result
                  then (EvFake (rr_sni result), se_fake_handshake env (rr_sni result), Tls)
                  else (EvFake2 (rr_sni result), se_fake_handshake2 env (rr_sni result), Tls2)) in
           Some ([fake, EvObfuscator (Some obf)] @ (if reality_success then run_tls env else [EvClose]), cache)))
     else Some (run_tls env, cache)
   }"

text \<open>The probing test.\<close>

definition run_probing ::
    "session_config \<Rightarrow> session_env \<Rightarrow> byte list \<Rightarrow> string \<Rightarrow> self_proxy_cache \<Rightarrow>
     (session_event list \<times> self_proxy_cache) option" where
  "run_probing cfg env client_hello client_sni cache =
     (if sc_enable_detect_probing cfg then do {
        (probing_result, cache) \<leftarrow> DetectProbing (se_self_proxy env) (se_sha env) (se_probe_times env)
          (sc_default_proxy_domain cfg) client_hello client_sni cache;
        if pr_should_close probing_result then Some ([EvClose], cache)
        else if pr_is_probing probing_result then
          Some (map EvProxy (ProxyWithFallback (se_proxy env) (sc_default_proxy_domain cfg) (pr_sni probing_result)) @
                [EvClose], cache)
        else run_reality cfg env client_hello client_sni cache
      }
      else run_reality cfg env client_hello client_sni cache)"

text \<open>The outer option is a load outside the ClientHello.\<close>

definition Run ::
    "session_config \<Rightarrow> session_env \<Rightarrow> self_proxy_cache \<Rightarrow> (session_event list \<times> self_proxy_cache) option" where
  "Run cfg env cache =
     (if \<not> sc_init_completed cfg then Some ([EvClose], cache)
      else
        (case se_obfuscator env of
           None \<Rightarrow> Some ([EvClose], cache)
         | Some (Some obf) \<Rightarrow> Some (EvObfuscator (Some obf) # run_tls env, cache)
         | Some None \<Rightarrow> do {
             (events, cache) \<leftarrow>
               (case se_hello env of
                  None \<Rightarrow> Some ([EvClose], cache)
                | Some client_hello \<Rightarrow>
                    if client_hello = [] then Some ([EvClose], cache)
                    else do {
                      is_hello \<leftarrow> IsTlsClientHello client_hello (length client_hello);
                      if \<not> is_hello then Some ([EvClose], cache)
                      else do {
                        sni_opt \<leftarrow> GetTlsSNI client_hello (length client_hello);
                        let client_sni = (case sni_opt of None \<Rightarrow> sc_default_proxy_domain cfg
                                                        | Some sni \<Rightarrow> NormalizeSni sni);
                        let client_sni = ApplyAllowedSniList client_sni (sc_allowed_sni_list cfg)
                                           (sc_default_proxy_domain cfg);
                        run_probing cfg env client_hello client_sni cache
                      }
                    });
             Some (EvObfuscator None # events, cache)
           }))"

section \<open>HTTP\<close>

record http_request =
  hr_upgrade :: bool
  hr_method :: string
  hr_target :: string
  hr_header :: "string \<Rightarrow> string option"

text \<open>\<open>std::stoull\<close>: the value and the number of characters read; \<open>None\<close> when it throws. A minus sign
  negates modulo the width.\<close>

definition stoull :: "string \<Rightarrow> (u64 \<times> nat) option" where
  "stoull str =
     (let s = dropWhile isspace str;
          negative = (s \<noteq> [] \<and> hd s = CHR ''-'');
          s = (if s \<noteq> [] \<and> (hd s = CHR ''-'' \<or> hd s = CHR ''+'') then tl s else s);
          ds = takeWhile isdigit s;
          v = digits_value ds in
      if ds = [] \<or> v > 18446744073709551615 then None
      else Some (if negative then - of_nat v else of_nat v, length str - length (dropWhile isdigit s)))"

definition ParseRequestUint :: "http_request \<Rightarrow> string \<Rightarrow> u64 \<Rightarrow> u64" where
  "ParseRequestUint request param_name default_value =
     (case hr_header request param_name of
        None \<Rightarrow> default_value
      | Some value_str \<Rightarrow>
          (case stoull value_str of
             None \<Rightarrow> default_value
           | Some (value, pos) \<Rightarrow> if pos \<noteq> length value_str then default_value else value))"

definition ParseRequestStr :: "http_request \<Rightarrow> string \<Rightarrow> string \<Rightarrow> string" where
  "ParseRequestStr request param_name default_value =
     (case hr_header request param_name of Some v \<Rightarrow> v | None \<Rightarrow> default_value)"

text \<open>\<open>boost::replace_first(token, "Bearer ", "")\<close>.\<close>

fun erase_first :: "string \<Rightarrow> string \<Rightarrow> string" where
  "erase_first sub [] = []"
| "erase_first sub (c # s) =
     (if take (length sub) (c # s) = sub then drop (length sub) (c # s) else c # erase_first sub s)"

text \<open>Plain requests: the status and body, or nothing for a request without method and target. The
  caller closes the session in any case.\<close>

definition HandleHttp ::
    "(string, api_handler) umap \<Rightarrow> (api_handler \<Rightarrow> nat \<times> string) \<Rightarrow> http_request \<Rightarrow> (nat \<times> string) option" where
  "HandleHttp handles answer request =
     (if hr_method request = [] \<and> hr_target request = [] then None
      else
        (case GetApiHandle handles (hr_target request) (hr_method request) of
           Some handler \<Rightarrow> Some (answer handler)
         | None \<Rightarrow> Some (404, ''404 Not Found'')))"

section \<open>Web sockets\<close>

definition FPTN_CLIENT_DEFAULT_ADDRESS_IP6 :: string where
  "FPTN_CLIENT_DEFAULT_ADDRESS_IP6 = ''fd00::1''"

definition bearer_token :: "string \<Rightarrow> string" where
  "bearer_token authorization = erase_first ''Bearer '' authorization"

record ws_flags =
  wf_opened :: bool
  wf_batch :: bool
  wf_yaff :: bool

definition no_flags :: ws_flags where
  "no_flags = \<lparr>wf_opened = False, wf_batch = False, wf_yaff = False\<rparr>"

text \<open>The deprecated protocol. \<open>remote\<close> is the address of the peer (\<open>None\<close> when the socket does not
  know it), \<open>random\<close> the random session id and \<open>accept\<close> the outcome of the web socket handshake.\<close>

definition old_params :: "netlib \<Rightarrow> client_id \<Rightarrow> string \<Rightarrow> string \<Rightarrow> string \<Rightarrow> string \<Rightarrow> http_request \<Rightarrow> connect_params" where
  "old_params lib cid remote random authorization client_ip request =
     \<lparr>cp_client_id = cid, cp_url = hr_target request, cp_jwt_auth_token = bearer_token authorization,
      cp_session_id = random, cp_connection_weight = 1, cp_send_duration_ms = 0, cp_ttl_ms = 0,
      cp_client_ipv4 = IPv4Address_new lib remote,
      cp_client_tun_vpn_ipv4 = IPv4Address_new lib client_ip,
      cp_client_tun_vpn_ipv6 = IPv6Address_new lib
        (ParseRequestStr request ''ClientIPv6'' FPTN_CLIENT_DEFAULT_ADDRESS_IP6),
      cp_username = [], cp_bandwidth_bites_seconds = 0\<rparr>"

definition HandleWebSocket ::
    "netlib \<Rightarrow> jwt_lib \<Rightarrow> string \<Rightarrow> client_id \<Rightarrow> string option \<Rightarrow> string \<Rightarrow> nat \<Rightarrow>
     int \<times> int \<times> int \<times> int \<times> int \<Rightarrow> bool \<Rightarrow> http_request \<Rightarrow> server \<Rightarrow> (bool \<times> ws_flags) \<times> server" where
  "HandleWebSocket lib jwt server_key cid remote random session clk accept request s =
     (case (hr_header request ''Authorization'', hr_header request ''ClientIP'', remote) of
        (Some authorization, Some client_ip, Some client_ip_str) \<Rightarrow>
          (case HandleWsOpenConnection jwt server_key
                  (old_params lib cid client_ip_str random authorization client_ip request) session clk s of
             (nat_session, s) \<Rightarrow>
               ((nat_session \<noteq> None \<and> accept, no_flags\<lparr>wf_opened := nat_session \<noteq> None\<rparr>), s))
      | _ \<Rightarrow> ((False, no_flags), s))"

definition optional_ipv4 :: "netlib \<Rightarrow> string option \<Rightarrow> ip_address" where
  "optional_ipv4 lib h = (case h of Some a \<Rightarrow> IPv4Address_new lib a | None \<Rightarrow> IPAddress_empty)"

definition optional_ipv6 :: "netlib \<Rightarrow> string option \<Rightarrow> ip_address" where
  "optional_ipv6 lib h = (case h of Some a \<Rightarrow> IPv6Address_new lib a | None \<Rightarrow> IPAddress_empty)"

definition new_params :: "netlib \<Rightarrow> client_id \<Rightarrow> string \<Rightarrow> string \<Rightarrow> string \<Rightarrow> http_request \<Rightarrow> connect_params" where
  "new_params lib cid remote random authorization request =
     \<lparr>cp_client_id = cid, cp_url = hr_target request, cp_jwt_auth_token = bearer_token authorization,
      cp_session_id = ParseRequestStr request ''SessionID'' random,
      cp_connection_weight = ParseRequestUint request ''ConnectionWeight'' 1,
      cp_send_duration_ms = unat (ParseRequestUint request ''X-Send-Duration'' 0),
      cp_ttl_ms = unat (ParseRequestUint request ''X-Ttl'' 0),
      cp_client_ipv4 = IPv4Address_new lib remote,
      cp_client_tun_vpn_ipv4 = optional_ipv4 lib (hr_header request ''ClientIP''),
      cp_client_tun_vpn_ipv6 = optional_ipv6 lib (hr_header request ''ClientIPv6''),
      cp_username = [], cp_bandwidth_bites_seconds = 0\<rparr>"

text \<open>The current protocol: the connection is told the addresses of its session in a first message.
  \<open>serialize\<close> writes that message (with yaff or protobuf) and \<open>write_ok\<close> is the outcome of sending
  it. The message comes last in the result, when it was sent.\<close>

definition HandleWebSocket2 ::
    "netlib \<Rightarrow> jwt_lib \<Rightarrow> string \<Rightarrow> client_id \<Rightarrow> string option \<Rightarrow> string \<Rightarrow> nat \<Rightarrow>
     int \<times> int \<times> int \<times> int \<times> int \<Rightarrow> bool \<Rightarrow> (bool \<Rightarrow> string \<Rightarrow> string \<Rightarrow> byte list option) \<Rightarrow> bool \<Rightarrow>
     http_request \<Rightarrow> server \<Rightarrow> (bool \<times> ws_flags \<times> byte list option) \<times> server" where
  "HandleWebSocket2 lib jwt server_key cid remote random session clk accept serialize write_ok request s =
     (case (hr_header request ''Authorization'', remote) of
        (Some authorization, Some client_ip_str) \<Rightarrow>
          (case HandleWsOpenConnection jwt server_key
                  (new_params lib cid client_ip_str random authorization request) session clk s of
             (None, s) \<Rightarrow> ((False, no_flags, None), s)
           | (Some m, s) \<Rightarrow>
               (let mx = DisableChecksumCalculation True (mplx (sv_table s) m);
                    s = s\<lparr>sv_table := set_mplx m mx (sv_table s)\<rparr>;
                    yaff = (hr_header request ''X-Serializer'' = Some ''yaff'');
                    flags = \<lparr>wf_opened = True, wf_batch = True, wf_yaff = yaff\<rparr> in
                if \<not> accept then ((False, flags, None), s)
                else
                  (case serialize yaff (ip_str (mx_fake_ipv4 mx)) (ip_str (mx_fake_ipv6 mx)) of
                     Some message \<Rightarrow>
                       if write_ok then ((True, flags, Some message), s) else ((False, flags, None), s)
                   | None \<Rightarrow> ((False, flags, None), s))))
      | _ \<Rightarrow> ((False, no_flags, None), s))"

text \<open>Which of the handlers a request goes to.\<close>

datatype request_handler = ToWebSocket | ToWebSocket2 | ToHttp | ToNobody

definition ProcessRequest :: "http_request \<Rightarrow> request_handler" where
  "ProcessRequest request =
     (if hr_upgrade request then
        if hr_target request = kApiWebSocketUrlOld then ToWebSocket
        else if hr_target request = kApiWebSocketUrl then ToWebSocket2
        else ToNobody
      else ToHttp)"

section \<open>Packets\<close>

text \<open>The packets of a message from the client. \<open>batch\<close> decodes a batch (with yaff or protobuf),
  \<open>single\<close> the deprecated single packet.\<close>

definition reader_packets ::
    "ws_flags \<Rightarrow> client_id \<Rightarrow> (bool \<Rightarrow> byte list \<Rightarrow> byte list list) \<Rightarrow> (byte list \<Rightarrow> byte list option) \<Rightarrow>
     byte list \<Rightarrow> ip_packet list" where
  "reader_packets flags cid batch single buffer =
     (if buffer = [] then []
      else
        List.map_filter (\<lambda>raw_ip. IPPacket_Parse raw_ip cid)
          (if wf_batch flags then batch (wf_yaff flags) buffer
           else (case single buffer of None \<Rightarrow> [] | Some raw_ip \<Rightarrow> [raw_ip])))"

definition RunReader ::
    "ws_flags \<Rightarrow> client_id \<Rightarrow> (bool \<Rightarrow> byte list \<Rightarrow> byte list list) \<Rightarrow> (byte list \<Rightarrow> byte list option) \<Rightarrow>
     byte list list \<Rightarrow> ip_packet list" where
  "RunReader flags cid batch single messages = concat (map (reader_packets flags cid batch single) messages)"

text \<open>The channel to the client holds at most 1024 pointers and takes none once it is closed. The flag
  that remembers a full channel only keeps the warning from being repeated and is left out.\<close>

definition kMaxBatchSize :: nat where "kMaxBatchSize = 64"
definition kChannelSize :: nat where "kChannelSize = 1024"

record session_state =
  st_running :: bool
  st_channel_open :: bool
  st_channel :: "ip_packet option list"
  st_flags :: ws_flags

definition Session_new :: session_state where
  "Session_new = \<lparr>st_running = False, st_channel_open = True, st_channel = [], st_flags = no_flags\<rparr>"

definition try_send :: "ip_packet option \<Rightarrow> session_state \<Rightarrow> session_state" where
  "try_send pkt s =
     (if st_channel_open s \<and> length (st_channel s) < kChannelSize
      then s\<lparr>st_channel := st_channel s @ [pkt]\<rparr> else s)"

definition Send :: "ip_packet option \<Rightarrow> session_state \<Rightarrow> session_state" where
  "Send pkt s = (if \<not> st_running s \<and> pkt \<noteq> None then s else try_send pkt s)"

definition SendBatch :: "ip_packet option list \<Rightarrow> session_state \<Rightarrow> session_state" where
  "SendBatch pkts s =
     (if \<not> st_running s then s
      else fold (\<lambda>pkt s. if pkt = None then s else try_send pkt s) pkts s)"

text \<open>A round of the sender in batch mode: the batch written and what is left in the channel.\<close>

fun fill_batch :: "ip_packet list \<Rightarrow> ip_packet option list \<Rightarrow> ip_packet list \<times> ip_packet option list" where
  "fill_batch packets [] = (packets, [])"
| "fill_batch packets (p # channel) =
     (if length packets < kMaxBatchSize then
        fill_batch (case p of None \<Rightarrow> packets | Some p \<Rightarrow> packets @ [p]) channel
      else (packets, p # channel))"

definition sender_round :: "session_state \<Rightarrow> ip_packet list \<times> session_state" where
  "sender_round s =
     (case st_channel s of
        [] \<Rightarrow> ([], s)
      | p # channel \<Rightarrow>
          (case (if wf_batch (st_flags s) \<and> p \<noteq> None then fill_batch [the p] channel
                 else (case p of None \<Rightarrow> [] | Some p \<Rightarrow> [p], channel)) of
             (packets, channel) \<Rightarrow> (packets, s\<lparr>st_channel := channel\<rparr>)))"

text \<open>The sender's loop over rounds in which the channel has something: the packets written, batch by
  batch. \<open>serialize\<close> writes a message (with yaff or protobuf) and may fail; the batch is then lost.\<close>

fun RunSender ::
    "(ws_flags \<Rightarrow> ip_packet list \<Rightarrow> byte list option) \<Rightarrow> nat \<Rightarrow> session_state \<Rightarrow> byte list list \<times> session_state" where
  "RunSender serialize 0 s = ([], s)"
| "RunSender serialize (Suc rounds) s =
     (if \<not> st_running s then ([], s)
      else
        (case sender_round s of
           (packets, s) \<Rightarrow>
             (case RunSender serialize rounds s of
                (written, s) \<Rightarrow>
                  ((case (if packets = [] then None else serialize (st_flags s) packets) of
                      None \<Rightarrow> written
                    | Some message \<Rightarrow> message # written), s))))"

text \<open>\<open>Close\<close>: the first call closes the channel and tells the server, when the web socket had been
  opened; whether it did is the first component. Later calls do nothing.\<close>

definition Close :: "session_state \<Rightarrow> bool \<times> session_state" where
  "Close s =
     (if \<not> st_running s then (False, s)
      else (wf_opened (st_flags s), s\<lparr>st_running := False, st_channel_open := False\<rparr>))"

end
