(* ===== verification/SessionProps.thy ===== *)
theory SessionProps
  imports Session
begin

text \<open>
  What a server session does with the connections it gets (\<open>Session\<close>): who is served and who is
  redirected where, which names the allow list lets through, when the wait for a ClientHello ends,
  what the requests of a web socket lead to, and what the sender does with its channel.
\<close>

section \<open>Who is known\<close>

text \<open>The keys a session id carries, at the offsets of the two decoy forms and of the client form.\<close>

definition has_key :: "sha1 \<Rightarrow> nat \<Rightarrow> u32 \<Rightarrow> byte list \<Rightarrow> bool" where
  "has_key sha off now sid \<longleftrightarrow> (\<exists>t \<in> window now. take 4 (drop off sid) = fptn_key sha t)"

fun probe_known :: "sha1 \<Rightarrow> u32 \<times> u32 \<times> u32 \<Rightarrow> byte list \<Rightarrow> bool" where
  "probe_known sha (now1, now2, now3) sid \<longleftrightarrow>
     length sid = 32 \<and> (has_key sha 28 now1 sid \<or> has_key sha 10 now2 sid \<or> has_key sha 14 now3 sid)"

fun reality_known :: "sha1 \<Rightarrow> u32 \<times> u32 \<times> u32 \<Rightarrow> byte list \<Rightarrow> bool" where
  "reality_known sha (now1, now2, now3) sid \<longleftrightarrow>
     length sid = 32 \<and> (has_key sha 10 now1 sid \<or> has_key sha 14 now2 sid \<or> has_key sha 28 now3 sid)"

lemma checks_key:
  assumes "sha_ok sha" "length sid = 32"
  shows "IsDecoyHandshakeSessionID sha now sid = Some (has_key sha 10 now sid)"
    and "IsDecoyHandshakeSessionID2 sha now sid = Some (has_key sha 14 now sid)"
    and "IsFptnClientSessionID sha now sid = Some (has_key sha 28 now sid)"
  unfolding has_key_def by (rule recognise_exact [OF assms])+

lemma DetectProbing_spec:
  assumes "sha_ok sha" "GetTlsSessionId h (length h) = Some sid"
  shows "\<exists>pr c. DetectProbing ask sha ts dflt h sni cache = Some (pr, c) \<and> \<not> pr_should_close pr \<and>
    (pr_is_probing pr \<longleftrightarrow> \<not> probe_known sha ts sid) \<and>
    (pr_sni pr = dflt \<or> pr_sni pr = sni \<and> \<not> fst (ask sni cache))"
proof (cases ts)
  case (fields now1 now2 now3)
  show ?thesis
  proof (cases "length sid = 32")
    case True
    then show ?thesis
      using assms(2) by (auto simp: DetectProbing_def fields kSessionLen_def checks_key [OF assms(1) True]
          split: prod.splits)
  next
    case False
    then show ?thesis
      using assms(2) by (auto simp: DetectProbing_def fields kSessionLen_def split: prod.splits)
  qed
qed

lemma IsRealityHandshake_eq:
  assumes "sha_ok sha" "GetTlsSessionId h (length h) = Some sid"
  shows "IsRealityHandshake sha (now1, now2, now3) h sni = Some
    (if length sid = 32 \<and> (has_key sha 10 now1 sid \<or> has_key sha 14 now2 sid)
     then \<lparr>rr_is_reality_mode = has_key sha 10 now1 sid, rr_is_reality_mode2 = has_key sha 14 now2 sid,
           rr_sni = sni, rr_should_close = False\<rparr>
     else if length sid = 32 \<and> has_key sha 28 now3 sid
     then \<lparr>rr_is_reality_mode = False, rr_is_reality_mode2 = False, rr_sni = sni, rr_should_close = False\<rparr>
     else \<lparr>rr_is_reality_mode = True, rr_is_reality_mode2 = False, rr_sni = [], rr_should_close = True\<rparr>)"
proof (cases "length sid = 32")
  case True
  show ?thesis
    unfolding IsRealityHandshake_def Let_def prod.case assms(2) Option.bind.bind_lunit kSessionLen_def
      checks_key [OF assms(1) True] using True by simp
next
  case False
  then show ?thesis
    unfolding IsRealityHandshake_def Let_def prod.case assms(2) Option.bind.bind_lunit kSessionLen_def by simp
qed

lemma IsRealityHandshake_spec:
  assumes "sha_ok sha" "GetTlsSessionId h (length h) = Some sid"
  obtains rr where "IsRealityHandshake sha ts h sni = Some rr"
    "rr_should_close rr \<longleftrightarrow> \<not> reality_known sha ts sid"
    "\<not> rr_should_close rr \<Longrightarrow> rr_sni rr = sni"
proof (cases ts)
  case (fields now1 now2 now3)
  show ?thesis
    by (rule that [OF IsRealityHandshake_eq [OF assms, of now1 now2 now3 sni, folded fields]]) (auto simp: fields)
qed

section \<open>The runs\<close>

lemma ProxyWithFallback_set: "d \<in> set (ProxyWithFallback proxy dflt sni) \<Longrightarrow> d = sni \<or> d = dflt"
  by (cases "proxy sni") (simp_all add: ProxyWithFallback_def HandleProxy_def split: if_split_asm)

lemma ProxyWithFallback_first: "sni \<in> set (ProxyWithFallback proxy dflt sni)"
  by (cases "proxy sni") (simp_all add: ProxyWithFallback_def HandleProxy_def)

definition ends :: "session_event list \<Rightarrow> bool" where
  "ends evs \<longleftrightarrow> evs \<noteq> [] \<and> (last evs = EvStart \<or> last evs = EvClose) \<and>
     (\<forall>e \<in> set (butlast evs). e \<noteq> EvStart \<and> e \<noteq> EvClose) \<and>
     (EvStart \<in> set evs \<longrightarrow> EvTlsHandshake \<in> set evs)"

lemma ends_simps [simp]: "ends [EvClose]" "\<not> ends []"
  by (simp_all add: ends_def)

lemma ends_Cons: "ends evs \<Longrightarrow> e \<noteq> EvStart \<Longrightarrow> e \<noteq> EvClose \<Longrightarrow> ends (e # evs)"
  by (auto simp: ends_def)

lemma ends_proxies [simp]: "ends (map EvProxy ds @ [EvClose])"
  by (induction ds) (auto intro: ends_Cons)

lemma ends_tls [simp]: "ends (run_tls env)"
  by (simp add: ends_def run_tls_def)

lemma run_tls_no_proxy [simp]: "EvProxy d \<notin> set (run_tls env)"
  by (simp add: run_tls_def)

text \<open>The runs of the reality part, by the verdict on the session id.\<close>

lemma run_reality_unknown:
  assumes "sha_ok (se_sha env)" "GetTlsSessionId h (length h) = Some sid"
    and "\<not> reality_known (se_sha env) (se_reality_times env) sid"
  shows "run_reality cfg env h sni cache =
    Some (map EvProxy (ProxyWithFallback (se_proxy env) (sc_default_proxy_domain cfg) sni) @ [EvClose], cache)"
proof -
  obtain rr where rr: "IsRealityHandshake (se_sha env) (se_reality_times env) h sni = Some rr"
    "rr_should_close rr"
    using IsRealityHandshake_spec [OF assms(1,2)] assms(3) by blast
  then show ?thesis by (simp add: run_reality_def)
qed

lemma run_reality_known:
  assumes "sha_ok (se_sha env)" "GetTlsSessionId h (length h) = Some sid"
    and "reality_known (se_sha env) (se_reality_times env) sid"
  shows "\<exists>evs c. run_reality cfg env h sni cache = Some (evs, c) \<and> ends evs \<and>
    (\<forall>d. EvProxy d \<in> set evs \<longrightarrow> d = sc_default_proxy_domain cfg)"
proof -
  obtain rr where rr: "IsRealityHandshake (se_sha env) (se_reality_times env) h sni = Some rr" "\<not> rr_should_close rr"
    using IsRealityHandshake_spec [OF assms(1,2)] assms(3) by blast
  obtain self c where self: "(if rr_sni rr \<noteq> sc_default_proxy_domain cfg
      then se_self_proxy_again env (rr_sni rr) cache else (False, cache)) = (self, c)" by fastforce
  have "ends [EvProxy d, EvClose]" "ends [EvFake d, EvObfuscator q, EvClose]"
    "ends [EvFake2 d, EvObfuscator q, EvClose]" "ends (EvFake d # EvObfuscator q # run_tls env)"
    "ends (EvFake2 d # EvObfuscator q # run_tls env)" for d q by (simp_all add: ends_def run_tls_def)
  then show ?thesis using rr self by (simp add: run_reality_def)
qed

lemma run_reality_spec:
  assumes "sha_ok (se_sha env)" "GetTlsSessionId h (length h) = Some sid"
  obtains evs c where "run_reality cfg env h sni cache = Some (evs, c)" "ends evs"
    "EvTlsHandshake \<in> set evs \<Longrightarrow> reality_known (se_sha env) (se_reality_times env) sid"
    "\<And>d. reality_known (se_sha env) (se_reality_times env) sid \<Longrightarrow> EvProxy d \<in> set evs \<Longrightarrow> d = sc_default_proxy_domain cfg"
    "\<not> reality_known (se_sha env) (se_reality_times env) sid \<Longrightarrow> EvProxy sni \<in> set evs"
proof (cases "reality_known (se_sha env) (se_reality_times env) sid")
  case True
  then show ?thesis using that run_reality_known [OF assms True] by blast
next
  case False
  then show ?thesis
    using that [OF run_reality_unknown [OF assms False] ends_proxies] ProxyWithFallback_first by auto
qed

lemma run_probing_spec:
  assumes "sha_ok (se_sha env)" "GetTlsSessionId h (length h) = Some sid"
  obtains evs c where "run_probing cfg env h sni cache = Some (evs, c)" "ends evs"
    "EvTlsHandshake \<in> set evs \<Longrightarrow> reality_known (se_sha env) (se_reality_times env) sid \<and>
      (sc_enable_detect_probing cfg \<longrightarrow> probe_known (se_sha env) (se_probe_times env) sid)"
    "sc_enable_detect_probing cfg \<Longrightarrow> se_probe_times env = (t, t, t) \<Longrightarrow> se_reality_times env = (t, t, t) \<Longrightarrow>
      EvProxy d \<in> set evs \<Longrightarrow> d = sc_default_proxy_domain cfg \<or> d = sni \<and> \<not> fst (se_self_proxy env sni cache)"
proof (cases "sc_enable_detect_probing cfg")
  case False
  then show ?thesis using that run_reality_spec [OF assms, of cfg sni cache] by (simp add: run_probing_def) metis
next
  case True
  obtain pr c where pr: "DetectProbing (se_self_proxy env) (se_sha env) (se_probe_times env)
      (sc_default_proxy_domain cfg) h sni cache = Some (pr, c)" "\<not> pr_should_close pr"
    "pr_is_probing pr \<longleftrightarrow> \<not> probe_known (se_sha env) (se_probe_times env) sid"
    "pr_sni pr = sc_default_proxy_domain cfg \<or> pr_sni pr = sni \<and> \<not> fst (se_self_proxy env sni cache)"
    using DetectProbing_spec [OF assms] by blast
  show ?thesis
  proof (cases "pr_is_probing pr")
    case probing: True
    have "run_probing cfg env h sni cache = Some (map EvProxy (ProxyWithFallback (se_proxy env)
        (sc_default_proxy_domain cfg) (pr_sni pr)) @ [EvClose], c)" using True pr(1,2) probing by (simp add: run_probing_def)
    then show ?thesis using that ends_proxies pr(4) ProxyWithFallback_set by fastforce
  next
    case False
    then have r: "run_probing cfg env h sni cache = run_reality cfg env h sni c"
      using True pr(1,2) by (simp add: run_probing_def)
    obtain evs c' where e: "run_reality cfg env h sni c = Some (evs, c')" "ends evs"
      "EvTlsHandshake \<in> set evs \<Longrightarrow> reality_known (se_sha env) (se_reality_times env) sid"
      "reality_known (se_sha env) (se_reality_times env) sid \<Longrightarrow> EvProxy d \<in> set evs \<Longrightarrow> d = sc_default_proxy_domain cfg"
      using run_reality_spec [OF assms, of cfg sni c] by metis
    have "se_probe_times env = (t, t, t) \<Longrightarrow> se_reality_times env = (t, t, t) \<Longrightarrow>
        reality_known (se_sha env) (se_reality_times env) sid" using pr(3) False by auto
    then show ?thesis
      using that [OF r [unfolded e(1)] e(2)] e(3,4) pr(3) False by metis
  qed
qed

lemma session_id_defined: "\<exists>sid. GetTlsSessionId h (length h) = Some sid"
  by (rule GetTlsSessionId_defined) simp

text \<open>A run with a plain first message comes down to the probing part, or closes at once.\<close>

definition client_name :: "session_config \<Rightarrow> string option \<Rightarrow> string" where
  "client_name cfg sni_opt =
     ApplyAllowedSniList (case sni_opt of None \<Rightarrow> sc_default_proxy_domain cfg | Some sni \<Rightarrow> NormalizeSni sni)
       (sc_allowed_sni_list cfg) (sc_default_proxy_domain cfg)"

lemma Run_plain [consumes 2, case_names closed hello]:
  assumes "sc_init_completed cfg" "se_obfuscator env = Some None"
  obtains (closed) "Run cfg env cache = Some ([EvObfuscator None, EvClose], cache)"
  | (hello) h sni_opt where "se_hello env = Some h" "h \<noteq> []" "IsTlsClientHello h (length h) = Some True"
      "GetTlsSNI h (length h) = Some sni_opt"
      "Run cfg env cache = map_option (\<lambda>(evs, c). (EvObfuscator None # evs, c))
         (run_probing cfg env h (client_name cfg sni_opt) cache)"
proof (cases "se_hello env")
  case None
  then show ?thesis using assms closed by (simp add: Run_def)
next
  case (Some h)
  show ?thesis
  proof (cases "h \<noteq> [] \<and> IsTlsClientHello h (length h) = Some True")
    case True
    obtain sni_opt where s: "GetTlsSNI h (length h) = Some sni_opt" using GetTlsSNI_defined [of "length h" h] by auto
    have "Run cfg env cache = map_option (\<lambda>(evs, c). (EvObfuscator None # evs, c))
         (run_probing cfg env h (client_name cfg sni_opt) cache)"
      using assms Some True s
      by (cases "run_probing cfg env h (client_name cfg sni_opt) cache") (auto simp: Run_def client_name_def Let_def)
    then show ?thesis using hello Some True s by blast
  next
    case False
    obtain b where "IsTlsClientHello h (length h) = Some b" using IsTlsClientHello_defined [of "length h" h] by auto
    then show ?thesis using assms Some False closed by (cases b) (auto simp: Run_def)
  qed
qed

section \<open>Served clients\<close>

lemma has_key_issued:
  assumes "sha_ok sha" "length random = 32" "- 5 \<le> d" "d \<le> 5"
    and "SetHandshakeSessionID sha ts (Some random) = Some (Some sid) \<or>
         GenerateDecoyTlsSessionId sha ts (Some random) = Some (Some sid) \<or>
         GenerateDecoyTlsSessionId2 sha ts (Some random) = Some (Some sid)"
  shows "length sid = 32 \<and> (has_key sha 28 (ts + of_int d) sid \<or> has_key sha 10 (ts + of_int d) sid \<or>
    has_key sha 14 (ts + of_int d) sid)"
proof -
  have k: "length (keyed sha off ts random) = 32 \<and> has_key sha off (ts + of_int d) (keyed sha off ts random)"
    if "off + 4 \<le> 32" for off
    unfolding has_key_def using keyed_facts [OF assms(1,2) that] in_window [OF assms(3,4)] by blast
  show ?thesis
    using assms(5) k [of 10] k [of 14] k [of 28] unfolding issue_exact [OF assms(1,2)] by auto
qed

lemma known_run_served:
  assumes "sc_init_completed cfg" "se_obfuscator env = Some None" "sha_ok (se_sha env)" "se_hello env = Some h"
    and "h \<noteq> []" "IsTlsClientHello h (length h) = Some True" "GetTlsSessionId h (length h) = Some sid"
    and "probe_known (se_sha env) (se_probe_times env) sid" "reality_known (se_sha env) (se_reality_times env) sid"
    and "\<And>name c. fst (se_self_proxy_again env name c) = False"
    and "\<And>name. se_fake_handshake env name" "\<And>name. se_fake_handshake2 env name"
  shows "\<exists>evs c. Run cfg env cache = Some (evs, c) \<and> EvTlsHandshake \<in> set evs"
proof -
  have r: "\<exists>evs c. run_reality cfg env h sni cache = Some (evs, c) \<and> EvTlsHandshake \<in> set evs" for sni cache
  proof -
    obtain rr where rr: "IsRealityHandshake (se_sha env) (se_reality_times env) h sni = Some rr" "\<not> rr_should_close rr"
      using IsRealityHandshake_spec [OF assms(3,7)] assms(9) by blast
    obtain c where "(if rr_sni rr \<noteq> sc_default_proxy_domain cfg
        then se_self_proxy_again env (rr_sni rr) cache else (False, cache)) = (False, c)"
      using assms(10) by (metis prod.collapse)
    then show ?thesis using rr assms(11,12) by (simp add: run_reality_def run_tls_def)
  qed
  have p: "\<exists>evs c. run_probing cfg env h sni cache = Some (evs, c) \<and> EvTlsHandshake \<in> set evs" for sni
    using DetectProbing_spec [OF assms(3,7), of "se_self_proxy env" "se_probe_times env" "sc_default_proxy_domain cfg" sni cache]
      assms(8) r by (auto simp: run_probing_def)
  show ?thesis using assms(1,2)
  proof (cases rule: Run_plain [of cfg env cache])
    case closed
    obtain sni_opt where "GetTlsSNI h (length h) = Some sni_opt" using GetTlsSNI_defined [of "length h" h] by auto
    then show ?thesis
      using p [of "client_name cfg sni_opt"] assms(1,2,4-6) by (auto simp: Run_def client_name_def Let_def)
  next
    case (hello h' sni_opt)
    then show ?thesis using p [of "client_name cfg sni_opt"] assms(4) by auto
  qed
qed

text \<open>A session for the witnesses: a ClientHello for the name \<open>ya.r\<close> with a given session id.\<close>

definition demo_hello :: "byte list \<Rightarrow> byte list" where
  "demo_hello sid = encode_client_hello
     ([0x16, 3, 1, 0, 75, 1, 0, 0, 71, 3, 3] @ replicate 32 7) sid [0x13, 0x01] [0]
     ([] @ (0, sni_body 7 [0x79, 0x61, 0x2E, 0x72]) # [])"

definition demo_sid :: "byte list" where
  "demo_sid = keyed demo_sha1 28 100 (replicate 32 7)"

definition demo_cfg :: "bool \<Rightarrow> session_config" where
  "demo_cfg probing = \<lparr>sc_init_completed = True, sc_enable_detect_probing = probing, sc_default_proxy_domain = ''d.x'',
     sc_allowed_sni_list = []\<rparr>"

definition demo_env :: "byte list \<Rightarrow> session_env" where
  "demo_env sid = \<lparr>se_obfuscator = Some None, se_hello = Some (demo_hello sid), se_sha = demo_sha1,
     se_probe_times = (103, 103, 103), se_reality_times = (103, 103, 103),
     se_self_proxy = (\<lambda>_ c. (False, c)), se_self_proxy_again = (\<lambda>_ c. (False, c)), se_proxy = (\<lambda>_. Forwarded),
     se_fake_handshake = (\<lambda>_. True), se_fake_handshake2 = (\<lambda>_. True), se_tls_handshake = True, se_request = True\<rparr>"

lemma demo_sha1_ok: "sha_ok demo_sha1"
  by (simp add: sha_ok_def demo_sha1_def)

lemma demo_hello_facts:
  assumes "length sid < 256"
  shows "IsTlsClientHello (demo_hello sid) (length (demo_hello sid)) = Some True" "demo_hello sid \<noteq> []"
    and "GetTlsSNI (demo_hello sid) (length (demo_hello sid)) = Some (Some ''ya.r'')"
    and "GetTlsSessionId (demo_hello sid) (length (demo_hello sid)) = Some sid"
proof -
  have n: "byte_chars [0x79, 0x61, 0x2E, 0x72] = ''ya.r''" by code_simp
  have l: "length (concat (map encode_ext ([] @ (0, sni_body 7 [0x79, 0x61, 0x2E, 0x72]) # []))) < 65536"
    by (simp add: encode_ext_def sni_body_def)
  show "IsTlsClientHello (demo_hello sid) (length (demo_hello sid)) = Some True" "demo_hello sid \<noteq> []"
    by (simp_all add: demo_hello_def encode_client_hello_def IsTlsClientHello_def rd_def ReadU16Be_def)
  show "GetTlsSNI (demo_hello sid) (length (demo_hello sid)) = Some (Some ''ya.r'')"
    unfolding demo_hello_def by (subst GetTlsSNI_encoded [OF _ assms _ _ l]) (simp_all add: n)
  show "GetTlsSessionId (demo_hello sid) (length (demo_hello sid)) = Some sid"
    unfolding demo_hello_def by (rule encoded_hello_parsed(1) [OF _ assms _ _ l]) simp_all
qed

lemma demo_sid_facts:
  "SetHandshakeSessionID demo_sha1 100 (Some (replicate 32 7)) = Some (Some demo_sid)" "length demo_sid = 32"
  by (simp_all add: demo_sid_def issue_exact [OF demo_sha1_ok] keyed_facts [OF demo_sha1_ok])

lemma demo_served: "\<exists>evs c. Run (demo_cfg True) (demo_env demo_sid) [] = Some (evs, c) \<and> EvTlsHandshake \<in> set evs"
proof -
  have k: "has_key demo_sha1 28 103 demo_sid \<or> has_key demo_sha1 10 103 demo_sid \<or> has_key demo_sha1 14 103 demo_sid"
    using has_key_issued [OF demo_sha1_ok _ _ _ disjI1 [OF demo_sid_facts(1)], of 3] by simp
  show ?thesis
    using k demo_sid_facts(2) demo_sha1_ok demo_hello_facts [of demo_sid]
    by (intro known_run_served [where h = "demo_hello demo_sid" and sid = demo_sid]) (auto simp: demo_cfg_def demo_env_def)
qed

section \<open>Serving and redirecting\<close>

text \<open>C1: A prober never gets to the TLS handshake: when the connection starts with plain bytes, a
  session that shakes hands has read a ClientHello whose session id has 32 bytes and carries a key
  of the current time window at one of the three places, by the clock of the last test and, with
  probing detection on, also by the clock of the first.\<close>

theorem prober_never_served:
  assumes "Run cfg env cache = Some (evs, cache')" and "sha_ok (se_sha env)" and "se_obfuscator env = Some None"
    and "EvTlsHandshake \<in> set evs"
  shows "\<exists>h sid. se_hello env = Some h \<and> IsTlsClientHello h (length h) = Some True \<and>
    GetTlsSessionId h (length h) = Some sid \<and> length sid = 32 \<and>
    reality_known (se_sha env) (se_reality_times env) sid \<and>
    (\<not> sc_enable_detect_probing cfg \<or> probe_known (se_sha env) (se_probe_times env) sid)"
proof -
  have "sc_init_completed cfg" using assms(1,4) by (auto simp: Run_def split: if_splits)
  then show ?thesis using assms(3)
  proof (cases rule: Run_plain [of cfg env cache])
    case closed
    then show ?thesis using assms(1,4) by simp
  next
    case (hello h sni_opt)
    obtain sid where sid: "GetTlsSessionId h (length h) = Some sid" using session_id_defined by blast
    obtain evs1 c where "run_probing cfg env h (client_name cfg sni_opt) cache = Some (evs1, c)"
      "EvTlsHandshake \<in> set evs1 \<Longrightarrow> reality_known (se_sha env) (se_reality_times env) sid \<and>
        (sc_enable_detect_probing cfg \<longrightarrow> probe_known (se_sha env) (se_probe_times env) sid)"
      using run_probing_spec [OF assms(2) sid] by metis
    then have k: "reality_known (se_sha env) (se_reality_times env) sid \<and>
        (sc_enable_detect_probing cfg \<longrightarrow> probe_known (se_sha env) (se_probe_times env) sid)"
      using hello(5) assms(1,4) by auto
    then have "length sid = 32" by (cases "se_reality_times env") auto
    then show ?thesis using hello(1,3) sid k by blast
  qed
qed

theorem prober_never_served_witness:
  "reality_known demo_sha1 (103, 103, 103) demo_sid \<and> probe_known demo_sha1 (103, 103, 103) demo_sid"
proof -
  obtain evs c where run: "Run (demo_cfg True) (demo_env demo_sid) [] = Some (evs, c)" "EvTlsHandshake \<in> set evs"
    using demo_served by blast
  have e: "sha_ok (se_sha (demo_env demo_sid))" "se_obfuscator (demo_env demo_sid) = Some None"
    by (simp_all add: demo_env_def demo_sha1_ok)
  show ?thesis
    using prober_never_served [OF run(1) e run(2)] demo_hello_facts(4) [of demo_sid] demo_sid_facts(2)
    by (auto simp: demo_env_def demo_cfg_def)
qed

text \<open>Every run comes to an end state: on any configuration, cache and outside, the run neither
  fails nor reads outside the ClientHello, its last event is the start of the web socket or the
  close of the session, neither happens before, and a start follows a TLS handshake.\<close>

theorem Run_total:
  assumes "sha_ok (se_sha env)"
  shows "\<exists>evs c. Run cfg env cache = Some (evs, c) \<and> ends evs"
proof (cases "sc_init_completed cfg \<and> se_obfuscator env = Some None")
  case True
  then have "sc_init_completed cfg" "se_obfuscator env = Some None" by blast+
  then show ?thesis
  proof (cases rule: Run_plain [of cfg env cache])
    case closed
    then show ?thesis by (auto intro!: ends_Cons simp: ends_def)
  next
    case (hello h sni_opt)
    obtain sid where sid: "GetTlsSessionId h (length h) = Some sid" using session_id_defined by blast
    obtain evs1 c where "run_probing cfg env h (client_name cfg sni_opt) cache = Some (evs1, c)" "ends evs1"
      using run_probing_spec [OF assms sid] by metis
    then show ?thesis using hello(5) by (auto intro: ends_Cons)
  qed
next
  case False
  then show ?thesis by (auto simp: Run_def split: option.splits intro: ends_Cons)
qed

theorem Run_total_witness:
  "\<exists>evs c. Run (demo_cfg False) (demo_env demo_sid) [] = Some (evs, c) \<and> ends evs"
proof -
  have "sha_ok (se_sha (demo_env demo_sid))" by (simp add: demo_env_def demo_sha1_ok)
  then show ?thesis by (rule Run_total)
qed

text \<open>The server is no open proxy while it looks for probers: with probing detection on and the
  clock standing still between the tests, a connection is only ever forwarded to the default
  domain, or to a name that the allow list admits and that the self-proxy test cleared.\<close>

theorem proxy_targets:
  assumes "Run cfg env cache = Some (evs, cache')" and "sha_ok (se_sha env)"
    and "sc_enable_detect_probing cfg" and "se_probe_times env = (t, t, t)" and "se_reality_times env = (t, t, t)"
    and "EvProxy d \<in> set evs" and "d \<noteq> sc_default_proxy_domain cfg"
  shows "(sc_allowed_sni_list cfg = [] \<or> list_ex (sni_matches d) (sc_allowed_sni_list cfg)) \<and>
         \<not> fst (se_self_proxy env d cache)"
proof -
  have i: "sc_init_completed cfg" "se_obfuscator env = Some None"
    using assms(1,6) by (auto simp: Run_def run_tls_def split: if_splits option.splits)
  then show ?thesis
  proof (cases rule: Run_plain [of cfg env cache])
    case closed
    then show ?thesis using assms(1,6) by simp
  next
    case (hello h sni_opt)
    obtain sid where sid: "GetTlsSessionId h (length h) = Some sid" using session_id_defined by blast
    obtain evs1 c where e: "run_probing cfg env h (client_name cfg sni_opt) cache = Some (evs1, c)"
      "EvProxy d \<in> set evs1 \<Longrightarrow> d = sc_default_proxy_domain cfg \<or>
         d = client_name cfg sni_opt \<and> \<not> fst (se_self_proxy env (client_name cfg sni_opt) cache)"
      using run_probing_spec [OF assms(2) sid, of cfg "client_name cfg sni_opt" cache t d] assms(3-5) by metis
    then have d: "d = client_name cfg sni_opt" "\<not> fst (se_self_proxy env d cache)"
      using hello(5) assms(1,6,7) by auto
    then have "sc_allowed_sni_list cfg = [] \<or> list_ex (sni_matches d) (sc_allowed_sni_list cfg)"
      using assms(7) by (auto simp: client_name_def ApplyAllowedSniList_def split: if_splits)
    then show ?thesis using d(2) by blast
  qed
qed

lemma demo_probe_run:
  "Run (demo_cfg True) (demo_env [9]) [] = Some ([EvObfuscator None, EvProxy ''ya.r'', EvClose], [])"
proof -
  have n: "client_name (demo_cfg True) (Some ''ya.r'') = ''ya.r''"
    by (simp add: client_name_def demo_cfg_def ApplyAllowedSniList_def NormalizeSni_def) code_simp
  have "DetectProbing (\<lambda>_ c. (False, c)) demo_sha1 (103, 103, 103) ''d.x'' (demo_hello [9]) ''ya.r'' [] =
      Some (\<lparr>pr_is_probing = True, pr_sni = ''ya.r'', pr_should_close = False\<rparr>, [])"
    by (simp add: DetectProbing_def demo_hello_facts(4) [of "[9]", simplified] kSessionLen_def)
  then show ?thesis
    using n demo_hello_facts [of "[9]"]
    by (simp add: Run_def run_probing_def demo_env_def demo_cfg_def client_name_def ProxyWithFallback_def HandleProxy_def)
qed

theorem proxy_targets_witness:
  "\<not> fst (se_self_proxy (demo_env [9]) ''ya.r'' [])"
  using proxy_targets [OF demo_probe_run, of 103 "''ya.r''"] demo_sha1_ok by (simp add: demo_env_def demo_cfg_def)

text \<open>Without probing detection nothing keeps the server from proxying to itself: an unrecognised
  ClientHello is forwarded to the name it carries, whatever the self-proxy test would have said.\<close>

theorem unprobed_proxy_unchecked:
  assumes "sc_init_completed cfg" and "\<not> sc_enable_detect_probing cfg" and "se_obfuscator env = Some None"
    and "sha_ok (se_sha env)" and "se_hello env = Some h" and "h \<noteq> []" and "IsTlsClientHello h (length h) = Some True"
    and "GetTlsSNI h (length h) = Some (Some sni)" and "sc_allowed_sni_list cfg = []"
    and "GetTlsSessionId h (length h) = Some sid" and "length sid \<noteq> 32"
  shows "\<exists>evs. Run cfg env cache = Some (evs, cache) \<and> EvProxy (NormalizeSni sni) \<in> set evs"
proof -
  have "\<not> reality_known (se_sha env) (se_reality_times env) sid"
    using assms(11) by (cases "se_reality_times env") simp
  from run_reality_unknown [OF assms(4,10) this, of cfg "NormalizeSni sni" cache]
  have "Run cfg env cache = Some (EvObfuscator None # map EvProxy (ProxyWithFallback (se_proxy env)
      (sc_default_proxy_domain cfg) (NormalizeSni sni)) @ [EvClose], cache)"
    using assms by (simp add: Run_def run_probing_def ApplyAllowedSniList_def)
  then show ?thesis using ProxyWithFallback_first by auto
qed

theorem unprobed_proxy_unchecked_witness:
  "\<exists>evs. Run (demo_cfg False) (demo_env [9]) [] = Some (evs, []) \<and> EvProxy (NormalizeSni ''ya.r'') \<in> set evs"
proof -
  have "length ([9] :: byte list) < 256" by simp
  note h = demo_hello_facts [OF this]
  show ?thesis
    by (rule unprobed_proxy_unchecked [of _ _ "demo_hello [9]" _ "[9]"])
      (simp_all only: h, simp_all add: demo_cfg_def demo_env_def demo_sha1_ok)
qed

text \<open>C2: Clients are served: when the session id of a ClientHello was issued by the library with a
  clock that differs from the server's by at most five seconds, in the client's form or in one of
  the decoy forms, and the fake handshake succeeds and the name is not the server's own, the session
  gets to the TLS handshake, with and without probing detection.\<close>

theorem client_served:
  assumes "sc_init_completed cfg" and "se_obfuscator env = Some None" and "sha_ok (se_sha env)" and "se_hello env = Some h"
    and "h \<noteq> []" and "IsTlsClientHello h (length h) = Some True" and "GetTlsSessionId h (length h) = Some sid"
    and "SetHandshakeSessionID (se_sha env) ts (Some random) = Some (Some sid) \<or>
         GenerateDecoyTlsSessionId (se_sha env) ts (Some random) = Some (Some sid) \<or>
         GenerateDecoyTlsSessionId2 (se_sha env) ts (Some random) = Some (Some sid)"
    and "length random = 32" and "- 5 \<le> d" and "d \<le> 5" and "now = ts + of_int d"
    and "se_probe_times env = (now, now, now)" and "se_reality_times env = (now, now, now)"
    and "\<And>name c. fst (se_self_proxy_again env name c) = False"
    and "\<And>name. se_fake_handshake env name" and "\<And>name. se_fake_handshake2 env name"
  shows "\<exists>evs c. Run cfg env cache = Some (evs, c) \<and> EvTlsHandshake \<in> set evs"
proof -
  have "length sid = 32 \<and> (has_key (se_sha env) 28 now sid \<or> has_key (se_sha env) 10 now sid \<or> has_key (se_sha env) 14 now sid)"
    using has_key_issued [OF assms(3,9,10,11,8)] assms(12) by simp
  then have "probe_known (se_sha env) (se_probe_times env) sid" "reality_known (se_sha env) (se_reality_times env) sid"
    using assms(13,14) by auto
  from known_run_served [OF assms(1-7) this assms(15-17)] show ?thesis .
qed

theorem client_served_witness:
  "\<exists>evs c. Run (demo_cfg True) (demo_env demo_sid) [] = Some (evs, c) \<and> EvTlsHandshake \<in> set evs"
proof -
  have "length demo_sid < 256" by (simp add: demo_sid_facts)
  note h = demo_hello_facts [OF this]
  show ?thesis
    by (rule client_served [of _ _ "demo_hello demo_sid" demo_sid 100 "replicate 32 7" 3 103])
      (simp_all only: h, simp_all add: demo_cfg_def demo_env_def demo_sha1_ok demo_sid_facts)
qed

end
