(* ===== verification/SessionRequests.thy ===== *)
theory SessionRequests
  imports Session
begin

text \<open>
  The requests of a session and what follows from them (\<open>Session\<close>): the allow list against its
  reading by domains, the end of the wait for a ClientHello, the numbers and routes of a request,
  the web socket handlers together with the server they open a connection at, and the channel
  of the sender.
\<close>

section \<open>The allow list\<close>

lemma ends_with_iff: "ends_with s suffix \<longleftrightarrow> (\<exists>p. s = p @ suffix)"
proof
  assume "ends_with s suffix"
  then have "s = take (length s - length suffix) s @ suffix"
    unfolding ends_with_def by (metis append_take_drop_id)
  then show "\<exists>p. s = p @ suffix" by blast
qed (auto simp: ends_with_def)

lemma sni_matches_iff:
  "sni_matches sni entry \<longleftrightarrow>
     sni = NormalizeSni entry \<or> (\<exists>c p. sni = c # p @ ''.'' @ NormalizeSni entry)"
proof -
  let ?e = "NormalizeSni entry"
  have "length sni > length ?e + 1 \<and> ends_with sni (''.'' @ ?e) \<longleftrightarrow> (\<exists>c p. sni = c # p @ ''.'' @ ?e)"
  proof
    assume a: "length sni > length ?e + 1 \<and> ends_with sni (''.'' @ ?e)"
    then obtain p where p: "sni = p @ ''.'' @ ?e" by (auto simp: ends_with_iff)
    then have "p \<noteq> []" using a by auto
    then show "\<exists>c p. sni = c # p @ ''.'' @ ?e" using p by (cases p) auto
  next
    assume "\<exists>c p. sni = c # p @ ''.'' @ ?e"
    then obtain c p where e: "sni = c # p @ ''.'' @ ?e" by blast
    then have "sni = (c # p) @ ''.'' @ ?e" by simp
    then have "ends_with sni (''.'' @ ?e)" unfolding ends_with_iff by blast
    then show "length sni > length ?e + 1 \<and> ends_with sni (''.'' @ ?e)" using e by simp
  qed
  then show ?thesis by (auto simp: sni_matches_def Let_def)
qed

text \<open>The allow list read by domains: \<open>ApplyAllowedSniList\<close>, with its arithmetic on lengths, keeps
  a name exactly when the list is empty, the name is the default domain, or it is an entry in lower
  case or one with at least one more character and a dot in front; other names become the default.\<close>

theorem ApplyAllowedSniList_by_domain:
  "ApplyAllowedSniList sni allowed_sni_list default_domain =
     (if allowed_sni_list = [] \<or> sni = default_domain \<or>
         (\<exists>entry \<in> set allowed_sni_list.
            sni = NormalizeSni entry \<or> (\<exists>c p. sni = c # p @ ''.'' @ NormalizeSni entry))
      then sni else default_domain)"
  by (auto simp: ApplyAllowedSniList_def list_ex_iff sni_matches_iff)

section \<open>The wait for a ClientHello\<close>

lemma Peek_returns:
  "(\<exists>r \<in> set rounds. deadline \<le> fst r) \<Longrightarrow>
   \<exists>w. PeekClientHelloWithTimeout deadline cap bytes rounds = Returned w"
proof (induction rounds arbitrary: bytes)
  case (Cons r rounds)
  obtain now peek where r: "r = (now, peek)" by fastforce
  show ?case using Cons r by (cases peek) auto
qed simp

text \<open>What a peek that is handed on has: it is complete, no ClientHello, or fills the buffer.\<close>

definition conclusive :: "nat \<Rightarrow> byte list \<Rightarrow> bool" where
  "conclusive cap d \<longleftrightarrow> length d \<ge> 6 \<and> IsTlsClientHello d (length d) = Some False \<or>
     hello_complete IsClientHelloComplete d \<or> length d = cap"

lemma Peek_sound:
  "PeekClientHelloWithTimeout deadline cap bytes rounds = Returned (Some d) \<Longrightarrow>
   \<exists>k \<le> length rounds.
     (k < length rounds \<and> deadline \<le> fst (rounds ! k) \<or> k < length rounds \<and> snd (rounds ! k) \<in> {None, Some []} \<or>
      conclusive cap d) \<and> (d = bytes \<or> Some d \<in> snd ` set (take k rounds))"
proof (induction rounds arbitrary: bytes)
  case (Cons r rounds)
  obtain now peek where r: "r = (now, peek)" by fastforce
  show ?case
  proof (cases "deadline \<le> now \<or> peek \<in> {None, Some []}")
    case True
    then show ?thesis using Cons.prems r by (intro exI [of _ 0]) (auto split: if_splits option.splits)
  next
    case False
    then obtain peeked where p: "peek = Some peeked" "peeked \<noteq> []" "\<not> deadline \<le> now" by auto
    show ?thesis
    proof (cases "conclusive cap peeked")
      case True
      then have "PeekClientHelloWithTimeout deadline cap bytes (r # rounds) = Returned (Some peeked)"
        using p by (auto simp: r conclusive_def)
      then have "d = peeked" using Cons.prems by simp
      then show ?thesis using True p by (intro exI [of _ 1]) (auto simp: r)
    next
      case False
      then have "PeekClientHelloWithTimeout deadline cap bytes (r # rounds) =
          PeekClientHelloWithTimeout deadline cap peeked rounds"
        using p by (auto simp: r conclusive_def)
      then have "PeekClientHelloWithTimeout deadline cap peeked rounds = Returned (Some d)"
        using Cons.prems by simp
      from Cons.IH [OF this] obtain k where k: "k \<le> length rounds"
        "k < length rounds \<and> deadline \<le> fst (rounds ! k) \<or> k < length rounds \<and> snd (rounds ! k) \<in> {None, Some []} \<or>
         conclusive cap d" "d = peeked \<or> Some d \<in> snd ` set (take k rounds)" by blast
      then show ?thesis using p by (intro exI [of _ "Suc k"]) (auto simp: r)
    qed
  qed
qed simp

text \<open>The wait for a ClientHello ends: it returns as soon as one of its rounds starts after the
  deadline, whatever the socket does, and what it returns is the last peek of a prefix of the rounds,
  or nothing, after which the deadline had passed or the socket had ended, unless the bytes are
  conclusive: a complete ClientHello, no ClientHello, or a full buffer.\<close>

theorem PeekClientHello_ends:
  assumes "\<exists>r \<in> set rounds. deadline \<le> fst r"
  shows "\<exists>w. PeekClientHelloWithTimeout deadline cap [] rounds = Returned w \<and>
    (\<forall>d. w = Some d \<longrightarrow>
      (\<exists>k \<le> length rounds.
        (k < length rounds \<and> deadline \<le> fst (rounds ! k) \<or>
         k < length rounds \<and> snd (rounds ! k) \<in> {None, Some []} \<or> conclusive cap d) \<and>
        (d = [] \<or> Some d \<in> snd ` set (take k rounds))))"
proof -
  obtain w where w: "PeekClientHelloWithTimeout deadline cap [] rounds = Returned w"
    using Peek_returns [OF assms] by blast
  show ?thesis using w Peek_sound by blast
qed

theorem PeekClientHello_ends_witness:
  "\<exists>w. PeekClientHelloWithTimeout 3000 16384 [] [(0, Some [0x16]), (20, Some [0x16, 3]), (3001, None)] = Returned w"
proof -
  have "\<exists>r \<in> set [(0, Some [0x16]), (20, Some [0x16, 3]), (3001 :: int, None)]. 3000 \<le> fst r" by simp
  from PeekClientHello_ends [OF this] show ?thesis by blast
qed

section \<open>Numbers and routes of a request\<close>

lemma digit_no_sign: "isdigit c \<Longrightarrow> c \<noteq> CHR ''-'' \<and> c \<noteq> CHR ''+''"
  by (auto simp: isdigit_def)

lemma stoull_dec:
  assumes "n \<le> 18446744073709551615" "r = [] \<or> \<not> isdigit (hd r)"
  shows "stoull (dec_nat n @ r) = Some (of_nat n, length (dec_nat n))"
proof -
  note d = dec_nat_digits [of n]
  have w: "is_word (dec_nat n)" using d by (auto simp: is_word_def isdigit_not_space)
  have "isdigit (hd (dec_nat n @ r))" using d by (cases "dec_nat n") auto
  from digit_no_sign [OF this]
  have h: "hd (dec_nat n @ r) \<noteq> CHR ''-''" "hd (dec_nat n @ r) \<noteq> CHR ''+''" "dec_nat n @ r \<noteq> []"
    using d by simp_all
  have t: "takeWhile isdigit (dec_nat n @ r) = dec_nat n \<and> dropWhile isdigit (dec_nat n @ r) = r"
    by (rule takeWhile_word) (use d assms in auto)
  have "\<not> digits_value (dec_nat n) > 18446744073709551615" "dec_nat n \<noteq> []" "digits_value (dec_nat n) = n"
    using d assms(1) by simp_all
  then show ?thesis
    unfolding stoull_def dropWhile_word [OF w] Let_def using h t by simp
qed

text \<open>The numbers in a request: a header with the decimal digits of a 64-bit value gives that
  value; a missing header, and a number followed by anything, give the default; but a negative
  number is not refused: \<open>-1\<close> gives the largest value.\<close>

theorem ParseRequestUint_values:
  assumes "n \<le> 18446744073709551615" and "\<not> isdigit c"
  shows "ParseRequestUint (r\<lparr>hr_header := h(p \<mapsto> dec_nat n)\<rparr>) p d = of_nat n \<and>
         ParseRequestUint (r\<lparr>hr_header := h(p := None)\<rparr>) p d = d \<and>
         ParseRequestUint (r\<lparr>hr_header := h(p \<mapsto> dec_nat n @ c # rest)\<rparr>) p d = d \<and>
         ParseRequestUint (r\<lparr>hr_header := h(p \<mapsto> ''-1'')\<rparr>) p d = 18446744073709551615"
proof -
  have "stoull ''-1'' = Some (18446744073709551615, 2)"
    by (simp add: stoull_def isspace_def isdigit_def digits_value_def)
  then show ?thesis
    using stoull_dec [OF assms(1), of "[]"] stoull_dec [OF assms(1), of "c # rest"] assms(2)
    by (simp add: ParseRequestUint_def)
qed

theorem ParseRequestUint_values_witness:
  "ParseRequestUint \<lparr>hr_upgrade = True, hr_method = ''GET'', hr_target = [], hr_header = [''X-Ttl'' \<mapsto> ''600x'']\<rparr> ''X-Ttl'' 0 = 0"
proof -
  have e: "dec_nat 600 = ''600''" by (simp add: dec_nat.simps) code_simp
  have x: "\<not> isdigit (CHR ''x'')" by (simp add: isdigit_def)
  show ?thesis
    using ParseRequestUint_values [where n = 600 and c = "CHR ''x''" and h = Map.empty and p = "''X-Ttl''" and d = 0 and
        rest = "[]" and r = "\<lparr>hr_upgrade = True, hr_method = ''GET'', hr_target = [], hr_header = Map.empty\<rparr>"] x
    by (simp add: e)
qed

section \<open>Opening a connection at the server\<close>

lemma AddConnection_registered:
  assumes "AddConnection params b1 b2 ts t = (Some m, t')" "map_of (tb_client t) (cp_client_id params) = None"
  shows "map_of (tb_client t') (cp_client_id params) = Some m" "\<exists>mx. tb_store t' m = Some mx"
  using assms by (auto simp: AddConnection_def Let_def um.find_insert split: option.splits if_splits prod.splits)

lemma commit_registered:
  assumes "ws_commit checked session (b1, b2, t0, t1, t2) s = (Some m, s')"
    and "map_of (tb_client (sv_table s)) (cp_client_id (fst checked)) = None"
  shows "map_of (tb_client (sv_table s')) (cp_client_id (fst checked)) = Some m" "\<exists>mx. tb_store (sv_table s') m = Some mx"
proof -
  obtain t' where t: "AddConnection (fst checked) (LeakyBucket_new (snd checked) b1) (LeakyBucket_new (snd checked) b2)
      (t0, t1, t2) (sv_table s) = (Some m, t')" "sv_table s' = t'"
    using assms(1) by (cases checked) (auto simp: ws_commit_def Let_def split: if_splits option.splits prod.splits)
  show "map_of (tb_client (sv_table s')) (cp_client_id (fst checked)) = Some m"
    "\<exists>mx. tb_store (sv_table s') m = Some mx"
    using AddConnection_registered [OF t(1) assms(2)] t(2) by simp_all
qed

lemma fresh_absent:
  assumes "server_inv p4 p6 threads mxa st" "cid \<notin> ss_issued st"
  shows "map_of (tb_client (sv_table (ss_server st))) cid = None" "cid \<notin> pending_expired (ss_scans st)"
proof -
  have "inv_clients (sv_table (ss_server st)) (pending_expired (ss_scans st)) (pending_emptied (ss_scans st)) (used_ids st)"
    using assms(1) by (simp add: server_inv_def nat_part_def inv_def)
  moreover have "cid \<notin> used_ids st" using assms(2) by (simp add: used_ids_def)
  ultimately show "map_of (tb_client (sv_table (ss_server st))) cid = None" "cid \<notin> pending_expired (ss_scans st)"
    by (auto simp: inv_clients_def) (metis option.exhaust)
qed

text \<open>An open that succeeds is the two steps of the server, taken one after the other.\<close>

lemma open_steps:
  assumes R: "server_reachable jwt key threads mxa init st"
    and fresh: "cp_client_id params \<notin> ss_issued st" "length (ss_opening st) < threads" and t: "t1 \<le> t2"
    and "HandleWsOpenConnection jwt key params session (b1, b2, t0, t1, t2) (ss_server st) = (Some m, s')"
  obtains checked where "ws_check jwt key params (ss_server st) = Some checked"
    "ws_commit checked session (b1, b2, t0, t1, t2) (ss_server st) = (Some m, s')"
    "server_reachable jwt key threads mxa init
       (st\<lparr>ss_server := s', ss_issued := insert (cp_client_id params) (ss_issued st)\<rparr>)"
proof -
  obtain checked where c: "ws_check jwt key params (ss_server st) = Some checked"
    "ws_commit checked session (b1, b2, t0, t1, t2) (ss_server st) = (Some m, s')"
    using assms(5) by (auto simp: HandleWsOpenConnection_def split: option.splits)
  let ?st = "st\<lparr>ss_issued := insert (cp_client_id params) (ss_issued st), ss_opening := checked # ss_opening st\<rparr>"
  have "server_reachable jwt key threads mxa init ?st"
    by (rule server_reachable.next_step [OF R server_step.check [OF fresh c(1)]])
  moreover have "server_step jwt key threads ?st (?st\<lparr>ss_server := s', ss_opening := [] @ ss_opening st\<rparr>)"
    by (rule server_step.commit [OF _ t]) (use c(2) in simp_all)
  ultimately have "server_reachable jwt key threads mxa init (?st\<lparr>ss_server := s', ss_opening := [] @ ss_opening st\<rparr>)"
    by (rule server_reachable.next_step)
  then show ?thesis using that [OF c] by (cases st) simp
qed

lemma disable_step:
  assumes "server_reachable jwt key threads mxa init st" "tb_store (sv_table (ss_server st)) m = Some mx"
  shows "server_reachable jwt key threads mxa init (st\<lparr>ss_server := (ss_server st)\<lparr>sv_table :=
    set_mplx m (DisableChecksumCalculation v mx) (sv_table (ss_server st))\<rparr>\<rparr>)"
  using server_reachable.next_step [OF assms(1) server_step.traffic [OF assms(2), where ?b1.0 = "mx_to_client mx" and
        ?b2.0 = "mx_from_client mx" and d = v and k = "mx_cursor mx"]]
  by (simp add: DisableChecksumCalculation_def set_mplx_def)

text \<open>A registered client has its addresses.\<close>

lemma registered_routes:
  assumes "server_inv p4 p6 threads mxa st" "map_of (tb_client (sv_table (ss_server st))) cid = Some m"
    and "cid \<notin> pending_expired (ss_scans st)"
  shows "GetMultiplexerByFakeIPv4 (mx_fake_ipv4 (mplx (sv_table (ss_server st)) m)) (sv_table (ss_server st)) = Some m"
    and "GetMultiplexerByFakeIPv6 (mx_fake_ipv6 (mplx (sv_table (ss_server st)) m)) (sv_table (ss_server st)) = Some m"
proof -
  let ?t = "sv_table (ss_server st)"
  have I: "inv_maps ?t" "inv_clients ?t (pending_expired (ss_scans st)) (pending_emptied (ss_scans st)) (used_ids st)"
    using assms(1) by (simp_all add: server_inv_def nat_part_def inv_def)
  have "live ?t m" using I(2) assms(2,3) unfolding inv_clients_def by blast
  then show "GetMultiplexerByFakeIPv4 (mx_fake_ipv4 (mplx ?t m)) ?t = Some m"
    "GetMultiplexerByFakeIPv6 (mx_fake_ipv6 (mplx ?t m)) ?t = Some m"
    using inv_mapsD(7,8) [OF I(1)] by (simp_all add: GetMultiplexerByFakeIPv4_def GetMultiplexerByFakeIPv6_def)
qed

text \<open>C16: The addresses a client is told are its own: when \<open>HandleWebSocket2\<close> accepts a fresh client at
  a reachable server, the message it sends carries the addresses of a session that the server finds
  under the client's id and under either address, checksums are switched off there, and the server
  is again in a reachable state.\<close>

theorem HandleWebSocket2_announces:
  assumes "server_reachable jwt key threads mxa init st" and "empty_table init"
    and "pool_ok (tb_free_ipv4 init) (tb_free_ipv6 init)"
    and "cid \<notin> ss_issued st" and "length (ss_opening st) < threads" and "t1 \<le> t2"
    and "HandleWebSocket2 lib jwt key cid remote random session (b1, b2, t0, t1, t2) accept serialize write_ok request
           (ss_server st) = ((True, flags, message), s')"
  shows "\<exists>m mx. tb_store (sv_table s') m = Some mx \<and>
    message = serialize (wf_yaff flags) (ip_str (mx_fake_ipv4 mx)) (ip_str (mx_fake_ipv6 mx)) \<and> message \<noteq> None \<and>
    GetMultiplexerByClientId cid (sv_table s') = Some m \<and>
    GetMultiplexerByFakeIPv4 (mx_fake_ipv4 mx) (sv_table s') = Some m \<and>
    GetMultiplexerByFakeIPv6 (mx_fake_ipv6 mx) (sv_table s') = Some m \<and>
    mx_disable_checksum mx \<and> wf_opened flags \<and> wf_batch flags \<and>
    server_reachable jwt key threads mxa init (st\<lparr>ss_server := s', ss_issued := insert cid (ss_issued st)\<rparr>)"
proof -
  obtain authorization ip where h: "hr_header request ''Authorization'' = Some authorization" "remote = Some ip"
    using assms(7) by (auto simp: HandleWebSocket2_def split: option.splits)
  define params where "params = new_params lib cid ip random authorization request"
  have cid: "cp_client_id params = cid" by (simp add: params_def new_params_def)
  obtain m s1 where o: "HandleWsOpenConnection jwt key params session (b1, b2, t0, t1, t2) (ss_server st) = (Some m, s1)"
    using assms(7) h by (auto simp: HandleWebSocket2_def params_def split: option.splits prod.splits)
  define mx where "mx = DisableChecksumCalculation True (mplx (sv_table s1) m)"
  have r: "s' = s1\<lparr>sv_table := set_mplx m mx (sv_table s1)\<rparr>" "wf_opened flags" "wf_batch flags"
    "message = serialize (wf_yaff flags) (ip_str (mx_fake_ipv4 mx)) (ip_str (mx_fake_ipv6 mx))" "message \<noteq> None"
    using assms(7) h o [unfolded params_def]
    by (auto simp: HandleWebSocket2_def Let_def mx_def split: if_splits option.splits dest: sym [of "Some _"])
  note fresh = fresh_absent [OF server_reachable_inv [OF assms(1-3)] assms(4)]
  have nis: "cp_client_id params \<notin> ss_issued st" using assms(4) cid by simp
  obtain checked where c: "ws_check jwt key params (ss_server st) = Some checked"
    "ws_commit checked session (b1, b2, t0, t1, t2) (ss_server st) = (Some m, s1)"
    and R1: "server_reachable jwt key threads mxa init (st\<lparr>ss_server := s1, ss_issued := insert cid (ss_issued st)\<rparr>)"
    using open_steps [OF assms(1) nis assms(5,6) o] cid by metis
  have k: "cp_client_id (fst checked) = cid" using ws_check_Some(1) [OF c(1)] cid by simp
  have reg: "map_of (tb_client (sv_table s1)) cid = Some m" "\<exists>mx. tb_store (sv_table s1) m = Some mx"
    using commit_registered [OF c(2)] fresh(1) k by simp_all
  then have st: "tb_store (sv_table s1) m = Some (mplx (sv_table s1) m)" by auto
  have R2: "server_reachable jwt key threads mxa init (st\<lparr>ss_server := s', ss_issued := insert cid (ss_issued st)\<rparr>)"
    using disable_step [OF R1, of m "mplx (sv_table s1) m" True] st r(1) by (cases st) (simp add: mx_def)
  have t: "tb_client (sv_table s') = tb_client (sv_table s1)" "tb_store (sv_table s') m = Some mx"
    using r(1) by (simp_all add: set_mplx_def)
  have "map_of (tb_client (sv_table s')) cid = Some m" using reg(1) t(1) by simp
  with registered_routes [OF server_reachable_inv [OF R2 assms(2,3)], of cid m] fresh(2) t(2)
  show ?thesis
    using r R2 reg(1) t by (intro exI [of _ m] exI [of _ mx])
      (simp add: GetMultiplexerByClientId_def, simp add: mx_def DisableChecksumCalculation_def)
qed

definition demo_request :: http_request where
  "demo_request = \<lparr>hr_upgrade = True, hr_method = ''GET'', hr_target = kApiWebSocketUrl,
     hr_header = [''Authorization'' \<mapsto> ''Bearer token'']\<rparr>"

abbreviation demo_open :: "(bool \<times> ws_flags \<times> byte list option) \<times> server" where
  "demo_open \<equiv> HandleWebSocket2 demo_lib demo_jwt ''server key'' 5 (Some ''1.2.3.4'') ''random'' 7 (0, 0, 0, 0, 0) True
     (\<lambda>_ _ _. Some [1]) True demo_request (ss_server demo_s0)"

lemma demo_open_ok: "fst (fst demo_open)"
proof -
  have e: "tb_session demo_table = []" "tb_client demo_table = []"
    using demo_table_ok(1) by (simp_all add: empty_table_def)
  have "bearer_token ''Bearer token'' = ''token''" by (simp add: bearer_token_def)
  then show ?thesis
    using e demo_pool_nonempty
    by (simp add: HandleWebSocket2_def demo_request_def HandleWsOpenConnection_def ws_check_def demo_s0_def
        new_params_def Validate_def demo_jwt_def forged_def GetNumberActiveSessionByUsername_def ws_commit_def
        AddConnection_def Let_def)
qed

theorem HandleWebSocket2_announces_witness:
  "\<exists>m mx. GetMultiplexerByClientId 5 (sv_table (snd demo_open)) = Some m \<and>
     tb_store (sv_table (snd demo_open)) m = Some mx \<and>
     GetMultiplexerByFakeIPv4 (mx_fake_ipv4 mx) (sv_table (snd demo_open)) = Some m"
proof -
  have f: "5 \<notin> ss_issued demo_s0" "length (ss_opening demo_s0) < 1" "(0 :: int) \<le> 0" by (simp_all add: demo_s0_def)
  have "fst (fst x) \<Longrightarrow> \<exists>flags message. x = ((True, flags, message), snd x)"
    for x :: "(bool \<times> ws_flags \<times> byte list option) \<times> server" by (cases x) auto
  from this [OF demo_open_ok] obtain flags message where "demo_open = ((True, flags, message), snd demo_open)" by blast
  from HandleWebSocket2_announces [OF demo_run_s0 demo_table_ok f this] show ?thesis by blast
qed

section \<open>Closing\<close>

lemma refused_open:
  assumes "HandleWsOpenConnection jwt key params session clk s = (None, s')"
  shows "tb_client (sv_table s') = tb_client (sv_table s)"
  using assms
  by (cases clk) (auto simp: HandleWsOpenConnection_def ws_commit_def Let_def dest!: AddConnection_client(2) [OF _ refl]
      split: option.splits if_splits prod.splits)

lemma closed_absent: "GetMultiplexerByClientId cid (sv_table (HandleWsCloseConnection cid s)) = None"
  by (simp add: GetMultiplexerByClientId_def HandleWsCloseConnection_def ws_close_delete_def tb_client_Del)

text \<open>What happens at the server when the session of a handler's outcome is closed.\<close>

definition close_at :: "client_id \<Rightarrow> ws_flags \<Rightarrow> session_state \<Rightarrow> server \<Rightarrow> server" where
  "close_at cid flags ss s =
     (if fst (Close (ss\<lparr>st_flags := flags\<rparr>)) then HandleWsCloseConnection cid s else s)"

text \<open>A session leaves no connection behind: whichever way a web socket request of a fresh client
  ends (refused, accepted, broken after the open), after the session is closed the server has no
  connection of the client; and a second close tells the server nothing.\<close>

theorem session_leaves_nothing:
  assumes "map_of (tb_client (sv_table s)) cid = None" and "st_running ss"
    and "HandleWebSocket lib jwt key cid remote random session clk accept request s = ((ok, flags), s1)"
    and "HandleWebSocket2 lib jwt key cid remote random session clk accept serialize write_ok request s =
           ((ok2, flags2, message), s2)"
  shows "GetMultiplexerByClientId cid (sv_table (close_at cid flags ss s1)) = None \<and>
         GetMultiplexerByClientId cid (sv_table (close_at cid flags2 ss s2)) = None \<and>
         (ok \<longrightarrow> wf_opened flags) \<and> (ok2 \<longrightarrow> wf_opened flags2) \<and>
         \<not> fst (Close (snd (Close ss)))"
proof -
  have "wf_opened flags \<or> tb_client (sv_table s1) = tb_client (sv_table s)"
    using assms(3)
    by (cases clk) (auto dest: refused_open simp: HandleWebSocket_def no_flags_def split: option.splits prod.splits)
  moreover have "wf_opened flags2 \<or> tb_client (sv_table s2) = tb_client (sv_table s)"
    using assms(4)
    by (cases clk) (auto dest: refused_open simp: HandleWebSocket2_def no_flags_def Let_def split: option.splits prod.splits if_splits)
  moreover have "ok \<longrightarrow> wf_opened flags" "ok2 \<longrightarrow> wf_opened flags2"
    using assms(3,4) by (auto simp: HandleWebSocket_def HandleWebSocket2_def no_flags_def Let_def
        split: option.splits prod.splits if_splits)
  ultimately show ?thesis
    using assms(1,2) closed_absent
    by (auto simp: close_at_def Close_def GetMultiplexerByClientId_def)
qed

lemma demo_refused:
  "HandleWebSocket demo_lib demo_jwt ''server key'' 5 (Some ''1.2.3.4'') ''random'' 7 (0, 0, 0, 0, 0) True demo_request
     (ss_server demo_s0) = ((False, no_flags), ss_server demo_s0)"
  by (simp add: HandleWebSocket_def demo_request_def)

theorem session_leaves_nothing_witness:
  "GetMultiplexerByClientId 5 (sv_table (close_at 5 \<lparr>wf_opened = True, wf_batch = True, wf_yaff = False\<rparr>
     \<lparr>st_running = True, st_channel_open = True, st_channel = [], st_flags = no_flags\<rparr> (snd demo_open))) = None"
proof -
  have a: "map_of (tb_client (sv_table (ss_server demo_s0))) 5 = None"
    using demo_table_ok(1) by (simp add: demo_s0_def empty_table_def)
  have "fst (fst x) \<Longrightarrow> \<exists>flags message. x = ((True, flags, message), snd x)"
    for x :: "(bool \<times> ws_flags \<times> byte list option) \<times> server" by (cases x) auto
  from this [OF demo_open_ok] obtain flags message where d: "demo_open = ((True, flags, message), snd demo_open)" by blast
  have r: "st_running \<lparr>st_running = True, st_channel_open = True, st_channel = [], st_flags = no_flags\<rparr>" by simp
  show ?thesis
    using session_leaves_nothing [OF a r demo_refused d] by (auto simp: close_at_def Close_def)
qed

section \<open>Routes\<close>

text \<open>The routes: a plain request is answered by a handler exactly when it is one of the three
  registered routes, or a GET of the metrics route with the configured key when there is one, which
  no other key reaches; any other request gets 404, and only a request with neither method nor
  target is dropped.\<close>

theorem HandleHttp_routes:
  "HandleHttp (api_handles key) answer request =
     (let url = hr_target request; verb = hr_method request; line = verb @ '' '' @ url in
      if verb = [] \<and> url = [] then None
      else if line = ''GET /api/v1/test/file.bin'' then Some (answer HandleApiTestFile)
      else if line = ''POST /api/v1/login'' then Some (answer HandleApiLogin)
      else if line = ''GET /api/v1/dns'' then Some (answer HandleApiDns)
      else if key \<noteq> [] \<and> line = ''GET /api/v1/metrics/'' @ key then Some (answer HandleApiMetrics)
      else Some (404, ''404 Not Found''))"
  by (simp add: HandleHttp_def api_handles_def AddApiHandle_def GetApiHandle_def GetApiKey_def map_of_um_set Let_def
      kApiTestFileBinUrl_def kApiLoginUrl_def kApiDnsUrl_def kApiMetricsUrl_def split: option.split)

section \<open>The sender\<close>

abbreviation packets_of :: "ip_packet option list \<Rightarrow> ip_packet list" where
  "packets_of \<equiv> List.map_filter (\<lambda>p. p)"

lemma fill_batch_order:
  "fill_batch packets channel = (batch, rest) \<Longrightarrow>
   batch @ packets_of rest = packets @ packets_of channel \<and> length rest \<le> length channel \<and>
   (length packets \<le> kMaxBatchSize \<longrightarrow> length batch \<le> kMaxBatchSize) \<and> (rest \<noteq> [] \<longrightarrow> length batch \<ge> kMaxBatchSize)"
proof (induction channel arbitrary: packets)
  case (Cons p channel)
  show ?case
  proof (cases "length packets < kMaxBatchSize")
    case True
    then have f: "fill_batch (case p of None \<Rightarrow> packets | Some p \<Rightarrow> packets @ [p]) channel = (batch, rest)"
      using Cons.prems by simp
    show ?thesis using Cons.IH [OF f] True by (cases p) (simp_all add: List.map_filter_simps)
  next
    case False
    then show ?thesis using Cons.prems by auto
  qed
qed simp

text \<open>The sender keeps the order: a round writes at most 64 packets, one in the deprecated mode, and
  what it writes followed by what is left in the channel is what the channel held, without the null
  pointers; a channel that holds something gets shorter, and what a batch leaves behind did not
  fit into it. The channel never exceeds its bound, and is only ever extended while it is open.\<close>

theorem sender_round_order:
  assumes "sender_round s = (packets, s')"
  shows "packets @ packets_of (st_channel s') = packets_of (st_channel s) \<and>
    length packets \<le> (if wf_batch (st_flags s) then 64 else 1) \<and>
    (st_channel s = [] \<or> length (st_channel s') < length (st_channel s)) \<and>
    (st_channel s' = [] \<or> \<not> wf_batch (st_flags s) \<or> packets = [] \<or> length packets = 64) \<and>
    (let s2 = SendBatch pkts (Send pkt s) in
       length (st_channel s2) \<le> max 1024 (length (st_channel s)) \<and>
       (st_channel_open s \<or> st_channel s2 = st_channel s) \<and>
       (\<exists>new. st_channel s2 = st_channel s @ new))"
proof -
  have push: "length (st_channel (try_send q x)) \<le> max 1024 (length (st_channel x)) \<and>
      (st_channel_open x \<or> st_channel (try_send q x) = st_channel x) \<and> st_channel_open (try_send q x) = st_channel_open x \<and>
      (\<exists>new. st_channel (try_send q x) = st_channel x @ new)" for q x
    by (auto simp: try_send_def kChannelSize_def)
  have fold: "length (st_channel (fold (\<lambda>q x. if q = None then x else try_send q x) qs x)) \<le> max 1024 (length (st_channel x)) \<and>
      (st_channel_open x \<or> st_channel (fold (\<lambda>q x. if q = None then x else try_send q x) qs x) = st_channel x) \<and>
      (\<exists>new. st_channel (fold (\<lambda>q x. if q = None then x else try_send q x) qs x) = st_channel x @ new)" for qs x
  proof (induction qs arbitrary: x)
    case (Cons q qs)
    show ?case using Cons [of x] Cons [of "try_send q x"] push [of q x] by (auto simp: max_def split: if_splits)
  qed simp
  have "length (st_channel (SendBatch pkts (Send pkt s))) \<le> max 1024 (length (st_channel s)) \<and>
      (st_channel_open s \<or> st_channel (SendBatch pkts (Send pkt s)) = st_channel s) \<and>
      (\<exists>new. st_channel (SendBatch pkts (Send pkt s)) = st_channel s @ new)"
    using fold [of pkts s] fold [of pkts "try_send pkt s"] push [of pkt s]
    by (auto simp: SendBatch_def Send_def max_def split: if_splits)
  then show ?thesis
    using assms fill_batch_order
    by (fastforce simp: sender_round_def kMaxBatchSize_def List.map_filter_simps split: list.splits if_splits prod.splits option.splits)
qed

definition demo_sender :: session_state where
  "demo_sender = Session_new\<lparr>st_running := True, st_flags := \<lparr>wf_opened = True, wf_batch = True, wf_yaff = False\<rparr>,
     st_channel := [Some \<lparr>pkt_data = [], pkt_client = 1\<rparr>, None]\<rparr>"

theorem sender_round_order_witness:
  "[\<lparr>pkt_data = [], pkt_client = 1\<rparr>] @ packets_of [] = packets_of (st_channel demo_sender) \<and>
   length (st_channel (SendBatch [] (Send None demo_sender))) \<le> 1024"
proof -
  have "sender_round demo_sender = ([\<lparr>pkt_data = [], pkt_client = 1\<rparr>], demo_sender\<lparr>st_channel := []\<rparr>)"
    by (simp add: sender_round_def demo_sender_def kMaxBatchSize_def)
  from sender_round_order [OF this, of "[]" None] show ?thesis by (simp add: Let_def demo_sender_def)
qed

section \<open>The reader\<close>

text \<open>The type of a packet of a client: at least an IPv4 header, and a whole IPv6 header for IPv6.\<close>

definition packet_typed :: "client_id \<Rightarrow> ip_packet \<Rightarrow> bool" where
  "packet_typed cid pkt \<longleftrightarrow> ClientId pkt = cid \<and> 20 \<le> Size pkt \<and> IsIPv4 pkt \<noteq> IsIPv6 pkt \<and> (IsIPv6 pkt \<longrightarrow> 40 \<le> Size pkt)"

lemma Parse_typed: "IPPacket_Parse raw cid = Some pkt \<Longrightarrow> packet_typed cid pkt"
  by (auto simp: IPPacket_Parse_def packet_typed_def ClientId_def Size_def IsIPv4_def IsIPv6_def kMinIPv4_def
      kMinIPv6_def Let_def split: if_splits)

text \<open>C40: What the reader hands on is typed: whatever a client sends and however it decodes, every packet
  that reaches the server carries the session's own client id, is either IPv4 or IPv6 and has at
  least the fixed header of its version.\<close>

theorem RunReader_typed:
  "list_all (packet_typed cid) (RunReader flags cid batch single messages)"
  by (auto simp: RunReader_def reader_packets_def list_all_iff List.map_filter_def Parse_typed split: if_splits option.splits)

end
