(* ===== verification/ClientHandshake.thy ===== *)
theory ClientHandshake
  imports SessionProps SessionRequests
begin

text \<open>
  How the client gets to the server: the censorship strategies
  (\<open>src/fptn-protocol-lib/https/censorship_strategy.h\<close>), the HTTP client (\<open>api_client/api_client.cpp\<close>)
  and the connecting part of the web socket client (\<open>websocket_client/websocket_client.cpp\<close>). OpenSSL's
  handshake, the generator of browser-like ClientHellos and the sockets are arguments. A connection
  is the list of what the client does to the wire, to be read against the run of a server session.
\<close>

section \<open>Strategies\<close>

datatype censorship_strategy =
    kSni | kTlsObfuscator | kSniRealityMode
  | kSniRealityModeChrome145 | kSniRealityModeChrome146 | kSniRealityModeChrome147
  | kSniRealityModeChrome148 | kSniRealityModeChrome149
  | kSniRealityModeFirefox149 | kSniRealityModeFirefox150 | kSniRealityModeFirefox151
  | kSniRealityModeYandex24 | kSniRealityModeYandex25 | kSniRealityModeYandex26_3 | kSniRealityModeYandex26_4
  | kSniRealityModeSafari26_4 | kSniRealityModeSafari26_5

definition strategy_ToString :: "censorship_strategy \<Rightarrow> string" where
  "strategy_ToString strategy =
     (case strategy of
        kSni \<Rightarrow> ''SNI''
      | kTlsObfuscator \<Rightarrow> ''TLS Obfuscation''
      | kSniRealityMode \<Rightarrow> ''SNI-Reality''
      | kSniRealityModeChrome145 \<Rightarrow> ''Chrome 145''
      | kSniRealityModeChrome146 \<Rightarrow> ''Chrome 146''
      | kSniRealityModeChrome147 \<Rightarrow> ''Chrome 147''
      | kSniRealityModeChrome148 \<Rightarrow> ''Chrome 148''
      | kSniRealityModeChrome149 \<Rightarrow> ''Chrome 149''
      | kSniRealityModeFirefox149 \<Rightarrow> ''Firefox 149''
      | kSniRealityModeFirefox150 \<Rightarrow> ''Firefox 150''
      | kSniRealityModeFirefox151 \<Rightarrow> ''Firefox 151''
      | kSniRealityModeYandex24 \<Rightarrow> ''Yandex 24''
      | kSniRealityModeYandex25 \<Rightarrow> ''Yandex 25''
      | kSniRealityModeYandex26_3 \<Rightarrow> ''Yandex 26.3''
      | kSniRealityModeYandex26_4 \<Rightarrow> ''Yandex 26.4''
      | kSniRealityModeSafari26_4 \<Rightarrow> ''Safari 26.4''
      | kSniRealityModeSafari26_5 \<Rightarrow> ''Safari 26.5'')"

definition IsRealityModeWithFakeHandshake :: "censorship_strategy \<Rightarrow> bool" where
  "IsRealityModeWithFakeHandshake strategy \<longleftrightarrow>
     strategy = kSniRealityMode \<or>
     strategy = kSniRealityModeChrome149 \<or> strategy = kSniRealityModeChrome148 \<or>
     strategy = kSniRealityModeChrome147 \<or> strategy = kSniRealityModeChrome146 \<or>
     strategy = kSniRealityModeChrome145 \<or>
     strategy = kSniRealityModeFirefox151 \<or> strategy = kSniRealityModeFirefox150 \<or>
     strategy = kSniRealityModeFirefox149 \<or>
     strategy = kSniRealityModeYandex26_4 \<or> strategy = kSniRealityModeYandex26_3 \<or>
     strategy = kSniRealityModeYandex25 \<or> strategy = kSniRealityModeYandex24 \<or>
     strategy = kSniRealityModeSafari26_5 \<or> strategy = kSniRealityModeSafari26_4"

section \<open>ClientHellos\<close>

text \<open>The browser versions of the generator.\<close>

datatype browser = GoogleChrome string | Firefox string | Safari string | YandexBrowser string

definition browser_of :: "censorship_strategy \<Rightarrow> browser option" where
  "browser_of strategy =
     (case strategy of
        kSniRealityModeChrome149 \<Rightarrow> Some (GoogleChrome ''149_0_7827_103'')
      | kSniRealityModeChrome148 \<Rightarrow> Some (GoogleChrome ''148_0_7778_216'')
      | kSniRealityModeChrome147 \<Rightarrow> Some (GoogleChrome ''147_0_7727_56'')
      | kSniRealityModeChrome146 \<Rightarrow> Some (GoogleChrome ''146_0_7680_178'')
      | kSniRealityModeChrome145 \<Rightarrow> Some (GoogleChrome ''145_0_7632_46'')
      | kSniRealityModeFirefox151 \<Rightarrow> Some (Firefox ''151_0_3'')
      | kSniRealityModeFirefox150 \<Rightarrow> Some (Firefox ''150_0_3'')
      | kSniRealityModeFirefox149 \<Rightarrow> Some (Firefox ''149_0'')
      | kSniRealityModeSafari26_5 \<Rightarrow> Some (Safari ''26_5'')
      | kSniRealityModeSafari26_4 \<Rightarrow> Some (Safari ''26_4'')
      | kSniRealityModeYandex26_4 \<Rightarrow> Some (YandexBrowser ''26_4_3_897'')
      | kSniRealityModeYandex26_3 \<Rightarrow> Some (YandexBrowser ''26_3_3_881'')
      | kSniRealityModeYandex25 \<Rightarrow> Some (YandexBrowser ''25_8_3_828'')
      | kSniRealityModeYandex24 \<Rightarrow> Some (YandexBrowser ''24_12_0_1772'')
      | _ \<Rightarrow> None)"

text \<open>What the outside gives to a fake handshake: the fallback generator (OpenSSL), the browser-like
  generator, the digest, the clock and the random bytes (\<open>None\<close>: the generator failed), the bytes
  written of the two messages (\<open>None\<close>: an error), and the turns of the wait for the answer.\<close>

record fake_env =
  fe_decoy :: "string \<Rightarrow> byte list"
  fe_build :: "browser \<Rightarrow> string \<Rightarrow> byte list \<Rightarrow> byte list option"
  fe_sha :: sha1
  fe_now :: u32
  fe_random :: "byte list option"
  fe_hello_written :: "nat option"
  fe_deadline :: int
  fe_start :: int
  fe_turns :: "turn list"
  fe_spec_written :: "nat option"

text \<open>The outer option is a write outside the session id.\<close>

definition GenerateHandshakePacket :: "censorship_strategy \<Rightarrow> string \<Rightarrow> fake_env \<Rightarrow> byte list option" where
  "GenerateHandshakePacket strategy sni env =
     (case browser_of strategy of
        None \<Rightarrow> Some (fe_decoy env sni)
      | Some b \<Rightarrow> do {
          session_id \<leftarrow> GenerateDecoyTlsSessionId2 (fe_sha env) (fe_now env) (fe_random env);
          Some (case session_id of
                  None \<Rightarrow> fe_decoy env sni
                | Some sid \<Rightarrow>
                    (case fe_build env b sni sid of
                       None \<Rightarrow> fe_decoy env sni
                     | Some handshake \<Rightarrow> handshake))
        })"

text \<open>What a client does to the wire.\<close>

datatype client_event =
    ClHello "byte list"
  | ClSpec
  | ClObf "obf_method option"
  | ClTls
  | ClUpgrade http_request
  | ClRequest string string string

text \<open>The two forms differ in the wait: the HTTP client uses the blocking loop, the web socket client
  the asynchronous one. \<open>wait\<close> is the loop.\<close>

definition client_fake_handshake ::
    "(int \<Rightarrow> byte list \<Rightarrow> bool \<Rightarrow> int \<Rightarrow> turn list \<Rightarrow> wait_result) \<Rightarrow> censorship_strategy \<Rightarrow> string \<Rightarrow> fake_env \<Rightarrow>
     (bool \<times> client_event list) option" where
  "client_fake_handshake wait strategy sni env = do {
     client_hello \<leftarrow> GenerateHandshakePacket strategy sni env;
     Some (if client_hello = [] then (False, [])
           else if fe_hello_written env \<noteq> Some (length client_hello) then (False, [ClHello client_hello])
           else
             (case wait (fe_deadline env) [] False (fe_start env) (fe_turns env) of
                Returned (Some server_hello) \<Rightarrow>
                  (fe_spec_written env = Some (length MakeClientChangeCipherSpec), [ClHello client_hello, ClSpec])
              | _ \<Rightarrow> (False, [ClHello client_hello])))
   }"

definition Api_PerformFakeHandshake2 :: "censorship_strategy \<Rightarrow> string \<Rightarrow> fake_env \<Rightarrow> (bool \<times> client_event list) option" where
  "Api_PerformFakeHandshake2 = client_fake_handshake WaitForServerTlsHello"

definition Ws_PerformFakeHandshake2 :: "censorship_strategy \<Rightarrow> string \<Rightarrow> fake_env \<Rightarrow> (bool \<times> client_event list) option" where
  "Ws_PerformFakeHandshake2 = client_fake_handshake WaitForServerTlsHelloAsync"

declare Api_PerformFakeHandshake2_def [simp] Ws_PerformFakeHandshake2_def [simp]

section \<open>The HTTP client\<close>

record api_client =
  ac_host :: string
  ac_port :: int
  ac_sni :: string
  ac_expected_md5_fingerprint :: string
  ac_censorship_strategy :: censorship_strategy

record response =
  rs_body :: string
  rs_code :: int
  rs_errmsg :: string

text \<open>What a library call throws: a system error or another standard exception, with its text, or
  anything else.\<close>

datatype failure = SystemError string | StdException string | OtherException

definition response_of :: "failure \<Rightarrow> response" where
  "response_of f =
     (case f of
        SystemError what \<Rightarrow> \<lparr>rs_body = [], rs_code = 600, rs_errmsg = what\<rparr>
      | StdException what \<Rightarrow> \<lparr>rs_body = [], rs_code = 601, rs_errmsg = what\<rparr>
      | OtherException \<Rightarrow> \<lparr>rs_body = [], rs_code = 602, rs_errmsg = ''Unknown exception''\<rparr>)"

text \<open>The outside of one request: whether the port answers, the resolver (\<open>Some\<close>: an error text), the
  connect, the fake handshake, the fingerprint of the certificate the peer shows (empty if it
  shows none), what the TLS handshake throws otherwise, the answer, and whether the operation
  takes longer than the time-out.\<close>

record api_env =
  ae_port_open :: bool
  ae_resolve :: "string option"
  ae_connect :: "failure option"
  ae_fake :: fake_env
  ae_fingerprint :: string
  ae_tls :: "failure option"
  ae_answer :: "failure + int \<times> string"
  ae_timeout :: bool

definition onVerifyCertificate :: "api_client \<Rightarrow> string \<Rightarrow> bool \<times> string" where
  "onVerifyCertificate c md5_fingerprint =
     (if ac_expected_md5_fingerprint c = [] then (True, [])
      else if md5_fingerprint = ac_expected_md5_fingerprint c then (True, [])
      else (False, ''Certificate MD5 mismatch. Expected: '' @ ac_expected_md5_fingerprint c @ '', got: '' @
                   md5_fingerprint @ ''. Please update your token.''))"

text \<open>The handshake with the callback attached: a certificate without a fingerprint, or one that the
  callback refuses, makes the library throw a system error of its own.\<close>

definition tls_handshake :: "bool \<Rightarrow> (string \<Rightarrow> bool) \<Rightarrow> string \<Rightarrow> failure option \<Rightarrow> failure option" where
  "tls_handshake attached verify fingerprint otherwise =
     (if attached \<and> (fingerprint = [] \<or> \<not> verify fingerprint)
      then Some (SystemError ''certificate verify failed'')
      else otherwise)"

text \<open>From the real TLS handshake on.\<close>

definition secure_exchange ::
    "api_client \<Rightarrow> string \<Rightarrow> string \<Rightarrow> string \<Rightarrow> api_env \<Rightarrow> response \<times> client_event list" where
  "secure_exchange c method_name handle request env =
     (case tls_handshake (ac_expected_md5_fingerprint c \<noteq> []) (\<lambda>md5. fst (onVerifyCertificate c md5))
             (ae_fingerprint env) (ae_tls env) of
        Some f \<Rightarrow> (response_of f, [ClTls])
      | None \<Rightarrow>
          (case ae_answer env of Inl f \<Rightarrow> response_of f
                               | Inr (status, body) \<Rightarrow> \<lparr>rs_body = body, rs_code = status, rs_errmsg = []\<rparr>,
           [ClTls, ClObf None, ClRequest method_name handle request]))"

text \<open>\<open>GetImpl\<close> and \<open>PostImpl\<close> are this with their method; the outer option is that of the session id.\<close>

definition exchange ::
    "api_client \<Rightarrow> string \<Rightarrow> string \<Rightarrow> string \<Rightarrow> api_env \<Rightarrow> (response \<times> client_event list) option" where
  "exchange c method_name handle request env =
     (let first = [ClObf (if ac_censorship_strategy c = kTlsObfuscator then Some Tls2 else None)] in
      case ae_resolve env of
        Some err \<Rightarrow> Some (\<lparr>rs_body = [], rs_code = 603, rs_errmsg = err\<rparr>, first)
      | None \<Rightarrow>
          (case ae_connect env of
             Some f \<Rightarrow> Some (response_of f, first)
           | None \<Rightarrow>
               if IsRealityModeWithFakeHandshake (ac_censorship_strategy c) then do {
                 (perform_status, evs) \<leftarrow> Api_PerformFakeHandshake2
                   (ac_censorship_strategy c) (ac_sni c) (ae_fake env);
                 Some (if perform_status
                       then map_prod id (\<lambda>rest. first @ evs @ ClObf (Some Tls2) # rest)
                              (secure_exchange c method_name handle request env)
                       else (response_of (StdException ''Fake handshake failed''), first @ evs))
               }
               else Some (map_prod id (\<lambda>rest. first @ rest) (secure_exchange c method_name handle request env))))"

definition GetImpl :: "api_client \<Rightarrow> string \<Rightarrow> api_env \<Rightarrow> (response \<times> client_event list) option" where
  "GetImpl c handle env = exchange c ''GET'' handle [] env"

definition PostImpl :: "api_client \<Rightarrow> string \<Rightarrow> string \<Rightarrow> api_env \<Rightarrow> (response \<times> client_event list) option" where
  "PostImpl c handle request env = exchange c ''POST'' handle request env"

text \<open>\<open>Get\<close> and \<open>Post\<close> run this in a thread of its own under a time-out; the thread goes on after it.\<close>

definition ExecuteWithTimeout :: "bool \<Rightarrow> 'r \<Rightarrow> 'r \<Rightarrow> 'r" where
  "ExecuteWithTimeout late result timeout_result = (if late then timeout_result else result)"

definition run_request ::
    "(api_env \<Rightarrow> (response \<times> client_event list) option) \<Rightarrow> api_env \<Rightarrow> (response \<times> client_event list) option" where
  "run_request impl env = do {
     (r, evs) \<leftarrow> (if ae_port_open env then impl env
                  else Some (\<lparr>rs_body = [], rs_code = 609, rs_errmsg = ''Port not reachable''\<rparr>, []));
     Some (ExecuteWithTimeout (ae_timeout env) r
             \<lparr>rs_body = [], rs_code = 608, rs_errmsg = ''Operation timeout''\<rparr>, evs)
   }"

definition Get :: "api_client \<Rightarrow> string \<Rightarrow> api_env \<Rightarrow> (response \<times> client_event list) option" where
  "Get c handle env = run_request (GetImpl c handle) env"

definition Post :: "api_client \<Rightarrow> string \<Rightarrow> string \<Rightarrow> api_env \<Rightarrow> (response \<times> client_event list) option" where
  "Post c handle request env = run_request (PostImpl c handle request) env"

text \<open>\<open>AsyncPost\<close> makes no fake handshake and never verifies; every error of a step is a 600 but for
  the resolver.\<close>

definition AsyncPost :: "api_client \<Rightarrow> string \<Rightarrow> string \<Rightarrow> api_env \<Rightarrow> response \<times> client_event list" where
  "AsyncPost c handle request env =
     (let first = [ClObf (if ac_censorship_strategy c = kTlsObfuscator then Some Tls2 else None)] in
      case ae_resolve env of
        Some err \<Rightarrow> (\<lparr>rs_body = [], rs_code = 603, rs_errmsg = err\<rparr>, first)
      | None \<Rightarrow>
          (case ae_connect env of
             Some f \<Rightarrow> (response_of f, first)
           | None \<Rightarrow>
               (case ae_tls env of
                  Some f \<Rightarrow> (response_of f, first @ [ClTls])
                | None \<Rightarrow>
                    (case ae_answer env of Inl f \<Rightarrow> response_of f
                                         | Inr (status, body) \<Rightarrow> \<lparr>rs_body = body, rs_code = status, rs_errmsg = []\<rparr>,
                     first @ [ClTls, ClObf None, ClRequest ''POST'' handle request]))))"

text \<open>The handshake test goes on after a failed fake handshake, and sets no obfuscator after a
  successful one.\<close>

definition TestHandshakeImpl :: "api_client \<Rightarrow> api_env \<Rightarrow> (bool \<times> client_event list) option" where
  "TestHandshakeImpl c env =
     (let first = [ClObf (if ac_censorship_strategy c = kTlsObfuscator then Some Tls2 else None)] in
      if ae_resolve env \<noteq> None \<or> ae_connect env \<noteq> None then Some (False, first)
      else do {
        (fake, evs) \<leftarrow> (if IsRealityModeWithFakeHandshake (ac_censorship_strategy c)
                          then Api_PerformFakeHandshake2 (ac_censorship_strategy c) (ac_sni c) (ae_fake env)
                          else Some (True, []));
        Some (tls_handshake (ac_expected_md5_fingerprint c \<noteq> []) (\<lambda>md5. fst (onVerifyCertificate c md5))
                (ae_fingerprint env) (ae_tls env) = None,
              first @ evs @ [ClTls])
      })"

definition TestHandshake :: "api_client \<Rightarrow> api_env \<Rightarrow> (bool \<times> client_event list) option" where
  "TestHandshake c env = do {
     (r, evs) \<leftarrow> (if ae_port_open env then TestHandshakeImpl c env else Some (False, []));
     Some (ExecuteWithTimeout (ae_timeout env) r False, evs)
   }"

text \<open>The decompression loop: each round is what \<open>inflate\<close> returns and how many bytes it gave out.
  \<open>None\<close>: the rounds ended before the loop.\<close>

datatype inflate_result = Z_OK | Z_STREAM_END | Z_BUF_ERROR | Z_STREAM_ERROR | Z_DATA_ERROR | Z_MEM_ERROR

fun inflate_loop :: "string \<Rightarrow> (inflate_result \<times> string) list \<Rightarrow> string option" where
  "inflate_loop decompressed [] = None"
| "inflate_loop decompressed ((ret, out) # rounds) =
     (if ret = Z_STREAM_ERROR \<or> ret = Z_DATA_ERROR \<or> ret = Z_MEM_ERROR then Some []
      else if ret \<noteq> Z_STREAM_END then inflate_loop (decompressed @ out) rounds
      else Some (decompressed @ out))"

definition DecompressGzip :: "bool \<Rightarrow> (inflate_result \<times> string) list \<Rightarrow> string option" where
  "DecompressGzip init_ok rounds = (if \<not> init_ok then Some [] else inflate_loop [] rounds)"

definition GetHttpBody :: "string option \<Rightarrow> string \<Rightarrow> bool \<Rightarrow> (inflate_result \<times> string) list \<Rightarrow> string option" where
  "GetHttpBody content_encoding body init_ok rounds =
     (if content_encoding = Some ''gzip'' then DecompressGzip init_ok rounds else Some body)"

section \<open>The web socket client's connection\<close>

text \<open>The three callbacks are observations: of them only whether they are set is kept. \<open>co_pool_size\<close> is
  the one field of \<open>Pool\<close>.\<close>

record connection_config =
  co_server_ip :: ip_address
  co_server_port :: u16
  co_sni :: string
  co_md5_fingerprint :: string
  co_censorship_strategy :: censorship_strategy
  co_session_id :: string
  co_send_duration_ms :: u64
  co_ttl_ms :: u64
  co_tun_ipv4 :: ip_address
  co_tun_ipv6 :: ip_address
  co_connection_timeout_ms :: u64
  co_max_reconnections :: u64
  co_on_connected :: bool
  co_recv_ip_packet :: bool
  co_on_socket_opened :: bool
  co_pool_size :: u64

definition ConnectionConfig_Validate :: "connection_config \<Rightarrow> bool" where
  "ConnectionConfig_Validate c \<longleftrightarrow> \<not> (ip_str (co_server_ip c) = [] \<or> co_pool_size c = 0)"

text \<open>The upgrade request, with the headers the decorator sets. \<open>agent\<close> names the platform and version.\<close>

definition upgrade_request :: "connection_config \<Rightarrow> string \<Rightarrow> string \<Rightarrow> http_request" where
  "upgrade_request c jwt_access_token agent =
     (let h = [''Authorization'' \<mapsto> ''Bearer '' @ jwt_access_token, ''X-Serializer'' \<mapsto> ''yaff'', ''Client-Agent'' \<mapsto> agent];
          h = (if co_session_id c \<noteq> [] then h(''SessionID'' \<mapsto> co_session_id c) else h);
          h = (if co_send_duration_ms c > 0 then h(''X-Send-Duration'' \<mapsto> dec_nat (unat (co_send_duration_ms c))) else h);
          h = (if co_ttl_ms c > 0 then h(''X-Ttl'' \<mapsto> dec_nat (unat (co_ttl_ms c))) else h) in
      \<lparr>hr_upgrade = True, hr_method = ''GET'', hr_target = kApiWebSocketUrl, hr_header = h\<rparr>)"

definition verify_fingerprint :: "connection_config \<Rightarrow> string \<Rightarrow> bool" where
  "verify_fingerprint c md5_fingerprint \<longleftrightarrow>
     co_md5_fingerprint c = [] \<or> md5_fingerprint = co_md5_fingerprint c"

text \<open>The outside of a connection. A step that throws counts as failed.\<close>

record ws_env =
  we_resolve :: bool
  we_connect :: bool
  we_fake :: fake_env
  we_fingerprint :: string
  we_tls :: "failure option"
  we_upgrade :: bool
  we_agent :: string

definition Connect :: "connection_config \<Rightarrow> string \<Rightarrow> ws_env \<Rightarrow> (bool \<times> client_event list) option" where
  "Connect c jwt_access_token env =
     (let obfuscator = (if co_censorship_strategy c = kTlsObfuscator then Some Tls2 else None);
          tls = (if tls_handshake True (verify_fingerprint c) (we_fingerprint env) (we_tls env) \<noteq> None
                 then (False, [ClTls])
                 else (we_upgrade env, [ClTls, ClObf None, ClUpgrade (upgrade_request c jwt_access_token (we_agent env))])) in
      if \<not> we_resolve env \<or> \<not> we_connect env then Some (False, [ClObf obfuscator])
      else if IsRealityModeWithFakeHandshake (co_censorship_strategy c) then do {
        (ok, evs) \<leftarrow> Ws_PerformFakeHandshake2 (co_censorship_strategy c) (co_sni c) (we_fake env);
        Some (if ok then (fst tls, ClObf obfuscator # evs @ ClObf (Some Tls2) # snd tls)
              else (False, ClObf obfuscator # evs))
      }
      else Some (fst tls, ClObf obfuscator # (if obfuscator \<noteq> None then [ClObf obfuscator] else []) @ snd tls))"

section \<open>What the server understands\<close>

text \<open>The server reads a client's upgrade request back as it was meant: it goes to the current web
  socket protocol with the yaff serializer, and the parameters of the connection have the client's
  token, its session id (or a random one when it has none), and its two durations.\<close>

theorem upgrade_request_understood:
  "let r = upgrade_request c token agent; p = new_params lib cid remote random (''Bearer '' @ token) r in
     hr_header r ''Authorization'' = Some (''Bearer '' @ token) \<and> ProcessRequest r = ToWebSocket2 \<and>
     hr_header r ''X-Serializer'' = Some ''yaff'' \<and>
     cp_jwt_auth_token p = token \<and> cp_url p = kApiWebSocketUrl \<and>
     cp_session_id p = (if co_session_id c = [] then random else co_session_id c) \<and>
     cp_send_duration_ms p = unat (co_send_duration_ms c) \<and> cp_ttl_ms p = unat (co_ttl_ms c) \<and>
     cp_connection_weight p = 1"
proof -
  let ?r = "upgrade_request c token agent"
  have n: "unat (w :: u64) \<le> 18446744073709551615" for w
    using unsigned_less [of w, where ?'a = nat] by simp
  have ttl: "ParseRequestUint ?r ''X-Ttl'' 0 = co_ttl_ms c"
    using stoull_dec [OF n, of "[]" "co_ttl_ms c"]
    by (auto simp: ParseRequestUint_def upgrade_request_def Let_def word_gt_0)
  have send: "ParseRequestUint ?r ''X-Send-Duration'' 0 = co_send_duration_ms c"
    using stoull_dec [OF n, of "[]" "co_send_duration_ms c"]
    by (auto simp: ParseRequestUint_def upgrade_request_def Let_def word_gt_0)
  have weight: "ParseRequestUint ?r ''ConnectionWeight'' 1 = 1"
    by (simp add: ParseRequestUint_def upgrade_request_def Let_def)
  have sid: "ParseRequestStr ?r ''SessionID'' random = (if co_session_id c = [] then random else co_session_id c)"
    by (simp add: ParseRequestStr_def upgrade_request_def Let_def)
  have rest: "hr_header ?r ''Authorization'' = Some (''Bearer '' @ token)" "hr_header ?r ''X-Serializer'' = Some ''yaff''"
    "hr_upgrade ?r" "hr_target ?r = kApiWebSocketUrl"
    by (simp_all add: upgrade_request_def Let_def)
  have "kApiWebSocketUrl \<noteq> kApiWebSocketUrlOld" by (simp add: kApiWebSocketUrl_def kApiWebSocketUrlOld_def)
  then show ?thesis
    using rest by (simp add: Let_def ProcessRequest_def new_params_def ttl send weight sid bearer_token_def)
qed

section \<open>The two ends of a fake handshake\<close>

text \<open>What is relied on of the generator of browser-like ClientHellos: it writes a ClientHello with the
  given session id.\<close>

definition builder_ok :: "(browser \<Rightarrow> string \<Rightarrow> byte list \<Rightarrow> byte list option) \<Rightarrow> bool" where
  "builder_ok build \<longleftrightarrow>
     (\<forall>b sni sid h. build b sni sid = Some h \<and> length sid = 32 \<longrightarrow>
        IsTlsClientHello h (length h) = Some True \<and> GetTlsSessionId h (length h) = Some sid)"

lemma browser_reality: "browser_of s = Some b \<Longrightarrow> IsRealityModeWithFakeHandshake s"
  by (cases s) (simp_all add: browser_of_def IsRealityModeWithFakeHandshake_def)

lemma hello_nonempty: "IsTlsClientHello h (length h) = Some True \<Longrightarrow> h \<noteq> []"
  by (auto simp: IsTlsClientHello_def)

text \<open>The server's events for a hello that a reality mode recognises.\<close>

lemma run_reality_mode:
  assumes "sha_ok (se_sha env)" "GetTlsSessionId h (length h) = Some sid" "length sid = 32"
    and "se_reality_times env = (now1, now2, now3)"
    and "has_key (se_sha env) 10 now1 sid \<or> has_key (se_sha env) 14 now2 sid"
    and "\<And>name c. \<not> fst (se_self_proxy_again env name c)"
    and "se_fake_handshake env sni" "se_fake_handshake2 env sni"
  shows "\<exists>c. run_reality cfg env h sni cache =
    Some (if has_key (se_sha env) 10 now1 sid then [EvFake sni, EvObfuscator (Some Tls)] @ run_tls env
          else [EvFake2 sni, EvObfuscator (Some Tls2)] @ run_tls env, c)"
proof -
  obtain c where c: "(if sni \<noteq> sc_default_proxy_domain cfg then se_self_proxy_again env sni cache else (False, cache)) = (False, c)"
    using assms(6) by (metis prod.collapse)
  show ?thesis
    using assms c by (auto simp: run_reality_def IsRealityHandshake_eq [OF assms(1,2)])
qed

text \<open>A known hello gets to the reality part, whether or not probing detection is on.\<close>

lemma Run_known:
  assumes "sc_init_completed cfg" "se_obfuscator env = Some None" "sha_ok (se_sha env)" "se_hello env = Some h"
    and "IsTlsClientHello h (length h) = Some True" "GetTlsSessionId h (length h) = Some sid"
    and "probe_known (se_sha env) (se_probe_times env) sid"
  shows "\<exists>name c. Run cfg env cache = map_option (\<lambda>(evs, c). (EvObfuscator None # evs, c)) (run_reality cfg env h name c)"
proof -
  obtain sni_opt where s: "GetTlsSNI h (length h) = Some sni_opt" using GetTlsSNI_defined [of "length h" h] by auto
  let ?n = "client_name cfg sni_opt"
  have r: "Run cfg env cache = map_option (\<lambda>(evs, c). (EvObfuscator None # evs, c)) (run_probing cfg env h ?n cache)"
    using assms(1,2,4,5) hello_nonempty [OF assms(5)] s
    by (cases "run_probing cfg env h ?n cache") (auto simp: Run_def client_name_def Let_def)
  obtain pr c where "DetectProbing (se_self_proxy env) (se_sha env) (se_probe_times env) (sc_default_proxy_domain cfg) h ?n cache =
      Some (pr, c)" "\<not> pr_should_close pr" "\<not> pr_is_probing pr"
    using DetectProbing_spec [OF assms(3,6)] assms(7) by blast
  then have "run_probing cfg env h ?n cache = run_reality cfg env h ?n (if sc_enable_detect_probing cfg then c else cache)"
    by (simp add: run_probing_def)
  then show ?thesis using r by metis
qed

text \<open>The obfuscator in place on either side when the TLS handshake starts.\<close>

fun client_obf :: "obf_method option \<Rightarrow> client_event list \<Rightarrow> obf_method option option" where
  "client_obf cur [] = None"
| "client_obf cur (e # evs) =
     (case e of ClObf q \<Rightarrow> client_obf q evs | ClTls \<Rightarrow> Some cur | _ \<Rightarrow> client_obf cur evs)"

fun server_obf :: "obf_method option \<Rightarrow> session_event list \<Rightarrow> obf_method option option" where
  "server_obf cur [] = None"
| "server_obf cur (e # evs) =
     (case e of EvObfuscator q \<Rightarrow> server_obf q evs | EvTlsHandshake \<Rightarrow> Some cur | _ \<Rightarrow> server_obf cur evs)"

lemma fake_handshake_ok:
  "client_fake_handshake wait strategy sni env = Some (True, evs) \<Longrightarrow> \<exists>h. evs = [ClHello h, ClSpec]"
  by (auto simp: client_fake_handshake_def split: bind_splits if_splits wait_result.splits option.splits)

lemma fake_handshake_no_tls:
  "client_fake_handshake wait strategy sni env = Some (ok, evs) \<Longrightarrow> ClTls \<notin> set evs \<and> ClRequest m u b \<notin> set evs \<and> ClUpgrade r \<notin> set evs"
  by (auto simp: client_fake_handshake_def split: bind_splits if_splits wait_result.splits option.splits)

lemma Connect_reality:
  assumes "Connect c token env = Some (r, evs)" "IsRealityModeWithFakeHandshake (co_censorship_strategy c)" "ClTls \<in> set evs"
  shows "client_obf None evs = Some (Some Tls2)"
proof -
  obtain ok evs1 where f: "client_fake_handshake WaitForServerTlsHelloAsync (co_censorship_strategy c) (co_sni c) (we_fake env) = Some (ok, evs1)"
    using assms by (auto simp: Connect_def Let_def split: bind_splits if_splits)
  have ok using assms f fake_handshake_no_tls [OF f] by (auto simp: Connect_def Let_def split: if_splits)
  then obtain h where "evs1 = [ClHello h, ClSpec]" using f by (auto dest!: fake_handshake_ok)
  then show ?thesis using assms f \<open>ok\<close> by (auto simp: Connect_def Let_def split: if_splits)
qed

text \<open>Both ends of a browser-like fake handshake agree: when the client's ClientHello comes out of
  the generator with a session id of the second decoy form, clocks differ by at most five seconds
  and the random bytes do not happen to be a key of the first form, the server runs the matching
  handshake, and both sides have the same obfuscator in place when the real TLS handshake starts.\<close>

theorem reality_modes_agree:
  assumes "browser_of (co_censorship_strategy c) = Some b" and "builder_ok (fe_build fe)" and "sha_ok (fe_sha fe)"
    and "fe_random fe = Some random" and "length random = 32" and "sid = keyed (fe_sha fe) 14 (fe_now fe) random"
    and "fe_build fe b (co_sni c) sid \<noteq> None" and "GenerateHandshakePacket (co_censorship_strategy c) (co_sni c) fe = Some h"
    and "sc_init_completed cfg" and "se_obfuscator env = Some None" and "se_sha env = fe_sha fe" and "se_hello env = Some h"
    and "- 5 \<le> d" and "d \<le> 5" and "now = fe_now fe + of_int d" and "se_probe_times env = (now, now, now)"
    and "se_reality_times env = (now, now, now)" and "\<not> has_key (fe_sha fe) 10 now sid"
    and "\<And>name c. \<not> fst (se_self_proxy_again env name c)" and "\<And>name. se_fake_handshake env name"
    and "\<And>name. se_fake_handshake2 env name"
    and "Connect c token wenv = Some (r, cevs)" and "ClTls \<in> set cevs"
  shows "\<exists>evs cache'. Run cfg env cache = Some (evs, cache') \<and> (\<exists>name. EvFake2 name \<in> set evs) \<and>
    server_obf None evs = client_obf None cevs \<and> client_obf None cevs = Some (Some Tls2)"
proof -
  have sid: "length sid = 32" "has_key (fe_sha fe) 14 now sid"
    using keyed_facts [OF assms(3,5), of 14 "fe_now fe"] in_window [OF assms(13,14)] assms(6,15)
    unfolding has_key_def by auto
  have "fe_build fe b (co_sni c) sid = Some h"
    using assms(1,4,6-8) issue_exact(3) [OF assms(3,5)] by (auto simp: GenerateHandshakePacket_def)
  then have h: "IsTlsClientHello h (length h) = Some True" "GetTlsSessionId h (length h) = Some sid"
    using assms(2) sid(1) unfolding builder_ok_def by blast+
  have sha: "sha_ok (se_sha env)" using assms(3,11) by simp
  have "probe_known (se_sha env) (se_probe_times env) sid" using sid assms(11,16) by simp
  from Run_known [OF assms(9,10) sha assms(12) h this]
  obtain name c1 where r: "Run cfg env cache = map_option (\<lambda>(evs, c). (EvObfuscator None # evs, c)) (run_reality cfg env h name c1)"
    by blast
  have k: "has_key (se_sha env) 10 now sid \<or> has_key (se_sha env) 14 now sid" using sid(2) assms(11) by simp
  obtain c2 where "run_reality cfg env h name c1 = Some ([EvFake2 name, EvObfuscator (Some Tls2)] @ run_tls env, c2)"
    using run_reality_mode [OF sha h(2) sid(1) assms(17) k assms(19,20,21), where cfg = cfg and cache = c1] assms(11,18) by auto
  moreover have "client_obf None cevs = Some (Some Tls2)"
    by (rule Connect_reality [OF assms(22) browser_reality [OF assms(1)] assms(23)])
  ultimately show ?thesis using r by (auto simp: run_tls_def)
qed

text \<open>A concrete pair: the client hides behind Chrome 149, and the two clocks are three seconds apart.\<close>

definition demo_reality_sid :: "byte list" where
  "demo_reality_sid = keyed demo_sha1 14 100 (replicate 32 7)"

definition demo_client :: connection_config where
  "demo_client = \<lparr>co_server_ip = IPAddress_empty, co_server_port = 443, co_sni = ''ya.r'', co_md5_fingerprint = [], co_censorship_strategy = kSniRealityModeChrome149,
     co_session_id = [], co_send_duration_ms = 0, co_ttl_ms = 0, co_tun_ipv4 = IPAddress_empty, co_tun_ipv6 = IPAddress_empty,
     co_connection_timeout_ms = 10000,
     co_max_reconnections = 5, co_on_connected = True, co_recv_ip_packet = True, co_on_socket_opened = False, co_pool_size = 3\<rparr>"

definition demo_fake :: "byte list \<Rightarrow> fake_env" where
  "demo_fake h = \<lparr>fe_decoy = (\<lambda>_. h), fe_build = (\<lambda>b sni sid. if length sid = 32 then Some (demo_hello sid) else None),
     fe_sha = demo_sha1, fe_now = 100, fe_random = Some (replicate 32 7), fe_hello_written = Some (length h),
     fe_deadline = 5, fe_start = 0, fe_turns = [\<lparr>turn_now = 0, turn_after = 1, turn_io = Received [0x16] Eof\<rparr>],
     fe_spec_written = Some 6\<rparr>"

definition demo_ws :: "byte list \<Rightarrow> ws_env" where
  "demo_ws h = \<lparr>we_resolve = True, we_connect = True, we_fake = demo_fake h, we_fingerprint = ''ab'', we_tls = None,
     we_upgrade = True, we_agent = ''Fptn''\<rparr>"

lemma demo_connects:
  assumes "co_censorship_strategy c = strategy" "IsRealityModeWithFakeHandshake strategy" "co_md5_fingerprint c = []"
    and "GenerateHandshakePacket strategy (co_sni c) (demo_fake h) = Some h" "h \<noteq> []"
  shows "\<exists>evs. Connect c token (demo_ws h) = Some (True, evs) \<and> ClTls \<in> set evs"
  using assms
  by (simp add: Connect_def Let_def demo_ws_def client_fake_handshake_def tls_handshake_def verify_fingerprint_def)
    (simp add: demo_fake_def MakeClientChangeCipherSpec_def)

lemma demo_build_ok: "builder_ok (fe_build (demo_fake h))"
  unfolding builder_ok_def demo_fake_def
  by (auto simp: demo_hello_facts split: if_splits)

lemma demo_reality_sid_facts: "length demo_reality_sid = 32" "\<not> has_key demo_sha1 10 103 demo_reality_sid"
proof -
  show "length demo_reality_sid = 32"
    unfolding demo_reality_sid_def by (simp add: keyed_facts [OF demo_sha1_ok])
  have "take 4 (drop 10 demo_reality_sid) = [7, 7, 7, 7]"
    by (simp add: demo_reality_sid_def keyed_def numeral_eq_Suc)
  moreover have "fptn_key demo_sha1 (103 + 5 - of_nat s) \<noteq> [7, 7, 7, 7]" if "s \<le> 10" for s
  proof -
    have "s = 0 \<or> s = 1 \<or> s = 2 \<or> s = 3 \<or> s = 4 \<or> s = 5 \<or> s = 6 \<or> s = 7 \<or> s = 8 \<or> s = 9 \<or> s = 10"
      using that by presburger
    then show ?thesis by (auto simp: fptn_key_def demo_sha1_def be32_bytes_def)
  qed
  ultimately show "\<not> has_key demo_sha1 10 103 demo_reality_sid"
    unfolding has_key_def window_def by fastforce
qed

theorem reality_modes_agree_witness:
  "\<exists>cevs evs cache. Connect demo_client [] (demo_ws (demo_hello demo_reality_sid)) = Some (True, cevs) \<and>
     Run (demo_cfg True) (demo_env demo_reality_sid) [] = Some (evs, cache) \<and> server_obf None evs = client_obf None cevs"
proof -
  let ?h = "demo_hello demo_reality_sid"
  have l: "length demo_reality_sid < 256" by (simp add: demo_reality_sid_facts)
  note h = demo_hello_facts [OF l]
  have g: "GenerateHandshakePacket (co_censorship_strategy demo_client) (co_sni demo_client) (demo_fake ?h) = Some ?h"
    using demo_reality_sid_facts(1) issue_exact(3) [OF demo_sha1_ok, of "replicate 32 7" 100]
    by (simp add: GenerateHandshakePacket_def demo_client_def browser_of_def demo_fake_def demo_reality_sid_def)
  have "\<exists>cevs. Connect demo_client [] (demo_ws ?h) = Some (True, cevs) \<and> ClTls \<in> set cevs"
    by (rule demo_connects [OF refl _ _ g h(2)])
      (simp_all add: demo_client_def IsRealityModeWithFakeHandshake_def)
  then obtain cevs where c: "Connect demo_client [] (demo_ws ?h) = Some (True, cevs)" "ClTls \<in> set cevs" by blast
  have "\<exists>evs cache'. Run (demo_cfg True) (demo_env demo_reality_sid) [] = Some (evs, cache') \<and>
      (\<exists>name. EvFake2 name \<in> set evs) \<and> server_obf None evs = client_obf None cevs \<and> client_obf None cevs = Some (Some Tls2)"
    by (rule reality_modes_agree [where fe = "demo_fake ?h" and d = 3 and sid = demo_reality_sid and random = "replicate 32 7",
          OF _ demo_build_ok _ _ _ _ _ g _ _ _ _ _ _ _ _ _ _ _ _ _ c])
      (use demo_reality_sid_facts demo_sha1_ok in
        \<open>simp_all add: demo_client_def browser_of_def demo_fake_def demo_env_def demo_cfg_def demo_reality_sid_def\<close>)
  then show ?thesis using c(1) by blast
qed

text \<open>The two ends of the plain reality mode disagree: its ClientHello is the one the library writes
  with a session id of the first decoy form, and when the server recognises it, the server answers
  in its first mode and reads the TLS handshake through the first obfuscator, while the client
  writes it through the second.\<close>

theorem plain_reality_mismatch:
  assumes "co_censorship_strategy c = kSniRealityMode" and "sha_ok (fe_sha fe)" and "length random = 32"
    and "GenerateHandshakePacket kSniRealityMode (co_sni c) fe = Some h"
    and "IsTlsClientHello h (length h) = Some True" and "GetTlsSessionId h (length h) = Some sid"
    and "GenerateDecoyTlsSessionId (fe_sha fe) (fe_now fe) (Some random) = Some (Some sid)"
    and "sc_init_completed cfg" and "se_obfuscator env = Some None" and "se_sha env = fe_sha fe" and "se_hello env = Some h"
    and "- 5 \<le> d" and "d \<le> 5" and "now = fe_now fe + of_int d" and "se_probe_times env = (now, now, now)"
    and "se_reality_times env = (now, now, now)" and "\<And>name c. \<not> fst (se_self_proxy_again env name c)"
    and "\<And>name. se_fake_handshake env name" and "\<And>name. se_fake_handshake2 env name"
    and "Connect c token wenv = Some (r, cevs)" and "ClTls \<in> set cevs"
  shows "\<exists>evs cache'. Run cfg env cache = Some (evs, cache') \<and>
    server_obf None evs = Some (Some Tls) \<and> client_obf None cevs = Some (Some Tls2)"
proof -
  have "sid = keyed (fe_sha fe) 10 (fe_now fe) random" using assms(7) issue_exact(2) [OF assms(2,3)] by simp
  then have sid: "length sid = 32" "has_key (se_sha env) 10 now sid"
    using keyed_facts [OF assms(2,3), of 10 "fe_now fe"] in_window [OF assms(12,13)] assms(10,14)
    unfolding has_key_def by auto
  have sha: "sha_ok (se_sha env)" using assms(2,10) by simp
  have "probe_known (se_sha env) (se_probe_times env) sid" using sid assms(15) by simp
  from Run_known [OF assms(8,9) sha assms(11,5,6) this]
  obtain name c1 where r: "Run cfg env cache = map_option (\<lambda>(evs, c). (EvObfuscator None # evs, c)) (run_reality cfg env h name c1)"
    by blast
  obtain c2 where "run_reality cfg env h name c1 = Some ([EvFake name, EvObfuscator (Some Tls)] @ run_tls env, c2)"
    using run_reality_mode [OF sha assms(6) sid(1) assms(16) disjI1 [OF sid(2)] assms(17-19), where cfg = cfg and cache = c1] sid(2)
    by auto
  moreover have "client_obf None cevs = Some (Some Tls2)"
    by (rule Connect_reality [OF assms(20) _ assms(21)]) (simp add: assms(1) IsRealityModeWithFakeHandshake_def)
  ultimately show ?thesis using r by (auto simp: run_tls_def)
qed

theorem plain_reality_mismatch_witness:
  "\<exists>cevs evs cache. Run (demo_cfg True) (demo_env (keyed demo_sha1 10 100 (replicate 32 7))) [] = Some (evs, cache) \<and>
     server_obf None evs = Some (Some Tls) \<and> client_obf None cevs = Some (Some Tls2) \<and>
     Connect (demo_client\<lparr>co_censorship_strategy := kSniRealityMode\<rparr>) []
       (demo_ws (demo_hello (keyed demo_sha1 10 100 (replicate 32 7)))) = Some (True, cevs)"
proof -
  let ?sid = "keyed demo_sha1 10 100 (replicate 32 7)" and ?c = "demo_client\<lparr>co_censorship_strategy := kSniRealityMode\<rparr>"
  let ?h = "demo_hello ?sid"
  have "length ?sid = 32" by (simp add: keyed_facts [OF demo_sha1_ok])
  then have l: "length ?sid < 256" by simp
  note h = demo_hello_facts [OF l]
  have g: "GenerateHandshakePacket kSniRealityMode (co_sni ?c) (demo_fake ?h) = Some ?h"
    by (simp add: GenerateHandshakePacket_def browser_of_def demo_fake_def)
  have "\<exists>cevs. Connect ?c [] (demo_ws ?h) = Some (True, cevs) \<and> ClTls \<in> set cevs"
    by (rule demo_connects [OF _ _ _ g h(2)]) (simp_all add: demo_client_def IsRealityModeWithFakeHandshake_def)
  then obtain cevs where c: "Connect ?c [] (demo_ws ?h) = Some (True, cevs)" "ClTls \<in> set cevs" by blast
  have "\<exists>evs cache'. Run (demo_cfg True) (demo_env ?sid) [] = Some (evs, cache') \<and>
      server_obf None evs = Some (Some Tls) \<and> client_obf None cevs = Some (Some Tls2)"
    by (rule plain_reality_mismatch [where fe = "demo_fake ?h" and d = 3 and random = "replicate 32 7",
          OF _ _ _ g h(1) h(4) _ _ _ _ _ _ _ _ _ _ _ _ _ c])
      (simp_all add: issue_exact(2) [OF demo_sha1_ok] demo_sha1_ok demo_fake_def demo_env_def demo_cfg_def)
  then show ?thesis using c(1) by blast
qed

section \<open>Requests\<close>

lemma secure_exchange_requests:
  assumes "secure_exchange c m u b env = (r, evs)"
  shows "ClRequest m' u' b' \<in> set evs \<Longrightarrow>
      (ac_expected_md5_fingerprint c = [] \<or> ae_fingerprint env = ac_expected_md5_fingerprint c) \<and> m' = m \<and> u' = u \<and> b' = b"
    and "ClRequest m u b \<notin> set evs \<Longrightarrow> rs_code r \<in> {600, 601, 602} \<and> rs_body r = []"
  using assms
  by (auto simp: secure_exchange_def tls_handshake_def onVerifyCertificate_def response_of_def
      split: option.splits if_splits sum.splits failure.splits)

definition no_request :: "client_event list \<Rightarrow> bool" where
  "no_request evs \<longleftrightarrow> (\<forall>m u b. ClRequest m u b \<notin> set evs)"

lemma exchange_cases:
  assumes "exchange c m u b env = Some (r, evs)"
  shows "rs_code r \<in> {600, 601, 602, 603} \<and> rs_body r = [] \<and> no_request evs \<or>
    (\<exists>prior rest. secure_exchange c m u b env = (r, rest) \<and> evs = prior @ rest \<and> no_request prior \<and>
       (IsRealityModeWithFakeHandshake (ac_censorship_strategy c) \<longrightarrow> ClSpec \<in> set prior))"
proof (cases "ae_resolve env = None \<and> ae_connect env = None")
  case False
  then show ?thesis using assms
    by (auto simp: exchange_def Let_def response_of_def no_request_def split: option.splits failure.splits)
next
  case True
  obtain r1 rest where s: "secure_exchange c m u b env = (r1, rest)" by fastforce
  show ?thesis
  proof (cases "IsRealityModeWithFakeHandshake (ac_censorship_strategy c)")
    case False
    then show ?thesis using assms True s by (auto simp: exchange_def Let_def no_request_def)
  next
    case reality: True
    obtain ok evs1 where f: "client_fake_handshake WaitForServerTlsHello (ac_censorship_strategy c) (ac_sni c) (ae_fake env) = Some (ok, evs1)"
      using assms True reality by (auto simp: exchange_def Let_def split: bind_splits)
    then have n: "no_request evs1" unfolding no_request_def using fake_handshake_no_tls by blast
    show ?thesis
    proof (cases ok)
      case ok: True
      then have spec: "ClSpec \<in> set evs1" using fake_handshake_ok f by fastforce
      let ?prior = "ClObf (if ac_censorship_strategy c = kTlsObfuscator then Some Tls2 else None) # evs1 @ [ClObf (Some Tls2)]"
      have "r = r1 \<and> evs = ?prior @ rest" using assms True reality f ok s by (auto simp: exchange_def Let_def)
      moreover have "no_request ?prior \<and> ClSpec \<in> set ?prior" using n spec by (simp add: no_request_def)
      ultimately show ?thesis using s by blast
    next
      case False
      then show ?thesis using assms True reality f n
        by (auto simp: exchange_def Let_def response_of_def no_request_def)
    qed
  qed
qed

lemma run_request_cases:
  assumes "run_request impl env = Some (r, evs)"
  shows "(\<exists>r1. ae_port_open env \<and> impl env = Some (r1, evs) \<and> (r = r1 \<or> rs_code r = 608 \<and> rs_body r = [])) \<or>
     \<not> ae_port_open env \<and> evs = [] \<and> rs_code r \<in> {608, 609} \<and> rs_body r = []"
  using assms by (auto simp: run_request_def ExecuteWithTimeout_def split: bind_splits if_splits)

lemma exchange_verified:
  assumes "run_request (exchange c m u b) env = Some (r, evs)"
  shows "ClRequest m' u' b' \<in> set evs \<Longrightarrow> ae_port_open env \<and> m' = m \<and> u' = u \<and> b' = b \<and>
      (ac_expected_md5_fingerprint c = [] \<or> ae_fingerprint env = ac_expected_md5_fingerprint c) \<and>
      (IsRealityModeWithFakeHandshake (ac_censorship_strategy c) \<longrightarrow> ClSpec \<in> set evs)"
    and "no_request evs \<Longrightarrow> rs_code r \<in> {600, 601, 602, 603, 608, 609} \<and> rs_body r = []"
proof -
  assume e: "ClRequest m' u' b' \<in> set evs"
  with run_request_cases [OF assms] obtain r1 where o: "ae_port_open env" "exchange c m u b env = Some (r1, evs)" by auto
  have "\<not> no_request evs" using e unfolding no_request_def by blast
  with exchange_cases [OF o(2)] obtain prior rest where p: "secure_exchange c m u b env = (r1, rest)" "evs = prior @ rest"
    "no_request prior" "IsRealityModeWithFakeHandshake (ac_censorship_strategy c) \<longrightarrow> ClSpec \<in> set prior" by blast
  then have "ClRequest m' u' b' \<in> set rest" using e unfolding no_request_def by auto
  from secure_exchange_requests(1) [OF p(1) this] show "ae_port_open env \<and> m' = m \<and> u' = u \<and> b' = b \<and>
      (ac_expected_md5_fingerprint c = [] \<or> ae_fingerprint env = ac_expected_md5_fingerprint c) \<and>
      (IsRealityModeWithFakeHandshake (ac_censorship_strategy c) \<longrightarrow> ClSpec \<in> set evs)"
    using o(1) p(2,4) by auto
next
  assume n: "no_request evs"
  show "rs_code r \<in> {600, 601, 602, 603, 608, 609} \<and> rs_body r = []"
  proof (cases "\<exists>r1. ae_port_open env \<and> exchange c m u b env = Some (r1, evs)")
    case True
    then obtain r1 where o: "exchange c m u b env = Some (r1, evs)" "ae_port_open env" by blast
    have "rs_code r1 \<in> {600, 601, 602, 603} \<and> rs_body r1 = []"
      using exchange_cases [OF o(1)]
    proof
      assume "\<exists>prior rest. secure_exchange c m u b env = (r1, rest) \<and> evs = prior @ rest \<and> no_request prior \<and>
         (IsRealityModeWithFakeHandshake (ac_censorship_strategy c) \<longrightarrow> ClSpec \<in> set prior)"
      then obtain prior rest where p: "secure_exchange c m u b env = (r1, rest)" "evs = prior @ rest" by blast
      then have "ClRequest m u b \<notin> set rest" using n unfolding no_request_def by auto
      from secure_exchange_requests(2) [OF p(1) this] show ?thesis by auto
    qed simp
    then show ?thesis using run_request_cases [OF assms] o by auto
  next
    case False
    then show ?thesis using run_request_cases [OF assms] by auto
  qed
qed


definition demo_api :: api_client where
  "demo_api = \<lparr>ac_host = ''s'', ac_port = 443, ac_sni = ''ya.r'', ac_expected_md5_fingerprint = ''ab'', ac_censorship_strategy = kSni\<rparr>"

definition demo_api_env :: "string \<Rightarrow> api_env" where
  "demo_api_env md5 = \<lparr>ae_port_open = True, ae_resolve = None, ae_connect = None, ae_fake = demo_fake [], ae_fingerprint = md5,
     ae_tls = None, ae_answer = Inr (200, ''ok''), ae_timeout = False\<rparr>"

lemma demo_posts:
  "Post demo_api ''/login'' ''x'' (demo_api_env ''cd'') =
     Some (\<lparr>rs_body = [], rs_code = 600, rs_errmsg = ''certificate verify failed''\<rparr>, [ClObf None, ClTls])"
  "Post demo_api ''/login'' ''x'' (demo_api_env ''ab'') =
     Some (\<lparr>rs_body = ''ok'', rs_code = 200, rs_errmsg = []\<rparr>, [ClObf None, ClTls, ClObf None, ClRequest ''POST'' ''/login'' ''x''])"
  by (simp_all add: Post_def run_request_def PostImpl_def exchange_def demo_api_def demo_api_env_def
      IsRealityModeWithFakeHandshake_def secure_exchange_def tls_handshake_def onVerifyCertificate_def response_of_def
      ExecuteWithTimeout_def)


end
