(* ===== verification/ClientSocket.thy ===== *)
theory ClientSocket
  imports ClientHandshake
begin

text \<open>
  The web socket client \<open>src/fptn-protocol-lib/https/websocket_client/websocket_client.cpp\<close> once it is
  created: its flags, its queue, and the coroutines that connect, read and send. A coroutine is
  the sequence of its turns, from one suspension to the next; \<open>ws_step\<close> interleaves them with the
  watchdog and with calls from other threads. The serializer is the record \<open>yaff\<close> of functions.
\<close>

section \<open>State\<close>

text \<open>Where the coroutine that \<open>Run\<close> starts is.\<close>

datatype ws_phase = NotSpawned | Connecting | Assigning | Done

record ws_client =
  wc_running :: bool
  wc_was_stopped :: bool
  wc_was_inited :: bool
  wc_was_connected :: bool
  wc_ip_assigned :: bool
  wc_phase :: ws_phase
  wc_watchdog :: bool
  wc_reader :: bool
  wc_sender :: bool
  wc_channel_open :: bool
  wc_channel :: "ip_packet option list"
  wc_assigned_ipv4 :: ip_address
  wc_assigned_ipv6 :: ip_address

definition kMaxSizeOutQueue :: nat where "kMaxSizeOutQueue = 256"
definition kMaxClientBatchSize :: nat where "kMaxClientBatchSize = 32"

definition WebsocketClient_new :: ws_client where
  "WebsocketClient_new =
     \<lparr>wc_running = False, wc_was_stopped = False, wc_was_inited = False, wc_was_connected = False,
      wc_ip_assigned = False, wc_phase = NotSpawned, wc_watchdog = False, wc_reader = False, wc_sender = False,
      wc_channel_open = True, wc_channel = [], wc_assigned_ipv4 = IPAddress_empty, wc_assigned_ipv6 = IPAddress_empty\<rparr>"

record yaff =
  yf_batch :: "byte list \<Rightarrow> byte list list"
  yf_serialize :: "ip_packet list \<Rightarrow> byte list option"
  yf_assignment :: "byte list \<Rightarrow> (string \<times> string) option"

section \<open>Calls\<close>

definition Ws_IsStarted :: "ws_client \<Rightarrow> bool" where
  "Ws_IsStarted c \<longleftrightarrow> wc_running c \<and> wc_was_connected c"

definition Ws_IsStopped :: "ws_client \<Rightarrow> bool" where
  "Ws_IsStopped c \<longleftrightarrow> wc_was_stopped c"

definition Ws_Run :: "ws_client \<Rightarrow> ws_client" where
  "Ws_Run c = (if wc_running c then c else c\<lparr>wc_running := True, wc_phase := Connecting\<rparr>)"

text \<open>Closing the sockets shows in the results of later reads and writes only.\<close>

definition Ws_Stop :: "ws_client \<Rightarrow> bool \<times> ws_client" where
  "Ws_Stop c =
     (if \<not> wc_running c then (False, c)
      else
        let c = c\<lparr>wc_running := False, wc_was_connected := False, wc_watchdog := False\<rparr>;
            c = (if wc_was_inited c then c\<lparr>wc_channel_open := False\<rparr> else c) in
        (True, c\<lparr>wc_was_stopped := True\<rparr>))"

definition Ws_Send :: "ip_packet option \<Rightarrow> ws_client \<Rightarrow> bool \<times> ws_client" where
  "Ws_Send packet c =
     (if \<not> wc_running c \<or> \<not> wc_was_connected c then (False, c)
      else if wc_channel_open c \<and> length (wc_channel c) < kMaxSizeOutQueue
      then (True, c\<lparr>wc_channel := wc_channel c @ [packet]\<rparr>)
      else (False, c))"

section \<open>Connecting\<close>

text \<open>What is left of \<open>Connect\<close> in the state; its dealings with the wire are in \<open>ClientHandshake\<close>. A
  coroutine that fails stops the client.\<close>

definition connect_turn :: "bool \<Rightarrow> ws_client \<Rightarrow> ws_client" where
  "connect_turn connected c =
     (if connected then c\<lparr>wc_was_connected := True, wc_phase := Assigning\<rparr>
      else snd (Ws_Stop (c\<lparr>wc_phase := Done\<rparr>)))"

text \<open>\<open>None\<close> is a read that failed.\<close>

definition ReceiveIPAssignment :: "netlib \<Rightarrow> yaff \<Rightarrow> byte list option \<Rightarrow> ws_client \<Rightarrow> bool \<times> ws_client" where
  "ReceiveIPAssignment lib y message c =
     (case message of
        None \<Rightarrow> (False, c)
      | Some buffer \<Rightarrow>
          if buffer = [] then (False, c)
          else
            (case yf_assignment y buffer of
               None \<Rightarrow> (False, c)
             | Some (ipv4_str, ipv6_str) \<Rightarrow>
                 if ipv4_str = [] \<or> ipv6_str = [] then (False, c)
                 else (True, c\<lparr>wc_ip_assigned := True, wc_assigned_ipv4 := IPv4Address_new lib ipv4_str,
                                wc_assigned_ipv6 := IPv6Address_new lib ipv6_str\<rparr>)))"

definition StartWatchdog :: "ws_client \<Rightarrow> ws_client" where
  "StartWatchdog c = (if \<not> wc_running c then c else c\<lparr>wc_watchdog := True\<rparr>)"

text \<open>The timer's handler; \<open>Stop\<close> cancels a pending timer.\<close>

definition watchdog_fires :: "ws_client \<Rightarrow> ws_client" where
  "watchdog_fires c =
     (let c = c\<lparr>wc_watchdog := False\<rparr> in
      if wc_running c \<and> \<not> wc_was_connected c then snd (Ws_Stop c)
      else if wc_running c then StartWatchdog c
      else c)"

definition assign_turn :: "netlib \<Rightarrow> yaff \<Rightarrow> byte list option \<Rightarrow> ws_client \<Rightarrow> ws_client" where
  "assign_turn lib y message c =
     (let (ip_assigned, c) = ReceiveIPAssignment lib y message c; c = c\<lparr>wc_phase := Done\<rparr> in
      if \<not> ip_assigned then snd (Ws_Stop c)
      else (StartWatchdog c)\<lparr>wc_was_inited := True, wc_reader := True, wc_sender := True\<rparr>)"

section \<open>Reading\<close>

datatype read_outcome = ReadFailed | ReadMessage "byte list"

text \<open>A packet of a message, with its destination set to the address of the tunnel's interface. The
  outer option is an access outside the packet.\<close>

definition inbound :: "netlib \<Rightarrow> connection_config \<Rightarrow> byte list \<Rightarrow> ip_packet option option" where
  "inbound lib cfg raw =
     (case IPPacket_Parse raw FPTN_PACKET_UNDEFINED_CLIENT_ID of
        None \<Rightarrow> Some None
      | Some packet \<Rightarrow>
          if \<not> co_recv_ip_packet cfg then Some None
          else if IsIPv4 packet then map_option Some (SetDstIPv4Address (co_tun_ipv4 cfg) packet)
          else if IsIPv6 packet then map_option Some (SetDstIPv6Address lib (co_tun_ipv6 cfg) packet)
          else Some None)"

fun handle_all :: "('a \<Rightarrow> 'b option option) \<Rightarrow> 'a list \<Rightarrow> 'b list option" where
  "handle_all f [] = Some []"
| "handle_all f (x # xs) = do { r \<leftarrow> f x; rs \<leftarrow> handle_all f xs; Some (case r of None \<Rightarrow> rs | Some p \<Rightarrow> p # rs) }"

text \<open>One turn of the reader's loop: the packets handed to the callback, and the state after it.\<close>

definition reader_ends :: "ws_client \<Rightarrow> ws_client" where
  "reader_ends c = c\<lparr>wc_was_connected := False, wc_reader := False\<rparr>"

definition reader_turn ::
    "netlib \<Rightarrow> yaff \<Rightarrow> connection_config \<Rightarrow> bool \<Rightarrow> read_outcome \<Rightarrow> ws_client \<Rightarrow> (ip_packet list \<times> ws_client) option" where
  "reader_turn lib y cfg is_open outcome c =
     (if \<not> (wc_running c \<and> wc_was_connected c \<and> is_open) then Some ([], reader_ends c)
      else
        (case outcome of
           ReadFailed \<Rightarrow> Some ([], reader_ends c)
         | ReadMessage buffer \<Rightarrow>
             if buffer = [] then Some ([], c)
             else map_option (\<lambda>packets. (packets, c)) (handle_all (inbound lib cfg) (yf_batch y buffer))))"

section \<open>Sending\<close>

text \<open>A packet with its source set to the assigned address; \<open>Some None\<close> is a packet that is dropped.\<close>

definition outbound :: "netlib \<Rightarrow> ws_client \<Rightarrow> ip_packet option \<Rightarrow> ip_packet option option" where
  "outbound lib c pkt =
     (case pkt of
        None \<Rightarrow> Some None
      | Some packet \<Rightarrow>
          if IsIPv4 packet then map_option Some (SetSrcIPv4Address (wc_assigned_ipv4 c) packet)
          else if IsIPv6 packet then map_option Some (SetSrcIPv6Address lib (wc_assigned_ipv6 c) packet)
          else Some None)"

fun fill_client_batch ::
    "(ip_packet option \<Rightarrow> ip_packet option option) \<Rightarrow> ip_packet list \<Rightarrow> ip_packet option list \<Rightarrow>
     (ip_packet list \<times> ip_packet option list) option" where
  "fill_client_batch f packets [] = Some (packets, [])"
| "fill_client_batch f packets (p # channel) =
     (if length packets < kMaxClientBatchSize then do {
        r \<leftarrow> f p;
        fill_client_batch f (case r of None \<Rightarrow> packets | Some q \<Rightarrow> packets @ [q]) channel
      }
      else Some (packets, p # channel))"

text \<open>The batch a turn of the sender collects. A first packet that is dropped ends the turn.\<close>

definition client_batch :: "netlib \<Rightarrow> ws_client \<Rightarrow> (ip_packet list \<times> ip_packet option list) option" where
  "client_batch lib c =
     (case wc_channel c of
        [] \<Rightarrow> Some ([], [])
      | pkt # channel \<Rightarrow> do {
          r \<leftarrow> outbound lib c pkt;
          (case r of
             None \<Rightarrow> Some ([], channel)
           | Some packet \<Rightarrow> fill_client_batch (outbound lib c) [packet] channel)
        })"

definition sender_ends :: "ws_client \<Rightarrow> ws_client" where
  "sender_ends c = c\<lparr>wc_was_connected := False, wc_sender := False\<rparr>"

text \<open>One turn of the sender: the packets of the message written, if one was. \<open>write_ok\<close> is the outcome of
  the write. On an empty open channel the sender waits and there is no turn.\<close>

definition sender_turn ::
    "netlib \<Rightarrow> yaff \<Rightarrow> bool \<Rightarrow> bool \<Rightarrow> ws_client \<Rightarrow> (ip_packet list \<times> ws_client) option" where
  "sender_turn lib y is_open write_ok c =
     (if \<not> (wc_running c \<and> wc_was_connected c \<and> is_open) then Some ([], sender_ends c)
      else do {
        (packets, channel) \<leftarrow> client_batch lib c;
        let c = c\<lparr>wc_channel := channel\<rparr> in
        Some (if packets = [] \<or> yf_serialize y packets = None then ([], c)
              else if write_ok then (packets, c) else ([], sender_ends c))
      })"

section \<open>Interleavings\<close>

text \<open>The life of a client: \<open>Run\<close> is called once, right after construction, as all strategies do;
  everything else happens in any order. A turn that would touch memory outside a packet is no step;
  \<open>reader_rewrites\<close> and \<open>sender_batches\<close> say when there is none.\<close>

inductive ws_step :: "netlib \<Rightarrow> yaff \<Rightarrow> connection_config \<Rightarrow> ws_client \<Rightarrow> ws_client \<Rightarrow> bool"
  for lib :: netlib and y :: yaff and cfg :: connection_config where
  step_run: "\<not> wc_was_stopped c \<Longrightarrow> wc_phase c = NotSpawned \<Longrightarrow> ws_step lib y cfg c (Ws_Run c)"
| step_stop: "ws_step lib y cfg c (snd (Ws_Stop c))"
| step_send: "ws_step lib y cfg c (snd (Ws_Send pkt c))"
| step_connect: "wc_phase c = Connecting \<Longrightarrow> ws_step lib y cfg c (connect_turn ok c)"
| step_assign: "wc_phase c = Assigning \<Longrightarrow> ws_step lib y cfg c (assign_turn lib y message c)"
| step_watchdog: "wc_watchdog c \<Longrightarrow> ws_step lib y cfg c (watchdog_fires c)"
| step_reader: "wc_reader c \<Longrightarrow> reader_turn lib y cfg is_open outcome c = Some (packets, c') \<Longrightarrow> ws_step lib y cfg c c'"
| step_sender: "wc_sender c \<Longrightarrow> wc_channel c \<noteq> [] \<or> \<not> wc_channel_open c \<or> \<not> wc_running c \<or> \<not> wc_was_connected c \<Longrightarrow>
    sender_turn lib y is_open write_ok c = Some (packets, c') \<Longrightarrow> ws_step lib y cfg c c'"

inductive ws_reachable :: "netlib \<Rightarrow> yaff \<Rightarrow> connection_config \<Rightarrow> ws_client \<Rightarrow> bool"
  for lib :: netlib and y :: yaff and cfg :: connection_config where
  ws_init: "ws_reachable lib y cfg WebsocketClient_new"
| ws_next: "ws_reachable lib y cfg c \<Longrightarrow> ws_step lib y cfg c c' \<Longrightarrow> ws_reachable lib y cfg c'"

inductive_cases ws_step_cases: "ws_step lib y cfg c c'"

section \<open>The life of a client\<close>

definition ws_inv :: "ws_client \<Rightarrow> bool" where
  "ws_inv c \<longleftrightarrow>
     (case wc_phase c of
        NotSpawned \<Rightarrow> \<not> wc_running c \<and> \<not> wc_was_stopped c \<and> \<not> wc_was_connected c
      | Connecting \<Rightarrow> wc_was_stopped c = (\<not> wc_running c) \<and> \<not> wc_was_connected c
      | Assigning \<Rightarrow> wc_was_stopped c = (\<not> wc_running c) \<and> (wc_running c \<longrightarrow> wc_was_connected c)
      | Done \<Rightarrow> wc_was_stopped c = (\<not> wc_running c) \<and> wc_watchdog c = wc_running c \<and>
          (wc_running c \<longrightarrow> wc_was_inited c) \<and> (wc_running c \<and> wc_was_connected c \<longrightarrow> wc_reader c \<and> wc_sender c)) \<and>
     (wc_phase c \<noteq> Done \<longrightarrow> \<not> wc_watchdog c \<and> \<not> wc_reader c \<and> \<not> wc_sender c \<and> \<not> wc_was_inited c) \<and>
     length (wc_channel c) \<le> kMaxSizeOutQueue"

named_theorems ws_defs \<open>the operations of a web socket client\<close>
lemmas [ws_defs] = Ws_IsStarted_def Ws_IsStopped_def Ws_Run_def Ws_Stop_def Ws_Send_def connect_turn_def StartWatchdog_def
  watchdog_fires_def assign_turn_def reader_ends_def sender_ends_def Let_def

lemma ws_inv_assigned:
  "ws_inv (c\<lparr>wc_ip_assigned := b, wc_assigned_ipv4 := v4, wc_assigned_ipv6 := v6\<rparr>) = ws_inv c"
  by (cases "wc_phase c") (simp_all add: ws_inv_def)

lemma ReceiveIPAssignment_keeps:
  assumes "ReceiveIPAssignment lib y message c = (ok, c')"
  shows "ws_inv c' = ws_inv c \<and> wc_phase c' = wc_phase c \<and> wc_running c' = wc_running c \<and>
    wc_was_stopped c' = wc_was_stopped c"
  using assms by (auto simp: ReceiveIPAssignment_def ws_inv_assigned split: option.splits if_splits)

lemma ws_inv_Stop: "ws_inv c \<Longrightarrow> ws_inv (snd (Ws_Stop c))"
  by (cases "wc_phase c") (auto simp: ws_inv_def Ws_Stop_def Let_def)

lemma fill_client_batch_spec:
  assumes "fill_client_batch f packets channel = Some (ps, channel')" "length packets \<le> kMaxClientBatchSize"
  shows "\<exists>taken rest. channel = taken @ channel' \<and> handle_all f taken = Some rest \<and> ps = packets @ rest \<and>
     length ps \<le> kMaxClientBatchSize"
  using assms
proof (induction packets channel arbitrary: rule: fill_client_batch.induct)
  case (2 f packets p channel)
  show ?case
  proof (cases "length packets < kMaxClientBatchSize")
    case True
    then obtain r where r: "f p = Some r"
      "fill_client_batch f (case r of None \<Rightarrow> packets | Some q \<Rightarrow> packets @ [q]) channel = Some (ps, channel')"
      using "2.prems" by (auto split: bind_splits)
    have "length (case r of None \<Rightarrow> packets | Some q \<Rightarrow> packets @ [q]) \<le> kMaxClientBatchSize"
      using True by (simp split: option.splits)
    from "2.IH" [OF True r(1) r(2) this] obtain taken rest where "channel = taken @ channel'" "handle_all f taken = Some rest"
      "ps = (case r of None \<Rightarrow> packets | Some q \<Rightarrow> packets @ [q]) @ rest" "length ps \<le> kMaxClientBatchSize" by blast
    then show ?thesis using r(1)
      by (intro exI [of _ "p # taken"] exI [of _ "case r of None \<Rightarrow> rest | Some q \<Rightarrow> q # rest"]) (auto split: option.splits)
  next
    case False
    then show ?thesis using "2.prems" by (intro exI [of _ "[]"]) auto
  qed
qed (intro exI [of _ "[]"], auto)

lemma client_batch_spec:
  assumes "client_batch lib c = Some (ps, channel)"
  shows "\<exists>taken. wc_channel c = taken @ channel \<and> handle_all (outbound lib c) taken = Some ps \<and>
     length ps \<le> kMaxClientBatchSize \<and> (taken = [] \<longrightarrow> wc_channel c = [])"
proof (cases "wc_channel c")
  case Nil
  then show ?thesis using assms by (simp add: client_batch_def)
next
  case (Cons pkt ch)
  then obtain r where r: "outbound lib c pkt = Some r"
    "(case r of None \<Rightarrow> Some ([], ch) | Some packet \<Rightarrow> fill_client_batch (outbound lib c) [packet] ch) = Some (ps, channel)"
    using assms by (auto simp: client_batch_def split: bind_splits)
  show ?thesis
  proof (cases r)
    case None
    then show ?thesis using r Cons by (intro exI [of _ "[pkt]"]) auto
  next
    case (Some packet)
    then obtain taken rest where "ch = taken @ channel" "handle_all (outbound lib c) taken = Some rest" "ps = packet # rest"
      "length ps \<le> kMaxClientBatchSize"
      using r(2) fill_client_batch_spec [of "outbound lib c" "[packet]" ch ps channel] by (auto simp: kMaxClientBatchSize_def)
    then show ?thesis using r(1) Some Cons by (intro exI [of _ "pkt # taken"]) auto
  qed
qed

lemma ws_inv_sender:
  assumes "sender_turn lib y is_open write_ok c = Some (packets, c')" "ws_inv c" "wc_sender c"
  shows "ws_inv c'"
proof (cases "wc_running c \<and> wc_was_connected c \<and> is_open")
  case True
  then obtain ps channel where b: "client_batch lib c = Some (ps, channel)"
    "c' = c\<lparr>wc_channel := channel\<rparr> \<or> c' = sender_ends (c\<lparr>wc_channel := channel\<rparr>)"
    using assms(1) by (auto simp: sender_turn_def Let_def split: bind_splits if_splits)
  have "length channel \<le> length (wc_channel c)" using client_batch_spec [OF b(1)] by auto
  then show ?thesis using b(2) assms(2,3) by (cases "wc_phase c") (auto simp: ws_inv_def sender_ends_def)
next
  case False
  then have "c' = sender_ends c" using assms(1) by (auto simp: sender_turn_def)
  then show ?thesis using assms(2,3) by (cases "wc_phase c") (auto simp: ws_inv_def sender_ends_def)
qed

lemma ws_inv_step: "ws_step lib y cfg c c' \<Longrightarrow> ws_inv c \<Longrightarrow> ws_inv c'"
proof (induction rule: ws_step.induct)
  case (step_stop c)
  then show ?case by (rule ws_inv_Stop)
next
  case (step_connect c ok)
  then show ?case by (auto simp: ws_inv_def ws_defs)
next
  case (step_assign c message)
  obtain ok c1 where a: "ReceiveIPAssignment lib y message c = (ok, c1)" by fastforce
  then have "ws_inv c1" "wc_phase c1 = Assigning"
    using step_assign by (auto dest!: ReceiveIPAssignment_keeps)
  then show ?case using a by (auto simp: ws_inv_def ws_defs)
next
  case (step_reader c is_open outcome packets c')
  then have "c' = c \<or> c' = reader_ends c"
    by (auto simp: reader_turn_def split: if_splits read_outcome.splits)
  then show ?case using step_reader(1,3) by (cases "wc_phase c") (auto simp: ws_inv_def reader_ends_def)
next
  case (step_sender c is_open write_ok packets c')
  then show ?case by (blast intro: ws_inv_sender)
next
  case (step_send c pkt)
  have "ws_inv (c\<lparr>wc_channel := ch\<rparr>) \<longleftrightarrow> ws_inv c" if "length (wc_channel c) \<le> 256" "length ch \<le> 256" for ch
    using that by (cases "wc_phase c") (simp_all add: ws_inv_def kMaxSizeOutQueue_def)
  moreover have "length (wc_channel c) \<le> 256" using step_send by (simp add: ws_inv_def kMaxSizeOutQueue_def)
  ultimately show ?case using step_send by (auto simp: Ws_Send_def kMaxSizeOutQueue_def)
qed (auto simp: ws_inv_def ws_defs)

lemma ws_inv_reachable: "ws_reachable lib y cfg c \<Longrightarrow> ws_inv c"
proof (induction rule: ws_reachable.induct)
  case ws_init
  then show ?case by (simp add: ws_inv_def WebsocketClient_new_def)
qed (rule ws_inv_step)

lemma ws_stopped_final:
  assumes "ws_step lib y cfg c c'" "ws_inv c" "wc_was_stopped c"
  shows "wc_was_stopped c' \<and> \<not> wc_running c'"
proof -
  have "\<not> wc_running c" using assms(2,3) by (cases "wc_phase c") (auto simp: ws_inv_def)
  from assms(1,3) this show ?thesis
  proof (induction rule: ws_step.induct)
    case (step_assign c message)
    obtain ok c1 where a: "ReceiveIPAssignment lib y message c = (ok, c1)" by fastforce
    then show ?case using step_assign by (auto simp: ws_defs dest!: ReceiveIPAssignment_keeps)
  qed (auto simp: ws_defs reader_turn_def sender_turn_def)
qed

section \<open>Properties\<close>


lemma demo_reachable_run: "ws_reachable lib y cfg (Ws_Run WebsocketClient_new)"
  by (rule ws_next [OF ws_init step_run]) (simp_all add: WebsocketClient_new_def)


text \<open>A lost connection does not go unnoticed: once a client has been told its addresses, as long as
  it is running the watchdog's timer is pending; when the reader or the sender has ended, the
  client no longer counts as started, and when the timer fires then, the client is stopped, which
  is what the strategies look for; when it fires otherwise, nothing changes.\<close>

theorem lost_connection_noticed:
  assumes "ws_reachable lib y cfg c" and "wc_phase c = Done" and "wc_running c"
  shows "wc_watchdog c \<and> (\<not> wc_reader c \<or> \<not> wc_sender c \<longrightarrow> \<not> Ws_IsStarted c) \<and>
    (if Ws_IsStarted c then watchdog_fires c = c else Ws_IsStopped (watchdog_fires c))"
proof -
  have "ws_inv c" by (rule ws_inv_reachable [OF assms(1)])
  then have "wc_watchdog c" "\<not> wc_reader c \<or> \<not> wc_sender c \<longrightarrow> \<not> wc_was_connected c"
    using assms(2,3) by (auto simp: ws_inv_def)
  then show ?thesis using assms(3) by (auto simp: ws_defs)
qed

definition demo_yaff :: yaff where
  "demo_yaff = \<lparr>yf_batch = (\<lambda>b. [b]), yf_serialize = (\<lambda>ps. Some (concat (map pkt_data ps))),
     yf_assignment = (\<lambda>_. Some (''10.0.0.9'', ''fd00::9''))\<rparr>"

definition demo_connected :: ws_client where
  "demo_connected = assign_turn demo_lib demo_yaff (Some [1]) (connect_turn True (Ws_Run WebsocketClient_new))"

lemma demo_connected_facts:
  "ws_reachable demo_lib demo_yaff demo_client demo_connected" "wc_phase demo_connected = Done" "wc_running demo_connected"
  "wc_was_connected demo_connected" "wc_reader demo_connected"
proof -
  have p: "wc_phase (Ws_Run WebsocketClient_new) = Connecting"
    "wc_phase (connect_turn True (Ws_Run WebsocketClient_new)) = Assigning"
    by (simp_all add: ws_defs WebsocketClient_new_def)
  show "ws_reachable demo_lib demo_yaff demo_client demo_connected"
    unfolding demo_connected_def by (rule ws_next [OF ws_next [OF demo_reachable_run step_connect [OF p(1)]] step_assign [OF p(2)]])
qed (simp_all add: demo_connected_def ws_defs WebsocketClient_new_def ReceiveIPAssignment_def demo_yaff_def)

theorem lost_connection_noticed_witness:
  "ws_reachable demo_lib demo_yaff demo_client (reader_ends demo_connected) \<and> Ws_IsStopped (watchdog_fires (reader_ends demo_connected))"
proof -
  have "reader_turn demo_lib demo_yaff demo_client True ReadFailed demo_connected = Some ([], reader_ends demo_connected)"
    by (simp add: reader_turn_def)
  from ws_next [OF demo_connected_facts(1) step_reader [OF demo_connected_facts(5) this]]
  have r: "ws_reachable demo_lib demo_yaff demo_client (reader_ends demo_connected)" .
  have "wc_phase (reader_ends demo_connected) = Done" "wc_running (reader_ends demo_connected)"
    "\<not> Ws_IsStarted (reader_ends demo_connected)"
    using demo_connected_facts by (simp_all add: ws_defs)
  then have "Ws_IsStopped (watchdog_fires (reader_ends demo_connected))"
    using lost_connection_noticed [OF r] by metis
  then show ?thesis using r by blast
qed

section \<open>Packets\<close>

text \<open>The IPv4 packets that are rewritten: a sound header and a time to live.\<close>

definition rewritable :: "ip_packet \<Rightarrow> bool" where
  "rewritable p \<longleftrightarrow> sound_ipv4 p \<and> pkt_data p ! 8 \<noteq> 0"

definition wears_source :: "netlib \<Rightarrow> ip_address \<Rightarrow> ip_packet \<Rightarrow> ip_packet \<Rightarrow> bool" where
  "wears_source lib a p q \<longleftrightarrow> sums_ok4 q \<and> Size q = Size p \<and> GetDstIPv4Address lib q = GetDstIPv4Address lib p \<and>
     map_option IPAddress_ToInt (GetSrcIPv4Address lib q) = Some (IPAddress_ToInt a)"

definition wears_destination :: "netlib \<Rightarrow> ip_address \<Rightarrow> ip_packet \<Rightarrow> ip_packet \<Rightarrow> bool" where
  "wears_destination lib a p q \<longleftrightarrow> sums_ok4 q \<and> Size q = Size p \<and> GetSrcIPv4Address lib q = GetSrcIPv4Address lib p \<and>
     map_option IPAddress_ToInt (GetDstIPv4Address lib q) = Some (IPAddress_ToInt a)"

lemma outbound_rewritable:
  assumes "netlib_ok lib" "rewritable p"
  shows "\<exists>q. outbound lib c (Some p) = Some (Some q) \<and> wears_source lib (wc_assigned_ipv4 c) p q"
  using set_src_ipv4_aux [OF assms(1), of p "wc_assigned_ipv4 c"] assms(2)
  by (auto simp: outbound_def rewritable_def wears_source_def sound_ipv4_def)

lemma inbound_rewritable:
  assumes "netlib_ok lib" "IPPacket_Parse raw FPTN_PACKET_UNDEFINED_CLIENT_ID = Some p" "rewritable p" "co_recv_ip_packet cfg"
  shows "\<exists>q. inbound lib cfg raw = Some (Some q) \<and> wears_destination lib (co_tun_ipv4 cfg) p q"
  using set_dst_ipv4_aux [OF assms(1), of p "co_tun_ipv4 cfg"] assms(2-4)
  by (auto simp: inbound_def rewritable_def wears_destination_def sound_ipv4_def)

lemma handle_all_map:
  assumes "\<And>x. x \<in> set xs \<Longrightarrow> \<exists>q. f x = Some (Some q) \<and> P x q"
  shows "\<exists>qs. handle_all f xs = Some qs \<and> list_all2 P xs qs"
  using assms
proof (induction xs)
  case (Cons x xs)
  obtain qs where "handle_all f xs = Some qs" "list_all2 P xs qs" using Cons by auto
  moreover obtain q where "f x = Some (Some q)" "P x q" using Cons.prems [of x] by auto
  ultimately show ?case by auto
qed simp

lemma fill_client_batch_map:
  assumes "\<And>p. p \<in> set ps \<Longrightarrow> \<exists>q. f (Some p) = Some (Some q) \<and> P p q" "length packets \<le> kMaxClientBatchSize"
  shows "\<exists>qs. fill_client_batch f packets (map Some ps) =
      Some (packets @ qs, map Some (drop (kMaxClientBatchSize - length packets) ps)) \<and>
    list_all2 P (take (kMaxClientBatchSize - length packets) ps) qs"
  using assms
proof (induction ps arbitrary: packets)
  case (Cons p ps)
  show ?case
  proof (cases "length packets < kMaxClientBatchSize")
    case True
    obtain q where q: "f (Some p) = Some (Some q)" "P p q" using Cons.prems(1) [of p] by auto
    obtain qs where "fill_client_batch f (packets @ [q]) (map Some ps) =
        Some ((packets @ [q]) @ qs, map Some (drop (kMaxClientBatchSize - length (packets @ [q])) ps))"
      "list_all2 P (take (kMaxClientBatchSize - length (packets @ [q])) ps) qs"
      using Cons.IH [of "packets @ [q]"] Cons.prems(1) True by auto
    then show ?thesis using q True by (intro exI [of _ "q # qs"]) (auto simp: take_Cons' drop_Cons')
  next
    case False
    then show ?thesis using Cons.prems(2) by auto
  qed
qed simp

lemma client_batch_map:
  assumes "netlib_ok lib" "wc_channel c = map Some ps" "\<forall>p \<in> set ps. rewritable p"
  shows "\<exists>qs. client_batch lib c = Some (qs, map Some (drop 32 ps)) \<and>
    list_all2 (wears_source lib (wc_assigned_ipv4 c)) (take 32 ps) qs"
proof (cases ps)
  case Nil
  then show ?thesis using assms by (simp add: client_batch_def)
next
  case (Cons p ps')
  obtain q where q: "outbound lib c (Some p) = Some (Some q)" "wears_source lib (wc_assigned_ipv4 c) p q"
    using outbound_rewritable [OF assms(1), of p c] assms(3) Cons by auto
  have "\<exists>q. outbound lib c (Some p) = Some (Some q) \<and> wears_source lib (wc_assigned_ipv4 c) p q" if "p \<in> set ps'" for p
    using outbound_rewritable [OF assms(1)] assms(3) Cons that by auto
  from fill_client_batch_map [where f = "outbound lib c" and P = "wears_source lib (wc_assigned_ipv4 c)" and ps = ps' and packets = "[q]", OF this] obtain qs where
    "fill_client_batch (outbound lib c) [q] (map Some ps') = Some ([q] @ qs, map Some (drop 31 ps'))"
    "list_all2 (wears_source lib (wc_assigned_ipv4 c)) (take 31 ps') qs" by (auto simp: kMaxClientBatchSize_def)
  then show ?thesis using q assms(2) Cons by (intro exI [of _ "q # qs"]) (auto simp: client_batch_def take_Cons' drop_Cons')
qed

text \<open>The sender's turn: of a queue of IPv4 packets with sound headers it takes the first 32 in
  order, writes them as one message with the address the server assigned as their source, their
  own destinations and verifying checksums, without an access outside a packet, and leaves the
  rest; only a message that is not serialized or not written loses its packets.\<close>

theorem sender_batches:
  assumes "netlib_ok lib" and "Ws_IsStarted c" and "wc_channel c = map Some ps" and "\<forall>p \<in> set ps. rewritable p" and "ps \<noteq> []"
  shows "\<exists>qs written c'. sender_turn lib y True write_ok c = Some (written, c') \<and>
    list_all2 (wears_source lib (wc_assigned_ipv4 c)) (take 32 ps) qs \<and> wc_channel c' = map Some (drop 32 ps) \<and>
    written = (if yf_serialize y qs \<noteq> None \<and> write_ok then qs else []) \<and>
    Ws_IsStarted c' = (yf_serialize y qs = None \<or> write_ok)"
proof -
  obtain qs where q: "client_batch lib c = Some (qs, map Some (drop 32 ps))"
    "list_all2 (wears_source lib (wc_assigned_ipv4 c)) (take 32 ps) qs"
    using client_batch_map [OF assms(1,3,4)] by blast
  then have "qs \<noteq> []" using assms(5) by (cases ps) auto
  then have "sender_turn lib y True write_ok c = Some (let c = c\<lparr>wc_channel := map Some (drop 32 ps)\<rparr> in
      if yf_serialize y qs = None then ([], c) else if write_ok then (qs, c) else ([], sender_ends c))"
    using q(1) assms(2) by (simp add: sender_turn_def Ws_IsStarted_def Let_def)
  then show ?thesis using q(2) assms(2)
    by (cases "yf_serialize y qs"; cases write_ok) (force simp: Ws_IsStarted_def sender_ends_def Let_def)+
qed

text \<open>The reader's turn: every IPv4 packet with a sound header in a message from the server reaches
  the callback, in order, with the address of the tunnel interface as its destination, its own
  source and verifying checksums.\<close>

theorem reader_rewrites:
  assumes "netlib_ok lib" and "Ws_IsStarted c" and "co_recv_ip_packet cfg" and "buffer \<noteq> []"
    and "\<forall>raw \<in> set (yf_batch y buffer). rewritable \<lparr>pkt_data = raw, pkt_client = FPTN_PACKET_UNDEFINED_CLIENT_ID\<rparr>"
  shows "\<exists>qs. reader_turn lib y cfg True (ReadMessage buffer) c = Some (qs, c) \<and>
    list_all2 (\<lambda>raw. wears_destination lib (co_tun_ipv4 cfg) \<lparr>pkt_data = raw, pkt_client = FPTN_PACKET_UNDEFINED_CLIENT_ID\<rparr>)
      (yf_batch y buffer) qs"
proof -
  have parsed: "IPPacket_Parse raw FPTN_PACKET_UNDEFINED_CLIENT_ID = Some \<lparr>pkt_data = raw, pkt_client = FPTN_PACKET_UNDEFINED_CLIENT_ID\<rparr>"
    if "raw \<in> set (yf_batch y buffer)" for raw
    using assms(5) that by (auto simp: IPPacket_Parse_iff parsed_def rewritable_def sound_ipv4_def kMinIPv4_def)
  have "\<exists>q. inbound lib cfg raw = Some (Some q) \<and>
      wears_destination lib (co_tun_ipv4 cfg) \<lparr>pkt_data = raw, pkt_client = FPTN_PACKET_UNDEFINED_CLIENT_ID\<rparr> q"
    if "raw \<in> set (yf_batch y buffer)" for raw
    using inbound_rewritable [OF assms(1) parsed [OF that] _ assms(3)] assms(5) that by blast
  from handle_all_map [where f = "inbound lib cfg" and xs = "yf_batch y buffer" and P = "\<lambda>raw. wears_destination lib (co_tun_ipv4 cfg)
      \<lparr>pkt_data = raw, pkt_client = FPTN_PACKET_UNDEFINED_CLIENT_ID\<rparr>", OF this] obtain qs where "handle_all (inbound lib cfg) (yf_batch y buffer) = Some qs"
    "list_all2 (\<lambda>raw. wears_destination lib (co_tun_ipv4 cfg) \<lparr>pkt_data = raw, pkt_client = FPTN_PACKET_UNDEFINED_CLIENT_ID\<rparr>)
      (yf_batch y buffer) qs" by blast
  then show ?thesis using assms(2,4) by (auto simp: reader_turn_def Ws_IsStarted_def)
qed

lemma demo_rewritable: "rewritable demo_udp" "rewritable \<lparr>pkt_data = udp_packet, pkt_client = cid\<rparr>"
  using demo_udp_facts by (simp_all add: rewritable_def demo_udp_def sound_ipv4_def IsIPv4_def)

theorem sender_batches_witness:
  "\<exists>qs c'. sender_turn demo_lib demo_yaff True True (demo_connected\<lparr>wc_channel := [Some demo_udp]\<rparr>) = Some (qs, c') \<and>
     list_all2 (wears_source demo_lib (wc_assigned_ipv4 demo_connected)) [demo_udp] qs"
proof -
  have "Ws_IsStarted (demo_connected\<lparr>wc_channel := [Some demo_udp]\<rparr>)" using demo_connected_facts by (simp add: Ws_IsStarted_def)
  from sender_batches [OF demo_lib_ok this, of "[demo_udp]" demo_yaff True] show ?thesis
    using demo_rewritable(1) by (auto simp: demo_yaff_def)
qed

theorem reader_rewrites_witness:
  "\<exists>qs. reader_turn demo_lib demo_yaff demo_client True (ReadMessage udp_packet) demo_connected = Some (qs, demo_connected) \<and> length qs = 1"
proof -
  have "Ws_IsStarted demo_connected" using demo_connected_facts by (simp add: Ws_IsStarted_def)
  from reader_rewrites [OF demo_lib_ok this, of demo_client udp_packet demo_yaff] demo_rewritable(2) show ?thesis
    by (auto simp: demo_client_def demo_yaff_def list_all2_Cons1 udp_packet_def)
qed

section \<open>From the server's announcement to the packets\<close>

text \<open>The message of the server for a client's upgrade request.\<close>

lemma HandleWebSocket2_message:
  assumes "HandleWebSocket2 lib jwt key cid remote random session clk accept serialize write_ok (upgrade_request cfg token agent) s =
      ((True, flags, message), s')"
  shows "\<exists>m mx msg. tb_store (sv_table s') m = Some mx \<and> mx_disable_checksum mx \<and> message = Some msg \<and>
      serialize True (ip_str (mx_fake_ipv4 mx)) (ip_str (mx_fake_ipv6 mx)) = Some msg"
proof -
  let ?r = "upgrade_request cfg token agent"
  have y: "hr_header ?r ''X-Serializer'' = Some ''yaff''"
    by (simp add: upgrade_request_def Let_def)
  obtain authorization ip where h: "hr_header ?r ''Authorization'' = Some authorization" "remote = Some ip"
    using assms by (auto simp: HandleWebSocket2_def split: option.splits)
  obtain m s1 where o: "HandleWsOpenConnection jwt key (new_params lib cid ip random authorization ?r) session clk s = (Some m, s1)"
    using assms h by (auto simp: HandleWebSocket2_def split: option.splits prod.splits)
  define mx where "mx = DisableChecksumCalculation True (mplx (sv_table s1) m)"
  obtain msg where "serialize True (ip_str (mx_fake_ipv4 mx)) (ip_str (mx_fake_ipv6 mx)) = Some msg" "message = Some msg"
    "s' = s1\<lparr>sv_table := set_mplx m mx (sv_table s1)\<rparr>"
    using assms h o y by (auto simp: HandleWebSocket2_def Let_def mx_def split: if_splits option.splits)
  moreover have "mx_disable_checksum mx" by (simp add: mx_def DisableChecksumCalculation_def)
  ultimately show ?thesis by (intro exI [of _ m] exI [of _ mx] exI [of _ msg]) (simp add: set_mplx_def)
qed


definition demo_small_server :: server where
  "demo_small_server = \<lparr>sv_running = True, sv_sessions = [], sv_max_active = 0,
     sv_table = \<lparr>tb_free_ipv4 = [v4_at demo_lib 9], tb_free_ipv6 = [v6_at demo_lib 9], tb_session = [], tb_ipv4 = [],
       tb_ipv6 = [], tb_client = [], tb_store = Map.empty, tb_next = 0\<rparr>\<rparr>"

definition demo_serialize :: "bool \<Rightarrow> string \<Rightarrow> string \<Rightarrow> byte list option" where
  "demo_serialize yaff v4 v6 =
     (if v4 = to_string demo_lib (V4 9) \<and> v6 = to_string demo_lib (V6 9) then Some [1] else None)"

abbreviation demo_welcome :: "(bool \<times> ws_flags \<times> byte list option) \<times> server" where
  "demo_welcome \<equiv> HandleWebSocket2 demo_lib demo_jwt ''server key'' 5 (Some ''1.2.3.4'') ''random'' 7 (0, 0, 0, 0, 0) True
     demo_serialize True (upgrade_request demo_client ''token'' ''Fptn'') demo_small_server"

lemma Multiplexer_Create_addresses:
  "mx_fake_ipv4 (Multiplexer_Create params v4 v6 b1 b2 ts) = v4" "mx_fake_ipv6 (Multiplexer_Create params v4 v6 b1 b2 ts) = v6"
  by (simp_all add: Multiplexer_Create_def Let_def split: prod.splits)

lemma demo_welcome_ok:
  "\<exists>flags s'. demo_welcome = ((True, flags, Some [1]), s') \<and>
     (\<forall>m mx. tb_store (sv_table s') m = Some mx \<longrightarrow> mx_fake_ipv4 mx = v4_at demo_lib 9 \<and> mx_fake_ipv6 mx = v6_at demo_lib 9)"
proof -
  have "bearer_token ''Bearer token'' = ''token''" by (simp add: bearer_token_def)
  then show ?thesis
    by (simp add: HandleWebSocket2_def upgrade_request_def Let_def demo_client_def HandleWsOpenConnection_def ws_check_def
        demo_small_server_def new_params_def Validate_def demo_jwt_def forged_def GetNumberActiveSessionByUsername_def
        ws_commit_def AddConnection_def v4_at_def v6_at_def demo_serialize_def DisableChecksumCalculation_def
        Multiplexer_Create_addresses set_mplx_def)
qed


end
