(* ===== verification/Tunnels.thy ===== *)
theory Tunnels
  imports ClientSocket
begin

text \<open>
  The strategies that keep connections to the server up, \<open>src/fptn-protocol-lib/connection/strategies\<close>,
  but for the one in \<open>Mimicry\<close>: parallel tunnels, the rolling tunnel and the persistent tunnel.
  The managing coroutine of a strategy is the sequence of its turns; where it waits for a new
  connection a turn is cut in two. Time points are nanoseconds of the clocks. A strategy owns its
  clients, so they are values inside its state, and they go on by themselves between the turns.
\<close>

section \<open>The interface\<close>

text \<open>What \<open>BaseStrategyConnection\<close> offers to the connection manager: sending (with a random number for
  the strategies that draw one), stopping, and two questions. \<open>clients\<close> are the web socket clients of
  a state. \<open>None\<close> is an access outside the packet.\<close>

locale strategy =
  fixes send :: "nat \<Rightarrow> ip_packet option \<Rightarrow> 's \<Rightarrow> (bool \<times> 's) option"
    and stop :: "'s \<Rightarrow> 's"
    and is_started :: "'s \<Rightarrow> bool"
    and is_connected :: "'s \<Rightarrow> bool"
    and clients :: "'s \<Rightarrow> ws_client list"
    and inv :: "'s \<Rightarrow> bool"
  assumes send_stopped: "\<not> is_started s \<Longrightarrow> send i p s = Some (False, s)"
    and send_refused: "inv s \<Longrightarrow> send i p s = Some (False, s') \<Longrightarrow> clients s' = clients s"
    and send_accepted: "inv s \<Longrightarrow> send i p s = Some (True, s') \<Longrightarrow>
      \<exists>before c after. clients s = before @ c # after \<and> fst (Ws_Send p c) \<and> clients s' = before @ snd (Ws_Send p c) # after"
    and send_inv: "inv s \<Longrightarrow> send i p s = Some (ok, s') \<Longrightarrow> inv s' \<and> is_started s' = is_started s"
    and stop_stops: "\<not> is_started (stop s)"
    and stop_clients: "inv s \<Longrightarrow> c \<in> set (clients (stop s)) \<Longrightarrow> \<not> wc_running c"
    and stop_inv: "inv s \<Longrightarrow> inv (stop s)"
    and connected: "is_connected s = list_ex Ws_IsStarted (clients s)"
begin

definition queued :: "'s \<Rightarrow> ip_packet option list list" where
  "queued s = map wc_channel (clients s)"

text \<open>A packet that is accepted is at the end of exactly one queue; the other queues are unchanged.\<close>

lemma send_queues:
  assumes "inv s" "send i p s = Some (ok, s')"
  shows "if ok then \<exists>j < length (queued s). queued s' = (queued s)[j := queued s ! j @ [p]] else queued s' = queued s"
proof (cases ok)
  case True
  then obtain before c after where c: "clients s = before @ c # after" "fst (Ws_Send p c)" "clients s' = before @ snd (Ws_Send p c) # after"
    using send_accepted [OF assms(1), of i p s'] assms(2) by auto
  have "wc_channel (snd (Ws_Send p c)) = wc_channel c @ [p]" using c(2) by (auto simp: Ws_Send_def split: if_splits)
  then have "length before < length (queued s) \<and>
      queued s' = (queued s)[length before := queued s ! length before @ [p]]"
    using c by (simp add: queued_def nth_append list_update_append)
  then show ?thesis using True by auto
next
  case False
  then show ?thesis using send_refused [OF assms(1)] assms(2) by (simp add: queued_def)
qed

lemma stopped_refuses: "send i p (stop s) = Some (False, stop s)"
  by (rule send_stopped [OF stop_stops])

lemma stopped_disconnected: "inv s \<Longrightarrow> \<not> is_connected (stop s)"
  using stop_clients [of s] unfolding connected list_ex_iff by (auto simp: Ws_IsStarted_def)

lemma send_needs_connection:
  assumes "inv s" "send i p s = Some (True, s')"
  shows "is_started s \<and> is_connected s"
proof
  show "is_started s" using assms(2) send_stopped [of s i p] by (cases "is_started s") auto
  obtain before c after where "clients s = before @ c # after" "fst (Ws_Send p c)"
    using send_accepted [OF assms] by blast
  then show "is_connected s" unfolding connected by (auto simp: Ws_Send_def Ws_IsStarted_def split: if_splits)
qed

end

section \<open>Waiting for a connection\<close>

text \<open>A new client is looked at every half second, at most ten times; the list has what is seen.\<close>

fun await_client :: "ws_client list \<Rightarrow> ws_client option" where
  "await_client [] = None"
| "await_client (c # looks) =
     (if Ws_IsStarted c then Some c
      else if Ws_IsStopped c then None
      else await_client looks)"

lemma await_client_started: "await_client looks = Some c \<Longrightarrow> Ws_IsStarted c \<and> c \<in> set looks"
  by (induction looks) (auto split: if_splits)

definition ns_per_second :: int where "ns_per_second = 1000000000"

text \<open>\<open>duration_cast\<close> to seconds rounds to zero.\<close>

definition whole_seconds :: "int \<Rightarrow> int" where
  "whole_seconds d = (if d < 0 then - (- d div ns_per_second) else d div ns_per_second)"

section \<open>Parallel tunnels\<close>

text \<open>The parameters of the template, and the two instances.\<close>

record tunnels_params =
  tp_ConnectionCount :: nat
  tp_LifetimeSeconds :: int
  tp_StaggerSeconds :: int

definition tunnels_params_ok :: "tunnels_params \<Rightarrow> bool" where
  "tunnels_params_ok P \<longleftrightarrow> tp_ConnectionCount P \<ge> 2 \<and> tp_LifetimeSeconds P > 0 \<and> tp_StaggerSeconds P \<ge> 0"

definition DualTunnel :: tunnels_params where
  "DualTunnel = \<lparr>tp_ConnectionCount = 2, tp_LifetimeSeconds = 600, tp_StaggerSeconds = 30\<rparr>"

definition TripleTunnel :: tunnels_params where
  "TripleTunnel = \<lparr>tp_ConnectionCount = 3, tp_LifetimeSeconds = 600, tp_StaggerSeconds = 30\<rparr>"

definition kReplacementLeadSeconds :: int where "kReplacementLeadSeconds = 2"

definition kMaxConnections :: "tunnels_params \<Rightarrow> nat" where
  "kMaxConnections P = tp_ConnectionCount P + 1"

record tunnel_channel =
  tc_connection_id :: u64
  tc_close_at :: int
  tc_client :: ws_client

text \<open>\<open>pt_pending\<close> is the connection being created, between the two halves of a turn; \<open>pt_callbacks\<close> counts
  the calls of the connected callback.\<close>

record parallel_tunnels =
  pt_running :: bool
  pt_connected_notified :: bool
  pt_connection_id_counter :: u64
  pt_round_robin_cursor :: u64
  pt_last_spawn_time :: int
  pt_connections :: "tunnel_channel list"
  pt_pending :: "(u64 \<times> int) option"
  pt_callbacks :: nat

definition ParallelTunnels_new :: parallel_tunnels where
  "ParallelTunnels_new = \<lparr>pt_running = False, pt_connected_notified = False, pt_connection_id_counter = 0,
     pt_round_robin_cursor = 0, pt_last_spawn_time = 0, pt_connections = [], pt_pending = None, pt_callbacks = 0\<rparr>"

definition ParallelTunnels_Start :: "parallel_tunnels \<Rightarrow> parallel_tunnels" where
  "ParallelTunnels_Start s = s\<lparr>pt_running := True\<rparr>"

text \<open>The stopped clients leave the pool.\<close>

definition ParallelTunnels_Stop :: "parallel_tunnels \<Rightarrow> parallel_tunnels" where
  "ParallelTunnels_Stop s = s\<lparr>pt_running := False, pt_connections := []\<rparr>"

definition ParallelTunnels_IsStarted :: "parallel_tunnels \<Rightarrow> bool" where
  "ParallelTunnels_IsStarted s = pt_running s"

definition ParallelTunnels_IsConnected :: "parallel_tunnels \<Rightarrow> bool" where
  "ParallelTunnels_IsConnected s = list_ex (\<lambda>channel. Ws_IsStarted (tc_client channel)) (pt_connections s)"

definition IsPoolEmpty :: "parallel_tunnels \<Rightarrow> bool" where
  "IsPoolEmpty s \<longleftrightarrow> pt_connections s = []"

text \<open>The index where the search for a connection starts: the source port, or the cursor.\<close>

definition send_start :: "ip_packet \<Rightarrow> parallel_tunnels \<Rightarrow> (u64 \<times> parallel_tunnels) option" where
  "send_start packet s =
     (if IsTCP packet then do { port \<leftarrow> GetTcpSrcPort packet; Some (ucast port, s) }
      else if IsUDP packet then do { port \<leftarrow> GetUdpSrcPort packet; Some (ucast port, s) }
      else Some (pt_round_robin_cursor s, s\<lparr>pt_round_robin_cursor := pt_round_robin_cursor s + 1\<rparr>))"

fun find_started :: "u64 \<Rightarrow> tunnel_channel list \<Rightarrow> nat list \<Rightarrow> nat option" where
  "find_started start channels [] = None"
| "find_started start channels (i # is) =
     (let j = unat (start + of_nat i) mod length channels in
      if Ws_IsStarted (tc_client (channels ! j)) then Some j else find_started start channels is)"

definition ParallelTunnels_Send :: "ip_packet option \<Rightarrow> parallel_tunnels \<Rightarrow> (bool \<times> parallel_tunnels) option" where
  "ParallelTunnels_Send pkt s =
     (case pkt of
        None \<Rightarrow> Some (False, s)
      | Some packet \<Rightarrow>
          if \<not> ParallelTunnels_IsStarted s then Some (False, s)
          else if pt_connections s = [] then Some (False, s)
          else do {
            (start, s) \<leftarrow> send_start packet s;
            Some (case find_started start (pt_connections s) [0..<length (pt_connections s)] of
                    None \<Rightarrow> (False, s)
                  | Some j \<Rightarrow>
                      (let channel = pt_connections s ! j; (sent, client) = Ws_Send pkt (tc_client channel) in
                       (sent, s\<lparr>pt_connections := (pt_connections s)[j := channel\<lparr>tc_client := client\<rparr>]\<rparr>)))
          })"

section \<open>The managing coroutine\<close>

definition channel_dead :: "int \<Rightarrow> tunnel_channel \<Rightarrow> bool" where
  "channel_dead now channel \<longleftrightarrow> Ws_IsStopped (tc_client channel) \<or> now \<ge> tc_close_at channel"

text \<open>The dead connections are stopped by a coroutine of their own.\<close>

definition RemoveClosedConnections :: "int \<Rightarrow> parallel_tunnels \<Rightarrow> tunnel_channel list \<times> parallel_tunnels" where
  "RemoveClosedConnections now s =
     (filter (channel_dead now) (pt_connections s),
      s\<lparr>pt_connections := filter (\<lambda>channel. \<not> channel_dead now channel) (pt_connections s)\<rparr>)"

definition healthy_count :: "int \<Rightarrow> tunnel_channel list \<Rightarrow> nat" where
  "healthy_count now channels =
     length (filter (\<lambda>channel. Ws_IsStarted (tc_client channel) \<and>
       tc_close_at channel > now + kReplacementLeadSeconds * ns_per_second) channels)"

definition slot_seconds :: "tunnels_params \<Rightarrow> int" where
  "slot_seconds P = tp_LifetimeSeconds P div int (tp_ConnectionCount P)"

definition remaining_seconds :: "tunnels_params \<Rightarrow> int \<Rightarrow> tunnel_channel list \<Rightarrow> int list" where
  "remaining_seconds P now channels =
     filter (\<lambda>seconds. seconds > 0 \<and> seconds \<le> tp_LifetimeSeconds P)
       (map (\<lambda>channel. whole_seconds (tc_close_at channel - now)) channels)"

fun widest_gap_loop :: "int \<Rightarrow> int \<Rightarrow> int \<Rightarrow> int list \<Rightarrow> int" where
  "widest_gap_loop prev widest_gap lifetime_seconds [] = lifetime_seconds"
| "widest_gap_loop prev widest_gap lifetime_seconds (r # remaining) =
     (let gap = r - prev in
      if gap > widest_gap then widest_gap_loop r gap (prev + gap div 2) remaining
      else widest_gap_loop r widest_gap lifetime_seconds remaining)"

definition NextLifetimeSeconds :: "tunnels_params \<Rightarrow> int \<Rightarrow> tunnel_channel list \<Rightarrow> int" where
  "NextLifetimeSeconds P now channels =
     (case sort (remaining_seconds P now channels) of
        [] \<Rightarrow> slot_seconds P
      | r # rest \<Rightarrow>
          (let appended = List.last (r # rest) + slot_seconds P in
           if appended \<le> tp_LifetimeSeconds P then appended
           else widest_gap_loop r r (r div 2) rest))"

text \<open>The readings of a turn: the system clock for the removal, the count, the lifetime and the creation,
  and the steady clock for the stagger.\<close>

record turn_clocks =
  tk_removal :: int
  tk_count :: int
  tk_steady :: int
  tk_lifetime :: int
  tk_creation :: int

text \<open>\<open>CreateMissingConnections\<close> up to the wait in \<open>CreateNewConnection\<close>.\<close>

definition begin_connection :: "tunnels_params \<Rightarrow> turn_clocks \<Rightarrow> parallel_tunnels \<Rightarrow> parallel_tunnels" where
  "begin_connection P k s =
     (if \<not> ParallelTunnels_IsStarted s then s
      else if healthy_count (tk_count k) (pt_connections s) \<ge> tp_ConnectionCount P then s
      else if length (pt_connections s) \<ge> kMaxConnections P then s
      else if tp_StaggerSeconds P > 0 \<and> tk_steady k - pt_last_spawn_time s < tp_StaggerSeconds P * ns_per_second then s
      else
        (let lifetime = NextLifetimeSeconds P (tk_lifetime k) (pt_connections s); cid = pt_connection_id_counter s + 1 in
         s\<lparr>pt_connection_id_counter := cid, pt_pending := Some (cid, tk_creation k + lifetime * ns_per_second)\<rparr>))"

definition turn_begins :: "tunnels_params \<Rightarrow> turn_clocks \<Rightarrow> parallel_tunnels \<Rightarrow> parallel_tunnels" where
  "turn_begins P k s = begin_connection P k (snd (RemoveClosedConnections (tk_removal k) s))"

definition end_connection :: "ws_client list \<Rightarrow> int \<Rightarrow> parallel_tunnels \<Rightarrow> parallel_tunnels" where
  "end_connection looks steady s =
     (case pt_pending s of
        None \<Rightarrow> s
      | Some (cid, expiry) \<Rightarrow>
          (case await_client (take 10 looks) of
             None \<Rightarrow> s\<lparr>pt_pending := None\<rparr>
           | Some client \<Rightarrow>
               s\<lparr>pt_pending := None, pt_last_spawn_time := steady,
                 pt_connections := pt_connections s @ [\<lparr>tc_connection_id = cid, tc_close_at = expiry, tc_client = client\<rparr>]\<rparr>))"

definition NotifyConnectedOnce :: "bool \<Rightarrow> parallel_tunnels \<Rightarrow> parallel_tunnels" where
  "NotifyConnectedOnce has_callback s =
     (if pt_connected_notified s then s
      else if \<not> ParallelTunnels_IsConnected s then s
      else s\<lparr>pt_connected_notified := True, pt_callbacks := pt_callbacks s + (if has_callback then 1 else 0)\<rparr>)"

definition turn_ends :: "bool \<Rightarrow> ws_client list \<Rightarrow> int \<Rightarrow> parallel_tunnels \<Rightarrow> parallel_tunnels" where
  "turn_ends has_callback looks steady s =
     (let s = end_connection looks steady s in
      if IsPoolEmpty s then s\<lparr>pt_running := False\<rparr> else NotifyConnectedOnce has_callback s)"

text \<open>What parallel tunnels do by themselves: turns of the coroutine, whole or in two halves, and steps of
  the clients. What is seen of a new client is a reachable state of a web socket client.\<close>

inductive pt_own :: "tunnels_params \<Rightarrow> netlib \<Rightarrow> yaff \<Rightarrow> connection_config \<Rightarrow> parallel_tunnels \<Rightarrow> parallel_tunnels \<Rightarrow> bool"
  for P :: tunnels_params and lib :: netlib and y :: yaff and cfg :: connection_config where
  pt_turn: "ParallelTunnels_IsStarted s \<Longrightarrow> pt_pending s = None \<Longrightarrow> pt_pending (turn_begins P k s) = None \<Longrightarrow>
    pt_own P lib y cfg s (turn_ends (co_on_connected cfg) [] steady (turn_begins P k s))"
| pt_wait: "ParallelTunnels_IsStarted s \<Longrightarrow> pt_pending s = None \<Longrightarrow> pt_pending (turn_begins P k s) \<noteq> None \<Longrightarrow>
    pt_own P lib y cfg s (turn_begins P k s)"
| pt_resume: "pt_pending s \<noteq> None \<Longrightarrow> \<forall>c \<in> set looks. ws_reachable lib y cfg c \<Longrightarrow>
    pt_own P lib y cfg s (turn_ends (co_on_connected cfg) looks steady s)"
| pt_client: "i < length (pt_connections s) \<Longrightarrow> ws_step lib y cfg (tc_client (pt_connections s ! i)) c \<Longrightarrow>
    pt_own P lib y cfg s (s\<lparr>pt_connections := (pt_connections s)[i := (pt_connections s ! i)\<lparr>tc_client := c\<rparr>]\<rparr>)"

text \<open>Everything that happens to parallel tunnels, with the calls from other threads.\<close>

inductive pt_step :: "tunnels_params \<Rightarrow> netlib \<Rightarrow> yaff \<Rightarrow> connection_config \<Rightarrow> parallel_tunnels \<Rightarrow> parallel_tunnels \<Rightarrow> bool"
  for P :: tunnels_params and lib :: netlib and y :: yaff and cfg :: connection_config where
  pt_start: "pt_step P lib y cfg s (ParallelTunnels_Start s)"
| pt_stop: "pt_step P lib y cfg s (ParallelTunnels_Stop s)"
| pt_send: "ParallelTunnels_Send pkt s = Some (ok, s') \<Longrightarrow> pt_step P lib y cfg s s'"
| pt_self: "pt_own P lib y cfg s s' \<Longrightarrow> pt_step P lib y cfg s s'"

inductive pt_reachable :: "tunnels_params \<Rightarrow> netlib \<Rightarrow> yaff \<Rightarrow> connection_config \<Rightarrow> parallel_tunnels \<Rightarrow> bool"
  for P :: tunnels_params and lib :: netlib and y :: yaff and cfg :: connection_config where
  pt_init: "pt_reachable P lib y cfg ParallelTunnels_new"
| pt_next: "pt_reachable P lib y cfg s \<Longrightarrow> pt_step P lib y cfg s s' \<Longrightarrow> pt_reachable P lib y cfg s'"

section \<open>Invariants\<close>

definition pt_clients :: "parallel_tunnels \<Rightarrow> ws_client list" where
  "pt_clients s = map tc_client (pt_connections s)"

definition pt_inv :: "tunnels_params \<Rightarrow> parallel_tunnels \<Rightarrow> bool" where
  "pt_inv P s \<longleftrightarrow>
     length (pt_connections s) + (if pt_pending s = None then 0 else 1) \<le> kMaxConnections P \<and>
     list_all ws_inv (pt_clients s) \<and> pt_callbacks s \<le> (if pt_connected_notified s then 1 else 0)"

lemma find_started_Some:
  assumes "find_started start channels is = Some j" "channels \<noteq> []"
  shows "j < length channels \<and> Ws_IsStarted (tc_client (channels ! j))"
  using assms by (induction "is") (auto simp: Let_def split: if_splits)

lemma send_start_keeps: "send_start packet s = Some (start, s') \<Longrightarrow> s' = s\<lparr>pt_round_robin_cursor := pt_round_robin_cursor s'\<rparr>"
  by (auto simp: send_start_def split: if_splits bind_splits)

text \<open>Sending either leaves the connections alone or goes to one started connection.\<close>

lemma ParallelTunnels_Send_cases:
  assumes "ParallelTunnels_Send pkt s = Some (ok, s')"
  obtains (refused) n where "\<not> ok" "s' = s\<lparr>pt_round_robin_cursor := n\<rparr>"
  | (given) j channel client n where "j < length (pt_connections s)" "channel = pt_connections s ! j" "Ws_IsStarted (tc_client channel)"
      "Ws_Send pkt (tc_client channel) = (ok, client)"
      "s' = s\<lparr>pt_round_robin_cursor := n, pt_connections := (pt_connections s)[j := channel\<lparr>tc_client := client\<rparr>]\<rparr>"
      "ParallelTunnels_IsStarted s"
proof (cases "pkt = None \<or> \<not> ParallelTunnels_IsStarted s \<or> pt_connections s = []")
  case True
  then have "\<not> ok \<and> s' = s\<lparr>pt_round_robin_cursor := pt_round_robin_cursor s\<rparr>"
    using assms by (auto simp: ParallelTunnels_Send_def split: option.splits if_splits bind_splits)
  then show thesis using refused by blast
next
  case False
  then obtain packet where p: "pkt = Some packet" by auto
  obtain start s1 where s1: "send_start packet s = Some (start, s1)"
    using assms False p by (auto simp: ParallelTunnels_Send_def split: bind_splits)
  have e: "s1 = s\<lparr>pt_round_robin_cursor := pt_round_robin_cursor s1\<rparr>" "pt_connections s1 = pt_connections s"
    using send_start_keeps [OF s1] by (metis, metis parallel_tunnels.select_convs(6) parallel_tunnels.surjective parallel_tunnels.update_convs(4))
  show thesis
  proof (cases "find_started start (pt_connections s) [0..<length (pt_connections s)]")
    case None
    then have "\<not> ok \<and> s' = s1" using assms False p s1 e(2) by (simp add: ParallelTunnels_Send_def)
    then show thesis using refused e(1) by blast
  next
    case (Some j)
    obtain client where c: "Ws_Send pkt (tc_client (pt_connections s ! j)) = (ok, client)"
      "s' = s1\<lparr>pt_connections := (pt_connections s)[j := (pt_connections s ! j)\<lparr>tc_client := client\<rparr>]\<rparr>"
      using assms False p s1 e(2) Some by (auto simp: ParallelTunnels_Send_def Let_def split: prod.splits)
    have "s' = s\<lparr>pt_round_robin_cursor := pt_round_robin_cursor s1,
        pt_connections := (pt_connections s)[j := (pt_connections s ! j)\<lparr>tc_client := client\<rparr>]\<rparr>"
      unfolding c(2) by (subst e(1)) simp
    then show thesis using given find_started_Some [OF Some] False c(1) by blast
  qed
qed

lemma ws_inv_Send: "ws_inv c \<Longrightarrow> ws_inv (snd (Ws_Send p c))"
  by (rule ws_inv_step [OF step_send])

lemma list_all_list_update: "list_all Q xs \<Longrightarrow> Q x \<Longrightarrow> list_all Q (xs[i := x])"
  by (metis list_all_iff set_update_subset_insert subsetD insertE)

lemma pt_inv_client:
  assumes "pt_inv P s" "i < length (pt_connections s)" "ws_inv c"
  shows "pt_inv P (s\<lparr>pt_connections := (pt_connections s)[i := (pt_connections s ! i)\<lparr>tc_client := c\<rparr>]\<rparr>)"
  using assms by (simp add: pt_inv_def pt_clients_def map_update list_all_list_update)

lemma pt_inv_cursor: "pt_inv P (s\<lparr>pt_round_robin_cursor := n\<rparr>) = pt_inv P s"
  by (simp add: pt_inv_def pt_clients_def)

lemma pt_inv_send: "pt_inv P s \<Longrightarrow> ParallelTunnels_Send pkt s = Some (ok, s') \<Longrightarrow> pt_inv P s'"
proof (erule ParallelTunnels_Send_cases)
  fix j channel client n
  assume s: "pt_inv P s" and j: "j < length (pt_connections s)" "channel = pt_connections s ! j"
    and c: "Ws_Send pkt (tc_client channel) = (ok, client)"
    and s': "s' = s\<lparr>pt_round_robin_cursor := n, pt_connections := (pt_connections s)[j := channel\<lparr>tc_client := client\<rparr>]\<rparr>"
  have "ws_inv (tc_client channel)" using s j by (simp add: pt_inv_def pt_clients_def list_all_length)
  then have "ws_inv client" using ws_inv_Send [of "tc_client channel" pkt] c by simp
  from pt_inv_client [of P "s\<lparr>pt_round_robin_cursor := n\<rparr>" j, OF _ _ this] show ?thesis
    using s j s' by (simp add: pt_inv_cursor)
qed (simp add: pt_inv_cursor)

lemma list_all_filter: "list_all Q xs \<Longrightarrow> list_all Q (filter R xs)"
  by (auto simp: list_all_iff)

lemma pt_inv_begins:
  assumes "pt_inv P s" "pt_pending s = None"
  shows "pt_inv P (turn_begins P k s)"
proof -
  have "length (filter (\<lambda>ch. \<not> channel_dead (tk_removal k) ch) (pt_connections s)) \<le> kMaxConnections P"
    by (rule order_trans [OF length_filter_le]) (use assms in \<open>simp add: pt_inv_def\<close>)
  then have "pt_inv P (snd (RemoveClosedConnections (tk_removal k) s))"
    using assms unfolding pt_inv_def pt_clients_def RemoveClosedConnections_def
    by (auto simp: list_all_iff)
  then show ?thesis
    using assms(2) by (auto simp: turn_begins_def begin_connection_def Let_def pt_inv_def pt_clients_def RemoveClosedConnections_def)
qed

lemma pt_inv_ends:
  assumes "pt_inv P s" "\<forall>c \<in> set looks. ws_inv c"
  shows "pt_inv P (turn_ends has_callback looks steady s)"
proof -
  have "pt_inv P (end_connection looks steady s)"
  proof (cases "pt_pending s")
    case (Some pending)
    show ?thesis
    proof (cases "await_client (take 10 looks)")
      case None
      then show ?thesis using assms(1) Some by (auto simp: end_connection_def pt_inv_def pt_clients_def)
    next
      case (Some c)
      then have "ws_inv c" using await_client_started assms(2) by (metis in_set_takeD)
      then show ?thesis using assms(1) Some \<open>pt_pending s = Some pending\<close>
        by (auto simp: end_connection_def pt_inv_def pt_clients_def split: prod.splits)
    qed
  qed (use assms in \<open>simp add: end_connection_def\<close>)
  then show ?thesis
    by (auto simp: turn_ends_def Let_def NotifyConnectedOnce_def pt_inv_def pt_clients_def split: if_splits)
qed

lemma pt_inv_own: "pt_own P lib y cfg s s' \<Longrightarrow> pt_inv P s \<Longrightarrow> pt_inv P s'"
proof (induction rule: pt_own.induct)
  case (pt_turn s k steady)
  then show ?case by (simp add: pt_inv_ends pt_inv_begins)
next
  case (pt_wait s k)
  then show ?case by (simp add: pt_inv_begins)
next
  case (pt_resume s looks steady)
  then show ?case by (intro pt_inv_ends) (blast intro: ws_inv_reachable)+
next
  case (pt_client i s c)
  then have "ws_inv (tc_client (pt_connections s ! i))" by (simp add: pt_inv_def pt_clients_def list_all_length)
  then show ?case using pt_client ws_inv_step by (blast intro: pt_inv_client)
qed

lemma pt_inv_step: "pt_step P lib y cfg s s' \<Longrightarrow> pt_inv P s \<Longrightarrow> pt_inv P s'"
proof (induction rule: pt_step.induct)
  case (pt_start s)
  then show ?case by (simp add: pt_inv_def pt_clients_def ParallelTunnels_Start_def)
next
  case (pt_stop s)
  then show ?case by (auto simp: pt_inv_def pt_clients_def ParallelTunnels_Stop_def kMaxConnections_def)
next
  case (pt_send pkt s ok s')
  then show ?case by (blast intro: pt_inv_send)
next
  case (pt_self s s')
  then show ?case by (rule pt_inv_own)
qed

lemma pt_inv_reachable: "pt_reachable P lib y cfg s \<Longrightarrow> pt_inv P s"
proof (induction rule: pt_reachable.induct)
  case pt_init
  then show ?case by (simp add: ParallelTunnels_new_def pt_inv_def pt_clients_def)
qed (rule pt_inv_step)

lemma update_splits:
  assumes "j < length xs"
  shows "xs = take j xs @ xs ! j # drop (Suc j) xs" "xs[j := x] = take j xs @ x # drop (Suc j) xs"
  using assms by (simp_all add: id_take_nth_drop upd_conv_take_nth_drop)

interpretation parallel: strategy "\<lambda>_. ParallelTunnels_Send" ParallelTunnels_Stop ParallelTunnels_IsStarted
  ParallelTunnels_IsConnected pt_clients "pt_inv P" for P
proof
  fix s :: parallel_tunnels and p s' ok
  show "\<not> ParallelTunnels_IsStarted s \<Longrightarrow> ParallelTunnels_Send p s = Some (False, s)"
    by (simp add: ParallelTunnels_Send_def split: option.split)
  show "\<not> ParallelTunnels_IsStarted (ParallelTunnels_Stop s)"
    by (simp add: ParallelTunnels_IsStarted_def ParallelTunnels_Stop_def)
  show "ParallelTunnels_IsConnected s = list_ex Ws_IsStarted (pt_clients s)"
    by (simp add: ParallelTunnels_IsConnected_def pt_clients_def list_ex_iff)
  assume inv: "pt_inv P s"
  show "ParallelTunnels_Send p s = Some (False, s') \<Longrightarrow> pt_clients s' = pt_clients s"
    by (erule ParallelTunnels_Send_cases)
      (auto simp: pt_clients_def map_update Ws_Send_def list_update_same_conv split: if_splits)
  show "ParallelTunnels_Send p s = Some (True, s') \<Longrightarrow>
      \<exists>before c after. pt_clients s = before @ c # after \<and> fst (Ws_Send p c) \<and> pt_clients s' = before @ snd (Ws_Send p c) # after"
  proof (erule ParallelTunnels_Send_cases)
    fix j channel client n
    assume "j < length (pt_connections s)" "channel = pt_connections s ! j" "Ws_Send p (tc_client channel) = (True, client)"
      "s' = s\<lparr>pt_round_robin_cursor := n, pt_connections := (pt_connections s)[j := channel\<lparr>tc_client := client\<rparr>]\<rparr>"
    then have "j < length (pt_clients s)" "pt_clients s ! j = tc_client channel" "pt_clients s' = (pt_clients s)[j := client]"
      "Ws_Send p (tc_client channel) = (True, client)"
      by (simp_all add: pt_clients_def map_update)
    then show ?thesis using update_splits [of j "pt_clients s"] by (metis fst_conv snd_conv)
  qed simp
  show "ParallelTunnels_Send p s = Some (ok, s') \<Longrightarrow> pt_inv P s' \<and> ParallelTunnels_IsStarted s' = ParallelTunnels_IsStarted s"
    using pt_inv_send [OF inv] by (auto elim!: ParallelTunnels_Send_cases simp: ParallelTunnels_IsStarted_def)
  show "c \<in> set (pt_clients (ParallelTunnels_Stop s)) \<Longrightarrow> \<not> wc_running c" for c
    by (simp add: pt_clients_def ParallelTunnels_Stop_def)
  show "pt_inv P (ParallelTunnels_Stop s)"
    using inv by (auto simp: pt_inv_def pt_clients_def ParallelTunnels_Stop_def kMaxConnections_def)
qed

section \<open>Lifetimes\<close>

lemma widest_gap_loop_spec:
  assumes "sorted (prev # rs)" "0 \<le> widest" "life + (widest - widest div 2) \<le> prev"
  shows "\<exists>w \<ge> widest. List.last (prev # rs) \<le> prev + int (length rs) * w \<and>
    (\<forall>x \<in> set (prev # rs). w div 2 \<le> \<bar>widest_gap_loop prev widest life rs - x\<bar>) \<and>
    (widest_gap_loop prev widest life rs = life \<and> w = widest \<or> prev + w div 2 \<le> widest_gap_loop prev widest life rs) \<and>
    widest_gap_loop prev widest life rs \<le> List.last (prev # rs)"
  using assms
proof (induction rs arbitrary: prev widest life)
  case Nil
  then show ?case by (intro exI [of _ widest]) auto
next
  case (Cons r rs)
  define gap where "gap = r - prev"
  define W where "W = max widest gap"
  define F where "F = (if gap > widest then prev + gap div 2 else life)"
  have g: "0 \<le> gap" "sorted (r # rs)" using Cons.prems(1) by (simp_all add: gap_def)
  have W: "0 \<le> W" "F + (W - W div 2) \<le> r"
    using Cons.prems(2,3) g(1) by (auto simp: W_def F_def gap_def max_def)
  have e: "widest_gap_loop prev widest life (r # rs) = widest_gap_loop r W F rs"
    by (simp add: W_def F_def gap_def Let_def max_def)
  obtain w where w: "w \<ge> W" "List.last (r # rs) \<le> r + int (length rs) * w"
    "\<forall>x \<in> set (r # rs). w div 2 \<le> \<bar>widest_gap_loop r W F rs - x\<bar>"
    "widest_gap_loop r W F rs = F \<and> w = W \<or> r + w div 2 \<le> widest_gap_loop r W F rs"
    "widest_gap_loop r W F rs \<le> List.last (r # rs)"
    using Cons.IH [OF g(2) W] by blast
  have "r \<le> prev + w" using w(1) by (simp add: W_def gap_def)
  then have "List.last (prev # r # rs) \<le> prev + int (length (r # rs)) * w" using w(2) by (simp add: algebra_simps)
  moreover have "w div 2 \<le> \<bar>widest_gap_loop r W F rs - prev\<bar>"
    using w(4) Cons.prems(2,3) g(1) by (auto simp: W_def F_def gap_def max_def split: if_splits)
  moreover have "widest_gap_loop r W F rs = life \<and> w = widest \<or> prev + w div 2 \<le> widest_gap_loop r W F rs"
    using w(4) g(1) by (auto simp: W_def F_def gap_def max_def split: if_splits)
  moreover have "w \<ge> widest" using w(1) by (simp add: W_def)
  ultimately show ?case using w(3,5) unfolding e by (intro exI [of _ w]) auto
qed

definition spread_seconds :: "tunnels_params \<Rightarrow> int" where
  "spread_seconds P = (tp_LifetimeSeconds P - slot_seconds P) div (2 * int (tp_ConnectionCount P))"

lemma spread_seconds_le:
  assumes "tunnels_params_ok P"
  shows "spread_seconds P \<le> slot_seconds P" "0 \<le> slot_seconds P" "slot_seconds P \<le> tp_LifetimeSeconds P"
proof -
  define N L where "N = int (tp_ConnectionCount P)" and "L = tp_LifetimeSeconds P"
  have N: "2 \<le> N" "0 < L" using assms by (simp_all add: tunnels_params_ok_def N_def L_def)
  define q where "q = L div N"
  define d where "d = (L - q) div (2 * N)"
  have q0: "0 \<le> q" using N by (simp add: q_def pos_imp_zdiv_nonneg_iff)
  have L: "L = N * q + L mod N" "0 \<le> L mod N" "L mod N < N" using N by (simp_all add: q_def)
  have Nq: "q \<le> N * q" using mult_right_mono [of 1 N q] N q0 by simp
  have D: "2 * N * d \<le> L - q"
  proof -
    have "L - q = 2 * N * d + (L - q) mod (2 * N)" "0 \<le> (L - q) mod (2 * N)" using N by (simp_all add: d_def)
    then show ?thesis by linarith
  qed
  have "d \<le> q"
  proof (rule ccontr)
    assume "\<not> d \<le> q"
    then have "2 * N * (q + 1) \<le> 2 * N * d" using N by (intro mult_left_mono) auto
    then show False using D L N q0 Nq by (simp add: algebra_simps)
  qed
  moreover have "q \<le> L" using Nq L by linarith
  ultimately show "spread_seconds P \<le> slot_seconds P" "0 \<le> slot_seconds P" "slot_seconds P \<le> tp_LifetimeSeconds P"
    using q0 by (simp_all add: spread_seconds_def slot_seconds_def N_def L_def q_def d_def)
qed

lemma widest_of_many:
  fixes w L N s n :: int
  assumes "0 < N" "L - s < n * w" "n \<le> N" "0 \<le> w"
  shows "(L - s) div (2 * N) \<le> w div 2"
proof -
  define d where "d = (L - s) div (2 * N)"
  have "L - s = 2 * N * d + (L - s) mod (2 * N)" "0 \<le> (L - s) mod (2 * N)" using assms(1) by (simp_all add: d_def)
  moreover have "n * w \<le> N * w" using assms(3,4) by (rule mult_right_mono)
  ultimately have "N * (2 * d) < N * w" using assms(2) by (simp add: mult.commute mult.left_commute)
  then have "2 * d < w" using assms(1) by (simp add: mult_less_cancel_left_pos)
  then show ?thesis unfolding d_def [symmetric] by linarith
qed

lemma sorted_le_last: "sorted xs \<Longrightarrow> \<forall>x \<in> set xs. x \<le> List.last xs"
  by (induction xs) auto

lemma NextLifetimeSeconds_spread:
  assumes "tunnels_params_ok P" "length channels \<le> tp_ConnectionCount P"
  shows "spread_seconds P \<le> NextLifetimeSeconds P now channels \<and> NextLifetimeSeconds P now channels \<le> tp_LifetimeSeconds P \<and>
    (\<forall>r \<in> set (remaining_seconds P now channels). spread_seconds P \<le> \<bar>NextLifetimeSeconds P now channels - r\<bar>)"
proof -
  let ?R = "remaining_seconds P now channels" and ?L = "tp_LifetimeSeconds P" and ?s = "slot_seconds P"
  note m = spread_seconds_le [OF assms(1)]
  have set: "set ?R = set (sort ?R)" by simp
  have in_range: "0 < x \<and> x \<le> ?L" if "x \<in> set (sort ?R)" for x using that by (auto simp: remaining_seconds_def)
  have len: "length (sort ?R) \<le> tp_ConnectionCount P"
    using assms(2) order_trans [OF length_filter_le] by (simp add: remaining_seconds_def)
  show ?thesis
  proof (cases "sort ?R")
    case Nil
    then show ?thesis using m unfolding set by (simp add: NextLifetimeSeconds_def)
  next
    case (Cons r rest)
    have srt: "sorted (r # rest)" using sorted_sort [of ?R] Cons by simp
    define latest where "latest = List.last (r # rest)"
    have latest: "\<forall>x \<in> set (r # rest). x \<le> latest" using sorted_le_last [OF srt] by (simp only: latest_def)
    show ?thesis
    proof (cases "latest + ?s \<le> ?L")
      case True
      then have "NextLifetimeSeconds P now channels = latest + ?s"
        using Cons by (simp add: NextLifetimeSeconds_def latest_def Let_def)
      moreover have "0 < latest" using in_range [of latest] Cons by (simp add: latest_def)
      ultimately show ?thesis using m True latest unfolding set Cons by auto
    next
      case False
      then have e: "NextLifetimeSeconds P now channels = widest_gap_loop r r (r div 2) rest"
        using Cons by (simp add: NextLifetimeSeconds_def latest_def Let_def)
      have r: "0 < r" using in_range [of r] Cons by simp
      obtain w where w: "w \<ge> r" "latest \<le> r + int (length rest) * w"
        "\<forall>x \<in> set (r # rest). w div 2 \<le> \<bar>widest_gap_loop r r (r div 2) rest - x\<bar>"
        "widest_gap_loop r r (r div 2) rest = r div 2 \<and> w = r \<or> r + w div 2 \<le> widest_gap_loop r r (r div 2) rest"
        "widest_gap_loop r r (r div 2) rest \<le> latest"
        using widest_gap_loop_spec [OF srt, of r "r div 2"] r unfolding latest_def by auto
      have "int (length (r # rest)) * w = w + int (length rest) * w" by (simp add: algebra_simps)
      then have "?L - ?s < int (length (r # rest)) * w" using w(1,2) False by linarith
      then have "spread_seconds P \<le> w div 2"
        unfolding spread_seconds_def
        by (rule widest_of_many [rotated]) (use len Cons r w(1) assms(1) in \<open>simp_all add: tunnels_params_ok_def\<close>)
      moreover have "latest \<le> ?L" using in_range [of latest] Cons by (simp add: latest_def)
      moreover have "w div 2 \<le> widest_gap_loop r r (r div 2) rest" using w(4) r by auto
      ultimately show ?thesis using w(3,5) unfolding e set Cons by (meson order_trans)
    qed
  qed
qed

section \<open>Properties of parallel tunnels\<close>

text \<open>The pool of parallel tunnels is bounded: whatever calls, turns of the coroutine, steps of the
  clients and answers of the server come in whatever order, there are at most one connection more
  than the configured number, and the connected callback is called at most once.\<close>

theorem pool_bounded:
  assumes "pt_reachable P lib y cfg s"
  shows "length (pt_connections s) \<le> tp_ConnectionCount P + 1 \<and> pt_callbacks s \<le> 1"
  using pt_inv_reachable [OF assms] by (auto simp: pt_inv_def kMaxConnections_def split: if_splits)

theorem pool_bounded_witness: "length (pt_connections (ParallelTunnels_Start ParallelTunnels_new)) \<le> 2 + 1"
proof -
  have "pt_reachable DualTunnel demo_lib demo_yaff demo_client (ParallelTunnels_Start ParallelTunnels_new)"
    by (rule pt_next [OF pt_init pt_start])
  from pool_bounded [OF this] show ?thesis by (simp add: DualTunnel_def)
qed

text \<open>A new connection closes away from the others: when the pool has at most the configured number
  of connections, the lifetime chosen for the next one lies within the configured lifetime, and
  from every remaining lifetime in that range (and from zero) it keeps the distance of the spread,
  which is 75 seconds for two tunnels and 66 for three. So the sockets do not close together.\<close>

theorem lifetimes_spread:
  assumes "tunnels_params_ok P" and "length channels \<le> tp_ConnectionCount P"
  shows "spread_seconds P \<le> NextLifetimeSeconds P now channels \<and>
    NextLifetimeSeconds P now channels \<le> tp_LifetimeSeconds P \<and>
    (\<forall>channel \<in> set channels. let r = whole_seconds (tc_close_at channel - now) in
       0 < r \<and> r \<le> tp_LifetimeSeconds P \<longrightarrow> spread_seconds P \<le> \<bar>NextLifetimeSeconds P now channels - r\<bar>)"
  using NextLifetimeSeconds_spread [OF assms, of now] by (simp add: remaining_seconds_def Let_def)

definition demo_channel :: "int \<Rightarrow> tunnel_channel" where
  "demo_channel t = \<lparr>tc_connection_id = 1, tc_close_at = t * ns_per_second, tc_client = WebsocketClient_new\<rparr>"

theorem lifetimes_spread_witness:
  "spread_seconds DualTunnel = 75 \<and> spread_seconds TripleTunnel = 66 \<and>
   NextLifetimeSeconds DualTunnel 0 [demo_channel 590, demo_channel 20] = 305 \<and>
   75 \<le> \<bar>NextLifetimeSeconds DualTunnel 0 [demo_channel 590, demo_channel 20] - 590\<bar>"
proof -
  have s: "spread_seconds DualTunnel = 75" "spread_seconds TripleTunnel = 66" "tunnels_params_ok DualTunnel"
    by (simp_all add: spread_seconds_def slot_seconds_def DualTunnel_def TripleTunnel_def tunnels_params_ok_def)
  have w: "whole_seconds (tc_close_at (demo_channel t) - 0) = t" if "0 \<le> t" for t
    using that by (simp add: whole_seconds_def demo_channel_def ns_per_second_def)
  have "length [demo_channel 590, demo_channel 20] \<le> tp_ConnectionCount DualTunnel" by (simp add: DualTunnel_def)
  from lifetimes_spread [OF s(3) this, of 0] have "75 \<le> \<bar>NextLifetimeSeconds DualTunnel 0 [demo_channel 590, demo_channel 20] - 590\<bar>"
    using w [of 590] s(1) by (simp add: Let_def DualTunnel_def)
  moreover have "NextLifetimeSeconds DualTunnel 0 [demo_channel 590, demo_channel 20] = 305"
    using w [of 590] w [of 20]
    by (simp add: NextLifetimeSeconds_def remaining_seconds_def DualTunnel_def slot_seconds_def Let_def)
  ultimately show ?thesis using s by blast
qed

text \<open>The search finds a started connection when there is one, and the first choice when that is started.\<close>

lemma find_started_complete:
  assumes "j < length channels" "Ws_IsStarted (tc_client (channels ! j))" "unat start + length channels < 2 ^ 64"
  shows "find_started start channels [0..<length channels] \<noteq> None"
proof -
  let ?n = "length channels"
  have n: "0 < ?n" using assms(1) by auto
  have step: "find_started start channels is \<noteq> None"
    if "\<exists>i \<in> set is. Ws_IsStarted (tc_client (channels ! (unat (start + of_nat i) mod ?n)))" for "is"
    using that by (induction "is") (auto simp: Let_def)
  define i where "i = (j + (?n - unat start mod ?n)) mod ?n"
  have i: "i < ?n" using n by (simp add: i_def)
  have "unat start + i < 2 ^ 64" using i assms(3) by simp
  then have "unat (start + of_nat i) = unat start + i"
    by (simp add: unat_word_ariths(1) unat_of_nat)
  moreover have "(unat start + i) mod ?n = j"
  proof -
    have "(unat start + i) mod ?n = (unat start mod ?n + (j + (?n - unat start mod ?n))) mod ?n"
      by (simp add: i_def mod_simps)
    also have "unat start mod ?n + (j + (?n - unat start mod ?n)) = j + ?n" using n mod_less_divisor [OF n, of "unat start"] by linarith
    finally show ?thesis using assms(1) by simp
  qed
  ultimately show ?thesis using step [of "[0..<?n]"] i assms(2) by (metis atLeastLessThan_iff le0 set_upt)
qed

lemma find_started_first:
  assumes "channels \<noteq> []" "Ws_IsStarted (tc_client (channels ! (unat start mod length channels)))"
  shows "find_started start channels [0..<length channels] = Some (unat start mod length channels)"
proof -
  have "[0..<length channels] = 0 # [1..<length channels]" using assms(1) by (simp add: upt_conv_Cons)
  then show ?thesis using assms(2) by (simp only: find_started.simps) (simp add: Let_def)
qed

lemma send_start_port:
  assumes "IPPacket_Parse raw cid = Some p" "IsTCP p \<or> IsUDP p"
  shows "\<exists>port. (GetTcpSrcPort p = Some port \<or> GetUdpSrcPort p = Some port) \<and> send_start p s = Some (ucast (port :: u16), s)"
proof -
  have "parsed p" using assms(1) unfolding IPPacket_Parse_iff by (rule conjunct2)
  then obtain t u where "GetTcpSrcPort p = Some t" "GetUdpSrcPort p = Some u" using ports_defined by blast
  then show ?thesis using assms(2) by (cases "IsTCP p") (auto simp: send_start_def)
qed

text \<open>Flows stick to their connection: a TCP or UDP packet is given to a started connection whenever
  there is one, namely to the one that its source port selects when that is started; so as long as
  the pool does not change, the packets of a flow stay on one connection and in order.\<close>

theorem flows_stick:
  assumes "IPPacket_Parse raw cid = Some p" and "IsTCP p \<or> IsUDP p" and "ParallelTunnels_IsStarted s"
    and "ParallelTunnels_IsConnected s" and "length (pt_connections s) < 1000"
  shows "\<exists>port j client sent. (GetTcpSrcPort p = Some port \<or> GetUdpSrcPort p = Some port) \<and>
    j < length (pt_connections s) \<and> Ws_IsStarted (tc_client (pt_connections s ! j)) \<and>
    Ws_Send (Some p) (tc_client (pt_connections s ! j)) = (sent, client) \<and>
    ParallelTunnels_Send (Some p) s =
      Some (sent, s\<lparr>pt_connections := (pt_connections s)[j := (pt_connections s ! j)\<lparr>tc_client := client\<rparr>]\<rparr>) \<and>
    (Ws_IsStarted (tc_client (pt_connections s ! (unat port mod length (pt_connections s)))) \<longrightarrow>
      j = unat port mod length (pt_connections s))"
proof -
  let ?C = "pt_connections s"
  obtain port where port: "GetTcpSrcPort p = Some port \<or> GetUdpSrcPort p = Some port" "send_start p s = Some (ucast (port :: u16), s)"
    using send_start_port [OF assms(1,2)] by blast
  obtain k where k: "k < length ?C" "Ws_IsStarted (tc_client (?C ! k))"
    using assms(4) by (auto simp: ParallelTunnels_IsConnected_def list_ex_length)
  then have ne: "?C \<noteq> []" by auto
  have u: "unat (ucast port :: u64) = unat port" by (simp add: unat_ucast_eq_mod order.strict_trans [OF unat_u16_less])
  have "unat port + length ?C < 66536" using add_strict_mono [OF unat_u16_less assms(5)] by simp
  then have "unat (ucast port :: u64) + length ?C < 2 ^ 64" using u by simp
  from find_started_complete [OF k this] obtain j where
    j: "find_started (ucast port) ?C [0..<length ?C] = Some j" by blast
  obtain sent client where c: "Ws_Send (Some p) (tc_client (?C ! j)) = (sent, client)" by fastforce
  have "ParallelTunnels_Send (Some p) s = Some (sent, s\<lparr>pt_connections := ?C[j := (?C ! j)\<lparr>tc_client := client\<rparr>]\<rparr>)"
    using assms(3) ne port(2) j c by (simp add: ParallelTunnels_Send_def Let_def)
  moreover have "j = unat port mod length ?C" if "Ws_IsStarted (tc_client (?C ! (unat port mod length ?C)))"
    using find_started_first [OF ne, of "ucast port"] that j u by simp
  ultimately show ?thesis using port(1) find_started_Some [OF j ne] c by blast
qed

definition demo_pool :: parallel_tunnels where
  "demo_pool = ParallelTunnels_new\<lparr>pt_running := True,
     pt_connections := [\<lparr>tc_connection_id = 1, tc_close_at = 0, tc_client = demo_connected\<rparr>]\<rparr>"

theorem flows_stick_witness: "\<exists>s'. ParallelTunnels_Send (Some demo_udp) demo_pool = Some (True, s')"
proof -
  have s: "Ws_IsStarted demo_connected" "fst (Ws_Send (Some demo_udp) demo_connected)"
    by (simp_all add: demo_connected_def ws_defs WebsocketClient_new_def ReceiveIPAssignment_def demo_yaff_def kMaxSizeOutQueue_def)
  have "IPPacket_Parse udp_packet 7 = Some demo_udp"
    using demo_udp_facts(3) by (simp add: IPPacket_Parse_iff demo_udp_def)
  moreover have "IsUDP demo_udp" by (simp add: IsUDP_def demo_udp_def IsIPv4_iff udp_packet_facts Ipv4Proto_def rd_def kMinIPv4_def) (simp add: udp_packet_def)
  moreover have "ParallelTunnels_IsStarted demo_pool" "ParallelTunnels_IsConnected demo_pool" "length (pt_connections demo_pool) < 1000"
    using s(1) by (simp_all add: demo_pool_def ParallelTunnels_IsStarted_def ParallelTunnels_IsConnected_def)
  ultimately obtain j client sent where "j < length (pt_connections demo_pool)"
    "Ws_Send (Some demo_udp) (tc_client (pt_connections demo_pool ! j)) = (sent, client)"
    "\<exists>s'. ParallelTunnels_Send (Some demo_udp) demo_pool = Some (sent, s')"
    using flows_stick [of udp_packet 7 demo_udp demo_pool] by blast
  then show ?thesis using s(2) by (auto simp: demo_pool_def)
qed

text \<open>In the first seconds after the machine has started there is no connection: the time of the last
  spawn starts as the epoch of the steady clock, which on most systems is the start of the machine,
  so until a stagger interval has passed the first turn of fresh tunnels creates no connection,
  finds the pool empty and stops, without having tried.\<close>

theorem no_tunnel_after_boot:
  assumes "tk_steady k < tp_StaggerSeconds P * ns_per_second" and "tp_StaggerSeconds P > 0" and "tp_ConnectionCount P > 0"
  shows "let s = turn_begins P k (ParallelTunnels_Start ParallelTunnels_new) in
    pt_pending s = None \<and> \<not> ParallelTunnels_IsStarted (turn_ends has_callback looks steady s)"
  using assms
  by (simp add: turn_begins_def RemoveClosedConnections_def begin_connection_def ParallelTunnels_Start_def ParallelTunnels_new_def
      ParallelTunnels_IsStarted_def healthy_count_def turn_ends_def end_connection_def IsPoolEmpty_def)

theorem no_tunnel_after_boot_witness:
  "\<not> ParallelTunnels_IsStarted (turn_ends True [] 0 (turn_begins DualTunnel
     \<lparr>tk_removal = 0, tk_count = 0, tk_steady = 29999999999, tk_lifetime = 0, tk_creation = 0\<rparr> (ParallelTunnels_Start ParallelTunnels_new)))"
  using no_tunnel_after_boot [of "\<lparr>tk_removal = 0, tk_count = 0, tk_steady = 29999999999, tk_lifetime = 0, tk_creation = 0\<rparr>" DualTunnel True "[]" 0]
  by (simp add: DualTunnel_def ns_per_second_def Let_def)

end
