(* ===== verification/SingleTunnels.thy ===== *)
theory SingleTunnels
  imports Tunnels
begin

text \<open>
  The strategies with one active connection: \<open>persistent_tunnel/persistent_tunnel.cpp\<close> keeps one until it
  breaks, \<open>rolling_tunnel/rolling_tunnel.cpp\<close> replaces its connection every nine minutes by a fresh
  one, which is brought up first. Both are instances of the locale \<open>strategy\<close>.
\<close>

section \<open>Persistent tunnel\<close>

record persistent_tunnel =
  pn_running :: bool
  pn_client :: "ws_client option"

definition PersistentTunnel_new :: persistent_tunnel where
  "PersistentTunnel_new = \<lparr>pn_running = False, pn_client = None\<rparr>"

definition PersistentTunnel_Start :: "persistent_tunnel \<Rightarrow> persistent_tunnel" where
  "PersistentTunnel_Start s = s\<lparr>pn_running := True, pn_client := Some (Ws_Run WebsocketClient_new)\<rparr>"

text \<open>One look of the loop that drives the client: whether it goes on.\<close>

definition persistent_turn :: "persistent_tunnel \<Rightarrow> bool \<times> persistent_tunnel" where
  "persistent_turn s =
     (case pn_client s of
        None \<Rightarrow> (False, s\<lparr>pn_running := False\<rparr>)
      | Some c \<Rightarrow> if pn_running s \<and> \<not> Ws_IsStopped c then (True, s) else (False, s\<lparr>pn_running := False\<rparr>))"

definition PersistentTunnel_Stop :: "persistent_tunnel \<Rightarrow> persistent_tunnel" where
  "PersistentTunnel_Stop s = s\<lparr>pn_running := False, pn_client := map_option (\<lambda>c. snd (Ws_Stop c)) (pn_client s)\<rparr>"

definition PersistentTunnel_Send :: "ip_packet option \<Rightarrow> persistent_tunnel \<Rightarrow> bool \<times> persistent_tunnel" where
  "PersistentTunnel_Send packet s =
     (case pn_client s of
        None \<Rightarrow> (False, s)
      | Some c \<Rightarrow>
          if pn_running s then (case Ws_Send packet c of (sent, c) \<Rightarrow> (sent, s\<lparr>pn_client := Some c\<rparr>))
          else (False, s))"

definition PersistentTunnel_IsStarted :: "persistent_tunnel \<Rightarrow> bool" where
  "PersistentTunnel_IsStarted s = pn_running s"

definition PersistentTunnel_IsConnected :: "persistent_tunnel \<Rightarrow> bool" where
  "PersistentTunnel_IsConnected s = (case pn_client s of None \<Rightarrow> False | Some c \<Rightarrow> Ws_IsStarted c)"

definition pn_clients :: "persistent_tunnel \<Rightarrow> ws_client list" where
  "pn_clients s = (case pn_client s of None \<Rightarrow> [] | Some c \<Rightarrow> [c])"

lemma Ws_Stop_not_running: "\<not> wc_running (snd (Ws_Stop c))"
  by (simp add: Ws_Stop_def Let_def)

lemma Ws_Send_refused: "Ws_Send p c = (False, c') \<Longrightarrow> c' = c"
  by (auto simp: Ws_Send_def split: if_splits)

interpretation persistent: strategy "\<lambda>_ p s. Some (PersistentTunnel_Send p s)" PersistentTunnel_Stop PersistentTunnel_IsStarted
  PersistentTunnel_IsConnected pn_clients "\<lambda>s. list_all ws_inv (pn_clients s)"
proof
  fix s p s' ok
  show "\<not> PersistentTunnel_IsStarted s \<Longrightarrow> Some (PersistentTunnel_Send p s) = Some (False, s)"
    by (simp add: PersistentTunnel_Send_def PersistentTunnel_IsStarted_def split: option.split)
  show "\<not> PersistentTunnel_IsStarted (PersistentTunnel_Stop s)"
    by (simp add: PersistentTunnel_IsStarted_def PersistentTunnel_Stop_def)
  show "PersistentTunnel_IsConnected s = list_ex Ws_IsStarted (pn_clients s)"
    by (simp add: PersistentTunnel_IsConnected_def pn_clients_def split: option.split)
  show "Some (PersistentTunnel_Send p s) = Some (False, s') \<Longrightarrow> pn_clients s' = pn_clients s"
    by (auto simp: PersistentTunnel_Send_def pn_clients_def dest: Ws_Send_refused split: option.splits if_splits prod.splits)
  show "Some (PersistentTunnel_Send p s) = Some (True, s') \<Longrightarrow>
      \<exists>before c after. pn_clients s = before @ c # after \<and> fst (Ws_Send p c) \<and> pn_clients s' = before @ snd (Ws_Send p c) # after"
    by (auto simp: PersistentTunnel_Send_def pn_clients_def split: option.splits if_splits prod.splits)
      (metis append_Nil fst_conv snd_conv)
  assume inv: "list_all ws_inv (pn_clients s)"
  show "Some (PersistentTunnel_Send p s) = Some (ok, s') \<Longrightarrow>
      list_all ws_inv (pn_clients s') \<and> PersistentTunnel_IsStarted s' = PersistentTunnel_IsStarted s"
    using inv ws_inv_Send [of _ p]
    by (auto simp: PersistentTunnel_Send_def PersistentTunnel_IsStarted_def pn_clients_def
        split: option.splits if_splits prod.splits) (metis snd_conv)
  show "c \<in> set (pn_clients (PersistentTunnel_Stop s)) \<Longrightarrow> \<not> wc_running c" for c
    by (auto simp: pn_clients_def PersistentTunnel_Stop_def Ws_Stop_not_running split: option.splits)
  show "list_all ws_inv (pn_clients (PersistentTunnel_Stop s))"
    using inv by (auto simp: pn_clients_def PersistentTunnel_Stop_def ws_inv_Stop split: option.splits)
qed

section \<open>Rolling tunnel\<close>

definition kRenewAfterSeconds :: int where "kRenewAfterSeconds = 9 * 60"
definition kConnectBudgetSeconds :: int where "kConnectBudgetSeconds = 60"

record rolling_tunnel =
  ro_running :: bool
  ro_connected_notified :: bool
  ro_connection_id_counter :: u64
  ro_active_connection :: "ws_client option"
  ro_renew_at :: int
  ro_pending :: bool
  ro_callbacks :: nat

definition RollingTunnel_new :: rolling_tunnel where
  "RollingTunnel_new = \<lparr>ro_running = False, ro_connected_notified = False, ro_connection_id_counter = 0,
     ro_active_connection = None, ro_renew_at = 0, ro_pending = False, ro_callbacks = 0\<rparr>"

definition RollingTunnel_Start :: "rolling_tunnel \<Rightarrow> rolling_tunnel" where
  "RollingTunnel_Start s = s\<lparr>ro_running := True\<rparr>"

definition RollingTunnel_Stop :: "rolling_tunnel \<Rightarrow> rolling_tunnel" where
  "RollingTunnel_Stop s = s\<lparr>ro_running := False, ro_active_connection := None\<rparr>"

definition RollingTunnel_Send :: "ip_packet option \<Rightarrow> rolling_tunnel \<Rightarrow> bool \<times> rolling_tunnel" where
  "RollingTunnel_Send packet s =
     (if \<not> ro_running s then (False, s)
      else
        (case ro_active_connection s of
           None \<Rightarrow> (False, s)
         | Some connection \<Rightarrow>
             (case Ws_Send packet connection of
                (sent, connection) \<Rightarrow> (sent, s\<lparr>ro_active_connection := Some connection\<rparr>))))"

definition RollingTunnel_IsStarted :: "rolling_tunnel \<Rightarrow> bool" where
  "RollingTunnel_IsStarted s = ro_running s"

definition RollingTunnel_IsConnected :: "rolling_tunnel \<Rightarrow> bool" where
  "RollingTunnel_IsConnected s = (case ro_active_connection s of None \<Rightarrow> False | Some c \<Rightarrow> Ws_IsStarted c)"

definition HasActiveConnection :: "rolling_tunnel \<Rightarrow> bool" where
  "HasActiveConnection s \<longleftrightarrow> ro_active_connection s \<noteq> None"

definition ActiveConnectionIsStopped :: "rolling_tunnel \<Rightarrow> bool" where
  "ActiveConnectionIsStopped s = (case ro_active_connection s of None \<Rightarrow> False | Some c \<Rightarrow> Ws_IsStopped c)"

text \<open>The new client is looked at until the budget is spent; each look has its reading of the steady
  clock.\<close>

fun await_until :: "int \<Rightarrow> (int \<times> ws_client) list \<Rightarrow> ws_client option" where
  "await_until deadline [] = None"
| "await_until deadline ((now, c) # looks) =
     (if \<not> now < deadline then None
      else if Ws_IsStarted c then Some c
      else if Ws_IsStopped c then None
      else await_until deadline looks)"

text \<open>A turn of the coroutine up to the wait for a new connection.\<close>

definition rolling_begins :: "int \<Rightarrow> rolling_tunnel \<Rightarrow> rolling_tunnel" where
  "rolling_begins now s =
     (if ActiveConnectionIsStopped s then s\<lparr>ro_running := False\<rparr>
      else if \<not> HasActiveConnection s \<or> now \<ge> ro_renew_at s
      then s\<lparr>ro_pending := True, ro_connection_id_counter := ro_connection_id_counter s + 1\<rparr>
      else s)"

definition RollingTunnel_NotifyConnectedOnce :: "bool \<Rightarrow> rolling_tunnel \<Rightarrow> rolling_tunnel" where
  "RollingTunnel_NotifyConnectedOnce has_callback s =
     (if ro_connected_notified s \<or> \<not> RollingTunnel_IsConnected s then s
      else s\<lparr>ro_connected_notified := True, ro_callbacks := ro_callbacks s + (if has_callback then 1 else 0)\<rparr>)"

text \<open>The replaced connection is stopped by a coroutine of its own.\<close>

definition RenewConnection :: "ws_client option \<Rightarrow> int \<Rightarrow> rolling_tunnel \<Rightarrow> bool \<times> rolling_tunnel" where
  "RenewConnection connection now s =
     (case connection of
        None \<Rightarrow> (False, s)
      | Some c \<Rightarrow> (True, s\<lparr>ro_active_connection := Some c, ro_renew_at := now + kRenewAfterSeconds * ns_per_second\<rparr>))"

definition rolling_ends :: "bool \<Rightarrow> int \<Rightarrow> (int \<times> ws_client) list \<Rightarrow> int \<Rightarrow> rolling_tunnel \<Rightarrow> rolling_tunnel" where
  "rolling_ends has_callback started looks now s =
     (if ro_pending s then
        (let (renewed, s) = RenewConnection (await_until (started + kConnectBudgetSeconds * ns_per_second) looks) now
               (s\<lparr>ro_pending := False\<rparr>) in
         if renewed then RollingTunnel_NotifyConnectedOnce has_callback s else s\<lparr>ro_running := False\<rparr>)
      else RollingTunnel_NotifyConnectedOnce has_callback s)"

definition ro_clients :: "rolling_tunnel \<Rightarrow> ws_client list" where
  "ro_clients s = (case ro_active_connection s of None \<Rightarrow> [] | Some c \<Rightarrow> [c])"

interpretation rolling: strategy "\<lambda>_ p s. Some (RollingTunnel_Send p s)" RollingTunnel_Stop RollingTunnel_IsStarted
  RollingTunnel_IsConnected ro_clients "\<lambda>s. list_all ws_inv (ro_clients s)"
proof
  fix s p s' ok
  show "\<not> RollingTunnel_IsStarted s \<Longrightarrow> Some (RollingTunnel_Send p s) = Some (False, s)"
    by (simp add: RollingTunnel_Send_def RollingTunnel_IsStarted_def)
  show "\<not> RollingTunnel_IsStarted (RollingTunnel_Stop s)"
    by (simp add: RollingTunnel_IsStarted_def RollingTunnel_Stop_def)
  show "RollingTunnel_IsConnected s = list_ex Ws_IsStarted (ro_clients s)"
    by (simp add: RollingTunnel_IsConnected_def ro_clients_def split: option.split)
  show "Some (RollingTunnel_Send p s) = Some (False, s') \<Longrightarrow> ro_clients s' = ro_clients s"
    by (auto simp: RollingTunnel_Send_def ro_clients_def dest: Ws_Send_refused split: option.splits if_splits prod.splits)
  show "Some (RollingTunnel_Send p s) = Some (True, s') \<Longrightarrow>
      \<exists>before c after. ro_clients s = before @ c # after \<and> fst (Ws_Send p c) \<and> ro_clients s' = before @ snd (Ws_Send p c) # after"
    by (auto simp: RollingTunnel_Send_def ro_clients_def split: option.splits if_splits prod.splits)
      (metis append_Nil fst_conv snd_conv)
  assume inv: "list_all ws_inv (ro_clients s)"
  show "Some (RollingTunnel_Send p s) = Some (ok, s') \<Longrightarrow>
      list_all ws_inv (ro_clients s') \<and> RollingTunnel_IsStarted s' = RollingTunnel_IsStarted s"
    using inv ws_inv_Send [of _ p]
    by (auto simp: RollingTunnel_Send_def RollingTunnel_IsStarted_def ro_clients_def
        split: option.splits if_splits prod.splits) (metis snd_conv)
  show "c \<in> set (ro_clients (RollingTunnel_Stop s)) \<Longrightarrow> \<not> wc_running c" for c
    by (simp add: ro_clients_def RollingTunnel_Stop_def)
  show "list_all ws_inv (ro_clients (RollingTunnel_Stop s))"
    by (simp add: ro_clients_def RollingTunnel_Stop_def)
qed

lemma await_until_started: "await_until deadline looks = Some c \<Longrightarrow> Ws_IsStarted c \<and> (\<exists>t < deadline. (t, c) \<in> set looks)"
  by (induction looks) (auto split: if_splits)

text \<open>The rolling tunnel makes before it breaks: when its connection is due, the turn leaves the old
  connection in place and packets go on through it; a new connection that is seen started within
  the budget of a minute takes over for nine minutes, and the tunnel is connected then; when there
  is none, the tunnel ends with the old connection still there, so it never runs on without one.\<close>

theorem rolling_make_before_break:
  assumes "ro_running s" and "\<not> ro_pending s" and "ro_active_connection s = Some c" and "\<not> Ws_IsStopped c" and "ro_renew_at s \<le> now"
    and "s1 = rolling_begins now s" and "s2 = rolling_ends has_callback started looks now2 s1"
  shows "ro_pending s1 \<and> fst (RollingTunnel_Send p s1) = fst (Ws_Send p c) \<and>
    (if ro_running s2
     then RollingTunnel_IsConnected s2 \<and> ro_renew_at s2 = now2 + 540 * ns_per_second \<and>
       (\<exists>t new. t < started + 60 * ns_per_second \<and> (t, new) \<in> set looks \<and> ro_active_connection s2 = Some new)
     else ro_active_connection s2 = Some c)"
proof -
  have 1: "ro_pending s1" "ro_running s1" "ro_active_connection s1 = Some c"
    using assms by (simp_all add: rolling_begins_def ActiveConnectionIsStopped_def)
  show ?thesis
  proof (cases "await_until (started + kConnectBudgetSeconds * ns_per_second) looks")
    case None
    then show ?thesis using 1 assms(7) by (simp add: rolling_ends_def RenewConnection_def RollingTunnel_Send_def split: prod.split)
  next
    case (Some new)
    have s2: "s2 = RollingTunnel_NotifyConnectedOnce has_callback
        (s1\<lparr>ro_pending := False, ro_active_connection := Some new, ro_renew_at := now2 + kRenewAfterSeconds * ns_per_second\<rparr>)"
      using 1 Some assms(7) by (simp add: rolling_ends_def RenewConnection_def)
    then have "ro_active_connection s2 = Some new" "ro_running s2" "ro_renew_at s2 = now2 + 540 * ns_per_second"
      using 1(2) by (simp_all add: RollingTunnel_NotifyConnectedOnce_def kRenewAfterSeconds_def)
    then show ?thesis using await_until_started [OF Some] 1
      by (auto simp: RollingTunnel_IsConnected_def RollingTunnel_Send_def kConnectBudgetSeconds_def split: prod.split)
  qed
qed

definition demo_rolling :: rolling_tunnel where
  "demo_rolling = RollingTunnel_new\<lparr>ro_running := True, ro_active_connection := Some demo_connected, ro_renew_at := 5\<rparr>"

theorem rolling_make_before_break_witness:
  "\<exists>c. ro_active_connection (rolling_ends True 10 [(20, WebsocketClient_new)] 30 (rolling_begins 7 demo_rolling)) = Some c"
proof -
  have "\<not> Ws_IsStopped demo_connected"
    by (simp add: demo_connected_def ws_defs WebsocketClient_new_def ReceiveIPAssignment_def demo_yaff_def)
  then have "ro_running demo_rolling" "\<not> ro_pending demo_rolling" "ro_active_connection demo_rolling = Some demo_connected"
    "\<not> Ws_IsStopped demo_connected" "ro_renew_at demo_rolling \<le> 7"
    by (simp_all add: demo_rolling_def RollingTunnel_new_def)
  from rolling_make_before_break [OF this refl refl, of None True 10 "[(20, WebsocketClient_new)]" 30]
  show ?thesis by metis
qed

end
