(* ===== verification/Mimicry.thy ===== *)
theory Mimicry
  imports SingleTunnels
begin

text \<open>
  The strategy that looks like a browser, \<open>browser_mimicry/browser_mimicry.cpp\<close>: a pool of short-lived
  connections, of which some are for sending and the others only receive. A connection that the
  source shares between its three lists is in \<open>mi_all\<close>; the two other lists hold its id.
\<close>

section \<open>State\<close>

datatype connection_status = kCreating | kSending | kReceiving | kError

record connection_context =
  cx_connection_id :: u64
  cx_status :: connection_status
  cx_send_mode_until :: int
  cx_expire_after :: int
  cx_client :: ws_client

definition ConnectionContext_new :: "u64 \<Rightarrow> int \<Rightarrow> int \<Rightarrow> int \<Rightarrow> ws_client \<Rightarrow> connection_context" where
  "ConnectionContext_new cid now send_mode_seconds ttl_seconds client =
     \<lparr>cx_connection_id = cid, cx_status = kCreating,
      cx_send_mode_until = now + send_mode_seconds * ns_per_second,
      cx_expire_after = now + ttl_seconds * ns_per_second, cx_client = client\<rparr>"

definition SendTimeExpired :: "int \<Rightarrow> connection_context \<Rightarrow> bool" where
  "SendTimeExpired now c \<longleftrightarrow> now \<ge> cx_send_mode_until c"

definition IsExpired :: "int \<Rightarrow> connection_context \<Rightarrow> bool" where
  "IsExpired now c \<longleftrightarrow> cx_expire_after c \<le> now"

definition CanSend :: "int \<Rightarrow> connection_context \<Rightarrow> bool" where
  "CanSend now c \<longleftrightarrow> cx_status c = kSending \<and> now < cx_send_mode_until c"

record pool_settings =
  ps_min_connections :: nat
  ps_max_connections :: nat
  ps_ttl_min :: int
  ps_ttl_max :: int
  ps_sending_min :: int
  ps_sending_max :: int
  ps_min_sending_seconds :: int

definition PoolSettings_default :: pool_settings where
  "PoolSettings_default = \<lparr>ps_min_connections = 4, ps_max_connections = 8, ps_ttl_min = 8, ps_ttl_max = 60,
     ps_sending_min = 5, ps_sending_max = 30, ps_min_sending_seconds = 1\<rparr>"

text \<open>The counter of connection ids is a static variable of the source. \<open>mi_todo\<close> is the state of the
  creating loop inside a turn: its counter, how many connections for sending are wanted, and how
  many in all.\<close>

record browser_mimicry =
  mi_running :: bool
  mi_connected_notified :: bool
  mi_id_counter :: u64
  mi_all :: "connection_context list"
  mi_getting :: "u64 list"
  mi_sending :: "u64 list"
  mi_todo :: "(nat \<times> nat \<times> nat) option"
  mi_callbacks :: nat

definition BrowserMimicry_new :: "u64 \<Rightarrow> browser_mimicry" where
  "BrowserMimicry_new counter = \<lparr>mi_running = False, mi_connected_notified = False, mi_id_counter = counter, mi_all = [],
     mi_getting = [], mi_sending = [], mi_todo = None, mi_callbacks = 0\<rparr>"

section \<open>Calls\<close>

definition BrowserMimicry_Start :: "browser_mimicry \<Rightarrow> browser_mimicry" where
  "BrowserMimicry_Start s = s\<lparr>mi_running := True\<rparr>"

definition BrowserMimicry_Stop :: "browser_mimicry \<Rightarrow> browser_mimicry" where
  "BrowserMimicry_Stop s = s\<lparr>mi_running := False, mi_all := [], mi_sending := [], mi_getting := []\<rparr>"

definition BrowserMimicry_IsStarted :: "browser_mimicry \<Rightarrow> bool" where
  "BrowserMimicry_IsStarted s = mi_running s"

definition BrowserMimicry_IsConnected :: "browser_mimicry \<Rightarrow> bool" where
  "BrowserMimicry_IsConnected s = list_ex (\<lambda>c. Ws_IsStarted (cx_client c)) (mi_all s)"

definition BrowserMimicry_IsPoolEmpty :: "browser_mimicry \<Rightarrow> bool" where
  "BrowserMimicry_IsPoolEmpty s \<longleftrightarrow> mi_all s = []"

text \<open>\<open>GetRandomInt\<close>: a draw, brought into the range.\<close>

definition GetRandomInt :: "int \<Rightarrow> int \<Rightarrow> nat \<Rightarrow> int" where
  "GetRandomInt min_value max_value draw = min_value + int draw mod (max_value - min_value + 1)"

fun index_of_id :: "u64 \<Rightarrow> connection_context list \<Rightarrow> nat option" where
  "index_of_id i [] = None"
| "index_of_id i (c # cs) = (if cx_connection_id c = i then Some 0 else map_option Suc (index_of_id i cs))"

definition BrowserMimicry_Send :: "nat \<Rightarrow> ip_packet option \<Rightarrow> browser_mimicry \<Rightarrow> bool \<times> browser_mimicry" where
  "BrowserMimicry_Send draw packet s =
     (if \<not> BrowserMimicry_IsStarted s then (False, s)
      else
        (let pool = (if mi_sending s \<noteq> [] then mi_sending s else mi_getting s) in
         if pool = [] then (False, s)
         else
           (case index_of_id (pool ! nat (GetRandomInt 0 (int (length pool) - 1) draw)) (mi_all s) of
              None \<Rightarrow> (False, s)
            | Some j \<Rightarrow>
                (case Ws_Send packet (cx_client (mi_all s ! j)) of
                   (sent, client) \<Rightarrow> (sent, s\<lparr>mi_all := (mi_all s)[j := (mi_all s ! j)\<lparr>cx_client := client\<rparr>]\<rparr>)))))"

section \<open>The managing coroutine\<close>

definition RemoveFromConnectionList :: "u64 \<Rightarrow> u64 list \<Rightarrow> u64 list" where
  "RemoveFromConnectionList i connections = remove1 i connections"

definition context_dead :: "int \<Rightarrow> connection_context \<Rightarrow> bool" where
  "context_dead now c \<longleftrightarrow> IsExpired now c \<or> cx_status c = kError"

text \<open>The loop of \<open>RemoveExpiredConnections\<close>; each connection is compared with a reading of its own.\<close>

fun remove_expired :: "int list \<Rightarrow> connection_context list \<Rightarrow> browser_mimicry \<Rightarrow> browser_mimicry" where
  "remove_expired nows [] s = s"
| "remove_expired nows (c # cs) s =
     (if context_dead (hd nows) c
      then remove_expired (tl nows) cs
             (s\<lparr>mi_getting := RemoveFromConnectionList (cx_connection_id c) (mi_getting s),
                mi_sending := RemoveFromConnectionList (cx_connection_id c) (mi_sending s)\<rparr>)
      else remove_expired (tl nows) cs (s\<lparr>mi_all := mi_all s @ [c]\<rparr>))"

definition RemoveExpiredConnections :: "int list \<Rightarrow> browser_mimicry \<Rightarrow> browser_mimicry" where
  "RemoveExpiredConnections nows s = remove_expired nows (mi_all s) (s\<lparr>mi_all := []\<rparr>)"

definition next_status :: "int \<Rightarrow> int \<Rightarrow> connection_context \<Rightarrow> connection_status" where
  "next_status now own_now c =
     (if cx_status c = kSending \<and> SendTimeExpired own_now c then kReceiving
      else if cx_status c = kCreating \<and> Ws_IsStarted (cx_client c)
      then (if cx_send_mode_until c > now then kSending else kReceiving)
      else cx_status c)"

definition move_lists :: "connection_context \<Rightarrow> connection_status \<Rightarrow> browser_mimicry \<Rightarrow> browser_mimicry" where
  "move_lists c status s =
     (if cx_status c = status then s
      else
        (let s = s\<lparr>mi_sending := RemoveFromConnectionList (cx_connection_id c) (mi_sending s),
                   mi_getting := RemoveFromConnectionList (cx_connection_id c) (mi_getting s)\<rparr> in
         if status = kSending then s\<lparr>mi_sending := mi_sending s @ [cx_connection_id c]\<rparr>
         else if status = kReceiving then s\<lparr>mi_getting := mi_getting s @ [cx_connection_id c]\<rparr>
         else s))"

fun update_status :: "int \<Rightarrow> int list \<Rightarrow> connection_context list \<Rightarrow> browser_mimicry \<Rightarrow> browser_mimicry" where
  "update_status now nows [] s = s"
| "update_status now nows (c # cs) s =
     (let status = next_status now (hd nows) c in
      update_status now (tl nows) cs
        ((move_lists c status s)\<lparr>mi_all := mi_all s @ [c\<lparr>cx_status := status\<rparr>]\<rparr>))"

definition UpdateConnectionsStatus :: "int \<Rightarrow> int list \<Rightarrow> browser_mimicry \<Rightarrow> browser_mimicry" where
  "UpdateConnectionsStatus now nows s = update_status now nows (mi_all s) (s\<lparr>mi_all := []\<rparr>)"

definition kReplacementLead :: int where "kReplacementLead = 3"

definition sending_count :: "int \<Rightarrow> browser_mimicry \<Rightarrow> nat" where
  "sending_count now s = length (filter (\<lambda>c. cx_status c = kSending \<and>
     cx_send_mode_until c > now + kReplacementLead * ns_per_second) (mi_all s))"

definition receiving_count :: "int \<Rightarrow> browser_mimicry \<Rightarrow> nat" where
  "receiving_count now s = length (filter (\<lambda>c. cx_status c = kReceiving \<and>
     cx_expire_after c > now + kReplacementLead * ns_per_second) (mi_all s))"

definition target_per_type :: "pool_settings \<Rightarrow> nat" where
  "target_per_type ps = max 1 (ps_min_connections ps div 2)"

text \<open>What one round of the creating loop meets: two draws, the clock, and the looks at the new client.\<close>

record creation =
  cn_send_draw :: nat
  cn_ttl_draw :: nat
  cn_now :: int
  cn_looks :: "ws_client list"

definition creating :: "pool_settings \<Rightarrow> browser_mimicry \<Rightarrow> bool" where
  "creating ps s \<longleftrightarrow>
     (case mi_todo s of None \<Rightarrow> False | Some (i, need_sending, needed) \<Rightarrow> i < needed \<and> length (mi_all s) < ps_max_connections ps)"

text \<open>A round, with the wait for its connection. When the connection fails the loop is left.\<close>

definition create_round :: "pool_settings \<Rightarrow> creation \<Rightarrow> browser_mimicry \<Rightarrow> browser_mimicry" where
  "create_round ps n s =
     (case mi_todo s of
        None \<Rightarrow> s
      | Some (i, need_sending, needed) \<Rightarrow>
          (let send_time = (if i < need_sending then GetRandomInt (ps_sending_min ps) (ps_sending_max ps) (cn_send_draw n)
                            else ps_min_sending_seconds ps);
               ttl = GetRandomInt (ps_ttl_min ps) (ps_ttl_max ps) (cn_ttl_draw n);
               cid = mi_id_counter s + 1; s = s\<lparr>mi_id_counter := cid\<rparr> in
           case await_client (take 10 (cn_looks n)) of
             None \<Rightarrow> s\<lparr>mi_todo := Some (needed, need_sending, needed)\<rparr>
           | Some client \<Rightarrow>
               s\<lparr>mi_todo := Some (i + 1, need_sending, needed),
                 mi_all := mi_all s @ [ConnectionContext_new cid (cn_now n) send_time ttl client]\<rparr>))"

definition CreateMissingConnections_begins :: "pool_settings \<Rightarrow> int \<Rightarrow> browser_mimicry \<Rightarrow> browser_mimicry" where
  "CreateMissingConnections_begins ps now s =
     (if \<not> BrowserMimicry_IsStarted s then s\<lparr>mi_todo := Some (0, 0, 0)\<rparr>
      else
        (let need_sending = target_per_type ps - sending_count now s;
             need_receiving = target_per_type ps - receiving_count now s in
         s\<lparr>mi_todo := Some (0, need_sending, need_sending + need_receiving)\<rparr>))"

definition BrowserMimicry_NotifyConnectedOnce :: "bool \<Rightarrow> browser_mimicry \<Rightarrow> browser_mimicry" where
  "BrowserMimicry_NotifyConnectedOnce has_callback s =
     (if mi_connected_notified s \<or> \<not> BrowserMimicry_IsConnected s then s
      else s\<lparr>mi_connected_notified := True, mi_callbacks := mi_callbacks s + (if has_callback then 1 else 0)\<rparr>)"

text \<open>A turn up to the creating loop, and from its end on.\<close>

record pool_clocks =
  po_removal :: "int list"
  po_now :: int
  po_status :: "int list"
  po_count :: int

definition pool_begins :: "pool_settings \<Rightarrow> pool_clocks \<Rightarrow> browser_mimicry \<Rightarrow> browser_mimicry" where
  "pool_begins ps k s =
     CreateMissingConnections_begins ps (po_count k)
       (UpdateConnectionsStatus (po_now k) (po_status k) (RemoveExpiredConnections (po_removal k) s))"

definition pool_ends :: "bool \<Rightarrow> browser_mimicry \<Rightarrow> browser_mimicry" where
  "pool_ends has_callback s =
     (let s = s\<lparr>mi_todo := None\<rparr> in
      if BrowserMimicry_IsPoolEmpty s then s\<lparr>mi_running := False\<rparr>
      else BrowserMimicry_NotifyConnectedOnce has_callback s)"

text \<open>What the pool does by itself, for less than \<open>2^64\<close> connections.\<close>

inductive mi_own :: "pool_settings \<Rightarrow> netlib \<Rightarrow> yaff \<Rightarrow> connection_config \<Rightarrow> browser_mimicry \<Rightarrow> browser_mimicry \<Rightarrow> bool"
  for ps :: pool_settings and lib :: netlib and y :: yaff and cfg :: connection_config where
  mi_begin: "BrowserMimicry_IsStarted s \<Longrightarrow> mi_todo s = None \<Longrightarrow> mi_own ps lib y cfg s (pool_begins ps k s)"
| mi_round: "creating ps s \<Longrightarrow> mi_id_counter s \<noteq> - 1 \<Longrightarrow> \<forall>c \<in> set (cn_looks n). ws_reachable lib y cfg c \<Longrightarrow> mi_own ps lib y cfg s (create_round ps n s)"
| mi_end: "mi_todo s \<noteq> None \<Longrightarrow> \<not> creating ps s \<Longrightarrow> mi_own ps lib y cfg s (pool_ends (co_on_connected cfg) s)"
| mi_client: "i < length (mi_all s) \<Longrightarrow> ws_step lib y cfg (cx_client (mi_all s ! i)) c \<Longrightarrow>
    mi_own ps lib y cfg s (s\<lparr>mi_all := (mi_all s)[i := (mi_all s ! i)\<lparr>cx_client := c\<rparr>]\<rparr>)"

text \<open>Everything that happens to the pool, with the calls from other threads.\<close>

inductive mi_step :: "pool_settings \<Rightarrow> netlib \<Rightarrow> yaff \<Rightarrow> connection_config \<Rightarrow> browser_mimicry \<Rightarrow> browser_mimicry \<Rightarrow> bool"
  for ps :: pool_settings and lib :: netlib and y :: yaff and cfg :: connection_config where
  mi_start: "mi_step ps lib y cfg s (BrowserMimicry_Start s)"
| mi_stop: "mi_step ps lib y cfg s (BrowserMimicry_Stop s)"
| mi_send: "mi_step ps lib y cfg s (snd (BrowserMimicry_Send draw pkt s))"
| mi_self: "mi_own ps lib y cfg s s' \<Longrightarrow> mi_step ps lib y cfg s s'"

inductive mi_reachable :: "pool_settings \<Rightarrow> netlib \<Rightarrow> yaff \<Rightarrow> connection_config \<Rightarrow> browser_mimicry \<Rightarrow> bool"
  for ps :: pool_settings and lib :: netlib and y :: yaff and cfg :: connection_config where
  mi_init: "mi_reachable ps lib y cfg (BrowserMimicry_new counter)"
| mi_next: "mi_reachable ps lib y cfg s \<Longrightarrow> mi_step ps lib y cfg s s' \<Longrightarrow> mi_reachable ps lib y cfg s'"

section \<open>The three lists\<close>

definition ids_with :: "connection_status \<Rightarrow> connection_context list \<Rightarrow> u64 set" where
  "ids_with status cs = cx_connection_id ` {c \<in> set cs. cx_status c = status}"

definition lists_ok :: "connection_context list \<Rightarrow> browser_mimicry \<Rightarrow> bool" where
  "lists_ok cs s \<longleftrightarrow>
     distinct (map cx_connection_id cs) \<and> (\<forall>c \<in> set cs. cx_connection_id c \<le> mi_id_counter s \<and> ws_inv (cx_client c)) \<and>
     distinct (mi_sending s) \<and> set (mi_sending s) = ids_with kSending cs \<and>
     distinct (mi_getting s) \<and> set (mi_getting s) = ids_with kReceiving cs"

definition mi_inv :: "pool_settings \<Rightarrow> browser_mimicry \<Rightarrow> bool" where
  "mi_inv ps s \<longleftrightarrow> lists_ok (mi_all s) s \<and> length (mi_all s) \<le> ps_max_connections ps \<and>
     mi_callbacks s \<le> (if mi_connected_notified s then 1 else 0)"

lemma ids_with_simps [simp]:
  "ids_with st [] = {}"
  "ids_with st (c # cs) = (if cx_status c = st then insert (cx_connection_id c) (ids_with st cs) else ids_with st cs)"
  "ids_with st (a @ b) = ids_with st a \<union> ids_with st b"
  by (auto simp: ids_with_def)

lemma ids_with_subset: "i \<in> ids_with st cs \<Longrightarrow> i \<in> cx_connection_id ` set cs"
  by (auto simp: ids_with_def)

lemma ids_with_drop:
  assumes "distinct (map cx_connection_id (a @ c # b))"
  shows "ids_with st (a @ b) = ids_with st (a @ c # b) - {cx_connection_id c}"
  using assms ids_with_subset [of "cx_connection_id c" st a] ids_with_subset [of "cx_connection_id c" st b] by auto

lemma ids_with_change:
  "ids_with st (a @ c\<lparr>cx_status := st'\<rparr> # b) =
    (if st = st' then insert (cx_connection_id c) (ids_with st (a @ b)) else ids_with st (a @ b))"
  by auto

lemma lists_ok_drop:
  assumes "lists_ok (a @ c # b) s"
  shows "lists_ok (a @ b) (s\<lparr>mi_getting := RemoveFromConnectionList (cx_connection_id c) (mi_getting s),
      mi_sending := RemoveFromConnectionList (cx_connection_id c) (mi_sending s)\<rparr>)"
  using assms ids_with_drop [of a c b]
  by (auto simp: lists_ok_def RemoveFromConnectionList_def set_remove1_eq)

lemma lists_ok_move:
  assumes "lists_ok (a @ c # b) s" "status = kSending \<or> status = kReceiving \<or> status = cx_status c"
  shows "lists_ok (a @ c\<lparr>cx_status := status\<rparr> # b) (move_lists c status s)"
proof (cases "cx_status c = status")
  case True
  then have e: "c\<lparr>cx_status := status\<rparr> = c" by (cases c) simp
  show ?thesis unfolding e using assms(1) True by (simp add: move_lists_def)
next
  case False
  have d: "distinct (map cx_connection_id (a @ c # b))" using assms(1) by (simp add: lists_ok_def)
  let ?s = "s\<lparr>mi_getting := RemoveFromConnectionList (cx_connection_id c) (mi_getting s),
      mi_sending := RemoveFromConnectionList (cx_connection_id c) (mi_sending s)\<rparr>"
  have ok: "lists_ok (a @ b) ?s" by (rule lists_ok_drop [OF assms(1)])
  have new: "cx_connection_id c \<notin> set (mi_sending ?s)" "cx_connection_id c \<notin> set (mi_getting ?s)"
    using assms(1) by (simp_all add: lists_ok_def RemoveFromConnectionList_def)
  show ?thesis
    using ok new assms False d by (auto simp: lists_ok_def move_lists_def Let_def ids_with_change)
qed

lemma remove_expired_ok:
  assumes "lists_ok (mi_all s @ cs) s"
  shows "\<exists>all g sd. remove_expired nows cs s = s\<lparr>mi_all := all, mi_getting := g, mi_sending := sd\<rparr> \<and>
    lists_ok all (remove_expired nows cs s) \<and> length all \<le> length (mi_all s) + length cs"
  using assms
proof (induction nows cs s rule: remove_expired.induct)
  case (1 nows s)
  then show ?case by (intro exI [of _ "mi_all s"] exI [of _ "mi_getting s"] exI [of _ "mi_sending s"]) simp
next
  case (2 nows c cs s)
  show ?case
  proof (cases "context_dead (hd nows) c")
    case True
    then show ?thesis using "2.IH"(1) [OF True] lists_ok_drop [OF "2.prems"] by fastforce
  next
    case False
    have "lists_ok (mi_all (s\<lparr>mi_all := mi_all s @ [c]\<rparr>) @ cs) (s\<lparr>mi_all := mi_all s @ [c]\<rparr>)"
      using "2.prems" by (simp add: lists_ok_def)
    then show ?thesis using "2.IH"(2) [OF False] False by fastforce
  qed
qed

lemma next_status_moves: "next_status now own c = kSending \<or> next_status now own c = kReceiving \<or> next_status now own c = cx_status c"
  by (simp add: next_status_def)

lemma move_lists_keeps: "move_lists c status s = s\<lparr>mi_getting := mi_getting (move_lists c status s), mi_sending := mi_sending (move_lists c status s)\<rparr>"
  by (simp add: move_lists_def Let_def)

lemma update_status_ok:
  assumes "lists_ok (mi_all s @ cs) s"
  shows "\<exists>all g sd. update_status now nows cs s = s\<lparr>mi_all := all, mi_getting := g, mi_sending := sd\<rparr> \<and>
    lists_ok all (update_status now nows cs s) \<and> length all = length (mi_all s) + length cs"
  using assms
proof (induction cs arbitrary: nows s)
  case Nil
  then show ?case by (intro exI [of _ "mi_all s"] exI [of _ "mi_getting s"] exI [of _ "mi_sending s"]) simp
next
  case (Cons c cs)
  let ?st = "next_status now (hd nows) c"
  let ?s = "(move_lists c ?st s)\<lparr>mi_all := mi_all s @ [c\<lparr>cx_status := ?st\<rparr>]\<rparr>"
  have "lists_ok (mi_all ?s @ cs) ?s"
    using lists_ok_move [OF Cons.prems next_status_moves] by (simp add: lists_ok_def)
  from Cons.IH [OF this, of "tl nows"] obtain all g sd where
    r: "update_status now (tl nows) cs ?s = ?s\<lparr>mi_all := all, mi_getting := g, mi_sending := sd\<rparr>"
    "lists_ok all (update_status now (tl nows) cs ?s)" "length all = length (mi_all s) + 1 + length cs" by auto
  have "?s\<lparr>mi_all := all, mi_getting := g, mi_sending := sd\<rparr> = s\<lparr>mi_all := all, mi_getting := g, mi_sending := sd\<rparr>"
    by (subst move_lists_keeps) simp
  then show ?case using r by (auto simp: Let_def)
qed

section \<open>The invariant\<close>

lemma lists_ok_fields:
  assumes "mi_sending s' = mi_sending s" "mi_getting s' = mi_getting s" "mi_id_counter s' = mi_id_counter s"
  shows "lists_ok cs s' = lists_ok cs s"
  using assms by (simp add: lists_ok_def)

lemma mi_inv_begins:
  assumes "mi_inv ps s"
  shows "mi_inv ps (pool_begins ps k s)"
proof -
  have "lists_ok (mi_all (s\<lparr>mi_all := []\<rparr>) @ mi_all s) (s\<lparr>mi_all := []\<rparr>)"
    using assms by (simp add: mi_inv_def lists_ok_def)
  from remove_expired_ok [OF this, of "po_removal k"] obtain cs1 g1 d1 where
    1: "RemoveExpiredConnections (po_removal k) s = s\<lparr>mi_all := cs1, mi_getting := g1, mi_sending := d1\<rparr>"
    "lists_ok cs1 (RemoveExpiredConnections (po_removal k) s)" "length cs1 \<le> length (mi_all s)"
    by (auto simp: RemoveExpiredConnections_def)
  let ?s1 = "RemoveExpiredConnections (po_removal k) s"
  have "lists_ok (mi_all (?s1\<lparr>mi_all := []\<rparr>) @ mi_all ?s1) (?s1\<lparr>mi_all := []\<rparr>)"
    using 1(1,2) by (simp add: lists_ok_def)
  from update_status_ok [OF this, of "po_now k" "po_status k"] obtain cs2 g2 d2 where
    2: "UpdateConnectionsStatus (po_now k) (po_status k) ?s1 = s\<lparr>mi_all := cs2, mi_getting := g2, mi_sending := d2\<rparr>"
    "lists_ok cs2 (UpdateConnectionsStatus (po_now k) (po_status k) ?s1)" "length cs2 = length cs1"
    using 1(1) by (auto simp: UpdateConnectionsStatus_def)
  then show ?thesis
    using assms 1(3) by (simp add: pool_begins_def CreateMissingConnections_begins_def Let_def mi_inv_def lists_ok_def)
qed

lemma no_wrap: "n \<noteq> - 1 \<Longrightarrow> n < n + (1 :: u64)"
proof -
  assume "n \<noteq> - 1"
  then have "1 + n \<noteq> 0" by (metis add.commute add_eq_0_iff2)
  then show ?thesis by (simp add: word_less_nat_alt unatSuc add.commute)
qed

lemma lists_ok_push:
  assumes "lists_ok cs s" "mi_id_counter s \<noteq> - 1" "ws_inv client"
  shows "lists_ok (cs @ [ConnectionContext_new (mi_id_counter s + 1) now send ttl client]) (s\<lparr>mi_id_counter := mi_id_counter s + 1\<rparr>)"
proof -
  note less = no_wrap [OF assms(2)]
  have "cx_connection_id c < mi_id_counter s + 1" if "c \<in> set cs" for c
    using assms(1) that less by (auto simp: lists_ok_def intro: le_less_trans)
  then show ?thesis using assms(1,3) by (fastforce simp: lists_ok_def ConnectionContext_new_def)
qed

lemma mi_inv_round:
  assumes "mi_inv ps s" "creating ps s" "mi_id_counter s \<noteq> - 1" "\<forall>c \<in> set (cn_looks n). ws_inv c"
  shows "mi_inv ps (create_round ps n s)"
proof -
  obtain i sd nd where t: "mi_todo s = Some (i, sd, nd)" "length (mi_all s) < ps_max_connections ps"
    using assms(2) by (auto simp: creating_def split: option.splits)
  show ?thesis
  proof (cases "await_client (take 10 (cn_looks n))")
    case None
    have "cx_connection_id c \<le> mi_id_counter s + 1" if "c \<in> set (mi_all s)" for c
      using assms(1) that no_wrap [OF assms(3)] by (auto simp: mi_inv_def lists_ok_def intro: order_trans less_imp_le)
    then show ?thesis using assms(1) t None by (simp add: create_round_def mi_inv_def lists_ok_def Let_def)
  next
    case (Some client)
    then have "ws_inv client" using await_client_started assms(4) by (metis in_set_takeD)
    then show ?thesis using assms(1,3) t Some lists_ok_push [of "mi_all s" s]
      by (simp add: create_round_def mi_inv_def Let_def) (simp add: lists_ok_def)
  qed
qed

lemma map_ids_update:
  assumes "i < length cs"
  shows "map cx_connection_id (cs[i := (cs ! i)\<lparr>cx_client := c\<rparr>]) = map cx_connection_id cs"
    and "ids_with st (cs[i := (cs ! i)\<lparr>cx_client := c\<rparr>]) = ids_with st cs"
proof -
  let ?c = "cs ! i"
  have e: "cs = take i cs @ ?c # drop (Suc i) cs" "cs[i := x] = take i cs @ x # drop (Suc i) cs" for x
    by (rule update_splits [OF assms])+
  show "map cx_connection_id (cs[i := ?c\<lparr>cx_client := c\<rparr>]) = map cx_connection_id cs"
    by (subst (3) e(1)) (simp add: e(2))
  show "ids_with st (cs[i := ?c\<lparr>cx_client := c\<rparr>]) = ids_with st cs"
    by (subst (3) e(1)) (simp add: e(2))
qed

lemma mi_inv_client:
  assumes "mi_inv ps s" "i < length (mi_all s)" "ws_inv c"
  shows "mi_inv ps (s\<lparr>mi_all := (mi_all s)[i := (mi_all s ! i)\<lparr>cx_client := c\<rparr>]\<rparr>)"
proof -
  have "x = (mi_all s ! i)\<lparr>cx_client := c\<rparr> \<or> x \<in> set (mi_all s)" if "x \<in> set ((mi_all s)[i := (mi_all s ! i)\<lparr>cx_client := c\<rparr>])" for x
    using that set_update_subset_insert by fastforce
  then have "cx_connection_id x \<le> mi_id_counter s \<and> ws_inv (cx_client x)"
    if "x \<in> set ((mi_all s)[i := (mi_all s ! i)\<lparr>cx_client := c\<rparr>])" for x
    using that assms by (fastforce simp: mi_inv_def lists_ok_def)
  then show ?thesis using assms(1) map_ids_update [OF assms(2)] by (simp add: mi_inv_def lists_ok_def)
qed

lemma index_of_id_Some: "index_of_id i cs = Some j \<Longrightarrow> j < length cs \<and> cx_connection_id (cs ! j) = i"
  by (induction cs arbitrary: j) (auto split: if_splits)

lemma index_of_id_complete: "i \<in> cx_connection_id ` set cs \<Longrightarrow> index_of_id i cs \<noteq> None"
  by (induction cs) auto

lemma BrowserMimicry_Send_cases:
  assumes "BrowserMimicry_Send draw packet s = (ok, s')"
  obtains (refused) "\<not> ok" "s' = s"
  | (given) j client where "j < length (mi_all s)" "Ws_Send packet (cx_client (mi_all s ! j)) = (ok, client)"
      "s' = s\<lparr>mi_all := (mi_all s)[j := (mi_all s ! j)\<lparr>cx_client := client\<rparr>]\<rparr>" "mi_running s"
proof -
  define pool where "pool = (if mi_sending s \<noteq> [] then mi_sending s else mi_getting s)"
  define target where "target = index_of_id (pool ! nat (GetRandomInt 0 (int (length pool) - 1) draw)) (mi_all s)"
  have e: "BrowserMimicry_Send draw packet s = (if \<not> mi_running s then (False, s) else if pool = [] then (False, s) else
      case target of None \<Rightarrow> (False, s)
      | Some j \<Rightarrow> (case Ws_Send packet (cx_client (mi_all s ! j)) of
           (sent, client) \<Rightarrow> (sent, s\<lparr>mi_all := (mi_all s)[j := (mi_all s ! j)\<lparr>cx_client := client\<rparr>]\<rparr>)))"
    unfolding BrowserMimicry_Send_def BrowserMimicry_IsStarted_def Let_def pool_def target_def by (rule refl)
  show thesis
  proof (cases "mi_running s \<and> pool \<noteq> [] \<and> target \<noteq> None")
    case True
    then obtain j where j: "target = Some j" by blast
    obtain client where c: "Ws_Send packet (cx_client (mi_all s ! j)) = (ok, client)"
      "s' = s\<lparr>mi_all := (mi_all s)[j := (mi_all s ! j)\<lparr>cx_client := client\<rparr>]\<rparr>"
      using assms True j unfolding e by (cases "Ws_Send packet (cx_client (mi_all s ! j))") simp
    have "j < length (mi_all s)" using index_of_id_Some j unfolding target_def by blast
    then show thesis using given c True by blast
  next
    case False
    then have "\<not> ok \<and> s' = s"
      using assms unfolding e by (auto split: if_splits)
    then show thesis using refused by blast
  qed
qed

lemma mi_inv_send:
  assumes "mi_inv ps s" "BrowserMimicry_Send draw packet s = (ok, s')"
  shows "mi_inv ps s'"
  using assms(2)
proof (cases rule: BrowserMimicry_Send_cases)
  case (given j client)
  have "ws_inv (cx_client (mi_all s ! j))" using assms(1) given(1) by (simp add: mi_inv_def lists_ok_def)
  then have "ws_inv client" using ws_inv_Send [of "cx_client (mi_all s ! j)" packet] given(2) by simp
  then show ?thesis using mi_inv_client [OF assms(1) given(1)] given(3) by simp
qed (use assms in simp)

lemma mi_inv_own: "mi_own ps lib y cfg s s' \<Longrightarrow> mi_inv ps s \<Longrightarrow> mi_inv ps s'"
proof (induction rule: mi_own.induct)
  case (mi_begin s k)
  then show ?case by (simp add: mi_inv_begins)
next
  case (mi_round s n)
  then show ?case using ws_inv_reachable by (intro mi_inv_round) blast+
next
  case (mi_client i s c)
  then have "ws_inv (cx_client (mi_all s ! i))" by (simp add: mi_inv_def lists_ok_def)
  then show ?case using mi_client ws_inv_step by (blast intro: mi_inv_client)
qed (auto simp: mi_inv_def lists_ok_def pool_ends_def Let_def BrowserMimicry_NotifyConnectedOnce_def split: if_splits)

lemma mi_inv_step: "mi_step ps lib y cfg s s' \<Longrightarrow> mi_inv ps s \<Longrightarrow> mi_inv ps s'"
proof (induction rule: mi_step.induct)
  case (mi_stop s)
  then show ?case by (simp add: BrowserMimicry_Stop_def mi_inv_def lists_ok_def)
next
  case (mi_send s draw pkt)
  then show ?case by (metis mi_inv_send prod.collapse)
next
  case (mi_self s s')
  then show ?case by (simp add: mi_inv_own)
qed (auto simp: mi_inv_def lists_ok_def BrowserMimicry_Start_def)

lemma mi_inv_reachable: "mi_reachable ps lib y cfg s \<Longrightarrow> mi_inv ps s"
proof (induction rule: mi_reachable.induct)
  case (mi_init counter)
  then show ?case by (simp add: BrowserMimicry_new_def mi_inv_def lists_ok_def)
qed (rule mi_inv_step)

definition mi_clients :: "browser_mimicry \<Rightarrow> ws_client list" where
  "mi_clients s = map cx_client (mi_all s)"

interpretation mimicry: strategy "\<lambda>draw p s. Some (BrowserMimicry_Send draw p s)" BrowserMimicry_Stop BrowserMimicry_IsStarted
  BrowserMimicry_IsConnected mi_clients "mi_inv ps" for ps
proof
  fix s p s' ok and i :: nat
  show "\<not> BrowserMimicry_IsStarted s \<Longrightarrow> Some (BrowserMimicry_Send i p s) = Some (False, s)"
    by (simp add: BrowserMimicry_Send_def)
  show "\<not> BrowserMimicry_IsStarted (BrowserMimicry_Stop s)"
    by (simp add: BrowserMimicry_IsStarted_def BrowserMimicry_Stop_def)
  show "BrowserMimicry_IsConnected s = list_ex Ws_IsStarted (mi_clients s)"
    by (simp add: BrowserMimicry_IsConnected_def mi_clients_def list_ex_iff)
  show "c \<in> set (mi_clients (BrowserMimicry_Stop s)) \<Longrightarrow> \<not> wc_running c" for c
    by (simp add: mi_clients_def BrowserMimicry_Stop_def)
  assume inv: "mi_inv ps s"
  show "mi_inv ps (BrowserMimicry_Stop s)" using inv by (simp add: BrowserMimicry_Stop_def mi_inv_def lists_ok_def)
  show "Some (BrowserMimicry_Send i p s) = Some (False, s') \<Longrightarrow> mi_clients s' = mi_clients s"
    by (cases "BrowserMimicry_Send i p s" rule: prod.exhaust, simp, erule BrowserMimicry_Send_cases)
      (auto simp: mi_clients_def map_update list_update_same_conv dest: Ws_Send_refused)
  show "Some (BrowserMimicry_Send i p s) = Some (True, s') \<Longrightarrow>
      \<exists>before c after. mi_clients s = before @ c # after \<and> fst (Ws_Send p c) \<and> mi_clients s' = before @ snd (Ws_Send p c) # after"
  proof (drule option.inject [THEN iffD1], erule BrowserMimicry_Send_cases)
    fix j client
    assume "j < length (mi_all s)" "Ws_Send p (cx_client (mi_all s ! j)) = (True, client)"
      "s' = s\<lparr>mi_all := (mi_all s)[j := (mi_all s ! j)\<lparr>cx_client := client\<rparr>]\<rparr>"
    then have "j < length (mi_clients s)" "mi_clients s ! j = cx_client (mi_all s ! j)" "mi_clients s' = (mi_clients s)[j := client]"
      "Ws_Send p (cx_client (mi_all s ! j)) = (True, client)"
      by (simp_all add: mi_clients_def map_update)
    then show ?thesis using update_splits [of j "mi_clients s"] by (metis fst_conv snd_conv)
  qed simp
  show "Some (BrowserMimicry_Send i p s) = Some (ok, s') \<Longrightarrow>
      mi_inv ps s' \<and> BrowserMimicry_IsStarted s' = BrowserMimicry_IsStarted s"
    using mi_inv_send [OF inv] by (auto elim!: BrowserMimicry_Send_cases simp: BrowserMimicry_IsStarted_def)
qed

section \<open>Properties\<close>



lemma update_status_now:
  "nows = replicate n now \<Longrightarrow> length cs \<le> n \<Longrightarrow>
   mi_all (update_status now nows cs s) = mi_all s @ map (\<lambda>c. c\<lparr>cx_status := next_status now now c\<rparr>) cs"
proof (induction cs arbitrary: nows n s)
  case (Cons c cs)
  obtain m where m: "n = Suc m" using Cons.prems(2) by (cases n) auto
  show ?case using Cons.IH [of "tl nows" m] Cons.prems m by (simp add: Let_def)
qed simp

text \<open>Roles: when the clock stands still during an update of the pool, afterwards every connection for
  sending is within its sending time, and every connection that has come up has a role: none that
  is started is left without one.\<close>

theorem mimicry_roles:
  assumes "s' = UpdateConnectionsStatus now (replicate (length (mi_all s)) now) s" and "c \<in> set (mi_all s')"
  shows "(cx_status c = kSending \<longrightarrow> CanSend now c) \<and> (Ws_IsStarted (cx_client c) \<longrightarrow> cx_status c \<noteq> kCreating)"
proof -
  have "mi_all s' = map (\<lambda>c. c\<lparr>cx_status := next_status now now c\<rparr>) (mi_all s)"
    using assms(1) by (simp add: UpdateConnectionsStatus_def update_status_now [OF refl])
  then obtain b where "c = b\<lparr>cx_status := next_status now now b\<rparr>" using assms(2) by auto
  then show ?thesis by (auto simp: next_status_def SendTimeExpired_def CanSend_def)
qed

definition demo_context :: "connection_status \<Rightarrow> ws_client \<Rightarrow> connection_context" where
  "demo_context status client = \<lparr>cx_connection_id = 1, cx_status = status, cx_send_mode_until = 20, cx_expire_after = 60, cx_client = client\<rparr>"

theorem mimicry_roles_witness:
  "cx_status (hd (mi_all (UpdateConnectionsStatus 5 (replicate 1 5) ((BrowserMimicry_new 0)\<lparr>mi_all := [demo_context kCreating demo_connected]\<rparr>)))) \<noteq> kCreating"
proof -
  let ?s = "(BrowserMimicry_new 0)\<lparr>mi_all := [demo_context kCreating demo_connected]\<rparr>"
  let ?s' = "UpdateConnectionsStatus 5 (replicate (length (mi_all ?s)) 5) ?s"
  have "mi_all ?s' = [(demo_context kCreating demo_connected)\<lparr>cx_status := kSending\<rparr>]"
    using demo_connected_facts(3,4)
    by (simp add: UpdateConnectionsStatus_def update_status_now [of _ 1] next_status_def demo_context_def Ws_IsStarted_def
        BrowserMimicry_new_def)
  moreover from this have "hd (mi_all ?s') \<in> set (mi_all ?s')" by simp
  from mimicry_roles [OF refl this] have "Ws_IsStarted (cx_client (hd (mi_all ?s'))) \<longrightarrow> cx_status (hd (mi_all ?s')) \<noteq> kCreating" by blast
  ultimately show ?thesis using demo_connected_facts(3,4) by (simp add: demo_context_def Ws_IsStarted_def)
qed

text \<open>A broken connection stays in use: the pool removes a connection when it expires or has an error
  status, but nothing gives it that status when its client stops. A stopped connection for sending
  is kept by every turn until it expires, and while it is the only one, every packet is refused.\<close>

theorem broken_connection_kept:
  assumes "mi_all s = [c]" and "cx_status c = kSending" and "mi_sending s = [cx_connection_id c]" and "Ws_IsStopped (cx_client c)"
    and "ws_inv (cx_client c)" and "hd (po_removal k) < cx_expire_after c" and "hd (po_status k) < cx_send_mode_until c"
  shows "mi_all (pool_begins ps k s) = [c] \<and> mi_sending (pool_begins ps k s) = [cx_connection_id c] \<and>
    fst (BrowserMimicry_Send draw packet (pool_begins ps k s)) = False"
proof -
  have "RemoveExpiredConnections (po_removal k) s = s"
    using assms(1,2,6) by (simp add: RemoveExpiredConnections_def context_dead_def IsExpired_def)
  moreover have "UpdateConnectionsStatus (po_now k) (po_status k) s = s"
    using assms(1,2,7) by (simp add: UpdateConnectionsStatus_def next_status_def SendTimeExpired_def move_lists_def)
  ultimately have e: "mi_all (pool_begins ps k s) = [c]" "mi_sending (pool_begins ps k s) = [cx_connection_id c]"
    using assms(1,3) by (simp_all add: pool_begins_def CreateMissingConnections_begins_def Let_def)
  have "\<not> wc_running (cx_client c)" using assms(4,5) by (cases "wc_phase (cx_client c)") (auto simp: ws_inv_def Ws_IsStopped_def)
  then have "\<not> fst (BrowserMimicry_Send draw packet (pool_begins ps k s))"
    using e by (simp add: BrowserMimicry_Send_def Let_def GetRandomInt_def Ws_Send_def)
  then show ?thesis using e by simp
qed

theorem broken_connection_kept_witness:
  "fst (BrowserMimicry_Send 7 (Some demo_udp) (pool_begins PoolSettings_default
     \<lparr>po_removal = [6], po_now = 6, po_status = [6], po_count = 6\<rparr>
     ((BrowserMimicry_new 1)\<lparr>mi_running := True, mi_sending := [1], mi_all := [demo_context kSending (snd (Ws_Stop demo_connected))]\<rparr>))) = False"
proof -
  let ?c = "snd (Ws_Stop demo_connected)"
  have s: "Ws_IsStopped ?c" using demo_connected_facts(3) by (simp add: Ws_Stop_def Ws_IsStopped_def Let_def)
  have i: "ws_inv ?c" by (rule ws_inv_Stop [OF ws_inv_reachable [OF demo_connected_facts(1)]])
  show ?thesis
    by (rule broken_connection_kept [where c = "demo_context kSending ?c" and ps = PoolSettings_default, THEN conjunct2, THEN conjunct2])
      (use s i in \<open>simp_all add: demo_context_def\<close>)
qed

end
