(* ===== verification/ClientManager.thy ===== *)
theory ClientManager
  imports Mimicry
begin

text \<open>
  The connection manager of the client, \<open>connection/connection_manager/connection_manager.cpp\<close>, on which
  the adapter \<open>src/fptn-client/vpn/http/client.cpp\<close> forwards every call: logging in, asking for the DNS
  servers, and the thread that keeps one strategy running and counts its reconnections. The thread
  and \<open>Stop\<close> are cut where the source reads or writes what they share, so that every interleaving of
  them is a sequence of steps. The five strategies are one datatype, an instance of the locale
  \<open>strategy\<close>.
\<close>

section \<open>A strategy of any kind\<close>

datatype connection_strategy = kPersistentTunnel | kBrowserMimicry | kDualTunnel | kTripleTunnel | kRollingTunnel

datatype any_strategy =
  AsPersistent persistent_tunnel
| AsMimicry browser_mimicry
| AsDual parallel_tunnels
| AsTriple parallel_tunnels
| AsRolling rolling_tunnel

text \<open>\<open>counter\<close> is the static counter of connection ids.\<close>

definition strategy_Create :: "u64 \<Rightarrow> connection_strategy \<Rightarrow> any_strategy" where
  "strategy_Create counter kind =
     (case kind of
        kPersistentTunnel \<Rightarrow> AsPersistent PersistentTunnel_new
      | kBrowserMimicry \<Rightarrow> AsMimicry (BrowserMimicry_new counter)
      | kDualTunnel \<Rightarrow> AsDual ParallelTunnels_new
      | kTripleTunnel \<Rightarrow> AsTriple ParallelTunnels_new
      | kRollingTunnel \<Rightarrow> AsRolling RollingTunnel_new)"

fun strategy_Start :: "any_strategy \<Rightarrow> any_strategy" where
  "strategy_Start (AsPersistent s) = AsPersistent (PersistentTunnel_Start s)"
| "strategy_Start (AsMimicry s) = AsMimicry (BrowserMimicry_Start s)"
| "strategy_Start (AsDual s) = AsDual (ParallelTunnels_Start s)"
| "strategy_Start (AsTriple s) = AsTriple (ParallelTunnels_Start s)"
| "strategy_Start (AsRolling s) = AsRolling (RollingTunnel_Start s)"

fun strategy_Stop :: "any_strategy \<Rightarrow> any_strategy" where
  "strategy_Stop (AsPersistent s) = AsPersistent (PersistentTunnel_Stop s)"
| "strategy_Stop (AsMimicry s) = AsMimicry (BrowserMimicry_Stop s)"
| "strategy_Stop (AsDual s) = AsDual (ParallelTunnels_Stop s)"
| "strategy_Stop (AsTriple s) = AsTriple (ParallelTunnels_Stop s)"
| "strategy_Stop (AsRolling s) = AsRolling (RollingTunnel_Stop s)"

fun strategy_Send :: "nat \<Rightarrow> ip_packet option \<Rightarrow> any_strategy \<Rightarrow> (bool \<times> any_strategy) option" where
  "strategy_Send draw packet (AsPersistent s) = Some (map_prod id AsPersistent (PersistentTunnel_Send packet s))"
| "strategy_Send draw packet (AsMimicry s) = Some (map_prod id AsMimicry (BrowserMimicry_Send draw packet s))"
| "strategy_Send draw packet (AsDual s) = map_option (map_prod id AsDual) (ParallelTunnels_Send packet s)"
| "strategy_Send draw packet (AsTriple s) = map_option (map_prod id AsTriple) (ParallelTunnels_Send packet s)"
| "strategy_Send draw packet (AsRolling s) = Some (map_prod id AsRolling (RollingTunnel_Send packet s))"

fun strategy_IsStarted :: "any_strategy \<Rightarrow> bool" where
  "strategy_IsStarted (AsPersistent s) = PersistentTunnel_IsStarted s"
| "strategy_IsStarted (AsMimicry s) = BrowserMimicry_IsStarted s"
| "strategy_IsStarted (AsDual s) = ParallelTunnels_IsStarted s"
| "strategy_IsStarted (AsTriple s) = ParallelTunnels_IsStarted s"
| "strategy_IsStarted (AsRolling s) = RollingTunnel_IsStarted s"

fun strategy_IsConnected :: "any_strategy \<Rightarrow> bool" where
  "strategy_IsConnected (AsPersistent s) = PersistentTunnel_IsConnected s"
| "strategy_IsConnected (AsMimicry s) = BrowserMimicry_IsConnected s"
| "strategy_IsConnected (AsDual s) = ParallelTunnels_IsConnected s"
| "strategy_IsConnected (AsTriple s) = ParallelTunnels_IsConnected s"
| "strategy_IsConnected (AsRolling s) = RollingTunnel_IsConnected s"

fun strategy_clients :: "any_strategy \<Rightarrow> ws_client list" where
  "strategy_clients (AsPersistent s) = pn_clients s"
| "strategy_clients (AsMimicry s) = mi_clients s"
| "strategy_clients (AsDual s) = pt_clients s"
| "strategy_clients (AsTriple s) = pt_clients s"
| "strategy_clients (AsRolling s) = ro_clients s"

fun strategy_inv :: "any_strategy \<Rightarrow> bool" where
  "strategy_inv (AsPersistent s) = list_all ws_inv (pn_clients s)"
| "strategy_inv (AsMimicry s) = mi_inv PoolSettings_default s"
| "strategy_inv (AsDual s) = pt_inv DualTunnel s"
| "strategy_inv (AsTriple s) = pt_inv TripleTunnel s"
| "strategy_inv (AsRolling s) = list_all ws_inv (ro_clients s)"

interpretation any: strategy strategy_Send strategy_Stop strategy_IsStarted strategy_IsConnected strategy_clients strategy_inv
proof
  fix s p s' ok and i :: nat
  show "\<not> strategy_IsStarted s \<Longrightarrow> strategy_Send i p s = Some (False, s)"
    using persistent.send_stopped mimicry.send_stopped parallel.send_stopped rolling.send_stopped
    by (cases s) force+
  show "\<not> strategy_IsStarted (strategy_Stop s)"
    using persistent.stop_stops mimicry.stop_stops parallel.stop_stops rolling.stop_stops by (cases s) simp_all
  show "strategy_IsConnected s = list_ex Ws_IsStarted (strategy_clients s)"
    using persistent.connected mimicry.connected parallel.connected rolling.connected by (cases s) simp_all
  assume inv: "strategy_inv s"
  show "strategy_Send i p s = Some (False, s') \<Longrightarrow> strategy_clients s' = strategy_clients s"
    using inv persistent.send_refused mimicry.send_refused parallel.send_refused rolling.send_refused
    by (cases s) (fastforce simp: map_prod_def split: prod.splits)+
  show "strategy_Send i p s = Some (True, s') \<Longrightarrow> \<exists>before c after. strategy_clients s = before @ c # after \<and>
      fst (Ws_Send p c) \<and> strategy_clients s' = before @ snd (Ws_Send p c) # after"
    using inv persistent.send_accepted mimicry.send_accepted parallel.send_accepted rolling.send_accepted
    by (cases s) (fastforce simp: map_prod_def split: prod.splits)+
  show "strategy_Send i p s = Some (ok, s') \<Longrightarrow> strategy_inv s' \<and> strategy_IsStarted s' = strategy_IsStarted s"
    using inv persistent.send_inv mimicry.send_inv parallel.send_inv rolling.send_inv
    by (cases s) (fastforce simp: map_prod_def split: prod.splits)+
  show "c \<in> set (strategy_clients (strategy_Stop s)) \<Longrightarrow> \<not> wc_running c" for c
    using inv persistent.stop_clients mimicry.stop_clients parallel.stop_clients rolling.stop_clients by (cases s) simp_all
  show "strategy_inv (strategy_Stop s)"
    using inv persistent.stop_inv mimicry.stop_inv parallel.stop_inv rolling.stop_inv by (cases s) simp_all
qed

section \<open>Logging in and the DNS servers\<close>

text \<open>Where the manager's thread is, and where a call of \<open>Stop\<close> is; the members follow.\<close>

datatype run_at = NoThread | RunBegins | AtLoop | AtCreate | AtCheck | AtStart | InStart | AtResult | AtClean | AtCount | AtExit | Finished

datatype stop_at = NotStopping | AtStopStrategy | AtJoin

record connection_manager =
  cm_running :: bool
  cm_jwt_access_token :: string
  cm_latest_error :: string
  cm_reconnection_attempts :: u64
  cm_type :: connection_strategy
  cm_config :: connection_config
  cm_dns_ipv4 :: ip_address
  cm_dns_ipv6 :: ip_address
  cm_strategy :: "any_strategy option"
  cm_run_at :: run_at
  cm_window_start :: int
  cm_stop_at :: stop_at

definition ConnectionManager_new :: "connection_strategy \<Rightarrow> connection_config \<Rightarrow> connection_manager" where
  "ConnectionManager_new kind config = \<lparr>cm_running = False, cm_jwt_access_token = [], cm_latest_error = [],
     cm_reconnection_attempts = 0, cm_type = kind, cm_config = config, cm_dns_ipv4 = IPAddress_empty,
     cm_dns_ipv6 = IPAddress_empty, cm_strategy = None, cm_run_at = NoThread, cm_window_start = 0, cm_stop_at = NotStopping\<rparr>"

definition ConnectionManager_SetAccessToken :: "string \<Rightarrow> connection_manager \<Rightarrow> connection_manager" where
  "ConnectionManager_SetAccessToken token m = m\<lparr>cm_jwt_access_token := token\<rparr>"

definition manager_client :: "connection_manager \<Rightarrow> api_client" where
  "manager_client m = \<lparr>ac_host = ip_str (co_server_ip (cm_config m)), ac_port = uint (co_server_port (cm_config m)),
     ac_sni = co_sni (cm_config m), ac_expected_md5_fingerprint = co_md5_fingerprint (cm_config m),
     ac_censorship_strategy = co_censorship_strategy (cm_config m)\<rparr>"

definition client_login_request :: "string \<Rightarrow> string \<Rightarrow> string" where
  "client_login_request username password =
     ''{ '' @ quoted ''username'' @ '': '' @ quoted username @ '', '' @ quoted ''password'' @ '': '' @ quoted password @ '' }''"

text \<open>A field of an answer as the JSON library presents it: it throws (the text is not JSON, or the
  field is of another type), the field is missing, or it is a string.\<close>

datatype json_field = JsonThrows string | JsonMissing | JsonField string

text \<open>One answer: \<open>Some\<close> ends the call with that result, \<open>None\<close> goes on to the next attempt.\<close>

definition login_answered :: "(string \<Rightarrow> json_field) \<Rightarrow> response \<Rightarrow> connection_manager \<Rightarrow> bool option \<times> connection_manager" where
  "login_answered access_token resp m =
     (if rs_code resp = 200
      then (case access_token (rs_body resp) of
              JsonMissing \<Rightarrow> (None, m)
            | JsonField token \<Rightarrow> (Some True, m\<lparr>cm_jwt_access_token := token\<rparr>)
            | JsonThrows what \<Rightarrow> (None, m\<lparr>cm_jwt_access_token := [], cm_latest_error := what\<rparr>))
      else if rs_code resp = 401 \<or> rs_code resp = 403
      then (Some False, m\<lparr>cm_jwt_access_token := [], cm_latest_error := rs_errmsg resp\<rparr>)
      else (None, m\<lparr>cm_jwt_access_token := [], cm_latest_error := rs_errmsg resp\<rparr>))"

text \<open>The loop over the attempts; each has an outside of its own. The third result is what the client
  did in each attempt.\<close>

fun login_attempts ::
    "(string \<Rightarrow> json_field) \<Rightarrow> api_client \<Rightarrow> string \<Rightarrow> api_env list \<Rightarrow> connection_manager \<Rightarrow>
     (bool \<times> connection_manager \<times> client_event list list) option" where
  "login_attempts access_token cli request [] m = Some (False, m, [])"
| "login_attempts access_token cli request (env # envs) m = do {
     (resp, evs) \<leftarrow> Post cli kApiLoginUrl request env;
     (case login_answered access_token resp m of
        (Some result, m) \<Rightarrow> Some (result, m, [evs])
      | (None, m) \<Rightarrow> do {
          (result, m, more_evs) \<leftarrow> login_attempts access_token cli request envs m;
          Some (result, m, evs # more_evs)
        })
   }"

definition kMaxRetries :: nat where "kMaxRetries = 3"

definition ConnectionManager_Login ::
    "(string \<Rightarrow> json_field) \<Rightarrow> string \<Rightarrow> string \<Rightarrow> api_env list \<Rightarrow> connection_manager \<Rightarrow>
     (bool \<times> connection_manager \<times> client_event list list) option" where
  "ConnectionManager_Login access_token username password envs m =
     (if cm_jwt_access_token m \<noteq> [] then Some (True, m, [])
      else login_attempts access_token (manager_client m) (client_login_request username password) (take kMaxRetries envs) m)"

text \<open>The two fields of the DNS answer; the second has a default, which the build gives.\<close>

definition dns_answered ::
    "netlib \<Rightarrow> (string \<Rightarrow> json_field \<times> json_field) \<Rightarrow> string \<Rightarrow> response \<Rightarrow> connection_manager \<Rightarrow> bool \<times> connection_manager" where
  "dns_answered lib dns default_ipv6 resp m =
     (if rs_code resp = 200
      then (case dns (rs_body resp) of
              (JsonMissing, _) \<Rightarrow> (False, m)
            | (JsonThrows what, _) \<Rightarrow> (False, m\<lparr>cm_latest_error := what\<rparr>)
            | (JsonField _, JsonThrows what) \<Rightarrow> (False, m\<lparr>cm_latest_error := what\<rparr>)
            | (JsonField ipv4, ipv6) \<Rightarrow>
                (True, m\<lparr>cm_dns_ipv4 := IPv4Address_new lib ipv4,
                         cm_dns_ipv6 := IPv6Address_new lib (case ipv6 of JsonField text \<Rightarrow> text | _ \<Rightarrow> default_ipv6)\<rparr>))
      else (False, m\<lparr>cm_latest_error := rs_errmsg resp\<rparr>))"

fun dns_attempts ::
    "netlib \<Rightarrow> (string \<Rightarrow> json_field \<times> json_field) \<Rightarrow> string \<Rightarrow> api_client \<Rightarrow> api_env list \<Rightarrow> connection_manager \<Rightarrow>
     connection_manager option" where
  "dns_attempts lib dns default_ipv6 cli [] m = Some m"
| "dns_attempts lib dns default_ipv6 cli (env # envs) m = do {
     (resp, evs) \<leftarrow> Get cli kApiDnsUrl env;
     (case dns_answered lib dns default_ipv6 resp m of
        (True, m) \<Rightarrow> Some m
      | (False, m) \<Rightarrow> dns_attempts lib dns default_ipv6 cli envs m)
   }"

definition ConnectionManager_GetDns ::
    "netlib \<Rightarrow> (string \<Rightarrow> json_field \<times> json_field) \<Rightarrow> string \<Rightarrow> api_env list \<Rightarrow> connection_manager \<Rightarrow>
     ((ip_address \<times> ip_address) \<times> connection_manager) option" where
  "ConnectionManager_GetDns lib dns default_ipv6 envs m =
     (if \<not> IPAddress_IsEmpty (cm_dns_ipv4 m) \<and> \<not> IPAddress_IsEmpty (cm_dns_ipv6 m)
      then Some ((cm_dns_ipv4 m, cm_dns_ipv6 m), m)
      else do {
        m \<leftarrow> dns_attempts lib dns default_ipv6 (manager_client m) (take kMaxRetries envs) m;
        Some ((cm_dns_ipv4 m, cm_dns_ipv6 m), m)
      })"

section \<open>Starting, stopping and sending\<close>

text \<open>\<open>None\<close>: the thread object still stands for a thread that nobody joined, and assigning to it ends
  the program.\<close>

definition ConnectionManager_Start :: "connection_manager \<Rightarrow> (bool \<times> connection_manager) option" where
  "ConnectionManager_Start m =
     (let m = m\<lparr>cm_running := True\<rparr> in
      if cm_run_at m = NoThread then Some (True, m\<lparr>cm_run_at := RunBegins\<rparr>) else None)"

text \<open>\<open>Stop\<close> in three pieces: up to the end of the locked block (\<open>False\<close>: the call returns already),
  the stop of the strategy outside the lock, and the join with the reset, which waits for the thread.\<close>

definition stop_begins :: "connection_manager \<Rightarrow> bool \<times> connection_manager" where
  "stop_begins m = (if \<not> cm_running m then (False, m) else (True, m\<lparr>cm_running := False, cm_stop_at := AtStopStrategy\<rparr>))"

definition stop_strategy :: "connection_manager \<Rightarrow> connection_manager" where
  "stop_strategy m = m\<lparr>cm_strategy := map_option strategy_Stop (cm_strategy m), cm_stop_at := AtJoin\<rparr>"

definition stop_joins :: "connection_manager \<Rightarrow> connection_manager option" where
  "stop_joins m =
     (if cm_run_at m \<in> {NoThread, Finished}
      then Some (m\<lparr>cm_run_at := NoThread, cm_strategy := None, cm_stop_at := NotStopping\<rparr>) else None)"

text \<open>The destructor stops the strategy; then the members go, and the thread object must not stand for
  a thread.\<close>

definition ConnectionManager_destroy :: "connection_manager \<Rightarrow> unit option" where
  "ConnectionManager_destroy m = (if cm_run_at m = NoThread then Some () else None)"

definition ConnectionManager_Send :: "nat \<Rightarrow> ip_packet option \<Rightarrow> connection_manager \<Rightarrow> (bool \<times> connection_manager) option" where
  "ConnectionManager_Send draw packet m =
     (case cm_strategy m of
        None \<Rightarrow> Some (False, m)
      | Some s \<Rightarrow>
          if cm_running m then do {
            (sent, s) \<leftarrow> strategy_Send draw packet s;
            Some (True, m\<lparr>cm_strategy := Some s\<rparr>)
          }
          else Some (False, m))"

definition ConnectionManager_IsStarted :: "connection_manager \<Rightarrow> bool" where
  "ConnectionManager_IsStarted m = cm_running m"

definition ConnectionManager_IsConnected :: "connection_manager \<Rightarrow> bool" where
  "ConnectionManager_IsConnected m \<longleftrightarrow>
     cm_running m \<and> (case cm_strategy m of None \<Rightarrow> False | Some s \<Rightarrow> strategy_IsConnected s)"

section \<open>The thread\<close>

definition kReconnectionWindow :: int where "kReconnectionWindow = 120 * ns_per_second"

definition count_attempt :: "int \<Rightarrow> connection_manager \<Rightarrow> connection_manager" where
  "count_attempt now m =
     (if now - cm_window_start m \<ge> kReconnectionWindow
      then m\<lparr>cm_reconnection_attempts := 0, cm_window_start := now\<rparr>
      else m\<lparr>cm_reconnection_attempts := cm_reconnection_attempts m + 1\<rparr>)"

text \<open>The next piece of \<open>Run\<close>. Inside the strategy's \<open>Start\<close> it stays as long as the strategy runs.\<close>

definition run_step :: "u64 \<Rightarrow> int \<Rightarrow> connection_manager \<Rightarrow> connection_manager" where
  "run_step counter now m =
     (case cm_run_at m of
        RunBegins \<Rightarrow> m\<lparr>cm_reconnection_attempts := 0, cm_window_start := now, cm_run_at := AtLoop\<rparr>
      | AtLoop \<Rightarrow>
          m\<lparr>cm_run_at := (if cm_running m \<and> cm_reconnection_attempts m < co_max_reconnections (cm_config m)
                          then AtCreate else AtExit)\<rparr>
      | AtCreate \<Rightarrow>
          m\<lparr>cm_strategy := (if cm_running m then Some (strategy_Create counter (cm_type m)) else cm_strategy m),
            cm_run_at := AtCheck\<rparr>
      | AtCheck \<Rightarrow> m\<lparr>cm_run_at := (if cm_running m \<and> cm_strategy m \<noteq> None then AtStart else AtResult)\<rparr>
      | AtStart \<Rightarrow> m\<lparr>cm_strategy := map_option strategy_Start (cm_strategy m), cm_run_at := InStart\<rparr>
      | InStart \<Rightarrow>
          (case cm_strategy m of
             Some s \<Rightarrow> if strategy_IsStarted s then m else m\<lparr>cm_run_at := AtResult\<rparr>
           | None \<Rightarrow> m)
      | AtResult \<Rightarrow> m\<lparr>cm_run_at := (if \<not> cm_running m then AtExit else AtClean)\<rparr>
      | AtClean \<Rightarrow> m\<lparr>cm_strategy := (if cm_running m then None else cm_strategy m), cm_run_at := AtCount\<rparr>
      | AtCount \<Rightarrow> (count_attempt now m)\<lparr>cm_run_at := AtLoop\<rparr>
      | AtExit \<Rightarrow> m\<lparr>cm_running := False, cm_run_at := Finished\<rparr>
      | _ \<Rightarrow> m)"

section \<open>Every interleaving\<close>

text \<open>What a running strategy does by itself. The rolling tunnel waits inside a turn as well.\<close>

inductive strategy_own :: "netlib \<Rightarrow> yaff \<Rightarrow> connection_config \<Rightarrow> any_strategy \<Rightarrow> any_strategy \<Rightarrow> bool"
  for lib :: netlib and y :: yaff and cfg :: connection_config where
  own_persistent: "strategy_own lib y cfg (AsPersistent s) (AsPersistent (snd (persistent_turn s)))"
| own_persistent_client: "pn_client s = Some c \<Longrightarrow> ws_step lib y cfg c c' \<Longrightarrow>
    strategy_own lib y cfg (AsPersistent s) (AsPersistent (s\<lparr>pn_client := Some c'\<rparr>))"
| own_mimicry: "mi_own PoolSettings_default lib y cfg s s' \<Longrightarrow> strategy_own lib y cfg (AsMimicry s) (AsMimicry s')"
| own_dual: "pt_own DualTunnel lib y cfg s s' \<Longrightarrow> strategy_own lib y cfg (AsDual s) (AsDual s')"
| own_triple: "pt_own TripleTunnel lib y cfg s s' \<Longrightarrow> strategy_own lib y cfg (AsTriple s) (AsTriple s')"
| own_rolling_begin: "RollingTunnel_IsStarted s \<Longrightarrow> \<not> ro_pending s \<Longrightarrow>
    strategy_own lib y cfg (AsRolling s) (AsRolling (rolling_begins now s))"
| own_rolling_end: "\<forall>(t, c) \<in> set looks. ws_reachable lib y cfg c \<Longrightarrow>
    strategy_own lib y cfg (AsRolling s) (AsRolling (rolling_ends (co_on_connected cfg) started looks now s))"
| own_rolling_client: "ro_active_connection s = Some c \<Longrightarrow> ws_step lib y cfg c c' \<Longrightarrow>
    strategy_own lib y cfg (AsRolling s) (AsRolling (s\<lparr>ro_active_connection := Some c'\<rparr>))"

text \<open>What happens to a manager by itself: the pieces of the thread and of a call of \<open>Stop\<close> that is under
  way, and the strategy while the thread is inside its \<open>Start\<close>.\<close>

inductive cm_own :: "netlib \<Rightarrow> yaff \<Rightarrow> connection_manager \<Rightarrow> connection_manager \<Rightarrow> bool"
  for lib :: netlib and y :: yaff where
  cm_stop_strategy: "cm_stop_at m = AtStopStrategy \<Longrightarrow> cm_own lib y m (stop_strategy m)"
| cm_stop_joins: "cm_stop_at m = AtJoin \<Longrightarrow> stop_joins m = Some m' \<Longrightarrow> cm_own lib y m m'"
| cm_run: "cm_own lib y m (run_step counter now m)"
| cm_inside: "cm_run_at m = InStart \<Longrightarrow> cm_strategy m = Some s \<Longrightarrow> strategy_own lib y (cm_config m) s s' \<Longrightarrow>
    cm_own lib y m (m\<lparr>cm_strategy := Some s'\<rparr>)"

text \<open>With the calls of its owner, who does not start a manager while a call of \<open>Stop\<close> is under way.\<close>

inductive cm_step :: "netlib \<Rightarrow> yaff \<Rightarrow> connection_manager \<Rightarrow> connection_manager \<Rightarrow> bool"
  for lib :: netlib and y :: yaff where
  cm_start: "cm_stop_at m = NotStopping \<Longrightarrow> ConnectionManager_Start m = Some (ok, m') \<Longrightarrow> cm_step lib y m m'"
| cm_send: "ConnectionManager_Send draw packet m = Some (ok, m') \<Longrightarrow> cm_step lib y m m'"
| cm_stop: "cm_step lib y m (snd (stop_begins m))"
| cm_self: "cm_own lib y m m' \<Longrightarrow> cm_step lib y m m'"

inductive cm_reachable :: "netlib \<Rightarrow> yaff \<Rightarrow> connection_manager \<Rightarrow> bool"
  for lib :: netlib and y :: yaff where
  cm_init: "cm_reachable lib y (ConnectionManager_new kind cfg)"
| cm_next: "cm_reachable lib y m \<Longrightarrow> cm_step lib y m m' \<Longrightarrow> cm_reachable lib y m'"

section \<open>Invariant\<close>

text \<open>The strategy is well formed and of the kind asked for; the thread and \<open>Stop\<close> agree with the flag;
  the loop begins each round without a strategy, unless it is to end.\<close>

fun kind_of :: "any_strategy \<Rightarrow> connection_strategy" where
  "kind_of (AsPersistent s) = kPersistentTunnel"
| "kind_of (AsMimicry s) = kBrowserMimicry"
| "kind_of (AsDual s) = kDualTunnel"
| "kind_of (AsTriple s) = kTripleTunnel"
| "kind_of (AsRolling s) = kRollingTunnel"

definition place_ok :: "connection_manager \<Rightarrow> bool" where
  "place_ok m =
     (case cm_run_at m of
        NoThread \<Rightarrow> \<not> cm_running m \<and> cm_strategy m = None \<and> cm_stop_at m = NotStopping
      | RunBegins \<Rightarrow> cm_strategy m = None
      | AtLoop \<Rightarrow> cm_running m \<longrightarrow> cm_strategy m = None
      | AtCreate \<Rightarrow> cm_running m \<longrightarrow> cm_strategy m = None
      | AtStart \<Rightarrow> cm_strategy m \<noteq> None
      | InStart \<Rightarrow> cm_strategy m \<noteq> None
      | AtCount \<Rightarrow> cm_running m \<longrightarrow> cm_strategy m = None
      | AtExit \<Rightarrow> cm_running m \<longrightarrow> cm_strategy m = None
      | Finished \<Rightarrow> \<not> cm_running m \<and> (cm_stop_at m = NotStopping \<longrightarrow> cm_strategy m = None)
      | _ \<Rightarrow> True)"

definition cm_inv :: "connection_manager \<Rightarrow> bool" where
  "cm_inv m \<longleftrightarrow> pred_option (\<lambda>s. strategy_inv s \<and> kind_of s = cm_type m) (cm_strategy m) \<and>
     (cm_stop_at m = NotStopping \<or> \<not> cm_running m) \<and>
     (cm_stop_at m = NotStopping \<longrightarrow> \<not> cm_running m \<longrightarrow> cm_run_at m \<in> {NoThread, Finished}) \<and> place_ok m"

lemma strategy_inv_Create: "strategy_inv (strategy_Create counter kind) \<and> kind_of (strategy_Create counter kind) = kind"
  by (cases kind)
    (simp_all add: strategy_Create_def PersistentTunnel_new_def pn_clients_def RollingTunnel_new_def ro_clients_def
      mi_inv_reachable [OF mi_init] pt_inv_reachable [OF pt_init])

lemma strategy_inv_Start: "strategy_inv s \<Longrightarrow> strategy_inv (strategy_Start s) \<and> kind_of (strategy_Start s) = kind_of s"
proof (cases s)
  case (AsPersistent p)
  have "ws_inv (Ws_Run WebsocketClient_new)" by (simp add: ws_inv_def Ws_Run_def WebsocketClient_new_def)
  then show ?thesis using AsPersistent by (simp add: pn_clients_def PersistentTunnel_Start_def)
qed (auto simp: mi_inv_def lists_ok_def BrowserMimicry_Start_def pt_inv_def pt_clients_def ParallelTunnels_Start_def
    ro_clients_def RollingTunnel_Start_def)

lemma kind_of_Stop [simp]: "kind_of (strategy_Stop s) = kind_of s"
  by (cases s) simp_all

lemma kind_of_Send: "strategy_Send draw p s = Some (ok, s') \<Longrightarrow> kind_of s' = kind_of s"
  by (cases s) (auto simp: map_prod_def split: prod.splits)

lemma ConnectionManager_Send_cases:
  assumes "ConnectionManager_Send draw packet m = Some (ok, m')"
  obtains (refused) "\<not> ok" "m' = m" "\<not> cm_running m \<or> cm_strategy m = None"
    | (given) s sent s' where "cm_running m" "cm_strategy m = Some s" "strategy_Send draw packet s = Some (sent, s')"
      "ok" "m' = m\<lparr>cm_strategy := Some s'\<rparr>"
  using assms by (auto simp: ConnectionManager_Send_def bind_eq_Some_conv split: option.splits if_splits)

lemma cm_inv_strategy:
  "cm_inv m \<Longrightarrow> cm_strategy m = Some s \<Longrightarrow> strategy_inv s' \<and> kind_of s' = kind_of s \<Longrightarrow> cm_inv (m\<lparr>cm_strategy := Some s'\<rparr>)"
  by (cases "cm_run_at m") (auto simp: cm_inv_def place_ok_def)

lemma rolling_inv_ends:
  assumes "list_all ws_inv (ro_clients s)" "\<forall>(t, c) \<in> set looks. ws_inv c"
  shows "list_all ws_inv (ro_clients (rolling_ends cb started looks now s))"
proof (cases "await_until (started + kConnectBudgetSeconds * ns_per_second) looks")
  case (Some c)
  then have "ws_inv c" using await_until_started assms(2) by blast
  then show ?thesis using assms(1) Some
    by (simp add: rolling_ends_def RenewConnection_def ro_clients_def RollingTunnel_NotifyConnectedOnce_def)
qed (use assms(1) in \<open>simp add: rolling_ends_def RenewConnection_def ro_clients_def RollingTunnel_NotifyConnectedOnce_def\<close>)

lemma strategy_inv_own:
  "strategy_own lib y cfg s s' \<Longrightarrow> strategy_inv s \<Longrightarrow> strategy_inv s' \<and> kind_of s' = kind_of s"
proof (induction rule: strategy_own.induct)
  case (own_persistent s)
  then show ?case by (cases "pn_client s") (simp_all add: persistent_turn_def pn_clients_def)
next
  case (own_persistent_client s c c')
  then show ?case using ws_inv_step [of lib y cfg c c'] by (simp add: pn_clients_def)
next
  case (own_mimicry s s')
  then show ?case by (simp add: mi_inv_own)
next
  case (own_dual s s')
  then show ?case by (simp add: pt_inv_own)
next
  case (own_triple s s')
  then show ?case by (simp add: pt_inv_own)
next
  case (own_rolling_begin s now)
  then show ?case by (simp add: rolling_begins_def ro_clients_def)
next
  case (own_rolling_end looks s started now)
  have "\<forall>(t, c) \<in> set looks. ws_inv c" using own_rolling_end(1) ws_inv_reachable by blast
  then show ?case using own_rolling_end(2) by (simp add: rolling_inv_ends)
next
  case (own_rolling_client s c c')
  then show ?case using ws_inv_step [of lib y cfg c c'] by (simp add: ro_clients_def)
qed

lemma cm_inv_run: "cm_inv m \<Longrightarrow> cm_inv (run_step counter now m)"
  using strategy_inv_Create [of counter "cm_type m"]
  by (cases "cm_run_at m")
    (auto simp: cm_inv_def run_step_def place_ok_def count_attempt_def strategy_inv_Start split: option.split)

lemma cm_inv_own: "cm_own lib y m m' \<Longrightarrow> cm_inv m \<Longrightarrow> cm_inv m'"
proof (induction rule: cm_own.induct)
  case (cm_stop_strategy m)
  then show ?case
    by (cases "cm_run_at m") (auto simp: cm_inv_def place_ok_def stop_strategy_def option.pred_map any.stop_inv
        elim: option.pred_mono_strong)
next
  case (cm_stop_joins m m')
  then show ?case by (auto simp: cm_inv_def place_ok_def stop_joins_def split: if_splits)
next
  case (cm_run m counter now)
  then show ?case by (simp add: cm_inv_run)
next
  case (cm_inside m s s')
  have "strategy_inv s" using cm_inside(2,4) by (simp add: cm_inv_def)
  then show ?case using cm_inv_strategy [OF cm_inside(4,2)] strategy_inv_own [OF cm_inside(3)] by blast
qed

lemma cm_inv_step: "cm_step lib y m m' \<Longrightarrow> cm_inv m \<Longrightarrow> cm_inv m'"
proof (induction rule: cm_step.induct)
  case (cm_start m ok m')
  then show ?case by (auto simp: cm_inv_def place_ok_def ConnectionManager_Start_def Let_def split: if_splits)
next
  case (cm_send draw packet m ok m')
  from cm_send(1) show ?case
  proof (cases rule: ConnectionManager_Send_cases)
    case (given s sent s')
    have "strategy_inv s" using cm_send(2) given(2) by (simp add: cm_inv_def)
    then have "strategy_inv s' \<and> kind_of s' = kind_of s" using any.send_inv given(3) kind_of_Send by blast
    then show ?thesis using cm_inv_strategy [OF cm_send(2) given(2)] given(5) by simp
  qed (use cm_send(2) in simp)
next
  case (cm_stop m)
  then show ?case by (cases "cm_run_at m") (auto simp: cm_inv_def place_ok_def stop_begins_def)
next
  case (cm_self m m')
  then show ?case by (simp add: cm_inv_own)
qed

lemma cm_inv_reachable: "cm_reachable lib y m \<Longrightarrow> cm_inv m"
proof (induction rule: cm_reachable.induct)
  case (cm_init kind cfg)
  then show ?case by (simp add: cm_inv_def place_ok_def ConnectionManager_new_def)
qed (rule cm_inv_step)

section \<open>Properties\<close>

text \<open>Stopping: when a call of \<open>Stop\<close> that was accepted returns, in any interleaving, the thread has
  ended, the strategy is gone, the manager is stopped and disconnected, packets are refused, and it
  may be destroyed or started again.\<close>

theorem manager_stop_complete:
  assumes "cm_reachable lib y m" and "cm_stop_at m = AtJoin" and "stop_joins m = Some m'"
  shows "cm_run_at m' = NoThread \<and> cm_strategy m' = None \<and> \<not> ConnectionManager_IsStarted m' \<and>
    \<not> ConnectionManager_IsConnected m' \<and> ConnectionManager_Send draw packet m' = Some (False, m') \<and>
    ConnectionManager_destroy m' = Some () \<and> ConnectionManager_Start m' \<noteq> None"
proof -
  have "\<not> cm_running m" using cm_inv_reachable [OF assms(1)] assms(2) by (simp add: cm_inv_def)
  then show ?thesis using assms(3)
    by (auto simp: stop_joins_def ConnectionManager_IsStarted_def ConnectionManager_IsConnected_def
        ConnectionManager_Send_def ConnectionManager_destroy_def ConnectionManager_Start_def Let_def split: if_splits)
qed

lemma own_reachable: "(cm_own lib y)\<^sup>*\<^sup>* m m' \<Longrightarrow> cm_reachable lib y m \<Longrightarrow> cm_reachable lib y m'"
  by (induction rule: rtranclp_induct) (auto intro: cm_next cm_self)

lemma run_own: "(cm_own lib y)\<^sup>*\<^sup>* m ((run_step counter now ^^ n) m)"
  by (induction n) (auto intro: rtranclp.rtrancl_into_rtrancl cm_run)

lemmas run_reachable = own_reachable [OF run_own]

definition demo_manager :: "connection_strategy \<Rightarrow> connection_manager" where
  "demo_manager kind = ConnectionManager_new kind demo_client"

lemma demo_started: "cm_reachable lib y ((demo_manager kind)\<lparr>cm_running := True, cm_run_at := RunBegins\<rparr>)"
  unfolding demo_manager_def
  by (rule cm_next [OF cm_init cm_start [where ok = True]])
    (simp_all add: ConnectionManager_new_def ConnectionManager_Start_def)

lemma run_step_simps [simp]:
  "cm_run_at m = RunBegins \<Longrightarrow> run_step counter now m = m\<lparr>cm_reconnection_attempts := 0, cm_window_start := now, cm_run_at := AtLoop\<rparr>"
  "cm_run_at m = AtLoop \<Longrightarrow> run_step counter now m =
     m\<lparr>cm_run_at := (if cm_running m \<and> cm_reconnection_attempts m < co_max_reconnections (cm_config m) then AtCreate else AtExit)\<rparr>"
  "cm_run_at m = AtCreate \<Longrightarrow> run_step counter now m =
     m\<lparr>cm_strategy := (if cm_running m then Some (strategy_Create counter (cm_type m)) else cm_strategy m), cm_run_at := AtCheck\<rparr>"
  "cm_run_at m = AtCheck \<Longrightarrow> run_step counter now m =
     m\<lparr>cm_run_at := (if cm_running m \<and> cm_strategy m \<noteq> None then AtStart else AtResult)\<rparr>"
  "cm_run_at m = AtStart \<Longrightarrow> run_step counter now m =
     m\<lparr>cm_strategy := map_option strategy_Start (cm_strategy m), cm_run_at := InStart\<rparr>"
  "cm_run_at m = InStart \<Longrightarrow> cm_strategy m = Some s \<Longrightarrow> run_step counter now m =
     (if strategy_IsStarted s then m else m\<lparr>cm_run_at := AtResult\<rparr>)"
  "cm_run_at m = AtResult \<Longrightarrow> run_step counter now m = m\<lparr>cm_run_at := (if \<not> cm_running m then AtExit else AtClean)\<rparr>"
  "cm_run_at m = AtClean \<Longrightarrow> run_step counter now m =
     m\<lparr>cm_strategy := (if cm_running m then None else cm_strategy m), cm_run_at := AtCount\<rparr>"
  "cm_run_at m = AtCount \<Longrightarrow> run_step counter now m = (count_attempt now m)\<lparr>cm_run_at := AtLoop\<rparr>"
  "cm_run_at m = AtExit \<Longrightarrow> run_step counter now m = m\<lparr>cm_running := False, cm_run_at := Finished\<rparr>"
  "cm_run_at m = Finished \<Longrightarrow> run_step counter now m = m"
  by (simp_all add: run_step_def)

lemma count_attempt_fields [simp]:
  "cm_running (count_attempt now m) = cm_running m" "cm_run_at (count_attempt now m) = cm_run_at m"
  "cm_strategy (count_attempt now m) = cm_strategy m" "cm_config (count_attempt now m) = cm_config m"
  "cm_stop_at (count_attempt now m) = cm_stop_at m" "cm_type (count_attempt now m) = cm_type m"
  by (simp_all add: count_attempt_def)

text \<open>A whole round of the thread whose strategy has come to the state \<open>s\<close> when its \<open>Start\<close> returns.\<close>

definition attempt_round :: "u64 \<times> any_strategy \<times> int \<Rightarrow> connection_manager \<Rightarrow> connection_manager" where
  "attempt_round r m =
     (case r of (counter, s, now) \<Rightarrow> (run_step counter now ^^ 4) (((run_step counter now ^^ 4) m)\<lparr>cm_strategy := Some s\<rparr>))"

lemma same_strategy: "cm_strategy m = a \<Longrightarrow> cm_run_at m = b \<Longrightarrow> m\<lparr>cm_strategy := a, cm_run_at := b\<rparr> = m"
  by (cases m) simp

lemma count_attempt_elsewhere:
  "(count_attempt now (m\<lparr>cm_strategy := a, cm_run_at := b\<rparr>))\<lparr>cm_run_at := AtLoop\<rparr> =
   (count_attempt now m)\<lparr>cm_strategy := a, cm_run_at := AtLoop\<rparr>"
  by (simp add: count_attempt_def)

lemma attempt_round_counts:
  assumes "cm_run_at m = AtLoop" "cm_running m" "cm_strategy m = None"
    "cm_reconnection_attempts m < co_max_reconnections (cm_config m)" "\<not> strategy_IsStarted s"
  shows "attempt_round (counter, s, now) m = count_attempt now m"
proof -
  have 1: "(run_step counter now ^^ 4) m =
      m\<lparr>cm_strategy := Some (strategy_Start (strategy_Create counter (cm_type m))), cm_run_at := InStart\<rparr>"
    using assms by (simp add: eval_nat_numeral)
  let ?m = "m\<lparr>cm_run_at := InStart, cm_strategy := Some s\<rparr>"
  have "(run_step counter now ^^ 4) ?m = (count_attempt now (m\<lparr>cm_strategy := None, cm_run_at := AtCount\<rparr>))\<lparr>cm_run_at := AtLoop\<rparr>"
    using assms(2,5) by (simp add: eval_nat_numeral)
  also have "\<dots> = count_attempt now m"
    unfolding count_attempt_elsewhere by (rule same_strategy) (simp_all add: assms)
  finally show ?thesis using 1 by (simp add: attempt_round_def)
qed

lemma unat_add_of_nat_small: "unat (a :: u64) + n < 2 ^ 64 \<Longrightarrow> unat (a + of_nat n) = unat a + n"
  by (simp add: unat_word_ariths unat_of_nat)

lemma failing_rounds:
  assumes "cm_run_at m = AtLoop" "cm_running m" "cm_strategy m = None"
    "cm_reconnection_attempts m + of_nat (length rounds) \<le> co_max_reconnections (cm_config m)"
    "unat (cm_reconnection_attempts m) + length rounds < 2 ^ 64"
    "\<forall>(c, s, now) \<in> set rounds. \<not> strategy_IsStarted s \<and> now - cm_window_start m < kReconnectionWindow"
  shows "fold attempt_round rounds m = m\<lparr>cm_reconnection_attempts := cm_reconnection_attempts m + of_nat (length rounds)\<rparr>"
  using assms
proof (induction rounds arbitrary: m)
  case (Cons r rounds)
  obtain c s now where r: "r = (c, s, now)" by (cases r)
  have u: "unat (cm_reconnection_attempts m + of_nat (length (r # rounds))) = unat (cm_reconnection_attempts m) + length (r # rounds)"
    using Cons.prems(5) by (intro unat_add_of_nat_small)
  have less: "cm_reconnection_attempts m < co_max_reconnections (cm_config m)"
    using Cons.prems(4) u by (simp add: word_less_nat_alt word_le_nat_alt)
  let ?m = "m\<lparr>cm_reconnection_attempts := cm_reconnection_attempts m + 1\<rparr>"
  have "attempt_round r m = count_attempt now m"
    unfolding r by (rule attempt_round_counts) (use Cons.prems less r in auto)
  also have "\<dots> = ?m" using Cons.prems(6) r by (simp add: count_attempt_def)
  finally have 1: "attempt_round r m = ?m" .
  have "unat (cm_reconnection_attempts m + 1) = unat (cm_reconnection_attempts m) + 1"
    using unat_add_of_nat_small [of "cm_reconnection_attempts m" 1] Cons.prems(5) by simp
  then have "fold attempt_round rounds ?m = ?m\<lparr>cm_reconnection_attempts := cm_reconnection_attempts ?m + of_nat (length rounds)\<rparr>"
    using Cons.prems by (intro Cons.IH) (auto simp: algebra_simps)
  then show ?case by (simp add: 1 algebra_simps)
qed simp

text \<open>C22: Giving up: while every connection fails within two minutes of the start of the thread, the
  manager tries exactly \<open>max_reconnections\<close> times, and then the thread ends and the manager is stopped.\<close>

theorem reconnections_bounded:
  assumes "cm_run_at m = RunBegins" and "cm_running m" and "cm_strategy m = None"
    and "length rounds = unat (co_max_reconnections (cm_config m))"
    and "\<forall>(c, s, now) \<in> set rounds. \<not> strategy_IsStarted s \<and> now - begun < 120 * ns_per_second"
    and "after = (\<lambda>k. fold attempt_round (take k rounds) (run_step c0 begun m))"
  shows "(\<forall>k < length rounds. cm_run_at (run_step c1 now (after k)) = AtCreate) \<and>
    cm_run_at ((run_step c1 now ^^ 2) (after (length rounds))) = Finished \<and>
    \<not> ConnectionManager_IsStarted ((run_step c1 now ^^ 2) (after (length rounds)))"
proof -
  let ?max = "co_max_reconnections (cm_config m)"
  let ?m = "m\<lparr>cm_reconnection_attempts := 0, cm_window_start := begun, cm_run_at := AtLoop\<rparr>"
  have small: "length rounds < 2 ^ 64" unfolding assms(4) by (rule order_less_le_trans [OF unsigned_less]) simp
  have le: "(of_nat k :: u64) \<le> ?max \<and> (of_nat k < ?max) = (k < length rounds)" if "k \<le> length rounds" for k
    using that small assms(4) by (simp add: word_le_nat_alt word_less_nat_alt unat_of_nat)
  have at: "after k = ?m\<lparr>cm_reconnection_attempts := of_nat k\<rparr>" if "k \<le> length rounds" for k
  proof -
    have "fold attempt_round (take k rounds) ?m = ?m\<lparr>cm_reconnection_attempts := cm_reconnection_attempts ?m + of_nat (length (take k rounds))\<rparr>"
      using that small le [OF that] assms(2,3,5)
      by (intro failing_rounds) (auto simp: kReconnectionWindow_def dest!: in_set_takeD)
    then show ?thesis using assms(1,6) that by (simp add: min_def)
  qed
  have "after (length rounds) = ?m\<lparr>cm_reconnection_attempts := ?max\<rparr>"
    unfolding at [OF order_refl] using assms(4) by simp
  then have "cm_run_at ((run_step c1 now ^^ 2) (after (length rounds))) = Finished \<and>
      \<not> ConnectionManager_IsStarted ((run_step c1 now ^^ 2) (after (length rounds)))"
    by (simp add: eval_nat_numeral ConnectionManager_IsStarted_def)
  moreover have "cm_run_at (run_step c1 now (after k)) = AtCreate" if "k < length rounds" for k
    using at [of k] le [of k] that assms(2) by simp
  ultimately show ?thesis by blast
qed

theorem reconnections_bounded_witness:
  "cm_run_at ((run_step 0 7 ^^ 2) (fold attempt_round (replicate 5 (0, AsRolling RollingTunnel_new, 6))
      (run_step 0 5 ((demo_manager kRollingTunnel)\<lparr>cm_running := True, cm_run_at := RunBegins\<rparr>)))) = Finished"
proof -
  let ?m = "(demo_manager kRollingTunnel)\<lparr>cm_running := True, cm_run_at := RunBegins\<rparr>"
  let ?r = "replicate 5 (0 :: u64, AsRolling RollingTunnel_new, 6 :: int)"
  have "cm_run_at ((run_step 0 7 ^^ 2) ((\<lambda>k. fold attempt_round (take k ?r) (run_step 0 5 ?m)) (length ?r))) = Finished"
    by (rule reconnections_bounded [OF _ _ _ _ _ refl, THEN conjunct2, THEN conjunct1])
      (simp_all add: demo_manager_def ConnectionManager_new_def demo_client_def RollingTunnel_new_def RollingTunnel_IsStarted_def
        ns_per_second_def)
  then show ?thesis by simp
qed

text \<open>After that there is no way back: a manager whose thread has ended by itself refuses \<open>Stop\<close>, which
  would have joined the thread, and the restart that the supervisor of the client makes then, like
  the manager's destruction, meets a thread object that nobody joined and ends the program.\<close>

theorem failed_manager_aborts:
  assumes "cm_reachable lib y m" and "cm_run_at m = Finished" and "cm_stop_at m = NotStopping"
  shows "stop_begins m = (False, m) \<and> ConnectionManager_Start m = None \<and> ConnectionManager_destroy m = None"
  using cm_inv_reachable [OF assms(1)] assms(2,3)
  by (simp add: cm_inv_def place_ok_def stop_begins_def ConnectionManager_Start_def ConnectionManager_destroy_def)

text \<open>Within thirty seconds of the start of the system parallel tunnels open no connection, so their
  first turn ends them.\<close>

definition boot_clocks :: turn_clocks where
  "boot_clocks = \<lparr>tk_removal = 0, tk_count = 0, tk_steady = 0, tk_lifetime = 0, tk_creation = 0\<rparr>"

definition boot_tunnels :: parallel_tunnels where
  "boot_tunnels = turn_ends True [] 0 (turn_begins DualTunnel boot_clocks (ParallelTunnels_Start ParallelTunnels_new))"

lemma boot_begins: "turn_begins DualTunnel boot_clocks (ParallelTunnels_Start ParallelTunnels_new) = ParallelTunnels_Start ParallelTunnels_new"
  by (simp add: turn_begins_def RemoveClosedConnections_def begin_connection_def ParallelTunnels_new_def ParallelTunnels_Start_def
      DualTunnel_def boot_clocks_def healthy_count_def kMaxConnections_def ns_per_second_def)

lemma boot_tunnels_own:
  "pt_own DualTunnel lib y demo_client (ParallelTunnels_Start ParallelTunnels_new) boot_tunnels \<and> \<not> ParallelTunnels_IsStarted boot_tunnels"
proof
  have "co_on_connected demo_client" by (simp add: demo_client_def)
  then show "pt_own DualTunnel lib y demo_client (ParallelTunnels_Start ParallelTunnels_new) boot_tunnels"
    using pt_turn [of "ParallelTunnels_Start ParallelTunnels_new" DualTunnel boot_clocks lib y demo_client 0]
    by (simp add: boot_begins boot_tunnels_def ParallelTunnels_IsStarted_def) (simp add: ParallelTunnels_Start_def ParallelTunnels_new_def)
  show "\<not> ParallelTunnels_IsStarted boot_tunnels"
    unfolding boot_tunnels_def boot_begins
    by (simp add: turn_ends_def end_connection_def IsPoolEmpty_def ParallelTunnels_Start_def ParallelTunnels_new_def
        ParallelTunnels_IsStarted_def)
qed

lemma boot_round_own:
  assumes "cm_run_at m = AtLoop" "cm_running m" "cm_strategy m = None" "cm_type m = kDualTunnel"
    "cm_config m = demo_client" "cm_reconnection_attempts m < 5"
  shows "(cm_own lib y)\<^sup>*\<^sup>* m (attempt_round (0, AsDual boot_tunnels, now) m)"
proof -
  let ?i = "m\<lparr>cm_strategy := Some (AsDual (ParallelTunnels_Start ParallelTunnels_new)), cm_run_at := InStart\<rparr>"
  have i: "(run_step 0 now ^^ 4) m = ?i"
    using assms by (simp add: eval_nat_numeral demo_client_def strategy_Create_def)
  have "(cm_own lib y)\<^sup>*\<^sup>* m ?i" using run_own [of lib y m 4 0 now] i by simp
  moreover have "cm_own lib y ?i (?i\<lparr>cm_strategy := Some (AsDual boot_tunnels)\<rparr>)"
    using own_dual [OF boot_tunnels_own [THEN conjunct1]] assms(5) by (intro cm_inside) simp_all
  ultimately have "(cm_own lib y)\<^sup>*\<^sup>* m (?i\<lparr>cm_strategy := Some (AsDual boot_tunnels)\<rparr>)"
    by (rule rtranclp.rtrancl_into_rtrancl)
  from rtranclp_trans [OF this run_own] show ?thesis using i by (simp add: attempt_round_def)
qed

lemma boot_rounds:
  assumes "n \<le> 5"
  defines "m \<equiv> ((demo_manager kDualTunnel)\<lparr>cm_running := True, cm_run_at := AtLoop, cm_reconnection_attempts := 0, cm_window_start := 0\<rparr>)"
  shows "(cm_own lib y)\<^sup>*\<^sup>* m (m\<lparr>cm_reconnection_attempts := of_nat n\<rparr>)"
  using assms(1)
proof (induction n)
  case 0
  have "m\<lparr>cm_reconnection_attempts := of_nat 0\<rparr> = m" by (simp add: m_def)
  then show ?case by (simp del: of_nat_0)
next
  case (Suc n)
  let ?r = "(0 :: u64, AsDual boot_tunnels, 0 :: int)"
  let ?n = "m\<lparr>cm_reconnection_attempts := of_nat n\<rparr>"
  have f: "cm_run_at ?n = AtLoop" "cm_running ?n" "cm_strategy ?n = None" "cm_type ?n = kDualTunnel" "cm_config ?n = demo_client"
    by (simp_all add: m_def demo_manager_def ConnectionManager_new_def)
  have l: "cm_reconnection_attempts ?n < 5" using Suc.prems by (simp add: word_less_nat_alt unat_of_nat)
  have "attempt_round ?r ?n = count_attempt 0 ?n"
    using f l boot_tunnels_own by (intro attempt_round_counts) (simp_all add: demo_client_def)
  also have "\<dots> = m\<lparr>cm_reconnection_attempts := of_nat (Suc n)\<rparr>"
    by (simp add: count_attempt_def m_def kReconnectionWindow_def ns_per_second_def add.commute)
  finally have "(cm_own lib y)\<^sup>*\<^sup>* ?n (m\<lparr>cm_reconnection_attempts := of_nat (Suc n)\<rparr>)"
    using boot_round_own [OF f l, of lib y 0] by simp
  with Suc.IH [OF Suc_leD [OF Suc.prems]] show ?case by (rule rtranclp_trans)
qed

text \<open>Five rounds later the manager has given up.\<close>

lemma boot_gives_up:
  "\<exists>m. (cm_own lib y)\<^sup>*\<^sup>* ((demo_manager kDualTunnel)\<lparr>cm_running := True, cm_run_at := RunBegins\<rparr>) m \<and>
     cm_run_at m = Finished \<and> cm_stop_at m = NotStopping \<and> cm_type m = kDualTunnel \<and> \<not> cm_running m"
proof -
  let ?b = "(demo_manager kDualTunnel)\<lparr>cm_running := True, cm_run_at := RunBegins\<rparr>"
  let ?m = "((demo_manager kDualTunnel)\<lparr>cm_running := True, cm_run_at := AtLoop, cm_reconnection_attempts := 0, cm_window_start := 0\<rparr>)"
  let ?n = "?m\<lparr>cm_reconnection_attempts := of_nat 5\<rparr>"
  have e: "?m = run_step 0 0 ?b" by simp
  have "(cm_own lib y)\<^sup>*\<^sup>* ?b ?m" unfolding e by (rule r_into_rtranclp [where r = "cm_own lib y"]) (rule cm_run)
  also have "(cm_own lib y)\<^sup>*\<^sup>* ?m ?n" by (rule boot_rounds) simp
  finally have "(cm_own lib y)\<^sup>*\<^sup>* ?b ((run_step 0 0 ^^ 2) ?n)" using run_own by (rule rtranclp_trans)
  moreover have "(run_step 0 0 ^^ 2) ?n = ?n\<lparr>cm_running := False, cm_run_at := Finished\<rparr>"
    by (simp add: eval_nat_numeral demo_manager_def ConnectionManager_new_def demo_client_def)
  ultimately show ?thesis
    by (intro exI [of _ "?n\<lparr>cm_running := False, cm_run_at := Finished\<rparr>"])
      (simp_all add: demo_manager_def ConnectionManager_new_def)
qed

theorem failed_manager_aborts_witness:
  "\<exists>m. cm_reachable demo_lib demo_yaff m \<and> cm_type m = kDualTunnel \<and> fst (stop_begins m) = False \<and> ConnectionManager_Start m = None"
proof -
  obtain m where m: "(cm_own demo_lib demo_yaff)\<^sup>*\<^sup>* ((demo_manager kDualTunnel)\<lparr>cm_running := True, cm_run_at := RunBegins\<rparr>) m"
    "cm_run_at m = Finished" "cm_stop_at m = NotStopping" "cm_type m = kDualTunnel"
    using boot_gives_up by blast
  have r: "cm_reachable demo_lib demo_yaff m" by (rule own_reachable [OF m(1) demo_started])
  show ?thesis using failed_manager_aborts [OF r m(2,3)] r m(4) by (intro exI [of _ m]) simp
qed

lemma strategy_restarted: "strategy_IsStarted (strategy_Start (strategy_Stop (strategy_Create counter kind)))"
  by (cases kind)
    (simp_all add: strategy_Create_def PersistentTunnel_Start_def PersistentTunnel_IsStarted_def BrowserMimicry_Start_def
      BrowserMimicry_IsStarted_def ParallelTunnels_Start_def ParallelTunnels_IsStarted_def RollingTunnel_Start_def
      RollingTunnel_IsStarted_def)

lemma waiting_step:
  assumes "cm_step lib y m m'" "cm_stop_at m = AtJoin" "cm_run_at m = InStart" "cm_strategy m = Some s" "strategy_IsStarted s"
    "\<not> cm_running m"
  shows "m' = m \<or> (\<exists>s'. strategy_own lib y (cm_config m) s s' \<and> m' = m\<lparr>cm_strategy := Some s'\<rparr>)"
  using assms
  by (cases rule: cm_step.cases)
    (auto simp: stop_begins_def stop_joins_def elim!: ConnectionManager_Send_cases cm_own.cases)



text \<open>Sending through the manager: whether it reports success says only whether it is running with a
  strategy; the packet is then at the end of exactly one connection's queue, or, unreported, in
  none. A packet that got into a queue went to a started connection of a started strategy.\<close>

theorem manager_send:
  assumes "cm_reachable lib y m" and "ConnectionManager_Send draw packet m = Some (ok, m')"
  shows "ok = (cm_running m \<and> cm_strategy m \<noteq> None) \<and>
    (\<not> ok \<longrightarrow> m' = m) \<and>
    (ok \<longrightarrow> (\<exists>s s'. cm_strategy m = Some s \<and> cm_strategy m' = Some s' \<and>
      (any.queued s' = any.queued s \<or>
       strategy_IsStarted s \<and> ConnectionManager_IsConnected m \<and>
       (\<exists>j < length (any.queued s). any.queued s' = (any.queued s)[j := any.queued s ! j @ [packet]]))))"
  using assms(2)
proof (cases rule: ConnectionManager_Send_cases)
  case (given s sent s')
  have inv: "strategy_inv s" using cm_inv_reachable [OF assms(1)] given(2) by (simp add: cm_inv_def)
  have "any.queued s' = any.queued s \<or> strategy_IsStarted s \<and> strategy_IsConnected s \<and>
      (\<exists>j < length (any.queued s). any.queued s' = (any.queued s)[j := any.queued s ! j @ [packet]])"
    using any.send_queues [OF inv given(3)] any.send_needs_connection [OF inv] given(3) by (cases sent) auto
  then show ?thesis using given by (simp add: ConnectionManager_IsConnected_def)
qed auto

theorem manager_send_witness:
  "\<exists>m m' s s'. cm_reachable demo_lib demo_yaff m \<and> ConnectionManager_Send 0 (Some demo_udp) m = Some (True, m') \<and>
     cm_strategy m = Some s \<and> cm_strategy m' = Some s' \<and> any.queued s' = any.queued s"
proof -
  let ?b = "(demo_manager kDualTunnel)\<lparr>cm_running := True, cm_run_at := RunBegins\<rparr>"
  let ?c = "?b\<lparr>cm_reconnection_attempts := 0, cm_window_start := 0, cm_strategy := Some (AsDual ParallelTunnels_new), cm_run_at := AtStart\<rparr>"
  have p: "0 < co_max_reconnections demo_client" by (simp add: demo_client_def)
  have f: "cm_config (demo_manager kDualTunnel) = demo_client" "cm_type (demo_manager kDualTunnel) = kDualTunnel"
    by (simp_all add: demo_manager_def ConnectionManager_new_def)
  have "(run_step 0 0 ^^ 4) ?b = ?c" by (simp add: eval_nat_numeral f p strategy_Create_def)
  then have r: "cm_reachable demo_lib demo_yaff ?c"
    using run_reachable [OF demo_started [of demo_lib demo_yaff kDualTunnel], of 4 0 0] by simp
  have n: "\<not> strategy_IsStarted (AsDual ParallelTunnels_new)" by (simp add: ParallelTunnels_IsStarted_def ParallelTunnels_new_def)
  have s: "ConnectionManager_Send 0 (Some demo_udp) ?c = Some (True, ?c)"
    using any.send_stopped [OF n, of 0 "Some demo_udp"] by (simp add: ConnectionManager_Send_def del: strategy_Send.simps)
  from manager_send [OF r s] n r s show ?thesis by auto
qed

text \<open>The JSON library on texts without anything to escape.\<close>

definition plain_text :: "string \<Rightarrow> bool" where
  "plain_text s \<longleftrightarrow> CHR 0x22 \<notin> set s \<and> CHR 0x5C \<notin> set s \<and> (\<forall>c \<in> set s. (of_char c :: nat) \<ge> 32)"

definition json_ok :: "(string \<Rightarrow> body_json) \<Rightarrow> (string \<Rightarrow> json_field) \<Rightarrow> bool" where
  "json_ok parse access_token \<longleftrightarrow>
     (\<forall>u p. plain_text u \<and> plain_text p \<longrightarrow> parse (client_login_request u p) = BodyJson (Some u) (Some p)) \<and>
     (\<forall>access refresh bw. plain_text access \<and> plain_text refresh \<longrightarrow>
        access_token (login_answer access refresh bw) = JsonField access)"


text \<open>A stand-in for the JSON library: the field between the quotes with that number.\<close>

fun quoted_field :: "nat \<Rightarrow> string \<Rightarrow> string" where
  "quoted_field n [] = []"
| "quoted_field 0 (c # s) = (if c = CHR 0x22 then [] else c # quoted_field 0 s)"
| "quoted_field (Suc n) (c # s) = (if c = CHR 0x22 then quoted_field n s else quoted_field (Suc n) s)"

lemma quoted_field_append:
  "CHR 0x22 \<notin> set a \<Longrightarrow> quoted_field 0 (a @ CHR 0x22 # b) = a"
  "CHR 0x22 \<notin> set a \<Longrightarrow> quoted_field (Suc n) (a @ CHR 0x22 # b) = quoted_field n b"
  by (induction a) auto

lemma quoted_field_json_ok:
  "json_ok (\<lambda>s. BodyJson (Some (quoted_field 3 s)) (Some (quoted_field 7 s))) (\<lambda>s. JsonField (quoted_field 3 s))"
  by (simp add: json_ok_def plain_text_def client_login_request_def login_answer_def quoted_def eval_nat_numeral quoted_field_append)

definition demo_login_env :: "string \<Rightarrow> nat \<Rightarrow> api_env" where
  "demo_login_env text status = (demo_api_env [])\<lparr>ae_answer := Inr (int status, text)\<rparr>"

lemma demo_login_post:
  assumes "ac_expected_md5_fingerprint c = []" "ac_censorship_strategy c = kSni"
  shows "Post c url request (demo_login_env text status) = Some (\<lparr>rs_body = text, rs_code = int status, rs_errmsg = []\<rparr>,
    [ClObf None, ClTls, ClObf None, ClRequest ''POST'' url request])"
  using assms
  by (simp add: Post_def run_request_def PostImpl_def exchange_def demo_api_env_def demo_login_env_def
      IsRealityModeWithFakeHandshake_def secure_exchange_def tls_handshake_def ExecuteWithTimeout_def)


end
