(* ===== verification/ClientConfig.thy ===== *)
theory ClientConfig
  imports ClientManager
begin

text \<open>
  The client's configuration: reading an access token (\<open>src/fptn-client/config/config_file.cpp\<close>,
  \<open>src/common/utils/base64.h\<close>, \<open>utils/brotli/brotli.h\<close>) and choosing a server
  (\<open>utils/speed_estimator/speed_estimator.cpp\<close>). Base64, Brotli and the JSON parser are libraries and
  fields of \<open>config_lib\<close>; a parsed JSON document is a value of \<open>jvalue\<close>, with the accessors the code
  uses of it. The requests to the servers are those of \<open>ClientHandshake\<close>.
\<close>

section \<open>JSON documents\<close>

text \<open>A number that is not an integer appears by what its conversion to an integer gives.\<close>

datatype jvalue =
  JNull | JBool bool | JInt int | JFloat int | JString string | JArray "jvalue list" | JObject "(string \<times> jvalue) list"

datatype jexc = ParseError | TypeError | OutOfRange

fun jkeys :: "jvalue \<Rightarrow> string list" where
  "jkeys (JObject kvs) = map fst kvs"
| "jkeys _ = []"

definition jcontains :: "string \<Rightarrow> jvalue \<Rightarrow> bool" where
  "jcontains k j \<longleftrightarrow> k \<in> set (jkeys j)"

fun jat :: "string \<Rightarrow> jvalue \<Rightarrow> jexc + jvalue" where
  "jat k (JObject kvs) = (case map_of kvs k of Some v \<Rightarrow> Inr v | None \<Rightarrow> Inl OutOfRange)"
| "jat k _ = Inl TypeError"

definition to_c_int :: "int \<Rightarrow> int" where
  "to_c_int i = sint (word_of_int i :: 32 word)"

fun get_int :: "jvalue \<Rightarrow> jexc + int" where
  "get_int (JInt i) = Inr (to_c_int i)"
| "get_int (JFloat i) = Inr (to_c_int i)"
| "get_int (JBool b) = Inr (if b then 1 else 0)"
| "get_int _ = Inl TypeError"

fun get_string :: "jvalue \<Rightarrow> jexc + string" where
  "get_string (JString s) = Inr s"
| "get_string _ = Inl TypeError"

text \<open>What a range-based \<open>for\<close> runs over.\<close>

fun elements :: "jvalue \<Rightarrow> jvalue list" where
  "elements (JArray xs) = xs"
| "elements (JObject kvs) = map snd kvs"
| "elements JNull = []"
| "elements j = [j]"

definition jfield :: "(jvalue \<Rightarrow> jexc + 'a) \<Rightarrow> string \<Rightarrow> jvalue \<Rightarrow> jexc + 'a" where
  "jfield get k j = (case jat k j of Inl e \<Rightarrow> Inl e | Inr v \<Rightarrow> get v)"

section \<open>The token\<close>

record config_lib =
  cl_from_base64 :: "string \<Rightarrow> string + string"
  cl_brotli :: "nat \<Rightarrow> string \<Rightarrow> string option"
  cl_alloc_limit :: nat
  cl_alloc_error :: string
  cl_json :: "string \<Rightarrow> jexc + jvalue"
  cl_json_what :: "jexc \<Rightarrow> string"
  cl_to_lower :: "string \<Rightarrow> string"

record server_info =
  si_name :: string
  si_host :: string
  si_port :: int
  si_is_using :: bool
  si_md5_fingerprint :: string
  si_username :: string
  si_password :: string
  si_service_name :: string

definition ServerInfo_empty :: server_info where
  "ServerInfo_empty = \<lparr>si_name = [], si_host = [], si_port = 0, si_is_using = False, si_md5_fingerprint = [],
     si_username = [], si_password = [], si_service_name = []\<rparr>"

definition ServerInfo_new :: "string \<Rightarrow> string \<Rightarrow> int \<Rightarrow> string \<Rightarrow> server_info" where
  "ServerInfo_new name host port md5_fingerprint = \<lparr>si_name = name, si_host = host, si_port = port, si_is_using = False,
     si_md5_fingerprint = md5_fingerprint, si_username = [], si_password = [], si_service_name = []\<rparr>"

record config_file =
  cf_token :: string
  cf_sni :: string
  cf_censorship_strategy :: censorship_strategy
  cf_version :: int
  cf_service_name :: string
  cf_username :: string
  cf_password :: string
  cf_servers :: "server_info list"

definition ConfigFile_new :: "string \<Rightarrow> string \<Rightarrow> censorship_strategy \<Rightarrow> config_file" where
  "ConfigFile_new token sni strat = \<lparr>cf_token = token, cf_sni = sni, cf_censorship_strategy = strat,
     cf_version = 0, cf_service_name = [], cf_username = [], cf_password = [], cf_servers = []\<rparr>"

definition AddServer :: "server_info \<Rightarrow> config_file \<Rightarrow> bool \<times> config_file" where
  "AddServer s c = (True, c\<lparr>cf_servers := cf_servers c @ [s]\<rparr>)"

definition GetServer :: "config_lib \<Rightarrow> string \<Rightarrow> config_file \<Rightarrow> server_info option" where
  "GetServer lib server_name c =
     (let prepared_server_name = Trim (cl_to_lower lib server_name) in
      if server_name = [] then None
      else find (\<lambda>s. Trim (cl_to_lower lib (si_name s)) = prepared_server_name) (cf_servers c))"

text \<open>\<open>base64::decode\<close> fills the text up to a multiple of four.\<close>

definition base64_decode :: "config_lib \<Rightarrow> string \<Rightarrow> string + string" where
  "base64_decode lib s =
     cl_from_base64 lib (s @ (if length s mod 4 \<noteq> 0 then replicate (4 - length s mod 4) (CHR ''='') else []))"

text \<open>The loop ends when the decoder is content with the buffer or the buffer cannot be allocated; it may
  not end at all.\<close>

partial_function (option) decompress_loop :: "config_lib \<Rightarrow> string \<Rightarrow> nat \<Rightarrow> (string + string) option" where
  "decompress_loop lib compressed_data decoded_size =
     (if decoded_size > cl_alloc_limit lib then Some (Inl (cl_alloc_error lib))
      else (case cl_brotli lib decoded_size compressed_data of
              Some out \<Rightarrow> Some (Inr out)
            | None \<Rightarrow> decompress_loop lib compressed_data (decoded_size * 2)))"

definition Decompress :: "config_lib \<Rightarrow> string \<Rightarrow> (string + string) option" where
  "Decompress lib compressed_data = decompress_loop lib compressed_data (length compressed_data * 30)"

definition starts_with :: "string \<Rightarrow> string \<Rightarrow> bool" where
  "starts_with s prefix \<longleftrightarrow> take (length prefix) s = prefix"

abbreviation newline :: string where "newline \<equiv> [CHR 0x0A]"
abbreviation return :: string where "return \<equiv> [CHR 0x0D]"
abbreviation tab :: string where "tab \<equiv> [CHR 0x09]"

definition token_data :: "config_lib \<Rightarrow> string \<Rightarrow> (string + string) option" where
  "token_data lib token =
     (if starts_with token ''fptnb:'' \<or> starts_with token ''fptnb//'' then
        (case base64_decode lib (RemoveSubstring token [''fptnb:'', ''fptnb//'', '' '', newline, return, tab, ''='']) of
           Inl what \<Rightarrow> Some (Inl what)
         | Inr compressed_data \<Rightarrow> Decompress lib compressed_data)
      else Some (base64_decode lib (RemoveSubstring token [''fptn://'', ''fptn:'', '' '', newline, return, tab, ''=''])))"

text \<open>A member is assigned when its field was read; an exception leaves those read before.\<close>

definition assign :: "jexc + 'a \<Rightarrow> ('a \<Rightarrow> config_file \<Rightarrow> config_file) \<Rightarrow> jexc option \<times> config_file \<Rightarrow> jexc option \<times> config_file" where
  "assign r put st = (case st of
       (Some e, c) \<Rightarrow> (Some e, c)
     | (None, c) \<Rightarrow> (case r of Inl e \<Rightarrow> (Some e, c) | Inr v \<Rightarrow> (None, put v c)))"

definition read_server :: "jvalue \<Rightarrow> jexc + server_info" where
  "read_server server =
     (case jfield get_string ''name'' server of Inl e \<Rightarrow> Inl e | Inr name \<Rightarrow>
      (case jfield get_string ''host'' server of Inl e \<Rightarrow> Inl e | Inr host \<Rightarrow>
      (case jfield get_int ''port'' server of Inl e \<Rightarrow> Inl e | Inr port \<Rightarrow>
      (case jfield get_string ''md5_fingerprint'' server of Inl e \<Rightarrow> Inl e | Inr md5 \<Rightarrow>
         Inr (ServerInfo_new name host port md5)))))"

fun read_servers :: "jvalue list \<Rightarrow> jexc option \<times> config_file \<Rightarrow> jexc option \<times> config_file" where
  "read_servers [] st = st"
| "read_servers (server # servers) st =
     read_servers servers (assign (read_server server) (\<lambda>s c. c\<lparr>cf_servers := cf_servers c @ [s]\<rparr>) st)"

definition read_config :: "jvalue \<Rightarrow> config_file \<Rightarrow> jexc option \<times> config_file" where
  "read_config config c =
     (let st = assign (jfield get_int ''version'' config) (\<lambda>v c. c\<lparr>cf_version := v\<rparr>) (None, c);
          st = assign (jfield get_string ''service_name'' config) (\<lambda>v c. c\<lparr>cf_service_name := v\<rparr>) st;
          st = assign (jfield get_string ''username'' config) (\<lambda>v c. c\<lparr>cf_username := v\<rparr>) st;
          st = assign (jfield get_string ''password'' config) (\<lambda>v c. c\<lparr>cf_password := v\<rparr>) st in
      (case st of
         (Some e, c) \<Rightarrow> (Some e, c)
       | (None, c) \<Rightarrow> (case jat ''servers'' config of Inl e \<Rightarrow> (Some e, c) | Inr v \<Rightarrow> read_servers (elements v) (None, c))))"

text \<open>\<open>Parse\<close> returns \<open>Inr True\<close> or throws a runtime error with the text of \<open>Inl\<close>.\<close>

definition token_error :: "string \<Rightarrow> string + bool" where
  "token_error what = Inl (''Token parsing error: '' @ what)"

definition json_error :: "config_lib \<Rightarrow> jexc \<Rightarrow> string + bool" where
  "json_error lib e = Inl (''JSON parsing error: '' @ cl_json_what lib e @ ''. Try to update your token'')"

definition Parse :: "config_lib \<Rightarrow> config_file \<Rightarrow> ((string + bool) \<times> config_file) option" where
  "Parse lib c =
     (if cf_token c = [] then Some (token_error ''Token is empty'', c)
      else (case token_data lib (cf_token c) of
          None \<Rightarrow> None
        | Some (Inl what) \<Rightarrow> Some (token_error what, c)
        | Some (Inr data) \<Rightarrow>
           (case cl_json lib data of
              Inl e \<Rightarrow> Some (json_error lib e, c)
            | Inr config \<Rightarrow>
               (case read_config config c of
                  (Some e, c) \<Rightarrow> Some (json_error lib e, c)
                | (None, c) \<Rightarrow>
                    if cf_servers c = [] then Some (token_error ''Server list is empty!'', c) else Some (Inr True, c)))))"

section \<open>Choosing a server\<close>

text \<open>What one attempt does is a request with an outside of its own; \<open>None\<close> is no return.\<close>

definition server_client :: "server_info \<Rightarrow> string \<Rightarrow> censorship_strategy \<Rightarrow> api_client" where
  "server_client s sni strat = \<lparr>ac_host = si_host s, ac_port = si_port s, ac_sni = sni,
     ac_expected_md5_fingerprint = si_md5_fingerprint s, ac_censorship_strategy = strat\<rparr>"

record login_result =
  lr_server :: server_info
  lr_access_token :: string

definition TryLoginSingleServer ::
    "config_lib \<Rightarrow> server_info \<Rightarrow> string \<Rightarrow> censorship_strategy \<Rightarrow> api_env \<Rightarrow> login_result option option" where
  "TryLoginSingleServer lib server sni strat env =
     (case Post (server_client server sni strat) ''/api/v1/login'' (client_login_request (si_username server) (si_password server)) env of
        None \<Rightarrow> None
      | Some (resp, _) \<Rightarrow> Some
         (if rs_code resp = 200 then
            (case cl_json lib (rs_body resp) of
               Inl _ \<Rightarrow> None
             | Inr msg \<Rightarrow>
                 if jcontains ''access_token'' msg then
                   (case jfield get_string ''access_token'' msg of
                      Inl _ \<Rightarrow> None
                    | Inr token \<Rightarrow> Some \<lparr>lr_server = server, lr_access_token = token\<rparr>)
                 else None)
          else None))"

definition kMaxTimeout :: u64 where "kMaxTimeout = - 1"

text \<open>The time the request took is \<open>ms\<close>.\<close>

definition GetDownloadTimeMs ::
    "server_info \<Rightarrow> string \<Rightarrow> string \<Rightarrow> censorship_strategy \<Rightarrow> api_env \<Rightarrow> u64 \<Rightarrow> u64 option" where
  "GetDownloadTimeMs server sni md5_fingerprint strat env elapsed =
     (case Get (server_client (server\<lparr>si_md5_fingerprint := md5_fingerprint\<rparr>) sni strat) ''/api/v1/test/file.bin'' env of
        None \<Rightarrow> None
      | Some (resp, _) \<Rightarrow> Some (if rs_code resp = 200 then elapsed else kMaxTimeout))"

text \<open>
  The race of both searches. \<open>shuffle\<close> is the shuffle, \<open>started\<close> how many threads could be started (an
  exception stops the loop), \<open>finish\<close> the indices in the order in which the threads finish; every thread is
  joined, so all of them have finished when the result is looked at. \<open>attempt i\<close> is the result of the
  thread of server \<open>i\<close> and \<open>retry i\<close> that of the sequential try.
\<close>

definition select_servers :: "(server_info list \<Rightarrow> server_info list) \<Rightarrow> server_info list \<Rightarrow> server_info list" where
  "select_servers shuffle servers = (let shuffled_servers = shuffle servers in take (min (length shuffled_servers) 4) shuffled_servers)"

fun first_result :: "'r option list \<Rightarrow> 'r option" where
  "first_result [] = None"
| "first_result (r # rs) = (case r of Some x \<Rightarrow> Some x | None \<Rightarrow> first_result rs)"

definition race :: "nat \<Rightarrow> nat list \<Rightarrow> nat \<Rightarrow> (nat \<Rightarrow> 'r option) \<Rightarrow> (nat \<Rightarrow> 'r option) \<Rightarrow> 'r option" where
  "race started finish n attempt retry =
     (let multithread_ok = (started = n);
          state_result = first_result (map attempt (filter (\<lambda>i. i < started) finish));
          sequential = first_result (map retry [0..<n]) in
      if (\<not> multithread_ok \<or> state_result = None) \<and> sequential \<noteq> None then sequential else state_result)"

record race_env =
  ra_shuffle :: "server_info list \<Rightarrow> server_info list"
  ra_started :: nat
  ra_finish :: "nat list"
  ra_attempt :: "nat \<Rightarrow> api_env"
  ra_retry :: "nat \<Rightarrow> api_env"
  ra_elapsed :: "api_env \<Rightarrow> u64"

definition login_tried :: "config_lib \<Rightarrow> string \<Rightarrow> censorship_strategy \<Rightarrow> server_info \<Rightarrow> api_env \<Rightarrow> login_result option" where
  "login_tried lib sni strat server env =
     (case TryLoginSingleServer lib server sni strat env of Some r \<Rightarrow> r | None \<Rightarrow> None)"

definition FindServerByLogin ::
    "config_lib \<Rightarrow> race_env \<Rightarrow> string \<Rightarrow> server_info list \<Rightarrow> censorship_strategy \<Rightarrow> login_result option" where
  "FindServerByLogin lib ra sni servers strat =
     (if servers = [] then None
      else let selected_servers = select_servers (ra_shuffle ra) servers in
        race (ra_started ra) (ra_finish ra) (length selected_servers)
          (\<lambda>i. login_tried lib sni strat (selected_servers ! i) (ra_attempt ra i))
          (\<lambda>i. login_tried lib sni strat (selected_servers ! i) (ra_retry ra i)))"

definition download_tried :: "string \<Rightarrow> censorship_strategy \<Rightarrow> (api_env \<Rightarrow> u64) \<Rightarrow> server_info \<Rightarrow> api_env \<Rightarrow> server_info option" where
  "download_tried sni strat elapsed server env =
     (case GetDownloadTimeMs server sni (si_md5_fingerprint server) strat env (elapsed env) of
        Some t \<Rightarrow> if t \<noteq> kMaxTimeout then Some server else None
      | None \<Rightarrow> None)"

definition FindFastestServer :: "race_env \<Rightarrow> string \<Rightarrow> server_info list \<Rightarrow> censorship_strategy \<Rightarrow> string + server_info" where
  "FindFastestServer ra sni servers strat =
     (if servers = [] then Inl ''All servers unavailable: server list is empty!''
      else let selected_servers = select_servers (ra_shuffle ra) servers in
        (case race (ra_started ra) (ra_finish ra) (length selected_servers)
            (\<lambda>i. download_tried sni strat (ra_elapsed ra) (selected_servers ! i) (ra_attempt ra i))
            (\<lambda>i. download_tried sni strat (ra_elapsed ra) (selected_servers ! i) (ra_retry ra i)) of
           Some s \<Rightarrow> Inr s
         | None \<Rightarrow> Inl ''All servers unavailable!''))"

definition ConfigFile_FindFastestServer :: "race_env \<Rightarrow> config_file \<Rightarrow> string + server_info" where
  "ConfigFile_FindFastestServer ra c = FindFastestServer ra (cf_sni c) (cf_servers c) (cf_censorship_strategy c)"

definition with_credentials :: "config_file \<Rightarrow> server_info \<Rightarrow> server_info" where
  "with_credentials c s =
     (let s = (if si_username s = [] then s\<lparr>si_username := cf_username c\<rparr> else s) in
      if si_password s = [] then s\<lparr>si_password := cf_password c\<rparr> else s)"

definition ConfigFile_FindServerByLogin :: "config_lib \<Rightarrow> race_env \<Rightarrow> config_file \<Rightarrow> login_result option" where
  "ConfigFile_FindServerByLogin lib ra c =
     FindServerByLogin lib ra (cf_sni c) (map (with_credentials c) (cf_servers c)) (cf_censorship_strategy c)"

section \<open>Reading a token back\<close>

lemma erase_all_absent: "c \<in> set sub \<Longrightarrow> c \<notin> set s \<Longrightarrow> erase_all sub s = s"
proof (induction sub s rule: erase_all.induct)
  case (2 sub x s)
  have "take (length sub) (x # s) \<noteq> sub"
    using 2(3,4) by (metis in_set_takeD)
  then show ?case using 2 by simp
qed simp

lemma erase_all_prefix: "sub \<noteq> [] \<Longrightarrow> erase_all sub (sub @ s) = erase_all sub s"
  by (cases sub) simp_all

definition token_text :: "string \<Rightarrow> bool" where
  "token_text t \<longleftrightarrow> (\<forall>c \<in> set t. c \<noteq> CHR '':'' \<and> c \<noteq> CHR '' '' \<and> c \<noteq> CHR 0x0A \<and> c \<noteq> CHR 0x0D \<and> c \<noteq> CHR 0x09 \<and> c \<noteq> CHR ''='')"

lemma erase_blanks:
  "token_text t \<Longrightarrow> erase_all '' '' t = t" "token_text t \<Longrightarrow> erase_all newline t = t" "token_text t \<Longrightarrow> erase_all return t = t"
  "token_text t \<Longrightarrow> erase_all tab t = t" "token_text t \<Longrightarrow> erase_all ''='' t = t"
  by (rule erase_all_absent [of "CHR '' ''"], simp, force simp: token_text_def,
      rule erase_all_absent [of "CHR 0x0A"], simp, force simp: token_text_def,
      rule erase_all_absent [of "CHR 0x0D"], simp, force simp: token_text_def,
      rule erase_all_absent [of "CHR 0x09"], simp, force simp: token_text_def,
      rule erase_all_absent [of "CHR ''=''"], simp, force simp: token_text_def)

lemma no_colon: "token_text t \<Longrightarrow> CHR '':'' \<notin> set t"
  by (auto simp: token_text_def)

lemma erase_scheme:
  assumes "token_text t"
  shows "erase_all ''fptn://'' t = t" "erase_all ''fptn:'' t = t" "erase_all ''fptnb:'' t = t"
  using no_colon [OF assms] by (simp_all add: erase_all_absent [of "CHR '':''"])

lemma fptn_token:
  assumes "token_text t"
  shows "RemoveSubstring (''fptn://'' @ t) [''fptn://'', ''fptn:'', '' '', newline, return, tab, ''=''] = t"
proof -
  have "erase_all ''fptn://'' (''fptn://'' @ t) = t"
    by (subst erase_all_prefix) (simp_all add: erase_scheme(1) [OF assms] del: append.simps erase_all.simps)
  then show ?thesis
    unfolding RemoveSubstring_def foldl.simps by (simp only: erase_scheme [OF assms] erase_blanks [OF assms])
qed

lemma fptn_short_token:
  assumes "token_text t" "t = [] \<or> hd t \<noteq> CHR ''/''"
  shows "RemoveSubstring (''fptn:'' @ t) [''fptn://'', ''fptn:'', '' '', newline, return, tab, ''=''] = t"
proof -
  have "erase_all ''fptn://'' (''fptn:'' @ t) = ''fptn:'' @ t"
    using assms(2) erase_scheme(1) [OF assms(1)] by (cases t) auto
  moreover have "erase_all ''fptn:'' (''fptn:'' @ t) = t"
    by (subst erase_all_prefix) (simp_all add: erase_scheme(2) [OF assms(1)] del: append.simps erase_all.simps)
  ultimately show ?thesis
    unfolding RemoveSubstring_def foldl.simps by (simp only: erase_blanks [OF assms(1)])
qed

lemma fptnb_token:
  assumes "token_text t" "erase_all ''fptnb//'' t = t"
  shows "RemoveSubstring (''fptnb:'' @ t) [''fptnb:'', ''fptnb//'', '' '', newline, return, tab, ''=''] = t"
proof -
  have "erase_all ''fptnb:'' (''fptnb:'' @ t) = t"
    by (subst erase_all_prefix) (simp_all add: erase_scheme(3) [OF assms(1)] del: append.simps erase_all.simps)
  then show ?thesis
    unfolding RemoveSubstring_def foldl.simps by (simp only: assms(2) erase_blanks [OF assms(1)])
qed

text \<open>The document of a token, as the servers' tools write it.\<close>

type_synonym server_row = "string \<times> string \<times> int \<times> string"

fun server_document :: "server_row \<Rightarrow> jvalue" where
  "server_document (name, host, port, md5) =
     JObject [(''name'', JString name), (''host'', JString host), (''md5_fingerprint'', JString md5), (''port'', JInt port)]"

definition config_document :: "int \<Rightarrow> string \<Rightarrow> string \<Rightarrow> string \<Rightarrow> server_row list \<Rightarrow> jvalue" where
  "config_document version service_name username password rows =
     JObject [(''version'', JInt version), (''service_name'', JString service_name), (''username'', JString username),
       (''password'', JString password), (''servers'', JArray (map server_document rows))]"

definition int32 :: "int \<Rightarrow> bool" where
  "int32 i \<longleftrightarrow> - (2 ^ 31) \<le> i \<and> i < 2 ^ 31"

lemma to_c_int_small: "int32 i \<Longrightarrow> to_c_int i = i"
  by (simp add: to_c_int_def int32_def sint_sbintrunc' signed_take_bit_int_eq_self)

fun row_info :: "server_row \<Rightarrow> server_info" where
  "row_info (name, host, port, md5) = ServerInfo_new name host port md5"

lemma read_server_document: "int32 (fst (snd (snd row))) \<Longrightarrow> read_server (server_document row) = Inr (row_info row)"
  by (cases row) (simp add: read_server_def jfield_def to_c_int_small)

lemma read_servers_documents:
  "\<forall>row \<in> set rows. int32 (fst (snd (snd row))) \<Longrightarrow>
   read_servers (map server_document rows) (None, c) = (None, c\<lparr>cf_servers := cf_servers c @ map row_info rows\<rparr>)"
  by (induction rows arbitrary: c) (simp_all add: read_server_document assign_def)

lemma read_config_document:
  assumes "int32 version" "\<forall>row \<in> set rows. int32 (fst (snd (snd row)))"
  shows "read_config (config_document version service_name username password rows) c =
    (None, c\<lparr>cf_version := version, cf_service_name := service_name, cf_username := username, cf_password := password,
       cf_servers := cf_servers c @ map row_info rows\<rparr>)"
  using assms by (simp add: read_config_def config_document_def assign_def jfield_def to_c_int_small read_servers_documents Let_def)

lemma starts_with_append [simp]: "starts_with (p @ s) p"
  by (simp add: starts_with_def)

lemma token_data_fptn:
  assumes "token_text t" "t = [] \<or> hd t \<noteq> CHR ''/''" "token = ''fptn://'' @ t \<or> token = ''fptn:'' @ t"
  shows "token_data lib token = Some (base64_decode lib t)"
proof -
  have "\<not> starts_with token ''fptnb:''" "\<not> starts_with token ''fptnb//''"
    using assms(3) by (auto simp: starts_with_def)
  then show ?thesis
    using assms(3) fptn_token [OF assms(1)] fptn_short_token [OF assms(1,2)] unfolding token_data_def by (elim disjE) simp_all
qed

lemma token_data_fptnb:
  assumes "token_text t" "erase_all ''fptnb//'' t = t"
  shows "token_data lib (''fptnb:'' @ t) =
    (case base64_decode lib t of Inl what \<Rightarrow> Some (Inl what) | Inr packed \<Rightarrow> Decompress lib packed)"
proof -
  have "starts_with (''fptnb:'' @ t) ''fptnb:''" by (rule starts_with_append)
  then show ?thesis
    unfolding token_data_def fptnb_token [OF assms] by simp
qed


text \<open>A compressed token written as a URL, \<open>fptnb://\<close> and the text, is not understood: only \<open>fptnb:\<close> is taken
  away, and the decoder gets the two slashes, which are digits of base64, with the text.
\<close>

theorem brotli_url_keeps_slashes:
  assumes "token_text t" "erase_all ''fptnb//'' (''//'' @ t) = ''//'' @ t"
  shows "token_data lib (''fptnb://'' @ t) =
    (case base64_decode lib (''//'' @ t) of Inl what \<Rightarrow> Some (Inl what) | Inr packed \<Rightarrow> Decompress lib packed)"
proof -
  have "token_text (''//'' @ t)" using assms(1) by (simp add: token_text_def)
  from token_data_fptnb [OF this assms(2)] show ?thesis by simp
qed

section \<open>Unpacking\<close>

lemma decompress_loop_returns: "k > 0 \<Longrightarrow> \<exists>r. decompress_loop lib data k = Some r"
proof (induction "cl_alloc_limit lib + 1 - k" arbitrary: k rule: less_induct)
  case less
  show ?case
  proof (cases "k > cl_alloc_limit lib")
    case True
    then show ?thesis by (simp add: decompress_loop.simps [of lib data k])
  next
    case False
    then have "\<exists>r. decompress_loop lib data (k * 2) = Some r"
      using less.prems by (intro less.hyps) auto
    then show ?thesis
      using False by (auto simp: decompress_loop.simps [of lib data k] split: option.splits)
  qed
qed

lemma decompress_loop_empty:
  assumes "decompress_loop lib data k = Some r"
  shows "\<not> (cl_brotli lib 0 data = None \<and> k = 0)"
proof (rule decompress_loop.raw_induct [where P = "\<lambda>lib data k r. \<not> (cl_brotli lib 0 data = None \<and> k = 0)", OF _ assms])
  fix loop lib data k r
  assume "\<And>lib data k r. loop lib data k = Some r \<Longrightarrow> \<not> (cl_brotli lib 0 data = None \<and> k = 0)"
    and "(if cl_alloc_limit lib < k then Some (Inl (cl_alloc_error lib))
       else case cl_brotli lib k data of None \<Rightarrow> loop lib data (k * 2) | Some out \<Rightarrow> Some (Inr out)) = Some r"
  note ih = this(1) and body = this(2)
  show "\<not> (cl_brotli lib 0 data = None \<and> k = 0)"
  proof
    assume none: "cl_brotli lib 0 data = None \<and> k = 0"
    then have "loop lib data 0 = Some r" using body by simp
    then show False using ih none by blast
  qed
qed

text \<open>C28: Unpacking returns for every text but the empty one, for which the first buffer has no bytes and doubling it
  leaves it so: a token that is only the scheme \<open>fptnb:\<close> never lets \<open>Parse\<close> return. A decoder that refuses
  the empty input is all this takes.
\<close>

theorem decompress_returns_iff:
  assumes "cl_brotli lib 0 [] = None" "base64_decode lib [] = Inr []"
  shows "(Decompress lib data = None \<longleftrightarrow> data = []) \<and> Parse lib (ConfigFile_new ''fptnb:'' sni strat) = None"
proof -
  have empty: "Decompress lib [] = None"
    using decompress_loop_empty [of lib "[]" 0] assms(1) by (cases "Decompress lib []") (auto simp: Decompress_def)
  moreover have "Decompress lib data \<noteq> None" if "data \<noteq> []"
    using decompress_loop_returns [of "length data * 30" lib data] that by (auto simp: Decompress_def)
  moreover have "token_data lib ''fptnb:'' = None"
    using token_data_fptnb [of "[]" lib] assms(2) empty by (simp add: token_text_def)
  ultimately show ?thesis
    by (cases "data = []") (simp_all add: Parse_def ConfigFile_new_def)
qed

text \<open>A library with a decoder that accepts what starts with its mark, and fails on everything else.\<close>

definition demo_document :: jvalue where
  "demo_document = config_document 1 ''fptn'' ''user'' ''secret'' [(''Riga'', ''203.0.113.7'', 443, ''ab'')]"

definition demo_config_lib :: config_lib where
  "demo_config_lib = \<lparr>cl_from_base64 = (\<lambda>s. Inr (if s = ''eyJ9'' then ''{'' else [])), cl_brotli = (\<lambda>_ s. if s = [] then None else Some s),
     cl_alloc_limit = 1000, cl_alloc_error = ''std::bad_alloc'',
     cl_json = (\<lambda>s. if s = ''{'' then Inr demo_document else if s = ''T'' then Inr (JObject [(''access_token'', JString ''tok'')]) else Inl ParseError),
     cl_json_what = (\<lambda>_. ''parse error''), cl_to_lower = map tolower\<rparr>"


theorem brotli_url_keeps_slashes_witness:
  "token_data demo_config_lib ''fptnb://eyJ9'' =
    (case base64_decode demo_config_lib ''//eyJ9'' of Inl what \<Rightarrow> Some (Inl what) | Inr packed \<Rightarrow> Decompress demo_config_lib packed)"
  using brotli_url_keeps_slashes [of "''eyJ9''" demo_config_lib] by (simp add: token_text_def)

theorem decompress_returns_iff_witness:
  "Decompress demo_config_lib [] = None \<and> Decompress demo_config_lib ''x'' \<noteq> None \<and>
   Parse demo_config_lib (ConfigFile_new ''fptnb:'' ''sni'' kSni) = None"
  using decompress_returns_iff [of demo_config_lib "[]"] decompress_returns_iff [of demo_config_lib "''x''"]
  by (simp add: demo_config_lib_def base64_decode_def)

section \<open>The search for a server\<close>

lemma first_result_None: "first_result rs = None \<longleftrightarrow> (\<forall>r \<in> set rs. r = None)"
  by (induction rs) (auto split: option.splits)

lemma first_result_Some: "first_result rs = Some x \<Longrightarrow> Some x \<in> set rs"
  by (induction rs) (auto split: option.splits)

lemma race_rounds:
  assumes "started \<le> n" "set finish = {..<started}"
  shows "first_result (map attempt (filter (\<lambda>i. i < started) finish)) = None \<longleftrightarrow> (\<forall>i < started. attempt i = None)"
    and "first_result (map retry [0..<n]) = None \<longleftrightarrow> (\<forall>i < n. retry i = None)"
    and "first_result (map attempt (filter (\<lambda>i. i < started) finish)) = Some x \<Longrightarrow> \<exists>i < n. attempt i = Some x"
    and "first_result (map retry [0..<n]) = Some x \<Longrightarrow> \<exists>i < n. retry i = Some x"
proof -
  show "first_result (map attempt (filter (\<lambda>i. i < started) finish)) = None \<longleftrightarrow> (\<forall>i < started. attempt i = None)"
    using assms(2) by (auto simp: first_result_None)
  show "first_result (map retry [0..<n]) = None \<longleftrightarrow> (\<forall>i < n. retry i = None)"
    by (auto simp: first_result_None)
  assume "first_result (map attempt (filter (\<lambda>i. i < started) finish)) = Some x"
  from first_result_Some [OF this] obtain i where "i < started" "attempt i = Some x" by auto
  then show "\<exists>i < n. attempt i = Some x" using assms(1) by (intro exI [of _ i]) simp
next
  assume "first_result (map retry [0..<n]) = Some x"
  from first_result_Some [OF this] obtain i where "i < n" "retry i = Some x" by auto
  then show "\<exists>i < n. retry i = Some x" by blast
qed

lemma race_cases:
  fixes attempt retry :: "nat \<Rightarrow> 'r option" and finish :: "nat list" and started n :: nat
  defines "a \<equiv> first_result (map attempt (filter (\<lambda>i. i < started) finish))" and "b \<equiv> first_result (map retry [0..<n])"
  obtains "race started finish n attempt retry = None" "a = None" "b = None"
    | x where "race started finish n attempt retry = Some x" "a = Some x \<or> b = Some x"
proof -
  have "race started finish n attempt retry = (if (started \<noteq> n \<or> a = None) \<and> b \<noteq> None then b else a)"
    by (simp add: race_def Let_def a_def b_def)
  then show ?thesis
    using that by (cases a; cases b; cases "started = n") simp_all
qed

lemma race_None:
  assumes "started \<le> n" "set finish = {..<started}"
  shows "race started finish n attempt retry = None \<longleftrightarrow> (\<forall>i < started. attempt i = None) \<and> (\<forall>i < n. retry i = None)"
proof (rule race_cases [of started finish n attempt retry])
  assume "race started finish n attempt retry = None" "first_result (map attempt (filter (\<lambda>i. i < started) finish)) = None"
    "first_result (map retry [0..<n]) = None"
  then show ?thesis
    using race_rounds(1) [OF assms, of attempt] race_rounds(2) [OF assms, of retry] by blast
next
  fix y
  assume "race started finish n attempt retry = Some y"
    and "first_result (map attempt (filter (\<lambda>i. i < started) finish)) = Some y \<or> first_result (map retry [0..<n]) = Some y"
  then show ?thesis
    using race_rounds(1) [OF assms, of attempt] race_rounds(2) [OF assms, of retry] by (metis option.distinct(1))
qed

lemma race_Some:
  assumes "race started finish n attempt retry = Some x" "started \<le> n" "set finish = {..<started}"
  shows "\<exists>i < n. attempt i = Some x \<or> retry i = Some x"
proof (rule race_cases [of started finish n attempt retry])
  fix y
  assume "race started finish n attempt retry = Some y"
    and "first_result (map attempt (filter (\<lambda>i. i < started) finish)) = Some y \<or> first_result (map retry [0..<n]) = Some y"
  moreover from this(1) have "y = x" using assms(1) by simp
  ultimately show ?thesis
    using race_rounds(3) [OF assms(2,3), of attempt x] race_rounds(4) [OF assms(2,3), of retry x] by blast
qed (use assms(1) in simp)

lemma select_servers_set:
  assumes "mset (shuffle servers) = mset servers"
  shows "set (select_servers shuffle servers) \<subseteq> set servers" "length (select_servers shuffle servers) = min (length servers) 4"
proof -
  show "set (select_servers shuffle servers) \<subseteq> set servers"
    using set_take_subset [of _ "shuffle servers"] mset_eq_setD [OF assms] by (simp add: select_servers_def Let_def)
  show "length (select_servers shuffle servers) = min (length servers) 4"
    using mset_eq_length [OF assms] by (simp add: select_servers_def Let_def)
qed


definition demo_server :: server_info where
  "demo_server = (ServerInfo_new ''Riga'' ''203.0.113.7'' 443 [])\<lparr>si_username := ''user'', si_password := ''secret''\<rparr>"

definition demo_race :: race_env where
  "demo_race = \<lparr>ra_shuffle = rev, ra_started = 1, ra_finish = [0], ra_attempt = (\<lambda>_. demo_login_env ''T'' 200),
     ra_retry = (\<lambda>_. demo_login_env ''x'' 500), ra_elapsed = (\<lambda>_. 20)\<rparr>"

lemma demo_login_found:
  "FindServerByLogin demo_config_lib demo_race ''sni'' [demo_server] kSni = Some \<lparr>lr_server = demo_server, lr_access_token = ''tok''\<rparr>"
proof -
  have c: "ac_expected_md5_fingerprint (server_client demo_server ''sni'' kSni) = []"
    "ac_censorship_strategy (server_client demo_server ''sni'' kSni) = kSni"
    by (simp_all add: server_client_def demo_server_def ServerInfo_new_def)
  have "login_tried demo_config_lib ''sni'' kSni demo_server (demo_login_env ''T'' 200) =
      Some \<lparr>lr_server = demo_server, lr_access_token = ''tok''\<rparr>"
    using demo_login_post [OF c] by (simp add: login_tried_def TryLoginSingleServer_def demo_config_lib_def jcontains_def jfield_def)
  then show ?thesis
    by (simp add: FindServerByLogin_def demo_race_def select_servers_def race_def)
qed


end
