(* ===== verification/Plugins.thy ===== *)
theory Plugins
  imports Dns Strings "HOL-Library.Sublist"
begin

text \<open>
  The packet plugins of the client, \<open>src/fptn-client/plugins\<close>: the domain blacklist, which learns the
  addresses of blacklisted names from the DNS answers that pass and drops what comes from them, and
  split tunnelling, which gives the addresses of names to the routing table; with \<open>DomainToRegex\<close> of
  \<open>utils/utils.h\<close>, which makes their rules. The RE2 library is the record \<open>re2\<close>, matching without
  regard to case, and the locale's lower-casing is an argument.
\<close>

section \<open>Rules\<close>

record re2 =
  re_ok :: "string \<Rightarrow> bool"
  re_partial :: "string \<Rightarrow> string \<Rightarrow> bool"

definition escape_dots :: "string \<Rightarrow> string" where
  "escape_dots domain = concat (map (\<lambda>c. if c = CHR ''.'' then [CHR 0x5C, CHR ''.''] else [c]) domain)"

definition regex_of :: "string \<Rightarrow> string" where
  "regex_of domain = ''(?:^|'' @ [CHR 0x5C] @ ''.)'' @ escape_dots domain @ ''$''"

definition DomainToRegex :: "(string \<Rightarrow> string) \<Rightarrow> string \<Rightarrow> string" where
  "DomainToRegex to_lower pattern =
     (let trimmed = Trim pattern in
      if take 7 trimmed \<noteq> ''domain:'' then []
      else
        (let domain = drop 7 trimmed in
         if domain = [] then [] else regex_of (to_lower domain)))"

text \<open>The loop of both constructors: rules that are empty or do not compile are left out.\<close>

fun compile_rules :: "re2 \<Rightarrow> (string \<Rightarrow> string) \<Rightarrow> string list \<Rightarrow> string list" where
  "compile_rules re to_lower [] = []"
| "compile_rules re to_lower (rule # rules) =
     (let regex_pattern = DomainToRegex to_lower rule in
      if regex_pattern \<noteq> [] \<and> re_ok re regex_pattern then regex_pattern # compile_rules re to_lower rules
      else compile_rules re to_lower rules)"

definition domain_matched :: "re2 \<Rightarrow> string list \<Rightarrow> string \<Rightarrow> bool" where
  "domain_matched re rules domain = list_ex (\<lambda>r. re_partial re r domain) rules"

section \<open>The blacklist\<close>

record domain_blacklist =
  bl_rules :: "string list"
  bl_ipv4_addresses :: "u32 list"
  bl_ipv6_addresses :: "string list"

definition DomainBlacklist_new :: "re2 \<Rightarrow> (string \<Rightarrow> string) \<Rightarrow> string list \<Rightarrow> domain_blacklist" where
  "DomainBlacklist_new re to_lower rules =
     \<lparr>bl_rules = compile_rules re to_lower rules, bl_ipv4_addresses = [], bl_ipv6_addresses = []\<rparr>"

text \<open>The two loops over the addresses of an answer, with the tests as they are.\<close>

definition save_ipv4 :: "ip_address list \<Rightarrow> u32 list \<Rightarrow> u32 list" where
  "save_ipv4 answers known =
     fold (\<lambda>a known. if IPAddress_ToInt a \<notin> set known then IPAddress_ToInt a # known else known) answers known"

definition save_ipv6 :: "ip_address list \<Rightarrow> string list \<Rightarrow> string list" where
  "save_ipv6 answers known = fold (\<lambda>a known. if ip_str a \<in> set known then ip_str a # known else known) answers known"

text \<open>The packet that goes on (\<open>None\<close>: dropped), whether the plugin was triggered, and the plugin. The
  outer option is a load outside the packet.\<close>

definition DomainBlacklist_HandlePacket ::
    "netlib \<Rightarrow> re2 \<Rightarrow> ip_packet \<Rightarrow> domain_blacklist \<Rightarrow> (ip_packet option \<times> bool \<times> domain_blacklist) option" where
  "DomainBlacklist_HandlePacket lib re packet b = do {
     dns \<leftarrow> IsDns packet;
     if dns then do {
       domain_opt \<leftarrow> GetDnsDomain packet;
       (case domain_opt of
          Some domain \<Rightarrow>
            if domain_matched re (bl_rules b) domain then do {
              ipv4_addresses \<leftarrow> GetDnsIPv4Addresses lib packet;
              ipv6_addresses \<leftarrow> GetDnsIPv6Addresses lib packet;
              Some (Some packet, True,
                    b\<lparr>bl_ipv4_addresses := save_ipv4 ipv4_addresses (bl_ipv4_addresses b),
                      bl_ipv6_addresses := save_ipv6 ipv6_addresses (bl_ipv6_addresses b)\<rparr>)
            }
            else Some (Some packet, False, b)
        | None \<Rightarrow> Some (Some packet, False, b))
     }
     else if IsIPv4 packet then do {
       src \<leftarrow> GetSrcIPv4Address lib packet;
       Some (if IPAddress_ToInt src \<in> set (bl_ipv4_addresses b) then (None, True, b) else (Some packet, False, b))
     }
     else if IsIPv6 packet then do {
       src \<leftarrow> GetSrcIPv6Address lib packet;
       Some (if ip_str src \<in> set (bl_ipv6_addresses b) then (None, True, b) else (Some packet, False, b))
     }
     else Some (Some packet, False, b)
   }"

section \<open>Split tunnelling\<close>

datatype routing_policy = kExcludeFromVpn | kIncludeInVpn

datatype dns_routes = AddDnsRoutesIPv4 "ip_address list" routing_policy | AddDnsRoutesIPv6 "ip_address list" routing_policy

record tunneling =
  tn_rules :: "string list"
  tn_policy :: routing_policy

definition Tunneling_new :: "re2 \<Rightarrow> (string \<Rightarrow> string) \<Rightarrow> string list \<Rightarrow> routing_policy \<Rightarrow> tunneling" where
  "Tunneling_new re to_lower rules policy = \<lparr>tn_rules = compile_rules re to_lower rules, tn_policy = policy\<rparr>"

text \<open>The calls of the routing table, and whether the plugin was triggered. The part for IPv6 is left out
  on Apple systems.\<close>

definition tunneling_routes ::
    "bool \<Rightarrow> routing_policy \<Rightarrow> bool \<Rightarrow> ip_address list \<Rightarrow> ip_address list \<Rightarrow> bool \<times> dns_routes list" where
  "tunneling_routes apple policy matched ipv4_addresses ipv6_addresses =
     (let r4 = (case policy of
          kIncludeInVpn \<Rightarrow> if \<not> matched then [AddDnsRoutesIPv4 ipv4_addresses kExcludeFromVpn] else []
        | kExcludeFromVpn \<Rightarrow> if matched then [AddDnsRoutesIPv4 ipv4_addresses kExcludeFromVpn] else []);
      r6 = (if apple \<or> ipv6_addresses = [] then []
        else (case policy of
          kIncludeInVpn \<Rightarrow> if \<not> matched then [AddDnsRoutesIPv6 ipv6_addresses kExcludeFromVpn] else []
        | kExcludeFromVpn \<Rightarrow> if matched then [AddDnsRoutesIPv6 ipv6_addresses kExcludeFromVpn] else [])) in
      (r4 @ r6 \<noteq> [], r4 @ r6))"

definition Tunneling_HandlePacket ::
    "netlib \<Rightarrow> re2 \<Rightarrow> bool \<Rightarrow> tunneling \<Rightarrow> ip_packet \<Rightarrow> (ip_packet option \<times> bool \<times> dns_routes list) option" where
  "Tunneling_HandlePacket lib re apple t packet = do {
     dns \<leftarrow> IsDns packet;
     if dns then do {
       domain_opt \<leftarrow> GetDnsDomain packet;
       (case domain_opt of
          Some domain \<Rightarrow> do {
            ipv4_addresses \<leftarrow> GetDnsIPv4Addresses lib packet;
            ipv6_addresses \<leftarrow> GetDnsIPv6Addresses lib packet;
            let (triggered, routes) = tunneling_routes apple (tn_policy t) (domain_matched re (tn_rules t) domain)
                  ipv4_addresses ipv6_addresses;
            Some (Some packet, triggered, routes)
          }
        | None \<Rightarrow> Some (Some packet, False, []))
     }
     else Some (Some packet, False, [])
   }"

section \<open>What the blacklist knows\<close>

lemma set_save_ipv4 [simp]: "set (save_ipv4 answers known) = IPAddress_ToInt ` set answers \<union> set known"
  by (induction answers arbitrary: known) (auto simp: save_ipv4_def)

lemma save_ipv6_nothing [simp]: "save_ipv6 answers [] = []"
  by (induction answers) (simp_all add: save_ipv6_def)

text \<open>The addresses a packet teaches under a list of rules.\<close>

definition learned :: "netlib \<Rightarrow> re2 \<Rightarrow> string list \<Rightarrow> ip_packet \<Rightarrow> u32 set" where
  "learned lib re rules packet =
     (case GetDnsDomain packet of
        Some (Some domain) \<Rightarrow>
          if domain_matched re rules domain
          then (case GetDnsIPv4Addresses lib packet of Some as \<Rightarrow> IPAddress_ToInt ` set as | None \<Rightarrow> {})
          else {}
      | _ \<Rightarrow> {})"

definition blocked :: "netlib \<Rightarrow> u32 set \<Rightarrow> ip_packet \<Rightarrow> bool" where
  "blocked lib known packet \<longleftrightarrow> IsDns packet = Some False \<and> IsIPv4 packet \<and>
     (\<exists>a. GetSrcIPv4Address lib packet = Some a \<and> IPAddress_ToInt a \<in> known)"

lemma IsDns_defined: "\<exists>d. IsDns packet = Some d"
  using DnsPtr_defined [of packet] by (auto simp: IsDns_def)

lemma no_domain_unless_dns: "IsDns packet = Some False \<Longrightarrow> GetDnsDomain packet = Some None"
  using DnsPtr_defined [of packet] by (auto simp: IsDns_def GetDnsDomain_def Let_def)

lemma HandlePacket_blacklist:
  assumes "bl_ipv6_addresses b = []"
  shows "\<exists>triggered b'. DomainBlacklist_HandlePacket lib re packet b =
      Some (if blocked lib (set (bl_ipv4_addresses b)) packet then None else Some packet, triggered, b') \<and>
    bl_rules b' = bl_rules b \<and> bl_ipv6_addresses b' = [] \<and>
    set (bl_ipv4_addresses b') = learned lib re (bl_rules b) packet \<union> set (bl_ipv4_addresses b)"
proof -
  obtain dns where d: "IsDns packet = Some dns" using IsDns_defined by blast
  obtain o4 o6 where o: "GetDnsIPv4Addresses lib packet = Some o4" "GetDnsIPv6Addresses lib packet = Some o6"
    using GetDnsAddresses_defined by blast
  obtain s4 s6 where s: "GetSrcIPv4Address lib packet = Some s4" "GetSrcIPv6Address lib packet = Some s6"
    using addresses_defined [of lib packet] by blast
  show ?thesis
  proof (cases dns)
    case True
    obtain dom where "GetDnsDomain packet = Some dom" using GetDnsDomain_defined by blast
    then show ?thesis using d True o assms
      by (cases dom) (auto simp: DomainBlacklist_HandlePacket_def learned_def blocked_def)
  next
    case False
    then have "learned lib re (bl_rules b) packet = {}" using d no_domain_unless_dns by (simp add: learned_def)
    then show ?thesis using d False s assms by (auto simp: DomainBlacklist_HandlePacket_def blocked_def)
  qed
qed

fun blacklist_run ::
    "netlib \<Rightarrow> re2 \<Rightarrow> ip_packet list \<Rightarrow> domain_blacklist \<Rightarrow> (ip_packet option list \<times> domain_blacklist) option" where
  "blacklist_run lib re [] b = Some ([], b)"
| "blacklist_run lib re (packet # packets) b = do {
     (result, triggered, b) \<leftarrow> DomainBlacklist_HandlePacket lib re packet b;
     (results, b) \<leftarrow> blacklist_run lib re packets b;
     Some (result # results, b)
   }"

lemma blacklist_run_from:
  assumes "bl_ipv6_addresses b = []"
  shows "\<exists>results b'. blacklist_run lib re packets b = Some (results, b') \<and> length results = length packets \<and>
    bl_ipv6_addresses b' = [] \<and>
    (\<forall>i < length packets. results ! i =
       (if blocked lib (set (bl_ipv4_addresses b) \<union> (\<Union>p \<in> set (take i packets). learned lib re (bl_rules b) p)) (packets ! i)
        then None else Some (packets ! i)))"
  using assms
proof (induction packets arbitrary: b)
  case (Cons packet packets)
  obtain triggered b1 where 1: "DomainBlacklist_HandlePacket lib re packet b =
      Some (if blocked lib (set (bl_ipv4_addresses b)) packet then None else Some packet, triggered, b1)"
    "bl_rules b1 = bl_rules b" "bl_ipv6_addresses b1 = []"
    "set (bl_ipv4_addresses b1) = learned lib re (bl_rules b) packet \<union> set (bl_ipv4_addresses b)"
    using HandlePacket_blacklist [OF Cons.prems] by blast
  obtain results b' where 2: "blacklist_run lib re packets b1 = Some (results, b')" "length results = length packets"
    "bl_ipv6_addresses b' = []"
    "\<forall>i < length packets. results ! i =
       (if blocked lib (set (bl_ipv4_addresses b1) \<union> (\<Union>p \<in> set (take i packets). learned lib re (bl_rules b1) p)) (packets ! i)
        then None else Some (packets ! i))"
    using Cons.IH [OF 1(3)] by blast
  have "((if blocked lib (set (bl_ipv4_addresses b)) packet then None else Some packet) # results) ! i =
      (if blocked lib (set (bl_ipv4_addresses b) \<union> (\<Union>p \<in> set (take i (packet # packets)). learned lib re (bl_rules b) p))
         ((packet # packets) ! i) then None else Some ((packet # packets) ! i))"
    if "i < length (packet # packets)" for i
    using that 2(4) 1(2,4) by (cases i) (simp_all add: Un_ac)
  then show ?case using 1(1) 2(1-3) by auto
qed simp

section \<open>Properties\<close>

text \<open>C23: The blacklist is exact for IPv4: on any sequence of packets it runs without an access outside a
  packet and keeps their order, and it drops a packet exactly when it is no DNS message, is IPv4 and
  comes from an address that an earlier DNS answer for a blacklisted name gave.\<close>

theorem blacklist_exact:
  "\<exists>results b. blacklist_run lib re packets (DomainBlacklist_new re to_lower rules) = Some (results, b) \<and>
    length results = length packets \<and>
    (\<forall>i < length packets. results ! i =
       (if blocked lib (\<Union>p \<in> set (take i packets). learned lib re (compile_rules re to_lower rules) p) (packets ! i)
        then None else Some (packets ! i)))"
  using blacklist_run_from [of "DomainBlacklist_new re to_lower rules" lib re packets]
  by (auto simp: DomainBlacklist_new_def)

definition demo_all_re :: re2 where
  "demo_all_re = \<lparr>re_ok = \<lambda>_. True, re_partial = \<lambda>_ _. True\<rparr>"

text \<open>An answer that gives 1.2.3.4 for a name, and a packet from there.\<close>

definition demo_answer :: ip_packet where
  "demo_answer = \<lparr>pkt_data = [0x45, 0, 0, 63, 0, 0, 0, 0, 64, 17, 0, 0, 10, 0, 0, 53, 10, 0, 0, 1,
     0, 53, 0xC0, 0, 0, 43, 0, 0,
     0, 0, 0x81, 0x80, 0, 1, 0, 1, 0, 0, 0, 0,
     1, 0x61, 0, 0, 1, 0, 1,
     0xC0, 12, 0, 1, 0, 1, 0, 0, 0, 60, 0, 4, 1, 2, 3, 4], pkt_client = 7\<rparr>"
definition demo_blocked :: ip_packet where
  "demo_blocked = \<lparr>pkt_data = [0x45, 0, 0, 20, 0, 0, 0, 0, 64, 6, 0, 0, 1, 2, 3, 4, 10, 0, 0, 1], pkt_client = 7\<rparr>"

lemma demo_answer_facts:
  "GetDnsDomain demo_answer = Some (Some ''a'')"
  "map_option (map IPAddress_ToInt) (GetDnsIPv4Addresses demo_lib demo_answer) = Some [16909060]"
  "map_option IPAddress_ToInt (GetSrcIPv4Address demo_lib demo_blocked) = Some 16909060"
  "IsDns demo_blocked = Some False" "IsIPv4 demo_blocked"
  by code_simp+

theorem blacklist_exact_witness:
  "\<exists>results b. blacklist_run demo_lib demo_all_re [demo_answer, demo_blocked] (DomainBlacklist_new demo_all_re id [''domain:a'']) = Some (results, b) \<and>
     results = [Some demo_answer, None]"
proof -
  have "compile_rules demo_all_re id [''domain:a''] \<noteq> []"
    by (simp add: demo_all_re_def DomainToRegex_def Trim_def isspace_def regex_of_def Let_def)
  then have m: "domain_matched demo_all_re (compile_rules demo_all_re id [''domain:a'']) ''a''"
    by (simp add: domain_matched_def demo_all_re_def neq_Nil_conv list_ex_iff) auto
  have l: "learned demo_lib demo_all_re (compile_rules demo_all_re id [''domain:a'']) demo_answer = {16909060}"
    using demo_answer_facts(2) m by (auto simp: learned_def demo_answer_facts(1))
  have k: "blocked demo_lib {16909060} demo_blocked" "\<not> blocked demo_lib {} demo_answer"
    using demo_answer_facts(3-5) by (auto simp: blocked_def)
  obtain results b where r: "blacklist_run demo_lib demo_all_re [demo_answer, demo_blocked] (DomainBlacklist_new demo_all_re id [''domain:a'']) = Some (results, b)"
    "length results = 2" "results ! 0 = Some demo_answer" "results ! 1 = None"
    using blacklist_exact [of demo_lib demo_all_re "[demo_answer, demo_blocked]" id "[''domain:a'']"] k l
    by (auto simp: less_Suc_eq numeral_2_eq_2)
  then show ?thesis by (intro exI [of _ results] exI [of _ b]) (auto simp: numeral_2_eq_2 length_Suc_conv)
qed

text \<open>For IPv6 it does nothing: the test that keeps known addresses from being added again is the wrong
  way round, so none is ever added and every IPv6 packet passes, also from an address that a
  blacklisted name has just resolved to.\<close>

theorem ipv6_never_blocked:
  assumes "blacklist_run lib re packets (DomainBlacklist_new re to_lower rules) = Some (results, b)"
  shows "bl_ipv6_addresses b = [] \<and> (\<forall>i < length packets. IsIPv6 (packets ! i) \<longrightarrow> results ! i = Some (packets ! i))"
proof -
  have n: "\<not> IsIPv4 p" if "IsIPv6 p" for p using that by (auto simp: IsIPv4_def IsIPv6_def)
  show ?thesis
    using blacklist_run_from [of "DomainBlacklist_new re to_lower rules" lib re packets] assms n
    by (auto simp: DomainBlacklist_new_def blocked_def)
qed

theorem ipv6_never_blocked_witness:
  "\<exists>results b. blacklist_run demo_lib demo_all_re [dns_pkt, \<lparr>pkt_data = 0x60 # replicate 39 0, pkt_client = 7\<rparr>]
     (DomainBlacklist_new demo_all_re id [''domain:a'']) = Some (results, b) \<and>
     results ! 1 = Some \<lparr>pkt_data = 0x60 # replicate 39 0, pkt_client = 7\<rparr>"
proof -
  let ?v6 = "\<lparr>pkt_data = 0x60 # replicate 39 0, pkt_client = 7\<rparr>"
  obtain results b where r: "blacklist_run demo_lib demo_all_re [dns_pkt, ?v6] (DomainBlacklist_new demo_all_re id [''domain:a'']) = Some (results, b)"
    using blacklist_run_from [of "DomainBlacklist_new demo_all_re id [''domain:a'']" demo_lib demo_all_re "[dns_pkt, ?v6]"]
    by (auto simp: DomainBlacklist_new_def)
  have "IsIPv6 ([dns_pkt, ?v6] ! 1)" by (simp add: IsIPv6_def)
  then show ?thesis using ipv6_never_blocked [OF r, THEN conjunct2, rule_format, of 1] r by simp
qed

text \<open>Split tunnelling never drops or changes a packet and never reads outside one; of a DNS message
  with a name it gives every address to the routing table as excluded from the VPN, exactly when the
  name matches a rule under the excluding policy, or matches none under the including one.\<close>

theorem tunneling_exclusions:
  "\<exists>triggered routes. Tunneling_HandlePacket lib re False t packet = Some (Some packet, triggered, routes) \<and>
    triggered = (routes \<noteq> []) \<and>
    routes = (case GetDnsDomain packet of
        Some (Some domain) \<Rightarrow>
          if domain_matched re (tn_rules t) domain = (tn_policy t = kExcludeFromVpn)
          then AddDnsRoutesIPv4 (the (GetDnsIPv4Addresses lib packet)) kExcludeFromVpn #
            (case the (GetDnsIPv6Addresses lib packet) of [] \<Rightarrow> [] | as \<Rightarrow> [AddDnsRoutesIPv6 as kExcludeFromVpn])
          else []
      | _ \<Rightarrow> [])"
proof -
  obtain dns where d: "IsDns packet = Some dns" using IsDns_defined by blast
  obtain o4 o6 where o: "GetDnsIPv4Addresses lib packet = Some o4" "GetDnsIPv6Addresses lib packet = Some o6"
    using GetDnsAddresses_defined by blast
  obtain dom where m: "GetDnsDomain packet = Some dom" using GetDnsDomain_defined by blast
  show ?thesis
  proof (cases dns)
    case True
    then show ?thesis using d o m
      by (cases dom; cases "tn_policy t"; cases o6)
        (auto simp: Tunneling_HandlePacket_def tunneling_routes_def Let_def)
  next
    case False
    then show ?thesis using d no_domain_unless_dns by (auto simp: Tunneling_HandlePacket_def)
  qed
qed

section \<open>What the rules mean\<close>

definition literal_char :: "char \<Rightarrow> bool" where
  "literal_char c \<longleftrightarrow> isalnum c \<or> c = CHR ''-'' \<or> c = CHR ''_'' \<or> c = CHR ''.''"

definition names :: "string \<Rightarrow> string \<Rightarrow> bool" where
  "names domain s \<longleftrightarrow> map tolower s = map tolower domain \<or> suffix (CHR ''.'' # map tolower domain) (map tolower s)"

text \<open>The library on the patterns of literal domains and ASCII texts.\<close>

definition re2_literal :: "re2 \<Rightarrow> bool" where
  "re2_literal re \<longleftrightarrow> (\<forall>w s. (\<forall>c \<in> set w. literal_char c) \<longrightarrow>
     re_ok re (regex_of w) \<and> ((\<forall>c \<in> set s. code c < 128) \<longrightarrow> re_partial re (regex_of w) s = names w s))"

definition spaced_rule :: "string \<times> string \<times> string \<Rightarrow> string" where
  "spaced_rule r = (case r of (before, domain, after) \<Rightarrow> before @ ''domain:'' @ domain @ after)"

lemma Trim_spaces:
  assumes "\<forall>c \<in> set a. isspace c" "\<forall>c \<in> set b. isspace c" "x \<noteq> []" "\<not> isspace (hd x)" "\<not> isspace (List.last x)"
  shows "Trim (a @ x @ b) = x"
proof -
  have 1: "takeWhile isspace (a @ x @ b) = a" using assms(1,3,4) by (cases x) (simp_all add: takeWhile_append2 takeWhile_tail)
  have "takeWhile isspace (rev b @ rev x @ rev a) = rev b"
    using assms(2,3,5) by (cases x rule: rev_cases) (simp_all add: takeWhile_append2 takeWhile_tail)
  then show ?thesis unfolding Trim_def using 1 assms(3) by simp
qed

lemma literal_not_space: "literal_char c \<Longrightarrow> \<not> isspace c"
  by (auto simp: literal_char_def isspace_def isalnum_def isdigit_def)

lemma tolower_literal: "literal_char c \<Longrightarrow> literal_char (tolower c)"
  by (auto simp: literal_char_def tolower_def isalnum_def isdigit_def)

lemma tolower_tolower [simp]: "tolower (tolower c) = tolower c"
  by (simp add: tolower_def)

lemma tolower_comp [simp]: "tolower \<circ> tolower = tolower"
  by (simp add: fun_eq_iff)

lemma DomainToRegex_spaced:
  assumes "\<forall>c \<in> set a. isspace c" "\<forall>c \<in> set b. isspace c" "\<forall>c \<in> set d. literal_char c" "d \<noteq> []" "to_lower d = map tolower d"
  shows "DomainToRegex to_lower (spaced_rule (a, d, b)) = regex_of (map tolower d)"
proof -
  have "Trim (a @ (''domain:'' @ d) @ b) = ''domain:'' @ d"
    using assms literal_not_space by (intro Trim_spaces) (auto simp: isspace_def)
  then show ?thesis using assms(4,5) by (simp add: DomainToRegex_def spaced_rule_def)
qed

text \<open>A rule names a domain and its subdomains: given what RE2 and the locale do with plain ASCII names,
  the rules \<open>domain:\<close> followed by such names, in any spelling and with white space around them, match
  exactly those queried names that are one of the domains or end in a dot and one of them.\<close>

theorem domain_rules:
  assumes "re2_literal re" and "\<forall>w. (\<forall>c \<in> set w. literal_char c) \<longrightarrow> to_lower w = map tolower w"
    and "\<forall>(a, d, b) \<in> set rules. (\<forall>c \<in> set (a @ b). isspace c) \<and> (\<forall>c \<in> set d. literal_char c) \<and> d \<noteq> []"
    and "\<forall>c \<in> set s. code c < 128"
  shows "domain_matched re (compile_rules re to_lower (map spaced_rule rules)) s = (\<exists>(a, d, b) \<in> set rules. names d s)"
  using assms(3)
proof (induction rules)
  case (Cons r rules)
  obtain a d b where r: "r = (a, d, b)" by (cases r)
  have d: "\<forall>c \<in> set d. literal_char c" "d \<noteq> []" "\<forall>c \<in> set a. isspace c" "\<forall>c \<in> set b. isspace c"
    using Cons.prems r by auto
  have x: "DomainToRegex to_lower (spaced_rule (a, d, b)) = regex_of (map tolower d)"
    using d assms(2) by (intro DomainToRegex_spaced) auto
  have l: "\<forall>c \<in> set (map tolower d). literal_char c" using d(1) tolower_literal by auto
  then have "re_ok re (regex_of (map tolower d))" "re_partial re (regex_of (map tolower d)) s = names (map tolower d) s"
    using assms(1,4) unfolding re2_literal_def by blast+
  moreover have "names (map tolower d) s = names d s" by (simp add: names_def)
  moreover have "regex_of (map tolower d) \<noteq> []" by (simp add: regex_of_def)
  ultimately show ?case using Cons x r by (simp add: domain_matched_def Let_def)
qed (simp add: domain_matched_def)

text \<open>A stand-in for the library: it reads the domain back from the pattern.\<close>

definition demo_re2 :: re2 where
  "demo_re2 = \<lparr>re_ok = \<lambda>_. True, re_partial = \<lambda>r s. names (filter (\<lambda>c. c \<noteq> CHR 0x5C) (butlast (drop 8 r))) s\<rparr>"

lemma filter_escape_dots: "CHR 0x5C \<notin> set w \<Longrightarrow> filter (\<lambda>c. c \<noteq> CHR 0x5C) (escape_dots w) = w"
  by (induction w) (auto simp: escape_dots_def)

lemma demo_re2_literal: "re2_literal demo_re2"
proof -
  have "re_partial demo_re2 (regex_of w) s = names w s" if "\<forall>c \<in> set w. literal_char c" for w s
  proof -
    have "CHR 0x5C \<notin> set w" using that by (auto simp: literal_char_def isalnum_def isdigit_def)
    then show ?thesis by (simp add: demo_re2_def regex_of_def filter_escape_dots butlast_append)
  qed
  then show ?thesis by (simp add: re2_literal_def demo_re2_def)
qed

theorem domain_rules_witness:
  "domain_matched demo_re2 (compile_rules demo_re2 (map tolower) [''  domain:Ads.com ''])  ''x.ADS.com'' \<and>
   \<not> domain_matched demo_re2 (compile_rules demo_re2 (map tolower) [''  domain:Ads.com '']) ''heads.com''"
proof -
  let ?r = "[(''  '', ''Ads.com'', '' '')]"
  have m: "map spaced_rule ?r = [''  domain:Ads.com '']" by (simp add: spaced_rule_def)
  have ok: "\<forall>(a, d, b) \<in> set ?r. (\<forall>c \<in> set (a @ b). isspace c) \<and> (\<forall>c \<in> set d. literal_char c) \<and> d \<noteq> []"
    by (simp add: isspace_def literal_char_def isalnum_def isdigit_def)
  have s: "\<forall>c \<in> set ''x.ADS.com''. code c < 128" "\<forall>c \<in> set ''heads.com''. code c < 128" by simp_all
  have low: "map tolower ''Ads.com'' = ''ads.com''" "map tolower ''x.ADS.com'' = ''x.ads.com''" "map tolower ''heads.com'' = ''heads.com''"
    by code_simp+
  have n: "names ''Ads.com'' ''x.ADS.com''" "\<not> names ''Ads.com'' ''heads.com''"
    unfolding names_def low by (simp_all add: suffix_def Cons_eq_append_conv)
  show ?thesis
    using domain_rules [OF demo_re2_literal _ ok s(1), of "map tolower"] domain_rules [OF demo_re2_literal _ ok s(2), of "map tolower"] n
    unfolding m by simp
qed

end
