(* ===== verification/ClientVpn.thy ===== *)
theory ClientVpn
  imports ClientManager Plugins
begin

text \<open>
  The client's VPN, \<open>src/fptn-client/vpn/vpn_manager.cpp\<close>: it opens the TUN device, starts the connection
  manager, moves packets both ways through the plugins, and a supervisor restarts the connection when
  the manager has given up. The supervisor is cut where it reads or calls the manager, which goes on
  by itself in between. The TUN device and the routing table are seen through the calls they get.
\<close>

section \<open>Plugins\<close>

datatype plugin = Blacklist domain_blacklist | SplitTunneling tunneling

definition plugin_HandlePacket ::
    "netlib \<Rightarrow> re2 \<Rightarrow> bool \<Rightarrow> ip_packet \<Rightarrow> plugin \<Rightarrow> (ip_packet option \<times> bool \<times> plugin \<times> dns_routes list) option" where
  "plugin_HandlePacket lib re apple packet plugin =
     (case plugin of
        Blacklist b \<Rightarrow> do {
          (result, triggered, b) \<leftarrow> DomainBlacklist_HandlePacket lib re packet b;
          Some (result, triggered, Blacklist b, [])
        }
      | SplitTunneling t \<Rightarrow> do {
          (result, triggered, routes) \<leftarrow> Tunneling_HandlePacket lib re apple t packet;
          Some (result, triggered, SplitTunneling t, routes)
        })"

text \<open>The loop over the plugins for one packet: it ends at the first that is triggered, and a null pointer
  is handed to none.\<close>

fun apply_plugins ::
    "netlib \<Rightarrow> re2 \<Rightarrow> bool \<Rightarrow> ip_packet \<Rightarrow> plugin list \<Rightarrow> (ip_packet option \<times> plugin list \<times> dns_routes list) option" where
  "apply_plugins lib re apple packet [] = Some (Some packet, [], [])"
| "apply_plugins lib re apple packet (plugin # plugins) = do {
     (result, triggered, plugin, routes) \<leftarrow> plugin_HandlePacket lib re apple packet plugin;
     (case result of
        Some packet \<Rightarrow>
          if triggered then Some (Some packet, plugin # plugins, routes)
          else do {
            (result, plugins, more_routes) \<leftarrow> apply_plugins lib re apple packet plugins;
            Some (result, plugin # plugins, routes @ more_routes)
          }
      | None \<Rightarrow> Some (None, plugin # plugins, routes))
   }"

fun filter_batch ::
    "netlib \<Rightarrow> re2 \<Rightarrow> bool \<Rightarrow> ip_packet list \<Rightarrow> plugin list \<Rightarrow> (ip_packet list \<times> plugin list \<times> dns_routes list) option" where
  "filter_batch lib re apple [] plugins = Some ([], plugins, [])"
| "filter_batch lib re apple (packet # batch) plugins = do {
     (result, plugins, routes) \<leftarrow> apply_plugins lib re apple packet plugins;
     (to_send, plugins, more_routes) \<leftarrow> filter_batch lib re apple batch plugins;
     Some ((case result of Some packet \<Rightarrow> packet # to_send | None \<Rightarrow> to_send), plugins, routes @ more_routes)
   }"

section \<open>State\<close>

text \<open>Where the supervisor is, and where a call of \<open>Stop\<close> is.\<close>

datatype sup_at = NoSupervisor | SupWait | SupCheck | SupStop | SupStopping | SupBackoff | SupRestart | SupEnded

datatype vpn_stop_at = VpnNotStopping | VpnJoin | VpnStopHttp | VpnStopped

datatype device_call = TunStart | TunStop | TunSendBatch "ip_packet list" | RouteApply | RouteClean | RouteDns dns_routes

record vpn_client =
  vc_running :: bool
  vc_ever_connected :: bool
  vc_gave_up :: bool
  vc_reconnecting :: bool
  vc_reconnect_attempt :: int
  vc_http_client :: "connection_manager option"
  vc_route_manager :: bool
  vc_virtual_net_interface :: bool
  vc_plugins :: "plugin list"
  vc_max_full_restarts :: int
  vc_ws_packet_queue :: "ip_packet list"
  vc_full_restart_count :: int
  vc_sup_at :: sup_at
  vc_stop_at :: vpn_stop_at

definition Vpn_new :: "connection_manager \<Rightarrow> bool \<Rightarrow> bool \<Rightarrow> plugin list \<Rightarrow> int \<Rightarrow> vpn_client" where
  "Vpn_new http routes tun plugins max_full_restarts =
     \<lparr>vc_running = False, vc_ever_connected = False, vc_gave_up = False, vc_reconnecting = False, vc_reconnect_attempt = 0,
      vc_http_client = Some http, vc_route_manager = routes, vc_virtual_net_interface = tun, vc_plugins = plugins,
      vc_max_full_restarts = max_full_restarts, vc_ws_packet_queue = [], vc_full_restart_count = 0,
      vc_sup_at = NoSupervisor, vc_stop_at = VpnNotStopping\<rparr>"

definition Vpn_IsStarted :: "vpn_client \<Rightarrow> bool" where
  "Vpn_IsStarted v =
     (if \<not> vc_running v then False
      else if vc_gave_up v then False
      else if vc_ever_connected v then True
      else (case vc_http_client v of None \<Rightarrow> False | Some m \<Rightarrow> ConnectionManager_IsStarted m))"

section \<open>Start and stop\<close>

definition kMaxTunOpenAttempts :: nat where "kMaxTunOpenAttempts = 5"

text \<open>The results of \<open>Start\<close> of the device until one is true: how often it was called, and whether it opened.\<close>

fun open_tun :: "nat \<Rightarrow> bool list \<Rightarrow> nat \<times> bool" where
  "open_tun 0 results = (0, False)"
| "open_tun (Suc n) [] = (0, False)"
| "open_tun (Suc n) (r # results) = (if r then (1, True) else (case open_tun n results of (k, ok) \<Rightarrow> (Suc k, ok)))"

text \<open>\<open>None\<close>: the manager is gone (a null pointer), or starting it ends the program. The two threads are
  started at the end; the worker has no state of its own.\<close>

definition Vpn_Start :: "bool list \<Rightarrow> vpn_client \<Rightarrow> (bool \<times> vpn_client \<times> device_call list) option" where
  "Vpn_Start results v =
     (if vc_running v then Some (False, v, [])
      else
        (case vc_http_client v of
           None \<Rightarrow> None
         | Some m \<Rightarrow>
             (let v = v\<lparr>vc_running := True\<rparr>;
                  (calls, tun_opened) = (if vc_virtual_net_interface v then open_tun kMaxTunOpenAttempts results else (0, False)) in
              if \<not> tun_opened then Some (False, v, replicate calls TunStart)
              else do {
                (ok, m) \<leftarrow> ConnectionManager_Start m;
                Some (True, v\<lparr>vc_http_client := Some m, vc_sup_at := SupWait, vc_full_restart_count := 0\<rparr>,
                      replicate calls TunStart @ (if vc_route_manager v then [RouteApply] else []))
              })))"

text \<open>\<open>Stop\<close> in pieces: the flag; after the threads have been joined the device and the beginning of the
  manager's \<open>Stop\<close>; when that has returned the manager is destroyed. \<open>None\<close> ends the program.\<close>

definition vpn_stop_begins :: "vpn_client \<Rightarrow> bool \<times> vpn_client" where
  "vpn_stop_begins v = (if \<not> vc_running v then (False, v) else (True, v\<lparr>vc_running := False, vc_stop_at := VpnJoin\<rparr>))"

definition vpn_stop_joined :: "vpn_client \<Rightarrow> vpn_client option" where
  "vpn_stop_joined v =
     (let v = v\<lparr>vc_virtual_net_interface := False\<rparr> in
      case vc_http_client v of
        None \<Rightarrow> Some (v\<lparr>vc_stop_at := VpnStopped\<rparr>)
      | Some m \<Rightarrow>
          (case stop_begins m of
             (True, m) \<Rightarrow> Some (v\<lparr>vc_http_client := Some m, vc_stop_at := VpnStopHttp\<rparr>)
           | (False, m) \<Rightarrow> do {
               _ \<leftarrow> ConnectionManager_destroy m;
               Some (v\<lparr>vc_http_client := None, vc_stop_at := VpnStopped\<rparr>)
             }))"

definition vpn_stop_ends :: "vpn_client \<Rightarrow> vpn_client option" where
  "vpn_stop_ends v =
     (case vc_http_client v of
        None \<Rightarrow> Some (v\<lparr>vc_stop_at := VpnStopped\<rparr>)
      | Some m \<Rightarrow> do {
          _ \<leftarrow> ConnectionManager_destroy m;
          Some (v\<lparr>vc_http_client := None, vc_stop_at := VpnStopped\<rparr>)
        })"

section \<open>Packets\<close>

definition HandleOnPacketFromVirtualNetworkInterface ::
    "nat \<Rightarrow> ip_packet option \<Rightarrow> vpn_client \<Rightarrow> vpn_client option" where
  "HandleOnPacketFromVirtualNetworkInterface draw packet v =
     (if \<not> vc_running v then Some v
      else
        (case vc_http_client v of
           None \<Rightarrow> Some v
         | Some m \<Rightarrow> do {
             (ok, m) \<leftarrow> ConnectionManager_Send draw packet m;
             Some (v\<lparr>vc_http_client := Some m\<rparr>)
           }))"

definition kMaxQueueSize :: nat where "kMaxQueueSize = 1024 * 16"

definition HandleOnPacketFromWebSocket :: "ip_packet option \<Rightarrow> vpn_client \<Rightarrow> vpn_client" where
  "HandleOnPacketFromWebSocket packet v =
     (case packet of
        None \<Rightarrow> v
      | Some p \<Rightarrow>
          if \<not> vc_running v then v
          else if length (vc_ws_packet_queue v) \<ge> kMaxQueueSize then v
          else v\<lparr>vc_ws_packet_queue := vc_ws_packet_queue v @ [p]\<rparr>)"

text \<open>A turn of the worker that found packets: it takes them all, filters them and writes what is left to
  the device, if the client still runs then.\<close>

definition ProcessWebSocketPackets ::
    "netlib \<Rightarrow> re2 \<Rightarrow> bool \<Rightarrow> bool \<Rightarrow> vpn_client \<Rightarrow> (vpn_client \<times> device_call list) option" where
  "ProcessWebSocketPackets lib re apple still_running v = do {
     (to_send, plugins, routes) \<leftarrow> filter_batch lib re apple (vc_ws_packet_queue v) (vc_plugins v);
     Some (v\<lparr>vc_ws_packet_queue := [], vc_plugins := plugins\<rparr>,
           map RouteDns routes @
           (if to_send \<noteq> [] \<and> still_running \<and> vc_virtual_net_interface v then [TunSendBatch to_send] else []))
   }"

section \<open>The supervisor\<close>

definition ReconnectBackoff :: "int \<Rightarrow> int" where
  "ReconnectBackoff full_restart_count =
     (if full_restart_count = 1 then 2 else if full_restart_count = 2 then 5 else if full_restart_count = 3 then 15 else 30)"

definition clean_routes :: "vpn_client \<Rightarrow> device_call list" where
  "clean_routes v = (if vc_route_manager v then [RouteClean] else [])"

text \<open>The next piece of \<open>Supervise\<close>; it waits before \<open>SupWait\<close> and, for the back-off, before \<open>SupBackoff\<close>.
  \<open>None\<close>: the restart ends the program.\<close>

definition sup_step :: "vpn_client \<Rightarrow> (vpn_client \<times> device_call list) option" where
  "sup_step v =
     (case vc_http_client v of
        None \<Rightarrow> Some (if vc_sup_at v = SupWait then v\<lparr>vc_sup_at := SupEnded\<rparr> else v, [])
      | Some m \<Rightarrow>
          (case vc_sup_at v of
             SupWait \<Rightarrow>
               Some (if \<not> vc_running v then v\<lparr>vc_sup_at := SupEnded\<rparr>
                     else if ConnectionManager_IsConnected m
                     then v\<lparr>vc_ever_connected := True, vc_full_restart_count := 0, vc_reconnecting := False, vc_reconnect_attempt := 0\<rparr>
                     else v\<lparr>vc_reconnecting := (vc_ever_connected v \<or> vc_reconnecting v), vc_sup_at := SupCheck\<rparr>, [])
           | SupCheck \<Rightarrow>
               if ConnectionManager_IsStarted m then Some (v\<lparr>vc_sup_at := SupWait\<rparr>, [])
               else if vc_max_full_restarts v > 0 \<and> vc_full_restart_count v \<ge> vc_max_full_restarts v
               then Some (v\<lparr>vc_reconnecting := False, vc_gave_up := True, vc_sup_at := SupEnded\<rparr>, clean_routes v)
               else (let n = vc_full_restart_count v + 1 in
                     Some (v\<lparr>vc_full_restart_count := n, vc_reconnect_attempt := n, vc_sup_at := SupStop\<rparr>, []))
           | SupStop \<Rightarrow>
               (case stop_begins m of
                  (True, m) \<Rightarrow> Some (v\<lparr>vc_http_client := Some m, vc_sup_at := SupStopping\<rparr>, [])
                | (False, m) \<Rightarrow> Some (v\<lparr>vc_sup_at := SupBackoff\<rparr>, clean_routes v))
           | SupStopping \<Rightarrow>
               if cm_stop_at m = NotStopping then Some (v\<lparr>vc_sup_at := SupBackoff\<rparr>, clean_routes v) else Some (v, [])
           | SupBackoff \<Rightarrow> Some (if \<not> vc_running v then v\<lparr>vc_sup_at := SupEnded\<rparr> else v\<lparr>vc_sup_at := SupRestart\<rparr>, [])
           | SupRestart \<Rightarrow> do {
               (ok, m) \<leftarrow> ConnectionManager_Start m;
               Some (v\<lparr>vc_http_client := Some m, vc_sup_at := SupWait\<rparr>,
                     if vc_route_manager v \<and> vc_virtual_net_interface v then [RouteApply] else [])
             }
           | _ \<Rightarrow> Some (v, [])))"

text \<open>Everything that happens to the client: calls of its owner, the pieces of \<open>Stop\<close>, the supervisor,
  packets, and the manager going on by itself.\<close>

inductive vpn_step :: "netlib \<Rightarrow> yaff \<Rightarrow> re2 \<Rightarrow> vpn_client \<Rightarrow> vpn_client \<Rightarrow> bool"
  for lib :: netlib and y :: yaff and re :: re2 where
  vpn_start: "vc_stop_at v \<in> {VpnNotStopping, VpnStopped} \<Longrightarrow> Vpn_Start results v = Some (ok, v', calls) \<Longrightarrow> vpn_step lib y re v v'"
| vpn_stop: "vpn_step lib y re v (snd (vpn_stop_begins v))"
| vpn_join: "vc_stop_at v = VpnJoin \<Longrightarrow> vc_sup_at v \<in> {NoSupervisor, SupEnded} \<Longrightarrow> vpn_stop_joined v = Some v' \<Longrightarrow>
    vpn_step lib y re v v'"
| vpn_end: "vc_stop_at v = VpnStopHttp \<Longrightarrow> vc_http_client v = Some m \<Longrightarrow> cm_stop_at m = NotStopping \<Longrightarrow>
    vpn_stop_ends v = Some v' \<Longrightarrow> vpn_step lib y re v v'"
| vpn_sup: "sup_step v = Some (v', calls) \<Longrightarrow> vpn_step lib y re v v'"
| vpn_outgoing: "HandleOnPacketFromVirtualNetworkInterface draw packet v = Some v' \<Longrightarrow> vpn_step lib y re v v'"
| vpn_incoming: "vpn_step lib y re v (HandleOnPacketFromWebSocket packet v)"
| vpn_worker: "vc_running v \<Longrightarrow> ProcessWebSocketPackets lib re apple still v = Some (v', calls) \<Longrightarrow> vpn_step lib y re v v'"
| vpn_manager: "vc_http_client v = Some m \<Longrightarrow> cm_own lib y m m' \<Longrightarrow> vpn_step lib y re v (v\<lparr>vc_http_client := Some m'\<rparr>)"

inductive vpn_reachable :: "netlib \<Rightarrow> yaff \<Rightarrow> re2 \<Rightarrow> vpn_client \<Rightarrow> bool"
  for lib :: netlib and y :: yaff and re :: re2 where
  vpn_init: "vpn_reachable lib y re (Vpn_new (ConnectionManager_new kind cfg) routes tun plugins max_full_restarts)"
| vpn_next: "vpn_reachable lib y re v \<Longrightarrow> vpn_step lib y re v v' \<Longrightarrow> vpn_reachable lib y re v'"

text \<open>Once started, the manager's thread is never joined before the client's own \<open>Stop\<close> reaches the
  manager: the supervisor calls the manager's \<open>Stop\<close> only when that refuses.\<close>

definition supervised :: "vpn_client \<Rightarrow> connection_manager \<Rightarrow> bool" where
  "supervised v m \<longleftrightarrow> cm_stop_at m = NotStopping \<and>
     (if vc_sup_at v = NoSupervisor then cm_run_at m = NoThread \<and> \<not> cm_running m else cm_run_at m \<noteq> NoThread) \<and>
     (vc_sup_at v \<in> {SupStop, SupBackoff, SupRestart} \<longrightarrow> \<not> cm_running m)"

definition vpn_inv :: "vpn_client \<Rightarrow> bool" where
  "vpn_inv v \<longleftrightarrow>
     (case vc_http_client v of
        None \<Rightarrow> vc_stop_at v = VpnStopped
      | Some m \<Rightarrow> vc_stop_at v \<noteq> VpnStopped \<and> cm_inv m \<and> (vc_stop_at v = VpnNotStopping \<or> vc_stop_at v = VpnJoin \<longrightarrow> supervised v m)) \<and>
     (if vc_stop_at v = VpnNotStopping then vc_running v \<or> vc_sup_at v = NoSupervisor else \<not> vc_running v) \<and>
     (vc_stop_at v \<in> {VpnStopHttp, VpnStopped} \<longrightarrow> vc_sup_at v \<in> {NoSupervisor, SupEnded}) \<and>
     vc_sup_at v \<noteq> SupStopping \<and> \<not> vc_gave_up v \<and>
     (vc_sup_at v \<in> {NoSupervisor, SupWait, SupCheck} \<longrightarrow> vc_full_restart_count v = 0)"

lemma cm_own_supervised:
  assumes "cm_own lib y m m'" "cm_stop_at m = NotStopping"
  shows "cm_stop_at m' = NotStopping \<and> (cm_run_at m' = NoThread) = (cm_run_at m = NoThread) \<and> (\<not> cm_running m \<longrightarrow> \<not> cm_running m')"
  using assms
proof (cases rule: cm_own.cases)
  case (cm_run counter now)
  then show ?thesis using assms(2) by (cases "cm_run_at m") (auto simp: run_step_def split: option.split)
qed auto

lemma supervised_own: "cm_own lib y m m' \<Longrightarrow> supervised v m \<Longrightarrow> supervised v m'"
  using cm_own_supervised [of lib y m m'] by (auto simp: supervised_def split: if_splits)

lemma Send_supervised:
  "ConnectionManager_Send draw packet m = Some (ok, m') \<Longrightarrow>
   cm_stop_at m' = cm_stop_at m \<and> cm_run_at m' = cm_run_at m \<and> cm_running m' = cm_running m"
  by (erule ConnectionManager_Send_cases) auto

lemma cm_inv_send: "ConnectionManager_Send draw packet m = Some (ok, m') \<Longrightarrow> cm_inv m \<Longrightarrow> cm_inv m'"
  by (rule cm_inv_step [OF cm_send])

text \<open>The manager cannot be restarted where the supervisor does it.\<close>

lemma restart_refused: "cm_run_at m \<noteq> NoThread \<Longrightarrow> ConnectionManager_Start m = None"
  by (simp add: ConnectionManager_Start_def Let_def)

lemma vpn_inv_sup:
  assumes "sup_step v = Some (v', calls)" "vpn_inv v" "vc_stop_at v = VpnNotStopping \<or> vc_stop_at v = VpnJoin"
  shows "vpn_inv v'"
proof -
  obtain m where m: "vc_http_client v = Some m" "cm_inv m" "supervised v m"
    using assms(2,3) by (cases "vc_http_client v") (auto simp: vpn_inv_def)
  have s: "stop_begins m = (False, m)" if "vc_sup_at v = SupStop" using m(3) that by (simp add: supervised_def stop_begins_def)
  have r: "ConnectionManager_Start m = None" if "vc_sup_at v = SupRestart"
    using m(3) that by (simp add: supervised_def restart_refused)
  show ?thesis
    using assms m s r
    by (cases "vc_sup_at v")
      (auto simp: sup_step_def vpn_inv_def supervised_def ConnectionManager_IsStarted_def Let_def split: if_splits)
qed

lemma Vpn_Start_cases:
  assumes "Vpn_Start results v = Some (ok, v', calls)"
  obtains (idle) "v' = v" "\<not> ok" | (failed) "v' = v\<lparr>vc_running := True\<rparr>" "\<not> ok" "vc_http_client v \<noteq> None"
    | (started) m m1 where "vc_http_client v = Some m" "ConnectionManager_Start m = Some (True, m1)" "ok"
      "v' = v\<lparr>vc_running := True, vc_http_client := Some m1, vc_sup_at := SupWait, vc_full_restart_count := 0\<rparr>"
  using assms
  by (auto simp: Vpn_Start_def Let_def bind_eq_Some_conv ConnectionManager_Start_def split: option.splits prod.splits if_splits)

lemma vpn_inv_start:
  assumes "Vpn_Start results v = Some (ok, v', calls)" "vpn_inv v" "vc_stop_at v \<in> {VpnNotStopping, VpnStopped}"
  shows "vpn_inv v'"
  using assms(1)
proof (cases rule: Vpn_Start_cases)
  case failed
  then have "vc_stop_at v = VpnNotStopping" using assms(2,3) by (auto simp: vpn_inv_def)
  then show ?thesis using failed assms(2) by (cases "vc_http_client v") (simp_all add: vpn_inv_def supervised_def)
next
  case (started m m1)
  have i: "cm_inv m" "cm_stop_at m = NotStopping" "vc_stop_at v = VpnNotStopping"
    using assms(2,3) started(1) by (auto simp: vpn_inv_def supervised_def)
  have "cm_inv m1" using cm_inv_step [OF cm_start [OF i(2) started(2)] i(1)] .
  moreover have "cm_stop_at m1 = NotStopping" "cm_run_at m1 = RunBegins"
    using started(2) i(2) by (auto simp: ConnectionManager_Start_def Let_def split: if_splits)
  ultimately show ?thesis using assms(2) i(3) unfolding started vpn_inv_def supervised_def by simp
qed (use assms in simp)

lemma supervised_http [simp]: "supervised (v\<lparr>vc_http_client := h\<rparr>) m = supervised v m"
  by (simp add: supervised_def)

lemma vpn_inv_queue [simp]:
  "vpn_inv (v\<lparr>vc_ws_packet_queue := q\<rparr>) = vpn_inv v" "vpn_inv (v\<lparr>vc_plugins := ps\<rparr>) = vpn_inv v"
  "vpn_inv (v\<lparr>vc_virtual_net_interface := tun\<rparr>) = vpn_inv v"
  by (cases "vc_http_client v"; simp add: vpn_inv_def supervised_def)+

lemma vpn_inv_http:
  assumes "vpn_inv v" "vc_http_client v = Some m" "cm_inv m'" "supervised v m \<Longrightarrow> supervised v m'"
  shows "vpn_inv (v\<lparr>vc_http_client := Some m'\<rparr>)"
  using assms unfolding vpn_inv_def by simp

lemma vpn_inv_stopped:
  assumes "vpn_inv v" "vc_sup_at v \<in> {NoSupervisor, SupEnded}" "vc_stop_at v \<in> {VpnJoin, VpnStopHttp}"
    "case h of None \<Rightarrow> at = VpnStopped | Some m \<Rightarrow> at = VpnStopHttp \<and> cm_inv m"
  shows "vpn_inv (v\<lparr>vc_http_client := h, vc_stop_at := at\<rparr>)"
proof -
  have "\<not> vc_running v" "\<not> vc_gave_up v" "vc_sup_at v = NoSupervisor \<longrightarrow> vc_full_restart_count v = 0"
    using assms(1,3) by (auto simp: vpn_inv_def)
  then show ?thesis using assms(2,4) by (cases h) (auto simp: vpn_inv_def)
qed

lemma stop_begins_inv: "cm_inv m \<Longrightarrow> stop_begins m = (ok, m') \<Longrightarrow> cm_inv m'"
  using cm_inv_step [OF cm_stop, of m] by simp

lemma vpn_inv_step: "vpn_step lib y re v v' \<Longrightarrow> vpn_inv v \<Longrightarrow> vpn_inv v'"
proof (induction rule: vpn_step.induct)
  case (vpn_start v results ok v' calls)
  then show ?case by (blast intro: vpn_inv_start)
next
  case (vpn_stop v)
  show ?case
  proof (cases "vc_running v")
    case True
    then have "vc_stop_at v = VpnNotStopping" using vpn_stop by (simp add: vpn_inv_def split: if_splits)
    then show ?thesis using vpn_stop True by (cases "vc_http_client v") (simp_all add: vpn_stop_begins_def vpn_inv_def supervised_def)
  qed (use vpn_stop in \<open>simp add: vpn_stop_begins_def\<close>)
next
  case (vpn_join v v')
  define w where "w = v\<lparr>vc_virtual_net_interface := False\<rparr>"
  have w: "vpn_inv w" "vc_sup_at w \<in> {NoSupervisor, SupEnded}" "vc_stop_at w \<in> {VpnJoin, VpnStopHttp}"
    using vpn_join(1,2,4) by (simp_all add: w_def)
  show ?case
  proof (cases "vc_http_client v")
    case None
    then show ?thesis using vpn_join by (simp add: vpn_inv_def)
  next
    case (Some m)
    obtain ok m1 where s: "stop_begins m = (ok, m1)" by (cases "stop_begins m")
    have "cm_inv m" using vpn_join(4) Some by (simp add: vpn_inv_def)
    then have "cm_inv m1" by (rule stop_begins_inv [OF _ s])
    moreover have "v' = (if ok then w\<lparr>vc_http_client := Some m1, vc_stop_at := VpnStopHttp\<rparr>
        else w\<lparr>vc_http_client := None, vc_stop_at := VpnStopped\<rparr>)"
      using vpn_join(3) Some s by (cases ok) (auto simp: vpn_stop_joined_def w_def bind_eq_Some_conv)
    ultimately show ?thesis using vpn_inv_stopped [OF w] by simp
  qed
next
  case (vpn_end v m v')
  then have "vc_sup_at v \<in> {NoSupervisor, SupEnded}" by (simp add: vpn_inv_def)
  moreover have "v' = v\<lparr>vc_http_client := None, vc_stop_at := VpnStopped\<rparr>"
    using vpn_end(2,4) by (auto simp: vpn_stop_ends_def bind_eq_Some_conv)
  ultimately show ?case using vpn_inv_stopped [OF vpn_end(5)] vpn_end(1) by simp
next
  case (vpn_sup v v' calls)
  show ?case
  proof (cases "vc_stop_at v \<in> {VpnNotStopping, VpnJoin}")
    case True
    then show ?thesis using vpn_inv_sup vpn_sup by blast
  next
    case False
    then have "vc_sup_at v \<in> {NoSupervisor, SupEnded}" using vpn_sup(2) by (cases "vc_stop_at v") (auto simp: vpn_inv_def)
    then show ?thesis using vpn_sup by (auto simp: sup_step_def split: option.splits)
  qed
next
  case (vpn_outgoing draw packet v v')
  show ?case
  proof (cases "v' = v")
    case False
    then obtain m ok m' where m: "vc_http_client v = Some m" "ConnectionManager_Send draw packet m = Some (ok, m')"
      "v' = v\<lparr>vc_http_client := Some m'\<rparr>"
      using vpn_outgoing(1)
      by (auto simp: HandleOnPacketFromVirtualNetworkInterface_def bind_eq_Some_conv split: option.splits if_splits)
    have i: "cm_inv m" using vpn_outgoing(2) m(1) by (simp add: vpn_inv_def)
    show ?thesis unfolding m(3)
    proof (rule vpn_inv_http [OF vpn_outgoing(2) m(1)])
      show "cm_inv m'" by (rule cm_inv_send [OF m(2) i])
      show "supervised v m \<Longrightarrow> supervised v m'" using Send_supervised [OF m(2)] by (simp add: supervised_def)
    qed
  qed (use vpn_outgoing(2) in simp)
next
  case (vpn_incoming v packet)
  then show ?case by (simp add: HandleOnPacketFromWebSocket_def split: option.split)
next
  case (vpn_worker v apple still v' calls)
  then obtain plugins where "v' = v\<lparr>vc_ws_packet_queue := [], vc_plugins := plugins\<rparr>"
    by (auto simp: ProcessWebSocketPackets_def bind_eq_Some_conv)
  then show ?case using vpn_worker(3) by simp
next
  case (vpn_manager v m m')
  have "cm_inv m" using vpn_manager(1,3) by (simp add: vpn_inv_def)
  then have "cm_inv m'" by (rule cm_inv_own [OF vpn_manager(2)])
  then show ?case by (rule vpn_inv_http [OF vpn_manager(3,1)]) (rule supervised_own [OF vpn_manager(2)])
qed

lemma vpn_inv_reachable: "vpn_reachable lib y re v \<Longrightarrow> vpn_inv v"
proof (induction rule: vpn_reachable.induct)
  case (vpn_init kind cfg routes tun plugins max_full_restarts)
  have "cm_inv (ConnectionManager_new kind cfg)" by (rule cm_inv_reachable [OF cm_init])
  then show ?case by (simp add: vpn_inv_def Vpn_new_def supervised_def ConnectionManager_new_def)
qed (rule vpn_inv_step)

section \<open>Properties\<close>

text \<open>C7: The supervisor cannot restart the connection: whenever it comes to the restart, in any
  interleaving, the manager's thread was never joined, and starting the manager ends the program. So
  there never is a second restart, the limit is never reached and the client never gives up.\<close>

theorem supervisor_restart_aborts:
  assumes "vpn_reachable lib y re v"
  shows "(vc_sup_at v = SupRestart \<and> vc_http_client v \<noteq> None \<longrightarrow> sup_step v = None) \<and>
    \<not> vc_gave_up v \<and> (vc_sup_at v = SupCheck \<longrightarrow> vc_full_restart_count v = 0)"
proof -
  have inv: "vpn_inv v" by (rule vpn_inv_reachable [OF assms])
  have "sup_step v = None" if r: "vc_sup_at v = SupRestart" and h: "vc_http_client v \<noteq> None"
  proof -
    obtain m where m: "vc_http_client v = Some m" using h by blast
    have "vc_stop_at v \<in> {VpnNotStopping, VpnJoin}" using inv r by (cases "vc_stop_at v") (auto simp: vpn_inv_def)
    then have "cm_run_at m \<noteq> NoThread" using inv m r by (auto simp: vpn_inv_def supervised_def)
    then show ?thesis using m r by (simp add: sup_step_def restart_refused)
  qed
  then show ?thesis using inv by (auto simp: vpn_inv_def)
qed

lemma vpn_manager_goes_on:
  "(cm_own lib y)\<^sup>*\<^sup>* m m' \<Longrightarrow> vpn_reachable lib y re v \<Longrightarrow> vc_http_client v = Some m \<Longrightarrow>
   vpn_reachable lib y re (v\<lparr>vc_http_client := Some m'\<rparr>)"
proof (induction rule: rtranclp_induct)
  case base
  then have e: "v\<lparr>vc_http_client := Some m\<rparr> = v" by (cases v) simp
  show ?case unfolding e by (rule base(1))
next
  case (step m1 m2)
  have "vpn_step lib y re (v\<lparr>vc_http_client := Some m1\<rparr>) ((v\<lparr>vc_http_client := Some m1\<rparr>)\<lparr>vc_http_client := Some m2\<rparr>)"
    by (rule vpn_manager [OF _ step.hyps(2)]) simp
  then show ?case using vpn_next [OF step.IH [OF step.prems]] by simp
qed

theorem supervisor_restart_aborts_witness:
  "\<exists>v. vpn_reachable demo_lib demo_yaff demo_all_re v \<and> vc_sup_at v = SupRestart \<and> vc_max_full_restarts v = 10 \<and> sup_step v = None"
proof -
  let ?R = "vpn_reachable demo_lib demo_yaff demo_all_re"
  let ?v = "Vpn_new (demo_manager kDualTunnel) True True [] 10"
  let ?m = "(demo_manager kDualTunnel)\<lparr>cm_running := True, cm_run_at := RunBegins\<rparr>"
  let ?w = "?v\<lparr>vc_running := True, vc_http_client := Some ?m, vc_sup_at := SupWait, vc_full_restart_count := 0\<rparr>"
  have s: "ConnectionManager_Start (demo_manager kDualTunnel) = Some (True, ?m)"
    by (simp add: ConnectionManager_Start_def demo_manager_def ConnectionManager_new_def)
  have "Vpn_Start [True] ?v = Some (True, ?w, [TunStart, RouteApply])"
    using s by (simp add: Vpn_Start_def Vpn_new_def kMaxTunOpenAttempts_def eval_nat_numeral)
  moreover have "?R ?v" unfolding demo_manager_def by (rule vpn_init)
  ultimately have w: "?R ?w" by (rule_tac vpn_next [OF _ vpn_start]) (simp_all add: Vpn_new_def)
  obtain m where m: "(cm_own demo_lib demo_yaff)\<^sup>*\<^sup>* ?m m" "cm_run_at m = Finished" "cm_stop_at m = NotStopping" "\<not> cm_running m"
    using boot_gives_up by blast
  let ?x = "\<lambda>at. ?w\<lparr>vc_http_client := Some m, vc_full_restart_count := 1, vc_reconnect_attempt := 1, vc_sup_at := at\<rparr>"
  have 0: "?R (?w\<lparr>vc_http_client := Some m\<rparr>)" by (rule vpn_manager_goes_on [OF m(1) w]) simp
  have step: "?R b" if "?R a" "sup_step a = Some (b, calls)" for a b calls using that by (blast intro: vpn_next vpn_sup)
  have "sup_step (?w\<lparr>vc_http_client := Some m\<rparr>) = Some (?w\<lparr>vc_http_client := Some m, vc_sup_at := SupCheck\<rparr>, [])"
    using m(4) by (simp add: sup_step_def ConnectionManager_IsConnected_def Vpn_new_def)
  from step [OF 0 this] have 1: "?R (?w\<lparr>vc_http_client := Some m, vc_sup_at := SupCheck\<rparr>)" .
  have "sup_step (?w\<lparr>vc_http_client := Some m, vc_sup_at := SupCheck\<rparr>) = Some (?x SupStop, [])"
    using m(4) by (simp add: sup_step_def ConnectionManager_IsStarted_def Vpn_new_def Let_def)
  from step [OF 1 this] have 2: "?R (?x SupStop)" .
  have "sup_step (?x SupStop) = Some (?x SupBackoff, [RouteClean])"
    using m(4) by (simp add: sup_step_def stop_begins_def clean_routes_def Vpn_new_def)
  from step [OF 2 this] have 3: "?R (?x SupBackoff)" .
  have "sup_step (?x SupBackoff) = Some (?x SupRestart, [])" by (simp add: sup_step_def Vpn_new_def)
  from step [OF 3 this] have 4: "?R (?x SupRestart)" .
  have "vc_sup_at (?x SupRestart) = SupRestart" "vc_http_client (?x SupRestart) \<noteq> None" "vc_max_full_restarts (?x SupRestart) = 10"
    by (simp_all add: Vpn_new_def)
  then show ?thesis using supervisor_restart_aborts [OF 4] 4 by blast
qed

text \<open>A start that could not open the device returns failure but leaves the client running without
  threads: it is not started, further calls of \<open>Start\<close> do nothing, and no supervisor recovers it; only
  \<open>Stop\<close> takes it out of that, for good.\<close>

theorem failed_start:
  assumes "\<not> vc_running v" and "vc_http_client v = Some m" and "\<not> ConnectionManager_IsStarted m" and "\<not> vc_ever_connected v"
    and "True \<notin> set (take 5 results)"
  shows "\<exists>calls. Vpn_Start results v = Some (False, v\<lparr>vc_running := True\<rparr>, calls) \<and> length calls \<le> 5 \<and>
    \<not> Vpn_IsStarted (v\<lparr>vc_running := True\<rparr>) \<and>
    Vpn_Start results' (v\<lparr>vc_running := True\<rparr>) = Some (False, v\<lparr>vc_running := True\<rparr>, []) \<and>
    (vc_sup_at v = NoSupervisor \<longrightarrow> sup_step (v\<lparr>vc_running := True\<rparr>) = Some (v\<lparr>vc_running := True\<rparr>, []))"
proof -
  have "snd (open_tun n results) = False \<and> fst (open_tun n results) \<le> n" if "True \<notin> set (take n results)" for n
    using that by (induction n results rule: open_tun.induct) (auto split: prod.splits)
  from this [OF assms(5)] obtain k where k: "open_tun kMaxTunOpenAttempts results = (k, False)" "k \<le> 5"
    unfolding kMaxTunOpenAttempts_def by (metis prod.collapse)
  then show ?thesis using assms(1-4)
    by (simp add: Vpn_Start_def Vpn_IsStarted_def sup_step_def)
qed

theorem failed_start_witness:
  "\<exists>v'. (\<exists>calls. Vpn_Start [False, False, False, False, False, True] (Vpn_new (demo_manager kDualTunnel) True True [] 10) = Some (False, v', calls)) \<and>
     \<not> Vpn_IsStarted v'"
proof -
  let ?v = "Vpn_new (demo_manager kDualTunnel) True True [] 10"
  have "\<not> vc_running ?v" "vc_http_client ?v = Some (demo_manager kDualTunnel)" "\<not> vc_ever_connected ?v"
    "\<not> ConnectionManager_IsStarted (demo_manager kDualTunnel)" "True \<notin> set (take 5 [False, False, False, False, False, True])"
    by (simp_all add: Vpn_new_def demo_manager_def ConnectionManager_new_def ConnectionManager_IsStarted_def)
  from failed_start [OF this(1,2,4,3,5)] show ?thesis by blast
qed

lemma split_tunneling_passes:
  "\<exists>triggered routes. plugin_HandlePacket lib re False packet (SplitTunneling t) = Some (Some packet, triggered, SplitTunneling t, routes)"
proof -
  obtain dns where d: "IsDns packet = Some dns" using IsDns_defined by blast
  obtain o4 o6 where o: "GetDnsIPv4Addresses lib packet = Some o4" "GetDnsIPv6Addresses lib packet = Some o6"
    using GetDnsAddresses_defined by blast
  obtain dom where "GetDnsDomain packet = Some dom" using GetDnsDomain_defined by blast
  then show ?thesis using d o
    by (cases dom) (auto simp: plugin_HandlePacket_def Tunneling_HandlePacket_def Let_def split: prod.split)
qed

fun unblocked :: "netlib \<Rightarrow> re2 \<Rightarrow> string list \<Rightarrow> u32 set \<Rightarrow> ip_packet list \<Rightarrow> ip_packet list" where
  "unblocked lib re rules known [] = []"
| "unblocked lib re rules known (packet # packets) =
     (if blocked lib known packet then [] else [packet]) @ unblocked lib re rules (learned lib re rules packet \<union> known) packets"

lemma apply_both:
  assumes "bl_ipv6_addresses b = []"
  shows "\<exists>b' routes. apply_plugins lib re False packet [Blacklist b, SplitTunneling t] =
      Some (if blocked lib (set (bl_ipv4_addresses b)) packet then None else Some packet, [Blacklist b', SplitTunneling t], routes) \<and>
    bl_rules b' = bl_rules b \<and> bl_ipv6_addresses b' = [] \<and>
    set (bl_ipv4_addresses b') = learned lib re (bl_rules b) packet \<union> set (bl_ipv4_addresses b)"
proof -
  obtain triggered b' where b: "DomainBlacklist_HandlePacket lib re packet b =
      Some (if blocked lib (set (bl_ipv4_addresses b)) packet then None else Some packet, triggered, b')"
    "bl_rules b' = bl_rules b" "bl_ipv6_addresses b' = []"
    "set (bl_ipv4_addresses b') = learned lib re (bl_rules b) packet \<union> set (bl_ipv4_addresses b)"
    using HandlePacket_blacklist [OF assms] by blast
  then have h: "plugin_HandlePacket lib re False packet (Blacklist b) =
      Some (if blocked lib (set (bl_ipv4_addresses b)) packet then None else Some packet, triggered, Blacklist b', [])"
    by (simp add: plugin_HandlePacket_def)
  obtain more_triggered routes where
    "plugin_HandlePacket lib re False packet (SplitTunneling t) = Some (Some packet, more_triggered, SplitTunneling t, routes)"
    using split_tunneling_passes by blast
  then have "\<exists>routes. apply_plugins lib re False packet [Blacklist b, SplitTunneling t] =
      Some (if blocked lib (set (bl_ipv4_addresses b)) packet then None else Some packet, [Blacklist b', SplitTunneling t], routes)"
    by (cases triggered) (simp_all add: h)
  then show ?thesis using b(2-4) by blast
qed

lemma filter_both:
  assumes "bl_ipv6_addresses b = []"
  shows "\<exists>b' routes. filter_batch lib re False packets [Blacklist b, SplitTunneling t] =
    Some (unblocked lib re (bl_rules b) (set (bl_ipv4_addresses b)) packets, [Blacklist b', SplitTunneling t], routes)"
  using assms
proof (induction packets arbitrary: b)
  case (Cons packet packets)
  obtain b1 routes where 1: "apply_plugins lib re False packet [Blacklist b, SplitTunneling t] =
      Some (if blocked lib (set (bl_ipv4_addresses b)) packet then None else Some packet, [Blacklist b1, SplitTunneling t], routes)"
    "bl_rules b1 = bl_rules b" "bl_ipv6_addresses b1 = []"
    "set (bl_ipv4_addresses b1) = learned lib re (bl_rules b) packet \<union> set (bl_ipv4_addresses b)"
    using apply_both [OF Cons.prems] by blast
  obtain b2 more_routes where 2: "filter_batch lib re False packets [Blacklist b1, SplitTunneling t] =
      Some (unblocked lib re (bl_rules b) (set (bl_ipv4_addresses b1)) packets, [Blacklist b2, SplitTunneling t], more_routes)"
    using Cons.IH [OF 1(3)] 1(2) by auto
  show ?case
    by (simp only: filter_batch.simps 1(1) 2 Option.bind.bind_lunit prod.case unblocked.simps 1(4))
      (simp split: if_split)
qed simp

text \<open>Delivery: a turn of the worker runs without an access outside a packet and writes to the device,
  in their order and unchanged, the packets of the queue but for those that the domain blacklist,
  when it is the client's first plugin, blocks; split tunnelling drops nothing.\<close>

theorem worker_delivers:
  assumes "vc_plugins v = [Blacklist b, SplitTunneling t]" and "bl_ipv6_addresses b = []" and "vc_virtual_net_interface v"
    and "kept = unblocked lib re (bl_rules b) (set (bl_ipv4_addresses b)) (vc_ws_packet_queue v)"
  shows "\<exists>v' routes. ProcessWebSocketPackets lib re False True v =
      Some (v', map RouteDns routes @ (if kept = [] then [] else [TunSendBatch kept])) \<and>
    vc_ws_packet_queue v' = [] \<and> subseq kept (vc_ws_packet_queue v)"
proof -
  have "subseq (unblocked lib re rules known packets) packets" for rules known packets
    by (induction packets arbitrary: known) auto
  moreover obtain b' routes where
    "filter_batch lib re False (vc_ws_packet_queue v) (vc_plugins v) = Some (kept, [Blacklist b', SplitTunneling t], routes)"
    using filter_both [OF assms(2)] unfolding assms(1,4) by blast
  ultimately show ?thesis using assms(3,4) by (auto simp: ProcessWebSocketPackets_def)
qed

theorem worker_delivers_witness:
  "\<exists>v' routes. ProcessWebSocketPackets demo_lib demo_all_re False True
     ((Vpn_new (demo_manager kDualTunnel) True True [Blacklist (DomainBlacklist_new demo_all_re id []), SplitTunneling (Tunneling_new demo_all_re id [] kIncludeInVpn)] 10)
        \<lparr>vc_running := True, vc_ws_packet_queue := [dns_pkt, demo_udp]\<rparr>) = Some (v', routes) \<and> vc_ws_packet_queue v' = []"
proof -
  let ?b = "DomainBlacklist_new demo_all_re id []" and ?t = "Tunneling_new demo_all_re id [] kIncludeInVpn"
  let ?v = "(Vpn_new (demo_manager kDualTunnel) True True [Blacklist ?b, SplitTunneling ?t] 10)
    \<lparr>vc_running := True, vc_ws_packet_queue := [dns_pkt, demo_udp]\<rparr>"
  have "vc_plugins ?v = [Blacklist ?b, SplitTunneling ?t]" "bl_ipv6_addresses ?b = []" "vc_virtual_net_interface ?v"
    by (simp_all add: Vpn_new_def DomainBlacklist_new_def)
  from worker_delivers [OF this refl] show ?thesis by blast
qed

end
