(* ===== verification/Routes.thy ===== *)
theory Routes
  imports Plugins
begin

text \<open>
  The routing table and the firewall of the client's machine: \<open>RouteManager\<close> of
  \<open>src/fptn-client/routing/route_manager.h\<close> and \<open>.cpp\<close> as it is built for Linux, and
  \<open>run_batch\<close> of \<open>src/common/system/command.h\<close>. The manager speaks to the system through command
  lines only. A command that installs or removes a firewall rule or a route is kept as a value with the
  fields its text is made of, and \<open>command_text\<close> is the text the program runs. An operation returns the
  manager after it and the commands it ran, in their order. What the shell pipelines print (the interface, the
  gateways, the DNS servers) and what name resolution answers is the record \<open>route_env\<close>; what a
  command does to the machine is not modelled, and the manager does not look at it.
\<close>

section \<open>Commands\<close>

text \<open>Quotes are written by their codes.\<close>

definition dq :: string where "dq = [CHR 0x22]"

definition sq :: string where "sq = [CHR 0x27]"

record fw_rule =
  fw_v6 :: bool
  fw_table :: "string option"
  fw_chain :: string
  fw_in :: "string option"
  fw_out :: "string option"
  fw_src :: "string option"
  fw_dst :: "string option"
  fw_proto :: "string option"
  fw_sport :: "string option"
  fw_dport :: "string option"
  fw_state :: "string option"
  fw_target :: string

datatype os_command =
    RuleAppend fw_rule
  | RuleDelete fw_rule
  | RouteAdd bool string "string option" string
  | RouteAddQuoted bool string string string
  | RouteDel bool string "string option" string
  | RouteReplace bool string "string option" string string
  | Shell string

fun opt_text :: "string \<Rightarrow> string option \<Rightarrow> string" where
  "opt_text flag None = []"
| "opt_text flag (Some v) = flag @ v"

definition rule_text :: "string \<Rightarrow> fw_rule \<Rightarrow> string" where
  "rule_text verb r = (if fw_v6 r then ''ip6tables'' else ''iptables'')
     @ opt_text '' -t '' (fw_table r) @ '' '' @ verb @ '' '' @ fw_chain r
     @ opt_text '' -i '' (fw_in r) @ opt_text '' -o '' (fw_out r)
     @ opt_text '' -s '' (fw_src r) @ opt_text '' -d '' (fw_dst r)
     @ opt_text '' -p '' (fw_proto r) @ opt_text '' --sport '' (fw_sport r) @ opt_text '' --dport '' (fw_dport r)
     @ opt_text '' -m state --state '' (fw_state r) @ '' -j '' @ fw_target r"

definition ip_tool :: "bool \<Rightarrow> string" where
  "ip_tool v6 = (if v6 then ''ip -6 route '' else ''ip route '')"

fun command_text :: "os_command \<Rightarrow> string" where
  "command_text (RuleAppend r) = rule_text ''-A'' r"
| "command_text (RuleDelete r) = rule_text ''-D'' r"
| "command_text (RouteAdd v6 d via dev) = ip_tool v6 @ ''add '' @ d @ opt_text '' via '' via @ '' dev '' @ dev"
| "command_text (RouteAddQuoted v6 d via dev) =
     ip_tool v6 @ ''add '' @ d @ '' via '' @ dq @ via @ dq @ '' dev '' @ dq @ dev @ dq @ '' ''"
| "command_text (RouteDel v6 d via dev) = ip_tool v6 @ ''del '' @ d @ opt_text '' via '' via @ '' dev '' @ dev"
| "command_text (RouteReplace v6 d via dev scope) =
     ip_tool v6 @ ''replace '' @ d @ opt_text '' via '' via @ '' dev '' @ dev @ scope"
| "command_text (Shell s) = s"

section \<open>Batches\<close>

definition kChunkSize :: nat where "kChunkSize = 100"

definition sh_c :: "string \<Rightarrow> string" where
  "sh_c joined = ''sh -c '' @ dq @ joined @ dq"

fun batch_loop :: "string \<Rightarrow> nat \<Rightarrow> string list \<Rightarrow> string list" where
  "batch_loop joined count [] = (if joined = [] then [] else [sh_c joined])"
| "batch_loop joined count (cmd # commands) =
     (if cmd = [] then batch_loop joined count commands
      else let joined = (if joined \<noteq> [] then joined @ '' ; '' else joined) @ cmd in
        if count + 1 \<ge> kChunkSize
        then (if joined = [] then batch_loop joined (count + 1) commands else sh_c joined # batch_loop [] 0 commands)
        else batch_loop joined (count + 1) commands)"

definition run_batch :: "string list \<Rightarrow> string list" where
  "run_batch commands = batch_loop [] 0 commands"

section \<open>What the system reports\<close>

record route_env =
  re_lib :: netlib
  re_interface_lines :: "string list"
  re_gateway4_lines :: "string list"
  re_gateway6_lines :: "string list"
  re_dns_lines :: "string \<Rightarrow> string list"
  re_resolve :: "string \<Rightarrow> string option"

definition blank :: "char \<Rightarrow> bool" where
  "blank c \<longleftrightarrow> c = CHR '' '' \<or> c = CHR 0x0A \<or> c = CHR 0x0D \<or> c = CHR 0x09"

definition strip_blanks :: "string \<Rightarrow> string" where
  "strip_blanks s = dropWhile blank (rev (dropWhile blank (rev s)))"

definition GetDefaultNetworkInterfaceName :: "route_env \<Rightarrow> string" where
  "GetDefaultNetworkInterfaceName env = foldl (\<lambda>_ line. strip_blanks line) [] (re_interface_lines env)"

text \<open>Every answer of the resolver is taken to be one address; no answer and a failed query are the same
  branch.\<close>

definition ResolveDomain :: "route_env \<Rightarrow> string \<Rightarrow> ip_address" where
  "ResolveDomain env domain =
     (case make_address (re_lib env) domain of
        Some _ \<Rightarrow> IPv4Address_new (re_lib env) domain
      | None \<Rightarrow> (case re_resolve env domain of
            Some endpoint \<Rightarrow> IPv4Address_new (re_lib env) endpoint
          | None \<Rightarrow> IPv4Address_new (re_lib env) domain))"

definition gateway4_char :: "char \<Rightarrow> bool" where
  "gateway4_char c \<longleftrightarrow> isalnum c \<or> c = CHR ''.'' \<or> c = CHR ''-'' \<or> c = CHR ''_''"

fun first_gateway4 :: "route_env \<Rightarrow> string list \<Rightarrow> ip_address" where
  "first_gateway4 env [] = IPAddress_empty"
| "first_gateway4 env (line # ls) =
     (let result = filter gateway4_char line in
      if result \<noteq> [] then ResolveDomain env result else first_gateway4 env ls)"

definition GetDefaultGatewayIPAddress :: "route_env \<Rightarrow> ip_address" where
  "GetDefaultGatewayIPAddress env = first_gateway4 env (re_gateway4_lines env)"

definition gateway6_char :: "char \<Rightarrow> bool" where
  "gateway6_char c \<longleftrightarrow> isalnum c \<or> c = CHR '':'' \<or> c = CHR ''.'' \<or> c = CHR ''-''"

fun first_gateway6 :: "netlib \<Rightarrow> string list \<Rightarrow> ip_address" where
  "first_gateway6 lib [] = IPAddress_empty"
| "first_gateway6 lib (line # ls) =
     (let result = filter gateway6_char line in
      if result = [] then first_gateway6 lib ls
      else let addr = IPv6Address_new lib result in
        if IPv6Address_IsValid addr then addr else first_gateway6 lib ls)"

definition GetDefaultGatewayIPv6Address :: "route_env \<Rightarrow> ip_address" where
  "GetDefaultGatewayIPv6Address env = first_gateway6 (re_lib env) (re_gateway6_lines env)"

text \<open>\<open>while (iss >> server)\<close>\<close>

function words_of :: "string \<Rightarrow> string list" where
  "words_of s = (case read_word s of None \<Rightarrow> [] | Some (w, rest) \<Rightarrow> w # words_of rest)"
  by pat_completeness auto
termination
proof (relation "measure length", simp)
  fix s p w rest
  assume "read_word s = Some p" and "(w, rest) = p"
  then have ne: "dropWhile isspace s \<noteq> []"
    and rest: "rest = dropWhile (\<lambda>c. \<not> isspace c) (dropWhile isspace s)"
    by (auto simp: read_word_def Let_def split: if_splits)
  obtain c u where cu: "dropWhile isspace s = c # u"
    using ne by (cases "dropWhile isspace s") auto
  then have "\<not> isspace c"
    using hd_dropWhile [of isspace s] by simp
  then have "length rest \<le> length u"
    using length_dropWhile_le [of "\<lambda>c. \<not> isspace c" u] by (simp add: rest cu)
  moreover have "length (c # u) \<le> length s"
    using length_dropWhile_le [of isspace s] cu by metis
  ultimately show "(rest, s) \<in> measure length"
    by simp
qed

declare words_of.simps [simp del]

definition GetLinuxDnsServers :: "route_env \<Rightarrow> string \<Rightarrow> string list" where
  "GetLinuxDnsServers env interface =
     (case re_dns_lines env interface of [] \<Rightarrow> [] | l # _ \<Rightarrow> if l \<noteq> [] then words_of l else [])"

section \<open>The manager\<close>

record route_config =
  out_interface_name :: string
  tun_interface_address_ipv4 :: ip_address
  tun_interface_address_ipv6 :: ip_address
  vpn_server_ip :: ip_address
  dns_server_ipv4 :: ip_address
  dns_server_ipv6 :: ip_address
  custom_dns_ipv4 :: ip_address
  gateway_ipv4 :: ip_address
  gateway_ipv6 :: ip_address
  exclude_networks :: "string list"
  include_networks :: "string list"

record route_entry =
  destination :: string
  policy :: routing_policy

record route_manager =
  rm_running :: bool
  rm_config :: route_config
  rm_tun :: string
  rm_dns4 :: "route_entry list"
  rm_dns6 :: "route_entry list"
  rm_add4 :: "route_entry list"
  rm_add6 :: "route_entry list"
  rm_interface :: string
  rm_gateway4 :: ip_address
  rm_gateway6 :: ip_address
  rm_original_dns :: "string list"

definition RouteManager_new :: "route_config \<Rightarrow> route_manager" where
  "RouteManager_new config =
     \<lparr>rm_running = False, rm_config = config, rm_tun = [], rm_dns4 = [], rm_dns6 = [], rm_add4 = [], rm_add6 = [],
      rm_interface = [], rm_gateway4 = IPAddress_empty, rm_gateway6 = IPAddress_empty, rm_original_dns = []\<rparr>"

text \<open>Installing a route reports success whatever the command answered: only an exception would be a
  failure, and running a command raises none.\<close>

definition AddIPv4RouteToSystem :: "string \<Rightarrow> string \<Rightarrow> string \<Rightarrow> bool \<times> os_command list" where
  "AddIPv4RouteToSystem dest gateway_ip out_interface = (True, [RouteAddQuoted False dest gateway_ip out_interface])"

definition AddIPv6RouteToSystem :: "string \<Rightarrow> string \<Rightarrow> string \<Rightarrow> bool \<times> os_command list" where
  "AddIPv6RouteToSystem dest gateway_ip out_interface = (True, [RouteAddQuoted True dest gateway_ip out_interface])"

definition BuildRemoveIPv4RouteCommand :: "string \<Rightarrow> string \<Rightarrow> string \<Rightarrow> os_command" where
  "BuildRemoveIPv4RouteCommand dest gateway_ip out_interface = RouteDel False dest (Some gateway_ip) out_interface"

definition BuildRemoveIPv6RouteCommand :: "string \<Rightarrow> string \<Rightarrow> string \<Rightarrow> os_command" where
  "BuildRemoveIPv6RouteCommand dest gateway_ip out_interface = RouteDel True dest (Some gateway_ip) out_interface"

definition HealStaleResolvConf :: "os_command list" where
  "HealStaleResolvConf = [Shell (''bash -c '' @ dq
     @ ''test -e /etc/resolv.conf.fptn-backup || exit 0; ''
     @ ''chattr -i /etc/resolv.conf 2>/dev/null; ''
     @ ''cp -f /etc/resolv.conf.fptn-backup /etc/resolv.conf; ''
     @ ''rm -f /etc/resolv.conf.fptn-backup; ''
     @ ''resolvectl flush-caches 2>/dev/null; true'' @ dq)]"

section \<open>Installing routes\<close>

text \<open>The interface of a route that avoids the tunnel, as the DNS routes and their removal choose it.\<close>

definition outside_interface :: "route_env \<Rightarrow> route_manager \<Rightarrow> string" where
  "outside_interface env m =
     (if rm_interface m \<noteq> [] then rm_interface m
      else if out_interface_name (rm_config m) \<noteq> [] then out_interface_name (rm_config m)
      else GetDefaultNetworkInterfaceName env)"

text \<open>The part of \<open>AddDnsRoutesIPv4\<close> and \<open>AddDnsRoutesIPv6\<close> under the lock: the entries the set does not hold
  yet are put into it and are to be installed.\<close>

fun register_entries :: "ip_address list \<Rightarrow> routing_policy \<Rightarrow> route_entry list \<Rightarrow> route_entry list \<times> route_entry list" where
  "register_entries [] pol entries = ([], entries)"
| "register_entries (ip # ips) pol entries =
     (let entry = \<lparr>destination = ip_str ip, policy = pol\<rparr> in
      if entry \<notin> set entries
      then (let (added, entries) = register_entries ips pol (entries @ [entry]) in (entry # added, entries))
      else register_entries ips pol entries)"

definition dns_way4 :: "route_env \<Rightarrow> route_manager \<Rightarrow> routing_policy \<Rightarrow> string \<times> string" where
  "dns_way4 env m pol =
     (let (interface_name, gateway_ip) =
        (case pol of
           kExcludeFromVpn \<Rightarrow> (outside_interface env m, ip_str (gateway_ipv4 (rm_config m)))
         | kIncludeInVpn \<Rightarrow> (rm_tun m, ip_str (tun_interface_address_ipv4 (rm_config m)))) in
      (if interface_name = [] then GetDefaultNetworkInterfaceName env else interface_name, gateway_ip))"

definition dns_way6 :: "route_env \<Rightarrow> route_manager \<Rightarrow> routing_policy \<Rightarrow> string \<times> string" where
  "dns_way6 env m pol =
     (case pol of
        kExcludeFromVpn \<Rightarrow> (outside_interface env m, ip_str (gateway_ipv6 (rm_config m)))
      | kIncludeInVpn \<Rightarrow> (rm_tun m, ip_str (tun_interface_address_ipv6 (rm_config m))))"

text \<open>The loop after it, with the lock free: the entries to install, the interface and the gateway are its
  own. A failed entry leaves the IPv4 set again, and stays in the IPv6 set.\<close>

fun install_dns4 :: "route_entry list \<Rightarrow> string \<Rightarrow> string \<Rightarrow> route_manager \<Rightarrow> bool \<times> route_manager \<times> os_command list" where
  "install_dns4 [] gateway_ip interface_name m = (True, m, [])"
| "install_dns4 (e # es) gateway_ip interface_name m =
     (let (rv, run) = AddIPv4RouteToSystem (destination e) gateway_ip interface_name;
          m = (if rv then m else m\<lparr>rm_dns4 := removeAll e (rm_dns4 m)\<rparr>);
          (status, m, more) = install_dns4 es gateway_ip interface_name m in
      (rv \<and> status, m, run @ more))"

fun install_dns6 :: "route_entry list \<Rightarrow> string \<Rightarrow> string \<Rightarrow> bool \<times> os_command list" where
  "install_dns6 [] gateway_ip interface_name = (True, [])"
| "install_dns6 (e # es) gateway_ip interface_name =
     (let (rv, run) = AddIPv6RouteToSystem (destination e) gateway_ip interface_name;
          (status, more) = install_dns6 es gateway_ip interface_name in
      (rv \<and> status, run @ more))"

definition RouteManager_AddDnsRoutesIPv4 ::
    "route_env \<Rightarrow> ip_address list \<Rightarrow> routing_policy \<Rightarrow> route_manager \<Rightarrow> bool \<times> route_manager \<times> os_command list" where
  "RouteManager_AddDnsRoutesIPv4 env ips pol m =
     (let (interface_name, gateway_ip) = dns_way4 env m pol in
      if interface_name = [] then (False, m, [])
      else let (entries_to_add, entries) = register_entries ips pol (rm_dns4 m); m = m\<lparr>rm_dns4 := entries\<rparr> in
        if entries_to_add = [] then (True, m, [])
        else install_dns4 entries_to_add gateway_ip interface_name m)"

definition RouteManager_AddDnsRoutesIPv6 ::
    "route_env \<Rightarrow> ip_address list \<Rightarrow> routing_policy \<Rightarrow> route_manager \<Rightarrow> bool \<times> route_manager \<times> os_command list" where
  "RouteManager_AddDnsRoutesIPv6 env ips pol m =
     (let (interface_name, gateway_ip) = dns_way6 env m pol in
      if interface_name = [] then (False, m, [])
      else if gateway_ip = [] then (False, m, [])
      else let (entries_to_add, entries) = register_entries ips pol (rm_dns6 m); m = m\<lparr>rm_dns6 := entries\<rparr> in
        if entries_to_add = [] then (True, m, [])
        else let (status, run) = install_dns6 entries_to_add gateway_ip interface_name in (status, m, run))"

definition is_ipv6_network :: "string \<Rightarrow> bool" where
  "is_ipv6_network network \<longleftrightarrow> CHR '':'' \<in> set network"

text \<open>The first loop of \<open>AddExcludeNetworks\<close> and \<open>AddIncludeNetworks\<close>: the networks to add, and the
  manager with their entries.\<close>

fun register_networks :: "routing_policy \<Rightarrow> string list \<Rightarrow> route_manager \<Rightarrow> (string \<times> bool) list \<times> route_manager" where
  "register_networks pol [] m = ([], m)"
| "register_networks pol (network # networks) m =
     (if network = [] then register_networks pol networks m
      else let entry = \<lparr>destination = network, policy = pol\<rparr> in
        if is_ipv6_network network then
          (if entry \<notin> set (rm_add6 m) then
             (let (added, m) = register_networks pol networks (m\<lparr>rm_add6 := rm_add6 m @ [entry]\<rparr>) in ((network, True) # added, m))
           else register_networks pol networks m)
        else
          (if entry \<notin> set (rm_add4 m) then
             (let (added, m) = register_networks pol networks (m\<lparr>rm_add4 := rm_add4 m @ [entry]\<rparr>) in ((network, False) # added, m))
           else register_networks pol networks m))"

fun install_networks :: "string \<Rightarrow> string \<Rightarrow> string \<Rightarrow> (string \<times> bool) list \<Rightarrow> bool \<times> os_command list" where
  "install_networks via4 via6 interface_name [] = (True, [])"
| "install_networks via4 via6 interface_name ((network, is_ipv6) # networks) =
     (let (success, run) = (if is_ipv6 then AddIPv6RouteToSystem network via6 interface_name
                            else AddIPv4RouteToSystem network via4 interface_name);
          (all_success, more) = install_networks via4 via6 interface_name networks in
      (success \<and> all_success, run @ more))"

definition AddExcludeNetworks :: "string list \<Rightarrow> route_manager \<Rightarrow> bool \<times> route_manager \<times> os_command list" where
  "AddExcludeNetworks networks m =
     (let (networks_to_add, m) = register_networks kExcludeFromVpn networks m in
      if networks_to_add = [] then (True, m, [])
      else let interface_name = (if rm_interface m \<noteq> [] then rm_interface m else out_interface_name (rm_config m));
               (all_success, run) = install_networks (ip_str (gateway_ipv4 (rm_config m)))
                 (ip_str (gateway_ipv6 (rm_config m))) interface_name networks_to_add in
        (all_success, m, run))"

definition AddIncludeNetworks :: "string list \<Rightarrow> route_manager \<Rightarrow> bool \<times> route_manager \<times> os_command list" where
  "AddIncludeNetworks networks m =
     (let (networks_to_add, m) = register_networks kIncludeInVpn networks m in
      if networks_to_add = [] then (True, m, [])
      else let (all_success, run) = install_networks (ip_str (tun_interface_address_ipv4 (rm_config m)))
                 (ip_str (tun_interface_address_ipv6 (rm_config m))) (rm_tun m) networks_to_add in
        (all_success, m, run))"

section \<open>Apply\<close>

definition any_rule :: "string \<Rightarrow> string \<Rightarrow> fw_rule" where
  "any_rule chain target =
     \<lparr>fw_v6 = False, fw_table = None, fw_chain = chain, fw_in = None, fw_out = None, fw_src = None, fw_dst = None,
      fw_proto = None, fw_sport = None, fw_dport = None, fw_state = None, fw_target = target\<rparr>"

definition from_port :: "bool \<Rightarrow> string \<Rightarrow> string \<Rightarrow> string \<Rightarrow> fw_rule" where
  "from_port v6 dev proto port = (any_rule ''OUTPUT'' ''ACCEPT'')
     \<lparr>fw_v6 := v6, fw_out := Some dev, fw_proto := Some proto, fw_sport := Some port\<rparr>"

definition block_port :: "bool \<Rightarrow> string \<Rightarrow> string \<Rightarrow> string \<Rightarrow> fw_rule" where
  "block_port v6 dev proto port = (any_rule ''OUTPUT'' ''DROP'')
     \<lparr>fw_v6 := v6, fw_out := Some dev, fw_proto := Some proto, fw_dport := Some port\<rparr>"

definition allow_dns_to :: "string \<Rightarrow> string \<Rightarrow> fw_rule" where
  "allow_dns_to dst proto = (any_rule ''OUTPUT'' ''ACCEPT'')\<lparr>fw_dst := Some dst, fw_proto := Some proto, fw_dport := Some ''53''\<rparr>"

definition masquerade :: "string \<Rightarrow> fw_rule" where
  "masquerade out = (any_rule ''POSTROUTING'' ''MASQUERADE'')\<lparr>fw_table := Some ''nat'', fw_out := Some out\<rparr>"

definition forward_back :: "string \<Rightarrow> string \<Rightarrow> fw_rule" where
  "forward_back out tun = (any_rule ''FORWARD'' ''ACCEPT'')
     \<lparr>fw_in := Some out, fw_out := Some tun, fw_state := Some ''RELATED,ESTABLISHED''\<rparr>"

definition forward_out :: "string \<Rightarrow> string \<Rightarrow> fw_rule" where
  "forward_out out tun = (any_rule ''FORWARD'' ''ACCEPT'')\<lparr>fw_in := Some tun, fw_out := Some out\<rparr>"

definition to_server :: "string \<Rightarrow> string \<Rightarrow> fw_rule" where
  "to_server out server = (any_rule ''OUTPUT'' ''ACCEPT'')\<lparr>fw_out := Some out, fw_dst := Some server\<rparr>"

definition from_server :: "string \<Rightarrow> string \<Rightarrow> fw_rule" where
  "from_server out server = (any_rule ''INPUT'' ''ACCEPT'')\<lparr>fw_in := Some out, fw_src := Some server\<rparr>"

definition bash_c :: "string \<Rightarrow> string" where
  "bash_c s = ''bash -c '' @ dq @ s @ dq"

definition add_nameserver :: "string \<Rightarrow> string" where
  "add_nameserver ip = ''grep -q '' @ sq @ ''^nameserver '' @ ip @ ''$'' @ sq @ '' /etc/resolv.conf || sed -i ''
     @ sq @ ''1i nameserver '' @ ip @ sq @ '' /etc/resolv.conf''"

definition drop_nameserver :: "string \<Rightarrow> string" where
  "drop_nameserver ip = ''sed -i '' @ sq @ ''/^nameserver '' @ ip @ ''$/d'' @ sq @ '' /etc/resolv.conf''"

text \<open>What \<open>Apply\<close> finds out before its first command.\<close>

definition detect :: "route_env \<Rightarrow> route_manager \<Rightarrow> route_manager" where
  "detect env m =
     (let config = rm_config m in m
        \<lparr>rm_interface := (if out_interface_name config \<noteq> [] then out_interface_name config
           else if rm_interface m = [] then GetDefaultNetworkInterfaceName env else rm_interface m),
         rm_gateway4 := (if \<not> IPAddress_IsEmpty (gateway_ipv4 config) then gateway_ipv4 config
           else if IPAddress_IsEmpty (rm_gateway4 m) then GetDefaultGatewayIPAddress env else rm_gateway4 m),
         rm_gateway6 := (if \<not> IPAddress_IsEmpty (gateway_ipv6 config) then gateway_ipv6 config
           else if IPAddress_IsEmpty (rm_gateway6 m) then GetDefaultGatewayIPv6Address env else rm_gateway6 m)\<rparr>)"

definition apply_commands :: "route_manager \<Rightarrow> os_command list" where
  "apply_commands m =
     (let config = rm_config m; out = rm_interface m; tun = rm_tun m; server = ip_str (vpn_server_ip config);
          dns4 = ip_str (dns_server_ipv4 config); dns6 = ip_str (dns_server_ipv6 config);
          custom_dns = ip_str (custom_dns_ipv4 config);
          resolvectl_dns4 = (if IPv4Address_IsValid (custom_dns_ipv4 config) then custom_dns @ '' '' @ dns4 else dns4) in
      [Shell ''systemctl start sysctl'',
       Shell ''sysctl -w net.ipv4.ip_forward=1'',
       Shell ''sysctl -w net.ipv6.conf.default.disable_ipv6=0'',
       Shell ''sysctl -w net.ipv6.conf.all.disable_ipv6=0'',
       Shell ''sysctl -w net.ipv6.conf.lo.disable_ipv6=0'',
       Shell ''sysctl -w net.ipv6.conf.all.forward=1'',
       Shell ''sysctl -p'',
       RuleAppend (masquerade out),
       RuleAppend (forward_back out tun),
       RuleAppend (forward_out out tun),
       RuleAppend (to_server out server),
       RuleAppend (from_server out server),
       RouteReplace False ''default'' None tun '' scope link'',
       RouteAdd False dns4 None tun,
       RouteAdd True dns6 None tun,
       RouteAdd True ''default'' (Some dns6) tun,
       RouteAdd False server (Some (ip_str (rm_gateway4 m))) out,
       RuleAppend (from_port False tun ''udp'' ''53''), RuleAppend (from_port False tun ''tcp'' ''53''),
       RuleAppend (from_port True tun ''udp'' ''53''), RuleAppend (from_port True tun ''tcp'' ''53''),
       RuleAppend (block_port False out ''udp'' ''53''), RuleAppend (block_port False out ''tcp'' ''53''),
       RuleAppend (block_port True out ''udp'' ''53''), RuleAppend (block_port True out ''tcp'' ''53''),
       RuleAppend (block_port False out ''udp'' ''853''), RuleAppend (block_port False out ''tcp'' ''853''),
       RuleAppend (block_port True out ''udp'' ''853''), RuleAppend (block_port True out ''tcp'' ''853''),
       RuleAppend (allow_dns_to dns4 ''udp''), RuleAppend (allow_dns_to dns4 ''tcp''),
       Shell ''resolvectl resolv-conf false'',
       Shell (''resolvectl dns '' @ out @ '' '' @ resolvectl_dns4),
       Shell (''resolvectl default-route '' @ out @ '' false''),
       Shell (''resolvectl dns '' @ tun @ '' '' @ resolvectl_dns4),
       Shell (''resolvectl default-route '' @ tun @ '' true''),
       Shell (''resolvectl domain '' @ tun @ '' ~.''),
       Shell (bash_c ''test -e /etc/resolv.conf.fptn-backup || cp -f /etc/resolv.conf /etc/resolv.conf.fptn-backup''),
       Shell (bash_c ''chattr -i /etc/resolv.conf''),
       Shell (bash_c (add_nameserver dns6)),
       Shell (bash_c (add_nameserver dns4)),
       Shell (bash_c ''chattr +i /etc/resolv.conf''),
       Shell ''resolvectl flush-caches''] @
      (if IPv4Address_IsValid (custom_dns_ipv4 config) then
        [RouteAdd False custom_dns None tun,
         RuleAppend (allow_dns_to custom_dns ''udp''), RuleAppend (allow_dns_to custom_dns ''tcp''),
         Shell (bash_c (''chattr -i /etc/resolv.conf; '' @ add_nameserver custom_dns @ ''; chattr +i /etc/resolv.conf''))]
       else []))"

definition RouteManager_Apply :: "route_env \<Rightarrow> string \<Rightarrow> route_manager \<Rightarrow> bool \<times> route_manager \<times> os_command list" where
  "RouteManager_Apply env tun_name m =
     (if rm_running m then (False, m, [])
      else let m = detect env (m\<lparr>rm_tun := tun_name, rm_running := True\<rparr>);
               m = m\<lparr>rm_original_dns := GetLinuxDnsServers env (rm_interface m)\<rparr>;
               commands = apply_commands m;
               (excluded, m, run) = AddExcludeNetworks (exclude_networks (rm_config m)) m in
        if excluded then
          (let (status, m, run') = AddIncludeNetworks (include_networks (rm_config m)) m in
           (status, m, commands @ run @ run'))
        else (False, m, commands @ run))"

section \<open>Clean\<close>

text \<open>The sets are hash sets: the order they are walked in, \<open>order\<close>, is the library's.\<close>

definition remove_dns4 :: "route_env \<Rightarrow> route_manager \<Rightarrow> route_entry \<Rightarrow> os_command" where
  "remove_dns4 env m e = BuildRemoveIPv4RouteCommand (destination e) (ip_str (gateway_ipv4 (rm_config m)))
     (case policy e of kExcludeFromVpn \<Rightarrow> outside_interface env m | kIncludeInVpn \<Rightarrow> rm_tun m)"

definition remove_dns6 :: "route_env \<Rightarrow> route_manager \<Rightarrow> route_entry \<Rightarrow> os_command" where
  "remove_dns6 env m e = BuildRemoveIPv6RouteCommand (destination e) (ip_str (gateway_ipv6 (rm_config m)))
     (case policy e of kExcludeFromVpn \<Rightarrow> outside_interface env m | kIncludeInVpn \<Rightarrow> rm_tun m)"

definition remove_add4 :: "route_manager \<Rightarrow> route_entry \<Rightarrow> os_command" where
  "remove_add4 m e = (case policy e of
       kExcludeFromVpn \<Rightarrow> BuildRemoveIPv4RouteCommand (destination e) (ip_str (gateway_ipv4 (rm_config m)))
         (out_interface_name (rm_config m))
     | kIncludeInVpn \<Rightarrow> BuildRemoveIPv4RouteCommand (destination e)
         (ip_str (tun_interface_address_ipv4 (rm_config m))) (rm_tun m))"

definition remove_add6 :: "route_manager \<Rightarrow> route_entry \<Rightarrow> os_command" where
  "remove_add6 m e = (case policy e of
       kExcludeFromVpn \<Rightarrow> BuildRemoveIPv6RouteCommand (destination e) (ip_str (gateway_ipv6 (rm_config m)))
         (out_interface_name (rm_config m))
     | kIncludeInVpn \<Rightarrow> BuildRemoveIPv6RouteCommand (destination e)
         (ip_str (tun_interface_address_ipv6 (rm_config m))) (rm_tun m))"

definition del_commands :: "route_env \<Rightarrow> (route_entry list \<Rightarrow> route_entry list) \<Rightarrow> route_manager \<Rightarrow> os_command list" where
  "del_commands env order m =
     map (remove_dns4 env m) (order (rm_dns4 m)) @ map (remove_dns6 env m) (order (rm_dns6 m)) @
     map (remove_add4 m) (order (rm_add4 m)) @ map (remove_add6 m) (order (rm_add6 m))"

definition clean_commands :: "route_manager \<Rightarrow> os_command list" where
  "clean_commands m =
     (let config = rm_config m; out = rm_interface m; tun = rm_tun m; server = ip_str (vpn_server_ip config);
          dns4 = ip_str (dns_server_ipv4 config); dns6 = ip_str (dns_server_ipv6 config);
          custom_dns = ip_str (custom_dns_ipv4 config) in
      [RuleDelete (masquerade out),
       RuleDelete (forward_back out tun),
       RuleDelete (forward_out out tun),
       RuleDelete (to_server out server),
       RuleDelete (from_server out server),
       RouteReplace False ''default'' (Some (ip_str (rm_gateway4 m))) out [],
       RouteDel False server (Some (ip_str (rm_gateway4 m))) out,
       RouteDel False dns4 None tun,
       Shell (bash_c (''chattr -i /etc/resolv.conf; '' @ drop_nameserver dns4 @ ''; '' @ drop_nameserver dns6
         @ ''; rm -f /etc/resolv.conf.fptn-backup'')),
       RuleDelete (allow_dns_to dns4 ''udp''), RuleDelete (allow_dns_to dns4 ''tcp''),
       RuleDelete (block_port False out ''udp'' ''53''), RuleDelete (block_port False out ''tcp'' ''53''),
       RuleDelete (block_port False out ''udp'' ''853''), RuleDelete (block_port False out ''tcp'' ''853''),
       RuleDelete (block_port True out ''udp'' ''53''), RuleDelete (block_port True out ''tcp'' ''53''),
       RuleDelete (block_port True out ''udp'' ''853''), RuleDelete (block_port True out ''tcp'' ''853''),
       RuleDelete (from_port False tun ''udp'' ''53''), RuleDelete (from_port False tun ''tcp'' ''53''),
       RuleDelete (from_port True tun ''udp'' ''53''), RuleDelete (from_port True tun ''tcp'' ''53'')] @
      (if IPv4Address_IsValid (custom_dns_ipv4 config) then
        [RouteDel False custom_dns None tun,
         RuleDelete (allow_dns_to custom_dns ''udp''), RuleDelete (allow_dns_to custom_dns ''tcp''),
         Shell (bash_c (''chattr -i /etc/resolv.conf; '' @ drop_nameserver custom_dns))]
       else []) @
      (if \<not> IPAddress_IsEmpty (rm_gateway6 m) then
        [RouteDel True dns6 None tun,
         RouteDel True ''default'' (Some dns6) tun,
         RouteReplace True ''default'' (Some (ip_str (rm_gateway6 m))) out []]
       else []) @
      (if rm_original_dns m \<noteq> [] then
        [Shell (''resolvectl dns '' @ out @ '' '' @
           foldl (\<lambda>all_dns dns. (if all_dns \<noteq> [] then all_dns @ '' '' else all_dns) @ dns) [] (rm_original_dns m)),
         Shell (''resolvectl domain '' @ out @ '' .''),
         Shell (''resolvectl default-route '' @ out @ '' true'')]
       else [Shell (''resolvectl revert '' @ out)]) @
      [Shell ''resolvectl flush-caches''])"

text \<open>The commands in their order; the first ones are run in batches of \<open>run_batch (map command_text \<dots>)\<close>.\<close>

definition RouteManager_Clean ::
    "route_env \<Rightarrow> (route_entry list \<Rightarrow> route_entry list) \<Rightarrow> route_manager \<Rightarrow> bool \<times> route_manager \<times> os_command list" where
  "RouteManager_Clean env order m =
     (if \<not> rm_running m then (True, m, [])
      else (True, m\<lparr>rm_running := False, rm_dns4 := [], rm_dns6 := [], rm_add4 := [], rm_add6 := []\<rparr>,
            del_commands env order m @ clean_commands m))"

definition clean_shell_calls ::
    "route_env \<Rightarrow> (route_entry list \<Rightarrow> route_entry list) \<Rightarrow> route_manager \<Rightarrow> string list" where
  "clean_shell_calls env order m =
     (if \<not> rm_running m then []
      else run_batch (map command_text (del_commands env order m)) @ map command_text (clean_commands m))"

definition RouteManager_destroy ::
    "route_env \<Rightarrow> (route_entry list \<Rightarrow> route_entry list) \<Rightarrow> route_manager \<Rightarrow> os_command list" where
  "RouteManager_destroy env order m = (if rm_running m then snd (snd (RouteManager_Clean env order m)) else [])"

end
