(* ===== verification/RouteProps.thy ===== *)
theory RouteProps
  imports Routes "HOL-Library.Multiset"
begin

text \<open>
  What the routing of the client promises. The commands run so far are read as an account: the firewall rules
  that were appended and not yet deleted, and the routes that were added and not yet removed with the same
  destination, gateway and device. The operations of the manager, with the DNS routes in their two parts (the
  entries are registered under the lock, the routes are installed after it), are the steps of a relation, and
  the theorems say what is left in the account after \<open>Clean\<close>.
\<close>

section \<open>Batches\<close>

fun join_commands :: "string list \<Rightarrow> string" where
  "join_commands [] = []"
| "join_commands [c] = c"
| "join_commands (c # cs) = c @ '' ; '' @ join_commands cs"

function chunks :: "nat \<Rightarrow> 'a list \<Rightarrow> 'a list list" where
  "chunks n xs = (if n = 0 \<or> xs = [] then [] else take n xs # chunks n (drop n xs))"
  by pat_completeness auto
termination by (relation "measure (\<lambda>(n, xs). length xs)") auto

declare chunks.simps [simp del]

lemma chunks_small: "xs \<noteq> [] \<Longrightarrow> length xs \<le> n \<Longrightarrow> chunks n xs = [xs]"
  using chunks.simps [of n xs] chunks.simps [of n "[]"] by (cases xs) auto

lemma chunks_Nil [simp]: "chunks n [] = []"
  by (simp add: chunks.simps)

lemma chunks_append: "length xs = n \<Longrightarrow> xs \<noteq> [] \<Longrightarrow> chunks n (xs @ ys) = xs # chunks n ys"
  using chunks.simps [of n "xs @ ys"] by (cases xs) auto

lemma join_commands_snoc:
  "cs \<noteq> [] \<Longrightarrow> join_commands (cs @ [c]) = join_commands cs @ '' ; '' @ c"
  by (induction cs rule: join_commands.induct) auto

lemma join_commands_empty: "\<forall>c \<in> set cs. c \<noteq> [] \<Longrightarrow> join_commands cs = [] \<longleftrightarrow> cs = []"
  by (cases cs rule: join_commands.cases) auto

lemma batch_loop_chunks:
  "\<forall>c \<in> set cs. c \<noteq> [] \<Longrightarrow> length cs < kChunkSize \<Longrightarrow>
   batch_loop (join_commands cs) (length cs) commands =
     map (\<lambda>c. sh_c (join_commands c)) (chunks kChunkSize (cs @ filter (\<lambda>c. c \<noteq> []) commands))"
proof (induction commands arbitrary: cs)
  case Nil
  then show ?case by (auto simp: join_commands_empty chunks_small)
next
  case (Cons cmd commands)
  show ?case
  proof (cases "cmd = []")
    case True
    then show ?thesis using Cons by simp
  next
    case False
    let ?cs = "cs @ [cmd]"
    have joined: "(if join_commands cs \<noteq> [] then join_commands cs @ '' ; '' else join_commands cs) @ cmd = join_commands ?cs"
      using Cons.prems(1) by (auto simp: join_commands_empty join_commands_snoc)
    have ne: "\<forall>c \<in> set ?cs. c \<noteq> []" using Cons.prems(1) False by auto
    then have ne': "join_commands ?cs \<noteq> []" by (simp add: join_commands_empty)
    show ?thesis
    proof (cases "length ?cs < kChunkSize")
      case True
      then show ?thesis
        using Cons.IH [OF ne True] False ne' by (simp add: joined Let_def del: append_assoc) simp
    next
      case full: False
      then have "length ?cs = kChunkSize" using Cons.prems(2) by simp
      then have "chunks kChunkSize (?cs @ filter (\<lambda>c. c \<noteq> []) commands) = ?cs # chunks kChunkSize (filter (\<lambda>c. c \<noteq> []) commands)"
        by (rule chunks_append) simp
      moreover have "batch_loop [] 0 commands = map (\<lambda>c. sh_c (join_commands c)) (chunks kChunkSize (filter (\<lambda>c. c \<noteq> []) commands))"
        using Cons.IH [of "[]"] by (simp add: kChunkSize_def)
      ultimately show ?thesis
        using False full ne' by (simp add: joined Let_def del: append_assoc) simp
    qed
  qed
qed

text \<open>\<open>run_batch\<close> drops the empty commands, cuts the others into groups of one hundred in their order and
  runs each group as one shell call with the commands separated by semicolons.
\<close>

theorem batches_of_commands:
  "run_batch commands = map (\<lambda>c. sh_c (join_commands c)) (chunks kChunkSize (filter (\<lambda>c. c \<noteq> []) commands))"
  using batch_loop_chunks [of "[]" commands] by (simp add: run_batch_def kChunkSize_def)

section \<open>The account\<close>

type_synonym route = "bool \<times> string \<times> string option \<times> string"

fun rule_account :: "os_command \<Rightarrow> fw_rule multiset \<Rightarrow> fw_rule multiset" where
  "rule_account (RuleAppend r) rs = add_mset r rs"
| "rule_account (RuleDelete r) rs = rs - {#r#}"
| "rule_account _ rs = rs"

fun route_account :: "os_command \<Rightarrow> route set \<Rightarrow> route set" where
  "route_account (RouteAdd v6 d via dev) rs = insert (v6, d, via, dev) rs"
| "route_account (RouteAddQuoted v6 d via dev) rs = insert (v6, d, Some via, dev) rs"
| "route_account (RouteDel v6 d via dev) rs = rs - {(v6, d, via, dev)}"
| "route_account _ rs = rs"

definition owed_rules :: "os_command list \<Rightarrow> fw_rule multiset" where
  "owed_rules log = fold rule_account log {#}"

definition owed_routes :: "os_command list \<Rightarrow> route set" where
  "owed_routes log = fold route_account log {}"

fun appended :: "os_command list \<Rightarrow> fw_rule list" where
  "appended [] = []"
| "appended (RuleAppend r # cs) = r # appended cs"
| "appended (_ # cs) = appended cs"

fun deleted :: "os_command list \<Rightarrow> fw_rule list" where
  "deleted [] = []"
| "deleted (RuleDelete r # cs) = r # deleted cs"
| "deleted (_ # cs) = deleted cs"

fun added_routes :: "os_command list \<Rightarrow> route set" where
  "added_routes [] = {}"
| "added_routes (RouteAdd v6 d via dev # cs) = insert (v6, d, via, dev) (added_routes cs)"
| "added_routes (RouteAddQuoted v6 d via dev # cs) = insert (v6, d, Some via, dev) (added_routes cs)"
| "added_routes (_ # cs) = added_routes cs"

fun removed_routes :: "os_command list \<Rightarrow> route set" where
  "removed_routes [] = {}"
| "removed_routes (RouteDel v6 d via dev # cs) = insert (v6, d, via, dev) (removed_routes cs)"
| "removed_routes (_ # cs) = removed_routes cs"

lemma appended_append [simp]: "appended (xs @ ys) = appended xs @ appended ys"
  by (induction xs rule: appended.induct) auto

lemma deleted_append [simp]: "deleted (xs @ ys) = deleted xs @ deleted ys"
  by (induction xs rule: deleted.induct) auto

lemma added_routes_append [simp]: "added_routes (xs @ ys) = added_routes xs \<union> added_routes ys"
  by (induction xs rule: added_routes.induct) auto

lemma removed_routes_append [simp]: "removed_routes (xs @ ys) = removed_routes xs \<union> removed_routes ys"
  by (induction xs rule: removed_routes.induct) auto

lemma fold_rules_only_appended: "deleted cs = [] \<Longrightarrow> fold rule_account cs rs = rs + mset (appended cs)"
  by (induction cs arbitrary: rs rule: appended.induct) auto

lemma fold_rules_only_deleted: "appended cs = [] \<Longrightarrow> fold rule_account cs rs = rs - mset (deleted cs)"
  by (induction cs arbitrary: rs rule: deleted.induct) auto

lemma fold_routes_only_added: "removed_routes cs = {} \<Longrightarrow> fold route_account cs rs = rs \<union> added_routes cs"
  by (induction cs arbitrary: rs rule: added_routes.induct) auto

lemma fold_routes_only_removed: "added_routes cs = {} \<Longrightarrow> fold route_account cs rs = rs - removed_routes cs"
  by (induction cs arbitrary: rs rule: removed_routes.induct) auto

lemma owed_rules_append: "owed_rules (xs @ ys) = fold rule_account ys (owed_rules xs)"
  by (simp add: owed_rules_def)

lemma owed_routes_append: "owed_routes (xs @ ys) = fold route_account ys (owed_routes xs)"
  by (simp add: owed_routes_def)

lemma owed_rules_Nil [simp]: "owed_rules [] = {#}"
  by (simp add: owed_rules_def)

lemma owed_routes_Nil [simp]: "owed_routes [] = {}"
  by (simp add: owed_routes_def)

section \<open>What each operation asks for\<close>

lemmas fw_rules = masquerade_def forward_back_def forward_out_def to_server_def from_server_def from_port_def
  block_port_def allow_dns_to_def any_rule_def

lemma apply_commands_deletes_nothing [simp]: "deleted (apply_commands m) = []" "removed_routes (apply_commands m) = {}"
  by (simp_all add: apply_commands_def Let_def)

lemma clean_commands_adds_nothing [simp]: "appended (clean_commands m) = []" "added_routes (clean_commands m) = {}"
  by (simp_all add: clean_commands_def Let_def)

lemma clean_deletes_the_rules: "mset (deleted (clean_commands m)) = mset (appended (apply_commands m))"
  by (simp add: clean_commands_def apply_commands_def Let_def)

lemma apply_commands_cong:
  "rm_config m' = rm_config m \<Longrightarrow> rm_interface m' = rm_interface m \<Longrightarrow> rm_tun m' = rm_tun m \<Longrightarrow>
   rm_gateway4 m' = rm_gateway4 m \<Longrightarrow> apply_commands m' = apply_commands m"
  by (simp add: apply_commands_def)

lemma install_networks_run:
  "snd (install_networks v4 v6 i ns) = map (\<lambda>(n, six). RouteAddQuoted six n (if six then v6 else v4) i) ns"
  by (induction ns) (auto simp: AddIPv4RouteToSystem_def AddIPv6RouteToSystem_def split: prod.splits)

lemma install_networks_status [simp]: "fst (install_networks v4 v6 i ns) = True"
  by (induction ns) (auto simp: AddIPv4RouteToSystem_def AddIPv6RouteToSystem_def split: prod.splits)

lemma install_networks_eq:
  "install_networks v4 v6 i ns = (True, map (\<lambda>(n, six). RouteAddQuoted six n (if six then v6 else v4) i) ns)"
  by (simp add: prod_eq_iff install_networks_run)

lemma quoted_adds:
  "appended (map (\<lambda>(n, six). RouteAddQuoted six n (g six) i) ns) = []"
  "deleted (map (\<lambda>(n, six). RouteAddQuoted six n (g six) i) ns) = []"
  "removed_routes (map (\<lambda>(n, six). RouteAddQuoted six n (g six) i) ns) = {}"
  "added_routes (map (\<lambda>(n, six). RouteAddQuoted six n (g six) i) ns) = (\<lambda>(n, six). (six, n, Some (g six), i)) ` set ns"
  by (induction ns) auto

definition entries6 :: "bool \<Rightarrow> route_manager \<Rightarrow> route_entry set" where
  "entries6 six m = (if six then set (rm_add6 m) else set (rm_add4 m))"

lemma register_networks_entries:
  "register_networks pol ns m = (added, m') \<Longrightarrow>
   entries6 six m' = entries6 six m \<union> (\<lambda>(n, _). \<lparr>destination = n, policy = pol\<rparr>) ` {(n, s) \<in> set added. s = six}"
proof (induction pol ns m arbitrary: added rule: register_networks.induct)
  case (2 pol n ns m)
  show ?case
  proof (cases "n = [] \<or> \<lparr>destination = n, policy = pol\<rparr> \<in> entries6 (is_ipv6_network n) m")
    case True
    then have "register_networks pol ns m = (added, m')"
      using 2 by (auto simp: Let_def entries6_def split: if_splits)
    then show ?thesis
      using True 2 by (cases "n = []") (auto simp: Let_def entries6_def split: if_splits)
  next
    case new: False
    then show ?thesis
      using 2 by (cases "is_ipv6_network n") (fastforce simp: Let_def entries6_def split: if_splits prod.splits)+
  qed
qed simp

section \<open>A concrete machine\<close>

definition demo_ip :: "string \<Rightarrow> ip_address" where
  "demo_ip s = \<lparr>ip_str = s, ip_impl = V4 1\<rparr>"

definition demo_route_config :: "string \<Rightarrow> string list \<Rightarrow> route_config" where
  "demo_route_config out networks =
     \<lparr>out_interface_name = out, tun_interface_address_ipv4 = demo_ip ''10.10.0.1'',
      tun_interface_address_ipv6 = demo_ip ''fd00::1'', vpn_server_ip = demo_ip ''203.0.113.7'',
      dns_server_ipv4 = demo_ip ''172.20.0.1'', dns_server_ipv6 = demo_ip ''fd00::53'',
      custom_dns_ipv4 = IPAddress_empty, gateway_ipv4 = demo_ip ''192.168.1.1'', gateway_ipv6 = demo_ip ''fe80::1'',
      exclude_networks = networks, include_networks = []\<rparr>"

definition demo_session :: route_manager where
  "demo_session = (RouteManager_new (demo_route_config ''eth0'' []))\<lparr>rm_running := True, rm_tun := ''tun0'', rm_interface := ''eth0''\<rparr>"

definition demo_route_env :: route_env where
  "demo_route_env = \<lparr>re_lib = demo_lib, re_interface_lines = [''eth0''], re_gateway4_lines = [''192.168.1.1''],
     re_gateway6_lines = [], re_dns_lines = (\<lambda>_. [''9.9.9.9 1.1.1.1'']), re_resolve = (\<lambda>_. None)\<rparr>"

section \<open>The operations interleaved\<close>

text \<open>
  The state is the manager, the calls of \<open>AddDnsRoutesIPv4\<close> and \<open>AddDnsRoutesIPv6\<close> that are in their
  second part (the family, the entries left, the gateway and the interface), and the commands run so far. In a
  \<open>calm\<close> run, \<open>Clean\<close> comes when no such call is under way. The client asks for DNS routes only after the
  first \<open>Apply\<close>, with the name of its own device.
\<close>

record route_world =
  w_m :: route_manager
  w_installs :: "(bool \<times> route_entry list \<times> string \<times> string) list"
  w_log :: "os_command list"

inductive rt_reach :: "bool \<Rightarrow> route_config \<Rightarrow> string \<Rightarrow> route_world \<Rightarrow> bool" for calm cfg tun where
  start: "rt_reach calm cfg tun \<lparr>w_m = RouteManager_new cfg, w_installs = [], w_log = []\<rparr>"
| applied: "rt_reach calm cfg tun w \<Longrightarrow> RouteManager_Apply env tun (w_m w) = (st, m, run) \<Longrightarrow>
    rt_reach calm cfg tun (w\<lparr>w_m := m, w_log := w_log w @ run\<rparr>)"
| cleaned: "rt_reach calm cfg tun w \<Longrightarrow> (calm \<longrightarrow> w_installs w = []) \<Longrightarrow> (\<And>xs. mset (order xs) = mset xs) \<Longrightarrow>
    RouteManager_Clean env order (w_m w) = (st, m, run) \<Longrightarrow>
    rt_reach calm cfg tun (w\<lparr>w_m := m, w_log := w_log w @ run\<rparr>)"
| dns4: "rt_reach calm cfg tun w \<Longrightarrow> rm_tun (w_m w) = tun \<Longrightarrow> dns_way4 env (w_m w) pol = (i, g) \<Longrightarrow> i \<noteq> [] \<Longrightarrow>
    register_entries ips pol (rm_dns4 (w_m w)) = (es, entries) \<Longrightarrow>
    rt_reach calm cfg tun (w\<lparr>w_m := (w_m w)\<lparr>rm_dns4 := entries\<rparr>,
      w_installs := (if es = [] then w_installs w else w_installs w @ [(False, es, g, i)])\<rparr>)"
| dns6: "rt_reach calm cfg tun w \<Longrightarrow> rm_tun (w_m w) = tun \<Longrightarrow> dns_way6 env (w_m w) pol = (i, g) \<Longrightarrow> i \<noteq> [] \<Longrightarrow> g \<noteq> [] \<Longrightarrow>
    register_entries ips pol (rm_dns6 (w_m w)) = (es, entries) \<Longrightarrow>
    rt_reach calm cfg tun (w\<lparr>w_m := (w_m w)\<lparr>rm_dns6 := entries\<rparr>,
      w_installs := (if es = [] then w_installs w else w_installs w @ [(True, es, g, i)])\<rparr>)"
| installed: "rt_reach calm cfg tun w \<Longrightarrow> w_installs w = before @ (six, e # es, g, i) # after \<Longrightarrow>
    rt_reach calm cfg tun (w\<lparr>w_installs := before @ (if es = [] then [] else [(six, es, g, i)]) @ after,
      w_log := w_log w @ [RouteAddQuoted six (destination e) g i]\<rparr>)"

text \<open>The atomic operation is its two parts in a row.\<close>

lemma install_dns4_eq:
  "install_dns4 es g i m = (True, m, map (\<lambda>e. RouteAddQuoted False (destination e) g i) es)"
  by (induction es) (auto simp: AddIPv4RouteToSystem_def)

lemma install_dns6_eq:
  "install_dns6 es g i = (True, map (\<lambda>e. RouteAddQuoted True (destination e) g i) es)"
  by (induction es) (auto simp: AddIPv6RouteToSystem_def)

lemma dns_installed:
  assumes "rt_reach calm cfg tun w" "w_installs w = ps @ [(six, es, g, i)]" "es \<noteq> []"
  shows "rt_reach calm cfg tun (w\<lparr>w_installs := ps, w_log := w_log w @ map (\<lambda>e. RouteAddQuoted six (destination e) g i) es\<rparr>)"
  using assms
proof (induction es arbitrary: w)
  case (Cons e es)
  note one = rt_reach.installed [OF Cons.prems(1), of ps six e es g i "[]"]
  show ?case
  proof (cases "es = []")
    case True
    then show ?thesis using one Cons.prems(2) by simp
  next
    case False
    then show ?thesis
      using Cons.IH [OF one [simplified False if_False]] Cons.prems(2) by simp
  qed
qed simp

lemma AddDnsRoutesIPv4_reach:
  assumes "rt_reach calm cfg tun w" "rm_tun (w_m w) = tun"
    and op: "RouteManager_AddDnsRoutesIPv4 env ips pol (w_m w) = (st, m, run)"
  shows "rt_reach calm cfg tun (w\<lparr>w_m := m, w_log := w_log w @ run\<rparr>)"
proof -
  obtain i g where way: "dns_way4 env (w_m w) pol = (i, g)" by fastforce
  obtain es entries where reg: "register_entries ips pol (rm_dns4 (w_m w)) = (es, entries)" by fastforce
  show ?thesis
  proof (cases "i = []")
    case True
    then have "w\<lparr>w_m := m, w_log := w_log w @ run\<rparr> = w"
      using op way by (simp add: RouteManager_AddDnsRoutesIPv4_def)
    then show ?thesis using assms(1) by simp
  next
    case False
    note registered = rt_reach.dns4 [OF assms(1,2) way False reg]
    show ?thesis
    proof (cases "es = []")
      case True
      then show ?thesis
        using op way reg registered False by (auto simp: RouteManager_AddDnsRoutesIPv4_def)
    next
      case es: False
      then show ?thesis
        using op way reg False dns_installed [OF registered, of "w_installs w" False es g i]
        by (auto simp: RouteManager_AddDnsRoutesIPv4_def install_dns4_eq)
    qed
  qed
qed

section \<open>Apply and Clean on the account\<close>

definition same_session :: "route_manager \<Rightarrow> route_manager \<Rightarrow> bool" where
  "same_session m m' \<longleftrightarrow> rm_running m' = rm_running m \<and> rm_config m' = rm_config m \<and> rm_interface m' = rm_interface m \<and>
     rm_tun m' = rm_tun m \<and> rm_gateway4 m' = rm_gateway4 m \<and> rm_gateway6 m' = rm_gateway6 m \<and>
     rm_dns4 m' = rm_dns4 m \<and> rm_dns6 m' = rm_dns6 m"

lemma same_session_refl [simp]: "same_session m m"
  by (simp add: same_session_def)

lemma same_session_networks: "same_session m (m\<lparr>rm_add4 := x\<rparr>)" "same_session m (m\<lparr>rm_add6 := x\<rparr>)"
  by (simp_all add: same_session_def)

lemma same_session_trans: "same_session m m' \<Longrightarrow> same_session m' m'' \<Longrightarrow> same_session m m''"
  by (simp add: same_session_def)

lemma register_networks_session: "register_networks pol ns m = (added, m') \<Longrightarrow> same_session m m'"
proof (induction pol ns m arbitrary: added rule: register_networks.induct)
  case (2 pol n ns m)
  let ?e = "\<lparr>destination = n, policy = pol\<rparr>"
  consider "register_networks pol ns m = (added, m')" "n = [] \<or> ?e \<in> entries6 (is_ipv6_network n) m"
    | added' where "n \<noteq> []" "is_ipv6_network n" "?e \<notin> set (rm_add6 m)"
        "register_networks pol ns (m\<lparr>rm_add6 := rm_add6 m @ [?e]\<rparr>) = (added', m')"
    | added' where "n \<noteq> []" "\<not> is_ipv6_network n" "?e \<notin> set (rm_add4 m)"
        "register_networks pol ns (m\<lparr>rm_add4 := rm_add4 m @ [?e]\<rparr>) = (added', m')"
    using 2(6) by (auto simp: Let_def entries6_def split: if_splits prod.splits)
  then show ?case
  proof cases
    case 1
    then show ?thesis
      using 2(1,3,5) by (cases "n = []"; cases "is_ipv6_network n") (simp_all add: entries6_def)
  next
    case 2
    then show ?thesis
      using "2.IH"(2) by (auto intro: same_session_trans [OF same_session_networks(2)])
  next
    case 3
    then show ?thesis
      using "2.IH"(4) by (auto intro: same_session_trans [OF same_session_networks(1)])
  qed
qed simp

definition network_gateway :: "route_config \<Rightarrow> bool \<Rightarrow> string" where
  "network_gateway cfg six = ip_str (if six then gateway_ipv6 cfg else gateway_ipv4 cfg)"

definition network_device :: "route_manager \<Rightarrow> string" where
  "network_device m = (if rm_interface m \<noteq> [] then rm_interface m else out_interface_name (rm_config m))"

definition adds_only :: "os_command list \<Rightarrow> bool" where
  "adds_only run \<longleftrightarrow> appended run = [] \<and> deleted run = [] \<and> removed_routes run = {}"

lemma adds_only_append [simp]: "adds_only (xs @ ys) \<longleftrightarrow> adds_only xs \<and> adds_only ys"
  by (auto simp: adds_only_def)

lemma adds_only_Nil [simp]: "adds_only []"
  by (simp add: adds_only_def)

lemma AddExcludeNetworks_run:
  assumes "AddExcludeNetworks ns m = (st, m', run)"
  shows "st" "same_session m m'" "adds_only run" "entries6 six m \<subseteq> entries6 six m'"
    and "added_routes run \<subseteq> {(six, n, via, dev). via = Some (network_gateway (rm_config m) six) \<and> dev = network_device m \<and>
           \<lparr>destination = n, policy = kExcludeFromVpn\<rparr> \<in> entries6 six m'}"
proof -
  obtain added where reg: "register_networks kExcludeFromVpn ns m = (added, m')"
    using assms by (auto simp: AddExcludeNetworks_def install_networks_eq Let_def split: prod.splits if_splits)
  note ses = register_networks_session [OF reg] and ent = register_networks_entries [OF reg]
  have run: "st" "run = map (\<lambda>(n, six). RouteAddQuoted six n (if six then ip_str (gateway_ipv6 (rm_config m'))
      else ip_str (gateway_ipv4 (rm_config m'))) (network_device m')) added"
    using assms reg by (auto simp: AddExcludeNetworks_def install_networks_eq network_device_def split: if_splits)
  show "st" "same_session m m'" "entries6 six m \<subseteq> entries6 six m'"
    using run(1) ses ent by auto
  show "adds_only run"
    unfolding run(2) adds_only_def quoted_adds by simp
  have "rm_config m' = rm_config m" "network_device m' = network_device m"
    using ses by (simp_all add: same_session_def network_device_def)
  then show "added_routes run \<subseteq> {(six, n, via, dev). via = Some (network_gateway (rm_config m) six) \<and> dev = network_device m \<and>
           \<lparr>destination = n, policy = kExcludeFromVpn\<rparr> \<in> entries6 six m'}"
    unfolding run(2) quoted_adds by (auto simp: ent network_gateway_def image_iff)
qed

lemma AddIncludeNetworks_run:
  assumes "AddIncludeNetworks ns m = (st, m', run)"
  shows "st" "same_session m m'" "adds_only run" "entries6 six m \<subseteq> entries6 six m'"
    and "added_routes run \<subseteq> {(six, n, via, dev). dev = rm_tun m}"
proof -
  obtain added where reg: "register_networks kIncludeInVpn ns m = (added, m')"
    using assms by (auto simp: AddIncludeNetworks_def install_networks_eq Let_def split: prod.splits if_splits)
  note ses = register_networks_session [OF reg] and ent = register_networks_entries [OF reg]
  have run: "st" "run = map (\<lambda>(n, six). RouteAddQuoted six n (if six then ip_str (tun_interface_address_ipv6 (rm_config m'))
      else ip_str (tun_interface_address_ipv4 (rm_config m'))) (rm_tun m')) added"
    using assms reg by (auto simp: AddIncludeNetworks_def install_networks_eq split: if_splits)
  show "st" "same_session m m'" "entries6 six m \<subseteq> entries6 six m'"
    using run(1) ses ent by auto
  show "adds_only run"
    unfolding run(2) adds_only_def quoted_adds by simp
  show "added_routes run \<subseteq> {(six, n, via, dev). dev = rm_tun m}"
    unfolding run(2) quoted_adds using ses by (auto simp: same_session_def)
qed

definition fixed_device :: "route_config \<Rightarrow> route_manager \<Rightarrow> bool" where
  "fixed_device cfg m \<longleftrightarrow> rm_config m = cfg \<and> rm_interface m = out_interface_name cfg"

lemma apply_commands_adds:
  "added_routes (apply_commands m) \<subseteq>
     insert (False, ip_str (vpn_server_ip (rm_config m)), Some (ip_str (rm_gateway4 m)), rm_interface m)
       {(six, n, via, dev). dev = rm_tun m}"
  by (auto simp: apply_commands_def Let_def)

lemma Apply_run:
  assumes op: "RouteManager_Apply env tun m = (st, m', run)" and stopped: "\<not> rm_running m"
  shows "st" "rm_running m'" "rm_config m' = rm_config m" "rm_tun m' = tun" "rm_dns4 m' = rm_dns4 m" "rm_dns6 m' = rm_dns6 m"
    and "rm_interface m' = rm_interface (detect env m)" "entries6 six m \<subseteq> entries6 six m'"
    and "\<exists>nets. run = apply_commands m' @ nets \<and> adds_only nets \<and>
      added_routes nets \<subseteq> {(six, n, via, dev). dev = tun \<or>
        via = Some (network_gateway (rm_config m) six) \<and> dev = network_device m' \<and>
        \<lparr>destination = n, policy = kExcludeFromVpn\<rparr> \<in> entries6 six m'}"
proof -
  let ?m1 = "detect env (m\<lparr>rm_tun := tun, rm_running := True\<rparr>)"
  let ?m2 = "?m1\<lparr>rm_original_dns := GetLinuxDnsServers env (rm_interface ?m1)\<rparr>"
  obtain st3 m3 run3 where ex: "AddExcludeNetworks (exclude_networks (rm_config ?m2)) ?m2 = (st3, m3, run3)"
    using prod_cases3 by blast
  obtain st4 m4 run4 where inc: "AddIncludeNetworks (include_networks (rm_config m3)) m3 = (st4, m4, run4)"
    using prod_cases3 by blast
  note X = AddExcludeNetworks_run [OF ex] and I = AddIncludeNetworks_run [OF inc]
  have eq: "st = st4" "m' = m4" "run = apply_commands ?m2 @ run3 @ run4"
    using op stopped ex inc X(1) by (auto simp: RouteManager_Apply_def Let_def)
  have same: "same_session ?m2 m'"
    using X(2) I(2) eq(2) same_session_trans by blast
  have d: "rm_running ?m2" "rm_config ?m2 = rm_config m" "rm_tun ?m2 = tun" "rm_dns4 ?m2 = rm_dns4 m" "rm_dns6 ?m2 = rm_dns6 m"
     "rm_interface ?m2 = rm_interface (detect env m)" "entries6 six ?m2 = entries6 six m"
    by (simp_all add: detect_def Let_def entries6_def)
  show "st" using eq(1) I(1) by simp
  show "rm_running m'" "rm_config m' = rm_config m" "rm_tun m' = tun" "rm_dns4 m' = rm_dns4 m" "rm_dns6 m' = rm_dns6 m"
    "rm_interface m' = rm_interface (detect env m)"
    using same d by (simp_all add: same_session_def)
  show "entries6 six m \<subseteq> entries6 six m'"
    using X(4) I(4) eq(2) d(7) by blast
  have cmds: "apply_commands ?m2 = apply_commands m'"
    by (rule apply_commands_cong) (use same in \<open>simp_all add: same_session_def\<close>)
  have dev: "network_device ?m2 = network_device m'" "rm_tun m3 = tun"
    using same X(2) d(3) by (simp_all add: same_session_def network_device_def)
  have "added_routes (run3 @ run4) \<subseteq> {(six, n, via, dev). dev = tun \<or>
        via = Some (network_gateway (rm_config m) six) \<and> dev = network_device m' \<and>
        \<lparr>destination = n, policy = kExcludeFromVpn\<rparr> \<in> entries6 six m'}"
    using X(5) I(4,5) unfolding dev d(2) eq(2) added_routes_append by blast
  then show "\<exists>nets. run = apply_commands m' @ nets \<and> adds_only nets \<and>
      added_routes nets \<subseteq> {(six, n, via, dev). dev = tun \<or>
        via = Some (network_gateway (rm_config m) six) \<and> dev = network_device m' \<and>
        \<lparr>destination = n, policy = kExcludeFromVpn\<rparr> \<in> entries6 six m'}"
    using eq(3) cmds X(3) I(3) by (intro exI [of _ "run3 @ run4"]) simp
qed

lemma Apply_running: "rm_running m \<Longrightarrow> RouteManager_Apply env tun m = (False, m, [])"
  by (simp add: RouteManager_Apply_def)

lemma del_commands_adds_nothing [simp]:
  "appended (map (remove_dns4 env m) es) = []" "appended (map (remove_dns6 env m) es) = []"
  "appended (map (remove_add4 m) es) = []" "appended (map (remove_add6 m) es) = []"
  "added_routes (map (remove_dns4 env m) es) = {}" "added_routes (map (remove_dns6 env m) es) = {}"
  "added_routes (map (remove_add4 m) es) = {}" "added_routes (map (remove_add6 m) es) = {}"
  "deleted (map (remove_dns4 env m) es) = []" "deleted (map (remove_dns6 env m) es) = []"
  "deleted (map (remove_add4 m) es) = []" "deleted (map (remove_add6 m) es) = []"
  by (induction es; simp add: remove_dns4_def remove_dns6_def remove_add4_def remove_add6_def
      BuildRemoveIPv4RouteCommand_def BuildRemoveIPv6RouteCommand_def split: routing_policy.splits)+

text \<open>The manager of a configuration, applied once.\<close>

definition demo_applied :: "string \<Rightarrow> string list \<Rightarrow> route_world" where
  "demo_applied out networks =
     (let (st, m, run) = RouteManager_Apply demo_route_env ''tun0'' (RouteManager_new (demo_route_config out networks)) in
      \<lparr>w_m = m, w_installs = [], w_log = run\<rparr>)"

lemma demo_applied_reach: "rt_reach calm (demo_route_config out networks) ''tun0'' (demo_applied out networks)"
proof -
  obtain st m run where op: "RouteManager_Apply demo_route_env ''tun0'' (RouteManager_new (demo_route_config out networks)) = (st, m, run)"
    using prod_cases3 by blast
  show ?thesis
    using rt_reach.applied [OF rt_reach.start [of calm "demo_route_config out networks" "''tun0''"], of demo_route_env st m run] op
    by (simp add: demo_applied_def)
qed

lemma demo_applied_running: "rm_running (w_m (demo_applied out networks))" "w_installs (demo_applied out networks) = []"
  "w_log (demo_applied out networks) \<noteq> []"
proof -
  obtain st m run where op: "RouteManager_Apply demo_route_env ''tun0'' (RouteManager_new (demo_route_config out networks)) = (st, m, run)"
    using prod_cases3 by blast
  have "\<not> rm_running (RouteManager_new (demo_route_config out networks))" by (simp add: RouteManager_new_def)
  note A = Apply_run [OF op this]
  show "rm_running (w_m (demo_applied out networks))" "w_installs (demo_applied out networks) = []"
    using A(2) op by (simp_all add: demo_applied_def)
  show "w_log (demo_applied out networks) \<noteq> []"
    using A(9) op by (auto simp: demo_applied_def apply_commands_def Let_def)
qed

section \<open>The firewall\<close>

definition session_rules :: "route_manager \<Rightarrow> fw_rule multiset" where
  "session_rules m = (if rm_running m then mset (appended (apply_commands m)) else {#})"

lemma session_rules_cong: "same_session m m' \<Longrightarrow> session_rules m' = session_rules m"
  using apply_commands_cong [of m' m] by (simp add: session_rules_def same_session_def)

lemma session_rules_dns [simp]:
  "session_rules (m\<lparr>rm_dns4 := x\<rparr>) = session_rules m" "session_rules (m\<lparr>rm_dns6 := x\<rparr>) = session_rules m"
  by (simp_all add: session_rules_def apply_commands_def)

text \<open>C9: In every interleaving the firewall rules appended and not deleted again are exactly those of the current
  \<open>Apply\<close>, and none when the manager is stopped: \<open>Clean\<close> takes back every rule, as often as it was set.
\<close>

theorem firewall_rules_taken_back:
  "rt_reach calm cfg tun w \<Longrightarrow> owed_rules (w_log w) = session_rules (w_m w)"
proof (induction rule: rt_reach.induct)
  case start
  then show ?case by (simp add: session_rules_def RouteManager_new_def)
next
  case (applied w env st m run)
  show ?case
  proof (cases "rm_running (w_m w)")
    case True
    then show ?thesis using applied by (simp add: Apply_running)
  next
    case False
    note A = Apply_run [OF applied.hyps(2) False]
    obtain nets where "run = apply_commands m @ nets" "adds_only nets"
      using A(9) by blast
    then show ?thesis
      using applied.IH False A(2) by (simp add: owed_rules_append fold_rules_only_appended adds_only_def session_rules_def)
  qed
next
  case (cleaned w order env st m run)
  then show ?case
    by (auto simp: RouteManager_Clean_def session_rules_def owed_rules_append fold_rules_only_deleted del_commands_def
        clean_deletes_the_rules split: if_splits)
qed (simp_all add: owed_rules_append)

theorem firewall_rules_taken_back_witness:
  "owed_rules (w_log (demo_applied ''eth0'' [])) = session_rules (w_m (demo_applied ''eth0'' []))"
  by (rule firewall_rules_taken_back [OF demo_applied_reach [of False]])

definition in_output :: "bool \<Rightarrow> fw_rule \<Rightarrow> bool" where
  "in_output v6 r \<longleftrightarrow> fw_table r = None \<and> fw_chain r = ''OUTPUT'' \<and> fw_v6 r = v6"

lemma in_output_rules [simp]:
  "\<not> in_output v6 (masquerade out)" "\<not> in_output v6 (forward_back out tun)" "\<not> in_output v6 (forward_out out tun)"
  "\<not> in_output v6 (from_server out server)"
  "in_output v6 (to_server out server) \<longleftrightarrow> \<not> v6" "in_output v6 (allow_dns_to server proto) \<longleftrightarrow> \<not> v6"
  "in_output v6 (from_port v tun proto port) \<longleftrightarrow> v = v6" "in_output v6 (block_port v out proto port) \<longleftrightarrow> v = v6"
  by (auto simp: in_output_def fw_rules)

definition output_rules :: "bool \<Rightarrow> os_command list \<Rightarrow> fw_rule list" where
  "output_rules v6 run = filter (in_output v6) (appended run)"

definition leads_outside :: "route_manager \<Rightarrow> fw_rule \<Rightarrow> bool" where
  "leads_outside m r \<longleftrightarrow> fw_target r = ''ACCEPT'' \<and> fw_out r \<noteq> Some (rm_tun m) \<and>
     \<not> (fw_out r = Some (rm_interface m) \<and> fw_dst r = Some (ip_str (vpn_server_ip (rm_config m))))"

lemma output_rules_cases:
  "output_rules v6 (apply_commands m) =
     (if v6 then [] else [to_server (rm_interface m) (ip_str (vpn_server_ip (rm_config m)))]) @
     [from_port v6 (rm_tun m) ''udp'' ''53'', from_port v6 (rm_tun m) ''tcp'' ''53'',
      block_port v6 (rm_interface m) ''udp'' ''53'', block_port v6 (rm_interface m) ''tcp'' ''53'',
      block_port v6 (rm_interface m) ''udp'' ''853'', block_port v6 (rm_interface m) ''tcp'' ''853''] @
     (if v6 then [] else
       [allow_dns_to (ip_str (dns_server_ipv4 (rm_config m))) ''udp'', allow_dns_to (ip_str (dns_server_ipv4 (rm_config m))) ''tcp''] @
       (if IPv4Address_IsValid (custom_dns_ipv4 (rm_config m)) then
          [allow_dns_to (ip_str (custom_dns_ipv4 (rm_config m))) ''udp'', allow_dns_to (ip_str (custom_dns_ipv4 (rm_config m))) ''tcp'']
        else []))"
  by (cases v6) (simp_all add: output_rules_def apply_commands_def Let_def)

text \<open>C33: In the chain of outgoing IPv4 packets, what \<open>Apply\<close> appends before the rules that drop DNS and
  DNS-over-TLS on the outside interface accepts only packets to the VPN server or packets that leave through the
  TUN device: with the first rule that matches deciding, DNS does not go around the tunnel.
\<close>

theorem dns_kept_inside:
  assumes "proto \<in> {''udp'', ''tcp''}" "port \<in> {''53'', ''853''}"
  shows "\<exists>before after. output_rules v6 (apply_commands m) = before @ block_port v6 (rm_interface m) proto port # after \<and>
     (\<forall>r \<in> set before. \<not> leads_outside m r)"
proof -
  let ?out = "rm_interface m" and ?tun = "rm_tun m"
  let ?first = "(if v6 then [] else [to_server ?out (ip_str (vpn_server_ip (rm_config m)))]) @
     [from_port v6 ?tun ''udp'' ''53'', from_port v6 ?tun ''tcp'' ''53'', block_port v6 ?out ''udp'' ''53'',
      block_port v6 ?out ''tcp'' ''53'', block_port v6 ?out ''udp'' ''853'', block_port v6 ?out ''tcp'' ''853'']"
  have safe: "\<forall>r \<in> set ?first. \<not> leads_outside m r"
    by (simp add: leads_outside_def fw_rules)
  have "block_port v6 ?out proto port \<in> set ?first"
    using assms by auto
  then obtain before rest where first: "?first = before @ block_port v6 ?out proto port # rest"
    by (meson split_list)
  obtain last where out: "output_rules v6 (apply_commands m) = ?first @ last"
    unfolding output_rules_cases append_assoc by blast
  have "\<forall>r \<in> set before. \<not> leads_outside m r"
    using safe unfolding first by simp
  then show ?thesis
    unfolding out first by (intro exI [of _ before] exI [of _ "rest @ last"]) simp
qed

theorem dns_kept_inside_witness:
  "\<exists>before after. output_rules False (apply_commands demo_session) =
     before @ block_port False ''eth0'' ''udp'' ''53'' # after \<and> (\<forall>r \<in> set before. \<not> leads_outside demo_session r)"
  using dns_kept_inside [of "''udp''" "''53''" False demo_session] by (simp add: demo_session_def)

section \<open>The routes\<close>

text \<open>The routes around the tunnel that the manager can account for.\<close>

definition known_entries :: "bool \<Rightarrow> route_manager \<Rightarrow> route_entry set" where
  "known_entries six m = (if six then set (rm_dns6 m) else set (rm_dns4 m)) \<union> entries6 six m"

definition accounted :: "route_manager \<Rightarrow> route \<Rightarrow> bool" where
  "accounted m r = (case r of (six, n, via, dev) \<Rightarrow> dev = out_interface_name (rm_config m) \<and>
     (via = Some (network_gateway (rm_config m) six) \<and> \<lparr>destination = n, policy = kExcludeFromVpn\<rparr> \<in> known_entries six m \<or>
      rm_running m \<and> \<not> six \<and> n = ip_str (vpn_server_ip (rm_config m)) \<and> via = Some (ip_str (rm_gateway4 m))))"

fun install_accounted :: "string \<Rightarrow> route_manager \<Rightarrow> bool \<times> route_entry list \<times> string \<times> string \<Rightarrow> bool" where
  "install_accounted tun m (six, es, g, i) \<longleftrightarrow>
     (\<forall>e \<in> set es. i = tun \<or> policy e = kExcludeFromVpn \<and> e \<in> known_entries six m) \<and>
     (i = tun \<or> i = out_interface_name (rm_config m) \<and> g = network_gateway (rm_config m) six)"

definition route_inv :: "route_config \<Rightarrow> string \<Rightarrow> route_world \<Rightarrow> bool" where
  "route_inv cfg tun w \<longleftrightarrow>
     rm_config (w_m w) = cfg \<and>
     (rm_interface (w_m w) = [] \<or> rm_interface (w_m w) = out_interface_name cfg) \<and>
     (rm_running (w_m w) \<longrightarrow> rm_interface (w_m w) = out_interface_name cfg \<and> rm_tun (w_m w) = tun) \<and>
     (\<forall>p \<in> set (w_installs w). install_accounted tun (w_m w) p) \<and>
     (\<forall>(six, n, via, dev) \<in> owed_routes (w_log w). dev = tun \<or> accounted (w_m w) (six, n, via, dev))"

lemma known_entries_simps [simp]:
  "known_entries False (m\<lparr>rm_dns4 := x\<rparr>) = set x \<union> entries6 False m"
  "known_entries True (m\<lparr>rm_dns4 := x\<rparr>) = known_entries True m"
  "known_entries True (m\<lparr>rm_dns6 := x\<rparr>) = set x \<union> entries6 True m"
  "known_entries False (m\<lparr>rm_dns6 := x\<rparr>) = known_entries False m"
  by (simp_all add: known_entries_def entries6_def)

lemma register_entries_grow:
  "register_entries ips pol entries = (es, entries') \<Longrightarrow>
   set entries' = set entries \<union> set es \<and> (\<forall>e \<in> set es. policy e = pol)"
proof (induction ips arbitrary: es entries)
  case (Cons ip ips)
  let ?e = "\<lparr>destination = ip_str ip, policy = pol\<rparr>"
  show ?case
  proof (cases "?e \<in> set entries")
    case True
    then show ?thesis using Cons by simp
  next
    case False
    then obtain es' where "register_entries ips pol (entries @ [?e]) = (es', entries')" "es = ?e # es'"
      using Cons.prems by (auto simp: Let_def split: prod.splits)
    then show ?thesis using Cons.IH by fastforce
  qed
qed simp

lemma accounted_mono:
  assumes "accounted m r" "rm_config m' = rm_config m" "rm_gateway4 m' = rm_gateway4 m"
    and "rm_running m \<longrightarrow> rm_running m'" "\<And>six. known_entries six m \<subseteq> known_entries six m'"
  shows "accounted m' r"
  using assms by (fastforce simp: accounted_def split: prod.splits)

lemma install_accounted_mono:
  assumes "install_accounted tun m p" "rm_config m' = rm_config m" "\<And>six. known_entries six m \<subseteq> known_entries six m'"
  shows "install_accounted tun m' p"
  using assms by (cases p) auto

lemma known_entries_applied:
  assumes "rm_dns4 m' = rm_dns4 m" "rm_dns6 m' = rm_dns6 m" "\<And>six. entries6 six m \<subseteq> entries6 six m'"
  shows "known_entries six m \<subseteq> known_entries six m'"
  using assms by (auto simp: known_entries_def)

lemma route_inv_apply:
  assumes inv: "route_inv cfg tun w" and out: "out_interface_name cfg \<noteq> []"
    and op: "RouteManager_Apply env tun (w_m w) = (st, m, run)"
  shows "route_inv cfg tun (w\<lparr>w_m := m, w_log := w_log w @ run\<rparr>)"
proof (cases "rm_running (w_m w)")
  case True
  then have "m = w_m w" "run = []" using op by (simp_all add: Apply_running)
  then show ?thesis using inv by (simp add: route_inv_def)
next
  case False
  note A = Apply_run [OF op False]
  obtain nets where run: "run = apply_commands m @ nets" "adds_only nets"
    and nets: "\<And>six. added_routes nets \<subseteq> {(six, n, via, dev). dev = tun \<or>
        via = Some (network_gateway (rm_config (w_m w)) six) \<and> dev = network_device m \<and>
        \<lparr>destination = n, policy = kExcludeFromVpn\<rparr> \<in> entries6 six m}"
    using A(9) by blast
  have cfg: "rm_config (w_m w) = cfg" "rm_config m = cfg" using inv A(3) by (simp_all add: route_inv_def)
  have dev: "rm_interface m = out_interface_name cfg" "network_device m = out_interface_name cfg"
    using A(7) out cfg by (simp_all add: detect_def Let_def network_device_def)
  have known: "\<And>six. known_entries six (w_m w) \<subseteq> known_entries six m"
    by (rule known_entries_applied [OF A(5,6,8)])
  have old: "accounted m r" if "accounted (w_m w) r" for r
    using that False known cfg by (fastforce simp: accounted_def split: prod.splits)
  have new: "dev = tun \<or> accounted m (six, n, via, dev)" if "(six, n, via, dev) \<in> added_routes run" for six n via dev
  proof -
    from that consider "(six, n, via, dev) \<in> added_routes (apply_commands m)" | "(six, n, via, dev) \<in> added_routes nets"
      unfolding run(1) by auto
    then show ?thesis
    proof cases
      case 1
      then show ?thesis using apply_commands_adds [of m] A(2,4) dev(1) cfg(2) by (auto simp: accounted_def)
    next
      case 2
      then show ?thesis using nets dev(2) cfg by (fastforce simp: accounted_def known_entries_def)
    qed
  qed
  have "owed_routes (w_log w @ run) = owed_routes (w_log w) \<union> added_routes run"
    using run(2) unfolding run(1) by (simp add: owed_routes_append fold_routes_only_added adds_only_def Un_assoc)
  then have "\<forall>(six, n, via, dev) \<in> owed_routes (w_log w @ run). dev = tun \<or> accounted m (six, n, via, dev)"
    using inv old new unfolding route_inv_def by blast
  moreover have "\<forall>p \<in> set (w_installs w). install_accounted tun m p"
    using inv cfg by (auto simp: route_inv_def intro: install_accounted_mono [OF _ _ known])
  ultimately show ?thesis
    using cfg dev(1) A(4) by (simp add: route_inv_def)
qed

text \<open>What \<open>Clean\<close> takes back covers every route the manager can account for, when the outside interface is
  the configured one.\<close>

lemma removed_map:
  "removed_routes (map (remove_dns4 env m) es) = (\<lambda>e. (False, destination e, Some (ip_str (gateway_ipv4 (rm_config m))),
     case policy e of kExcludeFromVpn \<Rightarrow> outside_interface env m | kIncludeInVpn \<Rightarrow> rm_tun m)) ` set es"
  "removed_routes (map (remove_dns6 env m) es) = (\<lambda>e. (True, destination e, Some (ip_str (gateway_ipv6 (rm_config m))),
     case policy e of kExcludeFromVpn \<Rightarrow> outside_interface env m | kIncludeInVpn \<Rightarrow> rm_tun m)) ` set es"
  by (induction es; simp add: remove_dns4_def remove_dns6_def BuildRemoveIPv4RouteCommand_def BuildRemoveIPv6RouteCommand_def)+

lemma removed_map_networks:
  "e \<in> set es \<Longrightarrow> policy e = kExcludeFromVpn \<Longrightarrow>
     (False, destination e, Some (ip_str (gateway_ipv4 (rm_config m))), out_interface_name (rm_config m)) \<in> removed_routes (map (remove_add4 m) es)"
  "e \<in> set es \<Longrightarrow> policy e = kExcludeFromVpn \<Longrightarrow>
     (True, destination e, Some (ip_str (gateway_ipv6 (rm_config m))), out_interface_name (rm_config m)) \<in> removed_routes (map (remove_add6 m) es)"
  by (induction es; auto simp: remove_add4_def remove_add6_def BuildRemoveIPv4RouteCommand_def BuildRemoveIPv6RouteCommand_def
      split: routing_policy.splits)+

lemma set_order: "(\<And>xs. mset (order xs) = mset xs) \<Longrightarrow> set (order xs) = set xs"
  by (metis set_mset_mset)

lemma server_route_removed:
  "(False, ip_str (vpn_server_ip (rm_config m)), Some (ip_str (rm_gateway4 m)), rm_interface m) \<in> removed_routes (clean_commands m)"
  by (simp add: clean_commands_def Let_def)

lemma accounted_removed:
  assumes "accounted m r" "rm_interface m = out_interface_name (rm_config m)" "out_interface_name (rm_config m) \<noteq> []"
    and order: "\<And>xs. mset (order xs) = mset xs"
  shows "r \<in> removed_routes (del_commands env order m @ clean_commands m)"
proof -
  obtain six n via dev where r: "r = (six, n, via, dev)" by (cases r)
  let ?e = "\<lparr>destination = n, policy = kExcludeFromVpn\<rparr>"
  have out: "outside_interface env m = out_interface_name (rm_config m)"
    using assms(2,3) by (simp add: outside_interface_def)
  consider (entry) "via = Some (network_gateway (rm_config m) six)" "?e \<in> known_entries six m" "dev = out_interface_name (rm_config m)"
    | (server) "r = (False, ip_str (vpn_server_ip (rm_config m)), Some (ip_str (rm_gateway4 m)), rm_interface m)"
    using assms(1,2) by (auto simp: accounted_def r)
  then show ?thesis
  proof cases
    case server
    then show ?thesis using server_route_removed by simp
  next
    case entry
    note S = set_order [OF order]
    show ?thesis
    proof (cases six)
      case True
      have "r \<in> removed_routes (map (remove_dns6 env m) (order (rm_dns6 m)))" if "?e \<in> set (rm_dns6 m)"
        using that entry True out unfolding removed_map S by (force simp: r network_gateway_def)
      moreover have "r \<in> removed_routes (map (remove_add6 m) (order (rm_add6 m)))" if "?e \<in> set (rm_add6 m)"
        using removed_map_networks(2) [of ?e "order (rm_add6 m)" m] that entry True S by (simp add: r network_gateway_def)
      ultimately show ?thesis
        using entry(2) True by (auto simp: known_entries_def entries6_def del_commands_def)
    next
      case False
      have "r \<in> removed_routes (map (remove_dns4 env m) (order (rm_dns4 m)))" if "?e \<in> set (rm_dns4 m)"
        using that entry False out unfolding removed_map S by (force simp: r network_gateway_def)
      moreover have "r \<in> removed_routes (map (remove_add4 m) (order (rm_add4 m)))" if "?e \<in> set (rm_add4 m)"
        using removed_map_networks(1) [of ?e "order (rm_add4 m)" m] that entry False S by (simp add: r network_gateway_def)
      ultimately show ?thesis
        using entry(2) False by (auto simp: known_entries_def entries6_def del_commands_def)
    qed
  qed
qed

lemma clean_only_tun_left:
  assumes inv: "route_inv cfg tun w" and out: "out_interface_name cfg \<noteq> []" and run: "rm_running (w_m w)"
    and order: "\<And>xs. mset (order xs) = mset xs"
    and op: "RouteManager_Clean env order (w_m w) = (st, m, run)"
  shows "\<forall>(six, n, via, dev) \<in> owed_routes (w_log w @ run). dev = tun"
proof -
  have eq: "run = del_commands env order (w_m w) @ clean_commands (w_m w)"
    using op run by (simp add: RouteManager_Clean_def)
  have "owed_routes (w_log w @ run) = owed_routes (w_log w) - removed_routes run"
    unfolding eq owed_routes_append by (rule fold_routes_only_removed) (simp add: del_commands_def)
  moreover have "r \<in> removed_routes run" if "accounted (w_m w) r" for r
    unfolding eq by (rule accounted_removed [OF that _ _ order]) (use inv run out in \<open>simp_all add: route_inv_def\<close>)
  ultimately show ?thesis
    using inv by (fastforce simp: route_inv_def)
qed

lemma route_inv_clean:
  assumes inv: "route_inv cfg tun w" and out: "out_interface_name cfg \<noteq> []" and calm: "w_installs w = []"
    and order: "\<And>xs. mset (order xs) = mset xs"
    and op: "RouteManager_Clean env order (w_m w) = (st, m, run)"
  shows "route_inv cfg tun (w\<lparr>w_m := m, w_log := w_log w @ run\<rparr>)"
proof (cases "rm_running (w_m w)")
  case True
  then show ?thesis
    using clean_only_tun_left [OF inv out True order op] inv calm op
    by (auto simp: route_inv_def RouteManager_Clean_def)
next
  case False
  then show ?thesis using op inv by (simp add: RouteManager_Clean_def route_inv_def)
qed

lemma dns_way_accounted:
  assumes inv: "route_inv cfg tun w" and "tun \<noteq> []" "out_interface_name cfg \<noteq> []" "rm_tun (w_m w) = tun"
  shows "dns_way4 env (w_m w) pol = (i, g) \<Longrightarrow>
      (if pol = kExcludeFromVpn then i = out_interface_name cfg \<and> g = network_gateway cfg False else i = tun)"
    and "dns_way6 env (w_m w) pol = (i, g) \<Longrightarrow>
      (if pol = kExcludeFromVpn then i = out_interface_name cfg \<and> g = network_gateway cfg True else i = tun)"
  using assms by (cases pol; auto simp: dns_way4_def dns_way6_def outside_interface_def network_gateway_def route_inv_def split: if_splits)+

lemma route_inv_dns:
  assumes inv: "route_inv cfg tun w" and m: "rm_config m = cfg" "rm_interface m = rm_interface (w_m w)" "rm_tun m = rm_tun (w_m w)"
      "rm_running m = rm_running (w_m w)" "rm_gateway4 m = rm_gateway4 (w_m w)"
    and known: "\<And>six'. known_entries six' (w_m w) \<subseteq> known_entries six' m" "set es \<subseteq> known_entries six m" "\<forall>e \<in> set es. policy e = pol"
    and way: "if pol = kExcludeFromVpn then i = out_interface_name cfg \<and> g = network_gateway cfg six else i = tun"
  shows "route_inv cfg tun (w\<lparr>w_m := m, w_installs := (if es = [] then w_installs w else w_installs w @ [(six, es, g, i)])\<rparr>)"
proof -
  have new: "install_accounted tun m (six, es, g, i)"
    using known(2,3) way m(1) by (cases pol) auto
  have cfg: "rm_config m = rm_config (w_m w)" using inv m(1) by (simp add: route_inv_def)
  have old: "\<forall>p \<in> set (w_installs w). install_accounted tun m p"
    using inv by (auto simp: route_inv_def intro: install_accounted_mono [OF _ cfg known(1)])
  have acc: "accounted m r" if "accounted (w_m w) r" for r
    by (rule accounted_mono [OF that cfg m(5) _ known(1)]) (simp add: m(4))
  have "\<forall>(six, n, via, dev) \<in> owed_routes (w_log w). dev = tun \<or> accounted m (six, n, via, dev)"
    using inv acc unfolding route_inv_def by blast
  then show ?thesis
    using inv new old m by (simp add: route_inv_def)
qed

lemma route_inv_installed:
  assumes inv: "route_inv cfg tun w" and at: "w_installs w = before @ (six, e # es, g, i) # after"
  shows "route_inv cfg tun (w\<lparr>w_installs := before @ (if es = [] then [] else [(six, es, g, i)]) @ after,
      w_log := w_log w @ [RouteAddQuoted six (destination e) g i]\<rparr>)"
proof -
  have all: "\<forall>p \<in> set (w_installs w). install_accounted tun (w_m w) p" and cfg: "rm_config (w_m w) = cfg"
    using inv by (simp_all add: route_inv_def)
  then have acc: "install_accounted tun (w_m w) (six, e # es, g, i)"
    using at by (metis in_set_conv_decomp)
  have rest: "install_accounted tun (w_m w) (six, es, g, i)"
    using acc unfolding install_accounted.simps by auto
  have others: "\<forall>p \<in> set before \<union> set after. install_accounted tun (w_m w) p"
    using all at by (simp add: ball_Un)
  have "i = tun \<or> accounted (w_m w) (six, destination e, Some g, i)"
    using acc cfg by (cases e; cases "i = tun") (simp_all add: accounted_def)
  then have "\<forall>(six, n, via, dev) \<in> owed_routes (w_log w @ [RouteAddQuoted six (destination e) g i]). dev = tun \<or> accounted (w_m w) (six, n, via, dev)"
    using inv by (auto simp: owed_routes_append route_inv_def)
  moreover have "\<forall>p \<in> set (before @ (if es = [] then [] else [(six, es, g, i)]) @ after). install_accounted tun (w_m w) p"
    using rest others by auto
  ultimately show ?thesis
    using inv by (simp add: route_inv_def)
qed

lemma route_inv_reach:
  assumes "rt_reach True cfg tun w" and out: "out_interface_name cfg \<noteq> []" and tun: "tun \<noteq> []"
  shows "route_inv cfg tun w"
  using assms(1)
proof (induction rule: rt_reach.induct)
  case start
  then show ?case by (simp add: route_inv_def RouteManager_new_def)
next
  case (applied w env st m run)
  then show ?case using route_inv_apply out by blast
next
  case (cleaned w order env st m run)
  then show ?case using route_inv_clean [OF cleaned.IH out _ cleaned.hyps(3,4)] by simp
next
  case (dns4 w env pol i g ips es entries)
  note grow = register_entries_grow [OF dns4.hyps(5)]
  show ?case
    by (rule route_inv_dns [OF dns4.IH, where pol = pol])
      (use grow dns4.IH dns_way_accounted(1) [OF dns4.IH tun out dns4.hyps(2,3)] in
        \<open>auto simp: route_inv_def known_entries_def entries6_def split: if_splits\<close>)
next
  case (dns6 w env pol i g ips es entries)
  note grow = register_entries_grow [OF dns6.hyps(6)]
  show ?case
    by (rule route_inv_dns [OF dns6.IH, where pol = pol])
      (use grow dns6.IH dns_way_accounted(2) [OF dns6.IH tun out dns6.hyps(2,3)] in
        \<open>auto simp: route_inv_def known_entries_def entries6_def split: if_splits\<close>)
next
  case (installed w before six e es g i after)
  then show ?case using route_inv_installed by blast
qed

text \<open>C8: When the outside interface is configured and \<open>Clean\<close> does not come while DNS routes are being
  installed, \<open>Clean\<close> takes back every route that was set around the tunnel (to the VPN server, to excluded
  networks, to addresses excluded by split tunnelling), with the very gateway and device it was set with: only routes
  on the TUN device, which go away with the device, may be left.
\<close>

theorem routes_taken_back:
  assumes "rt_reach True cfg tun w" "out_interface_name cfg \<noteq> []" "tun \<noteq> []" "rm_running (w_m w)"
    and "\<And>xs. mset (order xs) = mset xs" "RouteManager_Clean env order (w_m w) = (st, m, run)"
  shows "st \<and> \<not> rm_running m \<and> known_entries six m = {} \<and> (\<forall>(six, n, via, dev) \<in> owed_routes (w_log w @ run). dev = tun)"
  using clean_only_tun_left [OF route_inv_reach [OF assms(1-3)] assms(2,4-6)] assms(4,6)
  by (auto simp: RouteManager_Clean_def known_entries_def entries6_def)

definition demo_cleaned :: "os_command list" where
  "demo_cleaned = snd (snd (RouteManager_Clean demo_route_env rev (w_m (demo_applied ''eth0'' [''10.0.0.0/8'']))))"

theorem routes_taken_back_witness:
  "owed_routes (w_log (demo_applied ''eth0'' [''10.0.0.0/8'']) @ demo_cleaned) \<subseteq> {r. snd (snd (snd r)) = ''tun0''}"
proof -
  obtain st m run where op: "RouteManager_Clean demo_route_env rev (w_m (demo_applied ''eth0'' [''10.0.0.0/8''])) = (st, m, run)"
    using prod_cases3 by blast
  show ?thesis
    using routes_taken_back [OF demo_applied_reach _ _ demo_applied_running(1) _ op, of True] op
    by (auto simp: demo_cleaned_def demo_route_config_def)
qed

text \<open>Registering and installing a DNS route are two critical sections, and the second does not look at the
  manager again: when \<open>Clean\<close> runs between them, the route is set after the cleaning, and no entry is left by which
  it could be removed.
\<close>

theorem dns_route_leaks:
  assumes "rt_reach False cfg tun w" "w_installs w = before @ (six, e # es, g, i) # after" "rm_running (w_m w)"
  shows "\<exists>w'. rt_reach False cfg tun w' \<and> \<not> rm_running (w_m w') \<and> known_entries six (w_m w') = {} \<and>
     (six, destination e, Some g, i) \<in> owed_routes (w_log w')"
proof -
  obtain st m run where op: "RouteManager_Clean demo_route_env id (w_m w) = (st, m, run)"
    using prod_cases3 by blast
  let ?w = "w\<lparr>w_m := m, w_log := w_log w @ run\<rparr>"
  have reach: "rt_reach False cfg tun ?w"
    by (rule rt_reach.cleaned [OF assms(1) _ _ op]) simp_all
  have at: "w_installs ?w = before @ (six, e # es, g, i) # after" using assms(2) by simp
  show ?thesis
    using rt_reach.installed [OF reach at] op assms(3)
    by (intro exI [of _ "?w\<lparr>w_installs := before @ (if es = [] then [] else [(six, es, g, i)]) @ after,
      w_log := w_log ?w @ [RouteAddQuoted six (destination e) g i]\<rparr>"] conjI)
      (auto simp: owed_routes_append RouteManager_Clean_def known_entries_def entries6_def)
qed

theorem dns_route_leaks_witness:
  "\<exists>w'. rt_reach False (demo_route_config ''eth0'' []) ''tun0'' w' \<and> \<not> rm_running (w_m w') \<and> known_entries False (w_m w') = {} \<and>
     (False, ''8.8.8.8'', Some ''192.168.1.1'', ''eth0'') \<in> owed_routes (w_log w')"
proof -
  let ?cfg = "demo_route_config ''eth0'' []" and ?w = "demo_applied ''eth0'' []"
  obtain st m run where op: "RouteManager_Apply demo_route_env ''tun0'' (RouteManager_new ?cfg) = (st, m, run)"
    using prod_cases3 by blast
  have stopped: "\<not> rm_running (RouteManager_new ?cfg)" by (simp add: RouteManager_new_def)
  note A = Apply_run [OF op stopped]
  have m: "w_m ?w = m" using op by (simp add: demo_applied_def)
  have facts: "rm_tun m = ''tun0''" "rm_config m = ?cfg" "rm_dns4 m = []" "rm_interface m = ''eth0''" "rm_running m"
    using A(2-7) by (simp_all add: RouteManager_new_def detect_def Let_def demo_route_config_def)
  have way: "dns_way4 demo_route_env (w_m ?w) kExcludeFromVpn = (''eth0'', ''192.168.1.1'')"
    using m facts by (simp add: dns_way4_def outside_interface_def demo_route_config_def demo_ip_def)
  have reg: "register_entries [demo_ip ''8.8.8.8''] kExcludeFromVpn (rm_dns4 (w_m ?w)) =
     ([\<lparr>destination = ''8.8.8.8'', policy = kExcludeFromVpn\<rparr>], [\<lparr>destination = ''8.8.8.8'', policy = kExcludeFromVpn\<rparr>])"
    using m facts(3) by (simp add: demo_ip_def Let_def)
  have reach: "rt_reach False ?cfg ''tun0'' (?w\<lparr>w_m := (w_m ?w)\<lparr>rm_dns4 := [\<lparr>destination = ''8.8.8.8'', policy = kExcludeFromVpn\<rparr>]\<rparr>,
      w_installs := [(False, [\<lparr>destination = ''8.8.8.8'', policy = kExcludeFromVpn\<rparr>], ''192.168.1.1'', ''eth0'')]\<rparr>)"
    using rt_reach.dns4 [OF demo_applied_reach _ way _ reg] m facts(1) by (simp add: demo_applied_running(2))
  show ?thesis
    using dns_route_leaks [OF reach, of "[]" False "\<lparr>destination = ''8.8.8.8'', policy = kExcludeFromVpn\<rparr>" "[]" "''192.168.1.1''" "''eth0''" "[]"]
      m facts(5) by simp
qed

section \<open>Networks and addresses\<close>

lemma register_networks_all:
  "register_networks pol ns m = (added, m') \<Longrightarrow> n \<in> set ns \<Longrightarrow> n \<noteq> [] \<Longrightarrow>
   \<lparr>destination = n, policy = pol\<rparr> \<notin> entries6 (is_ipv6_network n) m \<Longrightarrow> (n, is_ipv6_network n) \<in> set added"
proof (induction pol ns m arbitrary: added rule: register_networks.induct)
  case (2 pol k ns m)
  show ?case
  proof (cases "n = k")
    case True
    then show ?thesis using "2.prems" by (auto simp: Let_def entries6_def split: if_splits prod.splits)
  next
    case False
    let ?e = "\<lparr>destination = k, policy = pol\<rparr>"
    consider "register_networks pol ns m = (added, m')" "k = [] \<or> ?e \<in> entries6 (is_ipv6_network k) m"
      | added' where "k \<noteq> []" "is_ipv6_network k" "?e \<notin> set (rm_add6 m)" "set added' \<subseteq> set added"
          "register_networks pol ns (m\<lparr>rm_add6 := rm_add6 m @ [?e]\<rparr>) = (added', m')"
      | added' where "k \<noteq> []" "\<not> is_ipv6_network k" "?e \<notin> set (rm_add4 m)" "set added' \<subseteq> set added"
          "register_networks pol ns (m\<lparr>rm_add4 := rm_add4 m @ [?e]\<rparr>) = (added', m')"
      using "2.prems"(1) by (auto simp: Let_def entries6_def subset_insertI split: if_splits prod.splits)
    then show ?thesis
    proof cases
      case 1
      then show ?thesis using "2.IH"(1,3,5) "2.prems" False
        by (cases "k = []"; cases "is_ipv6_network k") (simp_all add: entries6_def)
    next
      case 2
      then show ?thesis using "2.IH"(2) "2.prems" False by (fastforce simp: entries6_def split: if_splits)
    next
      case 3
      then show ?thesis using "2.IH"(4) "2.prems" False by (fastforce simp: entries6_def split: if_splits)
    qed
  qed
qed simp

lemma apply_routes_excluded:
  assumes op: "RouteManager_Apply env tun (RouteManager_new cfg) = (st, m, run)" and n: "n \<in> set (exclude_networks cfg)" "n \<noteq> []"
  shows "(is_ipv6_network n, n, Some (network_gateway cfg (is_ipv6_network n)), network_device m) \<in> owed_routes run"
proof -
  let ?m1 = "detect env ((RouteManager_new cfg)\<lparr>rm_tun := tun, rm_running := True\<rparr>)"
  let ?m2 = "?m1\<lparr>rm_original_dns := GetLinuxDnsServers env (rm_interface ?m1)\<rparr>"
  obtain added m3 where reg: "register_networks kExcludeFromVpn (exclude_networks cfg) ?m2 = (added, m3)" by fastforce
  have cfg: "rm_config ?m2 = cfg" "entries6 six ?m2 = {}" for six
    by (simp_all add: detect_def Let_def RouteManager_new_def entries6_def)
  have mem: "(n, is_ipv6_network n) \<in> set added"
    using register_networks_all [OF reg n] cfg(2) by simp
  note ses = register_networks_session [OF reg]
  define run3 where "run3 = map (\<lambda>(n, six). RouteAddQuoted six n (if six then ip_str (gateway_ipv6 cfg) else ip_str (gateway_ipv4 cfg)) (network_device m3)) added"
  have ex: "AddExcludeNetworks (exclude_networks (rm_config ?m2)) ?m2 = (True, m3, run3)"
    using reg mem ses cfg(1) by (auto simp: AddExcludeNetworks_def install_networks_eq network_device_def run3_def same_session_def)
  obtain st4 m4 run4 where inc: "AddIncludeNetworks (include_networks (rm_config m3)) m3 = (st4, m4, run4)"
    using prod_cases3 by blast
  have eq: "m = m4" "run = apply_commands ?m2 @ run3 @ run4"
    using op ex inc by (auto simp: RouteManager_Apply_def Let_def RouteManager_new_def)
  have dev: "network_device m3 = network_device m"
    using AddIncludeNetworks_run(2) [OF inc] eq(1) by (simp add: network_device_def same_session_def)
  have "adds_only run3" unfolding run3_def adds_only_def quoted_adds by simp
  then have "owed_routes run = added_routes run"
    using AddIncludeNetworks_run(3) [OF inc] unfolding eq(2) owed_routes_def
    by (subst fold_routes_only_added) (simp_all add: adds_only_def)
  moreover have "(is_ipv6_network n, n, Some (network_gateway cfg (is_ipv6_network n)), network_device m) \<in> added_routes run3"
    unfolding run3_def quoted_adds dev network_gateway_def using mem by (force intro!: rev_image_eqI)
  ultimately show ?thesis
    unfolding eq(2) by simp
qed

text \<open>When no outside interface is configured, \<open>Apply\<close> sets the routes of excluded networks on the interface it
  detected, but \<open>Clean\<close> names the configured one, which is empty: the routes are not taken back.
\<close>

theorem detected_interface_forgotten:
  assumes "out_interface_name cfg = []" "GetDefaultNetworkInterfaceName env \<noteq> []" "tun \<noteq> GetDefaultNetworkInterfaceName env"
    and "n \<in> set (exclude_networks cfg)" "n \<noteq> []" "n \<noteq> ip_str (vpn_server_ip cfg)"
    and op: "RouteManager_Apply env tun (RouteManager_new cfg) = (st, m, run)"
    and cl: "RouteManager_Clean env' order m = (st', m', run')" and order: "\<And>xs. mset (order xs) = mset xs"
  shows "(is_ipv6_network n, n, Some (network_gateway cfg (is_ipv6_network n)), GetDefaultNetworkInterfaceName env) \<in> owed_routes (run @ run')"
proof -
  let ?out = "GetDefaultNetworkInterfaceName env" and ?new = "RouteManager_new cfg"
  let ?r = "(is_ipv6_network n, n, Some (network_gateway cfg (is_ipv6_network n)), ?out)"
  have "\<not> rm_running ?new" by (simp add: RouteManager_new_def)
  note A = Apply_run [OF op this]
  have m: "rm_running m" "rm_config m = cfg" "rm_tun m = tun" "rm_dns4 m = []" "rm_dns6 m = []" "rm_interface m = ?out"
    using A(2-7) assms(1) by (simp_all add: RouteManager_new_def detect_def Let_def)
  have run': "run' = del_commands env' order m @ clean_commands m"
    using cl m(1) by (simp add: RouteManager_Clean_def)
  have none: "order [] = []" using set_order [OF order, of "[]"] by simp
  have "?r \<notin> removed_routes (map (remove_add4 m) es)" for es
    using m(2,3) assms(1-3) by (induction es) (auto simp: remove_add4_def BuildRemoveIPv4RouteCommand_def split: routing_policy.splits)
  moreover have "?r \<notin> removed_routes (map (remove_add6 m) es)" for es
    using m(2,3) assms(1-3) by (induction es) (auto simp: remove_add6_def BuildRemoveIPv6RouteCommand_def split: routing_policy.splits)
  moreover have "?r \<notin> removed_routes (clean_commands m)"
    using assms(3,6) m(2,3) by (auto simp: clean_commands_def Let_def)
  ultimately have "?r \<notin> removed_routes run'"
    unfolding run' del_commands_def m(4,5) none by simp
  moreover have "owed_routes (run @ run') = owed_routes run - removed_routes run'"
    unfolding run' owed_routes_append by (rule fold_routes_only_removed) (simp add: del_commands_def)
  moreover have "network_device m = ?out"
    using m(6) assms(2) by (simp add: network_device_def)
  ultimately show ?thesis
    using apply_routes_excluded [OF op assms(4,5)] by simp
qed

lemma demo_interface: "GetDefaultNetworkInterfaceName demo_route_env = ''eth0''"
  by (simp add: GetDefaultNetworkInterfaceName_def demo_route_env_def strip_blanks_def blank_def)

theorem detected_interface_forgotten_witness:
  "\<exists>run run'. (\<exists>st m st' m'. RouteManager_Apply demo_route_env ''tun0'' (RouteManager_new (demo_route_config [] [''10.0.0.0/8''])) = (st, m, run) \<and>
      RouteManager_Clean demo_route_env rev m = (st', m', run')) \<and>
     (False, ''10.0.0.0/8'', Some ''192.168.1.1'', ''eth0'') \<in> owed_routes (run @ run')"
proof -
  let ?cfg = "demo_route_config [] [''10.0.0.0/8'']"
  obtain st m run where op: "RouteManager_Apply demo_route_env ''tun0'' (RouteManager_new ?cfg) = (st, m, run)"
    using prod_cases3 by blast
  obtain st' m' run' where cl: "RouteManager_Clean demo_route_env rev m = (st', m', run')"
    using prod_cases3 by blast
  have "(is_ipv6_network ''10.0.0.0/8'', ''10.0.0.0/8'', Some (network_gateway ?cfg (is_ipv6_network ''10.0.0.0/8'')), ''eth0'') \<in> owed_routes (run @ run')"
    using detected_interface_forgotten [OF _ _ _ _ _ _ op cl, of "''10.0.0.0/8''"]
    by (simp add: demo_interface demo_route_config_def demo_ip_def)
  then have "(False, ''10.0.0.0/8'', Some ''192.168.1.1'', ''eth0'') \<in> owed_routes (run @ run')"
    by (simp add: is_ipv6_network_def network_gateway_def demo_route_config_def demo_ip_def)
  then show ?thesis using op cl by blast
qed

lemma dns_way4_entries [simp]: "dns_way4 env (m\<lparr>rm_dns4 := x\<rparr>) pol = dns_way4 env m pol"
  by (cases pol) (simp_all add: dns_way4_def outside_interface_def)

lemma register_entries_known: "ip_str ` set ips \<subseteq> destination ` {e \<in> set entries. policy e = pol} \<Longrightarrow> register_entries ips pol entries = ([], entries)"
proof (induction ips)
  case (Cons ip ips)
  then obtain e where "e \<in> set entries" "policy e = pol" "destination e = ip_str ip" by auto
  moreover from this have "\<lparr>destination = ip_str ip, policy = pol\<rparr> = e" by (intro route_entry.equality) simp_all
  ultimately have "\<lparr>destination = ip_str ip, policy = pol\<rparr> \<in> set entries" by (simp only:)
  then show ?case using Cons by simp
qed simp

lemma register_entries_new:
  "register_entries ips pol entries = (es, entries') \<Longrightarrow>
   distinct es \<and> set es \<inter> set entries = {} \<and> entries' = entries @ es \<and>
   set es = (\<lambda>ip. \<lparr>destination = ip_str ip, policy = pol\<rparr>) ` set ips - set entries"
proof (induction ips arbitrary: es entries)
  case (Cons ip ips)
  let ?e = "\<lparr>destination = ip_str ip, policy = pol\<rparr>"
  show ?case
  proof (cases "?e \<in> set entries")
    case True
    then show ?thesis using Cons by auto
  next
    case False
    then obtain es' where es': "register_entries ips pol (entries @ [?e]) = (es', entries')" "es = ?e # es'"
      using Cons.prems by (auto simp: Let_def split: prod.splits)
    then show ?thesis using Cons.IH [OF es'(1)] False by auto
  qed
qed simp

text \<open>A DNS answer gets one route for every address that has none under the same policy yet, all through the
  same gateway and device, in the order of the answer; the same answer again runs no command.
\<close>

theorem dns_routes_once:
  assumes "RouteManager_AddDnsRoutesIPv4 env ips pol m = (st, m', run)"
  shows "(st \<longleftrightarrow> fst (dns_way4 env m pol) \<noteq> []) \<and>
     (st \<longrightarrow> (\<exists>new. run = map (\<lambda>d. RouteAddQuoted False d (snd (dns_way4 env m pol)) (fst (dns_way4 env m pol))) new \<and> distinct new \<and>
        set new = {d \<in> ip_str ` set ips. \<lparr>destination = d, policy = pol\<rparr> \<notin> set (rm_dns4 m)})) \<and>
     RouteManager_AddDnsRoutesIPv4 env ips pol m' = (st, m', [])"
proof -
  obtain i g where way: "dns_way4 env m pol = (i, g)" by fastforce
  obtain es entries where reg: "register_entries ips pol (rm_dns4 m) = (es, entries)" by fastforce
  note new = register_entries_new [OF reg] and grow = register_entries_grow [OF reg]
  show ?thesis
  proof (cases "i = []")
    case True
    then show ?thesis using assms way by (auto simp: RouteManager_AddDnsRoutesIPv4_def)
  next
    case False
    then have op: "st" "m' = m\<lparr>rm_dns4 := entries\<rparr>" "run = map (\<lambda>e. RouteAddQuoted False (destination e) g i) es"
      using assms way reg by (cases es; simp add: RouteManager_AddDnsRoutesIPv4_def install_dns4_eq Let_def)+
    have way': "dns_way4 env m' pol = (i, g)"
      using way op(2) by simp
    have "register_entries ips pol entries = ([], entries)"
    proof (rule register_entries_known)
      show "ip_str ` set ips \<subseteq> destination ` {e \<in> set entries. policy e = pol}"
        using new by (force intro: rev_image_eqI)
    qed
    then have again: "RouteManager_AddDnsRoutesIPv4 env ips pol m' = (st, m', [])"
      using way' op(1,2) False by (simp add: RouteManager_AddDnsRoutesIPv4_def)
    have "distinct (map destination es)"
      using new grow by (auto simp: distinct_map inj_on_def intro: route_entry.equality)
    moreover have "set (map destination es) = {d \<in> ip_str ` set ips. \<lparr>destination = d, policy = pol\<rparr> \<notin> set (rm_dns4 m)}"
      using new by (force intro: rev_image_eqI)
    ultimately show ?thesis
      using again op way False by (auto intro!: exI [of _ "map destination es"])
  qed
qed

theorem dns_routes_once_witness:
  "\<exists>st m' run. RouteManager_AddDnsRoutesIPv4 demo_route_env [demo_ip ''8.8.8.8'', demo_ip ''8.8.8.8''] kExcludeFromVpn demo_session = (st, m', run) \<and>
     st \<and> RouteManager_AddDnsRoutesIPv4 demo_route_env [demo_ip ''8.8.8.8'', demo_ip ''8.8.8.8''] kExcludeFromVpn m' = (st, m', [])"
proof -
  obtain st m' run where op: "RouteManager_AddDnsRoutesIPv4 demo_route_env [demo_ip ''8.8.8.8'', demo_ip ''8.8.8.8''] kExcludeFromVpn demo_session = (st, m', run)"
    using prod_cases3 by blast
  have "fst (dns_way4 demo_route_env demo_session kExcludeFromVpn) \<noteq> []"
    by (simp add: dns_way4_def outside_interface_def demo_session_def)
  then show ?thesis
    using dns_routes_once [OF op] op by blast
qed

end
