(* ===== verification/Cli.thy ===== *)
theory Cli
  imports ClientConfig ClientVpn RouteProps
begin

text \<open>
  The command-line client, \<open>src/fptn-client/fptn-client-cli.cpp\<close>: the checks of its options, what it makes of
  them, and the start of the client up to the objects it runs. The option parser is a library: its result,
  after the checks of the code, is an argument. The outside (the privileges, the log, the system's answers, the
  resolver, the requests) is the record \<open>cli_env\<close>.
\<close>

section \<open>Options\<close>

definition bypass_methods :: "string list" where
  "bypass_methods = [''obfuscation'',
     ''sni-spoofing-chrome-145'', ''sni-spoofing-chrome-146'', ''sni-spoofing-chrome-147'',
     ''sni-spoofing-chrome-148'', ''sni-spoofing-chrome-149'',
     ''sni-spoofing-firefox-149'', ''sni-spoofing-firefox-150'', ''sni-spoofing-firefox-151'',
     ''sni-spoofing-safari-26-4'', ''sni-spoofing-safari-26-5'',
     ''sni-spoofing-yandex-24'', ''sni-spoofing-yandex-25'', ''sni-spoofing-yandex-26-3'', ''sni-spoofing-yandex-26-4'']"

definition tunnel_modes :: "string list" where
  "tunnel_modes = [''exclude'', ''include'']"

text \<open>The sets are ordered, so that the messages list them in that order.\<close>

fun join_with :: "string \<Rightarrow> string list \<Rightarrow> string" where
  "join_with sep [] = []"
| "join_with sep [x] = x"
| "join_with sep (x # xs) = x @ sep @ join_with sep xs"

definition in_quotes :: "string \<Rightarrow> string" where
  "in_quotes s = sq @ s @ sq"

definition check_bypass_method :: "string \<Rightarrow> string + string" where
  "check_bypass_method v =
     (if v \<notin> set bypass_methods
      then Inl (''Invalid bypass method '' @ in_quotes v @ ''. Choose from: '' @ join_with '', '' bypass_methods)
      else Inr v)"

definition check_connection_strategy :: "string \<Rightarrow> string + string" where
  "check_connection_strategy v =
     (if v \<noteq> ''persistent-tunnel'' \<and> v \<noteq> ''rolling-tunnel'' \<and> v \<noteq> ''dual-rolling-tunnel'' \<and> v \<noteq> ''triple-rolling-tunnel''
      then Inl (''Invalid connection strategy '' @ in_quotes v @ ''. Choose from: ''
        @ ''persistent-tunnel, rolling-tunnel, dual-rolling-tunnel, triple-rolling-tunnel'')
      else Inr v)"

definition check_enable_split_tunnel :: "(string \<Rightarrow> string) \<Rightarrow> string \<Rightarrow> string + bool" where
  "check_enable_split_tunnel to_lower v =
     (if v = [] then Inr True
      else if to_lower v = ''true'' then Inr True
      else if to_lower v = ''false'' then Inr False
      else Inl ''Value must be true/false'')"

definition check_tunnel_mode :: "string \<Rightarrow> string + string" where
  "check_tunnel_mode v =
     (if v \<notin> set tunnel_modes
      then Inl (''Invalid tunnel mode '' @ in_quotes v @ ''. Choose from: '' @ join_with '', '' tunnel_modes)
      else Inr v)"

definition censorship_of :: "string \<Rightarrow> censorship_strategy" where
  "censorship_of bypass_method =
     (if bypass_method = ''obfuscation'' then kTlsObfuscator
      else if bypass_method = ''sni-spoofing-chrome-149'' then kSniRealityModeChrome149
      else if bypass_method = ''sni-spoofing-chrome-148'' then kSniRealityModeChrome148
      else if bypass_method = ''sni-spoofing-chrome-147'' then kSniRealityModeChrome147
      else if bypass_method = ''sni-spoofing-chrome-146'' then kSniRealityModeChrome146
      else if bypass_method = ''sni-spoofing-chrome-145'' then kSniRealityModeChrome145
      else if bypass_method = ''sni-spoofing-firefox-151'' then kSniRealityModeFirefox151
      else if bypass_method = ''sni-spoofing-firefox-150'' then kSniRealityModeFirefox150
      else if bypass_method = ''sni-spoofing-firefox149'' then kSniRealityModeFirefox149
      else if bypass_method = ''sni-spoofing-yandex-26-3'' then kSniRealityModeYandex26_3
      else if bypass_method = ''sni-spoofing-yandex-25'' then kSniRealityModeYandex25
      else if bypass_method = ''sni-spoofing-yandex-24'' then kSniRealityModeYandex24
      else if bypass_method = ''sni-spoofing-safari-26-5'' then kSniRealityModeSafari26_5
      else if bypass_method = ''sni-spoofing-safari-26-4'' then kSniRealityModeSafari26_4
      else kSniRealityModeYandex26_4)"

definition connection_strategy_of :: "string \<Rightarrow> connection_strategy" where
  "connection_strategy_of name =
     (if name = ''browser-mimicry'' then kBrowserMimicry
      else if name = ''dual-rolling-tunnel'' then kDualTunnel
      else if name = ''triple-rolling-tunnel'' then kTripleTunnel
      else if name = ''rolling-tunnel'' then kRollingTunnel
      else kPersistentTunnel)"

record cli_args =
  ar_access_token :: string
  ar_disable_routing :: bool
  ar_out_network_interface :: string
  ar_gateway_ip :: string
  ar_gateway_ipv6 :: string
  ar_mtu_size :: int
  ar_preferred_server :: string
  ar_tun_interface_name :: string
  ar_tun_interface_ip :: string
  ar_tun_interface_ipv6 :: string
  ar_sni :: string
  ar_blacklist_domains :: string
  ar_bypass_method :: string
  ar_connection_strategy :: string
  ar_exclude_networks :: string
  ar_include_networks :: string
  ar_enable_split_tunnel :: bool
  ar_split_tunnel_mode :: string
  ar_split_tunnel_domains :: string
  ar_max_full_restarts :: int
  ar_show_servers :: bool

record cli_env =
  ce_root :: bool
  ce_logger :: bool
  ce_routes :: route_env
  ce_lib :: config_lib
  ce_race :: race_env
  ce_re2 :: re2
  ce_login :: "api_env list"
  ce_dns :: "api_env list"
  ce_dns_fields :: "string \<Rightarrow> json_field \<times> json_field"
  ce_dns_default_ipv6 :: string

section \<open>The start\<close>

text \<open>The gateways the routing is going to use; \<open>None\<close> is the error message and the end.\<close>

definition using_gateways :: "cli_env \<Rightarrow> cli_args \<Rightarrow> (ip_address \<times> ip_address) option" where
  "using_gateways env a =
     (if ar_disable_routing a then Some (IPAddress_empty, IPAddress_empty)
      else
        (let gateway_ip = IPv4Address_new (re_lib (ce_routes env)) (ar_gateway_ip a);
             gateway_ipv6 = IPv6Address_new (re_lib (ce_routes env)) (ar_gateway_ipv6 a);
             using_gateway_ip = (if IPAddress_IsEmpty gateway_ip then GetDefaultGatewayIPAddress (ce_routes env) else gateway_ip);
             using_gateway_ipv6 = (if IPAddress_IsEmpty gateway_ipv6 then GetDefaultGatewayIPv6Address (ce_routes env) else gateway_ipv6) in
         if IPAddress_IsEmpty using_gateway_ip then None else Some (using_gateway_ip, using_gateway_ipv6)))"

definition server_json :: "server_info \<Rightarrow> jvalue" where
  "server_json s = JObject [(''host'', JString (si_host s)), (''md5_fingerprint'', JString (si_md5_fingerprint s)),
     (''name'', JString (si_name s)), (''port'', JInt (si_port s))]"

definition servers_json :: "config_file \<Rightarrow> jvalue" where
  "servers_json c = JObject [(''servers'', JArray (map server_json (cf_servers c))),
     (''service_name'', JString (cf_service_name c)), (''username'', JString (cf_username c))]"

text \<open>The first of the preferred servers that exists and whose name resolves.\<close>

fun preferred :: "cli_env \<Rightarrow> config_file \<Rightarrow> string list \<Rightarrow> server_info option" where
  "preferred env c [] = None"
| "preferred env c (s_name # rest) =
     (case GetServer (ce_lib env) s_name c of
        Some server \<Rightarrow>
          if \<not> IPAddress_IsEmpty (ResolveDomain (ce_routes env) (si_host server)) then Some server else preferred env c rest
      | None \<Rightarrow> preferred env c rest)"

text \<open>The server and a token that was obtained with it.\<close>

definition choose_server :: "cli_env \<Rightarrow> cli_args \<Rightarrow> config_file \<Rightarrow> (server_info \<times> string) option" where
  "choose_server env a c =
     (let found = (if ar_preferred_server a = [] then None else preferred env c (SplitCommaSeparated (ar_preferred_server a))) in
      (case found of
         Some server \<Rightarrow> Some (server, [])
       | None \<Rightarrow>
          (case ConfigFile_FindServerByLogin (ce_lib env) (ce_race env) c of
             None \<Rightarrow> None
           | Some r \<Rightarrow> Some (lr_server r, lr_access_token r))))"

definition cli_connection :: "cli_env \<Rightarrow> cli_args \<Rightarrow> server_info \<Rightarrow> ip_address \<Rightarrow> connection_config" where
  "cli_connection env a server server_ip =
     (let lib = re_lib (ce_routes env) in
      \<lparr>co_server_ip = server_ip, co_server_port = word_of_int (si_port server), co_sni = ar_sni a,
       co_md5_fingerprint = si_md5_fingerprint server, co_censorship_strategy = censorship_of (ar_bypass_method a),
       co_session_id = [], co_send_duration_ms = 0, co_ttl_ms = 0,
       co_tun_ipv4 = IPv4Address_new lib (ar_tun_interface_ip a), co_tun_ipv6 = IPv6Address_new lib (ar_tun_interface_ipv6 a),
       co_connection_timeout_ms = 10000, co_max_reconnections = 5, co_on_connected = False, co_recv_ip_packet = False,
       co_on_socket_opened = False, co_pool_size = 3\<rparr>)"

definition token_field :: "config_lib \<Rightarrow> string \<Rightarrow> json_field" where
  "token_field lib body =
     (case cl_json lib body of
        Inl e \<Rightarrow> JsonThrows (cl_json_what lib e)
      | Inr msg \<Rightarrow>
          if \<not> jcontains ''access_token'' msg then JsonMissing
          else (case jfield get_string ''access_token'' msg of
                  Inl e \<Rightarrow> JsonThrows (cl_json_what lib e)
                | Inr token \<Rightarrow> JsonField token))"

definition cli_plugins :: "cli_env \<Rightarrow> cli_args \<Rightarrow> bool \<Rightarrow> plugin list" where
  "cli_plugins env a route_manager =
     (let blacklist_domains = SplitCommaSeparated (ar_blacklist_domains a);
          split_domains = SplitCommaSeparated (ar_split_tunnel_domains a) in
      (if blacklist_domains \<noteq> [] \<and> route_manager
       then [Blacklist (DomainBlacklist_new (ce_re2 env) (cl_to_lower (ce_lib env)) blacklist_domains)] else []) @
      (if ar_enable_split_tunnel a \<and> route_manager
       then [SplitTunneling (Tunneling_new (ce_re2 env) (cl_to_lower (ce_lib env)) split_domains
               (if ar_split_tunnel_mode a = ''exclude'' then kExcludeFromVpn else kIncludeInVpn))] else []))"

definition cli_routes :: "cli_env \<Rightarrow> cli_args \<Rightarrow> ip_address \<Rightarrow> ip_address \<times> ip_address \<Rightarrow> ip_address \<times> ip_address \<Rightarrow> route_config" where
  "cli_routes env a server_ip dns gateways =
     (let lib = re_lib (ce_routes env) in
      \<lparr>out_interface_name = ar_out_network_interface a,
       tun_interface_address_ipv4 = IPv4Address_new lib (ar_tun_interface_ip a),
       tun_interface_address_ipv6 = IPv6Address_new lib (ar_tun_interface_ipv6 a),
       vpn_server_ip = server_ip, dns_server_ipv4 = fst dns, dns_server_ipv6 = snd dns,
       custom_dns_ipv4 = IPAddress_empty, gateway_ipv4 = fst gateways, gateway_ipv6 = snd gateways,
       exclude_networks = SplitCommaSeparated (ar_exclude_networks a),
       include_networks = SplitCommaSeparated (ar_include_networks a)\<rparr>)"

text \<open>
  How the program ends or what it runs: a failure with its message, the list of servers, or the client with the
  routing. \<open>None\<close>: a step did not return. The second result are the commands run so far.
\<close>

datatype cli_result = ExitFailure string | ServersShown jvalue | Running vpn_client "route_manager option"

definition cli_connect ::
    "cli_env \<Rightarrow> cli_args \<Rightarrow> ip_address \<times> ip_address \<Rightarrow> config_file \<Rightarrow> server_info \<Rightarrow> string \<Rightarrow> cli_result option" where
  "cli_connect env a gateways c server token =
     (let server_ip = ResolveDomain (ce_routes env) (si_host server) in
      if IPAddress_IsEmpty server_ip then Some (ExitFailure (''DNS resolve error: '' @ si_host server))
      else
        (let http = ConnectionManager_new (connection_strategy_of (ar_connection_strategy a)) (cli_connection env a server server_ip);
             http = (if token \<noteq> [] then ConnectionManager_SetAccessToken token http else http) in
         (case ConnectionManager_Login (token_field (ce_lib env)) (cf_username c) (cf_password c) (ce_login env) http of
            None \<Rightarrow> None
          | Some (status, http, _) \<Rightarrow>
              if \<not> status then Some (ExitFailure ''The username or password you entered is incorrect'')
              else
                (case ConnectionManager_GetDns (re_lib (ce_routes env)) (ce_dns_fields env) (ce_dns_default_ipv6 env) (ce_dns env) http of
                   None \<Rightarrow> None
                 | Some ((dns4, dns6), http) \<Rightarrow>
                     if IPAddress_IsEmpty dns4 \<or> IPAddress_IsEmpty dns6
                     then Some (ExitFailure ''DNS server error! Check your connection!'')
                     else
                       (let route_manager = (if \<not> ar_disable_routing a
                              then Some (RouteManager_new (cli_routes env a server_ip (dns4, dns6) gateways)) else None) in
                        Some (Running (Vpn_new http (route_manager \<noteq> None) True (cli_plugins env a (route_manager \<noteq> None))
                                (if ar_disable_routing a then 0 else ar_max_full_restarts a)) route_manager))))))"

definition cli_start :: "cli_env \<Rightarrow> cli_args \<Rightarrow> cli_result option" where
  "cli_start env a =
     (case using_gateways env a of
        None \<Rightarrow> Some (ExitFailure ''Unable to find the default gateway IP address.'')
      | Some gateways \<Rightarrow>
         (case Parse (ce_lib env) (ConfigFile_new (ar_access_token a) (ar_sni a) (censorship_of (ar_bypass_method a))) of
            None \<Rightarrow> None
          | Some (Inl what, c) \<Rightarrow> Some (ExitFailure (''Config error: '' @ what))
          | Some (Inr _, c) \<Rightarrow>
              if ar_show_servers a then Some (ServersShown (servers_json c))
              else
                (case choose_server env a c of
                   None \<Rightarrow> Some (ExitFailure ''All servers unavailable!'')
                 | Some (server, token) \<Rightarrow> cli_connect env a gateways c server token)))"

definition cli_main :: "cli_env \<Rightarrow> string + cli_args \<Rightarrow> (cli_result \<times> os_command list) option" where
  "cli_main env options =
     (if \<not> ce_root env then Some (ExitFailure ''You must be root to run this program.'', [])
      else (case options of
          Inl err \<Rightarrow> Some (ExitFailure err, [])
        | Inr a \<Rightarrow>
            if \<not> ce_logger env then Some (ExitFailure ''Logger initialization failed. Exiting application.'', [])
            else (case cli_start env a of
                None \<Rightarrow> None
              | Some r \<Rightarrow> Some (r, if \<not> ar_disable_routing a then HealStaleResolvConf else []))))"

text \<open>What follows the event loop.\<close>

definition cli_cleanup ::
    "route_env \<Rightarrow> (route_entry list \<Rightarrow> route_entry list) \<Rightarrow> route_manager option \<Rightarrow> vpn_client \<Rightarrow>
     os_command list \<times> route_manager option \<times> bool \<times> vpn_client" where
  "cli_cleanup env order routes v =
     (let (run, routes) = (case routes of
            Some m \<Rightarrow> (case RouteManager_Clean env order m of (_, m, run) \<Rightarrow> (run, Some m))
          | None \<Rightarrow> ([], None));
          (stopping, v) = vpn_stop_begins v in
      (run, routes, stopping, v))"

section \<open>What the options mean\<close>

text \<open>The accepted methods stand for different strategies, with one exception: the Firefox 149 the help offers is
  compared with a name that is never accepted, so it falls through to the strategy of Yandex 26.4.
\<close>

theorem bypass_methods_distinct:
  "distinct (map censorship_of (removeAll ''sni-spoofing-firefox-149'' bypass_methods)) \<and>
   (\<forall>v. check_bypass_method v \<noteq> Inr ''sni-spoofing-firefox149'') \<and>
   check_bypass_method ''sni-spoofing-firefox-149'' = Inr ''sni-spoofing-firefox-149'' \<and>
   censorship_of ''sni-spoofing-firefox-149'' = censorship_of ''sni-spoofing-yandex-26-4''"
proof -
  have "removeAll ''sni-spoofing-firefox-149'' bypass_methods = [''obfuscation'',
     ''sni-spoofing-chrome-145'', ''sni-spoofing-chrome-146'', ''sni-spoofing-chrome-147'',
     ''sni-spoofing-chrome-148'', ''sni-spoofing-chrome-149'', ''sni-spoofing-firefox-150'', ''sni-spoofing-firefox-151'',
     ''sni-spoofing-safari-26-4'', ''sni-spoofing-safari-26-5'', ''sni-spoofing-yandex-24'', ''sni-spoofing-yandex-25'',
     ''sni-spoofing-yandex-26-3'', ''sni-spoofing-yandex-26-4'']"
    by (simp add: bypass_methods_def)
  moreover have "distinct (map censorship_of \<dots>)"
    by (simp add: censorship_of_def)
  moreover have "''sni-spoofing-firefox149'' \<notin> set bypass_methods" "''sni-spoofing-firefox-149'' \<in> set bypass_methods"
    by (simp_all add: bypass_methods_def)
  moreover have "censorship_of ''sni-spoofing-firefox-149'' = censorship_of ''sni-spoofing-yandex-26-4''"
    by (simp add: censorship_of_def)
  ultimately show ?thesis
    by (simp only: check_bypass_method_def) auto
qed

text \<open>The check of the connection strategy and its conversion agree on the four names of the help; the fifth
  strategy, which imitates a browser, cannot be chosen.
\<close>

theorem connection_strategies:
  "check_connection_strategy v = Inr s \<Longrightarrow> s = v \<and> connection_strategy_of s \<noteq> kBrowserMimicry \<and>
   (connection_strategy_of s = kPersistentTunnel \<longleftrightarrow> s = ''persistent-tunnel'') \<and>
   (connection_strategy_of s = kRollingTunnel \<longleftrightarrow> s = ''rolling-tunnel'') \<and>
   (connection_strategy_of s = kDualTunnel \<longleftrightarrow> s = ''dual-rolling-tunnel'') \<and>
   (connection_strategy_of s = kTripleTunnel \<longleftrightarrow> s = ''triple-rolling-tunnel'')"
  by (auto simp: check_connection_strategy_def connection_strategy_of_def split: if_splits)

theorem connection_strategies_witness:
  "connection_strategy_of ''dual-rolling-tunnel'' = kDualTunnel"
  using connection_strategies [of "''dual-rolling-tunnel''" "''dual-rolling-tunnel''"]
  by (simp add: check_connection_strategy_def)

section \<open>The running client\<close>

lemma cli_connect_Running:
  assumes "cli_connect env a gateways c server token = Some (Running v routes)"
  obtains server_ip dns4 dns6 http where "server_ip = ResolveDomain (ce_routes env) (si_host server)"
    "\<not> IPAddress_IsEmpty server_ip" "\<not> IPAddress_IsEmpty dns4" "\<not> IPAddress_IsEmpty dns6"
    "routes = (if ar_disable_routing a then None else Some (RouteManager_new (cli_routes env a server_ip (dns4, dns6) gateways)))"
    "v = Vpn_new http (\<not> ar_disable_routing a) True (cli_plugins env a (\<not> ar_disable_routing a))
       (if ar_disable_routing a then 0 else ar_max_full_restarts a)"
  using assms by (auto simp: cli_connect_def Let_def split: if_splits option.splits)

lemma cli_main_Running:
  assumes "cli_main env options = Some (Running v routes, run)"
  obtains a gateways c server token where "options = Inr a" "ce_root env" "ce_logger env"
    "run = (if ar_disable_routing a then [] else HealStaleResolvConf)"
    "using_gateways env a = Some gateways" "Parse (ce_lib env) (ConfigFile_new (ar_access_token a) (ar_sni a) (censorship_of (ar_bypass_method a))) = Some (Inr True, c)"
    "\<not> ar_show_servers a" "choose_server env a c = Some (server, token)"
    "cli_connect env a gateways c server token = Some (Running v routes)"
proof -
  obtain a where a: "options = Inr a" "ce_root env" "ce_logger env" "cli_start env a = Some (Running v routes)"
    "run = (if ar_disable_routing a then [] else HealStaleResolvConf)"
    using assms by (auto simp: cli_main_def split: if_splits sum.splits option.splits)
  obtain gateways where g: "using_gateways env a = Some gateways"
    using a(4) by (cases "using_gateways env a") (auto simp: cli_start_def)
  obtain r c where p: "Parse (ce_lib env) (ConfigFile_new (ar_access_token a) (ar_sni a) (censorship_of (ar_bypass_method a))) = Some (r, c)"
    using a(4) g by (auto simp: cli_start_def split: option.splits)
  obtain b where r: "r = Inr b"
    using a(4) g p by (cases r) (auto simp: cli_start_def)
  have "b = True"
    using p r by (auto simp: Parse_def token_error_def json_error_def split: if_splits option.splits sum.splits prod.splits)
  then show ?thesis
    using that [OF a(1-3,5) g] p r a(4) g
    by (auto simp: cli_start_def split: if_splits option.splits)
qed

lemma running_parts:
  assumes "cli_main env options = Some (Running v routes, run)"
  shows "\<exists>a server_ip dns gateways. options = Inr a \<and> \<not> IPAddress_IsEmpty server_ip \<and> \<not> IPAddress_IsEmpty (fst dns) \<and> \<not> IPAddress_IsEmpty (snd dns) \<and>
     (if ar_disable_routing a then routes = None \<and> vc_plugins v = [] \<and> vc_max_full_restarts v = 0
      else \<not> IPAddress_IsEmpty (fst gateways) \<and> routes = Some (RouteManager_new (cli_routes env a server_ip dns gateways)) \<and>
        vc_max_full_restarts v = ar_max_full_restarts a \<and>
        (SplitCommaSeparated (ar_blacklist_domains a) \<noteq> [] \<longrightarrow> (\<exists>b rest. vc_plugins v = Blacklist b # rest)))"
proof -
  obtain a gateways c server token where a: "options = Inr a" "using_gateways env a = Some gateways"
    "cli_connect env a gateways c server token = Some (Running v routes)"
    using assms by (rule cli_main_Running)
  obtain server_ip dns4 dns6 http where v: "\<not> IPAddress_IsEmpty server_ip" "\<not> IPAddress_IsEmpty dns4" "\<not> IPAddress_IsEmpty dns6"
    "routes = (if ar_disable_routing a then None else Some (RouteManager_new (cli_routes env a server_ip (dns4, dns6) gateways)))"
    "v = Vpn_new http (\<not> ar_disable_routing a) True (cli_plugins env a (\<not> ar_disable_routing a))
       (if ar_disable_routing a then 0 else ar_max_full_restarts a)"
    using a(3) by (rule cli_connect_Running)
  have "\<not> IPAddress_IsEmpty (fst gateways)" if "\<not> ar_disable_routing a"
    using a(2) that by (auto simp: using_gateways_def Let_def split: if_splits)
  then show ?thesis
    using a(1) v by (intro exI [of _ a] exI [of _ server_ip] exI [of _ "(dns4, dns6)"] exI [of _ gateways])
      (auto simp: Vpn_new_def cli_plugins_def Let_def)
qed


text \<open>C25: End to end: a client started without naming its outside interface, as by default, leaves the routes of its
  excluded networks on the machine when it ends.
\<close>

theorem default_client_leaves_routes:
  assumes "cli_main env (Inr a) = Some (Running v (Some m), run)" "ar_out_network_interface a = []"
    and "n \<in> set (SplitCommaSeparated (ar_exclude_networks a))" "n \<noteq> ip_str (vpn_server_ip (rm_config m))"
    and "GetDefaultNetworkInterfaceName (ce_routes env) \<noteq> []" "ar_tun_interface_name a \<noteq> GetDefaultNetworkInterfaceName (ce_routes env)"
    and "RouteManager_Apply (ce_routes env) (ar_tun_interface_name a) m = (st, m', run')"
    and "cli_cleanup env' order (Some m') v' = (run'', rest)" "\<And>xs. mset (order xs) = mset xs"
  shows "(is_ipv6_network n, n, Some (network_gateway (rm_config m) (is_ipv6_network n)), GetDefaultNetworkInterfaceName (ce_routes env))
    \<in> owed_routes (run' @ run'')"
proof -
  obtain server_ip dns gateways where m: "m = RouteManager_new (cli_routes env a server_ip dns gateways)"
    using running_parts [OF assms(1)] by (auto split: if_splits)
  let ?cfg = "cli_routes env a server_ip dns gateways"
  have cfg: "rm_config m = ?cfg" by (simp add: m RouteManager_new_def)
  have opts: "out_interface_name ?cfg = []" "n \<in> set (exclude_networks ?cfg)" "n \<noteq> []" "n \<noteq> ip_str (vpn_server_ip ?cfg)"
    using assms(2-4) cfg by (auto simp: cli_routes_def Let_def SplitCommaSeparated_def)
  obtain st'' m'' where clean: "RouteManager_Clean env' order m' = (st'', m'', run'')"
    using assms(8) by (cases "RouteManager_Clean env' order m'") (auto simp: cli_cleanup_def split: prod.splits)
  show ?thesis
    unfolding cfg
    by (rule detected_interface_forgotten [OF opts(1) assms(5,6) opts(2-4) assms(7) [unfolded m] clean assms(9)])
qed

text \<open>The server is the first of the preferred ones that the token has and that resolves; then no login is tried
  for the choice. Otherwise it is one that answered the login, and its token is the one the client uses: the
  login of the start then sends no second request.
\<close>

theorem server_chosen:
  assumes "choose_server env a c = Some (server, token)"
  shows "(\<exists>names s_name rest. SplitCommaSeparated (ar_preferred_server a) = names @ s_name # rest \<and> token = [] \<and>
        GetServer (ce_lib env) s_name c = Some server \<and> \<not> IPAddress_IsEmpty (ResolveDomain (ce_routes env) (si_host server)) \<and>
        preferred env c names = None) \<or>
     (ConfigFile_FindServerByLogin (ce_lib env) (ce_race env) c = Some \<lparr>lr_server = server, lr_access_token = token\<rparr> \<and>
        (token \<noteq> [] \<longrightarrow> (\<forall>kind config envs. ConnectionManager_Login (token_field (ce_lib env)) (cf_username c) (cf_password c) envs
           (ConnectionManager_SetAccessToken token (ConnectionManager_new kind config)) =
           Some (True, ConnectionManager_SetAccessToken token (ConnectionManager_new kind config), []))))"
proof -
  have pref: "\<exists>names s_name rest. ns = names @ s_name # rest \<and> GetServer (ce_lib env) s_name c = Some s \<and>
      \<not> IPAddress_IsEmpty (ResolveDomain (ce_routes env) (si_host s)) \<and> preferred env c names = None"
    if "preferred env c ns = Some s" for ns s
    using that
  proof (induction ns)
    case (Cons k ks)
    show ?case
    proof (cases "preferred env c [k]")
      case None
      then have "preferred env c ks = Some s"
        using Cons.prems by (auto split: option.splits if_splits)
      from Cons.IH [OF this] obtain names s_name rest where "ks = names @ s_name # rest" "GetServer (ce_lib env) s_name c = Some s"
        "\<not> IPAddress_IsEmpty (ResolveDomain (ce_routes env) (si_host s))" "preferred env c names = None" by blast
      moreover have "preferred env c (k # names) = None"
        using None \<open>preferred env c names = None\<close> by (auto split: option.splits if_splits)
      ultimately show ?thesis by (metis append_Cons)
    next
      case (Some s')
      then show ?thesis
        using Cons.prems by (intro exI [of _ "[]"] exI [of _ k] exI [of _ ks]) (auto split: option.splits if_splits)
    qed
  qed simp
  show ?thesis
    using assms pref [of "SplitCommaSeparated (ar_preferred_server a)" server]
    by (auto simp: choose_server_def Let_def ConnectionManager_Login_def ConnectionManager_SetAccessToken_def split: option.splits if_splits)
qed

section \<open>A concrete start\<close>

definition demo_cli_lib :: netlib where
  "demo_cli_lib = demo_lib\<lparr>make_address := (\<lambda>s. if s = [] then None else if CHR '':'' \<in> set s then Some (V6 1) else Some (V4 1))\<rparr>"

definition demo_cli_document :: jvalue where
  "demo_cli_document = config_document 1 ''fptn'' ''user'' ''secret'' [(''Riga'', ''203.0.113.7'', 443, [])]"

definition demo_cli_env :: cli_env where
  "demo_cli_env = \<lparr>ce_root = True, ce_logger = True, ce_routes = demo_route_env\<lparr>re_lib := demo_cli_lib\<rparr>,
     ce_lib = demo_config_lib\<lparr>cl_json := (\<lambda>s. if s = ''{'' then Inr demo_cli_document
       else if s = ''T'' then Inr (JObject [(''access_token'', JString ''tok'')]) else Inl ParseError)\<rparr>,
     ce_race = demo_race, ce_re2 = demo_all_re, ce_login = [demo_login_env ''T'' 200], ce_dns = [demo_login_env ''D'' 200],
     ce_dns_fields = (\<lambda>_. (JsonField ''172.20.0.1'', JsonField ''fd00::53'')), ce_dns_default_ipv6 = []\<rparr>"

definition demo_args :: cli_args where
  "demo_args = \<lparr>ar_access_token = ''fptn:eyJ9'', ar_disable_routing = False, ar_out_network_interface = [],
     ar_gateway_ip = ''192.168.1.1'', ar_gateway_ipv6 = ''fe80::1'', ar_mtu_size = 1500, ar_preferred_server = ''Riga'',
     ar_tun_interface_name = ''tun0'', ar_tun_interface_ip = ''10.10.0.1'', ar_tun_interface_ipv6 = ''fd00::1'', ar_sni = ''sni'',
     ar_blacklist_domains = ''domain:a.b'', ar_bypass_method = ''obfuscation'', ar_connection_strategy = ''persistent-tunnel'',
     ar_exclude_networks = ''10.0.0.0/8'', ar_include_networks = [], ar_enable_split_tunnel = False,
     ar_split_tunnel_mode = ''exclude'', ar_split_tunnel_domains = [], ar_max_full_restarts = 15, ar_show_servers = False\<rparr>"

lemma demo_obfuscated:
  assumes "ac_expected_md5_fingerprint c = []" "ac_censorship_strategy c = kTlsObfuscator"
  shows "\<exists>evs. Post c url request (demo_login_env text status) = Some (\<lparr>rs_body = text, rs_code = int status, rs_errmsg = []\<rparr>, evs)"
    and "\<exists>evs. Get c url (demo_login_env text status) = Some (\<lparr>rs_body = text, rs_code = int status, rs_errmsg = []\<rparr>, evs)"
  using assms
  by (simp_all add: Post_def Get_def run_request_def PostImpl_def GetImpl_def exchange_def demo_api_env_def demo_login_env_def
      IsRealityModeWithFakeHandshake_def secure_exchange_def tls_handshake_def ExecuteWithTimeout_def)

lemma demo_resolves: "\<not> IPAddress_IsEmpty (ResolveDomain (ce_routes demo_cli_env) ''203.0.113.7'')"
  by (simp add: ResolveDomain_def demo_cli_env_def demo_route_env_def demo_cli_lib_def IPv4Address_new_def IPAddress_new_def
      IPAddress_IsEmpty_def default_addr_def)

definition demo_parsed :: config_file where
  "demo_parsed = (ConfigFile_new ''fptn:eyJ9'' ''sni'' kTlsObfuscator)
    \<lparr>cf_version := 1, cf_service_name := ''fptn'', cf_username := ''user'', cf_password := ''secret'',
     cf_servers := [ServerInfo_new ''Riga'' ''203.0.113.7'' 443 []]\<rparr>"

lemma demo_cli_parsed: "Parse (ce_lib demo_cli_env) (ConfigFile_new ''fptn:eyJ9'' ''sni'' kTlsObfuscator) = Some (Inr True, demo_parsed)"
proof -
  have "token_data (ce_lib demo_cli_env) ''fptn:eyJ9'' = Some (base64_decode (ce_lib demo_cli_env) ''eyJ9'')"
    by (rule token_data_fptn) (simp_all add: token_text_def)
  then show ?thesis
    by (simp add: Parse_def ConfigFile_new_def demo_parsed_def base64_decode_def demo_cli_env_def demo_config_lib_def demo_cli_document_def
        read_config_document int32_def)
qed

lemma demo_chosen: "choose_server demo_cli_env demo_args demo_parsed = Some (ServerInfo_new ''Riga'' ''203.0.113.7'' 443 [], [])"
proof -
  have "SplitCommaSeparated ''Riga'' = [''Riga'']"
    by (simp add: SplitCommaSeparated_def Trim_def isspace_def)
  moreover have "GetServer (ce_lib demo_cli_env) ''Riga'' demo_parsed = Some (ServerInfo_new ''Riga'' ''203.0.113.7'' 443 [])"
    by (simp add: GetServer_def demo_parsed_def ServerInfo_new_def)
  ultimately show ?thesis
    using demo_resolves by (simp add: choose_server_def demo_args_def ServerInfo_new_def)
qed

lemma demo_gateways: "\<exists>g. using_gateways demo_cli_env demo_args = Some g"
  by (simp add: using_gateways_def demo_args_def demo_cli_env_def demo_route_env_def demo_cli_lib_def IPv4Address_new_def IPAddress_new_def
      IPAddress_IsEmpty_def default_addr_def Let_def)

lemma demo_logs_in:
  assumes "ac_expected_md5_fingerprint (manager_client m) = []" "ac_censorship_strategy (manager_client m) = kTlsObfuscator" "cm_jwt_access_token m = []"
  shows "\<exists>evs. ConnectionManager_Login (token_field (ce_lib demo_cli_env)) u p (ce_login demo_cli_env) m = Some (True, m\<lparr>cm_jwt_access_token := ''tok''\<rparr>, evs)"
proof -
  obtain evs where "Post (manager_client m) kApiLoginUrl (client_login_request u p) (demo_login_env ''T'' 200) =
      Some (\<lparr>rs_body = ''T'', rs_code = int 200, rs_errmsg = []\<rparr>, evs)"
    using demo_obfuscated(1) [OF assms(1,2)] by blast
  moreover have "token_field (ce_lib demo_cli_env) ''T'' = JsonField ''tok''"
    by (simp add: token_field_def demo_cli_env_def jcontains_def jfield_def)
  ultimately show ?thesis
    using assms(3) by (simp add: ConnectionManager_Login_def login_answered_def kMaxRetries_def demo_cli_env_def)
qed

lemma demo_dns:
  assumes "ac_expected_md5_fingerprint (manager_client m) = []" "ac_censorship_strategy (manager_client m) = kTlsObfuscator" "cm_dns_ipv4 m = IPAddress_empty"
  shows "\<exists>dns4 dns6 m'. ConnectionManager_GetDns (re_lib (ce_routes demo_cli_env)) (ce_dns_fields demo_cli_env) (ce_dns_default_ipv6 demo_cli_env)
      (ce_dns demo_cli_env) m = Some ((dns4, dns6), m') \<and> \<not> IPAddress_IsEmpty dns4 \<and> \<not> IPAddress_IsEmpty dns6"
proof -
  obtain evs where "Get (manager_client m) kApiDnsUrl (demo_login_env ''D'' 200) = Some (\<lparr>rs_body = ''D'', rs_code = int 200, rs_errmsg = []\<rparr>, evs)"
    using demo_obfuscated(2) [OF assms(1,2)] by blast
  then show ?thesis
    using assms(3) by (simp add: ConnectionManager_GetDns_def dns_answered_def kMaxRetries_def demo_cli_env_def demo_cli_lib_def demo_route_env_def
      IPv4Address_new_def IPv6Address_new_def IPAddress_new_def IPAddress_IsEmpty_def IPAddress_empty_def default_addr_def is_v6_def)
qed

lemma demo_runs:
  "\<exists>v dns gateways. cli_main demo_cli_env (Inr demo_args) = Some (Running v (Some (RouteManager_new
     (cli_routes demo_cli_env demo_args (ResolveDomain (ce_routes demo_cli_env) ''203.0.113.7'') dns gateways))), HealStaleResolvConf)"
proof -
  let ?server = "ServerInfo_new ''Riga'' ''203.0.113.7'' 443 []" and ?ip = "ResolveDomain (ce_routes demo_cli_env) ''203.0.113.7''"
  let ?http = "ConnectionManager_new (connection_strategy_of (ar_connection_strategy demo_args)) (cli_connection demo_cli_env demo_args ?server ?ip)"
  have client: "ac_expected_md5_fingerprint (manager_client ?http) = []" "ac_censorship_strategy (manager_client ?http) = kTlsObfuscator"
      "cm_jwt_access_token ?http = []"
    by (simp_all add: manager_client_def ConnectionManager_new_def cli_connection_def Let_def ServerInfo_new_def demo_args_def censorship_of_def)
  from demo_logs_in [OF client] obtain evs where login:
    "ConnectionManager_Login (token_field (ce_lib demo_cli_env)) (cf_username demo_parsed) (cf_password demo_parsed) (ce_login demo_cli_env) ?http =
       Some (True, ?http\<lparr>cm_jwt_access_token := ''tok''\<rparr>, evs)" by blast
  have client': "ac_expected_md5_fingerprint (manager_client (?http\<lparr>cm_jwt_access_token := ''tok''\<rparr>)) = []"
      "ac_censorship_strategy (manager_client (?http\<lparr>cm_jwt_access_token := ''tok''\<rparr>)) = kTlsObfuscator"
      "cm_dns_ipv4 (?http\<lparr>cm_jwt_access_token := ''tok''\<rparr>) = IPAddress_empty"
    using client by (simp_all add: manager_client_def ConnectionManager_new_def)
  from demo_dns [OF client'] obtain dns4 dns6 m' where dns: "ConnectionManager_GetDns (re_lib (ce_routes demo_cli_env)) (ce_dns_fields demo_cli_env)
      (ce_dns_default_ipv6 demo_cli_env) (ce_dns demo_cli_env) (?http\<lparr>cm_jwt_access_token := ''tok''\<rparr>) = Some ((dns4, dns6), m')"
    "\<not> IPAddress_IsEmpty dns4" "\<not> IPAddress_IsEmpty dns6" by blast
  obtain gateways where g: "using_gateways demo_cli_env demo_args = Some gateways"
    using demo_gateways by blast
  have routing: "\<not> ar_disable_routing demo_args" "\<not> ar_show_servers demo_args" by (simp_all add: demo_args_def)
  have connect: "cli_connect demo_cli_env demo_args gateways demo_parsed ?server [] =
      Some (Running (Vpn_new m' True True (cli_plugins demo_cli_env demo_args True) (ar_max_full_restarts demo_args))
        (Some (RouteManager_new (cli_routes demo_cli_env demo_args ?ip (dns4, dns6) gateways))))"
    using login dns demo_resolves routing by (simp add: cli_connect_def Let_def ServerInfo_new_def)
  have "Parse (ce_lib demo_cli_env) (ConfigFile_new (ar_access_token demo_args) (ar_sni demo_args) (censorship_of (ar_bypass_method demo_args))) =
      Some (Inr True, demo_parsed)"
    using demo_cli_parsed by (simp add: demo_args_def censorship_of_def)
  then have "cli_start demo_cli_env demo_args = Some (Running (Vpn_new m' True True (cli_plugins demo_cli_env demo_args True) (ar_max_full_restarts demo_args))
        (Some (RouteManager_new (cli_routes demo_cli_env demo_args ?ip (dns4, dns6) gateways))))"
    using g demo_chosen connect routing by (simp add: cli_start_def)
  then have "cli_main demo_cli_env (Inr demo_args) = Some (Running (Vpn_new m' True True (cli_plugins demo_cli_env demo_args True) (ar_max_full_restarts demo_args))
        (Some (RouteManager_new (cli_routes demo_cli_env demo_args ?ip (dns4, dns6) gateways))), HealStaleResolvConf)"
    using routing by (simp add: cli_main_def) (simp add: demo_cli_env_def)
  then show ?thesis by blast
qed


theorem default_client_leaves_routes_witness:
  "\<exists>v m run' run''. cli_main demo_cli_env (Inr demo_args) = Some (Running v (Some m), HealStaleResolvConf) \<and>
     (\<exists>st m' rest. RouteManager_Apply (ce_routes demo_cli_env) ''tun0'' m = (st, m', run') \<and>
        cli_cleanup demo_route_env rev (Some m') v = (run'', rest)) \<and>
     (\<exists>via. (False, ''10.0.0.0/8'', via, ''eth0'') \<in> owed_routes (run' @ run''))"
proof -
  obtain v dns gateways where main: "cli_main demo_cli_env (Inr demo_args) = Some (Running v (Some (RouteManager_new
     (cli_routes demo_cli_env demo_args (ResolveDomain (ce_routes demo_cli_env) ''203.0.113.7'') dns gateways))), HealStaleResolvConf)"
    using demo_runs by blast
  let ?m = "RouteManager_new (cli_routes demo_cli_env demo_args (ResolveDomain (ce_routes demo_cli_env) ''203.0.113.7'') dns gateways)"
  obtain st m' run' where op: "RouteManager_Apply (ce_routes demo_cli_env) ''tun0'' ?m = (st, m', run')"
    using prod_cases3 by blast
  obtain run'' rest where cl: "cli_cleanup demo_route_env rev (Some m') v = (run'', rest)"
    by (cases "cli_cleanup demo_route_env rev (Some m') v") blast
  have interface: "GetDefaultNetworkInterfaceName (ce_routes demo_cli_env) = ''eth0''"
    using demo_interface by (simp add: GetDefaultNetworkInterfaceName_def demo_cli_env_def)
  have net: "SplitCommaSeparated (ar_exclude_networks demo_args) = [''10.0.0.0/8'']"
    by (simp add: demo_args_def SplitCommaSeparated_def Trim_def isspace_def)
  have server: "ip_str (vpn_server_ip (rm_config ?m)) = ''203.0.113.7''"
    by (simp add: RouteManager_new_def cli_routes_def Let_def ResolveDomain_def demo_cli_env_def demo_route_env_def demo_cli_lib_def
        IPv4Address_new_def IPAddress_new_def)
  have "(is_ipv6_network ''10.0.0.0/8'', ''10.0.0.0/8'', Some (network_gateway (rm_config ?m) (is_ipv6_network ''10.0.0.0/8'')), ''eth0'') \<in> owed_routes (run' @ run'')"
    using default_client_leaves_routes [OF main _ _ _ _ _ _ cl, of "''10.0.0.0/8''" st run'] op interface net server
    by (simp add: demo_args_def)
  then have "(False, ''10.0.0.0/8'', Some (network_gateway (rm_config ?m) False), ''eth0'') \<in> owed_routes (run' @ run'')"
    by (simp add: is_ipv6_network_def)
  then show ?thesis using main op cl by blast
qed

theorem server_chosen_witness:
  "GetServer (ce_lib demo_cli_env) ''Riga'' demo_parsed = Some (ServerInfo_new ''Riga'' ''203.0.113.7'' 443 []) \<or>
   ConfigFile_FindServerByLogin (ce_lib demo_cli_env) (ce_race demo_cli_env) demo_parsed \<noteq> None"
proof -
  have "SplitCommaSeparated (ar_preferred_server demo_args) = [''Riga'']"
    by (simp add: demo_args_def SplitCommaSeparated_def Trim_def isspace_def)
  then show ?thesis
    using server_chosen [OF demo_chosen] by (auto simp: Cons_eq_append_conv)
qed

end
