(* ===== verification/ServerMain.thy ===== *)
theory ServerMain
  imports VpnManager SessionProps SessionRequests RouteProps
begin

text \<open>
  The server program: its options (\<open>src/fptn-server/config/server_config.cpp\<close>), the routing of the host
  (\<open>routing/route_manager.cpp\<close> as it is built for Linux), the virtual interface, the accept loop of
  \<open>web/listener/listener.cpp\<close>, and \<open>main\<close> of \<open>fptn-server.cpp\<close>, which makes the tables, the filters and the
  web server from the options and runs them until a signal comes. What the option parser gives is the record
  \<open>server_options\<close>; a command given to the system is an \<open>os_command\<close> of theory Routes.
\<close>

section \<open>Options\<close>

text \<open>The values of the options. A field whose accessor returns the value as it is has the accessor's name.\<close>

record server_options =
  ServerCrt :: string
  ServerKey :: string
  OutNetworkInterface :: string
  so_server_port :: int
  MtuSize :: int
  TunInterfaceName :: string
  so_tun_ip :: string
  so_tun_network :: string
  so_tun_mask :: int
  so_tun_ipv6 :: string
  so_tun_network_ipv6 :: string
  so_tun_mask_ipv6 :: int
  UserFile :: string
  so_disable_bittorrent :: string
  PrometheusAccessKey :: string
  so_use_remote_server_auth :: string
  RemoteServerAuthHost :: string
  RemoteServerAuthPort :: int
  so_max_active_sessions :: int
  so_enable_detect_probing :: string
  so_default_proxy_domain :: string
  so_allowed_sni_list :: string
  ServerExternalIPs :: string

definition FPTN_DEFAULT_SNI :: string where "FPTN_DEFAULT_SNI = ''rutube.ru''"

definition ParseBoolean :: "string \<Rightarrow> bool" where
  "ParseBoolean v \<longleftrightarrow> map tolower v = ''true''"

definition TunInterfaceIPv4 :: "netlib \<Rightarrow> server_options \<Rightarrow> ip_address" where
  "TunInterfaceIPv4 lib c = IPv4Address_new lib (so_tun_ip c)"

definition TunInterfaceNetworkIPv4Address :: "netlib \<Rightarrow> server_options \<Rightarrow> ip_address" where
  "TunInterfaceNetworkIPv4Address lib c = IPv4Address_new lib (so_tun_network c)"

definition TunInterfaceNetworkIPv4Mask :: "server_options \<Rightarrow> u32" where
  "TunInterfaceNetworkIPv4Mask c = word_of_int (so_tun_mask c)"

definition TunInterfaceIPv6 :: "netlib \<Rightarrow> server_options \<Rightarrow> ip_address" where
  "TunInterfaceIPv6 lib c = IPv6Address_new lib (so_tun_ipv6 c)"

definition TunInterfaceNetworkIPv6Address :: "netlib \<Rightarrow> server_options \<Rightarrow> ip_address" where
  "TunInterfaceNetworkIPv6Address lib c = IPv6Address_new lib (so_tun_network_ipv6 c)"

definition TunInterfaceNetworkIPv6Mask :: "server_options \<Rightarrow> u32" where
  "TunInterfaceNetworkIPv6Mask c = word_of_int (so_tun_mask_ipv6 c)"

definition DisableBittorrent :: "server_options \<Rightarrow> bool" where
  "DisableBittorrent c = ParseBoolean (so_disable_bittorrent c)"

definition UseRemoteServerAuth :: "server_options \<Rightarrow> bool" where
  "UseRemoteServerAuth c = ParseBoolean (so_use_remote_server_auth c)"

definition EnableDetectProbing :: "server_options \<Rightarrow> bool" where
  "EnableDetectProbing c = ParseBoolean (so_enable_detect_probing c)"

definition DefaultProxyDomain :: "server_options \<Rightarrow> string" where
  "DefaultProxyDomain c = (if so_default_proxy_domain c = [] then FPTN_DEFAULT_SNI else so_default_proxy_domain c)"

definition AllowedSniList :: "server_options \<Rightarrow> string list" where
  "AllowedSniList c =
     (if so_allowed_sni_list c \<noteq> [] then SplitCommaSeparated (so_allowed_sni_list c @ '','' @ DefaultProxyDomain c)
      else [])"

definition MaxActiveSessionsPerUser :: "server_options \<Rightarrow> u64" where
  "MaxActiveSessionsPerUser c = word_of_int (so_max_active_sessions c)"

section \<open>Routing of the host\<close>

record server_routes =
  sr_out :: string
  sr_tun :: string
  sr_running :: bool

definition ServerRoutes_new :: "string \<Rightarrow> string \<Rightarrow> server_routes" where
  "ServerRoutes_new out tun = \<lparr>sr_out = out, sr_tun = tun, sr_running = False\<rparr>"

definition forward_rule :: "bool \<Rightarrow> string \<Rightarrow> string \<Rightarrow> fw_rule" where
  "forward_rule v6 from_dev to_dev = (any_rule ''FORWARD'' ''ACCEPT'')\<lparr>fw_v6 := v6, fw_in := Some from_dev, fw_out := Some to_dev\<rparr>"

definition masquerade_rule :: "bool \<Rightarrow> string \<Rightarrow> fw_rule" where
  "masquerade_rule v6 out = (masquerade out)\<lparr>fw_v6 := v6\<rparr>"

text \<open>The flags of the protocol and of the target are part of their words.\<close>

definition clamp_rule :: fw_rule where
  "clamp_rule = (any_rule ''FORWARD'' ''TCPMSS --clamp-mss-to-pmtu'')
     \<lparr>fw_table := Some ''mangle'', fw_proto := Some ''tcp --tcp-flags SYN,RST SYN''\<rparr>"

definition server_apply_commands :: "string \<Rightarrow> string \<Rightarrow> os_command list" where
  "server_apply_commands out tun =
     [Shell ''systemctl start sysctl'',
      Shell ''sysctl -w net.ipv4.ip_forward=1'',
      Shell ''sysctl -w net.ipv4.conf.all.src_valid_mark=1'',
      Shell ''sysctl -w net.ipv4.conf.all.rp_filter=0'',
      Shell ''sysctl -w net.ipv4.conf.default.rp_filter=0'',
      Shell ''sysctl -w net.ipv6.conf.all.disable_ipv6=0'',
      Shell ''sysctl -w net.ipv6.conf.default.disable_ipv6=0'',
      Shell ''sysctl -w net.ipv6.conf.lo.disable_ipv6=0'',
      Shell ''sysctl -w net.ipv6.conf.all.forwarding=1'',
      Shell ''sysctl -w net.ipv6.conf.default.forwarding=1'',
      Shell ''sysctl -w net.core.somaxconn=65535'',
      Shell ''sysctl -w net.core.rmem_max=134217728'',
      Shell ''sysctl -w net.core.wmem_max=134217728'',
      Shell ''sysctl -w net.core.netdev_max_backlog=5000'',
      Shell ''sysctl -w net.ipv4:tcp_max_syn_backlog=4096'', Shell ''sysctl -p'',
      Shell ''iptables -P INPUT ACCEPT'', Shell ''iptables -P FORWARD ACCEPT'', Shell ''iptables -P OUTPUT ACCEPT'',
      RuleAppend (forward_rule False tun out),
      RuleAppend (forward_rule False out tun),
      RuleAppend (masquerade_rule False out),
      Shell ''ip6tables -P INPUT ACCEPT'', Shell ''ip6tables -P FORWARD ACCEPT'', Shell ''ip6tables -P OUTPUT ACCEPT'',
      RuleAppend (forward_rule True tun out),
      RuleAppend (forward_rule True out tun),
      RuleAppend (masquerade_rule True out),
      Shell (''ip link set dev '' @ tun @ '' txqueuelen 20000''),
      Shell (''ip link set dev '' @ tun @ '' txqlen 20000''),
      RuleAppend (clamp_rule\<lparr>fw_out := Some tun\<rparr>),
      RuleAppend (clamp_rule\<lparr>fw_in := Some tun\<rparr>)]"

definition server_clean_commands :: "string \<Rightarrow> string \<Rightarrow> os_command list" where
  "server_clean_commands out tun =
     [RuleDelete (forward_rule False tun out), RuleDelete (forward_rule False out tun),
      RuleDelete (masquerade_rule False out)]"

text \<open>A command that fails is only logged, so \<open>Apply\<close> returns true. The results are followed by the manager
  and the commands run.\<close>

definition ServerRoutes_Apply :: "server_routes \<Rightarrow> bool \<times> server_routes \<times> os_command list" where
  "ServerRoutes_Apply m = (True, m\<lparr>sr_running := True\<rparr>, server_apply_commands (sr_out m) (sr_tun m))"

definition ServerRoutes_Clean :: "server_routes \<Rightarrow> bool \<times> server_routes \<times> os_command list" where
  "ServerRoutes_Clean m =
     (if \<not> sr_running m then (False, m, [])
      else (True, m\<lparr>sr_running := False\<rparr>, server_clean_commands (sr_out m) (sr_tun m)))"

section \<open>The virtual interface\<close>

record virtual_interface =
  vi_running :: bool
  vi_name :: string
  vi_mtu :: int
  vi_ipv4 :: "ip_address \<times> u32"
  vi_ipv6 :: "ip_address \<times> u32"
  vi_route_manager :: server_routes

datatype interface_call = DeviceStart | DeviceStop | Ran os_command

definition VirtualInterface_new ::
    "string \<Rightarrow> int \<Rightarrow> server_routes \<Rightarrow> ip_address \<times> u32 \<Rightarrow> ip_address \<times> u32 \<Rightarrow> virtual_interface" where
  "VirtualInterface_new name mtu routes ipv4 ipv6 =
     \<lparr>vi_running = False, vi_name = name, vi_mtu = mtu, vi_ipv4 = ipv4, vi_ipv6 = ipv6, vi_route_manager = routes\<rparr>"

definition VirtualInterface_Start :: "virtual_interface \<Rightarrow> bool \<times> virtual_interface \<times> interface_call list" where
  "VirtualInterface_Start v =
     (case ServerRoutes_Apply (vi_route_manager v) of
        (_, m, run) \<Rightarrow> (True, v\<lparr>vi_running := True, vi_route_manager := m\<rparr>, DeviceStart # map Ran run))"

definition VirtualInterface_Stop :: "virtual_interface \<Rightarrow> bool \<times> virtual_interface \<times> interface_call list" where
  "VirtualInterface_Stop v =
     (case ServerRoutes_Clean (vi_route_manager v) of
        (_, m, run) \<Rightarrow> (True, v\<lparr>vi_running := False, vi_route_manager := m\<rparr>, DeviceStop # map Ran run))"

text \<open>The thread that \<open>Check\<close> asks about is never started.\<close>

definition VirtualInterface_Check :: "virtual_interface \<Rightarrow> bool" where
  "VirtualInterface_Check v = False"

section \<open>The accept loop\<close>

text \<open>What an accept can end with: an error, a connection whose socket takes its options, with what
  the constructor of its session notes of its own settings, or one on which setting an option throws. \<open>Stop\<close> closes the acceptor between two of them.\<close>

datatype accept_event = AcceptError | Accepted nat bool | OptionThrows nat | ListenerStop

fun accept_loop :: "session_config \<Rightarrow> bool \<Rightarrow> accept_event list \<Rightarrow> (nat \<times> session_config) list \<times> bool" where
  "accept_loop cfg running [] = ([], running)"
| "accept_loop cfg running (e # es) =
     (if \<not> running then ([], False)
      else (case e of
          AcceptError \<Rightarrow> accept_loop cfg True es
        | Accepted c init \<Rightarrow>
            (case accept_loop cfg True es of (sessions, r) \<Rightarrow> ((c, cfg\<lparr>sc_init_completed := init\<rparr>) # sessions, r))
        | OptionThrows c \<Rightarrow> ([], False)
        | ListenerStop \<Rightarrow> accept_loop cfg False es))"

text \<open>\<open>prepared\<close>: the acceptor could be opened, bound and set listening.\<close>

definition Listener_Run :: "bool \<Rightarrow> session_config \<Rightarrow> accept_event list \<Rightarrow> (nat \<times> session_config) list \<times> bool" where
  "Listener_Run prepared cfg es = (if \<not> prepared then ([], False) else accept_loop cfg True es)"

section \<open>The program\<close>

record server_parts =
  pt_interface :: virtual_interface
  pt_users :: "(string \<times> int) + user_db"
  pt_server :: server
  pt_port :: u16
  pt_dns :: "ip_address \<times> ip_address"
  pt_api :: "(string, api_handler) umap"
  pt_session :: session_config
  pt_external_ips :: string
  pt_handshakes :: handshake_cache
  pt_filters :: "packet_filter list"

datatype server_result = ServerExit string | ServerRuns server_parts

text \<open>The machine: whether the program runs as root, which files are there, the logger, the users' file, and
  whether the TLS library takes the certificate and the key.\<close>

record server_env =
  sn_root :: bool
  sn_exists :: "string \<Rightarrow> bool"
  sn_logger :: bool
  sn_users :: "string \<Rightarrow> disk_file option"
  sn_tls :: "string \<Rightarrow> string \<Rightarrow> bool"
  sn_net :: netlib

definition server_table_config :: "netlib \<Rightarrow> server_options \<Rightarrow> table_config" where
  "server_table_config lib c =
     \<lparr>tun_ipv4 = TunInterfaceIPv4 lib c, tun_ipv4_network = TunInterfaceNetworkIPv4Address lib c,
      tun_network_ipv4_mask = TunInterfaceNetworkIPv4Mask c,
      tun_ipv6 = TunInterfaceIPv6 lib c, tun_ipv6_network = TunInterfaceNetworkIPv6Address lib c,
      tun_network_ipv6_mask = TunInterfaceNetworkIPv6Mask c\<rparr>"

definition server_interface :: "netlib \<Rightarrow> server_options \<Rightarrow> virtual_interface" where
  "server_interface lib c =
     VirtualInterface_new (TunInterfaceName c) (MtuSize c)
       (ServerRoutes_new (OutNetworkInterface c) (TunInterfaceName c))
       (TunInterfaceIPv4 lib c, TunInterfaceNetworkIPv4Mask c)
       (TunInterfaceIPv6 lib c, TunInterfaceNetworkIPv6Mask c)"

definition UserManager_new :: "(string \<Rightarrow> disk_file option) \<Rightarrow> server_options \<Rightarrow> (string \<times> int) + user_db" where
  "UserManager_new files c =
     (if UseRemoteServerAuth c then Inl (RemoteServerAuthHost c, RemoteServerAuthPort c)
      else Inr (CommonUserManager_new (files (UserFile c))))"

text \<open>The IPv6 mask is a C integer; 128 minus a negative one shifts everything out, as 128 minus zero
  does.\<close>

definition server_filters :: "netlib \<Rightarrow> server_options \<Rightarrow> packet_filter list option" where
  "server_filters lib c = do {
     scan \<leftarrow> AntiScan_new lib (TunInterfaceIPv4 lib c) (TunInterfaceNetworkIPv4Address lib c) (TunInterfaceNetworkIPv4Mask c)
               (TunInterfaceIPv6 lib c) (TunInterfaceNetworkIPv6Address lib c) (nat (so_tun_mask_ipv6 c));
     Some (Filter_Add (AntiScan scan) (if DisableBittorrent c then Filter_Add BitTorrent [] else []))
   }"

definition listener_session :: "server_options \<Rightarrow> session_config" where
  "listener_session c =
     \<lparr>sc_init_completed = True, sc_enable_detect_probing = EnableDetectProbing c,
      sc_default_proxy_domain = DefaultProxyDomain c, sc_allowed_sni_list = AllowedSniList c\<rparr>"

text \<open>Once the table is there its shifts were defined, so what the filters can still fail with is an
  exception; the outer option is an undefined shift.\<close>

definition server_parts_of :: "server_env \<Rightarrow> server_options \<Rightarrow> server_result option" where
  "server_parts_of env c =
     (let lib = sn_net env; failed = Some (ServerExit ''An error occurred'') in
      case Table_new lib (server_table_config lib c) of
        Inl BadAddress \<Rightarrow> failed
      | Inl UndefinedShift \<Rightarrow> None
      | Inr table \<Rightarrow>
          if \<not> sn_tls env (ServerCrt c) (ServerKey c) then failed
          else (case server_filters lib c of
              None \<Rightarrow> failed
            | Some filters \<Rightarrow>
                Some (ServerRuns \<lparr>pt_interface = server_interface lib c,
                  pt_users = UserManager_new (sn_users env) c,
                  pt_server = \<lparr>sv_running = False, sv_sessions = [], sv_max_active = unat (MaxActiveSessionsPerUser c),
                               sv_table = table\<rparr>,
                  pt_port = word_of_int (so_server_port c),
                  pt_dns = (TunInterfaceIPv4 lib c, TunInterfaceIPv6 lib c),
                  pt_api = api_handles (PrometheusAccessKey c),
                  pt_session = listener_session c,
                  pt_external_ips = ServerExternalIPs c,
                  pt_handshakes = HandshakeCacheManager_new (DefaultProxyDomain c) 3600,
                  pt_filters = filters\<rparr>)))"

definition server_main :: "server_env \<Rightarrow> string + server_options \<Rightarrow> server_result option" where
  "server_main env options =
     (if \<not> sn_root env then Some (ServerExit ''You must be root to run this program.'')
      else (case options of
          Inl err \<Rightarrow> Some (ServerExit err)
        | Inr c \<Rightarrow>
            if \<not> sn_exists env (ServerCrt c) \<or> \<not> sn_exists env (ServerKey c) then
              Some (ServerExit ''SSL certificate or key file does not exist!'')
            else if \<not> sn_logger env then Some (ServerExit ''Logger initialization failed. Exiting application.'')
            else server_parts_of env c))"

text \<open>\<open>Manager::Start\<close> and \<open>Stop\<close>, with the calls to the machine; the threads of the manager are the loops
  of theory VpnManager.\<close>

definition Manager_Start :: "server_parts \<Rightarrow> server_parts \<times> interface_call list" where
  "Manager_Start p =
     (case VirtualInterface_Start (pt_interface p) of
        (_, v, run) \<Rightarrow> (p\<lparr>pt_server := Server_Start (pt_server p), pt_interface := v\<rparr>, run))"

definition Manager_Stop :: "server_parts \<Rightarrow> server_parts \<times> interface_call list" where
  "Manager_Stop p =
     (case VirtualInterface_Stop (pt_interface p) of
        (_, v, run) \<Rightarrow> (p\<lparr>pt_interface := v, pt_server := snd (Server_Stop (pt_server p))\<rparr>, run))"

text \<open>A life of the program from \<open>Start\<close> on: the signal, \<open>Stop\<close>, and the destructors of the manager and of the
  interface, which stop again, and of the route manager, which cleans.\<close>

definition server_life :: "server_parts \<Rightarrow> server_parts \<times> interface_call list" where
  "server_life p =
     (let (p, started) = Manager_Start p; (p, stopped) = Manager_Stop p; (p, destroyed) = Manager_Stop p in
      case VirtualInterface_Stop (pt_interface p) of
        (_, v, gone) \<Rightarrow>
          (case ServerRoutes_Clean (vi_route_manager v) of
             (_, m, cleaned) \<Rightarrow>
               (p\<lparr>pt_interface := v\<lparr>vi_route_manager := m\<rparr>\<rparr>, started @ stopped @ destroyed @ gone @ map Ran cleaned)))"

section \<open>The firewall after the program\<close>

definition commands_run :: "interface_call list \<Rightarrow> os_command list" where
  "commands_run calls = concat (map (\<lambda>c. case c of Ran cmd \<Rightarrow> [cmd] | _ \<Rightarrow> []) calls)"

lemma commands_run_simps [simp]:
  "commands_run [] = []" "commands_run (DeviceStart # cs) = commands_run cs"
  "commands_run (DeviceStop # cs) = commands_run cs" "commands_run (Ran c # cs) = c # commands_run cs"
  "commands_run (xs @ ys) = commands_run xs @ commands_run ys" "commands_run (map Ran run) = run"
  by (induction run) (auto simp: commands_run_def)

definition left_rules :: "string \<Rightarrow> string \<Rightarrow> fw_rule multiset" where
  "left_rules out tun =
     {#forward_rule True tun out, forward_rule True out tun, masquerade_rule True out,
       clamp_rule\<lparr>fw_out := Some tun\<rparr>, clamp_rule\<lparr>fw_in := Some tun\<rparr>#}"

lemma server_commands:
  "deleted (server_apply_commands out tun) = []"
  "mset (appended (server_apply_commands out tun)) = mset (deleted (server_clean_commands out tun)) + left_rules out tun"
  "appended (server_clean_commands out tun) = []"
  by (simp_all add: server_apply_commands_def server_clean_commands_def left_rules_def)

lemma life_commands:
  assumes "\<not> sr_running (vi_route_manager (pt_interface p))"
  shows "commands_run (snd (server_life p)) =
     server_apply_commands (sr_out (vi_route_manager (pt_interface p))) (sr_tun (vi_route_manager (pt_interface p))) @
     server_clean_commands (sr_out (vi_route_manager (pt_interface p))) (sr_tun (vi_route_manager (pt_interface p)))"
  by (simp add: server_life_def Manager_Start_def Manager_Stop_def VirtualInterface_Start_def VirtualInterface_Stop_def
      ServerRoutes_Apply_def ServerRoutes_Clean_def)

lemma owed_lives:
  "owed_rules (concat (replicate n (server_apply_commands out tun @ server_clean_commands out tun))) =
     repeat_mset n (left_rules out tun)"
proof (induction n)
  case (Suc n)
  have "concat (replicate (Suc n) xs) = concat (replicate n xs) @ xs" for xs :: "os_command list"
    by (induction n) simp_all
  then show ?case
    using Suc server_commands
    by (simp add: owed_rules_append fold_rules_only_appended fold_rules_only_deleted ac_simps)
qed simp

text \<open>The parts of a server that runs.\<close>

lemma server_main_runs:
  assumes "server_main env (Inr c) = Some (ServerRuns p)"
  obtains table filters where "Table_new (sn_net env) (server_table_config (sn_net env) c) = Inr table"
    "server_filters (sn_net env) c = Some filters"
    "pt_interface p = server_interface (sn_net env) c" "pt_filters p = filters" "pt_session p = listener_session c"
    "pt_server p = \<lparr>sv_running = False, sv_sessions = [], sv_max_active = unat (MaxActiveSessionsPerUser c), sv_table = table\<rparr>"
proof -
  have "server_parts_of env c = Some (ServerRuns p)"
    using assms by (simp add: server_main_def split: if_splits)
  then show ?thesis
    by (auto simp: server_parts_of_def Let_def split: sum.splits gen_error.splits if_splits option.splits intro: that)
qed

text \<open>C30: The server leaves firewall rules behind: after each run of the program, ended in order, five rules stay on
  the host, the three for IPv6 and the two that clamp the segment size. After \<open>n\<close> runs each is there
  \<open>n\<close> times.\<close>

theorem server_rules_left:
  assumes "server_main env (Inr c) = Some (ServerRuns p)"
  shows "owed_rules (concat (replicate n (commands_run (snd (server_life p))))) =
     repeat_mset n (left_rules (OutNetworkInterface c) (TunInterfaceName c))"
proof -
  have "pt_interface p = server_interface (sn_net env) c" using assms by (rule server_main_runs)
  then have "vi_route_manager (pt_interface p) = ServerRoutes_new (OutNetworkInterface c) (TunInterfaceName c)"
    by (simp add: server_interface_def VirtualInterface_new_def)
  then show ?thesis using life_commands [of p] owed_lives by (simp add: ServerRoutes_new_def)
qed

section \<open>The accept loop\<close>

fun ends_loop :: "accept_event \<Rightarrow> bool" where
  "ends_loop (OptionThrows c) = True"
| "ends_loop ListenerStop = True"
| "ends_loop _ = False"

fun session_of :: "session_config \<Rightarrow> accept_event \<Rightarrow> (nat \<times> session_config) list" where
  "session_of cfg (Accepted c init) = [(c, cfg\<lparr>sc_init_completed := init\<rparr>)]"
| "session_of cfg _ = []"

lemma accept_loop_stopped [simp]: "accept_loop cfg False es = ([], False)"
  by (cases es) simp_all

lemma accept_loop_until:
  "accept_loop cfg True es =
     (concat (map (session_of cfg) (takeWhile (\<lambda>e. \<not> ends_loop e) es)), list_all (\<lambda>e. \<not> ends_loop e) es)"
proof (induction es)
  case (Cons e es)
  then show ?case by (cases e) simp_all
qed simp

text \<open>The accept loop gives a session to every connection up to the first event that ends it, in their order, and
  errors of \<open>accept\<close> do not end it; but besides \<open>Stop\<close>, one connection on which a socket option throws does, and
  every later one waits for ever.\<close>

theorem listener_serves_until:
  "Listener_Run True cfg es =
     (concat (map (session_of cfg) (takeWhile (\<lambda>e. \<not> ends_loop e) es)), list_all (\<lambda>e. \<not> ends_loop e) es)"
  by (simp add: Listener_Run_def accept_loop_until)

section \<open>What a server forwards\<close>

lemma getlines_append: "getlines delim (a @ delim # b) = (if a = [] then [[]] else getlines delim (a @ [delim])) @ getlines delim b"
proof (induction "length a" arbitrary: a rule: less_induct)
  case less
  show ?case
  proof (cases "delim \<in> set a")
    case False
    then show ?thesis using getlines_line [OF False, of b] getlines_line [OF False, of "[]"] by (cases a) simp_all
  next
    case True
    then obtain l r where a: "a = l @ delim # r" "delim \<notin> set l" by (meson split_list_first)
    then show ?thesis
      using less [of r] getlines_line [OF a(2), of "r @ delim # b"] getlines_line [OF a(2), of "r @ [delim]"]
        getlines_line [OF a(2), of "delim # b"] getlines_line [OF a(2), of "[delim]"]
      by (cases r) (simp_all add: getlines.simps)
  qed
qed

lemma getlines_end: "a \<noteq> [] \<Longrightarrow> set (getlines delim (a @ [delim])) - {[]} = set (getlines delim a) - {[]}"
proof (induction "length a" arbitrary: a rule: less_induct)
  case less
  show ?case
  proof (cases "delim \<in> set a")
    case False
    then have "takeWhile (\<lambda>x. x \<noteq> delim) a = a" "dropWhile (\<lambda>x. x \<noteq> delim) a = []"
      by (auto simp: takeWhile_eq_all_conv dropWhile_eq_Nil_conv)
    then have "getlines delim a = [a]" using less.prems by (cases a) (auto simp: getlines.simps split: if_splits)
    then show ?thesis using getlines_line [OF False, of "[]"] by simp
  next
    case True
    then obtain l r where a: "a = l @ delim # r" "delim \<notin> set l" by (meson split_list_first)
    then show ?thesis
      using less(1) [of r] getlines_line [OF a(2), of "r @ [delim]"] getlines_line [OF a(2), of r]
      by (cases "r = []") (auto simp: getlines.simps)
  qed
qed

lemma SplitCommaSeparated_both:
  assumes "a \<noteq> []"
  shows "set (SplitCommaSeparated (a @ '','' @ b)) = set (SplitCommaSeparated a) \<union> set (SplitCommaSeparated b)"
proof -
  have t: "Trim [] = []" by (simp add: Trim_def)
  have "Trim ` (set (getlines (CHR '','') (a @ [CHR '',''])) - {[]}) = Trim ` (set (getlines (CHR '','') a) - {[]})"
    using getlines_end [OF assms] by simp
  then have "{s \<in> Trim ` set (getlines (CHR '','') (a @ [CHR '',''])). s \<noteq> []} = {s \<in> Trim ` set (getlines (CHR '','') a). s \<noteq> []}"
    using t by (auto simp: image_iff set_eq_iff)
  then show ?thesis
    using assms getlines_append [of "CHR '',''" a b]
    by (auto simp: SplitCommaSeparated_def)
qed


section \<open>What a server's filters let through\<close>

text \<open>C31: A client's packet in a running server: on an aligned IPv6 network, it is dropped when it goes into the virtual
  network, other than to the server itself, or to the broadcast address, and, when the BitTorrent filter was asked for,
  when its payload is BitTorrent's; all others reach the network unchanged.\<close>

theorem server_packet_policy:
  assumes "server_main env (Inr c) = Some (ServerRuns p)" "netlib_ok (sn_net env)" "IPPacket_Parse buffer cid = Some pkt"
    and "1 \<le> so_tun_mask c" "so_tun_mask c \<le> 32" "1 \<le> so_tun_mask_ipv6 c" "so_tun_mask_ipv6 c \<le> 128"
    and "toUInt128 (sn_net env) (TunInterfaceNetworkIPv6Address (sn_net env) c) = Some w" "aligned6 w (nat (so_tun_mask_ipv6 c))"
  shows "Filter_Apply (sn_net env) (pt_filters p) pkt =
     Some (if (map tolower (so_disable_bittorrent c) = ''true'' \<and> torrent_payload pkt) \<or>
              enters_network (sn_net env) (TunInterfaceIPv4 (sn_net env) c)
                (TunInterfaceNetworkIPv4Address (sn_net env) c) (nat (so_tun_mask c)) (TunInterfaceIPv6 (sn_net env) c)
                (TunInterfaceNetworkIPv6Address (sn_net env) c) (nat (so_tun_mask_ipv6 c)) pkt
           then None else Some pkt)"
proof -
  let ?lib = "sn_net env"
  obtain filters where f: "server_filters ?lib c = Some filters" "pt_filters p = filters"
    using assms(1) by (rule server_main_runs)
  then obtain scan where scan: "AntiScan_new ?lib (TunInterfaceIPv4 ?lib c) (TunInterfaceNetworkIPv4Address ?lib c)
      (word_of_nat (nat (so_tun_mask c))) (TunInterfaceIPv6 ?lib c) (TunInterfaceNetworkIPv6Address ?lib c)
      (nat (so_tun_mask_ipv6 c)) = Some scan"
    "filters = Filter_Add (AntiScan scan) (if DisableBittorrent c then Filter_Add BitTorrent [] else [])"
    using assms(4) by (auto simp: server_filters_def TunInterfaceNetworkIPv4Mask_def split: bind_splits)
  have "as_ipv6_net scan = w" using scan(1) assms(8) by (auto simp: AntiScan_new_def split: bind_splits if_splits)
  then show ?thesis
    using server_filters_exact [OF assms(2,3) scan(1) _ _ _ _ _ refl, of "DisableBittorrent c"] assms(4-7,9) f(2) scan(2)
    by (simp add: DisableBittorrent_def ParseBoolean_def)
qed

section \<open>A server\<close>

definition demo_options :: server_options where
  "demo_options =
     \<lparr>ServerCrt = ''/s.crt'', ServerKey = ''/s.key'', OutNetworkInterface = ''eth0'', so_server_port = 443, MtuSize = 1420,
      TunInterfaceName = ''tun0'', so_tun_ip = to_string demo_lib (V4 0x0A0A0001),
      so_tun_network = to_string demo_lib (V4 0x0A0A0000), so_tun_mask = 29,
      so_tun_ipv6 = to_string demo_lib (V6 0xFD000000000000000000000000000001),
      so_tun_network_ipv6 = to_string demo_lib (V6 0xFD000000000000000000000000000000), so_tun_mask_ipv6 = 125,
      UserFile = ''/u'', so_disable_bittorrent = ''True'', PrometheusAccessKey = [], so_use_remote_server_auth = ''false'',
      RemoteServerAuthHost = ''1.1.1.1'', RemoteServerAuthPort = 443, so_max_active_sessions = 3,
      so_enable_detect_probing = ''true'', so_default_proxy_domain = ''d.x'', so_allowed_sni_list = ''ya.r'',
      ServerExternalIPs = []\<rparr>"

definition demo_server_env :: server_env where
  "demo_server_env =
     \<lparr>sn_root = True, sn_exists = (\<lambda>_. True), sn_logger = True, sn_users = (\<lambda>_. None), sn_tls = (\<lambda>_ _. True),
      sn_net = demo_lib\<rparr>"

lemma demo_server_addresses:
  "TunInterfaceIPv4 demo_lib demo_options = v4_at demo_lib 0x0A0A0001"
  "TunInterfaceNetworkIPv4Address demo_lib demo_options = demo_net4"
  "TunInterfaceIPv6 demo_lib demo_options = v6_at demo_lib 0xFD000000000000000000000000000001"
  "TunInterfaceNetworkIPv6Address demo_lib demo_options = demo_net6"
  by (simp_all add: TunInterfaceIPv4_def TunInterfaceIPv6_def demo_net4_def demo_net6_def
      TunInterfaceNetworkIPv4Address_def TunInterfaceNetworkIPv6Address_def demo_options_def
      IPv4Address_new_print [OF demo_lib_ok] IPv6Address_new_parsed [OF demo_lib_ok netlib_okD(1) [OF demo_lib_ok]] v6_at_def)

lemma demo_server_table: "server_table_config demo_lib demo_options = demo_config"
  by (simp add: server_table_config_def demo_config_def demo_server_addresses TunInterfaceNetworkIPv4Mask_def
      TunInterfaceNetworkIPv6Mask_def) (simp add: demo_options_def)

lemma demo_server_net6: "toUInt128 demo_lib demo_net6 = Some 0xFD000000000000000000000000000000"
  using demo_net_facts(3) by (simp add: toUInt128_def)

lemma demo_server_masks: "so_tun_mask demo_options = 29" "so_tun_mask_ipv6 demo_options = 125"
  by (simp_all add: demo_options_def)

lemma demo_server_filters: "server_filters demo_lib demo_options \<noteq> None"
proof -
  have "toUInt128 demo_lib (v6_at demo_lib 0xFD000000000000000000000000000001) \<noteq> None"
    using netlib_okD(1) [OF demo_lib_ok] by (simp add: toUInt128_def make_address_v6_def v6_at_def)
  moreover have "shl32 0xFFFFFFFF (32 - TunInterfaceNetworkIPv4Mask demo_options) \<noteq> None"
    by (simp add: TunInterfaceNetworkIPv4Mask_def shl32_def) (simp add: demo_options_def)
  ultimately show ?thesis
    using demo_server_net6 demo_server_masks by (auto simp: server_filters_def AntiScan_new_def demo_server_addresses)
qed

lemma demo_server_runs: "\<exists>p. server_main demo_server_env (Inr demo_options) = Some (ServerRuns p)"
proof -
  obtain filters where "server_filters demo_lib demo_options = Some filters" using demo_server_filters by blast
  moreover obtain t where "Table_new demo_lib demo_config = Inr t"
    using Table_new_pool [OF demo_lib_ok, of demo_config "0x0A0A0000" 29 "0xFD000000000000000000000000000000" 125]
      demo_net_facts by (auto simp: demo_config_def)
  ultimately show ?thesis
    by (simp add: server_main_def server_parts_of_def demo_server_env_def demo_server_table)
qed

theorem server_rules_left_witness:
  "\<exists>p. owed_rules (concat (replicate 2 (commands_run (snd (server_life p))))) = repeat_mset 2 (left_rules ''eth0'' ''tun0'')"
  using server_rules_left demo_server_runs by (force simp: demo_options_def)

lemma demo_udp_stays_out:
  "\<not> enters_network demo_lib (v4_at demo_lib 0x0A0A0001) demo_net4 29 ip6 net6 b6 demo_udp"
proof -
  have "take 4 (drop 16 (pkt_data demo_udp)) = [10, 0, 0, 2]"
    by (simp add: demo_udp_def udp_packet_def)
  moreover have "be32_of [10, 0, 0, 2] = 0x0A000002" by (simp add: be32_of_def)
  moreover have "IsIPv4 demo_udp" using demo_udp_facts(1) by (simp add: sound_ipv4_def)
  moreover have "kIpv4BroadcastInt demo_lib \<noteq> 0x0A000002"
    by (simp add: kIpv4BroadcastInt_def IPv4Address_new_def IPAddress_new_def Let_def demo_lib_def IPAddress_ToInt_def default_addr_def)
  ultimately show ?thesis
    by (simp add: enters_network_def v4_at_def demo_net4_def IPAddress_ToInt_def drop_bit_eq_div)
qed

theorem server_packet_policy_witness:
  "\<exists>p :: server_parts. Filter_Apply demo_lib (pt_filters p) demo_udp = Some (if torrent_payload demo_udp then None else Some demo_udp)"
proof -
  obtain p where p: "server_main demo_server_env (Inr demo_options) = Some (ServerRuns p)" using demo_server_runs by blast
  have u: "IPPacket_Parse udp_packet 7 = Some demo_udp"
    using demo_udp_facts(3) by (simp add: IPPacket_Parse_iff demo_udp_def)
  have n: "sn_net demo_server_env = demo_lib" by (simp add: demo_server_env_def)
  have t: "map tolower (so_disable_bittorrent demo_options) = ''true''"
    by (simp add: demo_options_def) code_simp
  have m: "1 \<le> so_tun_mask demo_options" "so_tun_mask demo_options \<le> 32"
    "1 \<le> so_tun_mask_ipv6 demo_options" "so_tun_mask_ipv6 demo_options \<le> 128"
    "aligned6 0xFD000000000000000000000000000000 (nat (so_tun_mask_ipv6 demo_options))"
    using demo_net_facts(4) by (simp_all add: demo_server_masks)
  have "Filter_Apply demo_lib (pt_filters p) demo_udp = Some (if torrent_payload demo_udp then None else Some demo_udp)"
    using server_packet_policy [OF p _ u m(1-4) _ m(5)] demo_lib_ok demo_server_net6
    by (simp add: n t demo_server_addresses demo_server_masks demo_udp_stays_out)
  then show ?thesis by blast
qed

lemma demo_allowed: "AllowedSniList demo_options = [''ya.r'', ''d.x'']"
  by (simp add: AllowedSniList_def DefaultProxyDomain_def demo_options_def SplitCommaSeparated_def Trim_def isspace_def)

lemma demo_detects: "EnableDetectProbing demo_options"
  by (simp add: EnableDetectProbing_def demo_options_def ParseBoolean_def) code_simp

lemma demo_server_run:
  "Run (listener_session demo_options) (demo_env [9]) [] = Some ([EvObfuscator None, EvProxy ''ya.r'', EvClose], [])"
proof -
  have l: "listener_session demo_options = (demo_cfg True)\<lparr>sc_allowed_sni_list := [''ya.r'', ''d.x'']\<rparr>"
    using demo_allowed demo_detects
    by (simp add: listener_session_def demo_cfg_def) (simp add: DefaultProxyDomain_def demo_options_def)
  have n: "client_name ((demo_cfg True)\<lparr>sc_allowed_sni_list := [''ya.r'', ''d.x'']\<rparr>) (Some ''ya.r'') = ''ya.r''"
    by (simp add: client_name_def demo_cfg_def ApplyAllowedSniList_def NormalizeSni_def) code_simp
  have "DetectProbing (\<lambda>_ c. (False, c)) demo_sha1 (103, 103, 103) ''d.x'' (demo_hello [9]) ''ya.r'' [] =
      Some (\<lparr>pr_is_probing = True, pr_sni = ''ya.r'', pr_should_close = False\<rparr>, [])"
    by (simp add: DetectProbing_def demo_hello_facts(4) [of "[9]", simplified] kSessionLen_def)
  then show ?thesis
    using n demo_hello_facts [of "[9]"]
    by (simp add: l Run_def run_probing_def demo_env_def demo_cfg_def client_name_def ProxyWithFallback_def HandleProxy_def)
qed


end
