(* ===== verification/Yaff.thy ===== *)
theory Yaff
  imports Prelude
begin

text \<open>
  The check of batches written with yaff, \<open>YaffBatchValidator\<close> of
  \<open>src/fptn-protocol-lib/protocol/yaff/yaff_serializer.cpp\<close>. The library yaff is not in the repository: the
  widths of its offsets and headers and the places of the fields are the record \<open>yaff_layout\<close>. A load is
  \<open>memrd\<close>, so \<open>None\<close> is a load outside the message. Numbers are read as a little-endian machine does.
\<close>

section \<open>The validator\<close>

record yaff_field =
  fd_id :: u16
  fd_offset :: u32

record yaff_layout =
  kHeaderSize :: u32
  kOffsetSize :: u32
  yl_batch :: yaff_field
  yl_packets :: yaff_field
  yl_packet :: yaff_field
  yl_payload :: yaff_field

definition le_value :: "byte list \<Rightarrow> nat" where
  "le_value bs = foldr (\<lambda>b n. unat b + 256 * n) bs 0"

definition ReadU16 :: "byte list \<Rightarrow> u32 \<Rightarrow> u16 option" where
  "ReadU16 data offset = map_option (\<lambda>bs. word_of_nat (le_value bs)) (memrd data (unat offset) 2)"

definition ReadU32 :: "byte list \<Rightarrow> u32 \<Rightarrow> u32 option" where
  "ReadU32 data offset = map_option (\<lambda>bs. word_of_nat (le_value bs)) (memrd data (unat offset) 4)"

definition HasValidYaffRootOffset :: "yaff_layout \<Rightarrow> byte list \<Rightarrow> bool option" where
  "HasValidYaffRootOffset L data =
     (if length data < unat (kOffsetSize L) then Some False
      else do { offset \<leftarrow> ReadU32 data 0; Some (unat offset < length data) })"

definition kFlatLayoutBit :: u16 where "kFlatLayoutBit = 0x8000"

definition FlatTypedLimit :: "u16 \<Rightarrow> u16" where
  "FlatTypedLimit fid = push_bit 2 fid OR 0x8003"

definition InBounds :: "u32 \<Rightarrow> u32 \<Rightarrow> u32 \<Rightarrow> bool" where
  "InBounds sz pos len \<longleftrightarrow> pos \<le> sz \<and> len \<le> sz - pos"

text \<open>The result is the returned flag and the target.\<close>

definition ResolveField ::
    "yaff_layout \<Rightarrow> byte list \<Rightarrow> u32 \<Rightarrow> u32 \<Rightarrow> yaff_field \<Rightarrow> (bool \<times> u32) option" where
  "ResolveField L data sz message f =
     (if \<not> InBounds sz message (kHeaderSize L) then Some (False, 0)
      else do {
        typed_limit \<leftarrow> ReadU16 data message;
        if typed_limit AND kFlatLayoutBit = 0 then Some (False, 0)
        else if FlatTypedLimit (fd_id f) \<ge> typed_limit then Some (True, 0)
        else
          (let pointer_offset = message + kHeaderSize L + fd_offset f in
           if \<not> InBounds sz pointer_offset (kOffsetSize L) then Some (False, 0)
           else do {
             pointer \<leftarrow> ReadU32 data pointer_offset;
             if pointer = 0 then Some (True, 0)
             else if pointer > sz - message then Some (False, 0)
             else Some (True, message + pointer)
           })
      })"

text \<open>The flag, the offset of the bytes and their number.\<close>

definition ResolveString :: "yaff_layout \<Rightarrow> byte list \<Rightarrow> u32 \<Rightarrow> u32 \<Rightarrow> (bool \<times> u32 \<times> u32) option" where
  "ResolveString L data sz offset =
     (if \<not> InBounds sz offset (kOffsetSize L) then Some (False, 0, 0)
      else do {
        len \<leftarrow> ReadU32 data offset;
        let data_offset = offset + kOffsetSize L;
        Some (InBounds sz data_offset len, data_offset, len)
      })"

definition ValidateInner :: "yaff_layout \<Rightarrow> byte list \<Rightarrow> u32 \<Rightarrow> bool option" where
  "ValidateInner L data sz =
     (if \<not> InBounds sz 0 (kOffsetSize L) then Some False
      else do {
        root \<leftarrow> ReadU32 data 0;
        (ok, packet) \<leftarrow> ResolveField L data sz root (yl_packet L);
        if \<not> ok then Some False
        else if packet = 0 then Some True
        else do {
          (ok, payload) \<leftarrow> ResolveField L data sz packet (yl_payload L);
          if \<not> ok then Some False
          else if payload = 0 then Some True
          else map_option fst (ResolveString L data sz payload)
        }
      })"

text \<open>The inner validator gets a pointer and a size; its message is what these delimit.\<close>

fun packet_loop :: "yaff_layout \<Rightarrow> byte list \<Rightarrow> u32 \<Rightarrow> u32 \<Rightarrow> nat list \<Rightarrow> bool option" where
  "packet_loop L data sz table [] = Some True"
| "packet_loop L data sz table (i # is) = do {
     element \<leftarrow> ReadU32 data (table + word_of_nat i * kOffsetSize L);
     if element = 0 then packet_loop L data sz table is
     else if element > sz - table then Some False
     else do {
       (ok, blob_offset, blob_length) \<leftarrow> ResolveString L data sz (table + element);
       if \<not> ok then Some False
       else do {
         ok \<leftarrow> ValidateInner L (take (unat blob_length) (drop (unat blob_offset) data)) blob_length;
         if \<not> ok then Some False else packet_loop L data sz table is
       }
     }
   }"

definition ValidatePacketArray :: "yaff_layout \<Rightarrow> byte list \<Rightarrow> u32 \<Rightarrow> u32 \<Rightarrow> bool option" where
  "ValidatePacketArray L data sz arr =
     (if \<not> InBounds sz arr (kOffsetSize L) then Some False
      else do {
        count \<leftarrow> ReadU32 data arr;
        let table = arr + kOffsetSize L;
        if count > sz div kOffsetSize L then Some False
        else if \<not> InBounds sz table (count * kOffsetSize L) then Some False
        else packet_loop L data sz table [0..<unat count]
      })"

definition ValidateBatch :: "yaff_layout \<Rightarrow> byte list \<Rightarrow> u32 \<Rightarrow> bool option" where
  "ValidateBatch L data sz =
     (if \<not> InBounds sz 0 (kOffsetSize L) then Some False
      else do {
        root \<leftarrow> ReadU32 data 0;
        (ok, batch) \<leftarrow> ResolveField L data sz root (yl_batch L);
        if \<not> ok then Some False
        else if batch = 0 then Some True
        else do {
          (ok, arr) \<leftarrow> ResolveField L data sz batch (yl_packets L);
          if \<not> ok then Some False
          else if arr = 0 then Some True
          else ValidatePacketArray L data sz arr
        }
      })"

definition YaffBatchValidator_Validate :: "yaff_layout \<Rightarrow> byte list \<Rightarrow> u32 \<Rightarrow> bool option" where
  "YaffBatchValidator_Validate L data sz = ValidateBatch L data sz"

section \<open>Bounds\<close>

text \<open>What the validator relies on of the layout: a header holds the typed limit, an offset the four bytes that
  are read, and a field is near its header.\<close>

definition layout_ok :: "yaff_layout \<Rightarrow> bool" where
  "layout_ok L \<longleftrightarrow> 2 \<le> kHeaderSize L \<and> 4 \<le> kOffsetSize L"

lemma unat_u32: "unat (w :: u32) < 2 ^ 32"
  using unsigned_less [of w, where ?'a = nat] by simp

lemma InBounds_iff: "InBounds sz pos len \<longleftrightarrow> unat pos + unat len \<le> unat sz"
proof (cases "pos \<le> sz")
  case True
  then show ?thesis
    by (simp add: InBounds_def word_le_nat_alt unat_sub) (use True in \<open>simp add: word_le_nat_alt; arith\<close>)
qed (auto simp: InBounds_def word_le_nat_alt)

lemma reads:
  assumes "layout_ok L" "unat sz \<le> length data"
  shows "InBounds sz pos (kHeaderSize L) \<Longrightarrow> ReadU16 data pos = Some (word_of_nat (le_value (take 2 (drop (unat pos) data))))"
    and "InBounds sz pos (kOffsetSize L) \<Longrightarrow> ReadU32 data pos = Some (word_of_nat (le_value (take 4 (drop (unat pos) data))))"
  using assms by (auto simp: layout_ok_def word_le_nat_alt InBounds_iff ReadU16_def ReadU32_def memrd_def)

lemma reads_defined:
  assumes "layout_ok L" "unat sz \<le> length data"
  shows "InBounds sz pos (kHeaderSize L) \<Longrightarrow> ReadU16 data pos \<noteq> None"
    and "InBounds sz pos (kOffsetSize L) \<Longrightarrow> ReadU32 data pos \<noteq> None"
  using reads [OF assms] by auto

lemma ResolveField_defined:
  assumes "layout_ok L" "unat sz \<le> length data"
  shows "ResolveField L data sz message f \<noteq> None"
  by (auto simp: ResolveField_def Let_def reads_defined [OF assms] split: bind_splits)

lemma ResolveString_defined:
  assumes "layout_ok L" "unat sz \<le> length data"
  obtains ok off len where "ResolveString L data sz offset = Some (ok, off, len)"
    "ok \<Longrightarrow> unat off + unat len \<le> unat sz"
proof (cases "InBounds sz offset (kOffsetSize L)")
  case True
  then obtain len where "ReadU32 data offset = Some len" using reads_defined(2) [OF assms] by blast
  then show ?thesis using True that by (simp add: ResolveString_def Let_def InBounds_iff)
qed (use that in \<open>simp add: ResolveString_def\<close>)

lemma ValidateInner_defined:
  assumes "layout_ok L" "unat sz \<le> length data"
  shows "ValidateInner L data sz \<noteq> None"
proof -
  have s: "ResolveString L data sz p \<noteq> None" for p using ResolveString_defined [OF assms] by blast
  show ?thesis
    by (auto simp: ValidateInner_def reads_defined(2) [OF assms] ResolveField_defined [OF assms] s split: bind_splits prod.splits
        simp del: not_None_eq)
qed

text \<open>The places of the table, when all of it is in the message.\<close>

lemma table_slot:
  fixes sz :: u32
  assumes "unat table + unat count * unat k \<le> unat sz" "i < unat count"
  shows "unat (table + word_of_nat i * k :: u32) = unat table + i * unat k"
    and "unat (table + word_of_nat i * k) + unat k \<le> unat sz"
proof -
  have "(i + 1) * unat k \<le> unat count * unat k" using assms(2) by (intro mult_le_mono1) simp
  then have b: "unat table + i * unat k + unat k \<le> unat sz" using assms(1) by simp
  then have m: "i * unat k < 2 ^ 32" by (intro order.strict_trans1 [OF _ unat_u32 [of sz]]) simp
  have w: "word_of_nat i * k = word_of_nat (i * unat k)" by simp
  have "unat (word_of_nat (i * unat k) :: u32) = i * unat k"
    using m by (simp only: unat_of_nat take_bit_nat_eq_self) (simp add: take_bit_nat_eq_self)
  then have "unat (word_of_nat i * k) = i * unat k" unfolding w .
  then show u: "unat (table + word_of_nat i * k) = unat table + i * unat k"
    using order.strict_trans1 [OF _ unat_u32 [of sz], of "unat table + i * unat k"] b by (simp add: unat_plus_if')
  show "unat (table + word_of_nat i * k) + unat k \<le> unat sz" using b u by simp
qed

lemma packet_loop_defined:
  assumes "layout_ok L" "unat sz \<le> length data" "unat table + unat count * unat (kOffsetSize L) \<le> unat sz"
    and "\<forall>i \<in> set is. i < unat count"
  shows "packet_loop L data sz table is \<noteq> None"
  using assms(4)
proof (induction "is")
  case (Cons i rest)
  have "InBounds sz (table + word_of_nat i * kOffsetSize L) (kOffsetSize L)"
    using table_slot(2) [OF assms(3), of i] Cons.prems by (simp add: InBounds_iff)
  then obtain element where e: "ReadU32 data (table + word_of_nat i * kOffsetSize L) = Some element"
    using reads_defined(2) [OF assms(1,2)] by blast
  obtain ok off len where s: "ResolveString L data sz (table + element) = Some (ok, off, len)"
    "ok \<Longrightarrow> unat off + unat len \<le> unat sz"
    using ResolveString_defined [OF assms(1,2)] by blast
  have "ValidateInner L (take (unat len) (drop (unat off) data)) len \<noteq> None" if ok
    by (rule ValidateInner_defined [OF assms(1)]) (use s(2) [OF that] assms(2) in simp)
  then show ?case using Cons e s(1) by (auto split: bind_splits)
qed simp

lemma table_bound:
  fixes sz :: u32
  assumes "count \<le> sz div k" "InBounds sz table (count * k)"
  shows "unat (count * k) = unat count * unat k" "unat table + unat count * unat k \<le> unat sz"
proof -
  have "unat count * unat k \<le> unat sz div unat k * unat k"
    using assms(1) by (intro mult_le_mono1) (simp add: word_le_nat_alt unat_div)
  also have "\<dots> \<le> unat sz" by simp
  also have "\<dots> < 2 ^ 32" by (rule unat_u32)
  finally have "unat count * unat k < 2 ^ 32" .
  then show "unat (count * k) = unat count * unat k" by (simp add: unat_word_ariths(2))
  then show "unat table + unat count * unat k \<le> unat sz" using assms(2) by (simp add: InBounds_iff)
qed

lemma ValidatePacketArray_defined:
  assumes "layout_ok L" "unat sz \<le> length data"
  shows "ValidatePacketArray L data sz arr \<noteq> None"
proof -
  have "packet_loop L data sz (arr + kOffsetSize L) [0..<unat count] \<noteq> None"
    if "\<not> count > sz div kOffsetSize L" "InBounds sz (arr + kOffsetSize L) (count * kOffsetSize L)" for count
    by (rule packet_loop_defined [OF assms table_bound(2) [OF _ that(2)]]) (use that(1) in auto)
  then show ?thesis
    by (auto simp: ValidatePacketArray_def Let_def reads_defined(2) [OF assms] split: bind_splits)
qed

lemma validator_total:
  assumes "layout_ok L" "length data < 2 ^ 32"
  shows "YaffBatchValidator_Validate L data (word_of_nat (length data)) \<noteq> None"
proof -
  have l: "unat (word_of_nat (length data) :: u32) \<le> length data" using assms(2) by (simp add: unat_of_nat take_bit_nat_eq_self)
  note defined = reads_defined(2) [OF assms(1) l] ResolveField_defined [OF assms(1) l] ValidatePacketArray_defined [OF assms(1) l]
  show ?thesis by (auto simp: YaffBatchValidator_Validate_def ValidateBatch_def defined split: bind_splits prod.splits simp del: not_None_eq)
qed

text \<open>The validator is itself safe: on every message that fits its 32-bit size, whatever its bytes are, all its
  loads are inside the message, though its arithmetic on offsets wraps around.\<close>

theorem validator_memory_safe:
  assumes "layout_ok L" "length data < 2 ^ 32"
  shows "YaffBatchValidator_Validate L data (word_of_nat (length data)) \<noteq> None"
  by (rule validator_total [OF assms])

section \<open>What the validator accepts\<close>

text \<open>A well-formed batch, in plain numbers. A message at \<open>m\<close> has a flat header; a field the header admits has a
  slot, which is zero or holds the distance of what it refers to.\<close>

definition at16 :: "byte list \<Rightarrow> nat \<Rightarrow> nat" where
  "at16 data m = le_value (take 2 (drop m data))"

definition at32 :: "byte list \<Rightarrow> nat \<Rightarrow> nat" where
  "at32 data m = le_value (take 4 (drop m data))"

definition header_at :: "yaff_layout \<Rightarrow> byte list \<Rightarrow> nat \<Rightarrow> bool" where
  "header_at L data m \<longleftrightarrow> m + unat (kHeaderSize L) \<le> length data \<and> 0x8000 \<le> at16 data m"

definition admits :: "byte list \<Rightarrow> nat \<Rightarrow> yaff_field \<Rightarrow> bool" where
  "admits data m f \<longleftrightarrow> unat (FlatTypedLimit (fd_id f)) < at16 data m"

definition slot :: "yaff_layout \<Rightarrow> nat \<Rightarrow> yaff_field \<Rightarrow> nat" where
  "slot L m f = m + unat (kHeaderSize L) + unat (fd_offset f)"

definition absent :: "yaff_layout \<Rightarrow> byte list \<Rightarrow> nat \<Rightarrow> yaff_field \<Rightarrow> bool" where
  "absent L data m f \<longleftrightarrow> header_at L data m \<and>
     (admits data m f \<longrightarrow> slot L m f + unat (kOffsetSize L) \<le> length data \<and> at32 data (slot L m f) = 0)"

definition refers :: "yaff_layout \<Rightarrow> byte list \<Rightarrow> nat \<Rightarrow> yaff_field \<Rightarrow> nat \<Rightarrow> bool" where
  "refers L data m f t \<longleftrightarrow> header_at L data m \<and> admits data m f \<and> slot L m f + unat (kOffsetSize L) \<le> length data \<and>
     at32 data (slot L m f) \<noteq> 0 \<and> t = m + at32 data (slot L m f) \<and> t \<le> length data"

definition string_at :: "yaff_layout \<Rightarrow> byte list \<Rightarrow> nat \<Rightarrow> nat \<Rightarrow> nat \<Rightarrow> bool" where
  "string_at L data pos off len \<longleftrightarrow>
     off = pos + unat (kOffsetSize L) \<and> off \<le> length data \<and> len = at32 data pos \<and> off + len \<le> length data"

definition packet_ok :: "yaff_layout \<Rightarrow> byte list \<Rightarrow> bool" where
  "packet_ok L data \<longleftrightarrow> unat (kOffsetSize L) \<le> length data \<and>
     (absent L data (at32 data 0) (yl_packet L) \<or>
      (\<exists>p. refers L data (at32 data 0) (yl_packet L) p \<and>
         (absent L data p (yl_payload L) \<or> (\<exists>s off len. refers L data p (yl_payload L) s \<and> string_at L data s off len))))"

definition element_ok :: "yaff_layout \<Rightarrow> byte list \<Rightarrow> nat \<Rightarrow> nat \<Rightarrow> bool" where
  "element_ok L data table i \<longleftrightarrow>
     (let e = at32 data (table + i * unat (kOffsetSize L)) in
      e = 0 \<or> (\<exists>off len. string_at L data (table + e) off len \<and> packet_ok L (take len (drop off data))))"

definition array_ok :: "yaff_layout \<Rightarrow> byte list \<Rightarrow> nat \<Rightarrow> bool" where
  "array_ok L data a \<longleftrightarrow>
     (let table = a + unat (kOffsetSize L) in
      table \<le> length data \<and> table + at32 data a * unat (kOffsetSize L) \<le> length data \<and>
      (\<forall>i < at32 data a. element_ok L data table i))"

definition batch_ok :: "yaff_layout \<Rightarrow> byte list \<Rightarrow> bool" where
  "batch_ok L data \<longleftrightarrow> unat (kOffsetSize L) \<le> length data \<and>
     (absent L data (at32 data 0) (yl_batch L) \<or>
      (\<exists>b. refers L data (at32 data 0) (yl_batch L) b \<and>
         (absent L data b (yl_packets L) \<or> (\<exists>a. refers L data b (yl_packets L) a \<and> array_ok L data a))))"

text \<open>The offsets of the fields are small against the address space: no sum in the validator wraps.\<close>

definition fits :: "yaff_layout \<Rightarrow> nat \<Rightarrow> bool" where
  "fits L n \<longleftrightarrow> list_all (\<lambda>f. n + unat (kHeaderSize L) + unat (fd_offset f) < 2 ^ 32) [yl_batch L, yl_packets L, yl_packet L, yl_payload L]"

lemma le_value_bound: "le_value bs < 256 ^ length bs"
proof (induction bs)
  case (Cons b bs)
  have "unat b < 256" by (rule unat_byte_less)
  moreover have "le_value bs + 1 \<le> 256 ^ length bs" using Cons by simp
  moreover have "le_value (b # bs) = unat b + 256 * le_value bs" by (simp add: le_value_def)
  ultimately show ?case unfolding list.size(4) add_0_right add_Suc_right power_Suc by linarith
qed (simp add: le_value_def)

lemma at_bounds: "at16 data m < 2 ^ 16" "at32 data m < 2 ^ 32"
proof -
  have "le_value (take k xs) < 256 ^ k" for k and xs :: "byte list"
    by (rule order.strict_trans2 [OF le_value_bound]) (simp add: power_increasing)
  from this [of 2] this [of 4] show "at16 data m < 2 ^ 16" "at32 data m < 2 ^ 32"
    unfolding at16_def at32_def by simp_all
qed

lemma unat_at: "unat (word_of_nat (at16 data m) :: u16) = at16 data m" "unat (word_of_nat (at32 data m) :: u32) = at32 data m"
  using at_bounds [of data m] by (simp_all add: unat_of_nat take_bit_nat_eq_self)

lemma flat_bit: "w AND kFlatLayoutBit = 0 \<longleftrightarrow> unat w < 0x8000"
proof -
  have k: "kFlatLayoutBit = 2 ^ 15" by (simp add: kFlatLayoutBit_def)
  have "w AND kFlatLayoutBit = 0 \<longleftrightarrow> \<not> bit w 15" unfolding k by (rule and_exp_eq_0_iff_not_bit)
  also have "\<dots> \<longleftrightarrow> \<not> bit (unat w) 15" by (simp add: bit_unsigned_iff)
  also have "\<dots> \<longleftrightarrow> even (unat w div 2 ^ 15)" by (simp add: bit_iff_odd)
  also have "\<dots> \<longleftrightarrow> unat w < 0x8000"
  proof -
    have "even (n div 32768) \<longleftrightarrow> n < 32768" if "n < 65536" for n :: nat
      using that by (cases "n < 32768") (simp_all add: le_div_geq)
    moreover have "unat w < 65536" using unsigned_less [of w, where ?'a = nat] by simp
    ultimately show ?thesis by simp
  qed
  finally show ?thesis .
qed

text \<open>The three outcomes of resolving a field.\<close>

lemma ResolveField_cases:
  assumes "layout_ok L" "length data + unat (kHeaderSize L) + unat (fd_offset f) < 2 ^ 32"
  obtains "absent L data (unat m) f" "\<And>t. \<not> refers L data (unat m) f t"
      "ResolveField L data (word_of_nat (length data)) m f = Some (True, 0)"
    | t where "\<not> absent L data (unat m) f" "\<And>t'. refers L data (unat m) f t' \<longleftrightarrow> t' = unat t" "t \<noteq> 0"
      "ResolveField L data (word_of_nat (length data)) m f = Some (True, t)"
    | "\<not> absent L data (unat m) f" "\<And>t. \<not> refers L data (unat m) f t"
      "ResolveField L data (word_of_nat (length data)) m f = Some (False, 0)"
proof -
  let ?sz = "word_of_nat (length data) :: u32" and ?po = "m + kHeaderSize L + fd_offset f"
  have n: "unat ?sz = length data" using assms(2) by (simp add: unat_of_nat take_bit_nat_eq_self)
  note r = reads [OF assms(1), of ?sz data, unfolded n, OF order.refl]
  show thesis
  proof (cases "InBounds ?sz m (kHeaderSize L)")
    case False
    then show thesis
      using that(3) by (auto simp: InBounds_iff n absent_def refers_def header_at_def ResolveField_def)
  next
    case h: True
    then have hn: "unat m + unat (kHeaderSize L) \<le> length data" by (simp add: InBounds_iff n)
    have l: "ReadU16 data m = Some (word_of_nat (at16 data (unat m)))" using r(1) [OF h] by (simp add: at16_def)
    have flat: "word_of_nat (at16 data (unat m)) AND kFlatLayoutBit = 0 \<longleftrightarrow> \<not> header_at L data (unat m)"
      using hn by (auto simp: flat_bit unat_at header_at_def)
    have adm: "FlatTypedLimit (fd_id f) \<ge> word_of_nat (at16 data (unat m)) \<longleftrightarrow> \<not> admits data (unat m) f"
      by (simp add: admits_def word_le_nat_alt unat_at not_less)
    have po: "unat ?po = slot L (unat m) f"
      using assms(2) hn by (simp add: slot_def unat_plus_if' unat_word_ariths)
    show thesis
    proof (cases "header_at L data (unat m) \<and> admits data (unat m) f")
      case False
      then show thesis
        using that(1,3) h l flat adm by (auto simp: ResolveField_def absent_def refers_def)
    next
      case True
      show thesis
      proof (cases "InBounds ?sz ?po (kOffsetSize L)")
        case False
        then have "\<not> slot L (unat m) f + unat (kOffsetSize L) \<le> length data" by (simp add: InBounds_iff n po)
        then show thesis
          using that(3) False True h l flat adm by (auto simp: ResolveField_def Let_def absent_def refers_def)
      next
        case b: True
        then have bn: "slot L (unat m) f + unat (kOffsetSize L) \<le> length data" by (simp add: InBounds_iff n po)
        have p: "ReadU32 data ?po = Some (word_of_nat (at32 data (slot L (unat m) f)))"
          using r(2) [OF b] by (simp add: at32_def po)
        define v where "v = at32 data (slot L (unat m) f)"
        have v: "unat (word_of_nat v :: u32) = v" by (simp add: v_def unat_at)
        have res: "ResolveField L data ?sz m f =
            (if (word_of_nat v :: u32) = 0 then Some (True, 0)
             else if word_of_nat v > ?sz - m then Some (False, 0) else Some (True, m + word_of_nat v))"
          using True h l flat adm b p by (simp add: ResolveField_def Let_def v_def)
        have z: "(word_of_nat v :: u32) = 0 \<longleftrightarrow> v = 0" by (metis v unat_eq_zero of_nat_0)
        have g: "word_of_nat v > ?sz - m \<longleftrightarrow> \<not> unat m + v \<le> length data"
          using hn by (auto simp: word_less_nat_alt v unat_sub_if' n)
        have ref: "refers L data (unat m) f t \<longleftrightarrow> v \<noteq> 0 \<and> t = unat m + v \<and> t \<le> length data" for t
          using True bn by (auto simp: refers_def v_def)
        have ab: "absent L data (unat m) f \<longleftrightarrow> v = 0" using True bn by (simp add: absent_def v_def)
        consider "v = 0" | "v \<noteq> 0" "unat m + v \<le> length data" | "v \<noteq> 0" "\<not> unat m + v \<le> length data" by blast
        then show thesis
        proof cases
          case 2
          then have t: "unat (m + word_of_nat v) = unat m + v"
            using assms(2) by (simp add: unat_plus_if' v)
          then have "m + word_of_nat v \<noteq> 0" using 2(1) by (metis add_is_0 unat_eq_zero)
          then show thesis using that(2) [of "m + word_of_nat v"] 2 res z g ref ab t by auto
        qed (use that(1,3) res z g ref ab in auto)
      qed
    qed
  qed
qed

lemma ResolveString_exact:
  assumes "layout_ok L" "length data < 2 ^ 32" "unat pos \<le> length data"
  obtains off len where "string_at L data (unat pos) (unat off) (unat len)"
      "ResolveString L data (word_of_nat (length data)) pos = Some (True, off, len)"
      "\<And>o' l'. string_at L data (unat pos) o' l' \<longleftrightarrow> o' = unat off \<and> l' = unat len"
    | off len where "\<And>o' l'. \<not> string_at L data (unat pos) o' l'"
      "ResolveString L data (word_of_nat (length data)) pos = Some (False, off, len)"
proof -
  let ?sz = "word_of_nat (length data) :: u32"
  have n: "unat ?sz = length data" using assms(2) by (simp add: unat_of_nat take_bit_nat_eq_self)
  show thesis
  proof (cases "InBounds ?sz pos (kOffsetSize L)")
    case False
    then show thesis using that(2) by (auto simp: ResolveString_def InBounds_iff n string_at_def)
  next
    case True
    then have b: "unat pos + unat (kOffsetSize L) \<le> length data" by (simp add: InBounds_iff n)
    then have o: "unat (pos + kOffsetSize L) = unat pos + unat (kOffsetSize L)"
      using assms(2) by (simp add: unat_plus_if')
    have len: "unat (word_of_nat (at32 data (unat pos)) :: u32) = at32 data (unat pos)" by (rule unat_at)
    have res: "ResolveString L data ?sz pos =
        Some (InBounds ?sz (pos + kOffsetSize L) (word_of_nat (at32 data (unat pos))), pos + kOffsetSize L, word_of_nat (at32 data (unat pos)))"
      using True reads(2) [OF assms(1), of ?sz data pos] by (simp add: ResolveString_def Let_def n at32_def)
    show thesis
    proof (cases "unat pos + unat (kOffsetSize L) + at32 data (unat pos) \<le> length data")
      case True
      then have "string_at L data (unat pos) o' l' \<longleftrightarrow> o' = unat pos + unat (kOffsetSize L) \<and> l' = at32 data (unat pos)" for o' l'
        by (auto simp: string_at_def)
      then show thesis
        using that(1) [of "pos + kOffsetSize L" "word_of_nat (at32 data (unat pos))"] res True
        by (simp add: InBounds_iff n o len)
    next
      case False
      then show thesis
        using that(2) [OF _ res [unfolded InBounds_iff n o len, simplified False]] by (auto simp: string_at_def)
    qed
  qed
qed

lemma fitsD:
  assumes "fits L n" "k \<le> n"
  shows "k + unat (kHeaderSize L) + unat (fd_offset (yl_batch L)) < 2 ^ 32"
    "k + unat (kHeaderSize L) + unat (fd_offset (yl_packets L)) < 2 ^ 32"
    "k + unat (kHeaderSize L) + unat (fd_offset (yl_packet L)) < 2 ^ 32"
    "k + unat (kHeaderSize L) + unat (fd_offset (yl_payload L)) < 2 ^ 32" "k < 2 ^ 32"
  using assms by (auto simp: fits_def)

lemma root_read:
  assumes "layout_ok L" "length data < 2 ^ 32"
  shows "InBounds (word_of_nat (length data)) 0 (kOffsetSize L) \<longleftrightarrow> unat (kOffsetSize L) \<le> length data"
    and "unat (kOffsetSize L) \<le> length data \<Longrightarrow> ReadU32 data 0 = Some (word_of_nat (at32 data 0))"
  using assms reads(2) [OF assms(1), of "word_of_nat (length data)" data 0]
  by (auto simp: InBounds_iff unat_of_nat take_bit_nat_eq_self at32_def)

lemma ValidateInner_exact:
  assumes "layout_ok L" "fits L (length data)"
  shows "ValidateInner L data (word_of_nat (length data)) = Some (packet_ok L data)"
proof (cases "unat (kOffsetSize L) \<le> length data")
  case True
  note f = fitsD [OF assms(2) order.refl]
  note r = root_read [OF assms(1) f(5)]
  have root: "unat (word_of_nat (at32 data 0) :: u32) = at32 data 0" by (rule unat_at)
  show ?thesis
  proof (cases rule: ResolveField_cases [OF assms(1) f(3), of "word_of_nat (at32 data 0)"])
    case (2 p)
    have inner: "(if ok then if q = 0 then Some True else map_option fst (ResolveString L data (word_of_nat (length data)) q) else Some False) =
        Some (absent L data (unat p) (yl_payload L) \<or>
          (\<exists>s off len. refers L data (unat p) (yl_payload L) s \<and> string_at L data s off len))"
      if "ResolveField L data (word_of_nat (length data)) p (yl_payload L) = Some (ok, q)" for ok q
    proof (cases rule: ResolveField_cases [OF assms(1) f(4), of p])
      case (2 s)
      then have "unat s \<le> length data" by (auto simp: refers_def)
      then show ?thesis
        by (cases rule: ResolveString_exact [OF assms(1) f(5), of s]) (use that 2 in \<open>auto 4 4\<close>)
    qed (use that in auto)
    obtain ok q where q: "ResolveField L data (word_of_nat (length data)) p (yl_payload L) = Some (ok, q)"
      using ResolveField_defined [OF assms(1), of "word_of_nat (length data)" data p "yl_payload L"] f(5)
      by (auto simp: unat_of_nat take_bit_nat_eq_self)
    show ?thesis
      using 2 r True root q inner [OF q] by (auto simp: ValidateInner_def packet_ok_def)
  qed (use r True root in \<open>auto simp: ValidateInner_def packet_ok_def\<close>)
qed (use root_read(1) [OF assms(1) fitsD(5) [OF assms(2) order.refl]] in \<open>simp add: ValidateInner_def packet_ok_def\<close>)

lemma packet_loop_exact:
  assumes "layout_ok L" "fits L (length data)" "unat table + unat count * unat (kOffsetSize L) \<le> length data"
    and "\<forall>i \<in> set is. i < unat count"
  shows "packet_loop L data (word_of_nat (length data)) table is = Some (\<forall>i \<in> set is. element_ok L data (unat table) i)"
  using assms(4)
proof (induction "is")
  case (Cons i rest)
  let ?sz = "word_of_nat (length data) :: u32" and ?p = "table + word_of_nat i * kOffsetSize L"
  have len: "length data < 2 ^ 32" by (rule fitsD(5) [OF assms(2) order.refl])
  have n: "unat ?sz = length data" using len by (simp add: unat_of_nat take_bit_nat_eq_self)
  have p: "unat ?p = unat table + i * unat (kOffsetSize L)" "unat ?p + unat (kOffsetSize L) \<le> length data"
    using table_slot [of table count "kOffsetSize L" ?sz i] assms(3) Cons.prems by (simp_all add: n)
  define e where "e = at32 data (unat ?p)"
  have ue: "unat (word_of_nat e :: u32) = e" by (simp add: e_def unat_at)
  have r: "ReadU32 data ?p = Some (word_of_nat e)"
    using reads(2) [OF assms(1), of ?sz data ?p] p(2) by (simp add: n InBounds_iff e_def at32_def)
  have z: "(word_of_nat e :: u32) = 0 \<longleftrightarrow> e = 0" by (metis ue unat_eq_zero of_nat_0)
  have t: "unat table \<le> length data" using p by simp
  have g: "word_of_nat e > ?sz - table \<longleftrightarrow> \<not> unat table + e \<le> length data"
    using t by (auto simp: word_less_nat_alt ue unat_sub_if' n)
  have el: "element_ok L data (unat table) i \<longleftrightarrow>
      e = 0 \<or> (\<exists>off len. string_at L data (unat table + e) off len \<and> packet_ok L (take len (drop off data)))"
    by (simp add: element_ok_def Let_def e_def p(1))
  consider "e = 0" | "e \<noteq> 0" "\<not> unat table + e \<le> length data" | "e \<noteq> 0" "unat table + e \<le> length data" by blast
  then show ?case
  proof cases
    case 3
    then have pos: "unat (table + word_of_nat e) = unat table + e" using len by (simp add: unat_plus_if' ue)
    then have in_data: "unat (table + word_of_nat e) \<le> length data" using 3 by simp
    show ?thesis
    proof (cases rule: ResolveString_exact [OF assms(1) len in_data])
      case (1 off n')
      have "ValidateInner L (take (unat n') (drop (unat off) data)) n' =
          Some (packet_ok L (take (unat n') (drop (unat off) data)))"
      proof -
        have l: "length (take (unat n') (drop (unat off) data)) = unat n'" using 1(1) by (auto simp: string_at_def)
        have "fits L (unat n')" using assms(2) 1(1) by (auto simp: fits_def string_at_def)
        then show ?thesis using ValidateInner_exact [OF assms(1), of "take (unat n') (drop (unat off) data)"] unfolding l by simp
      qed
      then show ?thesis using Cons r z g 3 1 el pos by auto
    qed (use Cons r z g 3 el pos in auto)
  qed (use Cons r z g el in \<open>auto simp: string_at_def\<close>)
qed simp

lemma ValidatePacketArray_exact:
  assumes "layout_ok L" "fits L (length data)" "unat arr \<le> length data"
  shows "ValidatePacketArray L data (word_of_nat (length data)) arr = Some (array_ok L data (unat arr))"
proof -
  let ?sz = "word_of_nat (length data) :: u32" and ?k = "unat (kOffsetSize L)"
  have len: "length data < 2 ^ 32" by (rule fitsD(5) [OF assms(2) order.refl])
  have n: "unat ?sz = length data" using len by (simp add: unat_of_nat take_bit_nat_eq_self)
  show ?thesis
  proof (cases "InBounds ?sz arr (kOffsetSize L)")
    case False
    then show ?thesis by (auto simp: ValidatePacketArray_def array_ok_def InBounds_iff n)
  next
    case True
    then have b: "unat arr + ?k \<le> length data" by (simp add: InBounds_iff n)
    then have t: "unat (arr + kOffsetSize L) = unat arr + ?k" using len by (simp add: unat_plus_if')
    define count where "count = (word_of_nat (at32 data (unat arr)) :: u32)"
    have c: "unat count = at32 data (unat arr)" by (simp add: count_def unat_at)
    have r: "ReadU32 data arr = Some count"
      using reads(2) [OF assms(1), of ?sz data arr] True by (simp add: n count_def at32_def)
    show ?thesis
    proof (cases "count > ?sz div kOffsetSize L \<or> \<not> InBounds ?sz (arr + kOffsetSize L) (count * kOffsetSize L)")
      case True
      have "\<not> unat arr + ?k + unat count * ?k \<le> length data"
      proof
        assume a: "unat arr + ?k + unat count * ?k \<le> length data"
        have k: "0 < ?k" using assms(1) by (auto simp: layout_ok_def word_le_nat_alt)
        have "unat count * ?k \<le> length data" using a by simp
        then have "unat count \<le> length data div ?k" using k by (simp add: less_eq_div_iff_mult_less_eq)
        then have "\<not> count > ?sz div kOffsetSize L" by (simp add: word_less_nat_alt unat_div n)
        moreover have "unat (count * kOffsetSize L) = unat count * ?k"
          using order.strict_trans1 [OF \<open>unat count * ?k \<le> length data\<close> len] by (simp add: unat_word_ariths(2))
        ultimately show False using True a by (simp add: InBounds_iff n t)
      qed
      then show ?thesis
        using True \<open>InBounds ?sz arr (kOffsetSize L)\<close> r by (auto simp: ValidatePacketArray_def Let_def array_ok_def c)
    next
      case False
      then have "unat (arr + kOffsetSize L) + unat count * ?k \<le> length data"
        using table_bound(2) [of count ?sz "kOffsetSize L" "arr + kOffsetSize L"] unfolding n by (simp add: not_less)
      then show ?thesis
        using False True r packet_loop_exact [OF assms(1,2), of "arr + kOffsetSize L" count "[0..<unat count]"] b
        by (auto simp: ValidatePacketArray_def Let_def array_ok_def t c)
    qed
  qed
qed

text \<open>C13: The validator accepts exactly the well-formed batches: for messages in whose address space no field offset
  wraps, its answer is the predicate \<open>batch_ok\<close> in plain numbers. In an accepted batch every packet and every
  payload lies inside the message.\<close>

theorem validator_exact:
  assumes "layout_ok L" "fits L (length data)"
  shows "YaffBatchValidator_Validate L data (word_of_nat (length data)) = Some (batch_ok L data)"
proof (cases "unat (kOffsetSize L) \<le> length data")
  case True
  note f = fitsD [OF assms(2) order.refl]
  note r = root_read [OF assms(1) f(5)]
  have root: "unat (word_of_nat (at32 data 0) :: u32) = at32 data 0" by (rule unat_at)
  show ?thesis
  proof (cases rule: ResolveField_cases [OF assms(1) f(1), of "word_of_nat (at32 data 0)"])
    case (2 b)
    then show ?thesis
    proof (cases rule: ResolveField_cases [OF assms(1) f(2), of b])
      case (2 a)
      then have "unat a \<le> length data" by (auto simp: refers_def)
      then show ?thesis
        using 2 \<open>b \<noteq> 0\<close> r True root ValidatePacketArray_exact [OF assms]
          \<open>ResolveField L data _ _ (yl_batch L) = _\<close> \<open>\<not> absent L data _ (yl_batch L)\<close> \<open>\<And>t. refers L data _ (yl_batch L) t = _\<close>
        by (auto simp: YaffBatchValidator_Validate_def ValidateBatch_def batch_ok_def)
    qed (use 2 r True root in \<open>auto simp: YaffBatchValidator_Validate_def ValidateBatch_def batch_ok_def\<close>)
  qed (use r True root in \<open>auto simp: YaffBatchValidator_Validate_def ValidateBatch_def batch_ok_def\<close>)
qed (use root_read(1) [OF assms(1) fitsD(5) [OF assms(2) order.refl]] in \<open>simp add: YaffBatchValidator_Validate_def ValidateBatch_def batch_ok_def\<close>)

text \<open>What the validator leaves out: it follows references only. A message of six bytes is accepted whose header, at
  its very end, admits the message type, a field whose place is then behind the last byte; the type is the first
  thing read of an accepted message.\<close>

definition bare_header :: "byte list" where
  "bare_header = [4, 0, 0, 0, 0x1B, 0x80]"

theorem validator_skips_scalars:
  assumes "kHeaderSize L = 2" "kOffsetSize L = 4" "fd_id (yl_batch L) = 6" "fd_id msg_type = 2"
  shows "YaffBatchValidator_Validate L bare_header (word_of_nat (length bare_header)) = Some True \<and>
     header_at L bare_header 4 \<and> admits bare_header 4 msg_type \<and> length bare_header \<le> slot L 4 msg_type"
proof -
  have r: "ReadU32 bare_header 0 = Some 4" "ReadU16 bare_header 4 = Some 0x801B"
    by (simp_all add: ReadU32_def ReadU16_def memrd_def bare_header_def le_value_def)
  have "FlatTypedLimit 6 = 0x801B" "FlatTypedLimit 2 = 0x800B" by (simp_all add: FlatTypedLimit_def push_bit_eq_mult)
  moreover have "(0x801B :: u16) AND kFlatLayoutBit \<noteq> 0" by (simp add: flat_bit)
  ultimately have "ResolveField L bare_header 6 4 (yl_batch L) = Some (True, 0)"
    using r assms by (simp add: ResolveField_def InBounds_def)
  moreover have "at16 bare_header 4 = 0x801B" by (simp add: at16_def bare_header_def le_value_def)
  ultimately show ?thesis
    using r assms \<open>FlatTypedLimit 2 = _\<close>
    by (simp add: YaffBatchValidator_Validate_def ValidateBatch_def InBounds_def header_at_def admits_def slot_def) (simp add: bare_header_def)
qed

text \<open>The layout of a 32-bit yaff with the field numbers of \<open>protocol.proto\<close>, and a batch with one packet.\<close>

definition demo_layout :: yaff_layout where
  "demo_layout = \<lparr>kHeaderSize = 2, kOffsetSize = 4, yl_batch = \<lparr>fd_id = 6, fd_offset = 8\<rparr>, yl_packets = \<lparr>fd_id = 1, fd_offset = 0\<rparr>,
     yl_packet = \<lparr>fd_id = 4, fd_offset = 8\<rparr>, yl_payload = \<lparr>fd_id = 1, fd_offset = 0\<rparr>\<rparr>"

lemma demo_layout_ok: "layout_ok demo_layout" "n < 2 ^ 31 \<Longrightarrow> fits demo_layout n"
  by (simp_all add: layout_ok_def demo_layout_def fits_def)

theorem validator_memory_safe_witness:
  "YaffBatchValidator_Validate demo_layout bare_header 6 \<noteq> None"
  using validator_memory_safe [OF demo_layout_ok(1), of bare_header] by (simp add: bare_header_def)

text \<open>The header of the root at 4, the slot of its batch at 14; the batch at 18 with its slot at 20; the array at 24
  with one element at 28, which leads to the packet's 29 bytes. These are built in the same way.\<close>

definition demo_packet_frame :: "byte list" where
  "demo_packet_frame = [4, 0, 0, 0, 0x1B, 0x80, 1, 0, 0, 0, 1, 0, 0, 0, 14, 0, 0, 0, 0x0B, 0x80, 6, 0, 0, 0, 1, 0, 0, 0, 7]"

definition demo_batch_frame :: "byte list" where
  "demo_batch_frame = [4, 0, 0, 0, 0x23, 0x80, 1, 0, 0, 0, 3, 0, 0, 0, 14, 0, 0, 0, 0x0B, 0x80, 6, 0, 0, 0, 1, 0, 0, 0, 4, 0, 0, 0,
     29, 0, 0, 0] @ demo_packet_frame"

lemma demo_reads:
  "ReadU32 demo_batch_frame 0 = Some 4" "ReadU16 demo_batch_frame 4 = Some 0x8023" "ReadU32 demo_batch_frame 14 = Some 14"
  "ReadU16 demo_batch_frame 18 = Some 0x800B" "ReadU32 demo_batch_frame 20 = Some 6" "ReadU32 demo_batch_frame 24 = Some 1"
  "ReadU32 demo_batch_frame 28 = Some 4" "ReadU32 demo_batch_frame 32 = Some 29"
  "ReadU32 demo_packet_frame 0 = Some 4" "ReadU16 demo_packet_frame 4 = Some 0x801B" "ReadU32 demo_packet_frame 14 = Some 14"
  "ReadU16 demo_packet_frame 18 = Some 0x800B" "ReadU32 demo_packet_frame 20 = Some 6" "ReadU32 demo_packet_frame 24 = Some 1"
  by (simp_all add: ReadU16_def ReadU32_def memrd_def le_value_def demo_batch_frame_def demo_packet_frame_def)

lemma demo_limits: "FlatTypedLimit 6 = 0x801B" "FlatTypedLimit 1 = 0x8007" "FlatTypedLimit 4 = 0x8013"
  by (simp_all add: FlatTypedLimit_def push_bit_eq_mult)

lemma demo_packet_accepted: "ValidateInner demo_layout demo_packet_frame 29 = Some True"
  using demo_reads demo_limits
  by (simp add: ValidateInner_def ResolveField_def ResolveString_def InBounds_def Let_def flat_bit demo_layout_def)

lemma demo_frame_accepted: "YaffBatchValidator_Validate demo_layout demo_batch_frame 65 = Some True"
proof -
  have "take 29 (drop 36 demo_batch_frame) = demo_packet_frame" by (simp add: demo_batch_frame_def demo_packet_frame_def)
  then have "packet_loop demo_layout demo_batch_frame 65 28 [0] = Some True"
    using demo_reads demo_packet_accepted by (simp add: ResolveString_def InBounds_def Let_def) (simp add: demo_layout_def)
  then have "ValidatePacketArray demo_layout demo_batch_frame 65 24 = Some True"
    using demo_reads by (simp add: ValidatePacketArray_def InBounds_def Let_def demo_layout_def)
  then show ?thesis
    using demo_reads demo_limits
    by (simp add: YaffBatchValidator_Validate_def ValidateBatch_def ResolveField_def InBounds_def Let_def flat_bit demo_layout_def)
qed

theorem validator_exact_witness: "batch_ok demo_layout demo_batch_frame"
proof -
  have "length demo_batch_frame = 65" by (simp add: demo_batch_frame_def demo_packet_frame_def)
  then show ?thesis
    using validator_exact [OF demo_layout_ok(1), of demo_batch_frame] demo_layout_ok(2) [of 65] demo_frame_accepted by simp
qed

theorem validator_skips_scalars_witness:
  "YaffBatchValidator_Validate demo_layout bare_header (word_of_nat (length bare_header)) = Some True"
  using validator_skips_scalars [of demo_layout "\<lparr>fd_id = 2, fd_offset = 4\<rparr>"] by (simp add: demo_layout_def)

end
