(* ===== verification/Serializers.thy ===== *)
theory Serializers
  imports Yaff ClientSocket
begin

text \<open>
  The messages on the web socket: \<open>src/fptn-protocol-lib/protocol/protobuf/protobuf_serializer.cpp\<close> and the rest of
  \<open>protocol/yaff/yaff_serializer.cpp\<close>. The classes of the messages are generated from
  \<open>protocol/protocol.proto\<close>; a message is a value of the type given there. The two libraries that turn messages into
  bytes and back are the records \<open>codec\<close> and \<open>yaff_codec\<close>. The arenas only hold memory and are left out.
\<close>

section \<open>Messages\<close>

datatype message_type = MSG_ERROR | MSG_IP_PACKET | MSG_IP_ASSIGNMENT | MSG_BATCH_IP_PACKET | MSG_OTHER int

datatype message_content =
    NoContent
  | ErrorContent int string
  | PacketContent "byte list" "byte list"
  | AddressContent string string
  | BatchContent "byte list list"

record proto_message =
  protocol_version :: int
  msg_type :: message_type
  message_content :: message_content

text \<open>The accessors of a part that is not there give its default.\<close>

definition payload_of :: "proto_message \<Rightarrow> byte list" where
  "payload_of m = (case message_content m of PacketContent payload _ \<Rightarrow> payload | _ \<Rightarrow> [])"

definition packets_of :: "proto_message \<Rightarrow> byte list list" where
  "packets_of m = (case message_content m of BatchContent packets \<Rightarrow> packets | _ \<Rightarrow> [])"

definition addresses_of :: "proto_message \<Rightarrow> string \<times> string" where
  "addresses_of m = (case message_content m of AddressContent v4 v6 \<Rightarrow> (v4, v6) | _ \<Rightarrow> ([], []))"

definition FPTN_PROTOBUF_PROTOCOL_VERSION :: int where "FPTN_PROTOBUF_PROTOCOL_VERSION = 1"

definition FPTN_IP_PACKET_MAX_SIZE :: nat where "FPTN_IP_PACKET_MAX_SIZE = 1400"

section \<open>Padding\<close>

definition kMinPaddingBytes :: nat where "kMinPaddingBytes = 64"

definition kMaxPaddingBytes :: nat where "kMaxPaddingBytes = 128"

text \<open>\<open>ts\<close> is the reading of the clock. The bytes are the first of the random ones; \<open>None\<close> is a load behind
  them.\<close>

definition padding_size :: "u64 \<Rightarrow> nat \<Rightarrow> nat" where
  "padding_size ts n =
     min (kMinPaddingBytes + unat ts mod (kMaxPaddingBytes - kMinPaddingBytes)) (FPTN_IP_PACKET_MAX_SIZE - n)"

definition packet_message :: "byte list \<Rightarrow> u64 \<Rightarrow> byte list \<Rightarrow> proto_message option" where
  "packet_message kPadding ts data = do {
     padding \<leftarrow> (if length data < FPTN_IP_PACKET_MAX_SIZE then memrd kPadding 0 (padding_size ts (length data)) else Some []);
     Some \<lparr>protocol_version = FPTN_PROTOBUF_PROTOCOL_VERSION, msg_type = MSG_IP_PACKET,
           message_content = PacketContent data padding\<rparr>
   }"

section \<open>Protobuf\<close>

text \<open>\<open>cd_serialize\<close> gives as many bytes as \<open>ByteSizeLong\<close> says, or fails.\<close>

record codec =
  cd_parse :: "byte list \<Rightarrow> proto_message option"
  cd_serialize :: "proto_message \<Rightarrow> byte list option"

definition serialized :: "byte list option \<Rightarrow> byte list option" where
  "serialized b = (case b of None \<Rightarrow> None | Some bytes \<Rightarrow> if bytes = [] then None else Some bytes)"

definition Pb_DeserializeIPPacket :: "codec \<Rightarrow> byte list \<Rightarrow> byte list option" where
  "Pb_DeserializeIPPacket cd buffer =
     (if buffer = [] then None
      else (case cd_parse cd buffer of
          None \<Rightarrow> None
        | Some m \<Rightarrow>
            if protocol_version m \<noteq> FPTN_PROTOBUF_PROTOCOL_VERSION then None
            else (case msg_type m of
                MSG_IP_PACKET \<Rightarrow> (case message_content m of PacketContent payload _ \<Rightarrow> Some payload | _ \<Rightarrow> None)
              | _ \<Rightarrow> None)))"

text \<open>The outer option is the load behind the padding.\<close>

definition Pb_SerializeIPPacket :: "codec \<Rightarrow> byte list \<Rightarrow> u64 \<Rightarrow> ip_packet option \<Rightarrow> byte list option option" where
  "Pb_SerializeIPPacket cd kPadding ts packet =
     (case packet of
        None \<Rightarrow> Some None
      | Some p \<Rightarrow>
          if pkt_data p = [] then Some None
          else map_option (\<lambda>m. serialized (cd_serialize cd m)) (packet_message kPadding ts (pkt_data p)))"

text \<open>Each packet comes with the reading of the clock for its padding.\<close>

fun Pb_inner :: "codec \<Rightarrow> byte list \<Rightarrow> (ip_packet option \<times> u64) list \<Rightarrow> byte list list option" where
  "Pb_inner cd kPadding [] = Some []"
| "Pb_inner cd kPadding ((packet_ptr, ts) # rest) = do {
     s \<leftarrow> (if packet_ptr = None then Some None else Pb_SerializeIPPacket cd kPadding ts packet_ptr);
     inner \<leftarrow> Pb_inner cd kPadding rest;
     Some ((case s of Some b \<Rightarrow> if b \<noteq> [] then [b] else [] | None \<Rightarrow> []) @ inner)
   }"

definition batch_message :: "byte list list \<Rightarrow> proto_message" where
  "batch_message inner =
     \<lparr>protocol_version = FPTN_PROTOBUF_PROTOCOL_VERSION, msg_type = MSG_BATCH_IP_PACKET, message_content = BatchContent inner\<rparr>"

definition Pb_SerializeBatchIPPacket ::
    "codec \<Rightarrow> byte list \<Rightarrow> (ip_packet option \<times> u64) list \<Rightarrow> byte list option option" where
  "Pb_SerializeBatchIPPacket cd kPadding packets =
     (if packets = [] then Some None
      else map_option (\<lambda>inner. if inner = [] then None else serialized (cd_serialize cd (batch_message inner)))
        (Pb_inner cd kPadding packets))"

definition Pb_unpack :: "codec \<Rightarrow> byte list \<Rightarrow> byte list list" where
  "Pb_unpack cd packet_data =
     (case cd_parse cd packet_data of
        None \<Rightarrow> []
      | Some inner \<Rightarrow>
          if msg_type inner = MSG_IP_PACKET then
            (case message_content inner of PacketContent payload _ \<Rightarrow> [payload] | _ \<Rightarrow> [])
          else [])"

definition Pb_DeserializeBatchIPPacket :: "codec \<Rightarrow> byte list \<Rightarrow> byte list list" where
  "Pb_DeserializeBatchIPPacket cd buffer =
     (if buffer = [] then []
      else (case cd_parse cd buffer of
          None \<Rightarrow> []
        | Some m \<Rightarrow>
            if msg_type m \<noteq> MSG_BATCH_IP_PACKET then []
            else (case message_content m of BatchContent packets \<Rightarrow> concat (map (Pb_unpack cd) packets) | _ \<Rightarrow> [])))"

definition assignment_message :: "string \<Rightarrow> string \<Rightarrow> proto_message" where
  "assignment_message ip_v4 ip_v6 =
     \<lparr>protocol_version = 1, msg_type = MSG_IP_ASSIGNMENT, message_content = AddressContent ip_v4 ip_v6\<rparr>"

definition Pb_SerializeIPAssignmentMessage :: "codec \<Rightarrow> string \<Rightarrow> string \<Rightarrow> byte list option" where
  "Pb_SerializeIPAssignmentMessage cd ip_v4 ip_v6 = cd_serialize cd (assignment_message ip_v4 ip_v6)"

definition both_addresses :: "string \<times> string \<Rightarrow> (string \<times> string) option" where
  "both_addresses a = (if fst a = [] \<or> snd a = [] then None else Some a)"

definition Pb_DeserializeIPAssignmentMessage :: "codec \<Rightarrow> byte list \<Rightarrow> (string \<times> string) option" where
  "Pb_DeserializeIPAssignmentMessage cd message =
     (case cd_parse cd message of
        None \<Rightarrow> None
      | Some m \<Rightarrow>
          if msg_type m \<noteq> MSG_IP_ASSIGNMENT then None
          else (case message_content m of AddressContent v4 v6 \<Rightarrow> both_addresses (v4, v6) | _ \<Rightarrow> None))"

section \<open>Yaff\<close>

text \<open>\<open>yc_serialize\<close> gives no bytes when it fails; \<open>yc_read\<close> is the view of a message at the beginning of the
  bytes.\<close>

record yaff_codec =
  yc_layout :: yaff_layout
  yc_serialize :: "proto_message \<Rightarrow> byte list"
  yc_read :: "byte list \<Rightarrow> proto_message"

fun Yaff_inner :: "yaff_codec \<Rightarrow> byte list \<Rightarrow> (ip_packet option \<times> u64) list \<Rightarrow> byte list list option" where
  "Yaff_inner Y kPadding [] = Some []"
| "Yaff_inner Y kPadding ((packet, ts) # rest) =
     (case packet of
        None \<Rightarrow> Yaff_inner Y kPadding rest
      | Some p \<Rightarrow>
          if pkt_data p = [] then Yaff_inner Y kPadding rest
          else do {
            m \<leftarrow> packet_message kPadding ts (pkt_data p);
            inner \<leftarrow> Yaff_inner Y kPadding rest;
            let inner_buffer = yc_serialize Y m;
            Some (if inner_buffer = [] then inner else inner_buffer # inner)
          })"

definition Yaff_SerializeBatchIPPacket ::
    "yaff_codec \<Rightarrow> byte list \<Rightarrow> (ip_packet option \<times> u64) list \<Rightarrow> byte list option option" where
  "Yaff_SerializeBatchIPPacket Y kPadding packets =
     (if packets = [] then Some None
      else map_option (\<lambda>inner. if inner = [] then None else serialized (Some (yc_serialize Y (batch_message inner))))
        (Yaff_inner Y kPadding packets))"

fun Yaff_unpack :: "yaff_codec \<Rightarrow> byte list list \<Rightarrow> byte list list option" where
  "Yaff_unpack Y [] = Some []"
| "Yaff_unpack Y (raw # rest) = do {
     valid \<leftarrow> HasValidYaffRootOffset (yc_layout Y) raw;
     payloads \<leftarrow> Yaff_unpack Y rest;
     let inner = yc_read Y raw;
     Some (if \<not> valid \<or> msg_type inner \<noteq> MSG_IP_PACKET \<or> payload_of inner = [] then payloads
           else payload_of inner # payloads)
   }"

definition Yaff_DeserializeBatchIPPacket :: "yaff_codec \<Rightarrow> byte list \<Rightarrow> byte list list option" where
  "Yaff_DeserializeBatchIPPacket Y buffer =
     (if buffer = [] then Some []
      else do {
        valid \<leftarrow> HasValidYaffRootOffset (yc_layout Y) buffer;
        if \<not> valid then Some []
        else do {
          valid \<leftarrow> YaffBatchValidator_Validate (yc_layout Y) buffer (word_of_nat (length buffer));
          if \<not> valid then Some []
          else
            (let m = yc_read Y buffer in
             if msg_type m \<noteq> MSG_BATCH_IP_PACKET then Some [] else Yaff_unpack Y (packets_of m))
        }
      })"

definition Yaff_SerializeIPAssignmentMessage :: "yaff_codec \<Rightarrow> string \<Rightarrow> string \<Rightarrow> byte list option" where
  "Yaff_SerializeIPAssignmentMessage Y ip_v4 ip_v6 = serialized (Some (yc_serialize Y (assignment_message ip_v4 ip_v6)))"

definition Yaff_DeserializeIPAssignmentMessage :: "yaff_codec \<Rightarrow> byte list \<Rightarrow> (string \<times> string) option option" where
  "Yaff_DeserializeIPAssignmentMessage Y message = do {
     valid \<leftarrow> HasValidYaffRootOffset (yc_layout Y) message;
     Some (if \<not> valid then None
           else
             (let view = yc_read Y message in
              if msg_type view \<noteq> MSG_IP_ASSIGNMENT then None else both_addresses (addresses_of view)))
   }"

section \<open>Bounds\<close>

lemma padding_size_bounds:
  "padding_size ts n < kMaxPaddingBytes" "n < FPTN_IP_PACKET_MAX_SIZE \<Longrightarrow> n + padding_size ts n \<le> FPTN_IP_PACKET_MAX_SIZE"
  by (auto simp: padding_size_def kMinPaddingBytes_def kMaxPaddingBytes_def min_def)

lemma packet_message_defined:
  assumes "length kPadding = kMaxPaddingBytes"
  obtains padding where "packet_message kPadding ts data =
      Some \<lparr>protocol_version = FPTN_PROTOBUF_PROTOCOL_VERSION, msg_type = MSG_IP_PACKET, message_content = PacketContent data padding\<rparr>"
    "length padding \<le> padding_size ts (length data)"
proof (cases "length data < FPTN_IP_PACKET_MAX_SIZE")
  case True
  have "memrd kPadding 0 (padding_size ts (length data)) = Some (take (padding_size ts (length data)) kPadding)"
    using padding_size_bounds(1) [of ts "length data"] assms by (simp add: memrd_def)
  then show thesis using that True by (simp add: packet_message_def)
next
  case False
  then show thesis using that [of "[]"] by (simp add: packet_message_def)
qed

lemma inner_defined:
  assumes "length kPadding = kMaxPaddingBytes"
  shows "Pb_inner cd kPadding packets \<noteq> None" "Yaff_inner Y kPadding packets \<noteq> None"
proof -
  have m: "packet_message kPadding ts data \<noteq> None" for ts data using packet_message_defined [OF assms] by blast
  then have p: "Pb_SerializeIPPacket cd kPadding ts p \<noteq> None" for ts p
    by (simp add: Pb_SerializeIPPacket_def split: option.splits del: not_None_eq)
  show "Pb_inner cd kPadding packets \<noteq> None"
  proof (induction packets)
    case (Cons x rest)
    then show ?case using p by (cases x; cases "fst x = None") (auto split: bind_splits simp del: not_None_eq)
  qed simp
  show "Yaff_inner Y kPadding packets \<noteq> None"
    using m by (induction Y kPadding packets rule: Yaff_inner.induct)
      (auto split: bind_splits option.splits simp: Let_def simp del: not_None_eq)
qed

text \<open>A message of either serializer never takes padding from behind its source, and a packet that is not already too
  long is padded to at most the limit.\<close>

theorem padding_in_bounds:
  assumes "length kPadding = kMaxPaddingBytes"
  shows "Pb_SerializeBatchIPPacket cd kPadding packets \<noteq> None \<and> Yaff_SerializeBatchIPPacket Y kPadding packets \<noteq> None \<and>
     (length data < FPTN_IP_PACKET_MAX_SIZE \<longrightarrow>
       (\<exists>padding m. packet_message kPadding ts data = Some m \<and> message_content m = PacketContent data padding \<and>
          length data + length padding \<le> FPTN_IP_PACKET_MAX_SIZE))"
proof (intro conjI impI)
  show "Pb_SerializeBatchIPPacket cd kPadding packets \<noteq> None" "Yaff_SerializeBatchIPPacket Y kPadding packets \<noteq> None"
    using inner_defined [OF assms] by (simp_all add: Pb_SerializeBatchIPPacket_def Yaff_SerializeBatchIPPacket_def)
next
  assume "length data < FPTN_IP_PACKET_MAX_SIZE"
  note b = padding_size_bounds(2) [OF this, of ts]
  obtain padding where p: "packet_message kPadding ts data =
      Some \<lparr>protocol_version = FPTN_PROTOBUF_PROTOCOL_VERSION, msg_type = MSG_IP_PACKET, message_content = PacketContent data padding\<rparr>"
    "length padding \<le> padding_size ts (length data)"
    using packet_message_defined [OF assms] by blast
  have "length data + length padding \<le> FPTN_IP_PACKET_MAX_SIZE" using b p(2) by linarith
  with p(1) show "\<exists>padding m. packet_message kPadding ts data = Some m \<and> message_content m = PacketContent data padding \<and>
          length data + length padding \<le> FPTN_IP_PACKET_MAX_SIZE"
    by auto
qed

text \<open>Reading a batch in yaff never loads outside the message, before or after the validator.\<close>

lemma HasValidYaffRootOffset_defined: "layout_ok L \<Longrightarrow> HasValidYaffRootOffset L data \<noteq> None"
  by (auto simp: HasValidYaffRootOffset_def ReadU32_def memrd_def layout_ok_def word_le_nat_alt)

lemma Yaff_unpack_defined: "layout_ok (yc_layout Y) \<Longrightarrow> Yaff_unpack Y raws \<noteq> None"
  by (induction raws) (auto simp: HasValidYaffRootOffset_defined Let_def split: bind_splits simp del: not_None_eq)

section \<open>Round trips\<close>

definition codec_ok :: "codec \<Rightarrow> bool" where
  "codec_ok cd \<longleftrightarrow> (\<forall>m bytes. cd_serialize cd m = Some bytes \<longrightarrow> cd_parse cd bytes = Some m)"

text \<open>What yaff writes is a flat message that the validator accepts.\<close>

definition yaff_ok :: "yaff_codec \<Rightarrow> bool" where
  "yaff_ok Y \<longleftrightarrow> (\<forall>m. yc_serialize Y m \<noteq> [] \<longrightarrow>
     yc_read Y (yc_serialize Y m) = m \<and>
     HasValidYaffRootOffset (yc_layout Y) (yc_serialize Y m) = Some True \<and>
     YaffBatchValidator_Validate (yc_layout Y) (yc_serialize Y m) (word_of_nat (length (yc_serialize Y m))) = Some True)"

text \<open>The data of the packets that are there, not empty, and whose message the library could write.\<close>

fun sent :: "(proto_message \<Rightarrow> byte list option) \<Rightarrow> byte list \<Rightarrow> (ip_packet option \<times> u64) list \<Rightarrow> byte list list" where
  "sent ser kPadding [] = []"
| "sent ser kPadding ((packet, ts) # rest) =
     (case packet of
        None \<Rightarrow> []
      | Some p \<Rightarrow>
          (case packet_message kPadding ts (pkt_data p) of
             None \<Rightarrow> []
           | Some m \<Rightarrow> if pkt_data p = [] \<or> serialized (ser m) = None then [] else [pkt_data p])) @ sent ser kPadding rest"

lemma packet_message_Some:
  "packet_message kPadding ts data = Some m \<Longrightarrow>
     msg_type m = MSG_IP_PACKET \<and> protocol_version m = FPTN_PROTOBUF_PROTOCOL_VERSION \<and> (\<exists>padding. message_content m = PacketContent data padding)"
  by (auto simp: packet_message_def split: bind_splits if_splits)

lemma serialized_Some: "serialized b = Some bytes \<longleftrightarrow> b = Some bytes \<and> bytes \<noteq> []"
  by (auto simp: serialized_def split: option.splits)

lemma Pb_inner_sent:
  assumes "codec_ok cd"
  shows "Pb_inner cd kPadding packets = Some inner \<Longrightarrow> concat (map (Pb_unpack cd) inner) = sent (cd_serialize cd) kPadding packets"
proof (induction packets arbitrary: inner)
  case (Cons x rest)
  obtain packet ts where x: "x = (packet, ts)" by (cases x)
  show ?case
  proof (cases packet)
    case None
    then show ?thesis using Cons by (auto simp: x split: bind_splits)
  next
    case (Some p)
    obtain s inner' where s: "Pb_SerializeIPPacket cd kPadding ts (Some p) = Some s" "Pb_inner cd kPadding rest = Some inner'"
      "inner = (case s of Some b \<Rightarrow> if b \<noteq> [] then [b] else [] | None \<Rightarrow> []) @ inner'"
      using Cons.prems by (auto simp: x Some split: bind_splits)
    have "concat (map (Pb_unpack cd) (case s of Some b \<Rightarrow> if b \<noteq> [] then [b] else [] | None \<Rightarrow> [])) =
        sent (cd_serialize cd) kPadding [(packet, ts)]"
    proof (cases "packet_message kPadding ts (pkt_data p)")
      case None
      then show ?thesis using s(1) by (auto simp: Pb_SerializeIPPacket_def Some split: if_splits)
    next
      case m: (Some m)
      obtain padding where "msg_type m = MSG_IP_PACKET" "message_content m = PacketContent (pkt_data p) padding"
        using packet_message_Some [OF m] by blast
      moreover have "s = (if pkt_data p = [] then None else serialized (cd_serialize cd m))"
        using s(1) m by (simp add: Pb_SerializeIPPacket_def split: if_splits)
      moreover have "cd_parse cd b = Some m" if "serialized (cd_serialize cd m) = Some b" for b
        using that assms by (simp add: serialized_Some codec_ok_def)
      ultimately show ?thesis
        using m by (cases "cd_serialize cd m") (auto simp: Some Pb_unpack_def serialized_def)
    qed
    then show ?thesis using Cons.IH [OF s(2)] s(3) by (simp add: x)
  qed
qed simp

lemma Yaff_inner_sent:
  assumes "yaff_ok Y"
  shows "Yaff_inner Y kPadding packets = Some inner \<Longrightarrow>
     Yaff_unpack Y inner = Some (sent (\<lambda>m. Some (yc_serialize Y m)) kPadding packets)"
proof (induction packets arbitrary: inner)
  case (Cons x rest)
  obtain packet ts where x: "x = (packet, ts)" by (cases x)
  show ?case
  proof (cases packet)
    case (Some p)
    show ?thesis
    proof (cases "packet_message kPadding ts (pkt_data p)")
      case m: (Some m)
      obtain padding where "msg_type m = MSG_IP_PACKET" "message_content m = PacketContent (pkt_data p) padding"
        using packet_message_Some [OF m] by blast
      then show ?thesis
        using Cons assms m Some by (auto simp: x Let_def yaff_ok_def payload_of_def serialized_def split: if_splits bind_splits)
    qed (use Cons Some in \<open>simp add: x split: if_splits\<close>)
  qed (use Cons in \<open>simp add: x\<close>)
qed simp

lemma Pb_batches_arrive:
  assumes "codec_ok cd" "Pb_SerializeBatchIPPacket cd kPadding packets = Some (Some buffer)"
  shows "Pb_DeserializeBatchIPPacket cd buffer = sent (cd_serialize cd) kPadding packets"
proof -
  obtain inner where "Pb_inner cd kPadding packets = Some inner" "inner \<noteq> []"
      "serialized (cd_serialize cd (batch_message inner)) = Some buffer"
    using assms(2) by (auto simp: Pb_SerializeBatchIPPacket_def split: if_splits)
  then show ?thesis
    using Pb_inner_sent [OF assms(1)] assms(1)
    by (auto simp: Pb_DeserializeBatchIPPacket_def codec_ok_def serialized_Some batch_message_def)
qed

lemma Yaff_batches_arrive:
  assumes "yaff_ok Y" "Yaff_SerializeBatchIPPacket Y kPadding packets = Some (Some buffer)"
  shows "Yaff_DeserializeBatchIPPacket Y buffer = Some (sent (\<lambda>m. Some (yc_serialize Y m)) kPadding packets)"
proof -
  obtain inner where i: "Yaff_inner Y kPadding packets = Some inner" "inner \<noteq> []"
      "serialized (Some (yc_serialize Y (batch_message inner))) = Some buffer"
    using assms(2) by (auto simp: Yaff_SerializeBatchIPPacket_def split: if_splits)
  then have "buffer \<noteq> []" "buffer = yc_serialize Y (batch_message inner)" by (simp_all add: serialized_Some)
  then show ?thesis
    using Yaff_inner_sent [OF assms(1) i(1)] assms(1)
    by (simp add: Yaff_DeserializeBatchIPPacket_def yaff_ok_def Let_def) (simp add: batch_message_def packets_of_def)
qed

text \<open>A batch arrives as it was sent, in both formats: reading what was written gives the data of the packets, in
  their order, without the padding; left out are null pointers, empty packets and those the library could not
  write.\<close>

theorem batches_arrive:
  assumes "codec_ok cd" "yaff_ok Y"
  shows "(Pb_SerializeBatchIPPacket cd kPadding packets = Some (Some buffer) \<longrightarrow>
       Pb_DeserializeBatchIPPacket cd buffer = sent (cd_serialize cd) kPadding packets) \<and>
     (Yaff_SerializeBatchIPPacket Y kPadding packets = Some (Some buffer) \<longrightarrow>
       Yaff_DeserializeBatchIPPacket Y buffer = Some (sent (\<lambda>m. Some (yc_serialize Y m)) kPadding packets))"
  using Pb_batches_arrive [OF assms(1)] Yaff_batches_arrive [OF assms(2)] by blast

lemma Yaff_assignment_arrives:
  assumes "yaff_ok Y" "Yaff_SerializeIPAssignmentMessage Y v4 v6 = Some ya"
  shows "ya \<noteq> []" "Yaff_DeserializeIPAssignmentMessage Y ya = Some (both_addresses (v4, v6))"
proof -
  show "ya \<noteq> []" using assms(2) by (simp add: Yaff_SerializeIPAssignmentMessage_def serialized_Some)
  moreover have "ya = yc_serialize Y (assignment_message v4 v6)"
    using assms(2) by (simp add: Yaff_SerializeIPAssignmentMessage_def serialized_Some)
  ultimately show "Yaff_DeserializeIPAssignmentMessage Y ya = Some (both_addresses (v4, v6))"
    using assms(1) by (simp add: Yaff_DeserializeIPAssignmentMessage_def yaff_ok_def Let_def)
      (simp add: assignment_message_def addresses_of_def)
qed

text \<open>The addresses of a session arrive in both formats, but only together: the message with an empty address is
  written and refused when it is read.\<close>

theorem assignment_arrives:
  assumes "codec_ok cd" "yaff_ok Y" "Pb_SerializeIPAssignmentMessage cd v4 v6 = Some pb"
    and "Yaff_SerializeIPAssignmentMessage Y v4 v6 = Some ya"
  shows "Pb_DeserializeIPAssignmentMessage cd pb = both_addresses (v4, v6) \<and>
     Yaff_DeserializeIPAssignmentMessage Y ya = Some (both_addresses (v4, v6))"
proof
  show "Pb_DeserializeIPAssignmentMessage cd pb = both_addresses (v4, v6)"
    using assms(1,3)
    by (simp add: Pb_SerializeIPAssignmentMessage_def Pb_DeserializeIPAssignmentMessage_def codec_ok_def assignment_message_def)
  show "Yaff_DeserializeIPAssignmentMessage Y ya = Some (both_addresses (v4, v6))"
    by (rule Yaff_assignment_arrives [OF assms(2,4)])
qed


section \<open>From the client to the server\<close>

text \<open>How a session of the server reads a batch.\<close>

definition session_batch :: "codec \<Rightarrow> yaff_codec \<Rightarrow> bool \<Rightarrow> byte list \<Rightarrow> byte list list" where
  "session_batch cd Y use_yaff_serializer buffer =
     (if use_yaff_serializer then (case Yaff_DeserializeBatchIPPacket Y buffer of Some ps \<Rightarrow> ps | None \<Rightarrow> [])
      else Pb_DeserializeBatchIPPacket cd buffer)"

text \<open>What the server announces, and the functions the client's socket uses, which speaks yaff only. The loads of
  the readers are all defined (\<open>yaff_reading_safe\<close>).\<close>

definition session_assignment :: "codec \<Rightarrow> yaff_codec \<Rightarrow> bool \<Rightarrow> string \<Rightarrow> string \<Rightarrow> byte list option" where
  "session_assignment cd Y use_yaff_serializer v4 v6 =
     (if use_yaff_serializer then Yaff_SerializeIPAssignmentMessage Y v4 v6 else Pb_SerializeIPAssignmentMessage cd v4 v6)"

definition client_yaff :: "yaff_codec \<Rightarrow> byte list \<Rightarrow> (nat \<Rightarrow> u64) \<Rightarrow> yaff" where
  "client_yaff Y kPadding clock =
     \<lparr>yf_batch = (\<lambda>b. case Yaff_DeserializeBatchIPPacket Y b of Some ps \<Rightarrow> ps | None \<Rightarrow> []),
      yf_serialize = (\<lambda>ps. case Yaff_SerializeBatchIPPacket Y kPadding (map (\<lambda>(i, p). (Some p, clock i)) (enumerate 0 ps)) of
        Some message \<Rightarrow> message | None \<Rightarrow> None),
      yf_assignment = (\<lambda>b. case Yaff_DeserializeIPAssignmentMessage Y b of Some a \<Rightarrow> a | None \<Rightarrow> None)\<rparr>"

text \<open>These functions are as theory ClientSocket wants them: the client reads the announcement of the server.\<close>

lemma announcement_read:
  assumes "yaff_ok Y" "v4 \<noteq> []" "v6 \<noteq> []" "session_assignment cd Y True v4 v6 = Some msg"
  shows "msg \<noteq> [] \<and> yf_assignment (client_yaff Y kPadding clock) msg = Some (v4, v6)"
  using Yaff_assignment_arrives [OF assms(1), of v4 v6 msg] assms(2-4)
  by (simp add: session_assignment_def client_yaff_def both_addresses_def)

lemma parsed_client: "parsed (p\<lparr>pkt_client := cid\<rparr>) \<longleftrightarrow> parsed p"
  by (simp add: parsed_def IsIPv4_iff IsIPv6_iff)

lemma sent_parsed:
  assumes "\<forall>(p, ts) \<in> set packets. parsed p \<and> (\<exists>m. packet_message kPadding ts (pkt_data p) = Some m \<and> serialized (ser m) \<noteq> None)"
  shows "List.map_filter (\<lambda>raw_ip. IPPacket_Parse raw_ip cid) (sent ser kPadding (map (\<lambda>(p, ts). (Some p, ts)) packets)) =
     map (\<lambda>(p, ts). p\<lparr>pkt_client := cid\<rparr>) packets"
  using assms
proof (induction packets)
  case (Cons x rest)
  obtain p ts where x: "x = (p, ts)" by (cases x)
  have p: "parsed p" using Cons.prems by (simp add: x)
  then have "pkt_data p \<noteq> []" using parsed_length [OF p] by auto
  moreover have "IPPacket_Parse (pkt_data p) cid = Some (p\<lparr>pkt_client := cid\<rparr>)"
    using p by (simp add: IPPacket_Parse_iff parsed_client)
  ultimately show ?case using Cons by (auto simp: x List.map_filter_def)
qed (simp add: List.map_filter_def)


section \<open>Examples\<close>

definition demo_padding :: "byte list" where "demo_padding = replicate 128 0"

definition demo_message :: proto_message where
  "demo_message = \<lparr>protocol_version = 1, msg_type = MSG_IP_PACKET, message_content = PacketContent udp_packet (replicate 64 0)\<rparr>"

lemma demo_packet_message: "packet_message demo_padding 0 (pkt_data demo_udp) = Some demo_message"
proof -
  have "length udp_packet < FPTN_IP_PACKET_MAX_SIZE" "padding_size 0 (length udp_packet) = 64"
    by (simp_all add: udp_packet_def FPTN_IP_PACKET_MAX_SIZE_def padding_size_def kMinPaddingBytes_def kMaxPaddingBytes_def)
  then show ?thesis
    by (simp add: packet_message_def memrd_def demo_padding_def demo_message_def demo_udp_def FPTN_PROTOBUF_PROTOCOL_VERSION_def)
qed

text \<open>Libraries that write three messages: a packet, a batch of it, and an assignment.\<close>

definition demo_wire :: "proto_message \<Rightarrow> byte list" where
  "demo_wire m =
     (if m = demo_message then bare_header
      else if m = batch_message [bare_header] then bare_header @ [1]
      else if m = assignment_message ''10.0.0.9'' ''fd00::9'' then bare_header @ [2]
      else [])"

definition demo_unwire :: "byte list \<Rightarrow> proto_message" where
  "demo_unwire b =
     (if b = bare_header then demo_message
      else if b = bare_header @ [1] then batch_message [bare_header]
      else assignment_message ''10.0.0.9'' ''fd00::9'')"

definition demo_codec :: codec where
  "demo_codec = \<lparr>cd_parse = (\<lambda>b. Some (demo_unwire b)), cd_serialize = (\<lambda>m. if demo_wire m = [] then None else Some (demo_wire m))\<rparr>"

definition demo_yaff_codec :: yaff_codec where
  "demo_yaff_codec = \<lparr>yc_layout = demo_layout, yc_serialize = demo_wire, yc_read = demo_unwire\<rparr>"

lemma demo_unwire_wire: "demo_wire m \<noteq> [] \<Longrightarrow> demo_unwire (demo_wire m) = m"
  by (auto simp: demo_wire_def demo_unwire_def bare_header_def split: if_splits)

lemma demo_codec_ok: "codec_ok demo_codec"
  by (auto simp: codec_ok_def demo_codec_def demo_unwire_wire)

lemma demo_frames:
  assumes "frame = bare_header @ tail" "length tail < 2"
  shows "HasValidYaffRootOffset demo_layout frame = Some True"
    "YaffBatchValidator_Validate demo_layout frame (word_of_nat (length frame)) = Some True"
proof -
  have r: "ReadU32 frame 0 = Some 4" "ReadU16 frame 4 = Some 0x801B"
    using assms(1) by (simp_all add: ReadU32_def ReadU16_def memrd_def bare_header_def le_value_def)
  have "length tail = 0 \<or> length tail = 1" using assms(2) by linarith
  then have l: "length frame = 6 \<or> length frame = 7" using assms(1) by (auto simp: bare_header_def)
  show "HasValidYaffRootOffset demo_layout frame = Some True"
    using r l by (auto simp: HasValidYaffRootOffset_def demo_layout_def)
  show "YaffBatchValidator_Validate demo_layout frame (word_of_nat (length frame)) = Some True"
    using l r demo_limits
    by (auto simp: YaffBatchValidator_Validate_def ValidateBatch_def ResolveField_def InBounds_def Let_def flat_bit demo_layout_def)
qed

lemma demo_yaff_ok: "yaff_ok demo_yaff_codec"
proof -
  have "\<exists>tail. demo_wire m = bare_header @ tail \<and> length tail < 2" if "demo_wire m \<noteq> []" for m
    using that by (auto simp: demo_wire_def split: if_splits)
  then show ?thesis using demo_unwire_wire demo_frames by (fastforce simp: yaff_ok_def demo_yaff_codec_def)
qed

lemma demo_yaff_sends:
  "Yaff_SerializeBatchIPPacket demo_yaff_codec demo_padding [(Some demo_udp, 0)] = Some (Some (bare_header @ [1]))"
proof -
  have "demo_wire demo_message = bare_header" "demo_wire (batch_message [bare_header]) = bare_header @ [1]"
    by (simp_all add: demo_wire_def demo_message_def batch_message_def)
  then show ?thesis
    using demo_packet_message
    by (simp add: Yaff_SerializeBatchIPPacket_def Let_def serialized_def demo_yaff_codec_def bare_header_def)
      (simp add: demo_udp_def udp_packet_def)
qed


theorem batches_arrive_witness:
  "Yaff_DeserializeBatchIPPacket demo_yaff_codec (bare_header @ [1]) = Some [udp_packet]"
proof -
  have "serialized (Some (demo_wire demo_message)) \<noteq> None" "udp_packet \<noteq> []"
    by (simp_all add: serialized_def demo_wire_def bare_header_def udp_packet_def)
  then show ?thesis
    using batches_arrive [OF demo_codec_ok demo_yaff_ok, of demo_padding "[(Some demo_udp, 0)]"] demo_yaff_sends demo_packet_message
    by (simp add: demo_yaff_codec_def) (simp add: demo_udp_def)
qed

theorem assignment_arrives_witness:
  "Yaff_DeserializeIPAssignmentMessage demo_yaff_codec (bare_header @ [2]) = Some (Some (''10.0.0.9'', ''fd00::9''))"
proof -
  have w: "demo_wire (assignment_message ''10.0.0.9'' ''fd00::9'') = bare_header @ [2]"
    by (simp add: demo_wire_def demo_message_def batch_message_def assignment_message_def)
  show ?thesis
    using assignment_arrives [OF demo_codec_ok demo_yaff_ok, of "''10.0.0.9''" "''fd00::9''"] w
    by (simp add: Pb_SerializeIPAssignmentMessage_def Yaff_SerializeIPAssignmentMessage_def demo_codec_def demo_yaff_codec_def
        serialized_def both_addresses_def)
qed


theorem padding_in_bounds_witness:
  "Yaff_SerializeBatchIPPacket demo_yaff_codec demo_padding [(Some demo_udp, 5)] \<noteq> None"
  using padding_in_bounds [of demo_padding, where Y = demo_yaff_codec] by (simp add: demo_padding_def kMaxPaddingBytes_def)

end
